(* ===== verification/Prelude.thy ===== *)
theory Prelude
  imports
    Main
    "HOL-Library.Char_ord"
    "HOL-Library.List_Lexorder"
    "HOL-Library.Product_Lexorder"
    "HOL-Library.Option_ord"
    "HOL-Library.Multiset"
    "HOL-Library.Sublist"
begin

text \<open>
  Shared base of the development: the parts of Rust's standard library the scanner uses.

    \<^item> \<open>Ordering\<close>, \<open>Ord::cmp\<close>, \<open>then_with\<close> and the stable \<open>sort_by\<close>; the contract of a
      comparator is the locale \<open>comparator_laws\<close>, whose lemmas (sorted, permutation,
      stable, independent of the input order) every sort of the program inherits.
    \<^item> \<open>BTreeMap\<close>/\<open>HashMap\<close> with the entry API; the contract is the locale \<open>entry_map\<close>
      (extended by \<open>ordered_entry_map\<close>), the provider is a strictly sorted association
      list. A \<open>HashMap\<close> of the source is modelled by the same container wherever the code
      sorts what it drains from the map, which makes the bucket order unobservable
      (\<open>sort_by_perm_eq\<close>).
    \<^item> strings: a \<open>string\<close> is the UTF-8 byte sequence of a Rust \<open>&str\<close>; \<open>len\<close>,
      \<open>contains\<close>, \<open>find\<close>, \<open>starts_with\<close> and the ASCII case operations work on bytes in
      Rust as well. Unicode white space is recognised by its UTF-8 encoding.
\<close>

section \<open>Hints\<close>

named_theorems rust_str \<open>unfolding rules for the string primitives\<close>
named_theorems order_rules \<open>introduction rules for the laws of a comparator\<close>

section \<open>Orderings and stable sorting\<close>

datatype ordering = Less | Equal | Greater

definition ord_cmp :: "'a::linorder \<Rightarrow> 'a \<Rightarrow> ordering" where
  "ord_cmp a b = (if a < b then Less else if a = b then Equal else Greater)"

primrec then_with :: "ordering \<Rightarrow> ordering \<Rightarrow> ordering" where
  "then_with Less _ = Less"
| "then_with Equal o2 = o2"
| "then_with Greater _ = Greater"

primrec ordering_reverse :: "ordering \<Rightarrow> ordering" where
  "ordering_reverse Less = Greater"
| "ordering_reverse Equal = Equal"
| "ordering_reverse Greater = Less"

text \<open>Rust's \<open>slice::sort_by\<close> is stable; insertion keeps the earlier of two equal elements first.\<close>

fun insort_cmp :: "('a \<Rightarrow> 'a \<Rightarrow> ordering) \<Rightarrow> 'a \<Rightarrow> 'a list \<Rightarrow> 'a list" where
  "insort_cmp c x [] = [x]"
| "insort_cmp c x (y # ys) = (if c x y = Greater then y # insort_cmp c x ys else x # y # ys)"

definition sort_by :: "('a \<Rightarrow> 'a \<Rightarrow> ordering) \<Rightarrow> 'a list \<Rightarrow> 'a list" where
  "sort_by c xs = foldr (insort_cmp c) xs []"

lemma sort_by_simps [simp]:
  "sort_by c [] = []"
  "sort_by c (x # xs) = insort_cmp c x (sort_by c xs)"
  by (simp_all add: sort_by_def)

lemma mset_insort_cmp [simp]: "mset (insort_cmp c x xs) = add_mset x (mset xs)"
  by (induction xs) auto

lemma mset_sort_by [simp]: "mset (sort_by c xs) = mset xs"
  by (induction xs) auto

lemma set_sort_by [simp]: "set (sort_by c xs) = set xs"
  by (metis mset_sort_by set_mset_mset)

lemma length_sort_by [simp]: "length (sort_by c xs) = length xs"
  by (metis mset_sort_by size_mset)

lemma distinct_sort_by [simp]: "distinct (sort_by c xs) \<longleftrightarrow> distinct xs"
  by (metis mset_sort_by mset_eq_imp_distinct_iff)

lemma distinct_map_sort_by [simp]: "distinct (map f (sort_by c xs)) \<longleftrightarrow> distinct (map f xs)"
  by (metis mset_sort_by mset_map mset_eq_imp_distinct_iff)

lemma sum_list_map_sort_by [simp]:
  "sum_list (map f (sort_by c xs)) = (sum_list (map f xs) :: 'b::comm_monoid_add)"
  by (metis mset_sort_by mset_map sum_mset_sum_list)

lemma sort_by_Nil_iff [simp]: "sort_by c xs = [] \<longleftrightarrow> xs = []"
  by (metis length_0_conv length_sort_by)

text \<open>The contract of a comparator that Rust's \<open>sort_by\<close> documents: a total preorder.\<close>

locale comparator_laws =
  fixes c :: "'a \<Rightarrow> 'a \<Rightarrow> ordering"
  assumes cmp_flip: "c y x = ordering_reverse (c x y)"
    and cmp_trans: "c x y \<noteq> Greater \<Longrightarrow> c y z \<noteq> Greater \<Longrightarrow> c x z \<noteq> Greater"
begin

lemma cmp_refl: "c x x = Equal"
  using cmp_flip [of x x] by (cases "c x x") auto

lemma cmp_total: "c x y = Greater \<Longrightarrow> c y x = Less"
  using cmp_flip [of y x] by simp

lemma cmp_equal_sym: "c x y = Equal \<longleftrightarrow> c y x = Equal"
  using cmp_flip [of x y] cmp_flip [of y x] by auto

lemma insort_sorted:
  "sorted_wrt (\<lambda>a b. c a b \<noteq> Greater) xs
     \<Longrightarrow> sorted_wrt (\<lambda>a b. c a b \<noteq> Greater) (insort_cmp c x xs)"
proof (induction xs)
  case Nil
  then show ?case by simp
next
  case (Cons y ys)
  have set_ins: "set (insort_cmp c x ys) = insert x (set ys)"
    by (metis mset_insort_cmp set_mset_add_mset_insert set_mset_mset)
  show ?case
  proof (cases "c x y = Greater")
    case True
    with Cons show ?thesis by (auto simp: set_ins dest: cmp_total)
  next
    case False
    with Cons.prems show ?thesis using cmp_trans [OF False] by simp
  qed
qed

lemma sort_by_sorted: "sorted_wrt (\<lambda>a b. c a b \<noteq> Greater) (sort_by c xs)"
  by (induction xs) (auto intro: insort_sorted)

lemma insort_stable:
  assumes "\<And>y z. P y \<Longrightarrow> P z \<Longrightarrow> c y z = Equal"
  shows "filter P (insort_cmp c x xs) = (if P x then x # filter P xs else filter P xs)"
  using assms by (induction xs) auto

lemma sort_by_stable: "filter (\<lambda>y. c x y = Equal) (sort_by c xs) = filter (\<lambda>y. c x y = Equal) xs"
proof -
  have eq: "c y z = Equal" if "c x y = Equal" "c x z = Equal" for y z
  proof -
    have "c y x = Equal" "c z x = Equal" using that cmp_equal_sym by blast+
    then have "c y z \<noteq> Greater" "c z y \<noteq> Greater"
      using that cmp_trans [of y x z] cmp_trans [of z x y] by auto
    then show ?thesis using cmp_flip [of z y] by (cases "c y z") auto
  qed
  show ?thesis
    by (induction xs) (simp_all add: insort_stable [of "\<lambda>y. c x y = Equal", OF eq])
qed

lemma sorted_perm_unique:
  assumes "sorted_wrt (\<lambda>a b. c a b \<noteq> Greater) xs" "sorted_wrt (\<lambda>a b. c a b \<noteq> Greater) ys"
    and "mset xs = mset ys"
    and inj: "\<And>a b. a \<in> set xs \<Longrightarrow> b \<in> set xs \<Longrightarrow> c a b = Equal \<Longrightarrow> a = b"
  shows "xs = ys"
  using assms
proof (induction xs arbitrary: ys)
  case Nil
  then show ?case by simp
next
  case (Cons x xs)
  then obtain y ys' where ys: "ys = y # ys'" by (cases ys) auto
  have mem: "y \<in> set (x # xs)" "x \<in> set (y # ys')"
    using Cons.prems(3) ys by (metis list.set_intros(1) mset_eq_setD)+
  have "x = y"
  proof (rule ccontr)
    assume ne: "x \<noteq> y"
    with mem Cons.prems(1,2) ys have "c x y \<noteq> Greater" "c y x \<noteq> Greater" by auto
    then have "c x y = Equal" using cmp_flip [of y x] by (cases "c x y") auto
    with Cons.prems(4) mem ne show False by auto
  qed
  with Cons.prems ys have "xs = ys'" by (intro Cons.IH) auto
  with \<open>x = y\<close> ys show ?case by simp
qed

lemma sort_by_perm_eq:
  assumes "mset xs = mset ys"
    and "\<And>a b. a \<in> set xs \<Longrightarrow> b \<in> set xs \<Longrightarrow> c a b = Equal \<Longrightarrow> a = b"
  shows "sort_by c xs = sort_by c ys"
  using assms by (intro sorted_perm_unique sort_by_sorted) auto

end

lemma comparator_key [order_rules, intro]: "comparator_laws (\<lambda>a b. ord_cmp (f a) (f b))"
  by unfold_locales (auto simp: ord_cmp_def split: if_splits)

lemma comparator_key_desc [order_rules, intro]: "comparator_laws (\<lambda>a b. ord_cmp (f b) (f a))"
  by unfold_locales (auto simp: ord_cmp_def split: if_splits)

lemma then_with_Greater:
  "then_with a b \<noteq> Greater \<longleftrightarrow> a = Less \<or> a = Equal \<and> b \<noteq> Greater"
  by (cases a) auto

lemma comparator_then [order_rules, intro]:
  assumes "comparator_laws c1" "comparator_laws c2"
  shows "comparator_laws (\<lambda>a b. then_with (c1 a b) (c2 a b))"
proof unfold_locales
  fix x y
  show "then_with (c1 y x) (c2 y x) = ordering_reverse (then_with (c1 x y) (c2 x y))"
    using comparator_laws.cmp_flip [OF assms(1), of y x] comparator_laws.cmp_flip [OF assms(2), of y x]
    by (cases "c1 x y") auto
next
  fix x y z
  assume xy: "then_with (c1 x y) (c2 x y) \<noteq> Greater" and yz: "then_with (c1 y z) (c2 y z) \<noteq> Greater"
  note t1 = comparator_laws.cmp_trans [OF assms(1)] and t2 = comparator_laws.cmp_trans [OF assms(2)]
  note f1 = comparator_laws.cmp_flip [OF assms(1)]
  have le: "c1 x y \<noteq> Greater" "c1 y z \<noteq> Greater" using xy yz by (auto simp: then_with_Greater)
  then have xz: "c1 x z \<noteq> Greater" by (rule t1)
  show "then_with (c1 x z) (c2 x z) \<noteq> Greater"
  proof (cases "c1 x z")
    case Equal
    then have zx: "c1 z x \<noteq> Greater" using f1 [of z x] by simp
    have "c1 y x \<noteq> Greater" using t1 [OF le(2) zx] .
    then have "c1 x y = Equal" using le(1) f1 [of y x] by (cases "c1 x y") auto
    moreover have "c1 z y \<noteq> Greater" using t1 [OF zx le(1)] .
    then have "c1 y z = Equal" using le(2) f1 [of z y] by (cases "c1 y z") auto
    ultimately show ?thesis using Equal xy yz t2 by (auto simp: then_with_Greater)
  qed (use xz in \<open>auto simp: then_with_Greater\<close>)
qed

lemma ord_cmp_Equal [simp]: "ord_cmp a b = Equal \<longleftrightarrow> a = b"
  by (auto simp: ord_cmp_def)

lemma ord_cmp_not_Greater [simp]: "ord_cmp a b \<noteq> Greater \<longleftrightarrow> a \<le> b"
  by (auto simp: ord_cmp_def)

lemma then_with_Equal [simp]: "then_with a b = Equal \<longleftrightarrow> a = Equal \<and> b = Equal"
  by (cases a) auto

section \<open>Maps with the entry API\<close>

text \<open>
  \<open>entry k h m\<close> is \<open>m.entry(k).and_modify(f).or_insert(v)\<close> with
  \<open>h None = v\<close> and \<open>h (Some x) = f x\<close>.
\<close>

locale entry_map =
  fixes empty :: "'m"
    and entry :: "'k \<Rightarrow> ('v option \<Rightarrow> 'v) \<Rightarrow> 'm \<Rightarrow> 'm"
    and get :: "'m \<Rightarrow> 'k \<Rightarrow> 'v option"
    and invar :: "'m \<Rightarrow> bool"
  assumes invar_empty: "invar empty"
    and invar_entry: "invar m \<Longrightarrow> invar (entry k h m)"
    and get_empty: "get empty k = None"
    and get_entry: "invar m \<Longrightarrow> get (entry k h m) j = (if j = k then Some (h (get m k)) else get m j)"
begin

lemma invar_fold: "invar m \<Longrightarrow> invar (foldl (\<lambda>m x. entry (key x) (h x) m) m xs)"
  by (induction xs arbitrary: m) (auto simp: invar_entry)

lemma get_fold:
  "invar m \<Longrightarrow> get (foldl (\<lambda>m x. entry (key x) (h x) m) m xs) k
     = foldl (\<lambda>o' x. Some (h x o')) (get m k) (filter (\<lambda>x. key x = k) xs)"
  by (induction xs arbitrary: m) (auto simp: invar_entry get_entry)

lemma get_fold_None:
  assumes "invar m"
  shows "get (foldl (\<lambda>m x. entry (key x) (h x) m) m xs) k = None
           \<longleftrightarrow> get m k = None \<and> k \<notin> key ` set xs"
  using assms
proof (induction xs arbitrary: m)
  case Nil
  then show ?case by simp
next
  case (Cons x xs)
  then show ?case by (auto simp: invar_entry get_entry)
qed

lemma get_fold_empty_None:
  "get (foldl (\<lambda>m x. entry (key x) (h x) m) empty xs) k = None \<longleftrightarrow> k \<notin> key ` set xs"
  by (simp add: get_fold_None invar_empty get_empty)

end

locale ordered_entry_map = entry_map empty entry get invar
  for empty :: "'m"
    and entry :: "'k::linorder \<Rightarrow> ('v option \<Rightarrow> 'v) \<Rightarrow> 'm \<Rightarrow> 'm"
    and get :: "'m \<Rightarrow> 'k \<Rightarrow> 'v option"
    and invar :: "'m \<Rightarrow> bool" +
  fixes items :: "'m \<Rightarrow> ('k \<times> 'v) list"
  assumes items_get: "invar m \<Longrightarrow> map_of (items m) = get m"
    and items_sorted: "invar m \<Longrightarrow> sorted_wrt (<) (map fst (items m))"
begin

lemma items_distinct: "invar m \<Longrightarrow> distinct (map fst (items m))"
  using items_sorted strict_sorted_iff by blast

lemma items_iff: "invar m \<Longrightarrow> (k, v) \<in> set (items m) \<longleftrightarrow> get m k = Some v"
  by (metis items_distinct items_get map_of_eq_Some_iff)

lemma keys_iff: "invar m \<Longrightarrow> k \<in> fst ` set (items m) \<longleftrightarrow> get m k \<noteq> None"
  by (metis items_get map_of_eq_None_iff)

lemma keys_fold: "fst ` set (items (foldl (\<lambda>m x. entry (key x) (h x) m) empty xs)) = key ` set xs"
proof -
  let ?m = "foldl (\<lambda>m x. entry (key x) (h x) m) empty xs"
  have "k \<in> fst ` set (items ?m) \<longleftrightarrow> k \<in> key ` set xs" for k
    unfolding keys_iff [OF invar_fold [OF invar_empty]] get_fold_empty_None by simp
  then show ?thesis by blast
qed

end

fun bt_entry :: "'k::linorder \<Rightarrow> ('v option \<Rightarrow> 'v) \<Rightarrow> ('k \<times> 'v) list \<Rightarrow> ('k \<times> 'v) list" where
  "bt_entry k h [] = [(k, h None)]"
| "bt_entry k h ((j, v) # m) =
     (if k < j then (k, h None) # (j, v) # m
      else if k = j then (j, h (Some v)) # m
      else (j, v) # bt_entry k h m)"

definition bt_insert :: "'k::linorder \<Rightarrow> 'v \<Rightarrow> ('k \<times> 'v) list \<Rightarrow> ('k \<times> 'v) list" where
  "bt_insert k v m = bt_entry k (\<lambda>_. v) m"

definition bt_invar :: "('k::linorder \<times> 'v) list \<Rightarrow> bool" where
  "bt_invar m \<longleftrightarrow> sorted_wrt (<) (map fst m)"

lemma bt_entry_keys: "fst ` set (bt_entry k h m) = insert k (fst ` set m)"
  by (induction k h m rule: bt_entry.induct) auto

lemma bt_entry_keys': "set (map fst (bt_entry k h m)) = insert k (set (map fst m))"
  by (metis bt_entry_keys set_map)

lemma bt_invar_entry: "bt_invar m \<Longrightarrow> bt_invar (bt_entry k h m)"
  unfolding bt_invar_def
proof (induction k h m rule: bt_entry.induct)
  case (1 k h)
  then show ?case by simp
next
  case (2 k h j v m)
  have "\<forall>x\<in>set (map fst (bt_entry k h m)). j < x" if "j < k"
    using that 2(2) by (auto simp: bt_entry_keys' simp del: set_map)
  moreover have "sorted_wrt (<) (map fst (bt_entry k h m))" if "j < k"
    using that 2 by auto
  ultimately show ?case using 2(2) by (auto dest: order.strict_trans)
qed

lemma bt_get_entry:
  "bt_invar m \<Longrightarrow> map_of (bt_entry k h m) j = (if j = k then Some (h (map_of m k)) else map_of m j)"
proof (induction k h m rule: bt_entry.induct)
  case (1 k h)
  then show ?case by simp
next
  case (2 k h i v m)
  have "map_of m k = None" if "k < i"
    using that 2(2) by (auto simp: bt_invar_def map_of_eq_None_iff)
  with 2 show ?case by (auto simp: bt_invar_def)
qed

interpretation bt: ordered_entry_map "[]" bt_entry map_of bt_invar "\<lambda>m. m"
  by unfold_locales (auto simp: bt_invar_entry bt_get_entry, auto simp: bt_invar_def)

text \<open>A strictly sorted association list is determined by the map it represents.\<close>

lemma bt_rebuild:
  assumes "distinct (map fst m)"
  shows "m = map (\<lambda>k. (k, the (map_of m k))) (map fst m)"
proof -
  have "map (\<lambda>e. (fst e, the (map_of m (fst e)))) m = map (\<lambda>e. e) m"
    using assms by (intro map_cong) (auto simp: map_of_eq_Some_iff)
  then show ?thesis by (simp add: comp_def)
qed

lemma bt_canonical:
  assumes "bt_invar m" "bt_invar m'" "map_of m = map_of m'"
  shows "m = m'"
proof -
  have d: "sorted (map fst m)" "distinct (map fst m)" "sorted (map fst m')" "distinct (map fst m')"
    using assms(1,2) by (simp_all add: bt_invar_def strict_sorted_iff)
  have "set (map fst m) = dom (map_of m)" "set (map fst m') = dom (map_of m')"
    by (simp_all add: dom_map_of_conv_image_fst)
  then have "map fst m = map fst m'"
    using d assms(3) by (intro sorted_distinct_set_unique) simp_all
  then show ?thesis
    using bt_rebuild [OF d(2)] bt_rebuild [OF d(4)] assms(3) by (metis (no_types))
qed

text \<open>Totals and sizes over the drained entries.\<close>

lemma bt_entry_total:
  assumes "\<And>x. c (h (Some x)) = c x + n" "c (h None) = n"
  shows "sum_list (map (\<lambda>e. c (snd e)) (bt_entry k h m)) = sum_list (map (\<lambda>e. c (snd e)) m) + (n :: nat)"
  using assms by (induction k h m rule: bt_entry.induct) auto

lemma bt_fold_total:
  assumes "\<And>x v. c (h x (Some v)) = c v + n x" "\<And>x. c (h x None) = n x"
  shows "sum_list (map (\<lambda>e. c (snd e)) (foldl (\<lambda>m x. bt_entry (key x) (h x) m) m xs))
           = sum_list (map (\<lambda>e. c (snd e)) m) + (sum_list (map n xs) :: nat)"
  by (induction xs arbitrary: m) (simp_all add: bt_entry_total [where n = "n _"] assms add.assoc)

lemma bt_entry_length: "length (bt_entry k h m) \<le> Suc (length m)"
  by (induction k h m rule: bt_entry.induct) auto

lemma bt_fold_length:
  "length (foldl (\<lambda>m x. bt_entry (key x) (h x) m) m xs) \<le> length m + length xs"
proof (induction xs arbitrary: m)
  case (Cons x xs)
  show ?case using Cons [of "bt_entry (key x) (h x) m"] bt_entry_length [of "key x" "h x" m] by simp
qed simp

text \<open>\<open>BTreeSet\<close>: a strictly sorted list.\<close>

definition bset_collect :: "'a::linorder list \<Rightarrow> 'a list" where
  "bset_collect xs = foldl (\<lambda>s x. insort_insert x s) [] xs"

lemma bset_collect_set [simp]: "set (bset_collect xs) = set xs"
proof -
  have "set (foldl (\<lambda>s x. insort_insert x s) s xs) = set s \<union> set xs" for s
    by (induction xs arbitrary: s) (auto simp: set_insort_insert)
  then show ?thesis by (simp add: bset_collect_def)
qed

lemma bset_collect_sorted: "sorted (bset_collect xs) \<and> distinct (bset_collect xs)"
proof -
  have "sorted s \<and> distinct s \<Longrightarrow> sorted (foldl (\<lambda>s x. insort_insert x s) s xs)
          \<and> distinct (foldl (\<lambda>s x. insort_insert x s) s xs)" for s
    by (induction xs arbitrary: s) (auto simp: sorted_insort_insert distinct_insort_insert)
  then show ?thesis by (simp add: bset_collect_def)
qed

section \<open>Strings as UTF-8 bytes\<close>

definition byte_of :: "char \<Rightarrow> nat" where
  "byte_of c = of_char c"

definition ascii_lower :: "char \<Rightarrow> char" where
  "ascii_lower c = (if 65 \<le> byte_of c \<and> byte_of c \<le> 90 then char_of (byte_of c + 32) else c)"

definition to_ascii_lowercase :: "string \<Rightarrow> string" where
  "to_ascii_lowercase s = map ascii_lower s"

definition eq_ignore_ascii_case :: "string \<Rightarrow> string \<Rightarrow> bool" where
  "eq_ignore_ascii_case a b \<longleftrightarrow> to_ascii_lowercase a = to_ascii_lowercase b"

definition starts_with :: "string \<Rightarrow> string \<Rightarrow> bool" where
  "starts_with s p = prefix p s"

definition ends_with :: "string \<Rightarrow> string \<Rightarrow> bool" where
  "ends_with s p = suffix p s"

fun str_find :: "string \<Rightarrow> string \<Rightarrow> nat option" where
  "str_find [] n = (if n = [] then Some 0 else None)"
| "str_find (c # cs) n = (if prefix n (c # cs) then Some 0 else map_option Suc (str_find cs n))"

fun str_rfind :: "string \<Rightarrow> string \<Rightarrow> nat option" where
  "str_rfind [] n = (if n = [] then Some 0 else None)"
| "str_rfind (c # cs) n =
     (case str_rfind cs n of Some i \<Rightarrow> Some (Suc i)
      | None \<Rightarrow> if prefix n (c # cs) then Some 0 else None)"

definition str_contains :: "string \<Rightarrow> string \<Rightarrow> bool" where
  "str_contains s n \<longleftrightarrow> str_find s n \<noteq> None"

definition strip_prefix :: "string \<Rightarrow> string \<Rightarrow> string option" where
  "strip_prefix s p = (if prefix p s then Some (drop (length p) s) else None)"

text \<open>
  The scanning loop \<open>while let Some(pos) = s[start..].find(t) { if ok(start + pos) { return true; }
  start += pos + t.len(); }\<close>. Every token the program scans for is a non-empty constant; with an
  empty token the loop would not advance, and the model stops there.
\<close>

function scan_occurrences :: "(nat \<Rightarrow> bool) \<Rightarrow> string \<Rightarrow> string \<Rightarrow> nat \<Rightarrow> bool" where
  "scan_occurrences ok s t start =
     (case str_find (drop start s) t of
        None \<Rightarrow> False
      | Some pos \<Rightarrow>
          if ok (start + pos) then True
          else if t = [] then False
          else scan_occurrences ok s t (start + pos + length t))"
  by pat_completeness auto

lemma str_find_length: "str_find s n = Some i \<Longrightarrow> i + length n \<le> length s"
  by (induction s arbitrary: i) (auto split: if_splits dest: prefix_length_le)

termination scan_occurrences
proof (relation "measure (\<lambda>(ok, s, t, start). length s - start)", goal_cases)
  case 1
  then show ?case by simp
next
  case (2 ok s t start pos)
  then have "pos + length t \<le> length s - start" using str_find_length by fastforce
  with 2 show ?case by (cases t) auto
qed

declare scan_occurrences.simps [simp del]

lemma str_contains_iff: "str_contains s n \<longleftrightarrow> (\<exists>a b. s = a @ n @ b)"
proof (induction s)
  case Nil
  then show ?case by (auto simp: str_contains_def)
next
  case (Cons c cs)
  have "(\<exists>a b. c # cs = a @ n @ b) \<longleftrightarrow> prefix n (c # cs) \<or> (\<exists>a b. cs = a @ n @ b)"
    by (metis (no_types, lifting) Cons_eq_append_conv append_Cons append_Nil prefix_def)
  with Cons show ?case by (auto simp: str_contains_def split: option.splits)
qed

lemma str_find_Some:
  "str_find s n = Some i \<Longrightarrow> i + length n \<le> length s \<and> prefix n (drop i s)"
  by (induction s arbitrary: i) (auto split: if_splits dest: prefix_length_le)

lemma str_rfind_Some:
  "str_rfind s n = Some i \<Longrightarrow> i + length n \<le> length s \<and> prefix n (drop i s)"
  by (induction s arbitrary: i) (auto split: if_splits option.splits dest: prefix_length_le)

text \<open>
  \<open>chars\<close>: the characters of a \<open>&str\<close>, each as its UTF-8 bytes. \<open>is_whitespace\<close> is
  Unicode \<open>White_Space\<close> on these encodings.
\<close>

definition utf8_extra :: "char \<Rightarrow> nat" where
  "utf8_extra c =
     (let b = byte_of c in
      if b < 192 then 0 else if b < 224 then 1 else if b < 240 then 2 else 3)"

function str_chars :: "string \<Rightarrow> string list" where
  "str_chars [] = []"
| "str_chars (c # cs) = (c # take (utf8_extra c) cs) # str_chars (drop (utf8_extra c) cs)"
  by pat_completeness auto
termination
  by (relation "measure length") auto

definition ascii_whitespace_byte :: "char \<Rightarrow> bool" where
  "ascii_whitespace_byte c \<longleftrightarrow> byte_of c \<in> {9, 10, 12, 13, 32}"

definition is_whitespace :: "string \<Rightarrow> bool" where
  "is_whitespace ch \<longleftrightarrow>
     (let b = map byte_of ch in
        b \<in> {[9], [10], [11], [12], [13], [32], [194, 133], [194, 160], [225, 154, 128],
            [226, 128, 168], [226, 128, 169], [226, 128, 175], [226, 129, 159], [227, 128, 128]}
        \<or> (length b = 3 \<and> b ! 0 = 226 \<and> b ! 1 = 128 \<and> 128 \<le> b ! 2 \<and> b ! 2 \<le> 138))"

definition str_trim_start :: "string \<Rightarrow> string" where
  "str_trim_start s = concat (dropWhile is_whitespace (str_chars s))"

definition str_trim_end :: "string \<Rightarrow> string" where
  "str_trim_end s = concat (rev (dropWhile is_whitespace (rev (str_chars s))))"

definition str_trim :: "string \<Rightarrow> string" where
  "str_trim s = concat (rev (dropWhile is_whitespace (rev (dropWhile is_whitespace (str_chars s)))))"

fun split_ws_chars :: "string \<Rightarrow> string list \<Rightarrow> string list" where
  "split_ws_chars cur [] = (if cur = [] then [] else [cur])"
| "split_ws_chars cur (ch # chs) =
     (if is_whitespace ch
      then (if cur = [] then split_ws_chars [] chs else cur # split_ws_chars [] chs)
      else split_ws_chars (cur @ ch) chs)"

definition split_whitespace :: "string \<Rightarrow> string list" where
  "split_whitespace s = split_ws_chars [] (str_chars s)"

definition strip_suffix :: "string \<Rightarrow> string \<Rightarrow> string option" where
  "strip_suffix s p = (if suffix p s then Some (take (length s - length p) s) else None)"

text \<open>\<open>str::lines\<close>: a carriage return goes only in front of a line feed.\<close>

definition strip_cr :: "string \<Rightarrow> string" where
  "strip_cr l = (case strip_suffix l [CHR 0x0D] of Some m \<Rightarrow> m | None \<Rightarrow> l)"

fun str_lines_from :: "string \<Rightarrow> string \<Rightarrow> string list" where
  "str_lines_from cur [] = (if cur = [] then [] else [cur])"
| "str_lines_from cur (c # cs) =
     (if c = CHR 0x0A then strip_cr cur # str_lines_from [] cs
      else str_lines_from (cur @ [c]) cs)"

definition str_lines :: "string \<Rightarrow> string list" where
  "str_lines s = str_lines_from [] s"

lemma concat_str_chars [simp]: "concat (str_chars s) = s"
  by (induction s rule: str_chars.induct) auto

lemma to_ascii_lowercase_length [simp]: "length (to_ascii_lowercase s) = length s"
  by (simp add: to_ascii_lowercase_def)

lemma byte_of_ascii_lower:
  "byte_of (ascii_lower c) = (if 65 \<le> byte_of c \<and> byte_of c \<le> 90 then byte_of c + 32 else byte_of c)"
  by (auto simp: ascii_lower_def byte_of_def)

lemma ascii_lower_idem [simp]: "ascii_lower (ascii_lower c) = ascii_lower c"
  using byte_of_ascii_lower [of c] by (auto simp: ascii_lower_def [of "ascii_lower c"] split: if_splits)

lemma to_ascii_lowercase_idem [simp]:
  "to_ascii_lowercase (to_ascii_lowercase s) = to_ascii_lowercase s"
  by (simp add: to_ascii_lowercase_def)

lemma eq_ignore_ascii_case_refl [simp]: "eq_ignore_ascii_case s s"
  by (simp add: eq_ignore_ascii_case_def)

section \<open>The question mark operator\<close>

text \<open>\<open>and_then r f\<close> is \<open>f(r?)\<close>: an error returns at once.\<close>

definition and_then :: "'e + 'a \<Rightarrow> ('a \<Rightarrow> 'e + 'b) \<Rightarrow> 'e + 'b" where
  "and_then r f = (case r of Inl e \<Rightarrow> Inl e | Inr x \<Rightarrow> f x)"

lemma and_then_simps [simp]: "and_then (Inl e) f = Inl e" "and_then (Inr x) f = f x"
  by (simp_all add: and_then_def)

lemma and_then_cong [fundef_cong]:
  "r = r' \<Longrightarrow> (\<And>x. r' = Inr x \<Longrightarrow> f x = f' x) \<Longrightarrow> and_then r f = and_then r' f'"
  by (cases r') auto

lemma and_then_Inr: "and_then r f = Inr y \<longleftrightarrow> (\<exists>x. r = Inr x \<and> f x = Inr y)"
  by (cases r) auto

lemma and_then_Inl: "and_then r f = Inl e \<longleftrightarrow> r = Inl e \<or> (\<exists>x. r = Inr x \<and> f x = Inl e)"
  by (cases r) auto

section \<open>Decimal display of integers\<close>

fun digits_of :: "nat \<Rightarrow> string" where
  "digits_of n = (if n < 10 then [char_of (48 + n)] else digits_of (n div 10) @ [char_of (48 + n mod 10)])"

declare digits_of.simps [simp del]

section \<open>Lists\<close>

text \<open>\<open>Vec::dedup\<close> removes consecutive repetitions: Isabelle's \<open>remdups_adj\<close>.\<close>

lemma remdups_adj_sorted_distinct: "sorted xs \<Longrightarrow> distinct (remdups_adj xs)"
  by (induction xs rule: remdups_adj.induct) auto

lemma sort_dedup: "remdups_adj (sort xs) = sorted_list_of_set (set xs)"
  using remdups_adj_sorted_distinct [of "sort xs"] sorted_remdups_adj [of "sort xs"]
  by (intro sorted_distinct_set_unique) auto

definition push_new :: "'a \<Rightarrow> 'a list \<Rightarrow> 'a list" where
  "push_new x xs = (if x \<in> set xs then xs else xs @ [x])"

lemma push_new_set [simp]: "set (push_new x xs) = insert x (set xs)"
  by (auto simp: push_new_def)

lemma push_new_distinct [simp]: "distinct xs \<Longrightarrow> distinct (push_new x xs)"
  by (auto simp: push_new_def)

lemma foldl_push_new_set: "set (foldl (\<lambda>acc x. push_new x acc) ys xs) = set ys \<union> set xs"
  by (induction xs arbitrary: ys) auto

lemma foldl_push_new_distinct:
  "distinct ys \<Longrightarrow> distinct (foldl (\<lambda>acc x. push_new x acc) ys xs)"
  by (induction xs arbitrary: ys) auto

lemma foldl_max_ge: "(x::'a::linorder) \<in> set xs \<Longrightarrow> x \<le> foldl max a xs"
proof (induction xs arbitrary: a)
  case (Cons y ys)
  have "a' \<le> foldl max a' ys" for a' :: 'a
    by (induction ys arbitrary: a') (auto intro: order.trans max.cobounded1)
  with Cons show ?case by (auto intro: order.trans [OF max.cobounded2])
qed simp

lemma foldl_max_Max: "foldl max a xs = Max (insert a (set xs))" for a :: "'a::linorder"
proof (induction xs arbitrary: a)
  case (Cons x xs)
  have "foldl max a (x # xs) = Max (insert (max a x) (set xs))" by (simp add: Cons)
  also have "\<dots> = Max (insert a (insert x (set xs)))"
    by (cases "set xs = {}") (simp_all add: max.assoc)
  finally show ?case by simp
qed simp

lemma foldl_max_map: "foldl (\<lambda>acc x. max acc (f x)) a xs = foldl max a (map f xs)"
  by (induction xs arbitrary: a) auto

lemma find_mem: "find P xs = Some x \<Longrightarrow> x \<in> set xs \<and> P x"
  by (auto simp: find_Some_iff)

end
