(* ===== verification/Nova_Condition.thy ===== *)
theory Nova_Condition
  imports Prelude
begin

text \<open>
  The condition language of NOVA rules (\<open>nova/condition.rs\<close>): its abstract syntax, the facts an
  evaluation starts from (\<open>EvalContext\<close>, \<open>SkippedPatternRefs\<close>) and the three-valued evaluator.

  A \<open>BTreeMap<String, bool>\<close> is a strictly sorted association list, a \<open>BTreeSet\<close> a strictly
  sorted list. \<open>eval_and\<close>, \<open>eval_or\<close> and \<open>eval_items\<close> are the three loops over a list of
  operands; each stops at the first operand that decides it, so a later unknown reference is not
  reported. Counts of hits are natural numbers: the source casts a vector length to \<open>u32\<close>, which
  changes nothing below \<open>2 ^ 32\<close> patterns.

  The evaluator is compared with a two-valued denotation \<open>holds\<close> (no evidence is skipped), and
  shown to be sound for every way of filling in the skipped evidence.
\<close>

section \<open>Syntax\<close>

datatype nova_section = Keywords | Semantics | Llm

fun section_from_str :: "string \<Rightarrow> nova_section option" where
  "section_from_str s =
     (if s = ''keywords'' then Some Keywords
      else if s = ''semantics'' then Some Semantics
      else if s = ''llm'' then Some Llm
      else None)"

declare section_from_str.simps [simp del]

primrec section_display :: "nova_section \<Rightarrow> string" where
  "section_display Keywords = ''keywords''"
| "section_display Semantics = ''semantics''"
| "section_display Llm = ''llm''"

datatype quantifier = QAny | QAll | AtLeast nat

datatype condition_expr =
  Literal bool
  | Reference nova_section string
  | Wildcard nova_section
  | PrefixWildcard nova_section string
  | Quantified quantifier quantifier_target
  | NotE condition_expr
  | AndE "condition_expr list"
  | OrE "condition_expr list"
and quantifier_target =
  SectionWildcard nova_section
  | SectionPrefixWildcard nova_section string
  | CrossSectionPrefixWildcard string
  | Inner condition_expr

datatype eval_error = UnknownReference nova_section string

section \<open>Facts\<close>

type_synonym hit_map = "(string \<times> bool) list"

record eval_context =
  ctx_keywords :: hit_map
  ctx_semantics :: hit_map
  ctx_llm :: hit_map

primrec ctx_section :: "eval_context \<Rightarrow> nova_section \<Rightarrow> hit_map" where
  "ctx_section ctx Keywords = ctx_keywords ctx"
| "ctx_section ctx Semantics = ctx_semantics ctx"
| "ctx_section ctx Llm = ctx_llm ctx"

record skipped_refs =
  sk_semantics :: "string list"
  sk_llm :: "string list"

definition no_skips :: skipped_refs where
  "no_skips = \<lparr>sk_semantics = [], sk_llm = []\<rparr>"

fun skip_insert :: "skipped_refs \<Rightarrow> nova_section \<Rightarrow> string \<Rightarrow> skipped_refs" where
  "skip_insert sk Keywords var = sk"
| "skip_insert sk Semantics var = sk\<lparr>sk_semantics := insort_insert var (sk_semantics sk)\<rparr>"
| "skip_insert sk Llm var = sk\<lparr>sk_llm := insort_insert var (sk_llm sk)\<rparr>"

primrec skip_contains :: "skipped_refs \<Rightarrow> nova_section \<Rightarrow> string \<Rightarrow> bool" where
  "skip_contains sk Keywords var = False"
| "skip_contains sk Semantics var = (var \<in> set (sk_semantics sk))"
| "skip_contains sk Llm var = (var \<in> set (sk_llm sk))"

primrec skip_has_any :: "skipped_refs \<Rightarrow> nova_section \<Rightarrow> bool" where
  "skip_has_any sk Keywords = False"
| "skip_has_any sk Semantics = (sk_semantics sk \<noteq> [])"
| "skip_has_any sk Llm = (sk_llm sk \<noteq> [])"

primrec skip_has_prefix :: "skipped_refs \<Rightarrow> nova_section \<Rightarrow> string \<Rightarrow> bool" where
  "skip_has_prefix sk Keywords p = False"
| "skip_has_prefix sk Semantics p = list_ex (\<lambda>name. starts_with name p) (sk_semantics sk)"
| "skip_has_prefix sk Llm p = list_ex (\<lambda>name. starts_with name p) (sk_llm sk)"

definition skip_consistent :: "skipped_refs \<Rightarrow> eval_context \<Rightarrow> bool" where
  "skip_consistent sk ctx \<longleftrightarrow>
     list_all (\<lambda>n. map_of (ctx_semantics ctx) n \<noteq> None) (sk_semantics sk)
     \<and> list_all (\<lambda>n. map_of (ctx_llm ctx) n \<noteq> None) (sk_llm sk)"

section \<open>Three-valued evaluation\<close>

datatype truth_value = TrueV | FalseV | UnknownV

definition from_bool :: "bool \<Rightarrow> truth_value" where
  "from_bool b = (if b then TrueV else FalseV)"

definition is_true :: "truth_value \<Rightarrow> bool" where
  "is_true t \<longleftrightarrow> t = TrueV"

primrec truth_not :: "truth_value \<Rightarrow> truth_value" where
  "truth_not TrueV = FalseV"
| "truth_not FalseV = TrueV"
| "truth_not UnknownV = UnknownV"

definition hit_truth :: "skipped_refs \<Rightarrow> nova_section \<Rightarrow> string \<times> bool \<Rightarrow> truth_value" where
  "hit_truth sk s e = (if skip_contains sk s (fst e) then UnknownV else from_bool (snd e))"

definition collect_section_hits ::
  "nova_section \<Rightarrow> string option \<Rightarrow> eval_context \<Rightarrow> skipped_refs \<Rightarrow> truth_value list" where
  "collect_section_hits s p ctx sk =
     (let hits = map (hit_truth sk s)
                   (filter (\<lambda>e. case p of None \<Rightarrow> True | Some q \<Rightarrow> starts_with (fst e) q) (ctx_section ctx s));
          skipped_target = (case p of None \<Rightarrow> skip_has_any sk s | Some q \<Rightarrow> skip_has_prefix sk s q)
      in if hits = [] \<and> skipped_target then [UnknownV] else hits)"

text \<open>The match on the quantifier, its guards in the order of the source.\<close>

fun quantify :: "quantifier \<Rightarrow> truth_value list \<Rightarrow> truth_value" where
  "quantify q hits =
     (let count = length (filter (\<lambda>t. t = TrueV) hits);
          unknowns = length (filter (\<lambda>t. t = UnknownV) hits)
      in case q of
           QAny \<Rightarrow> if 1 \<le> count then TrueV else if 0 < unknowns then UnknownV else FalseV
         | QAll \<Rightarrow> if hits = [] then FalseV
                   else if FalseV \<in> set hits then FalseV
                   else if 0 < unknowns then UnknownV
                   else TrueV
         | AtLeast n \<Rightarrow> if n = 0 then TrueV
                   else if n \<le> count then TrueV
                   else if n \<le> count + unknowns then UnknownV
                   else FalseV)"

declare quantify.simps [simp del]

fun eval_truth :: "eval_context \<Rightarrow> skipped_refs \<Rightarrow> condition_expr \<Rightarrow> eval_error + truth_value"
and eval_and :: "eval_context \<Rightarrow> skipped_refs \<Rightarrow> bool \<Rightarrow> condition_expr list \<Rightarrow> eval_error + truth_value"
and eval_or :: "eval_context \<Rightarrow> skipped_refs \<Rightarrow> bool \<Rightarrow> condition_expr list \<Rightarrow> eval_error + truth_value"
and eval_items :: "eval_context \<Rightarrow> skipped_refs \<Rightarrow> condition_expr list \<Rightarrow> eval_error + truth_value list"
and collect_target_hits ::
  "eval_context \<Rightarrow> skipped_refs \<Rightarrow> quantifier_target \<Rightarrow> eval_error + truth_value list"
where
  "eval_truth ctx sk (Literal b) = Inr (from_bool b)"
| "eval_truth ctx sk (Reference s var) =
     (case map_of (ctx_section ctx s) var of
        Some b \<Rightarrow> if skip_contains sk s var then Inr UnknownV else Inr (from_bool b)
      | None \<Rightarrow> Inl (UnknownReference s var))"
| "eval_truth ctx sk (Wildcard s) =
     (if list_ex snd (ctx_section ctx s) then Inr TrueV
      else if skip_has_any sk s then Inr UnknownV
      else Inr FalseV)"
| "eval_truth ctx sk (PrefixWildcard s p) =
     (if list_ex (\<lambda>e. snd e \<and> starts_with (fst e) p) (ctx_section ctx s) then Inr TrueV
      else if skip_has_prefix sk s p then Inr UnknownV
      else Inr FalseV)"
| "eval_truth ctx sk (NotE e) = map_sum id truth_not (eval_truth ctx sk e)"
| "eval_truth ctx sk (AndE items) = eval_and ctx sk False items"
| "eval_truth ctx sk (OrE items) = eval_or ctx sk False items"
| "eval_truth ctx sk (Quantified q t) = map_sum id (quantify q) (collect_target_hits ctx sk t)"
| "eval_and ctx sk unknown [] = Inr (if unknown then UnknownV else TrueV)"
| "eval_and ctx sk unknown (e # es) =
     (case eval_truth ctx sk e of
        Inl err \<Rightarrow> Inl err
      | Inr FalseV \<Rightarrow> Inr FalseV
      | Inr UnknownV \<Rightarrow> eval_and ctx sk True es
      | Inr TrueV \<Rightarrow> eval_and ctx sk unknown es)"
| "eval_or ctx sk unknown [] = Inr (if unknown then UnknownV else FalseV)"
| "eval_or ctx sk unknown (e # es) =
     (case eval_truth ctx sk e of
        Inl err \<Rightarrow> Inl err
      | Inr TrueV \<Rightarrow> Inr TrueV
      | Inr UnknownV \<Rightarrow> eval_or ctx sk True es
      | Inr FalseV \<Rightarrow> eval_or ctx sk unknown es)"
| "eval_items ctx sk [] = Inr []"
| "eval_items ctx sk (e # es) =
     (case eval_truth ctx sk e of
        Inl err \<Rightarrow> Inl err
      | Inr t \<Rightarrow> map_sum id (\<lambda>ts. t # ts) (eval_items ctx sk es))"
| "collect_target_hits ctx sk (SectionWildcard s) = Inr (collect_section_hits s None ctx sk)"
| "collect_target_hits ctx sk (SectionPrefixWildcard s p) =
     Inr (collect_section_hits s (Some p) ctx sk)"
| "collect_target_hits ctx sk (CrossSectionPrefixWildcard p) =
     Inr (concat (map (\<lambda>s. collect_section_hits s (Some p) ctx sk) [Keywords, Semantics, Llm]))"
| "collect_target_hits ctx sk (Inner e) =
     (case e of
        OrE items \<Rightarrow> eval_items ctx sk items
      | _ \<Rightarrow> map_sum id (\<lambda>t. [t]) (eval_truth ctx sk e))"

definition eval_with_skips :: "condition_expr \<Rightarrow> eval_context \<Rightarrow> skipped_refs \<Rightarrow> eval_error + bool" where
  "eval_with_skips e ctx sk = map_sum id is_true (eval_truth ctx sk e)"

definition eval_condition :: "condition_expr \<Rightarrow> eval_context \<Rightarrow> eval_error + bool" where
  "eval_condition e ctx = map_sum id is_true (eval_truth ctx no_skips e)"

section \<open>Two-valued denotation\<close>

text \<open>
  What a condition means when every pattern was evaluated: a quantifier counts the operands that
  hold, where a parenthesised \<open>or\<close> contributes one operand per alternative.
\<close>

primrec quantifier_holds :: "quantifier \<Rightarrow> bool list \<Rightarrow> bool" where
  "quantifier_holds QAny bs = list_ex id bs"
| "quantifier_holds QAll bs = (bs \<noteq> [] \<and> list_all id bs)"
| "quantifier_holds (AtLeast n) bs = (n \<le> length (filter id bs))"

definition section_values :: "string option \<Rightarrow> hit_map \<Rightarrow> bool list" where
  "section_values p m =
     map snd (filter (\<lambda>e. case p of None \<Rightarrow> True | Some q \<Rightarrow> starts_with (fst e) q) m)"

fun holds :: "eval_context \<Rightarrow> condition_expr \<Rightarrow> bool"
and target_values :: "eval_context \<Rightarrow> quantifier_target \<Rightarrow> bool list"
where
  "holds ctx (Literal b) = b"
| "holds ctx (Reference s var) = (map_of (ctx_section ctx s) var = Some True)"
| "holds ctx (Wildcard s) = list_ex id (section_values None (ctx_section ctx s))"
| "holds ctx (PrefixWildcard s p) = list_ex id (section_values (Some p) (ctx_section ctx s))"
| "holds ctx (NotE e) = (\<not> holds ctx e)"
| "holds ctx (AndE items) = list_all (holds ctx) items"
| "holds ctx (OrE items) = list_ex (holds ctx) items"
| "holds ctx (Quantified q t) = quantifier_holds q (target_values ctx t)"
| "target_values ctx (SectionWildcard s) = section_values None (ctx_section ctx s)"
| "target_values ctx (SectionPrefixWildcard s p) = section_values (Some p) (ctx_section ctx s)"
| "target_values ctx (CrossSectionPrefixWildcard p) =
     concat (map (\<lambda>s. section_values (Some p) (ctx_section ctx s)) [Keywords, Semantics, Llm])"
| "target_values ctx (Inner e) =
     (case e of OrE items \<Rightarrow> map (holds ctx) items | _ \<Rightarrow> [holds ctx e])"

text \<open>The references an expression names.\<close>

fun references :: "condition_expr \<Rightarrow> (nova_section \<times> string) list"
and target_references :: "quantifier_target \<Rightarrow> (nova_section \<times> string) list"
where
  "references (Literal b) = []"
| "references (Reference s var) = [(s, var)]"
| "references (Wildcard s) = []"
| "references (PrefixWildcard s p) = []"
| "references (NotE e) = references e"
| "references (AndE items) = concat (map references items)"
| "references (OrE items) = concat (map references items)"
| "references (Quantified q t) = target_references t"
| "target_references (Inner e) = references e"
| "target_references _ = []"

text \<open>
  A completion fills in each skipped pattern with either result and keeps every evaluated one. The
  engine records a skipped pattern as not fired, so the context holds \<open>False\<close> there.
\<close>

definition completes_section :: "skipped_refs \<Rightarrow> nova_section \<Rightarrow> hit_map \<Rightarrow> hit_map \<Rightarrow> bool" where
  "completes_section sk s m m' \<longleftrightarrow>
     list_all2 (\<lambda>e e'. fst e = fst e' \<and> (if skip_contains sk s (fst e) then \<not> snd e else snd e = snd e')) m m'"

definition completes :: "eval_context \<Rightarrow> skipped_refs \<Rightarrow> eval_context \<Rightarrow> bool" where
  "completes ctx sk ctx' \<longleftrightarrow>
     skip_consistent sk ctx
     \<and> list_all (\<lambda>s. completes_section sk s (ctx_section ctx s) (ctx_section ctx' s)) [Keywords, Semantics, Llm]"

definition approximates :: "truth_value \<Rightarrow> bool \<Rightarrow> bool" where
  "approximates t b \<longleftrightarrow> t = UnknownV \<or> t = from_bool b"

lemma approximates_simps [simp]:
  "approximates UnknownV b" "approximates TrueV b \<longleftrightarrow> b" "approximates FalseV b \<longleftrightarrow> \<not> b"
  "approximates (from_bool a) b \<longleftrightarrow> a = b"
  by (auto simp: approximates_def from_bool_def)

lemma approximates_not [simp]: "approximates (truth_not t) (\<not> b) \<longleftrightarrow> approximates t b"
  by (cases t) auto

lemma approximates_counts:
  "list_all2 approximates ts bs \<Longrightarrow>
     length (filter (\<lambda>t. t = TrueV) ts) \<le> length (filter id bs)
     \<and> length (filter id bs) \<le> length (filter (\<lambda>t. t = TrueV) ts) + length (filter (\<lambda>t. t = UnknownV) ts)"
proof (induction rule: list_all2_induct)
  case (Cons t ts b bs)
  then show ?case by (cases t) auto
qed simp

lemma no_unknown_false:
  "list_all2 approximates ts bs \<Longrightarrow> FalseV \<notin> set ts \<Longrightarrow> filter (\<lambda>t. t = UnknownV) ts = [] \<Longrightarrow> list_all id bs"
proof (induction rule: list_all2_induct)
  case (Cons t ts b bs)
  then show ?case by (cases t) auto
qed simp

lemma false_member: "list_all2 approximates ts bs \<Longrightarrow> FalseV \<in> set ts \<Longrightarrow> \<not> list_all id bs"
  by (induction rule: list_all2_induct) auto

lemma list_ex_count: "list_ex id bs \<longleftrightarrow> 1 \<le> length (filter id bs)"
  by (induction bs) auto

lemma quantify_approximates:
  assumes "list_all2 approximates ts bs"
  shows "approximates (quantify q ts) (quantifier_holds q bs)"
proof (cases q)
  case QAny
  then show ?thesis using approximates_counts [OF assms]
    by (auto simp: quantify.simps Let_def list_ex_count)
next
  case QAll
  have "ts = [] \<longleftrightarrow> bs = []" using assms by auto
  then show ?thesis using QAll no_unknown_false [OF assms] false_member [OF assms]
    by (auto simp: quantify.simps Let_def)
next
  case (AtLeast n)
  then show ?thesis using approximates_counts [OF assms]
    by (auto simp: quantify.simps Let_def)
qed

lemma completes_sectionD: "completes ctx sk ctx' \<Longrightarrow> completes_section sk s (ctx_section ctx s) (ctx_section ctx' s)"
  by (cases s) (auto simp: completes_def)

lemma completes_lookup:
  assumes "completes_section sk s m m'"
  shows "map_of m var = None \<longleftrightarrow> map_of m' var = None"
    and "\<not> skip_contains sk s var \<Longrightarrow> map_of m var = map_of m' var"
  using assms unfolding completes_section_def
  by (induction rule: list_all2_induct) (auto split: if_splits)

lemma completes_values:
  assumes "completes_section sk s m m'"
  shows "list_all2 approximates
           (map (hit_truth sk s) (filter (\<lambda>e. case p of None \<Rightarrow> True | Some q \<Rightarrow> starts_with (fst e) q) m))
           (section_values p m')"
  using assms unfolding completes_section_def section_values_def
  by (induction rule: list_all2_induct) (auto simp: hit_truth_def split: option.splits)

lemma completes_any:
  assumes "completes_section sk s m m'"
  shows "list_ex (\<lambda>e. snd e \<and> P (fst e)) m \<Longrightarrow> list_ex (\<lambda>e. snd e \<and> P (fst e)) m'"
    and "\<not> list_ex (\<lambda>e. snd e \<and> P (fst e)) m \<Longrightarrow> (\<And>n. skip_contains sk s n \<Longrightarrow> \<not> P n)
           \<Longrightarrow> \<not> list_ex (\<lambda>e. snd e \<and> P (fst e)) m'"
  using assms unfolding completes_section_def
  by (induction rule: list_all2_induct) (auto split: if_splits)

lemma section_values_ex:
  "list_ex id (section_values p m)
     \<longleftrightarrow> list_ex (\<lambda>e. snd e \<and> (case p of None \<Rightarrow> True | Some q \<Rightarrow> starts_with (fst e) q)) m"
  by (induction m) (auto simp: section_values_def)

lemma not_has_any: "\<not> skip_has_any sk s \<Longrightarrow> \<not> skip_contains sk s n"
  by (cases s) auto

lemma not_has_prefix: "\<not> skip_has_prefix sk s p \<Longrightarrow> skip_contains sk s n \<Longrightarrow> \<not> starts_with n p"
  by (cases s) (auto simp: list_ex_iff)

lemma has_prefix_lookup:
  "skip_consistent sk ctx \<Longrightarrow> skip_has_prefix sk s p
     \<Longrightarrow> \<exists>e\<in>set (ctx_section ctx s). skip_contains sk s (fst e) \<and> starts_with (fst e) p"
  by (cases s) (auto simp: skip_consistent_def list_all_iff list_ex_iff, (metis fst_conv map_of_SomeD)+)

text \<open>A skipped name is present in the context, so \<open>collect_section_hits\<close> never needs its default.\<close>

lemma has_any_prefix: "skip_has_any sk s \<longleftrightarrow> skip_has_prefix sk s []"
  by (cases s; cases "sk_semantics sk"; cases "sk_llm sk") (auto simp: starts_with_def)

lemma collect_section_hits_completes:
  assumes c: "completes ctx sk ctx'"
  shows "list_all2 approximates (collect_section_hits s p ctx sk) (section_values p (ctx_section ctx' s))"
proof -
  have cons: "skip_consistent sk ctx" using c by (simp add: completes_def)
  define P where "P = (\<lambda>e::string \<times> bool. case p of None \<Rightarrow> True | Some q \<Rightarrow> starts_with (fst e) q)"
  have "map (hit_truth sk s) (filter P (ctx_section ctx s)) \<noteq> []"
    if "case p of None \<Rightarrow> skip_has_any sk s | Some q \<Rightarrow> skip_has_prefix sk s q"
    using that has_prefix_lookup [OF cons, of s]
    by (cases p) (auto simp: has_any_prefix P_def filter_empty_conv)
  then have "collect_section_hits s p ctx sk = map (hit_truth sk s) (filter P (ctx_section ctx s))"
    unfolding collect_section_hits_def Let_def P_def by metis
  then show ?thesis
    using completes_values [OF completes_sectionD [OF c, of s], of p] by (simp add: P_def)
qed

section \<open>Soundness of the evaluator\<close>

lemma map_sum_Inr: "map_sum id f r = Inr y \<longleftrightarrow> (\<exists>x. r = Inr x \<and> y = f x)"
  by (cases r) auto

lemma map_sum_Inl: "map_sum id f r = Inl e \<longleftrightarrow> r = Inl e"
  by (cases r) auto

lemma approximates_and: "approximates t b \<Longrightarrow> t \<noteq> TrueV \<Longrightarrow> approximates t (a \<and> b)"
  by (cases t) auto

lemma approximates_or: "approximates t b \<Longrightarrow> t \<noteq> FalseV \<Longrightarrow> approximates t (a \<or> b)"
  by (cases t) auto

lemma eval_approximates:
  assumes c: "completes ctx sk ctx'"
  shows "\<And>t. eval_truth ctx sk e = Inr t \<Longrightarrow> approximates t (holds ctx' e)"
    and "\<And>t. eval_and ctx sk u es = Inr t
           \<Longrightarrow> approximates t (list_all (holds ctx') es) \<and> \<not> (u \<and> t = TrueV)"
    and "\<And>t. eval_or ctx sk u es = Inr t
           \<Longrightarrow> approximates t (list_ex (holds ctx') es) \<and> \<not> (u \<and> t = FalseV)"
    and "\<And>ts. eval_items ctx sk es = Inr ts \<Longrightarrow> list_all2 approximates ts (map (holds ctx') es)"
    and "\<And>ts. collect_target_hits ctx sk tg = Inr ts \<Longrightarrow> list_all2 approximates ts (target_values ctx' tg)"
  using c
proof (induction ctx sk e and ctx sk u es and ctx sk u es and ctx sk es and ctx sk tg
    rule: eval_truth_eval_and_eval_or_eval_items_collect_target_hits.induct)
  case (2 ctx sk s var)
  then show ?case
    using completes_lookup [OF completes_sectionD [OF 2(2), of s], of var]
    by (auto split: option.splits if_splits simp: approximates_def from_bool_def)
next
  case (3 ctx sk s)
  then show ?case
    using completes_any [OF completes_sectionD [OF 3(2), of s], of "\<lambda>_. True"] not_has_any [of sk s]
    by (auto simp: section_values_ex split: if_splits)
next
  case (4 ctx sk s p)
  then show ?case
    using completes_any [OF completes_sectionD [OF 4(2), of s], of "\<lambda>n. starts_with n p"]
      not_has_prefix [of sk s p]
    by (auto simp: section_values_ex split: if_splits)
next
  case (8 ctx sk q t)
  then show ?case by (auto simp: map_sum_Inr quantify_approximates)
next
  case (17 ctx sk p)
  then show ?case
    using collect_section_hits_completes [OF 17(2), of Keywords "Some p"]
      collect_section_hits_completes [OF 17(2), of Semantics "Some p"]
      collect_section_hits_completes [OF 17(2), of Llm "Some p"]
    by (auto intro!: list_all2_appendI)
next
  case (18 ctx sk e)
  then show ?case
    by (cases e) (auto simp: map_sum_Inr simp del: eval_truth.simps holds.simps)
qed (auto split: sum.splits truth_value.splits if_splits
       simp: map_sum_Inr collect_section_hits_completes
       intro: approximates_and approximates_or)

lemma no_skips_simps [simp]:
  "skip_contains no_skips s n \<longleftrightarrow> False" "skip_has_any no_skips s \<longleftrightarrow> False"
  "skip_has_prefix no_skips s p \<longleftrightarrow> False" "skip_consistent no_skips ctx"
  by (cases s; simp add: no_skips_def skip_consistent_def)+

lemma from_bool_known [simp]: "from_bool b \<noteq> UnknownV" "UnknownV \<noteq> from_bool b"
  by (simp_all add: from_bool_def)

lemma quantify_known:
  assumes "UnknownV \<notin> set ts"
  shows "quantify q ts \<noteq> UnknownV"
proof -
  have "filter (\<lambda>t. t = UnknownV) ts = []" using assms by (auto simp: filter_empty_conv)
  then show ?thesis by (cases q) (auto simp: quantify.simps Let_def)
qed

lemma collect_section_hits_known: "UnknownV \<notin> set (collect_section_hits s p ctx no_skips)"
  by (auto simp: collect_section_hits_def hit_truth_def split: option.splits)

lemma no_unknown:
  assumes n: "sk = no_skips"
  shows "\<And>t. eval_truth ctx sk e = Inr t \<Longrightarrow> t \<noteq> UnknownV"
    and "\<And>t. eval_and ctx sk u es = Inr t \<Longrightarrow> \<not> u \<Longrightarrow> t \<noteq> UnknownV"
    and "\<And>t. eval_or ctx sk u es = Inr t \<Longrightarrow> \<not> u \<Longrightarrow> t \<noteq> UnknownV"
    and "\<And>ts. eval_items ctx sk es = Inr ts \<Longrightarrow> UnknownV \<notin> set ts"
    and "\<And>ts. collect_target_hits ctx sk tg = Inr ts \<Longrightarrow> UnknownV \<notin> set ts"
  using n
proof (induction ctx sk e and ctx sk u es and ctx sk u es and ctx sk es and ctx sk tg
    rule: eval_truth_eval_and_eval_or_eval_items_collect_target_hits.induct)
  case (5 ctx sk e)
  then show ?case by (cases "eval_truth ctx sk e"; cases "projr (eval_truth ctx sk e)") auto
next
  case (8 ctx sk q t)
  then show ?case by (auto simp: map_sum_Inr quantify_known)
next
  case (18 ctx sk e)
  then show ?case
    by (cases e) (fastforce simp: map_sum_Inr simp del: eval_truth.simps)+
qed (auto simp: map_sum_Inr collect_section_hits_known
      split: sum.splits truth_value.splits option.splits if_splits)

lemma completes_no_skips: "completes ctx no_skips ctx"
  by (auto simp: completes_def completes_section_def list_all2_same)

lemma eval_error_unresolved:
  shows "eval_truth ctx sk e = Inl (UnknownReference s v)
           \<Longrightarrow> (s, v) \<in> set (references e) \<and> map_of (ctx_section ctx s) v = None"
    and "eval_and ctx sk u es = Inl (UnknownReference s v)
           \<Longrightarrow> (s, v) \<in> (\<Union>e\<in>set es. set (references e)) \<and> map_of (ctx_section ctx s) v = None"
    and "eval_or ctx sk u es = Inl (UnknownReference s v)
           \<Longrightarrow> (s, v) \<in> (\<Union>e\<in>set es. set (references e)) \<and> map_of (ctx_section ctx s) v = None"
    and "eval_items ctx sk es = Inl (UnknownReference s v)
           \<Longrightarrow> (s, v) \<in> (\<Union>e\<in>set es. set (references e)) \<and> map_of (ctx_section ctx s) v = None"
    and "collect_target_hits ctx sk tg = Inl (UnknownReference s v)
           \<Longrightarrow> (s, v) \<in> set (target_references tg) \<and> map_of (ctx_section ctx s) v = None"
proof (induction ctx sk e and ctx sk u es and ctx sk u es and ctx sk es and ctx sk tg
    rule: eval_truth_eval_and_eval_or_eval_items_collect_target_hits.induct)
  case (18 ctx sk e)
  then show ?case
    by (cases e) (auto simp: map_sum_Inl simp del: eval_truth.simps)
qed (auto simp: map_sum_Inl split: sum.splits truth_value.splits option.splits if_splits)

text \<open>
  Claim C24: With every pattern evaluated the three-valued, short-circuiting evaluator agrees with the
  two-valued meaning of the condition: an answer of \<open>eval\<close> is that meaning, quantifiers
  included, and an error names a reference that stands in the condition and has no pattern in the
  rule.
\<close>

theorem eval_condition_denotes:
  "case eval_condition e ctx of
     Inr b \<Rightarrow> b = holds ctx e
   | Inl (UnknownReference s v) \<Rightarrow>
       (s, v) \<in> set (references e) \<and> map_of (ctx_section ctx s) v = None"
proof (cases "eval_truth ctx no_skips e")
  case (Inl err)
  then show ?thesis
    using eval_error_unresolved(1) [of ctx no_skips e]
    by (cases err) (auto simp: eval_condition_def)
next
  case (Inr t)
  then have "approximates t (holds ctx e)" "t \<noteq> UnknownV"
    using eval_approximates(1) [OF completes_no_skips] no_unknown(1) by blast+
  then show ?thesis
    using Inr by (cases t) (auto simp: eval_condition_def is_true_def)
qed

lemma eval_truth_decided:
  assumes "completes ctx sk ctx'"
  shows "eval_truth ctx sk e = Inr TrueV \<Longrightarrow> holds ctx' e"
    and "eval_truth ctx sk e = Inr FalseV \<Longrightarrow> \<not> holds ctx' e"
  using eval_approximates(1) [OF assms, of e] by fastforce+

text \<open>
  Claim C25: The third truth value is sound. When some semantic or LLM patterns could not be evaluated,
  a condition the evaluator decides keeps that value however the skipped patterns would have come
  out: it fires only if it fires under every completion of the missing evidence, negations and
  quantifiers included, and it is decided false only if no completion makes it hold.
\<close>

theorem skipped_evidence_sound:
  assumes "completes ctx sk ctx'" "eval_truth ctx sk e = Inr (from_bool b)"
  shows "holds ctx' e = b"
  using eval_truth_decided [OF assms(1), of e] assms(2) by (cases b) (auto simp: from_bool_def)

definition example_context :: "bool \<Rightarrow> eval_context" where
  "example_context b =
     \<lparr>ctx_keywords = [(''k'', True)], ctx_semantics = [(''s'', b)], ctx_llm = [(''l'', False)]\<rparr>"

definition example_skips :: skipped_refs where
  "example_skips = \<lparr>sk_semantics = [''s''], sk_llm = []\<rparr>"

theorem skipped_evidence_sound_witness:
  "holds (example_context True)
     (OrE [Reference Keywords ''k'', NotE (Quantified QAny (SectionWildcard Semantics))])
   \<and> \<not> holds (example_context True)
     (AndE [Reference Semantics ''s'', Quantified (AtLeast 1) (SectionWildcard Llm)])"
proof -
  have c: "completes (example_context False) example_skips (example_context True)"
    by (auto simp: completes_def completes_section_def example_context_def example_skips_def skip_consistent_def)
  show ?thesis
    using skipped_evidence_sound [OF c, of "OrE [Reference Keywords ''k'', NotE (Quantified QAny (SectionWildcard Semantics))]" True]
      skipped_evidence_sound [OF c, of "AndE [Reference Semantics ''s'', Quantified (AtLeast 1) (SectionWildcard Llm)]" False]
    by (simp add: example_context_def example_skips_def from_bool_def collect_section_hits_def
        hit_truth_def quantify.simps)
qed

text \<open>Resolved references are never reported.\<close>

definition refs_resolve :: "eval_context \<Rightarrow> condition_expr \<Rightarrow> bool" where
  "refs_resolve ctx e \<longleftrightarrow> list_all (\<lambda>(s, v). map_of (ctx_section ctx s) v \<noteq> None) (references e)"

lemma eval_resolved: "refs_resolve ctx e \<Longrightarrow> \<exists>t. eval_truth ctx sk e = Inr t"
proof (rule ccontr)
  assume r: "refs_resolve ctx e" and "\<nexists>t. eval_truth ctx sk e = Inr t"
  then obtain s v where "eval_truth ctx sk e = Inl (UnknownReference s v)"
    by (metis eval_error.exhaust old.sum.exhaust)
  from eval_error_unresolved(1) [OF this] r show False
    by (auto simp: refs_resolve_def list_all_iff)
qed

end
