(* ===== verification/F32.thy ===== *)
theory F32
  imports Complex_Main Prelude "HOL-Library.Log_Nat"
begin

text \<open>
  Rust's \<open>f32\<close>: IEEE 754 single precision with rounding to nearest, ties to even. A finite
  value is the rational number it denotes; the sign of a zero is not represented (no
  operation the scanner performs on a score or a confidence divides by such a zero or reads its
  sign, apart from the text of a rationale). Every arithmetic operation rounds the exact result
  once: \<open>f32_of_rat\<close>. Shown: the rounding is monotone and leaves representable numbers
  alone, so accumulating non-negative scores never lowers a total.
\<close>

section \<open>Rounding\<close>

datatype f32 = Fin rat | PosInf | NegInf | NaN

text \<open>The binary exponent of a positive number, not below that of the subnormals.\<close>

definition f32_exponent :: "rat \<Rightarrow> int" where
  "f32_exponent x = max (- 126) (if 1 \<le> x then bitlen \<lfloor>x\<rfloor> - 1 else - bitlen (\<lceil>1 / x\<rceil> - 1))"

definition round_half_even :: "rat \<Rightarrow> int" where
  "round_half_even q =
     (let f = \<lfloor>q\<rfloor>; r = q - of_int f in
      if r < 1 / 2 then f else if 1 / 2 < r then f + 1 else if even f then f else f + 1)"

definition ulp :: "rat \<Rightarrow> rat" where
  "ulp x = 2 powi (f32_exponent x - 23)"

definition rnd_pos :: "rat \<Rightarrow> rat" where
  "rnd_pos x = of_int (round_half_even (x / ulp x)) * ulp x"

definition rnd :: "rat \<Rightarrow> rat" where
  "rnd x = (if x = 0 then 0 else if 0 < x then rnd_pos x else - rnd_pos (- x))"

definition f32_of_rat :: "rat \<Rightarrow> f32" where
  "f32_of_rat x =
     (let r = rnd x in if 2 ^ 128 \<le> r then PosInf else if r \<le> - (2 ^ 128) then NegInf else Fin r)"

section \<open>Operations\<close>

definition f_is_nan :: "f32 \<Rightarrow> bool" where
  "f_is_nan a \<longleftrightarrow> a = NaN"

definition f_is_finite :: "f32 \<Rightarrow> bool" where
  "f_is_finite a = (case a of Fin _ \<Rightarrow> True | _ \<Rightarrow> False)"

fun f_lt :: "f32 \<Rightarrow> f32 \<Rightarrow> bool" where
  "f_lt NaN _ = False"
| "f_lt _ NaN = False"
| "f_lt (Fin x) (Fin y) = (x < y)"
| "f_lt (Fin x) PosInf = True"
| "f_lt NegInf NegInf = False"
| "f_lt NegInf _ = True"
| "f_lt _ _ = False"

text \<open>\<open>partial_cmp\<close>: \<open>None\<close> when a side is not a number.\<close>

definition f_partial_cmp :: "f32 \<Rightarrow> f32 \<Rightarrow> ordering option" where
  "f_partial_cmp a b =
     (if f_is_nan a \<or> f_is_nan b then None
      else if f_lt a b then Some Less else if f_lt b a then Some Greater else Some Equal)"

fun f_neg :: "f32 \<Rightarrow> f32" where
  "f_neg (Fin x) = Fin (- x)"
| "f_neg PosInf = NegInf"
| "f_neg NegInf = PosInf"
| "f_neg NaN = NaN"

fun f_add :: "f32 \<Rightarrow> f32 \<Rightarrow> f32" where
  "f_add NaN _ = NaN"
| "f_add _ NaN = NaN"
| "f_add (Fin x) (Fin y) = f32_of_rat (x + y)"
| "f_add PosInf NegInf = NaN"
| "f_add NegInf PosInf = NaN"
| "f_add PosInf _ = PosInf"
| "f_add NegInf _ = NegInf"
| "f_add _ b = b"

definition f_sub :: "f32 \<Rightarrow> f32 \<Rightarrow> f32" where
  "f_sub a b = f_add a (f_neg b)"

definition f_inf_sign :: "bool \<Rightarrow> f32" where
  "f_inf_sign neg = (if neg then NegInf else PosInf)"

fun f_mul :: "f32 \<Rightarrow> f32 \<Rightarrow> f32" where
  "f_mul NaN _ = NaN"
| "f_mul _ NaN = NaN"
| "f_mul (Fin x) (Fin y) = f32_of_rat (x * y)"
| "f_mul (Fin x) PosInf = (if x = 0 then NaN else f_inf_sign (x < 0))"
| "f_mul (Fin x) NegInf = (if x = 0 then NaN else f_inf_sign (0 < x))"
| "f_mul PosInf (Fin y) = (if y = 0 then NaN else f_inf_sign (y < 0))"
| "f_mul NegInf (Fin y) = (if y = 0 then NaN else f_inf_sign (0 < y))"
| "f_mul PosInf PosInf = PosInf"
| "f_mul NegInf NegInf = PosInf"
| "f_mul _ _ = NegInf"

text \<open>Division by a non-zero finite number, the only division the scanner performs.\<close>

fun f_div_by :: "f32 \<Rightarrow> rat \<Rightarrow> f32" where
  "f_div_by (Fin x) y = f32_of_rat (x / y)"
| "f_div_by PosInf y = f_inf_sign (y < 0)"
| "f_div_by NegInf y = f_inf_sign (0 < y)"
| "f_div_by NaN y = NaN"

text \<open>\<open>f32::max\<close> ignores a NaN operand; \<open>f32::clamp\<close> keeps it.\<close>

definition f_max :: "f32 \<Rightarrow> f32 \<Rightarrow> f32" where
  "f_max a b = (if f_is_nan a then b else if f_is_nan b then a else if f_lt a b then b else a)"

definition f_clamp :: "f32 \<Rightarrow> f32 \<Rightarrow> f32 \<Rightarrow> f32" where
  "f_clamp lo hi x = (let y = if f_lt x lo then lo else x in if f_lt hi y then hi else y)"

text \<open>\<open>f32::round\<close> (ties away from zero) followed by the saturating cast \<open>as u32\<close>.\<close>

definition round_away :: "rat \<Rightarrow> int" where
  "round_away x = (if 0 \<le> x then \<lfloor>x + 1 / 2\<rfloor> else - \<lfloor>- x + 1 / 2\<rfloor>)"

definition u32_max :: nat where
  "u32_max = 2 ^ 32 - 1"

fun f_round_as_u32 :: "f32 \<Rightarrow> nat" where
  "f_round_as_u32 (Fin x) = min u32_max (nat (round_away x))"
| "f_round_as_u32 PosInf = u32_max"
| "f_round_as_u32 NegInf = 0"
| "f_round_as_u32 NaN = 0"

definition f_of_nat :: "nat \<Rightarrow> f32" where
  "f_of_nat n = f32_of_rat (of_nat n)"

section \<open>The rounding is monotone and idempotent\<close>

lemma bitlen_positive: "0 < n \<Longrightarrow> 0 < bitlen n"
  using bitlen_nonneg [of n] bitlen_eq_zero_iff [of n] by linarith

lemma f32_exponent_bounds:
  assumes "0 < x"
  shows "x < 2 powi (f32_exponent x + 1)"
    and "f32_exponent x = - 126 \<or> 2 powi (f32_exponent x) \<le> x"
proof -
  define e where "e = (if 1 \<le> x then bitlen \<lfloor>x\<rfloor> - 1 else - bitlen (\<lceil>1 / x\<rceil> - 1))"
  have key: "2 powi e \<le> x \<and> x < 2 powi (e + 1)"
  proof (cases "1 \<le> x")
    case True
    then have fl: "0 < \<lfloor>x\<rfloor>" by simp
    have bl: "bitlen \<lfloor>x\<rfloor> = e + 1" using True by (simp add: e_def)
    have e0: "0 \<le> e" using bitlen_positive [OF fl] bl by simp
    have b: "2 ^ nat e \<le> \<lfloor>x\<rfloor>" "\<lfloor>x\<rfloor> < 2 ^ nat (e + 1)"
      using bitlen_bounds [OF fl] bl by auto
    have "of_int (2 ^ nat e) \<le> x" using b(1) by (simp only: le_floor_iff)
    moreover have "x < of_int (2 ^ nat (e + 1))" using b(2) by (simp only: floor_less_iff)
    ultimately show ?thesis using e0 by (simp add: power_int_def)
  next
    case False
    with assms have k: "1 < 1 / x" by simp
    define k where "k = \<lceil>1 / x\<rceil>"
    have k2: "0 < k - 1" using k by (simp add: k_def less_ceiling_iff)
    have em: "e = - bitlen (k - 1)" using False by (simp add: e_def k_def)
    have mpos: "0 < bitlen (k - 1)" using bitlen_positive [OF k2] by simp
    have b: "2 ^ nat (bitlen (k - 1) - 1) \<le> k - 1" "k - 1 < 2 ^ nat (bitlen (k - 1))"
      using bitlen_bounds [OF k2] by auto
    have "k \<le> 2 ^ nat (- e)" using b(2) em by simp
    then have "1 / x \<le> of_int (2 ^ nat (- e))" unfolding k_def by (simp add: ceiling_le_iff)
    then have lo: "2 powi e \<le> x"
      using assms em mpos by (simp add: power_int_def field_simps)
    have "2 ^ nat (- e - 1) < k" using b(1) em by simp
    then have "of_int (2 ^ nat (- e - 1)) < 1 / x" unfolding k_def by (simp add: less_ceiling_iff)
    then have hi: "x < 2 powi (e + 1)"
      using assms em mpos False by (simp add: power_int_def field_simps add.commute split: if_splits)
    from lo hi show ?thesis by simp
  qed
  have ex: "f32_exponent x = max (- 126) e" by (simp add: f32_exponent_def e_def)
  have "2 powi (e + 1) \<le> (2::rat) powi (f32_exponent x + 1)"
    by (rule power_int_increasing) (simp_all add: ex)
  with key show "x < 2 powi (f32_exponent x + 1)" by linarith
  from key ex show "f32_exponent x = - 126 \<or> 2 powi (f32_exponent x) \<le> x" by (auto simp: max_def)
qed

lemma round_half_even_of_int [simp]: "round_half_even (of_int n) = n"
  by (simp add: round_half_even_def)

lemma round_half_even_floor: "\<lfloor>q\<rfloor> \<le> round_half_even q" "round_half_even q \<le> \<lfloor>q\<rfloor> + 1"
  by (auto simp: round_half_even_def Let_def)

lemma round_half_even_mono:
  assumes "p \<le> q"
  shows "round_half_even p \<le> round_half_even q"
proof (cases "\<lfloor>p\<rfloor> = \<lfloor>q\<rfloor>")
  case True
  with assms show ?thesis by (simp add: round_half_even_def Let_def)
next
  case False
  then have "\<lfloor>p\<rfloor> + 1 \<le> \<lfloor>q\<rfloor>" using floor_mono [OF assms] by linarith
  then show ?thesis using round_half_even_floor [of p] round_half_even_floor [of q] by linarith
qed

lemma ulp_pos [simp]: "0 < ulp x"
  by (simp add: ulp_def)

lemma ulp_nonzero [simp]: "ulp x \<noteq> 0"
  by (metis less_irrefl ulp_pos)

lemma ulp_scale:
  "2 powi (f32_exponent x + 1) = 2 ^ 24 * ulp x" "2 powi (f32_exponent x) = 2 ^ 23 * ulp x"
proof -
  have "(2::rat) powi (f32_exponent x + 1) = 2 powi (24 + (f32_exponent x - 23))"
    by (simp add: algebra_simps)
  also have "\<dots> = 2 powi 24 * ulp x" unfolding ulp_def by (rule power_int_add) simp
  finally show "2 powi (f32_exponent x + 1) = 2 ^ 24 * ulp x" by simp
  have "(2::rat) powi (f32_exponent x) = 2 powi (23 + (f32_exponent x - 23))" by simp
  also have "\<dots> = 2 powi 23 * ulp x" unfolding ulp_def by (rule power_int_add) simp
  finally show "2 powi (f32_exponent x) = 2 ^ 23 * ulp x" by simp
qed

lemma rnd_pos_le:
  assumes "0 < x"
  shows "rnd_pos x \<le> 2 powi (f32_exponent x + 1)"
proof -
  have "x / ulp x \<le> of_int (2 ^ 24)"
    using f32_exponent_bounds(1) [OF assms] ulp_scale(1) [of x] by (simp add: field_simps)
  then have "round_half_even (x / ulp x) \<le> 2 ^ 24"
    using round_half_even_mono round_half_even_of_int by metis
  then have "(of_int (round_half_even (x / ulp x)) :: rat) \<le> 2 ^ 24"
    by (metis of_int_le_iff of_int_numeral of_int_power)
  then show ?thesis by (simp add: rnd_pos_def ulp_scale mult_right_mono)
qed

lemma rnd_pos_ge:
  assumes "0 < x" "f32_exponent x \<noteq> - 126"
  shows "2 powi (f32_exponent x) \<le> rnd_pos x"
proof -
  have "of_int (2 ^ 23) \<le> x / ulp x"
    using f32_exponent_bounds(2) [OF assms(1)] assms(2) ulp_scale(2) [of x] by (simp add: field_simps)
  then have "2 ^ 23 \<le> round_half_even (x / ulp x)"
    using round_half_even_mono round_half_even_of_int by metis
  then have "(2 ^ 23 :: rat) \<le> of_int (round_half_even (x / ulp x))"
    by (metis of_int_le_iff of_int_numeral of_int_power)
  then show ?thesis by (simp add: rnd_pos_def ulp_scale mult_right_mono)
qed

lemma f32_exponent_mono:
  assumes "0 < x" "x \<le> y"
  shows "f32_exponent x \<le> f32_exponent y"
proof (rule ccontr)
  assume "\<not> ?thesis"
  then have "f32_exponent y + 1 \<le> f32_exponent x" by simp
  moreover have "- 126 \<le> f32_exponent y" by (simp add: f32_exponent_def)
  ultimately have "2 powi (f32_exponent x) \<le> x"
    using f32_exponent_bounds(2) [OF assms(1)] by auto
  moreover have "(2::rat) powi (f32_exponent y + 1) \<le> 2 powi (f32_exponent x)"
    using \<open>f32_exponent y + 1 \<le> f32_exponent x\<close> by (rule power_int_increasing) simp
  ultimately show False using f32_exponent_bounds(1) [of y] assms by linarith
qed

lemma rnd_pos_mono:
  assumes "0 < x" "x \<le> y"
  shows "rnd_pos x \<le> rnd_pos y"
proof (cases "f32_exponent x = f32_exponent y")
  case True
  then have u: "ulp x = ulp y" by (simp add: ulp_def)
  have "x / ulp y \<le> y / ulp y" using assms(2) by (simp add: divide_right_mono less_imp_le)
  then have "round_half_even (x / ulp y) \<le> round_half_even (y / ulp y)" by (rule round_half_even_mono)
  then show ?thesis by (simp add: rnd_pos_def u mult_right_mono less_imp_le)
next
  case False
  then have lt: "f32_exponent x + 1 \<le> f32_exponent y" using f32_exponent_mono [OF assms] by simp
  moreover have "- 126 \<le> f32_exponent x" by (simp add: f32_exponent_def)
  ultimately have ge: "2 powi (f32_exponent y) \<le> rnd_pos y" using assms by (intro rnd_pos_ge) auto
  have "(2::rat) powi (f32_exponent x + 1) \<le> 2 powi (f32_exponent y)"
    using lt by (rule power_int_increasing) simp
  with ge rnd_pos_le [OF assms(1)] show ?thesis by linarith
qed

lemma rnd_pos_nonneg: "0 < x \<Longrightarrow> 0 \<le> rnd_pos x"
  using round_half_even_floor(1) [of "x / ulp x"]
  by (simp add: rnd_pos_def zero_le_mult_iff less_imp_le)
     (metis divide_nonneg_pos floor_mono floor_zero less_imp_le order.trans ulp_pos)

lemma rnd_0 [simp]: "rnd 0 = 0"
  by (simp add: rnd_def)

lemma rnd_nonneg: "0 \<le> x \<Longrightarrow> 0 \<le> rnd x"
  by (simp add: rnd_def rnd_pos_nonneg)

lemma rnd_mono: "x \<le> y \<Longrightarrow> rnd x \<le> rnd y"
  using rnd_pos_nonneg [of "- x"] rnd_pos_nonneg [of y] rnd_pos_mono [of x y] rnd_pos_mono [of "- y" "- x"]
  by (auto simp: rnd_def not_less)

text \<open>A number with at most 24 significant bits above the subnormal limit is its own rounding.\<close>

lemma rnd_pos_exact:
  assumes "0 < n" "n \<le> 2 ^ 24" "- 149 \<le> k"
  shows "rnd_pos (of_int n * 2 powi k) = of_int n * 2 powi k"
proof -
  define x :: rat where "x = of_int n * 2 powi k"
  define e where "e = f32_exponent x"
  have x0: "0 < x" using assms(1) by (simp add: x_def)
  have n24: "(of_int n :: rat) \<le> 2 ^ 24"
    using assms(2) by (metis of_int_le_iff of_int_numeral of_int_power)
  have "(2::rat) powi (24 + k) = 2 ^ 24 * 2 powi k" by (subst power_int_add) simp_all
  then have xle: "x \<le> 2 powi (24 + k)" using n24 by (simp add: x_def mult_right_mono)
  have low: "e = - 126 \<or> 2 powi e \<le> x" using f32_exponent_bounds(2) [OF x0] by (simp add: e_def)
  have "\<exists>m. x / ulp x = of_int m"
  proof (cases "e \<le> 23 + k")
    case True
    have u: "ulp x = 2 powi (e - 23)" by (simp add: ulp_def e_def)
    have "x / ulp x = of_int n * (2 powi k / 2 powi (e - 23))" unfolding u by (simp add: x_def)
    also have "\<dots> = of_int n * 2 powi (k - (e - 23))" by (subst power_int_diff) simp_all
    also have "\<dots> = of_int (n * 2 ^ nat (k - (e - 23)))" using True by (simp add: power_int_def)
    finally show ?thesis by blast
  next
    case False
    with assms(3) low have le: "2 powi e \<le> x" by auto
    have "24 + k \<le> e" using False by simp
    then have "(2::rat) powi (24 + k) \<le> 2 powi e" by (rule power_int_increasing) simp
    with le xle have "x = 2 powi e" by linarith
    then have "x = 2 ^ 23 * ulp x" using ulp_scale(2) [of x] by (simp only: e_def)
    then have "x / ulp x = 2 ^ 23 * ulp x / ulp x" by (rule arg_cong)
    also have "\<dots> = of_int (2 ^ 23)" by simp
    finally have "x / ulp x = of_int (2 ^ 23)" .
    then show ?thesis by blast
  qed
  then obtain m where m: "x / ulp x = of_int m" by blast
  have "rnd_pos x = of_int m * ulp x" unfolding rnd_pos_def m by simp
  also have "\<dots> = x" using m by (metis nonzero_divide_eq_eq ulp_nonzero)
  finally have "rnd_pos x = x" .
  then show ?thesis by (simp add: x_def)
qed

definition representable :: "rat \<Rightarrow> bool" where
  "representable x \<longleftrightarrow> rnd x = x"

lemma representable_scaled: "0 \<le> n \<Longrightarrow> n \<le> 2 ^ 24 \<Longrightarrow> - 149 \<le> k \<Longrightarrow> representable (of_int n * 2 powi k)"
  using rnd_pos_exact [of n k] by (cases "n = 0") (auto simp: representable_def rnd_def)

lemma representable_rnd_nonneg:
  assumes "0 \<le> x"
  shows "representable (rnd x)"
proof (cases "x = 0")
  case True
  then show ?thesis by (simp add: representable_def)
next
  case False
  with assms have x0: "0 < x" by simp
  let ?n = "round_half_even (x / ulp x)"
  have r: "rnd x = of_int ?n * 2 powi (f32_exponent x - 23)"
    using x0 by (simp add: rnd_def rnd_pos_def ulp_def)
  have "x / ulp x \<le> of_int (2 ^ 24)"
    using f32_exponent_bounds(1) [OF x0] ulp_scale(1) [of x] by (simp add: field_simps)
  then have "?n \<le> 2 ^ 24" using round_half_even_mono round_half_even_of_int by metis
  moreover have "0 \<le> ?n"
    using round_half_even_floor(1) [of "x / ulp x"] x0
    by (metis divide_nonneg_pos less_imp_le order.trans ulp_pos zero_le_floor)
  moreover have "- 149 \<le> f32_exponent x - 23" by (simp add: f32_exponent_def)
  ultimately show ?thesis unfolding r by (intro representable_scaled)
qed

lemma rnd_of_nat: "n \<le> 2 ^ 24 \<Longrightarrow> rnd (of_nat n) = of_nat n"
  using representable_scaled [of "int n" 0] by (simp add: representable_def)

section \<open>Non-negative totals\<close>

text \<open>The floats a score can be: representable and not negative, or the positive overflow.\<close>

fun f_score :: "f32 \<Rightarrow> bool" where
  "f_score (Fin x) \<longleftrightarrow> 0 \<le> x \<and> representable x"
| "f_score PosInf \<longleftrightarrow> True"
| "f_score _ \<longleftrightarrow> False"

definition f_le :: "f32 \<Rightarrow> f32 \<Rightarrow> bool" where
  "f_le a b \<longleftrightarrow> \<not> f_is_nan a \<and> \<not> f_is_nan b \<and> \<not> f_lt b a"

lemma f_le_refl [simp]: "f_score a \<Longrightarrow> f_le a a"
  by (cases a) (auto simp: f_le_def f_is_nan_def)

lemma f_le_trans: "f_le a b \<Longrightarrow> f_le b c \<Longrightarrow> f_le a c"
  by (cases a; cases b; cases c) (auto simp: f_le_def f_is_nan_def)

lemma f32_of_rat_score: "0 \<le> x \<Longrightarrow> f_score (f32_of_rat x)"
  using rnd_nonneg [of x] by (auto simp: f32_of_rat_def Let_def representable_rnd_nonneg)

lemma f32_of_rat_ge:
  assumes "0 \<le> a" "representable a" "a \<le> x"
  shows "f_le (Fin a) (f32_of_rat x)"
proof -
  have "a \<le> rnd x" using rnd_mono [OF assms(3)] assms(2) by (simp add: representable_def)
  with assms(1) show ?thesis by (auto simp: f32_of_rat_def Let_def f_le_def f_is_nan_def)
qed

lemma f_add_score: "f_score a \<Longrightarrow> f_score b \<Longrightarrow> f_score (f_add a b)"
  by (cases a; cases b) (auto intro: f32_of_rat_score)

lemma f_add_ge: "f_score a \<Longrightarrow> f_score b \<Longrightarrow> f_le a (f_add a b)"
proof (cases a; cases b)
  fix x y
  assume "f_score a" "f_score b" "a = Fin x" "b = Fin y"
  then show ?thesis using f32_of_rat_ge [of x "x + y"] by simp
qed (auto simp: f_le_def f_is_nan_def)

lemma f_mul_score: "f_score (Fin x) \<Longrightarrow> f_score (Fin y) \<Longrightarrow> f_score (f_mul (Fin x) (Fin y))"
  by (auto intro!: f32_of_rat_score)

lemma f_of_nat_score: "f_score (f_of_nat n)"
  by (simp add: f_of_nat_def f32_of_rat_score)

lemma f_clamp_bounds:
  assumes "lo \<le> hi" "\<not> f_is_nan x"
  shows "\<exists>y. f_clamp (Fin lo) (Fin hi) x = Fin y \<and> lo \<le> y \<and> y \<le> hi"
  using assms by (cases x) (auto simp: f_clamp_def f_is_nan_def)

lemma f_clamp_nan [simp]: "f_clamp lo hi NaN = NaN"
  by (cases hi) (simp_all add: f_clamp_def)

lemma f_clamp_mono:
  assumes "lo \<le> hi" "f_le x y"
  shows "f_le (f_clamp (Fin lo) (Fin hi) x) (f_clamp (Fin lo) (Fin hi) y)"
  using assms by (cases x; cases y) (auto simp: f_clamp_def f_le_def f_is_nan_def)

lemma round_away_mono: "x \<le> y \<Longrightarrow> round_away x \<le> round_away y"
proof -
  assume xy: "x \<le> y"
  show ?thesis
  proof (cases "0 \<le> x \<or> y < 0")
    case True
    with xy show ?thesis by (auto simp: round_away_def intro!: floor_mono)
  next
    case False
    then have "0 \<le> \<lfloor>- x + 1 / 2\<rfloor>" "0 \<le> \<lfloor>y + 1 / 2\<rfloor>" by (auto simp: zero_le_floor)
    moreover have "round_away x = - \<lfloor>- x + 1 / 2\<rfloor>" "round_away y = \<lfloor>y + 1 / 2\<rfloor>"
      using False by (simp_all only: round_away_def if_False if_True) auto
    ultimately show ?thesis by linarith
  qed
qed

lemma f_round_as_u32_mono: "f_le x y \<Longrightarrow> f_round_as_u32 x \<le> f_round_as_u32 y"
  by (cases x; cases y)
     (auto simp: f_le_def f_is_nan_def nat_mono round_away_mono min.coboundedI2 min.mono)

lemma f32_of_rat_mono: "x \<le> y \<Longrightarrow> f_le (f32_of_rat x) (f32_of_rat y)"
  using rnd_mono [of x y] by (auto simp: f32_of_rat_def Let_def f_le_def f_is_nan_def)

lemma f_add_mono:
  assumes "f_score a" "f_score b" "f_score c" "f_le a b"
  shows "f_le (f_add a c) (f_add b c)"
proof (cases "\<exists>x y z. a = Fin x \<and> b = Fin y \<and> c = Fin z")
  case True
  then obtain x y z where xyz: "a = Fin x" "b = Fin y" "c = Fin z" by blast
  then have "x + z \<le> y + z" using assms(4) by (simp add: f_le_def)
  then show ?thesis unfolding xyz f_add.simps by (rule f32_of_rat_mono)
next
  case False
  then show ?thesis
    using assms by (cases a; cases b; cases c) (auto simp: f_le_def f_is_nan_def f32_of_rat_def Let_def)
qed

lemma f_scale_score: "f_score a \<Longrightarrow> 0 < m \<Longrightarrow> f_score (f_mul a (Fin m))"
  by (cases a) (auto simp: f_inf_sign_def intro!: f32_of_rat_score)

lemma f_scale_mono:
  assumes "f_le a b" "f_score a" "f_score b" "0 < m"
  shows "f_le (f_mul a (Fin m)) (f_mul b (Fin m))"
proof (cases a; cases b)
  fix x y
  assume "a = Fin x" "b = Fin y"
  then show ?thesis
    using assms f32_of_rat_mono [of "x * m" "y * m"] by (auto simp: f_le_def f_is_nan_def mult_right_mono)
qed (use assms in \<open>auto simp: f_le_def f_is_nan_def f_inf_sign_def f32_of_rat_def Let_def\<close>)

end
