(* ===== verification/Nova_Grammar.thy ===== *)
theory Nova_Grammar
  imports Nova_Condition F32
begin

text \<open>
  The condition parser of \<open>nova/parser.rs\<close>: the byte tokenizer, the token iterator with its depth
  counter and the recursive descent.
\<close>

section \<open>Errors and tokens\<close>

datatype cond_token =
  LParen | RParen | Dot | Star | Comma
  | Ident string
  | Var string
  | Number nat
  | KwAnd | KwOr | KwNot | KwOf | KwAny | KwAll | KwTrue | KwFalse

text \<open>
  The \<open>got\<close> text of an error is plain text, the \<open>Debug\<close> form of a token, or that of the result of
  \<open>peek\<close>; the value printed is kept instead of its rendering.
\<close>

datatype got = GotText string | GotToken cond_token | GotPeek "cond_token option"

datatype parse_error =
  MissingRuleHeader string
  | UnexpectedEof string
  | UnexpectedToken string got
  | DuplicateVariable string string
  | DuplicateVariableAcrossSections string
  | DuplicateRuleName string
  | InvalidVariable string string
  | InvalidThreshold string
  | UnknownSection string
  | MalformedLine string string string
  | InvalidRegex string
  | EmptyCondition
  | UnknownConditionSection string
  | DanglingReference nova_section string
  | ConditionTooDeep nat

definition MAX_CONDITION_DEPTH :: nat where
  "MAX_CONDITION_DEPTH = 256"

section \<open>Tokenizer\<close>

definition is_digit_byte :: "char \<Rightarrow> bool" where
  "is_digit_byte c \<longleftrightarrow> 48 \<le> byte_of c \<and> byte_of c \<le> 57"

definition is_alpha_byte :: "char \<Rightarrow> bool" where
  "is_alpha_byte c \<longleftrightarrow> 65 \<le> byte_of c \<and> byte_of c \<le> 90 \<or> 97 \<le> byte_of c \<and> byte_of c \<le> 122"

definition is_word_byte :: "char \<Rightarrow> bool" where
  "is_word_byte c \<longleftrightarrow> is_digit_byte c \<or> is_alpha_byte c \<or> c = CHR ''_''"

definition digits_value :: "string \<Rightarrow> nat" where
  "digits_value ds = foldl (\<lambda>n c. 10 * n + (byte_of c - 48)) 0 ds"

text \<open>\<open>(other as char).to_string()\<close>: the byte read as a Latin-1 code point, in UTF-8.\<close>

definition latin1_char :: "char \<Rightarrow> string" where
  "latin1_char c =
     (let b = byte_of c in
      if b < 128 then [c] else [char_of (192 + b div 64), char_of (128 + b mod 64)])"

definition word_token :: "string \<Rightarrow> cond_token" where
  "word_token w =
     (let l = to_ascii_lowercase w in
      if l = ''and'' then KwAnd
      else if l = ''or'' then KwOr
      else if l = ''not'' then KwNot
      else if l = ''of'' then KwOf
      else if l = ''any'' then KwAny
      else if l = ''all'' then KwAll
      else if l = ''true'' then KwTrue
      else if l = ''false'' then KwFalse
      else Ident w)"

definition push_token :: "cond_token \<Rightarrow> parse_error + cond_token list \<Rightarrow> parse_error + cond_token list" where
  "push_token t r = map_sum id (\<lambda>ts. t # ts) r"

function tokenize_condition :: "string \<Rightarrow> parse_error + cond_token list" where
  "tokenize_condition [] = Inr []"
| "tokenize_condition (c # cs) =
     (if ascii_whitespace_byte c then tokenize_condition cs
      else if c = CHR ''('' then push_token LParen (tokenize_condition cs)
      else if c = CHR '')'' then push_token RParen (tokenize_condition cs)
      else if c = CHR ''.'' then push_token Dot (tokenize_condition cs)
      else if c = CHR ''*'' then push_token Star (tokenize_condition cs)
      else if c = CHR '','' then push_token Comma (tokenize_condition cs)
      else if c = CHR ''$'' then
        (if takeWhile is_word_byte cs = []
         then Inl (UnexpectedToken ''condition (variable name)'' (GotText ''$''))
         else push_token (Var (takeWhile is_word_byte cs))
                (tokenize_condition (dropWhile is_word_byte cs)))
      else if is_digit_byte c then
        (let ds = takeWhile is_digit_byte (c # cs) in
         if u32_max < digits_value ds
         then Inl (UnexpectedToken ''condition (integer)'' (GotText ds))
         else push_token (Number (digits_value ds))
                (tokenize_condition (dropWhile is_digit_byte cs)))
      else if is_alpha_byte c \<or> c = CHR ''_'' then
        push_token (word_token (takeWhile is_word_byte (c # cs)))
          (tokenize_condition (dropWhile is_word_byte cs))
      else Inl (UnexpectedToken ''condition (lexer)'' (GotText (latin1_char c))))"
  by pat_completeness auto

lemma length_dropWhile_Suc: "length (dropWhile P xs) < Suc (length xs)"
  by (simp add: length_dropWhile_le less_Suc_eq_le)

termination tokenize_condition
  by (relation "measure length") (auto simp: length_dropWhile_Suc)

section \<open>Token iterator\<close>

record token_iter =
  it_tokens :: "cond_token list"
  it_pos :: nat
  it_depth :: nat

definition token_iter_new :: "cond_token list \<Rightarrow> token_iter" where
  "token_iter_new ts = \<lparr>it_tokens = ts, it_pos = 0, it_depth = 0\<rparr>"

definition peek :: "token_iter \<Rightarrow> cond_token option" where
  "peek it = (if it_pos it < length (it_tokens it) then Some (it_tokens it ! it_pos it) else None)"

definition advance :: "token_iter \<Rightarrow> token_iter" where
  "advance it = it\<lparr>it_pos := it_pos it + 1\<rparr>"

definition bump :: "token_iter \<Rightarrow> cond_token option \<times> token_iter" where
  "bump it = (peek it, if peek it \<noteq> None then advance it else it)"

definition eat :: "cond_token \<Rightarrow> token_iter \<Rightarrow> bool \<times> token_iter" where
  "eat want it = (if peek it = Some want then (True, advance it) else (False, it))"

definition enter :: "token_iter \<Rightarrow> parse_error + token_iter" where
  "enter it =
     (let d = it_depth it + 1 in
      if MAX_CONDITION_DEPTH < d then Inl (ConditionTooDeep MAX_CONDITION_DEPTH)
      else Inr (it\<lparr>it_depth := d\<rparr>))"

definition leave :: "token_iter \<Rightarrow> token_iter" where
  "leave it = it\<lparr>it_depth := it_depth it - 1\<rparr>"

definition remaining :: "token_iter \<Rightarrow> nat" where
  "remaining it = length (it_tokens it) - it_pos it"

lemma eat_remaining: "eat t it = (b, it') \<Longrightarrow> if b then remaining it' < remaining it else it' = it"
  by (auto simp: eat_def peek_def advance_def remaining_def split: if_splits)

lemma bump_Some: "bump it = (Some t, it') \<Longrightarrow> remaining it' < remaining it"
  by (auto simp: bump_def peek_def advance_def remaining_def split: if_splits)

lemma enter_remaining: "enter it = Inr it' \<Longrightarrow> remaining it' = remaining it"
  by (auto simp: enter_def remaining_def Let_def split: if_splits)

lemma leave_remaining [simp]: "remaining (leave it) = remaining it"
  by (simp add: leave_def remaining_def)

section \<open>Recursive descent\<close>

definition single_or :: "(condition_expr list \<Rightarrow> condition_expr) \<Rightarrow> condition_expr list \<Rightarrow> condition_expr" where
  "single_or f items = (case items of [x] \<Rightarrow> x | _ \<Rightarrow> f items)"

text \<open>\<open><section>.*\<close>, \<open><section>.$prefix*\<close> and the bare \<open><section>\<close> of a quantifier target; \<open>None\<close>
  where the source falls through and resets the position.\<close>

definition section_target :: "token_iter \<Rightarrow> (quantifier_target \<times> token_iter) option" where
  "section_target it =
     (case bump it of
        (Some (Ident section_name), it1) \<Rightarrow>
          (case section_from_str section_name of
             Some s \<Rightarrow>
               (case eat Dot it1 of
                  (False, it2) \<Rightarrow> Some (SectionWildcard s, it2)
                | (True, it2) \<Rightarrow>
                    (case eat Star it2 of
                       (True, it3) \<Rightarrow> Some (SectionWildcard s, it3)
                     | (False, it3) \<Rightarrow>
                         (case bump it3 of
                            (Some (Var p), it4) \<Rightarrow>
                              (case eat Star it4 of
                                 (True, it5) \<Rightarrow> Some (SectionPrefixWildcard s p, it5)
                               | (False, _) \<Rightarrow> None)
                          | _ \<Rightarrow> None)))
           | None \<Rightarrow> None)
      | _ \<Rightarrow> None)"

text \<open>\<open>$prefix*)\<close> after the opening parenthesis of a quantifier target.\<close>

definition cross_section_target :: "token_iter \<Rightarrow> (quantifier_target \<times> token_iter) option" where
  "cross_section_target it =
     (case bump it of
        (Some (Var p), it1) \<Rightarrow>
          (case eat Star it1 of
             (True, it2) \<Rightarrow>
               (case eat RParen it2 of
                  (True, it3) \<Rightarrow> Some (CrossSectionPrefixWildcard p, it3)
                | (False, _) \<Rightarrow> None)
           | (False, _) \<Rightarrow> None)
      | _ \<Rightarrow> None)"

lemma section_target_remaining: "section_target it = Some (t, it') \<Longrightarrow> remaining it' < remaining it"
  by (auto simp: section_target_def split: prod.splits option.splits cond_token.splits bool.splits
        dest!: bump_Some eat_remaining)

lemma cross_section_target_remaining:
  "cross_section_target it = Some (t, it') \<Longrightarrow> remaining it' < remaining it"
  by (auto simp: cross_section_target_def split: prod.splits option.splits cond_token.splits bool.splits
        dest!: bump_Some eat_remaining)

definition parse_section_atom :: "token_iter \<Rightarrow> string \<Rightarrow> parse_error + condition_expr \<times> token_iter" where
  "parse_section_atom it section_name =
     (case eat Dot it of
        (False, it1) \<Rightarrow>
          Inl (UnexpectedToken ''condition (expected `.` after section name)'' (GotPeek (peek it1)))
      | (True, it1) \<Rightarrow>
          (case section_from_str section_name of
             None \<Rightarrow> Inl (UnknownConditionSection section_name)
           | Some s \<Rightarrow>
               (case eat Star it1 of
                  (True, it2) \<Rightarrow> Inr (Wildcard s, it2)
                | (False, it2) \<Rightarrow>
                    (case bump it2 of
                       (None, _) \<Rightarrow> Inl (UnexpectedEof ''condition (variable name)'')
                     | (Some (Var name), it3) \<Rightarrow>
                         (case eat Star it3 of
                            (True, it4) \<Rightarrow> Inr (PrefixWildcard s name, it4)
                          | (False, it4) \<Rightarrow> Inr (Reference s name, it4))
                     | (Some other, _) \<Rightarrow>
                         Inl (UnexpectedToken ''condition (expected `*` or `$var` after section name)''
                               (GotToken other))))))"

lemma parse_section_atom_remaining:
  "parse_section_atom it n = Inr (e, it') \<Longrightarrow> remaining it' < remaining it"
  by (auto simp: parse_section_atom_def split: prod.splits option.splits cond_token.splits bool.splits
        dest!: bump_Some eat_remaining)

definition bare_prefix :: string where
  "bare_prefix = ''__bare__:''"

function (sequential)
  parse_or :: "token_iter \<Rightarrow> parse_error + condition_expr \<times> token_iter"
and parse_or_loop ::
  "condition_expr list \<Rightarrow> token_iter \<Rightarrow> parse_error + condition_expr list \<times> token_iter"
and parse_and :: "token_iter \<Rightarrow> parse_error + condition_expr \<times> token_iter"
and parse_and_loop ::
  "condition_expr list \<Rightarrow> token_iter \<Rightarrow> parse_error + condition_expr list \<times> token_iter"
and parse_not :: "token_iter \<Rightarrow> parse_error + condition_expr \<times> token_iter"
and parse_atom :: "token_iter \<Rightarrow> parse_error + condition_expr \<times> token_iter"
and parse_quantifier_tail :: "quantifier \<Rightarrow> token_iter \<Rightarrow> parse_error + condition_expr \<times> token_iter"
and parse_quantifier_target :: "token_iter \<Rightarrow> parse_error + quantifier_target \<times> token_iter"
and parse_comma_loop ::
  "condition_expr list \<Rightarrow> token_iter \<Rightarrow> parse_error + condition_expr list \<times> token_iter"
where
  "parse_or it =
     and_then (parse_and it) (\<lambda>(first, it1).
     and_then (parse_or_loop [first] it1) (\<lambda>(items, it2).
     Inr (single_or OrE items, it2)))"
| "parse_or_loop items it =
     (case eat KwOr it of
        (True, it1) \<Rightarrow> and_then (parse_and it1) (\<lambda>(e, it2). parse_or_loop (items @ [e]) it2)
      | (False, it1) \<Rightarrow> Inr (items, it1))"
| "parse_and it =
     and_then (parse_not it) (\<lambda>(first, it1).
     and_then (parse_and_loop [first] it1) (\<lambda>(items, it2).
     Inr (single_or AndE items, it2)))"
| "parse_and_loop items it =
     (case eat KwAnd it of
        (True, it1) \<Rightarrow> and_then (parse_not it1) (\<lambda>(e, it2). parse_and_loop (items @ [e]) it2)
      | (False, it1) \<Rightarrow> Inr (items, it1))"
| "parse_not it =
     (case eat KwNot it of
        (True, it1) \<Rightarrow>
          and_then (enter it1) (\<lambda>it2.
          and_then (parse_not it2) (\<lambda>(inner, it3).
          Inr (NotE inner, leave it3)))
      | (False, it1) \<Rightarrow> parse_atom it1)"
| "parse_atom it =
     (case bump it of
        (None, _) \<Rightarrow> Inl (UnexpectedEof ''condition atom'')
      | (Some next, it1) \<Rightarrow>
          (case next of
             LParen \<Rightarrow>
               and_then (enter it1) (\<lambda>it2.
               and_then (parse_or it2) (\<lambda>(inner, it3).
               (case eat RParen (leave it3) of
                  (True, it4) \<Rightarrow> Inr (inner, it4)
                | (False, it4) \<Rightarrow>
                    Inl (UnexpectedToken ''condition (expected `)`)'' (GotPeek (peek it4))))))
           | KwTrue \<Rightarrow> Inr (Literal True, it1)
           | KwFalse \<Rightarrow> Inr (Literal False, it1)
           | KwAny \<Rightarrow> parse_quantifier_tail QAny it1
           | KwAll \<Rightarrow> parse_quantifier_tail QAll it1
           | Number n \<Rightarrow> parse_quantifier_tail (AtLeast n) it1
           | Ident section_name \<Rightarrow> parse_section_atom it1 section_name
           | Var name \<Rightarrow> Inr (Reference Keywords (bare_prefix @ name), it1)
           | other \<Rightarrow> Inl (UnexpectedToken ''condition atom'' (GotToken other))))"
| "parse_quantifier_tail q it =
     (case eat KwOf it of
        (True, it1) \<Rightarrow>
          and_then (parse_quantifier_target it1) (\<lambda>(t, it2). Inr (Quantified q t, it2))
      | (False, it1) \<Rightarrow>
          Inl (UnexpectedToken ''condition (expected `of` after quantifier)'' (GotPeek (peek it1))))"
| "parse_quantifier_target it =
     (case section_target it of
        Some r \<Rightarrow> Inr r
      | None \<Rightarrow>
          (case eat LParen it of
             (True, it1) \<Rightarrow>
               (case cross_section_target it1 of
                  Some r \<Rightarrow> Inr r
                | None \<Rightarrow>
                    and_then (parse_or it1) (\<lambda>(first, it2).
                    and_then (parse_comma_loop [first] it2) (\<lambda>(items, it3).
                    (case eat RParen it3 of
                       (True, it4) \<Rightarrow> Inr (Inner (single_or OrE items), it4)
                     | (False, it4) \<Rightarrow>
                         Inl (UnexpectedToken ''condition (expected `)` after quantifier target)''
                               (GotPeek (peek it4)))))))
           | (False, it1) \<Rightarrow> and_then (parse_atom it1) (\<lambda>(e, it2). Inr (Inner e, it2))))"
| "parse_comma_loop items it =
     (case eat Comma it of
        (True, it1) \<Rightarrow> and_then (parse_or it1) (\<lambda>(e, it2). parse_comma_loop (items @ [e]) it2)
      | (False, it1) \<Rightarrow> Inr (items, it1))"
  by pat_completeness auto

text \<open>
  A parser that succeeds has consumed a token; the loops only never go back. Proved on the domain
  first, because the termination of the loops depends on it.
\<close>

lemmas parse_psimps =
  parse_or.psimps parse_or_loop.psimps parse_and.psimps parse_and_loop.psimps parse_not.psimps
  parse_atom.psimps parse_quantifier_tail.psimps parse_quantifier_target.psimps parse_comma_loop.psimps

lemmas parse_pinduct =
  parse_or_parse_or_loop_parse_and_parse_and_loop_parse_not_parse_atom_parse_quantifier_tail_parse_quantifier_target_parse_comma_loop.pinduct

lemma parse_progress_dom:
  shows "parse_or_parse_or_loop_parse_and_parse_and_loop_parse_not_parse_atom_parse_quantifier_tail_parse_quantifier_target_parse_comma_loop_dom (Inl (Inl (Inl it))) \<Longrightarrow>
           (\<And>e it'. parse_or it = Inr (e, it') \<Longrightarrow> remaining it' < remaining it)"
    and "parse_or_parse_or_loop_parse_and_parse_and_loop_parse_not_parse_atom_parse_quantifier_tail_parse_quantifier_target_parse_comma_loop_dom (Inl (Inl (Inr (items, it)))) \<Longrightarrow>
           (\<And>es it'. parse_or_loop items it = Inr (es, it') \<Longrightarrow> remaining it' \<le> remaining it)"
    and "parse_or_parse_or_loop_parse_and_parse_and_loop_parse_not_parse_atom_parse_quantifier_tail_parse_quantifier_target_parse_comma_loop_dom (Inl (Inr (Inl it))) \<Longrightarrow>
           (\<And>e it'. parse_and it = Inr (e, it') \<Longrightarrow> remaining it' < remaining it)"
    and "parse_or_parse_or_loop_parse_and_parse_and_loop_parse_not_parse_atom_parse_quantifier_tail_parse_quantifier_target_parse_comma_loop_dom (Inl (Inr (Inr (items, it)))) \<Longrightarrow>
           (\<And>es it'. parse_and_loop items it = Inr (es, it') \<Longrightarrow> remaining it' \<le> remaining it)"
    and "parse_or_parse_or_loop_parse_and_parse_and_loop_parse_not_parse_atom_parse_quantifier_tail_parse_quantifier_target_parse_comma_loop_dom (Inr (Inl (Inl it))) \<Longrightarrow>
           (\<And>e it'. parse_not it = Inr (e, it') \<Longrightarrow> remaining it' < remaining it)"
    and "parse_or_parse_or_loop_parse_and_parse_and_loop_parse_not_parse_atom_parse_quantifier_tail_parse_quantifier_target_parse_comma_loop_dom (Inr (Inl (Inr it))) \<Longrightarrow>
           (\<And>e it'. parse_atom it = Inr (e, it') \<Longrightarrow> remaining it' < remaining it)"
    and "parse_or_parse_or_loop_parse_and_parse_and_loop_parse_not_parse_atom_parse_quantifier_tail_parse_quantifier_target_parse_comma_loop_dom (Inr (Inr (Inl (q, it)))) \<Longrightarrow>
           (\<And>e it'. parse_quantifier_tail q it = Inr (e, it') \<Longrightarrow> remaining it' < remaining it)"
    and "parse_or_parse_or_loop_parse_and_parse_and_loop_parse_not_parse_atom_parse_quantifier_tail_parse_quantifier_target_parse_comma_loop_dom (Inr (Inr (Inr (Inl it)))) \<Longrightarrow>
           (\<And>t it'. parse_quantifier_target it = Inr (t, it') \<Longrightarrow> remaining it' < remaining it)"
    and "parse_or_parse_or_loop_parse_and_parse_and_loop_parse_not_parse_atom_parse_quantifier_tail_parse_quantifier_target_parse_comma_loop_dom (Inr (Inr (Inr (Inr (items, it))))) \<Longrightarrow>
           (\<And>es it'. parse_comma_loop items it = Inr (es, it') \<Longrightarrow> remaining it' \<le> remaining it)"
proof (induction it and items it and it and items it and it and it and q it and it and items it
    rule: parse_pinduct)
  case (1 it)
  then show ?case
    by (auto simp: parse_or.psimps [OF 1(1)] and_then_Inr) (meson 1(2) 1(3) le_less_trans)
next
  case (2 items it)
  obtain b it1 where e: "eat KwOr it = (b, it1)" by (cases "eat KwOr it")
  show ?case
  proof (cases b)
    case True
    then have e': "eat KwOr it = (True, it1)" and "remaining it1 < remaining it"
      using e eat_remaining [OF e] by simp_all
    then show ?thesis
      using 2(4)
      by (auto simp: parse_or_loop.psimps [OF 2(1)] and_then_Inr)
        (meson 2(2) [OF e' [symmetric] refl] 2(3) [OF e' [symmetric] refl _ refl] le_trans less_imp_le_nat)
  next
    case False
    then show ?thesis using 2(4) e eat_remaining [OF e] by (simp add: parse_or_loop.psimps [OF 2(1)])
  qed
next
  case (3 it)
  then show ?case
    by (auto simp: parse_and.psimps [OF 3(1)] and_then_Inr) (meson 3(2) 3(3) le_less_trans)
next
  case (4 items it)
  obtain b it1 where e: "eat KwAnd it = (b, it1)" by (cases "eat KwAnd it")
  show ?case
  proof (cases b)
    case True
    then have e': "eat KwAnd it = (True, it1)" and "remaining it1 < remaining it"
      using e eat_remaining [OF e] by simp_all
    then show ?thesis
      using 4(4)
      by (auto simp: parse_and_loop.psimps [OF 4(1)] and_then_Inr)
        (meson 4(2) [OF e' [symmetric] refl] 4(3) [OF e' [symmetric] refl _ refl] le_trans less_imp_le_nat)
  next
    case False
    then show ?thesis using 4(4) e eat_remaining [OF e] by (simp add: parse_and_loop.psimps [OF 4(1)])
  qed
next
  case (5 it)
  obtain b it1 where e: "eat KwNot it = (b, it1)" by (cases "eat KwNot it")
  show ?case
  proof (cases b)
    case True
    then have e': "eat KwNot it = (True, it1)" and "remaining it1 < remaining it"
      using e eat_remaining [OF e] by simp_all
    then show ?thesis
      using 5(4) by (auto simp: parse_not.psimps [OF 5(1)] and_then_Inr)
        (metis 5(2) [OF e' [symmetric] refl] enter_remaining less_trans)
  next
    case False
    then have e': "eat KwNot it = (False, it)" using e eat_remaining [OF e] by simp
    then show ?thesis using 5(4) 5(3) [OF e' [symmetric] refl] by (simp add: parse_not.psimps [OF 5(1)])
  qed
next
  case (6 it)
  obtain o1 it1 where b: "bump it = (o1, it1)" by (cases "bump it")
  with 6(6) obtain t where t: "o1 = Some t" by (cases o1) (auto simp: parse_atom.psimps [OF 6(1)])
  have r: "remaining it1 < remaining it" using b t bump_Some by simp
  note at = parse_atom.psimps [OF 6(1)]
  show ?case
  proof (cases t)
    case LParen
    with 6(6) b t obtain it2 e1 it3 b4 it4 where
      p: "enter it1 = Inr it2" "parse_or it2 = Inr (e1, it3)" "eat RParen (leave it3) = (b4, it4)" "it' = it4"
      by (auto simp: at and_then_Inr split: prod.splits bool.splits) (metis surj_pair)
    then show ?thesis
      using r enter_remaining [OF p(1)] 6(2) [OF b [symmetric] t LParen p(1) p(2)] eat_remaining [OF p(3)]
      by (auto split: if_splits)
  next
    case KwAny
    then show ?thesis using 6(6) b t r 6(4) [OF b [symmetric] t KwAny] by (fastforce simp: at)
  next
    case KwAll
    then show ?thesis using 6(6) b t r 6(5) [OF b [symmetric] t KwAll] by (fastforce simp: at)
  next
    case (Number n)
    then show ?thesis using 6(6) b t r 6(3) [OF b [symmetric] t Number] by (fastforce simp: at)
  next
    case (Ident n)
    then show ?thesis using 6(6) b t r by (auto simp: at dest: parse_section_atom_remaining)
  qed (use 6(6) b t r in \<open>auto simp: at\<close>)
next
  case (7 q it)
  obtain b it1 where e: "eat KwOf it = (b, it1)" by (cases "eat KwOf it")
  with 7(3) have "b" by (cases b) (auto simp: parse_quantifier_tail.psimps [OF 7(1)])
  then have e': "eat KwOf it = (True, it1)" and "remaining it1 < remaining it"
    using e eat_remaining [OF e] by simp_all
  then show ?case
    using 7(3) 7(2) [OF e' [symmetric] refl]
    by (auto simp: parse_quantifier_tail.psimps [OF 7(1)] and_then_Inr)
next
  case (8 it)
  show ?case
  proof (cases "section_target it")
    case (Some r)
    then show ?thesis
      using 8(5) by (cases r) (auto simp: parse_quantifier_target.psimps [OF 8(1)] dest: section_target_remaining)
  next
    case None
    note st = this
    obtain b it1 where e: "eat LParen it = (b, it1)" by (cases "eat LParen it")
    show ?thesis
    proof (cases b)
      case False
      then have e': "eat LParen it = (False, it)" using e eat_remaining [OF e] by simp
      then show ?thesis
        using 8(5) st 8(4) [OF st e' [symmetric] refl]
        by (auto simp: parse_quantifier_target.psimps [OF 8(1)] and_then_Inr)
    next
      case True
      then have e': "eat LParen it = (True, it1)" and r: "remaining it1 < remaining it"
        using e eat_remaining [OF e] by simp_all
      show ?thesis
      proof (cases "cross_section_target it1")
        case (Some r')
        then show ?thesis
          using 8(5) st e' r
          by (cases r') (auto simp: parse_quantifier_target.psimps [OF 8(1)] dest: cross_section_target_remaining)
      next
        case None
        note ih = 8(2) [OF st e' [symmetric] refl None] 8(3) [OF st e' [symmetric] refl None _ refl]
        from 8(5) st e' None obtain e1 it2 es it3 b4 it4 where
          p: "parse_or it1 = Inr (e1, it2)" "parse_comma_loop [e1] it2 = Inr (es, it3)"
            "eat RParen it3 = (b4, it4)" "it' = it4"
          by (auto simp: parse_quantifier_target.psimps [OF 8(1)] and_then_Inr split: prod.splits bool.splits)
            (metis surj_pair)
        then show ?thesis
          using r ih(1) [OF p(1)] ih(2) [OF p(1) p(2)] eat_remaining [OF p(3)] by (auto split: if_splits)
      qed
    qed
  qed
next
  case (9 items it)
  obtain b it1 where e: "eat Comma it = (b, it1)" by (cases "eat Comma it")
  show ?case
  proof (cases b)
    case True
    then have e': "eat Comma it = (True, it1)" and "remaining it1 < remaining it"
      using e eat_remaining [OF e] by simp_all
    then show ?thesis
      using 9(4)
      by (auto simp: parse_comma_loop.psimps [OF 9(1)] and_then_Inr)
        (meson 9(2) [OF e' [symmetric] refl] 9(3) [OF e' [symmetric] refl _ refl] le_trans less_imp_le_nat)
  next
    case False
    then show ?thesis using 9(4) e eat_remaining [OF e] by (simp add: parse_comma_loop.psimps [OF 9(1)])
  qed
qed

termination parse_or
  apply (relation "measure
    (case_sum
      (case_sum (case_sum (\<lambda>it. 6 * remaining it + 5) (\<lambda>(_, it). 6 * remaining it + 5))
        (case_sum (\<lambda>it. 6 * remaining it + 3) (\<lambda>(_, it). 6 * remaining it + 3)))
      (case_sum (case_sum (\<lambda>it. 6 * remaining it + 2) (\<lambda>it. 6 * remaining it + 1))
        (case_sum (\<lambda>(_, it). 6 * remaining it + 2)
          (case_sum (\<lambda>it. 6 * remaining it + 2) (\<lambda>(_, it). 6 * remaining it + 5)))))")
  by (auto dest!: eat_remaining [OF sym] bump_Some [OF sym] enter_remaining parse_progress_dom)

lemmas parse_simps =
  parse_or.simps parse_or_loop.simps parse_and.simps parse_and_loop.simps parse_not.simps
  parse_atom.simps parse_quantifier_tail.simps parse_quantifier_target.simps parse_comma_loop.simps

declare parse_simps [simp del]

text \<open>The end of \<open>parse_condition\<close>: descend, then reject trailing input.\<close>

definition parse_tokens :: "cond_token list \<Rightarrow> parse_error + condition_expr" where
  "parse_tokens ts =
     and_then (parse_or (token_iter_new ts)) (\<lambda>(e, it).
     case peek it of
       Some extra \<Rightarrow> Inl (UnexpectedToken ''condition (trailing input)'' (GotToken extra))
     | None \<Rightarrow> Inr e)"

end
