(* ===== verification/Nova_Round_Trip.thy ===== *)
theory Nova_Round_Trip
  imports Nova_Grammar
begin

text \<open>
  The condition parser against the abstract syntax: a printer with minimal parentheses, the exact
  result of parsing what it prints, and what every accepted condition satisfies.

  \<open>need e\<close> is the deepest nesting of \<open>not\<close> and of parentheses in the printed form, which is what
  the depth counter of \<open>TokenIter\<close> counts. The parentheses of a quantifier target are not
  counted, because \<open>parse_quantifier_target\<close> does not call \<open>enter\<close>.
\<close>

section \<open>Printer\<close>

primrec quantifier_token :: "quantifier \<Rightarrow> cond_token" where
  "quantifier_token QAny = KwAny"
| "quantifier_token QAll = KwAll"
| "quantifier_token (AtLeast n) = Number n"

definition section_tokens :: "nova_section \<Rightarrow> cond_token list" where
  "section_tokens s = [Ident (section_display s), Dot]"

definition reference_tokens :: "nova_section \<Rightarrow> string \<Rightarrow> cond_token list" where
  "reference_tokens s v =
     (if s = Keywords \<and> prefix bare_prefix v then [Var (drop (length bare_prefix) v)]
      else section_tokens s @ [Var v])"

fun join_tokens :: "cond_token \<Rightarrow> cond_token list list \<Rightarrow> cond_token list" where
  "join_tokens sep [] = []"
| "join_tokens sep [ts] = ts"
| "join_tokens sep (ts # us # tss) = ts @ sep # join_tokens sep (us # tss)"

primrec prec :: "condition_expr \<Rightarrow> nat" where
  "prec (OrE _) = 0"
| "prec (AndE _) = 1"
| "prec (NotE _) = 2"
| "prec (Literal _) = 3"
| "prec (Reference _ _) = 3"
| "prec (Wildcard _) = 3"
| "prec (PrefixWildcard _ _) = 3"
| "prec (Quantified _ _) = 3"

definition wrap_tokens :: "nat \<Rightarrow> condition_expr \<Rightarrow> cond_token list \<Rightarrow> cond_token list" where
  "wrap_tokens k e ts = (if prec e < k then LParen # ts @ [RParen] else ts)"

fun print_tokens :: "condition_expr \<Rightarrow> cond_token list"
and target_tokens :: "quantifier_target \<Rightarrow> cond_token list"
where
  "print_tokens (Literal b) = [if b then KwTrue else KwFalse]"
| "print_tokens (Reference s v) = reference_tokens s v"
| "print_tokens (Wildcard s) = section_tokens s @ [Star]"
| "print_tokens (PrefixWildcard s p) = section_tokens s @ [Var p, Star]"
| "print_tokens (NotE e) = KwNot # wrap_tokens 2 e (print_tokens e)"
| "print_tokens (AndE es) = join_tokens KwAnd (map (\<lambda>e. wrap_tokens 2 e (print_tokens e)) es)"
| "print_tokens (OrE es) = join_tokens KwOr (map (\<lambda>e. wrap_tokens 1 e (print_tokens e)) es)"
| "print_tokens (Quantified q t) = quantifier_token q # KwOf # target_tokens t"
| "target_tokens (SectionWildcard s) = section_tokens s @ [Star]"
| "target_tokens (SectionPrefixWildcard s p) = section_tokens s @ [Var p, Star]"
| "target_tokens (CrossSectionPrefixWildcard p) = [LParen, Var p, Star, RParen]"
| "target_tokens (Inner e) =
     LParen # join_tokens Comma (case e of OrE es \<Rightarrow> map print_tokens es | _ \<Rightarrow> [print_tokens e]) @ [RParen]"

definition wrap_need :: "nat \<Rightarrow> condition_expr \<Rightarrow> nat \<Rightarrow> nat" where
  "wrap_need k e n = (if prec e < k then Suc n else n)"

fun need :: "condition_expr \<Rightarrow> nat"
and target_need :: "quantifier_target \<Rightarrow> nat"
where
  "need (NotE e) = Suc (wrap_need 2 e (need e))"
| "need (AndE es) = foldr max (map (\<lambda>e. wrap_need 2 e (need e)) es) 0"
| "need (OrE es) = foldr max (map (\<lambda>e. wrap_need 1 e (need e)) es) 0"
| "need (Quantified q t) = target_need t"
| "need (Literal b) = 0"
| "need (Reference s v) = 0"
| "need (Wildcard s) = 0"
| "need (PrefixWildcard s p) = 0"
| "target_need (Inner e) = (case e of OrE es \<Rightarrow> foldr max (map need es) 0 | _ \<Rightarrow> need e)"
| "target_need (SectionWildcard s) = 0"
| "target_need (SectionPrefixWildcard s p) = 0"
| "target_need (CrossSectionPrefixWildcard p) = 0"

text \<open>A conjunction or disjunction the parser builds has at least two operands.\<close>

fun wf_expr :: "condition_expr \<Rightarrow> bool"
and wf_target :: "quantifier_target \<Rightarrow> bool"
where
  "wf_expr (NotE e) = wf_expr e"
| "wf_expr (AndE es) = (2 \<le> length es \<and> list_all wf_expr es)"
| "wf_expr (OrE es) = (2 \<le> length es \<and> list_all wf_expr es)"
| "wf_expr (Quantified q t) = wf_target t"
| "wf_expr (Literal b) = True"
| "wf_expr (Reference s v) = True"
| "wf_expr (Wildcard s) = True"
| "wf_expr (PrefixWildcard s p) = True"
| "wf_target (Inner e) = wf_expr e"
| "wf_target (SectionWildcard s) = True"
| "wf_target (SectionPrefixWildcard s p) = True"
| "wf_target (CrossSectionPrefixWildcard p) = True"

section \<open>Iterators at a list of tokens\<close>

definition rest :: "token_iter \<Rightarrow> cond_token list" where
  "rest it = drop (it_pos it) (it_tokens it)"

definition skip :: "nat \<Rightarrow> token_iter \<Rightarrow> token_iter" where
  "skip n it = it\<lparr>it_pos := it_pos it + n\<rparr>"

lemma skip_simps [simp]:
  "rest (skip n it) = drop n (rest it)" "skip n (skip m it) = skip (m + n) it"
  "it_depth (skip n it) = it_depth it" "skip 0 it = it"
  by (simp_all add: rest_def skip_def add_ac)

lemma advance_skip [simp]: "advance it = skip 1 it"
  by (simp add: advance_def skip_def)

lemma peek_rest: "peek it = (case rest it of [] \<Rightarrow> None | t # _ \<Rightarrow> Some t)"
  by (cases "it_pos it < length (it_tokens it)") (auto simp: peek_def rest_def Cons_nth_drop_Suc [symmetric])

lemma eat_rest:
  "eat t it = (case rest it of u # _ \<Rightarrow> if u = t then (True, skip 1 it) else (False, it) | [] \<Rightarrow> (False, it))"
  by (auto simp: eat_def peek_rest split: list.splits)

lemma bump_rest:
  "bump it = (case rest it of [] \<Rightarrow> (None, it) | t # _ \<Rightarrow> (Some t, skip 1 it))"
  by (auto simp: bump_def peek_rest split: list.splits)

definition deeper :: "token_iter \<Rightarrow> token_iter" where
  "deeper it = it\<lparr>it_depth := Suc (it_depth it)\<rparr>"

lemma deeper_simps [simp]:
  "rest (deeper it) = rest it" "it_depth (deeper it) = Suc (it_depth it)"
  "leave (skip n (deeper it)) = skip n it"
  by (simp_all add: rest_def deeper_def leave_def skip_def)

lemma enter_deeper:
  "enter it = (if MAX_CONDITION_DEPTH < Suc (it_depth it) then Inl (ConditionTooDeep MAX_CONDITION_DEPTH)
               else Inr (deeper it))"
  by (simp add: enter_def deeper_def Let_def)

section \<open>Parsing a printed expression\<close>

definition parsed :: "'a \<Rightarrow> nat \<Rightarrow> token_iter \<Rightarrow> nat \<Rightarrow> parse_error + 'a \<times> token_iter" where
  "parsed e d it n =
     (if it_depth it + d \<le> MAX_CONDITION_DEPTH then Inr (e, skip n it)
      else Inl (ConditionTooDeep MAX_CONDITION_DEPTH))"

text \<open>What may follow an expression of the given level.\<close>

definition follow :: "nat \<Rightarrow> cond_token list \<Rightarrow> bool" where
  "follow k r \<longleftrightarrow>
     (case r of [] \<Rightarrow> True
      | t # _ \<Rightarrow> t \<noteq> Star \<and> (k < 2 \<longrightarrow> t \<noteq> KwAnd) \<and> (k < 1 \<longrightarrow> t \<noteq> KwOr))"

definition level_parser :: "nat \<Rightarrow> token_iter \<Rightarrow> parse_error + condition_expr \<times> token_iter" where
  "level_parser k = (if k = 0 then parse_or else if k = 1 then parse_and else if k = 2 then parse_not else parse_atom)"

text \<open>Parsing at level \<open>k\<close> what is printed for \<open>e\<close> at level \<open>k\<close>.\<close>

definition parses :: "nat \<Rightarrow> condition_expr \<Rightarrow> cond_token list \<Rightarrow> nat \<Rightarrow> bool" where
  "parses k e ts d \<longleftrightarrow>
     (\<forall>it r. rest it = ts @ r \<longrightarrow> follow k r \<longrightarrow> it_depth it \<le> MAX_CONDITION_DEPTH
        \<longrightarrow> level_parser k it = parsed e d it (length ts))"

lemma parsesD:
  "parses k e ts d \<Longrightarrow> rest it = ts @ r \<Longrightarrow> follow k r \<Longrightarrow> it_depth it \<le> MAX_CONDITION_DEPTH
     \<Longrightarrow> level_parser k it = parsed e d it (length ts)"
  by (simp add: parses_def)

lemma level_parser_simps [simp]:
  "level_parser 0 = parse_or" "level_parser (Suc 0) = parse_and" "level_parser 2 = parse_not"
  "level_parser 3 = parse_atom"
  by (simp_all add: level_parser_def)

lemma follow_mono: "follow k r \<Longrightarrow> k \<le> l \<Longrightarrow> follow l r"
  by (auto simp: follow_def split: list.splits)

lemma follow_Cons: "follow k (t # r) \<longleftrightarrow> t \<noteq> Star \<and> (k < 2 \<longrightarrow> t \<noteq> KwAnd) \<and> (k < 1 \<longrightarrow> t \<noteq> KwOr)"
  by (simp add: follow_def)

text \<open>The three operand loops share one shape.\<close>

locale operand_loop =
  fixes sep :: cond_token and k :: nat
    and loop :: "condition_expr list \<Rightarrow> token_iter \<Rightarrow> parse_error + condition_expr list \<times> token_iter"
  assumes loop_eq: "loop items it =
      (case eat sep it of
         (True, it1) \<Rightarrow> and_then (level_parser k it1) (\<lambda>(e, it2). loop (items @ [e]) it2)
       | (False, it1) \<Rightarrow> Inr (items, it1))"
    and sep_follow: "follow k (sep # r)"
begin

lemma loop_stops: "rest it = r \<Longrightarrow> take 1 r \<noteq> [sep] \<Longrightarrow> loop items it = Inr (items, it)"
  by (cases r) (auto simp: loop_eq [of items it] eat_rest)

lemma loop_parses:
  assumes "\<And>e. e \<in> set es \<Longrightarrow> parses k e (T e) (D e)"
    and "rest it = concat (map (\<lambda>e. sep # T e) es) @ r"
    and "follow k r" "take 1 r \<noteq> [sep]" "it_depth it \<le> MAX_CONDITION_DEPTH"
  shows "loop items it
           = parsed (items @ es) (foldr max (map D es) 0) it (length (concat (map (\<lambda>e. sep # T e) es)))"
  using assms
proof (induction es arbitrary: items it)
  case Nil
  then show ?case by (simp add: loop_stops parsed_def)
next
  case (Cons e es)
  let ?tail = "concat (map (\<lambda>e. sep # T e) es) @ r"
  have f: "follow k ?tail" using Cons.prems(3) sep_follow by (cases es) auto
  have "rest (skip 1 it) = T e @ ?tail" using Cons.prems(2) by simp
  from parsesD [OF Cons.prems(1) this f] have p: "level_parser k (skip 1 it) = parsed e (D e) (skip 1 it) (length (T e))"
    using Cons.prems(5) by simp
  have "loop (items @ [e]) (skip (Suc (length (T e))) it)
          = parsed ((items @ [e]) @ es) (foldr max (map D es) 0) (skip (Suc (length (T e))) it)
              (length (concat (map (\<lambda>e. sep # T e) es)))"
    using Cons.prems by (intro Cons.IH) auto
  then show ?case
    using p Cons.prems(2) by (auto simp: loop_eq [of items it] eat_rest parsed_def)
qed

end

interpretation or_ops: operand_loop KwOr "Suc 0" parse_or_loop
  by unfold_locales (subst parse_or_loop.simps, simp split: prod.split bool.split, simp add: follow_def)

interpretation and_ops: operand_loop KwAnd 2 parse_and_loop
  by unfold_locales (subst parse_and_loop.simps, simp split: prod.split bool.split, simp add: follow_def)

interpretation comma_ops: operand_loop Comma 0 parse_comma_loop
  by unfold_locales (subst parse_comma_loop.simps, simp split: prod.split bool.split, simp add: follow_def)

lemma join_tokens_Cons: "join_tokens sep (map T (e # es)) = T e @ concat (map (\<lambda>e. sep # T e) es)"
  by (induction es arbitrary: e) auto

text \<open>Levels.\<close>

lemma single_or_simps [simp]: "single_or f [x] = x" "single_or f (x # y # xs) = f (x # y # xs)"
  by (simp_all add: single_or_def)

lemma parses_not_of_atom:
  assumes "parses 3 e ts d" "ts \<noteq> []" "hd ts \<noteq> KwNot"
  shows "parses 2 e ts d"
  unfolding parses_def
proof (intro allI impI)
  fix it r
  assume a: "rest it = ts @ r" "follow 2 r" "it_depth it \<le> MAX_CONDITION_DEPTH"
  then have "eat KwNot it = (False, it)" using assms(2,3) by (cases ts) (auto simp: eat_rest)
  with parsesD [OF assms(1) a(1) follow_mono [OF a(2)] a(3)]
  show "level_parser 2 it = parsed e d it (length ts)" by (simp add: parse_not.simps [of it])
qed

lemma parses_and_of_not: "parses 2 e ts d \<Longrightarrow> parses (Suc 0) e ts d"
  unfolding parses_def [of "Suc 0"]
proof (intro allI impI)
  fix it r
  assume p: "parses 2 e ts d"
    and a: "rest it = ts @ r" "follow (Suc 0) r" "it_depth it \<le> MAX_CONDITION_DEPTH"
  have "take 1 r \<noteq> [KwAnd]" using a(2) by (cases r) (auto simp: follow_def)
  with parsesD [OF p a(1) follow_mono [OF a(2)] a(3)] a(1)
  show "level_parser (Suc 0) it = parsed e d it (length ts)"
    by (simp add: parse_and.simps [of it] parsed_def and_ops.loop_stops)
qed

lemma parses_or_of_and: "parses (Suc 0) e ts d \<Longrightarrow> parses 0 e ts d"
  unfolding parses_def [of 0]
proof (intro allI impI)
  fix it r
  assume p: "parses (Suc 0) e ts d"
    and a: "rest it = ts @ r" "follow 0 r" "it_depth it \<le> MAX_CONDITION_DEPTH"
  have "take 1 r \<noteq> [KwOr]" using a(2) by (cases r) (auto simp: follow_def)
  with parsesD [OF p a(1) follow_mono [OF a(2)] a(3)] a(1)
  show "level_parser 0 it = parsed e d it (length ts)"
    by (simp add: parse_or.simps [of it] parsed_def or_ops.loop_stops)
qed

lemma parses_paren: "parses 0 e ts d \<Longrightarrow> parses 3 e (LParen # ts @ [RParen]) (Suc d)"
  unfolding parses_def [of 3]
proof (intro allI impI)
  fix it r
  assume p: "parses 0 e ts d"
    and a: "rest it = (LParen # ts @ [RParen]) @ r" "follow 3 r" "it_depth it \<le> MAX_CONDITION_DEPTH"
  have "rest (deeper (skip 1 it)) = ts @ RParen # r" using a(1) by simp
  from parsesD [OF p this]
  have "\<not> MAX_CONDITION_DEPTH < Suc (it_depth it) \<Longrightarrow>
      parse_or (deeper (skip 1 it)) = parsed e d (deeper (skip 1 it)) (length ts)"
    by (simp add: follow_def)
  then show "level_parser 3 it = parsed e (Suc d) it (length (LParen # ts @ [RParen]))"
    using a(1,3) by (auto simp: parse_atom.simps [of it] bump_rest enter_deeper parsed_def eat_rest)
qed

lemma parses_not: "parses 2 e ts d \<Longrightarrow> parses 2 (NotE e) (KwNot # ts) (Suc d)"
  unfolding parses_def [of 2 "NotE e"]
proof (intro allI impI)
  fix it r
  assume p: "parses 2 e ts d"
    and a: "rest it = (KwNot # ts) @ r" "follow 2 r" "it_depth it \<le> MAX_CONDITION_DEPTH"
  have "rest (deeper (skip 1 it)) = ts @ r" using a(1) by simp
  from parsesD [OF p this a(2)]
  have "\<not> MAX_CONDITION_DEPTH < Suc (it_depth it) \<Longrightarrow>
      parse_not (deeper (skip 1 it)) = parsed e d (deeper (skip 1 it)) (length ts)"
    by simp
  then show "level_parser 2 it = parsed (NotE e) (Suc d) it (length (KwNot # ts))"
    using a(1,3) by (auto simp: parse_not.simps [of it] eat_rest enter_deeper parsed_def)
qed

lemma parses_levels:
  assumes "parses 3 e ts d" "ts \<noteq> []" "hd ts \<noteq> KwNot" "k \<le> 3"
  shows "parses k e ts d"
proof -
  have p2: "parses 2 e ts d" by (rule parses_not_of_atom [OF assms(1-3)])
  have p1: "parses (Suc 0) e ts d" by (rule parses_and_of_not [OF p2])
  have p0: "parses 0 e ts d" by (rule parses_or_of_and [OF p1])
  have "k = 0 \<or> k = Suc 0 \<or> k = 2 \<or> k = 3" using assms(4) by arith
  then show ?thesis using assms(1) p0 p1 p2 by blast
qed

lemma parses_wrap:
  assumes "\<And>j. j \<le> prec e \<Longrightarrow> parses j e ts d" "k \<le> 3"
  shows "parses k e (wrap_tokens k e ts) (wrap_need k e d)"
proof (cases "prec e < k")
  case True
  have "parses 3 e (LParen # ts @ [RParen]) (Suc d)" by (rule parses_paren [OF assms(1)]) simp
  then have "parses k e (LParen # ts @ [RParen]) (Suc d)"
    by (rule parses_levels) (simp_all add: assms(2))
  then show ?thesis using True by (simp add: wrap_tokens_def wrap_need_def)
next
  case False
  then show ?thesis using assms(1) by (simp add: wrap_tokens_def wrap_need_def)
qed

lemma at_least_two:
  assumes "2 \<le> length es"
  obtains x y zs where "es = x # y # zs"
  using assms by (cases es; cases "tl es") auto

lemma parses_AndE:
  assumes p: "\<And>e. e \<in> set es \<Longrightarrow> parses 2 e (T e) (D e)" and l: "2 \<le> length es"
  shows "parses (Suc 0) (AndE es) (join_tokens KwAnd (map T es)) (foldr max (map D es) 0)"
  unfolding parses_def
proof (intro allI impI)
  fix it r
  assume a: "rest it = join_tokens KwAnd (map T es) @ r" "follow (Suc 0) r" "it_depth it \<le> MAX_CONDITION_DEPTH"
  obtain x y zs where es: "es = x # y # zs" using at_least_two [OF l] .
  let ?ops = "concat (map (\<lambda>e. KwAnd # T e) (y # zs))"
  have fr: "follow 2 r" "take 1 r \<noteq> [KwAnd]" using a(2) by (auto simp: follow_def split: list.splits)
  have r1: "rest it = T x @ ?ops @ r" using a(1) unfolding es join_tokens_Cons by simp
  have "parse_not it = parsed x (D x) it (length (T x))"
    using parsesD [OF p [of x] r1] a(3) by (simp add: es follow_Cons)
  moreover have "parse_and_loop [x] (skip (length (T x)) it)
      = parsed ([x] @ y # zs) (foldr max (map D (y # zs)) 0) (skip (length (T x)) it) (length ?ops)"
    using p a(3) r1 fr by (intro and_ops.loop_parses [where r = r]) (auto simp: es)
  ultimately show "level_parser (Suc 0) it
      = parsed (AndE es) (foldr max (map D es) 0) it (length (join_tokens KwAnd (map T es)))"
    unfolding es join_tokens_Cons by (auto simp: parse_and.simps [of it] parsed_def)
qed

lemma parses_OrE:
  assumes p: "\<And>e. e \<in> set es \<Longrightarrow> parses (Suc 0) e (T e) (D e)" and l: "2 \<le> length es"
  shows "parses 0 (OrE es) (join_tokens KwOr (map T es)) (foldr max (map D es) 0)"
  unfolding parses_def
proof (intro allI impI)
  fix it r
  assume a: "rest it = join_tokens KwOr (map T es) @ r" "follow 0 r" "it_depth it \<le> MAX_CONDITION_DEPTH"
  obtain x y zs where es: "es = x # y # zs" using at_least_two [OF l] .
  let ?ops = "concat (map (\<lambda>e. KwOr # T e) (y # zs))"
  have fr: "follow (Suc 0) r" "take 1 r \<noteq> [KwOr]" using a(2) by (auto simp: follow_def split: list.splits)
  have r1: "rest it = T x @ ?ops @ r" using a(1) unfolding es join_tokens_Cons by simp
  have "parse_and it = parsed x (D x) it (length (T x))"
    using parsesD [OF p [of x] r1] a(3) by (simp add: es follow_Cons)
  moreover have "parse_or_loop [x] (skip (length (T x)) it)
      = parsed ([x] @ y # zs) (foldr max (map D (y # zs)) 0) (skip (length (T x)) it) (length ?ops)"
    using p a(3) r1 fr by (intro or_ops.loop_parses [where r = r]) (auto simp: es)
  ultimately show "level_parser 0 it
      = parsed (OrE es) (foldr max (map D es) 0) it (length (join_tokens KwOr (map T es)))"
    unfolding es join_tokens_Cons by (auto simp: parse_or.simps [of it] parsed_def)
qed

text \<open>Quantifier targets.\<close>

definition target_parses :: "quantifier_target \<Rightarrow> bool" where
  "target_parses t \<longleftrightarrow>
     (\<forall>it r. rest it = target_tokens t @ r \<longrightarrow> it_depth it \<le> MAX_CONDITION_DEPTH
        \<longrightarrow> parse_quantifier_target it = parsed t (target_need t) it (length (target_tokens t)))"

lemma section_from_display [simp]: "section_from_str (section_display s) = Some s"
  by (cases s) (simp_all add: section_from_str.simps)

lemma simple_target_parses:
  "target_parses (SectionWildcard s)" "target_parses (SectionPrefixWildcard s p)"
  "target_parses (CrossSectionPrefixWildcard p)"
  by (auto simp: target_parses_def parse_quantifier_target.simps section_target_def cross_section_target_def
        bump_rest eat_rest section_tokens_def parsed_def)

text \<open>A printed group never looks like \<open>$prefix*)\<close>.\<close>

definition no_var_star :: "cond_token list \<Rightarrow> bool" where
  "no_var_star ts \<longleftrightarrow> (case ts of Var p # t # _ \<Rightarrow> t \<noteq> Star | _ \<Rightarrow> True)"

lemma no_var_star_append: "no_var_star ts \<Longrightarrow> ts \<noteq> [] \<Longrightarrow> take 1 us \<noteq> [Star] \<Longrightarrow> no_var_star (ts @ us)"
  by (cases ts; cases "tl ts"; cases us) (auto simp: no_var_star_def split: cond_token.splits)

lemma no_var_star_cross: "no_var_star (rest it) \<Longrightarrow> cross_section_target it = None"
  by (auto simp: cross_section_target_def no_var_star_def bump_rest eat_rest split: list.splits cond_token.splits)

lemma inner_target_parses:
  assumes p: "\<And>i. i \<in> set es \<Longrightarrow> parses 0 i (T i) (D i)"
    and ne: "es \<noteq> []" and e: "e = single_or OrE es"
    and nv: "no_var_star (T (hd es))" "T (hd es) \<noteq> []"
    and a: "rest it = LParen # join_tokens Comma (map T es) @ RParen # r" "it_depth it \<le> MAX_CONDITION_DEPTH"
  shows "parse_quantifier_target it
           = parsed (Inner e) (foldr max (map D es) 0) it (length (join_tokens Comma (map T es)) + 2)"
proof -
  obtain x zs where es: "es = x # zs" using ne by (cases es) auto
  let ?ops = "concat (map (\<lambda>e. Comma # T e) zs)"
  have r1: "rest (skip 1 it) = T x @ ?ops @ RParen # r"
    using a(1) unfolding es join_tokens_Cons by simp
  have st: "section_target it = None" by (simp add: section_target_def bump_rest a(1))
  have nv': "no_var_star (rest (skip 1 it))"
    unfolding r1 using nv es by (intro no_var_star_append) (cases zs; simp)+
  have ct: "cross_section_target (skip 1 it) = None"
    unfolding no_var_star_cross [OF nv'] ..
  have f: "follow 0 (?ops @ RParen # r)" by (cases zs) (auto simp: follow_def)
  have "parse_or (skip 1 it) = parsed x (D x) (skip 1 it) (length (T x))"
    using parsesD [OF p [of x] r1 f] a(2) by (simp add: es)
  moreover have "parse_comma_loop [x] (skip (length (T x)) (skip 1 it))
      = parsed ([x] @ zs) (foldr max (map D zs) 0) (skip (length (T x)) (skip 1 it)) (length ?ops)"
    using p a r1 by (intro comma_ops.loop_parses [where r = "RParen # r"])
      (auto simp: es follow_def)
  ultimately show ?thesis
    using r1 unfolding e es join_tokens_Cons
    by (auto simp: parse_quantifier_target.simps [of it] st eat_rest a(1) ct [unfolded One_nat_def] parsed_def)
qed

text \<open>What a printed expression starts with.\<close>

lemma print_atom_start: "prec e = 3 \<Longrightarrow> print_tokens e \<noteq> [] \<and> hd (print_tokens e) \<noteq> KwNot"
proof (cases e)
  case (Quantified q t)
  then show ?thesis by (cases q) auto
qed (auto simp: reference_tokens_def section_tokens_def)

lemma no_var_star_wrap:
  "no_var_star ts \<Longrightarrow> no_var_star (wrap_tokens k e ts)" "ts \<noteq> [] \<Longrightarrow> wrap_tokens k e ts \<noteq> []"
  by (simp_all add: wrap_tokens_def no_var_star_def)

lemma no_var_star_join:
  assumes "\<And>e. e \<in> set es \<Longrightarrow> no_var_star (T e) \<and> T e \<noteq> []" "es \<noteq> []" "sep \<noteq> Star"
  shows "no_var_star (join_tokens sep (map T es)) \<and> join_tokens sep (map T es) \<noteq> []"
proof -
  obtain x xs where es: "es = x # xs" using assms(2) by (cases es) auto
  have "take 1 (concat (map (\<lambda>e. sep # T e) xs)) \<noteq> [Star]" using assms(3) by (cases xs) auto
  then show ?thesis
    using assms(1) [of x] unfolding es join_tokens_Cons by (simp add: no_var_star_append)
qed

lemma print_no_var_star: "wf_expr e \<Longrightarrow> no_var_star (print_tokens e) \<and> print_tokens e \<noteq> []"
  and target_trivial: "wf_target t \<Longrightarrow> True"
proof (induction e and t rule: wf_expr_wf_target.induct)
  case (1 e)
  then show ?case by (simp add: no_var_star_def)
next
  case (2 es)
  then have "\<And>e. e \<in> set es \<Longrightarrow>
      no_var_star (wrap_tokens 2 e (print_tokens e)) \<and> wrap_tokens 2 e (print_tokens e) \<noteq> []"
    by (simp add: list_all_iff no_var_star_wrap)
  moreover have "es \<noteq> []" using 2 by auto
  ultimately show ?case using no_var_star_join [of es] by simp
next
  case (3 es)
  then have "\<And>e. e \<in> set es \<Longrightarrow>
      no_var_star (wrap_tokens 1 e (print_tokens e)) \<and> wrap_tokens 1 e (print_tokens e) \<noteq> []"
    by (simp add: list_all_iff no_var_star_wrap)
  moreover have "es \<noteq> []" using 3 by auto
  ultimately show ?case using no_var_star_join [of es] by simp
next
  case (4 q t)
  then show ?case by (cases q) (simp_all add: no_var_star_def)
qed (auto simp: no_var_star_def reference_tokens_def section_tokens_def)

text \<open>The atoms without operands.\<close>

lemma bare_reference: "prefix bare_prefix v \<Longrightarrow> bare_prefix @ drop (length bare_prefix) v = v"
  by (auto simp: prefix_def)

lemma simple_atom_parses:
  "parses 3 (Literal b) (print_tokens (Literal b)) 0"
  "parses 3 (Reference s v) (print_tokens (Reference s v)) 0"
  "parses 3 (Wildcard s) (print_tokens (Wildcard s)) 0"
  "parses 3 (PrefixWildcard s p) (print_tokens (PrefixWildcard s p)) 0"
  by (auto simp: parses_def parse_atom.simps parse_section_atom_def bump_rest eat_rest parsed_def
        section_tokens_def reference_tokens_def follow_def bare_reference split: list.splits)

lemma quantified_parses:
  assumes "target_parses t"
  shows "parses 3 (Quantified q t) (print_tokens (Quantified q t)) (target_need t)"
  unfolding parses_def
proof (intro allI impI)
  fix it r
  assume a: "rest it = print_tokens (Quantified q t) @ r" "it_depth it \<le> MAX_CONDITION_DEPTH"
  have "parse_quantifier_target (skip 2 it) = parsed t (target_need t) (skip 2 it) (length (target_tokens t))"
    using assms a by (simp add: target_parses_def)
  moreover have "parse_atom it = parse_quantifier_tail q (skip 1 it)"
    using a(1) by (cases q) (simp_all add: parse_atom.simps [of it] bump_rest)
  ultimately show "level_parser 3 it
      = parsed (Quantified q t) (target_need t) it (length (print_tokens (Quantified q t)))"
    using a(1) by (auto simp: parse_quantifier_tail.simps eat_rest parsed_def numeral_2_eq_2)
qed

lemma parses_atom_levels: "parses 3 e (print_tokens e) d \<Longrightarrow> prec e = 3 \<Longrightarrow> k \<le> 3 \<Longrightarrow> parses k e (print_tokens e) d"
  using print_atom_start by (blast intro: parses_levels)

lemma print_parses:
  shows "wf_expr e \<Longrightarrow> k \<le> prec e \<Longrightarrow> parses k e (print_tokens e) (need e)"
    and "wf_target t \<Longrightarrow> target_parses t"
proof (induction e and t arbitrary: k and rule: print_tokens_target_tokens.induct)
  case (5 e)
  then have "parses 2 e (wrap_tokens 2 e (print_tokens e)) (wrap_need 2 e (need e))"
    by (intro parses_wrap) auto
  from parses_not [OF this]
  have "parses 2 (NotE e) (print_tokens (NotE e)) (need (NotE e))" by simp
  moreover have "k = 0 \<or> k = Suc 0 \<or> k = 2" using 5 by auto
  ultimately show ?case using parses_and_of_not parses_or_of_and by blast
next
  case (6 es)
  have "parses 2 e (wrap_tokens 2 e (print_tokens e)) (wrap_need 2 e (need e))" if "e \<in> set es" for e
    using 6 that by (intro parses_wrap) (auto simp: list_all_iff)
  then have "parses (Suc 0) (AndE es) (print_tokens (AndE es)) (need (AndE es))"
    using 6(2) unfolding print_tokens.simps need.simps by (intro parses_AndE) auto
  moreover have "k = 0 \<or> k = Suc 0" using 6 by auto
  ultimately show ?case using parses_or_of_and by blast
next
  case (7 es)
  have "parses (Suc 0) e (wrap_tokens 1 e (print_tokens e)) (wrap_need 1 e (need e))" if "e \<in> set es" for e
    using 7 that parses_wrap [of e "print_tokens e" "need e" 1] by (auto simp: list_all_iff)
  then have "parses 0 (OrE es) (print_tokens (OrE es)) (need (OrE es))"
    using 7(2) unfolding print_tokens.simps need.simps by (intro parses_OrE) auto
  then show ?case using 7(3) by simp
next
  case (8 q t)
  then show ?case
    using parses_atom_levels [OF quantified_parses, of t q] by simp
next
  case (12 e)
  define es where "es = (case e of OrE es \<Rightarrow> es | _ \<Rightarrow> [e])"
  have e: "e = single_or OrE es \<and> es \<noteq> []"
    using 12(9) by (cases e) (auto simp: es_def single_or_def split: list.splits)
  have p: "parses 0 i (print_tokens i) (need i) \<and> wf_expr i" if "i \<in> set es" for i
    using 12 that by (cases e) (auto simp: es_def list_all_iff)
  have nv: "no_var_star (print_tokens (hd es))" "print_tokens (hd es) \<noteq> []"
    using p [of "hd es"] e print_no_var_star by auto
  have "target_tokens (Inner e) = LParen # join_tokens Comma (map print_tokens es) @ [RParen]"
    "target_need (Inner e) = foldr max (map need es) 0"
    by (cases e; simp add: es_def)+
  then show ?case
    using inner_target_parses [where es = es and T = print_tokens and D = need and e = e] e nv p
    by (auto simp: target_parses_def)
qed (use simple_target_parses simple_atom_parses [THEN parses_atom_levels] in \<open>simp_all del: print_tokens.simps\<close>)

section \<open>What the parser accepts\<close>

definition accepted :: "nat \<Rightarrow> token_iter \<Rightarrow> condition_expr \<Rightarrow> token_iter \<Rightarrow> bool" where
  "accepted k it e it' \<longleftrightarrow>
     it_depth it' = it_depth it \<and> wf_expr e
     \<and> (it_depth it \<le> MAX_CONDITION_DEPTH \<longrightarrow> it_depth it + wrap_need k e (need e) \<le> MAX_CONDITION_DEPTH)"

definition accepted_list ::
  "nat \<Rightarrow> condition_expr list \<Rightarrow> token_iter \<Rightarrow> condition_expr list \<Rightarrow> token_iter \<Rightarrow> bool" where
  "accepted_list k items it es it' \<longleftrightarrow>
     it_depth it' = it_depth it
     \<and> (\<exists>news. es = items @ news \<and> list_all wf_expr news
          \<and> (it_depth it \<le> MAX_CONDITION_DEPTH \<longrightarrow>
               (\<forall>e\<in>set news. it_depth it + wrap_need k e (need e) \<le> MAX_CONDITION_DEPTH)))"

definition accepted_target :: "token_iter \<Rightarrow> quantifier_target \<Rightarrow> token_iter \<Rightarrow> bool" where
  "accepted_target it t it' \<longleftrightarrow>
     it_depth it' = it_depth it \<and> wf_target t
     \<and> (it_depth it \<le> MAX_CONDITION_DEPTH \<longrightarrow> it_depth it + target_need t \<le> MAX_CONDITION_DEPTH)"

lemma eat_depth: "eat t it = (b, it') \<Longrightarrow> it_depth it' = it_depth it"
  by (auto simp: eat_def split: if_splits)

lemma bump_depth: "bump it = (o', it') \<Longrightarrow> it_depth it' = it_depth it"
  by (auto simp: bump_def split: if_splits)

lemma section_target_depth:
  "section_target it = Some (t, it') \<Longrightarrow> it_depth it' = it_depth it \<and> target_need t = 0 \<and> wf_target t"
  by (auto simp: section_target_def split: prod.splits option.splits cond_token.splits bool.splits
        dest!: bump_depth eat_depth)

lemma cross_section_target_depth:
  "cross_section_target it = Some (t, it') \<Longrightarrow> it_depth it' = it_depth it \<and> target_need t = 0 \<and> wf_target t"
  by (auto simp: cross_section_target_def split: prod.splits option.splits cond_token.splits bool.splits
        dest!: bump_depth eat_depth)

lemma parse_section_atom_depth:
  "parse_section_atom it n = Inr (e, it') \<Longrightarrow> it_depth it' = it_depth it \<and> need e = 0 \<and> prec e = 3 \<and> wf_expr e"
  by (auto simp: parse_section_atom_def split: prod.splits option.splits cond_token.splits bool.splits
        dest!: bump_depth eat_depth)

lemma enter_depth:
  "enter it = Inr it' \<Longrightarrow> it_depth it' = Suc (it_depth it) \<and> Suc (it_depth it) \<le> MAX_CONDITION_DEPTH"
  by (auto simp: enter_def Let_def split: if_splits)

lemma wrap_need_mono: "k \<le> l \<Longrightarrow> wrap_need k e d \<le> wrap_need l e d"
  by (simp add: wrap_need_def)

lemma foldr_max_le: "d + foldr max (map f xs) 0 \<le> (m :: nat) \<longleftrightarrow> d \<le> m \<and> (\<forall>x\<in>set xs. d + f x \<le> m)"
  by (induction xs) auto

lemma plus_max_le: "d + max a b \<le> (m :: nat) \<longleftrightarrow> d + a \<le> m \<and> d + b \<le> m"
  by auto

lemma accepted_mono: "accepted l it e it' \<Longrightarrow> k \<le> l \<Longrightarrow> accepted k it e it'"
  unfolding accepted_def using wrap_need_mono [of k l e "need e"] by linarith

text \<open>One step of an operand loop, and the operator built from its result.\<close>

lemma accepted_list_step:
  "accepted k it1 e it2 \<Longrightarrow> accepted_list k (items @ [e]) it2 es it3 \<Longrightarrow> it_depth it1 = it_depth it
     \<Longrightarrow> accepted_list k items it es it3"
  by (auto simp: accepted_def accepted_list_def)

lemma accepted_single_or:
  assumes a: "accepted l it e it1" "accepted_list l [e] it1 es it2"
    and f: "f = AndE \<and> k = 1 \<and> l = 2 \<or> f = OrE \<and> k = 0 \<and> l = 1"
  shows "accepted k it (single_or f es) it2"
proof -
  obtain news where es: "es = e # news" using a(2) by (auto simp: accepted_list_def)
  show ?thesis
  proof (cases news)
    case Nil
    then show ?thesis using a f accepted_mono [OF a(1), of k] es by (auto simp: accepted_def accepted_list_def)
  next
    case (Cons e2 news')
    have "it_depth it + need (f es) \<le> MAX_CONDITION_DEPTH" if "it_depth it \<le> MAX_CONDITION_DEPTH"
      using a f es that by (auto simp: foldr_max_le plus_max_le accepted_def accepted_list_def)
    then show ?thesis
      using a f es Cons by (auto simp: accepted_def accepted_list_def wrap_need_def)
  qed
qed

lemma foldr_max_mono: "(\<And>x. x \<in> set xs \<Longrightarrow> f x \<le> g x) \<Longrightarrow> foldr max (map f xs) 0 \<le> (foldr max (map g xs) 0 :: nat)"
  using foldr_max_le [of 0 f xs] foldr_max_le [of 0 g xs "foldr max (map g xs) 0"] by fastforce

lemma target_need_le: "target_need (Inner e) \<le> need e"
  by (cases e) (auto simp: wrap_need_def intro: foldr_max_mono)

lemma accepted_inner:
  assumes a: "accepted 0 it1 e it2" "accepted_list 0 [e] it2 es it3" "it_depth it1 = it_depth it"
  shows "it_depth it3 = it_depth it \<and> wf_target (Inner (single_or OrE es))
    \<and> (it_depth it \<le> MAX_CONDITION_DEPTH
        \<longrightarrow> it_depth it + target_need (Inner (single_or OrE es)) \<le> MAX_CONDITION_DEPTH)"
proof -
  obtain news where es: "es = e # news" using a(2) by (auto simp: accepted_list_def)
  show ?thesis
  proof (cases news)
    case Nil
    then show ?thesis using a es target_need_le [of e]
      by (auto simp: accepted_def accepted_list_def wrap_need_def)
  next
    case (Cons e2 news')
    then show ?thesis using a es
      by (auto simp: foldr_max_le plus_max_le accepted_def accepted_list_def wrap_need_def)
  qed
qed

lemmas parse_induct =
  parse_or_parse_or_loop_parse_and_parse_and_loop_parse_not_parse_atom_parse_quantifier_tail_parse_quantifier_target_parse_comma_loop.induct

lemma parser_accepts:
  shows "\<And>e it'. parse_or it = Inr (e, it') \<Longrightarrow> accepted 0 it e it'"
    and "\<And>es it'. parse_or_loop items it = Inr (es, it') \<Longrightarrow> accepted_list 1 items it es it'"
    and "\<And>e it'. parse_and it = Inr (e, it') \<Longrightarrow> accepted 1 it e it'"
    and "\<And>es it'. parse_and_loop items it = Inr (es, it') \<Longrightarrow> accepted_list 2 items it es it'"
    and "\<And>e it'. parse_not it = Inr (e, it') \<Longrightarrow> accepted 2 it e it'"
    and "\<And>e it'. parse_atom it = Inr (e, it') \<Longrightarrow> accepted 3 it e it'"
    and "\<And>e it'. parse_quantifier_tail q it = Inr (e, it') \<Longrightarrow> accepted 3 it e it'"
    and "\<And>t it'. parse_quantifier_target it = Inr (t, it') \<Longrightarrow> accepted_target it t it'"
    and "\<And>es it'. parse_comma_loop items it = Inr (es, it') \<Longrightarrow> accepted_list 0 items it es it'"
proof (induction it and items it and it and items it and it and it and q it and it and items it
    rule: parse_induct)
  case (1 it)
  then obtain x it1 es it2 where p: "parse_and it = Inr (x, it1)" "parse_or_loop [x] it1 = Inr (es, it2)"
      "e = single_or OrE es" "it' = it2"
    by (auto simp: parse_or.simps [of it] and_then_Inr)
  show ?case
    unfolding p(3,4) by (rule accepted_single_or [OF 1(1) [OF p(1)] 1(2) [OF p(1) refl p(2)]]) simp
next
  case (2 items it)
  obtain b it1 where e: "eat KwOr it = (b, it1)" by (cases "eat KwOr it")
  show ?case
  proof (cases b)
    case True
    with e have e': "eat KwOr it = (True, it1)" by simp
    with 2(3) obtain x it2 where p: "parse_and it1 = Inr (x, it2)" "parse_or_loop (items @ [x]) it2 = Inr (es, it')"
      by (auto simp: parse_or_loop.simps [of items it] and_then_Inr)
    show ?thesis
      by (rule accepted_list_step [OF 2(1) [OF e' [symmetric] refl p(1)]
            2(2) [OF e' [symmetric] refl p(1) refl p(2)] eat_depth [OF e']])
  next
    case False
    with e 2(3) show ?thesis by (auto simp: parse_or_loop.simps [of items it] accepted_list_def dest: eat_depth)
  qed
next
  case (3 it)
  then obtain x it1 es it2 where p: "parse_not it = Inr (x, it1)" "parse_and_loop [x] it1 = Inr (es, it2)"
      "e = single_or AndE es" "it' = it2"
    by (auto simp: parse_and.simps [of it] and_then_Inr)
  show ?case
    unfolding p(3,4) by (rule accepted_single_or [OF 3(1) [OF p(1)] 3(2) [OF p(1) refl p(2)]]) simp
next
  case (4 items it)
  obtain b it1 where e: "eat KwAnd it = (b, it1)" by (cases "eat KwAnd it")
  show ?case
  proof (cases b)
    case True
    with e have e': "eat KwAnd it = (True, it1)" by simp
    with 4(3) obtain x it2 where p: "parse_not it1 = Inr (x, it2)" "parse_and_loop (items @ [x]) it2 = Inr (es, it')"
      by (auto simp: parse_and_loop.simps [of items it] and_then_Inr)
    show ?thesis
      by (rule accepted_list_step [OF 4(1) [OF e' [symmetric] refl p(1)]
            4(2) [OF e' [symmetric] refl p(1) refl p(2)] eat_depth [OF e']])
  next
    case False
    with e 4(3) show ?thesis by (auto simp: parse_and_loop.simps [of items it] accepted_list_def dest: eat_depth)
  qed
next
  case (5 it)
  obtain b it1 where e: "eat KwNot it = (b, it1)" by (cases "eat KwNot it")
  show ?case
  proof (cases b)
    case True
    with e have e': "eat KwNot it = (True, it1)" by simp
    with 5(3) obtain it2 x it3 where p: "enter it1 = Inr it2" "parse_not it2 = Inr (x, it3)"
        "e = NotE x" "it' = leave it3"
      by (auto simp: parse_not.simps [of it] and_then_Inr)
    from 5(1) [OF e' [symmetric] refl p(1,2)] enter_depth [OF p(1)] eat_depth [OF e'] p(3,4)
    show ?thesis by (auto simp: accepted_def leave_def wrap_need_def)
  next
    case False
    with e have e': "eat KwNot it = (False, it)" using eat_remaining [OF e] by simp
    from 5(2) [OF e' [symmetric] refl] 5(3) e' show ?thesis
      by (intro accepted_mono [where l = 3 and k = 2]) (simp_all add: parse_not.simps [of it])
  qed
next
  case (6 it)
  obtain o1 it1 where b: "bump it = (o1, it1)" by (cases "bump it")
  with 6(5) obtain t where t: "o1 = Some t" by (cases o1) (auto simp: parse_atom.simps [of it])
  note d = bump_depth [OF b] and at = parse_atom.simps [of it]
  show ?case
  proof (cases t)
    case LParen
    with 6(5) b t obtain it2 x it3 b4 it4 where
      p: "enter it1 = Inr it2" "parse_or it2 = Inr (x, it3)" "eat RParen (leave it3) = (b4, it4)" "it' = it4" "e = x"
      by (auto simp: at and_then_Inr split: prod.splits bool.splits) (metis surj_pair)
    from 6(1) [OF b [symmetric] t LParen p(1,2)] enter_depth [OF p(1)] eat_depth [OF p(3)] d p(4,5)
    show ?thesis by (auto simp: accepted_def leave_def wrap_need_def)
  next
    case KwAny
    then show ?thesis using 6(5) b t d 6(3) [OF b [symmetric] t KwAny] by (auto simp: at accepted_def)
  next
    case KwAll
    then show ?thesis using 6(5) b t d 6(4) [OF b [symmetric] t KwAll] by (auto simp: at accepted_def)
  next
    case (Number n)
    then show ?thesis using 6(5) b t d 6(2) [OF b [symmetric] t Number] by (auto simp: at accepted_def)
  next
    case (Ident n)
    then show ?thesis using 6(5) b t d
      by (auto simp: at accepted_def wrap_need_def dest!: parse_section_atom_depth)
  qed (use 6(5) b t d in \<open>auto simp: at accepted_def wrap_need_def\<close>)
next
  case (7 q it)
  obtain b it1 where e: "eat KwOf it = (b, it1)" by (cases "eat KwOf it")
  with 7(2) have "b" by (cases b) (auto simp: parse_quantifier_tail.simps [of q it])
  with e have e': "eat KwOf it = (True, it1)" by simp
  then show ?case
    using 7(2) 7(1) [OF e' [symmetric] refl] eat_depth [OF e']
    by (auto simp: parse_quantifier_tail.simps [of q it] and_then_Inr accepted_def accepted_target_def wrap_need_def)
next
  case (8 it)
  note qt = parse_quantifier_target.simps [of it]
  show ?case
  proof (cases "section_target it")
    case (Some r)
    then show ?thesis
      using 8(4) by (cases r) (auto simp: qt accepted_target_def dest!: section_target_depth)
  next
    case None
    note st = this
    obtain b it1 where e: "eat LParen it = (b, it1)" by (cases "eat LParen it")
    show ?thesis
    proof (cases b)
      case False
      with e have e': "eat LParen it = (False, it)" using eat_remaining [OF e] by simp
      with 8(4) st obtain x where x: "parse_atom it = Inr (x, it')" "t = Inner x"
        by (auto simp: qt and_then_Inr)
      from 8(3) [OF st e' [symmetric] refl x(1)] target_need_le [of x] x(2)
      show ?thesis by (auto simp: accepted_def accepted_target_def wrap_need_def split: if_splits)
    next
      case True
      with e have e': "eat LParen it = (True, it1)" by simp
      show ?thesis
      proof (cases "cross_section_target it1")
        case (Some r')
        then show ?thesis
          using 8(4) st e' eat_depth [OF e']
          by (cases r') (auto simp: qt accepted_target_def dest!: cross_section_target_depth)
      next
        case None
        from 8(4) st e' None obtain x it2 es it3 b4 where
          p: "parse_or it1 = Inr (x, it2)" "parse_comma_loop [x] it2 = Inr (es, it3)"
            "eat RParen it3 = (b4, it')" "t = Inner (single_or OrE es)"
          by (auto simp: qt and_then_Inr split: prod.splits bool.splits) (metis surj_pair)
        from accepted_inner [OF 8(1) [OF st e' [symmetric] refl None p(1)]
            8(2) [OF st e' [symmetric] refl None p(1) refl p(2)] eat_depth [OF e']]
        show ?thesis using eat_depth [OF p(3)] p(4) by (simp add: accepted_target_def)
      qed
    qed
  qed
next
  case (9 items it)
  obtain b it1 where e: "eat Comma it = (b, it1)" by (cases "eat Comma it")
  show ?case
  proof (cases b)
    case True
    with e have e': "eat Comma it = (True, it1)" by simp
    with 9(3) obtain x it2 where p: "parse_or it1 = Inr (x, it2)" "parse_comma_loop (items @ [x]) it2 = Inr (es, it')"
      by (auto simp: parse_comma_loop.simps [of items it] and_then_Inr)
    show ?thesis
      by (rule accepted_list_step [OF 9(1) [OF e' [symmetric] refl p(1)]
            9(2) [OF e' [symmetric] refl p(1) refl p(2)] eat_depth [OF e']])
  next
    case False
    with e 9(3) show ?thesis by (auto simp: parse_comma_loop.simps [of items it] accepted_list_def dest: eat_depth)
  qed
qed

section \<open>Tokens and text\<close>

fun token_text :: "cond_token \<Rightarrow> string" where
  "token_text LParen = ''(''"
| "token_text RParen = '')''"
| "token_text Dot = ''.''"
| "token_text Star = ''*''"
| "token_text Comma = '',''"
| "token_text (Ident w) = w"
| "token_text (Var v) = CHR ''$'' # v"
| "token_text (Number n) = digits_of n"
| "token_text KwAnd = ''and''"
| "token_text KwOr = ''or''"
| "token_text KwNot = ''not''"
| "token_text KwOf = ''of''"
| "token_text KwAny = ''any''"
| "token_text KwAll = ''all''"
| "token_text KwTrue = ''true''"
| "token_text KwFalse = ''false''"

fun printable :: "cond_token \<Rightarrow> bool" where
  "printable (Ident w) =
     (w \<noteq> [] \<and> \<not> is_digit_byte (hd w) \<and> list_all is_word_byte w \<and> word_token w = Ident w)"
| "printable (Var v) = (v \<noteq> [] \<and> list_all is_word_byte v)"
| "printable (Number n) = (n \<le> u32_max)"
| "printable _ = True"

definition tokens_text :: "cond_token list \<Rightarrow> string" where
  "tokens_text ts = concat (map (\<lambda>t. token_text t @ '' '') ts)"

lemma byte_of_char_of: "byte_of (char_of n) = n mod 256"
  by (simp add: byte_of_def)

lemma digits_of_digits: "list_all is_digit_byte (digits_of n) \<and> digits_of n \<noteq> []"
proof (induction n rule: digits_of.induct)
  case (1 n)
  have "is_digit_byte (char_of (48 + m))" if "m < 10" for m :: nat
    using that by (simp add: is_digit_byte_def byte_of_char_of)
  with 1 show ?case by (cases "n < 10") (simp_all add: digits_of.simps [of n])
qed

lemma digits_value_snoc: "digits_value (ds @ [c]) = 10 * digits_value ds + (byte_of c - 48)"
  by (simp add: digits_value_def)

lemma digits_value_digits_of [simp]: "digits_value (digits_of n) = n"
proof (induction n rule: digits_of.induct)
  case (1 n)
  show ?case
  proof (cases "n < 10")
    case True
    then show ?thesis by (subst digits_of.simps) (simp add: digits_value_def byte_of_char_of)
  next
    case False
    with 1 show ?thesis
      by (subst digits_of.simps) (simp add: digits_value_snoc byte_of_char_of)
  qed
qed

lemma takeWhile_space:
  "list_all P w \<Longrightarrow> \<not> P x \<Longrightarrow> takeWhile P (w @ x # s) = w \<and> dropWhile P (w @ x # s) = x # s"
  by (induction w) auto

lemma space_bytes [simp]: "\<not> is_word_byte CHR '' ''" "\<not> is_digit_byte CHR '' ''" "ascii_whitespace_byte CHR '' ''"
  by (simp_all add: is_word_byte_def is_digit_byte_def is_alpha_byte_def ascii_whitespace_byte_def byte_of_def)

declare tokenize_condition.simps(2) [simp del]

lemma tokenize_space [simp]: "tokenize_condition (CHR '' '' # s) = tokenize_condition s"
  by (simp add: tokenize_condition.simps(2))

lemma digit_word: "list_all is_digit_byte w \<Longrightarrow> list_all is_word_byte w"
  by (auto simp: list_all_iff is_word_byte_def)

lemma word_byte_start:
  "is_word_byte c \<Longrightarrow> \<not> is_digit_byte c \<Longrightarrow>
     \<not> ascii_whitespace_byte c \<and> c \<notin> {CHR ''('', CHR '')'', CHR ''.'', CHR ''*'', CHR '','', CHR ''$''}
     \<and> (is_alpha_byte c \<or> c = CHR ''_'')"
  by (auto simp: is_word_byte_def is_alpha_byte_def is_digit_byte_def ascii_whitespace_byte_def byte_of_def)

lemma digit_byte_start:
  "is_digit_byte c \<Longrightarrow>
     \<not> ascii_whitespace_byte c \<and> c \<notin> {CHR ''('', CHR '')'', CHR ''.'', CHR ''*'', CHR '','', CHR ''$''}"
  by (auto simp: is_digit_byte_def ascii_whitespace_byte_def byte_of_def)

text \<open>The four shapes of a token.\<close>

lemma tokenize_word:
  assumes "w \<noteq> []" "list_all is_word_byte w" "\<not> is_digit_byte (hd w)"
  shows "tokenize_condition (w @ CHR '' '' # s) = push_token (word_token w) (tokenize_condition s)"
proof -
  obtain c cs where w: "w = c # cs" using assms(1) by (cases w) auto
  have c: "is_word_byte c" "\<not> is_digit_byte c" and cs: "list_all is_word_byte cs"
    using assms w by auto
  show ?thesis
    unfolding w using word_byte_start [OF c] c takeWhile_space [OF cs space_bytes(1), of s]
    by (auto simp: tokenize_condition.simps(2))
qed

lemma tokenize_var:
  "v \<noteq> [] \<Longrightarrow> list_all is_word_byte v \<Longrightarrow>
     tokenize_condition (CHR ''$'' # v @ CHR '' '' # s) = push_token (Var v) (tokenize_condition s)"
  using takeWhile_space [of is_word_byte v "CHR '' ''" s]
  by (simp add: tokenize_condition.simps(2) [of "CHR ''$''"] ascii_whitespace_byte_def byte_of_def)

lemma tokenize_number:
  assumes "n \<le> u32_max"
  shows "tokenize_condition (digits_of n @ CHR '' '' # s) = push_token (Number n) (tokenize_condition s)"
proof -
  obtain c cs where w: "digits_of n = c # cs" using digits_of_digits [of n] by (cases "digits_of n") auto
  have c: "is_digit_byte c" and cs: "list_all is_digit_byte cs"
    using digits_of_digits [of n] w by auto
  have "digits_value (c # cs) = n" using w digits_value_digits_of [of n] by simp
  then show ?thesis
    unfolding w using digit_byte_start [OF c] c takeWhile_space [OF cs space_bytes(2), of s] assms
    by (auto simp: tokenize_condition.simps(2))
qed

lemma tokenize_punctuation:
  "tokenize_condition (CHR ''('' # s) = push_token LParen (tokenize_condition s)"
  "tokenize_condition (CHR '')'' # s) = push_token RParen (tokenize_condition s)"
  "tokenize_condition (CHR ''.'' # s) = push_token Dot (tokenize_condition s)"
  "tokenize_condition (CHR ''*'' # s) = push_token Star (tokenize_condition s)"
  "tokenize_condition (CHR '','' # s) = push_token Comma (tokenize_condition s)"
  by (simp_all add: tokenize_condition.simps(2) ascii_whitespace_byte_def byte_of_def)

lemma word_token_keywords:
  "word_token ''and'' = KwAnd" "word_token ''or'' = KwOr" "word_token ''not'' = KwNot"
  "word_token ''of'' = KwOf" "word_token ''any'' = KwAny" "word_token ''all'' = KwAll"
  "word_token ''true'' = KwTrue" "word_token ''false'' = KwFalse"
  by (simp_all add: word_token_def to_ascii_lowercase_def ascii_lower_def byte_of_def)

lemma keyword_bytes:
  "w \<in> {''and'', ''or'', ''not'', ''of'', ''any'', ''all'', ''true'', ''false''} \<Longrightarrow>
     list_all is_word_byte w \<and> \<not> is_digit_byte (hd w) \<and> w \<noteq> []"
  by (auto simp: is_word_byte_def is_alpha_byte_def is_digit_byte_def byte_of_def)

lemma tokenize_token:
  assumes "printable t"
  shows "tokenize_condition (token_text t @ CHR '' '' # s) = push_token t (tokenize_condition s)"
proof (cases "token_text t \<in> {''and'', ''or'', ''not'', ''of'', ''any'', ''all'', ''true'', ''false''} \<and> (\<forall>w. t \<noteq> Ident w)
   \<and> (\<forall>n. t \<noteq> Number n)")
  case True
  then show ?thesis
    using tokenize_word [of "token_text t" s] keyword_bytes [of "token_text t"] word_token_keywords
    by (cases t) simp_all
next
  case False
  then show ?thesis
    using assms by (cases t) (simp_all add: tokenize_punctuation tokenize_word tokenize_var tokenize_number)
qed

lemma tokenize_tokens_text: "list_all printable ts \<Longrightarrow> tokenize_condition (tokens_text ts) = Inr ts"
  by (induction ts) (simp_all add: tokens_text_def tokenize_token push_token_def)

section \<open>Round trips and the depth limit\<close>

lemma rest_new [simp]: "rest (token_iter_new ts) = ts" "it_depth (token_iter_new ts) = 0"
  by (simp_all add: rest_def token_iter_new_def)

lemma parse_print_tokens:
  assumes "wf_expr e"
  shows "parse_tokens (print_tokens e)
           = (if need e \<le> MAX_CONDITION_DEPTH then Inr e else Inl (ConditionTooDeep MAX_CONDITION_DEPTH))"
proof -
  let ?it = "token_iter_new (print_tokens e)"
  have "parses 0 e (print_tokens e) (need e)" using print_parses(1) [OF assms] by simp
  from parsesD [OF this, of ?it "[]"]
  have "parse_or ?it = parsed e (need e) ?it (length (print_tokens e))"
    by (simp add: follow_def)
  then show ?thesis by (simp add: parse_tokens_def parsed_def peek_rest)
qed

text \<open>
  Claim C26: Printing and parsing a condition round-trips through its text. For every expression of the
  grammar whose names and numbers are spellable, the tokenizer followed by the recursive descent
  rebuilds exactly the expression from the printed text (precedence, parentheses, quantifier
  groups and bare references included) when its nesting is at most \<open>MAX_CONDITION_DEPTH\<close>, and
  answers \<open>ConditionTooDeep\<close> otherwise.
\<close>

theorem condition_round_trip:
  assumes "wf_expr e" "list_all printable (print_tokens e)"
  shows "and_then (tokenize_condition (tokens_text (print_tokens e))) parse_tokens
           = (if need e \<le> MAX_CONDITION_DEPTH then Inr e else Inl (ConditionTooDeep MAX_CONDITION_DEPTH))"
  using tokenize_tokens_text [OF assms(2)] parse_print_tokens [OF assms(1)] by simp

definition example_condition :: condition_expr where
  "example_condition =
     AndE [OrE [Reference Semantics ''intent'', Quantified (AtLeast 2) (SectionPrefixWildcard Keywords ''ip'')],
           NotE (AndE [Wildcard Llm, Quantified QAll (Inner (OrE [Reference Keywords ''__bare__:x'', Literal False]))])]"

theorem condition_round_trip_witness:
  "and_then (tokenize_condition (tokens_text (print_tokens example_condition))) parse_tokens
     = Inr example_condition"
proof -
  have "wf_expr example_condition" "need example_condition \<le> MAX_CONDITION_DEPTH"
    by (simp_all add: example_condition_def wrap_need_def MAX_CONDITION_DEPTH_def)
  moreover have "list_all printable (print_tokens example_condition)"
    by (simp add: example_condition_def wrap_tokens_def section_tokens_def reference_tokens_def
        bare_prefix_def word_token_def to_ascii_lowercase_def ascii_lower_def byte_of_def
        is_word_byte_def is_digit_byte_def is_alpha_byte_def u32_max_def)
  ultimately show ?thesis using condition_round_trip [of example_condition] by simp
qed

text \<open>
  Claim C27: Every condition the parser accepts, whatever the token sequence, is well formed (no
  conjunction or disjunction with fewer than two operands), needs at most \<open>MAX_CONDITION_DEPTH\<close>
  levels of \<open>not\<close> and parentheses, and is a fixed point of printing and parsing again.
\<close>

theorem accepted_conditions:
  "case parse_tokens ts of
     Inr e \<Rightarrow> wf_expr e \<and> need e \<le> MAX_CONDITION_DEPTH \<and> parse_tokens (print_tokens e) = Inr e
   | Inl _ \<Rightarrow> True"
proof (cases "parse_or (token_iter_new ts)")
  case (Inl err)
  then show ?thesis by (simp add: parse_tokens_def)
next
  case (Inr r)
  obtain e it where r: "r = (e, it)" by (cases r)
  have "accepted 0 (token_iter_new ts) e it" using parser_accepts(1) Inr r by blast
  then have "wf_expr e" "need e \<le> MAX_CONDITION_DEPTH" by (auto simp: accepted_def wrap_need_def)
  then show ?thesis using Inr r parse_print_tokens [of e] by (auto simp: parse_tokens_def split: option.splits)
qed

text \<open>The nesting of the recursion that builds and walks an expression.\<close>

fun expr_height :: "condition_expr \<Rightarrow> nat"
and target_height :: "quantifier_target \<Rightarrow> nat"
where
  "expr_height (NotE e) = Suc (expr_height e)"
| "expr_height (AndE es) = Suc (foldr max (map expr_height es) 0)"
| "expr_height (OrE es) = Suc (foldr max (map expr_height es) 0)"
| "expr_height (Quantified q t) = Suc (target_height t)"
| "expr_height (Literal b) = 0"
| "expr_height (Reference s v) = 0"
| "expr_height (Wildcard s) = 0"
| "expr_height (PrefixWildcard s p) = 0"
| "target_height (Inner e) = expr_height e"
| "target_height (SectionWildcard s) = 0"
| "target_height (SectionPrefixWildcard s p) = 0"
| "target_height (CrossSectionPrefixWildcard p) = 0"

fun nested_any :: "nat \<Rightarrow> condition_expr" where
  "nested_any 0 = Literal True"
| "nested_any (Suc n) = Quantified QAny (Inner (nested_any n))"

fun nested_not :: "nat \<Rightarrow> condition_expr" where
  "nested_not 0 = Literal True"
| "nested_not (Suc n) = NotE (nested_not n)"

lemma nested_any_facts:
  "wf_expr (nested_any n)" "need (nested_any n) = 0" "expr_height (nested_any n) = n"
  "print_tokens (nested_any n) = concat (replicate n [KwAny, KwOf, LParen]) @ KwTrue # replicate n RParen"
proof -
  show "wf_expr (nested_any n)" "expr_height (nested_any n) = n" by (induction n) auto
  have not_or: "nested_any n \<noteq> OrE es" for n es by (cases n) auto
  show "need (nested_any n) = 0" by (induction n) (auto split: condition_expr.splits simp: not_or)
  show "print_tokens (nested_any n) = concat (replicate n [KwAny, KwOf, LParen]) @ KwTrue # replicate n RParen"
  proof (induction n)
    case (Suc n)
    have "target_tokens (Inner (nested_any n)) = LParen # print_tokens (nested_any n) @ [RParen]"
      using not_or [of n] by (cases "nested_any n") auto
    with Suc show ?case by (simp add: replicate_append_same)
  qed simp
qed

lemma nested_not_facts:
  "wf_expr (nested_not n)" "need (nested_not n) = n"
  "print_tokens (nested_not n) = replicate n KwNot @ [KwTrue]"
proof -
  have p: "\<not> prec (nested_not n) < 2" for n by (cases n) auto
  show "wf_expr (nested_not n)" "need (nested_not n) = n" "print_tokens (nested_not n) = replicate n KwNot @ [KwTrue]"
    by (induction n) (auto simp: wrap_need_def wrap_tokens_def p)
qed

text \<open>
  Claim C28: \<open>MAX_CONDITION_DEPTH\<close> does not bound the recursion. A chain of \<open>not\<close> is cut at 256
  as the constant says, but \<open>any of (any of ( \<dots> ))\<close> is accepted at every nesting: a quantifier
  target recurses without \<open>enter\<close>, so an untrusted rule can build an expression, and a recursion, of
  any height.
\<close>

theorem depth_limit_gap:
  "parse_tokens (replicate n KwNot @ [KwTrue])
     = (if n \<le> 256 then Inr (nested_not n) else Inl (ConditionTooDeep 256))
   \<and> parse_tokens (concat (replicate n [KwAny, KwOf, LParen]) @ KwTrue # replicate n RParen)
     = Inr (nested_any n)
   \<and> expr_height (nested_any n) = n"
  using parse_print_tokens [OF nested_not_facts(1), of n] parse_print_tokens [OF nested_any_facts(1), of n]
  by (simp add: nested_any_facts nested_not_facts MAX_CONDITION_DEPTH_def)

end
