(* ===== verification/Nova_Rules.thy ===== *)
theory Nova_Rules
  imports Nova_Grammar
begin

text \<open>
  The rule file parser around the condition grammar (\<open>nova/parser.rs\<close>, \<open>nova/model.rs\<close>): comments,
  literals and braces, sections, pattern assignments, thresholds, reference validation and the
  loop over the rules of a file.

  Text is handled by byte index as in the source. The Unicode tables behind
  \<open>char::is_alphanumeric\<close> and \<open>str::to_lowercase\<close> and the bounded regex compiler are the fields of
  a \<open>rule_env\<close>; nothing is assumed about them. \<open>InvalidRegex\<close> carries the pattern without the
  compiler's own error. The brace depth is a natural number (\<open>i32\<close> in the source).
\<close>

record rule_env =
  env_alphanumeric :: "string \<Rightarrow> bool"
  env_lowercase :: "string \<Rightarrow> string"
  env_regex_ok :: "string \<Rightarrow> bool"

section \<open>Rules\<close>

record keyword_pattern =
  kp_pattern :: string
  kp_is_regex :: bool
  kp_case_sensitive :: bool

record threshold_pattern =
  tp_pattern :: string
  tp_threshold :: f32

record nova_rule =
  nr_name :: string
  nr_meta :: "(string \<times> string) list"
  nr_keywords :: "(string \<times> keyword_pattern) list"
  nr_semantics :: "(string \<times> threshold_pattern) list"
  nr_llm :: "(string \<times> threshold_pattern) list"
  nr_condition :: condition_expr

definition rule_keys :: "nova_rule \<Rightarrow> nova_section \<Rightarrow> string list" where
  "rule_keys r s =
     (case s of
        Keywords \<Rightarrow> map fst (nr_keywords r)
      | Semantics \<Rightarrow> map fst (nr_semantics r)
      | Llm \<Rightarrow> map fst (nr_llm r))"

section \<open>Text helpers of the standard library\<close>

definition split_once :: "string \<Rightarrow> string \<Rightarrow> (string \<times> string) option" where
  "split_once s n = map_option (\<lambda>i. (take i s, drop (i + length n) s)) (str_find s n)"

definition prev_meaningful :: "string \<Rightarrow> nat \<Rightarrow> string option" where
  "prev_meaningful s i = find (\<lambda>ch. \<not> is_whitespace ch) (rev (str_chars (take i s)))"

section \<open>Scanning past literals\<close>

datatype literal_mode = NoLiteral | DqString | SqString | RegexLit

text \<open>
  The three branches for a byte inside a literal, shared by \<open>find_matching_brace\<close> and
  \<open>find_unquoted\<close>: an escape takes two bytes, the closing delimiter ends the literal. The source
  keeps three flags of which at most one is set.
\<close>

definition closing_byte :: "literal_mode \<Rightarrow> char" where
  "closing_byte m = (case m of SqString \<Rightarrow> CHR 0x27 | RegexLit \<Rightarrow> CHR ''/'' | _ \<Rightarrow> CHR 0x22)"

definition literal_step :: "string \<Rightarrow> nat \<Rightarrow> literal_mode \<Rightarrow> nat \<times> literal_mode" where
  "literal_step s i m =
     (if s ! i = CHR 0x5C \<and> i + 1 < length s then (i + 2, m)
      else (i + 1, if s ! i = closing_byte m then NoLiteral else m))"

function find_unquoted_from :: "string \<Rightarrow> string \<Rightarrow> nat \<Rightarrow> literal_mode \<Rightarrow> nat option" where
  "find_unquoted_from s n i m =
     (if length s < i + length n \<or> length s \<le> i then None
      else if m \<noteq> NoLiteral then
        (case literal_step s i m of (j, m') \<Rightarrow> find_unquoted_from s n j m')
      else if s ! i = CHR 0x22 then find_unquoted_from s n (i + 1) DqString
      else if s ! i = CHR ''/'' \<and> i + 1 < length s \<and> s ! (i + 1) \<noteq> CHR ''/''
           \<and> prev_meaningful s i \<in> {Some ''='', Some ''('', Some '',''}
        then find_unquoted_from s n (i + 1) RegexLit
      else if s ! i = CHR 0x27 \<and> prev_meaningful s i \<in> {Some ''='', Some ''('', Some '',''}
        then find_unquoted_from s n (i + 1) SqString
      else if take (length n) (drop i s) = n then Some i
      else find_unquoted_from s n (i + 1) m)"
  by pat_completeness auto
termination
  by (relation "measure (\<lambda>(s, n, i, m). length s - i)") (auto simp: literal_step_def split: if_splits)

declare find_unquoted_from.simps [simp del]

text \<open>The only needle of the program is \<open>//\<close>, for which the loop bound implies \<open>i < length s\<close>.\<close>

definition find_unquoted :: "string \<Rightarrow> string \<Rightarrow> nat option" where
  "find_unquoted s n = find_unquoted_from s n 0 NoLiteral"

definition strip_line_comment :: "string \<Rightarrow> string" where
  "strip_line_comment line =
     (if starts_with (str_trim_start line) ''#'' then []
      else case find_unquoted line ''//'' of Some idx \<Rightarrow> take idx line | None \<Rightarrow> line)"

record brace_state =
  bs_depth :: nat
  bs_literal :: literal_mode
  bs_comment :: bool
  bs_content :: bool

text \<open>One iteration of the loop of \<open>find_matching_brace\<close>: \<open>Inl\<close> returns, \<open>Inr\<close> goes on.\<close>

definition brace_step :: "string \<Rightarrow> nat \<Rightarrow> brace_state \<Rightarrow> nat + (nat \<times> brace_state)" where
  "brace_step s i st =
     (let c = s ! i;
          content = (if c = CHR 0x0A then False else if \<not> ascii_whitespace_byte c then True else bs_content st)
      in if bs_comment st then
           Inr (i + 1, if c = CHR 0x0A then st\<lparr>bs_comment := False, bs_content := False\<rparr> else st)
         else if bs_literal st \<noteq> NoLiteral then
           (case literal_step s i (bs_literal st) of (j, m) \<Rightarrow> Inr (j, st\<lparr>bs_literal := m\<rparr>))
         else if c = CHR ''#'' \<and> \<not> bs_content st then Inr (i + 1, st\<lparr>bs_comment := True\<rparr>)
         else if c = CHR ''/'' \<and> i + 1 < length s \<and> s ! (i + 1) = CHR ''/'' then
           Inr (i + 2, st\<lparr>bs_comment := True\<rparr>)
         else if c = CHR ''/'' \<and> i + 1 < length s \<and> s ! (i + 1) \<noteq> CHR ''/''
              \<and> prev_meaningful s i \<in> {Some ''='', Some ''('', Some '','', None} then
           Inr (i + 1, st\<lparr>bs_content := True, bs_literal := RegexLit\<rparr>)
         else if c = CHR 0x22 then Inr (i + 1, st\<lparr>bs_content := True, bs_literal := DqString\<rparr>)
         else if c = CHR 0x27 \<and> prev_meaningful s i \<in> {Some ''='', Some ''('', Some '','', None} then
           Inr (i + 1, st\<lparr>bs_content := True, bs_literal := SqString\<rparr>)
         else if c = CHR ''{'' then Inr (i + 1, st\<lparr>bs_depth := bs_depth st + 1, bs_content := content\<rparr>)
         else if c = CHR ''}'' then
           (if bs_depth st - 1 = 0 then Inl i
            else Inr (i + 1, st\<lparr>bs_depth := bs_depth st - 1, bs_content := content\<rparr>))
         else Inr (i + 1, st\<lparr>bs_content := content\<rparr>))"

lemma brace_step_advances: "brace_step s i st = Inr (j, st') \<Longrightarrow> i < j"
  by (auto simp: brace_step_def literal_step_def Let_def split: if_splits)

function brace_loop :: "string \<Rightarrow> nat \<Rightarrow> brace_state \<Rightarrow> parse_error + nat" where
  "brace_loop s i st =
     (if i < length s then
        (case brace_step s i st of Inl r \<Rightarrow> Inr r | Inr (j, st') \<Rightarrow> brace_loop s j st')
      else Inl (UnexpectedEof ''rule body''))"
  by pat_completeness auto
termination
  by (relation "measure (\<lambda>(s, i, st). length s - i)") (auto dest!: brace_step_advances [OF sym] brace_step_advances)

declare brace_loop.simps [simp del]

definition find_matching_brace :: "string \<Rightarrow> nat \<Rightarrow> parse_error + nat" where
  "find_matching_brace s start =
     brace_loop s start \<lparr>bs_depth = 1, bs_literal = NoLiteral, bs_comment = False, bs_content = False\<rparr>"

text \<open>\<open>read_until_brace\<close> returns the header and the cursor past the brace.\<close>

definition read_until_brace :: "string \<Rightarrow> nat \<Rightarrow> parse_error + string \<times> nat" where
  "read_until_brace s cursor =
     (case str_find (drop cursor s) ''{'' of
        Some k \<Rightarrow> Inr (take k (drop cursor s), cursor + k + 1)
      | None \<Rightarrow> Inl (UnexpectedEof ''rule header''))"

function skip_ws_and_comments :: "string \<Rightarrow> nat \<Rightarrow> nat" where
  "skip_ws_and_comments s i =
     (if length s \<le> i then i
      else if ascii_whitespace_byte (s ! i) then skip_ws_and_comments s (i + 1)
      else if s ! i = CHR ''#'' \<or> s ! i = CHR ''/'' \<and> i + 1 < length s \<and> s ! (i + 1) = CHR ''/'' then
        skip_ws_and_comments s (i + max 1 (length (takeWhile (\<lambda>c. c \<noteq> CHR 0x0A) (drop i s))))
      else i)"
  by pat_completeness auto
termination
  by (relation "measure (\<lambda>(s, i). length s - i)") auto

declare skip_ws_and_comments.simps [simp del]

section \<open>Sections\<close>

text \<open>The character U+2026 in UTF-8.\<close>

definition ellipsis :: string where
  "ellipsis = [CHR 0xE2, CHR 0x80, CHR 0xA6]"

record section_state =
  ss_sections :: "(string \<times> string) list"
  ss_name :: "string option"
  ss_body :: string

definition section_line :: "rule_env \<Rightarrow> section_state \<Rightarrow> string \<Rightarrow> parse_error + section_state" where
  "section_line env st raw_line =
     (let line = str_trim_end (strip_line_comment raw_line); trimmed = str_trim line in
      if trimmed = [] then
        Inr (if ss_name st \<noteq> None then st\<lparr>ss_body := ss_body st @ [CHR 0x0A]\<rparr> else st)
      else case strip_suffix trimmed '':'' of
        Some stripped \<Rightarrow>
          Inr (let st' = (case ss_name st of
                            Some name \<Rightarrow> st\<lparr>ss_sections := ss_sections st @ [(name, ss_body st)], ss_body := []\<rparr>
                          | None \<Rightarrow> st)
               in st'\<lparr>ss_name := Some (env_lowercase env (str_trim stripped))\<rparr>)
      | None \<Rightarrow>
          (if ss_name st = None
           then Inl (MalformedLine ''rule body'' trimmed
                  (''expected a section header (`meta:`, `keywords:`, '' @ ellipsis @ '') first''))
           else Inr (st\<lparr>ss_body := ss_body st @ line @ [CHR 0x0A]\<rparr>)))"

fun section_lines_loop :: "rule_env \<Rightarrow> section_state \<Rightarrow> string list \<Rightarrow> parse_error + section_state" where
  "section_lines_loop env st [] = Inr st"
| "section_lines_loop env st (l # ls) =
     and_then (section_line env st l) (\<lambda>st'. section_lines_loop env st' ls)"

definition split_into_sections :: "rule_env \<Rightarrow> string \<Rightarrow> parse_error + (string \<times> string) list" where
  "split_into_sections env body =
     and_then (section_lines_loop env \<lparr>ss_sections = [], ss_name = None, ss_body = []\<rparr> (str_lines body))
       (\<lambda>st. Inr (case ss_name st of
                    Some name \<Rightarrow> ss_sections st @ [(name, ss_body st)]
                  | None \<Rightarrow> ss_sections st))"

definition section_lines :: "string \<Rightarrow> string list" where
  "section_lines body =
     filter (\<lambda>l. l \<noteq> []) (map (\<lambda>raw. str_trim (strip_line_comment raw)) (str_lines body))"

section \<open>Pattern assignments\<close>

definition split_var_assignment :: "string \<Rightarrow> string \<Rightarrow> parse_error + string \<times> string" where
  "split_var_assignment line sec =
     (case split_once line ''='' of
        None \<Rightarrow> Inl (MalformedLine sec line ''missing `=` between variable and pattern'')
      | Some (key0, value) \<Rightarrow>
          (let key = str_trim key0 in
           case strip_prefix key ''$'' of
             None \<Rightarrow> Inl (MalformedLine sec line ''variable name must start with `$`'')
           | Some stripped \<Rightarrow>
               (if stripped = [] \<or> \<not> list_all is_word_byte stripped then Inl (InvalidVariable sec key)
                else Inr (stripped, str_trim value))))"

fun var_assignments ::
  "string \<Rightarrow> (string \<Rightarrow> parse_error + 'a) \<Rightarrow> (string \<times> 'a) list \<Rightarrow> string list
     \<Rightarrow> parse_error + (string \<times> 'a) list"
where
  "var_assignments sec parse_value out [] = Inr out"
| "var_assignments sec parse_value out (line # lines) =
     and_then (split_var_assignment line sec) (\<lambda>(var, value).
       if map_of out var \<noteq> None then Inl (DuplicateVariable sec var)
       else and_then (parse_value value) (\<lambda>v.
            var_assignments sec parse_value (bt_insert var v out) lines))"

definition parse_var_assignments ::
  "string \<Rightarrow> string \<Rightarrow> (string \<Rightarrow> parse_error + 'a) \<Rightarrow> parse_error + (string \<times> 'a) list" where
  "parse_var_assignments body sec parse_value = var_assignments sec parse_value [] (section_lines body)"

definition strip_string_quotes :: "string \<Rightarrow> string" where
  "strip_string_quotes value =
     (if 2 \<le> length value
         \<and> (hd value = CHR 0x22 \<and> last value = CHR 0x22 \<or> hd value = CHR 0x27 \<and> last value = CHR 0x27)
      then take (length value - 2) (drop 1 value) else value)"

fun meta_lines :: "(string \<times> string) list \<Rightarrow> string list \<Rightarrow> parse_error + (string \<times> string) list" where
  "meta_lines out [] = Inr out"
| "meta_lines out (line # lines) =
     (case split_once line ''='' of
        None \<Rightarrow> Inl (MalformedLine ''meta'' line ''missing `=` between key and value'')
      | Some (key, value) \<Rightarrow>
          meta_lines (bt_insert (str_trim key) (strip_string_quotes (str_trim value)) out) lines)"

definition parse_meta :: "string \<Rightarrow> parse_error + (string \<times> string) list" where
  "parse_meta body = meta_lines [] (section_lines body)"

definition split_case_modifier :: "string \<Rightarrow> string \<times> bool" where
  "split_case_modifier p =
     (case split_once p ''case:true'' of Some (q, _) \<Rightarrow> (str_trim q, True) | None \<Rightarrow> (p, False))"

definition parse_keyword_value :: "rule_env \<Rightarrow> string \<Rightarrow> parse_error + keyword_pattern" where
  "parse_keyword_value env raw =
     (let value = str_trim raw;
          not_closed = MalformedLine ''keywords'' raw ''regex pattern is not closed with `/` or `/i`''
      in if starts_with value ''/'' then
           (let trailing_i = (\<not> ends_with value ''/'' \<and> ends_with value ''/i'') in
            if \<not> trailing_i \<and> \<not> ends_with value ''/'' then Inl not_closed
            else let closing = (if trailing_i then length value - 2 else length value - 1) in
              if closing < 1 then Inl not_closed
              else case split_case_modifier (take (closing - 1) (drop 1 value)) of
                (body, explicit_case) \<Rightarrow>
                  (if \<not> env_regex_ok env body then Inl (InvalidRegex body)
                   else Inr \<lparr>kp_pattern = body, kp_is_regex = True,
                             kp_case_sensitive = \<not> trailing_i \<or> explicit_case\<rparr>))
         else if 2 \<le> length value
              \<and> (hd value = CHR 0x22 \<and> last value = CHR 0x22 \<or> hd value = CHR 0x27 \<and> last value = CHR 0x27)
         then (case split_case_modifier (take (length value - 2) (drop 1 value)) of
                 (inner, case_sensitive) \<Rightarrow>
                   Inr \<lparr>kp_pattern = inner, kp_is_regex = False, kp_case_sensitive = case_sensitive\<rparr>)
         else Inl (MalformedLine ''keywords'' raw
                (''value must be quoted ('' @ [CHR 0x22] @ ellipsis @ [CHR 0x22] @ '' / '' @ [CHR 0x27] @ ellipsis
                 @ [CHR 0x27] @ '') or a regex (/'' @ ellipsis @ ''/ or /'' @ ellipsis @ ''/i)'')))"

definition parse_keywords :: "rule_env \<Rightarrow> string \<Rightarrow> parse_error + (string \<times> keyword_pattern) list" where
  "parse_keywords env body = parse_var_assignments body ''keywords'' (parse_keyword_value env)"

section \<open>Thresholds\<close>

text \<open>\<open>str::parse::<f32>\<close>: a decimal number or one of the special names, correctly rounded.\<close>

definition exponent_value :: "string \<Rightarrow> int option" where
  "exponent_value r =
     (case r of
        [] \<Rightarrow> Some 0
      | c # cs \<Rightarrow>
          if c = CHR ''e'' \<or> c = CHR ''E'' then
            (let neg = (cs \<noteq> [] \<and> hd cs = CHR ''-'');
                 ds = (if cs \<noteq> [] \<and> (hd cs = CHR ''-'' \<or> hd cs = CHR ''+'') then tl cs else cs)
             in if ds = [] \<or> \<not> list_all is_digit_byte ds then None
                else Some (if neg then - int (digits_value ds) else int (digits_value ds)))
          else None)"

definition f32_from_str :: "string \<Rightarrow> f32 option" where
  "f32_from_str s =
     (let neg = (s \<noteq> [] \<and> hd s = CHR ''-'');
          u = (if s \<noteq> [] \<and> (hd s = CHR ''-'' \<or> hd s = CHR ''+'') then tl s else s);
          l = to_ascii_lowercase u
      in if l = ''inf'' \<or> l = ''infinity'' then Some (f_inf_sign neg)
         else if l = ''nan'' then Some NaN
         else let ip = takeWhile is_digit_byte u;
                  r1 = dropWhile is_digit_byte u;
                  dot = (r1 \<noteq> [] \<and> hd r1 = CHR ''.'');
                  fp = (if dot then takeWhile is_digit_byte (tl r1) else []);
                  r2 = (if dot then dropWhile is_digit_byte (tl r1) else r1)
              in if ip = [] \<and> fp = [] then None
                 else map_option (\<lambda>e.
                        let v = rat_of_nat (digits_value (ip @ fp)) * 10 powi (e - int (length fp))
                        in f32_of_rat (if neg then - v else v))
                      (exponent_value r2))"

definition DEFAULT_THRESHOLD :: f32 where
  "DEFAULT_THRESHOLD = f32_of_rat (1 / 10)"

definition parse_pattern_with_threshold ::
  "string \<Rightarrow> string \<Rightarrow> f32 \<Rightarrow> parse_error + string \<times> f32" where
  "parse_pattern_with_threshold raw sec default_threshold =
     (let value = str_trim raw in
      if \<not> starts_with value [CHR 0x22] then
        Inl (MalformedLine sec value ''pattern must start with a double-quoted string'')
      else case str_find (drop 1 value) [CHR 0x22] of
        None \<Rightarrow> Inl (MalformedLine sec value ''pattern string is not closed'')
      | Some k \<Rightarrow>
          (let pat = take k (drop 1 value); trailing = str_trim (drop (k + 2) value) in
           if trailing = [] then Inr (pat, default_threshold)
           else case strip_prefix trailing ''('' of
             None \<Rightarrow> Inl (MalformedLine sec value ''trailing threshold must be enclosed in parentheses'')
           | Some t1 \<Rightarrow>
               (case strip_suffix t1 '')'' of
                  None \<Rightarrow> Inl (MalformedLine sec value ''trailing threshold must be enclosed in parentheses'')
                | Some t2 \<Rightarrow>
                    (let inner = str_trim t2 in
                     case f32_from_str inner of
                       None \<Rightarrow> Inl (InvalidThreshold inner)
                     | Some parsed \<Rightarrow>
                         (if \<not> (f_le (Fin 0) parsed \<and> f_le parsed (Fin 1)) then Inl (InvalidThreshold inner)
                          else Inr (pat, parsed))))))"

definition threshold_value :: "string \<Rightarrow> string \<Rightarrow> parse_error + threshold_pattern" where
  "threshold_value sec value =
     and_then (parse_pattern_with_threshold value sec DEFAULT_THRESHOLD)
       (\<lambda>(p, t). Inr \<lparr>tp_pattern = p, tp_threshold = t\<rparr>)"

definition parse_semantics :: "string \<Rightarrow> parse_error + (string \<times> threshold_pattern) list" where
  "parse_semantics body = parse_var_assignments body ''semantics'' (threshold_value ''semantics'')"

definition parse_llm :: "string \<Rightarrow> parse_error + (string \<times> threshold_pattern) list" where
  "parse_llm body = parse_var_assignments body ''llm'' (threshold_value ''llm'')"

section \<open>Conditions\<close>

fun collapse_whitespace :: "bool \<Rightarrow> string list \<Rightarrow> string" where
  "collapse_whitespace prev_ws [] = []"
| "collapse_whitespace prev_ws (ch # chs) =
     (if is_whitespace ch
      then (if prev_ws then [] else '' '') @ collapse_whitespace True chs
      else ch @ collapse_whitespace False chs)"

definition normalize_whitespace :: "string \<Rightarrow> string" where
  "normalize_whitespace input = str_trim (collapse_whitespace False (str_chars input))"

fun join_space :: "string list \<Rightarrow> string" where
  "join_space [] = []"
| "join_space [l] = l"
| "join_space (l # m # ls) = l @ '' '' @ join_space (m # ls)"

definition parse_condition :: "string \<Rightarrow> parse_error + condition_expr" where
  "parse_condition body =
     (let cleaned = join_space (map strip_line_comment (str_lines body));
          normalized = normalize_whitespace cleaned
      in if str_trim normalized = [] then Inl EmptyCondition
         else and_then (tokenize_condition normalized) parse_tokens)"

section \<open>Reference validation\<close>

fun first_duplicate :: "string list \<Rightarrow> string list \<Rightarrow> string option" where
  "first_duplicate seen [] = None"
| "first_duplicate seen (n # ns) = (if n \<in> set seen then Some n else first_duplicate (n # seen) ns)"

definition validate_unique_variables :: "nova_rule \<Rightarrow> parse_error + unit" where
  "validate_unique_variables r =
     (case first_duplicate [] (rule_keys r Keywords @ rule_keys r Semantics @ rule_keys r Llm) of
        Some name \<Rightarrow> Inl (DuplicateVariableAcrossSections name)
      | None \<Rightarrow> Inr ())"

definition resolve_bare :: "(nova_section \<Rightarrow> string list) \<Rightarrow> string \<Rightarrow> parse_error + nova_section" where
  "resolve_bare keys name =
     (let in_kw = name \<in> set (keys Keywords); in_sem = name \<in> set (keys Semantics); in_llm = name \<in> set (keys Llm);
          hits = length (filter id [in_kw, in_sem, in_llm])
      in if \<not> in_kw \<and> \<not> in_sem \<and> \<not> in_llm then Inl (DanglingReference Keywords name)
         else let s = (if in_kw then Keywords else if in_sem then Semantics else Llm) in
           if 1 < hits
           then Inl (DanglingReference s (name @ '' (ambiguous: defined in multiple sections)''))
           else Inr s)"

fun rewrite_bare_refs :: "(nova_section \<Rightarrow> string list) \<Rightarrow> condition_expr \<Rightarrow> parse_error + condition_expr"
and rewrite_bare_items ::
  "(nova_section \<Rightarrow> string list) \<Rightarrow> condition_expr list \<Rightarrow> parse_error + condition_expr list"
and rewrite_bare_target ::
  "(nova_section \<Rightarrow> string list) \<Rightarrow> quantifier_target \<Rightarrow> parse_error + quantifier_target"
where
  "rewrite_bare_refs keys (Reference s v) =
     (case strip_prefix v bare_prefix of
        Some name \<Rightarrow> map_sum id (\<lambda>s'. Reference s' name) (resolve_bare keys name)
      | None \<Rightarrow> Inr (Reference s v))"
| "rewrite_bare_refs keys (PrefixWildcard s p) = Inr (PrefixWildcard s p)"
| "rewrite_bare_refs keys (Wildcard s) = Inr (Wildcard s)"
| "rewrite_bare_refs keys (Literal b) = Inr (Literal b)"
| "rewrite_bare_refs keys (NotE e) = map_sum id NotE (rewrite_bare_refs keys e)"
| "rewrite_bare_refs keys (AndE es) = map_sum id AndE (rewrite_bare_items keys es)"
| "rewrite_bare_refs keys (OrE es) = map_sum id OrE (rewrite_bare_items keys es)"
| "rewrite_bare_refs keys (Quantified q t) = map_sum id (Quantified q) (rewrite_bare_target keys t)"
| "rewrite_bare_items keys [] = Inr []"
| "rewrite_bare_items keys (e # es) =
     and_then (rewrite_bare_refs keys e) (\<lambda>e'. map_sum id (\<lambda>es'. e' # es') (rewrite_bare_items keys es))"
| "rewrite_bare_target keys (Inner e) = map_sum id Inner (rewrite_bare_refs keys e)"
| "rewrite_bare_target keys t = Inr t"

definition check_prefix_reference :: "nova_section \<Rightarrow> string \<Rightarrow> nova_rule \<Rightarrow> parse_error + unit" where
  "check_prefix_reference s p r =
     (if list_ex (\<lambda>name. starts_with name p) (rule_keys r s) then Inr ()
      else Inl (DanglingReference s (p @ ''* (no patterns match this prefix)'')))"

definition reject_empty_section_wildcard :: "nova_section \<Rightarrow> nova_rule \<Rightarrow> parse_error + unit" where
  "reject_empty_section_wildcard s r =
     (if rule_keys r s = [] then Inl (DanglingReference s ''* (section declares no patterns)'') else Inr ())"

fun check_refs :: "nova_rule \<Rightarrow> condition_expr \<Rightarrow> parse_error + unit"
and check_items :: "nova_rule \<Rightarrow> condition_expr list \<Rightarrow> parse_error + unit"
and check_target :: "nova_rule \<Rightarrow> quantifier_target \<Rightarrow> parse_error + unit"
where
  "check_refs r (Reference s v) =
     (if v \<in> set (rule_keys r s) then Inr () else Inl (DanglingReference s v))"
| "check_refs r (PrefixWildcard s p) =
     (if list_ex (\<lambda>k. starts_with k p) (rule_keys r s) then Inr ()
      else Inl (DanglingReference s (p @ ''* (no patterns match this prefix)'')))"
| "check_refs r (Wildcard s) = reject_empty_section_wildcard s r"
| "check_refs r (Literal b) = Inr ()"
| "check_refs r (NotE e) = check_refs r e"
| "check_refs r (AndE es) = check_items r es"
| "check_refs r (OrE es) = check_items r es"
| "check_refs r (Quantified q t) = check_target r t"
| "check_items r [] = Inr ()"
| "check_items r (e # es) = and_then (check_refs r e) (\<lambda>_. check_items r es)"
| "check_target r (SectionWildcard s) = reject_empty_section_wildcard s r"
| "check_target r (SectionPrefixWildcard s p) = check_prefix_reference s p r"
| "check_target r (CrossSectionPrefixWildcard p) =
     (if list_ex (\<lambda>name. starts_with name p) (rule_keys r Keywords @ rule_keys r Semantics @ rule_keys r Llm)
      then Inr ()
      else Inl (DanglingReference Keywords (p @ ''* (no patterns match this prefix)'')))"
| "check_target r (Inner e) = check_refs r e"

definition validate_references :: "nova_rule \<Rightarrow> parse_error + nova_rule" where
  "validate_references r =
     and_then (validate_unique_variables r) (\<lambda>_.
     and_then (rewrite_bare_refs (rule_keys r) (nr_condition r)) (\<lambda>c.
     let r' = r\<lparr>nr_condition := c\<rparr> in
     and_then (check_refs r' c) (\<lambda>_. Inr r')))"

section \<open>Rules of a file\<close>

definition parse_rule_header :: "rule_env \<Rightarrow> string \<Rightarrow> parse_error + string" where
  "parse_rule_header env line =
     (let trimmed = str_trim line in
      case strip_prefix trimmed ''rule'' of
        None \<Rightarrow> Inl (MissingRuleHeader trimmed)
      | Some after \<Rightarrow>
          (let name = concat (takeWhile (\<lambda>ch. env_alphanumeric env ch \<or> ch = ''_'') (str_chars (str_trim_start after)))
           in if name = [] then Inl (MissingRuleHeader trimmed) else Inr name))"

definition apply_section :: "rule_env \<Rightarrow> nova_rule \<Rightarrow> string \<times> string \<Rightarrow> parse_error + nova_rule" where
  "apply_section env r sec =
     (case sec of (name, body) \<Rightarrow>
        if name = ''meta'' then map_sum id (\<lambda>m. r\<lparr>nr_meta := m\<rparr>) (parse_meta body)
        else if name = ''keywords'' then map_sum id (\<lambda>m. r\<lparr>nr_keywords := m\<rparr>) (parse_keywords env body)
        else if name = ''semantics'' then map_sum id (\<lambda>m. r\<lparr>nr_semantics := m\<rparr>) (parse_semantics body)
        else if name = ''llm'' then map_sum id (\<lambda>m. r\<lparr>nr_llm := m\<rparr>) (parse_llm body)
        else if name = ''condition'' then map_sum id (\<lambda>c. r\<lparr>nr_condition := c\<rparr>) (parse_condition body)
        else Inl (UnknownSection name))"

fun apply_sections :: "rule_env \<Rightarrow> nova_rule \<Rightarrow> (string \<times> string) list \<Rightarrow> parse_error + nova_rule" where
  "apply_sections env r [] = Inr r"
| "apply_sections env r (sec # secs) = and_then (apply_section env r sec) (\<lambda>r'. apply_sections env r' secs)"

definition parse_one_rule :: "rule_env \<Rightarrow> string \<Rightarrow> nat \<Rightarrow> parse_error + nova_rule \<times> nat" where
  "parse_one_rule env input cursor =
     and_then (read_until_brace input cursor) (\<lambda>(header, cursor1).
     and_then (parse_rule_header env header) (\<lambda>name.
     and_then (find_matching_brace input cursor1) (\<lambda>body_end.
     and_then (split_into_sections env (take (body_end - cursor1) (drop cursor1 input))) (\<lambda>sections.
     and_then (apply_sections env
                 \<lparr>nr_name = name, nr_meta = [], nr_keywords = [], nr_semantics = [], nr_llm = [],
                  nr_condition = Literal False\<rparr> sections) (\<lambda>r.
     and_then (validate_references r) (\<lambda>r'. Inr (r', body_end + 1)))))))"

lemma brace_step_returns: "brace_step s i st = Inl r \<Longrightarrow> r = i"
  by (auto simp: brace_step_def Let_def split: if_splits prod.splits)

lemma brace_loop_range: "brace_loop s i st = Inr r \<Longrightarrow> i \<le> r \<and> r < length s"
proof (induction s i st rule: brace_loop.induct)
  case (1 s i st)
  from 1(2) have i: "i < length s" by (auto simp: brace_loop.simps [of s i st] split: if_splits)
  show ?case
  proof (cases "brace_step s i st")
    case (Inl q)
    with 1(2) i show ?thesis using brace_step_returns [OF Inl] by (simp add: brace_loop.simps [of s i st])
  next
    case (Inr q)
    obtain j st' where q: "q = (j, st')" by (cases q)
    with Inr 1(2) i have "brace_loop s j st' = Inr r" by (simp add: brace_loop.simps [of s i st])
    with 1(1) [OF i Inr] q brace_step_advances [of s i st j st'] Inr show ?thesis by simp
  qed
qed

lemma parse_one_rule_advances:
  assumes "parse_one_rule env input cursor = Inr (r, cursor')"
  shows "cursor < cursor' \<and> cursor' \<le> length input"
  using assms
  by (auto simp: parse_one_rule_def and_then_Inr read_until_brace_def find_matching_brace_def
      split: option.splits dest!: brace_loop_range)

lemma skip_ws_and_comments_ge: "i \<le> skip_ws_and_comments s i"
  by (induction s i rule: skip_ws_and_comments.induct)
    (subst skip_ws_and_comments.simps, auto intro: order.trans [rotated])

function parse_rules_from ::
  "rule_env \<Rightarrow> string \<Rightarrow> nova_rule list \<Rightarrow> nat \<Rightarrow> parse_error + nova_rule list"
where
  "parse_rules_from env input rules cursor =
     (if length input \<le> cursor then Inr rules
      else let cursor1 = skip_ws_and_comments input cursor in
        if length input \<le> cursor1 then Inr rules
        else and_then (parse_one_rule env input cursor1) (\<lambda>(r, cursor2).
          if nr_name r \<in> nr_name ` set rules then Inl (DuplicateRuleName (nr_name r))
          else parse_rules_from env input (rules @ [r]) cursor2))"
  by pat_completeness auto
termination
proof (relation "measure (\<lambda>(env, input, rules, cursor). length input - cursor)", goal_cases)
  case 1
  then show ?case by simp
next
  case (2 env input rules cursor cursor1 x r cursor2)
  then show ?case
    using parse_one_rule_advances [of env input cursor1 r cursor2] skip_ws_and_comments_ge [of cursor input] by auto
qed

declare parse_rules_from.simps [simp del]

definition parse_rules :: "rule_env \<Rightarrow> string \<Rightarrow> parse_error + nova_rule list" where
  "parse_rules env input = parse_rules_from env input [] 0"

section \<open>What a parsed rule satisfies\<close>

definition variable_name :: "string \<Rightarrow> bool" where
  "variable_name v \<longleftrightarrow> v \<noteq> [] \<and> list_all is_word_byte v"

definition unit_threshold :: "threshold_pattern \<Rightarrow> bool" where
  "unit_threshold p \<longleftrightarrow> f_le (Fin 0) (tp_threshold p) \<and> f_le (tp_threshold p) (Fin 1)"

definition compiled_keyword :: "rule_env \<Rightarrow> keyword_pattern \<Rightarrow> bool" where
  "compiled_keyword env p \<longleftrightarrow> \<not> kp_is_regex p \<or> env_regex_ok env (kp_pattern p)"

definition well_kept :: "('a \<Rightarrow> bool) \<Rightarrow> (string \<times> 'a) list \<Rightarrow> bool" where
  "well_kept P m \<longleftrightarrow> bt_invar m \<and> list_all (\<lambda>e. variable_name (fst e) \<and> P (snd e)) m"

definition valid_patterns :: "rule_env \<Rightarrow> nova_rule \<Rightarrow> bool" where
  "valid_patterns env r \<longleftrightarrow>
     well_kept (compiled_keyword env) (nr_keywords r)
     \<and> well_kept unit_threshold (nr_semantics r) \<and> well_kept unit_threshold (nr_llm r)"

definition valid_rule :: "rule_env \<Rightarrow> nova_rule \<Rightarrow> bool" where
  "valid_rule env r \<longleftrightarrow>
     valid_patterns env r
     \<and> distinct (rule_keys r Keywords @ rule_keys r Semantics @ rule_keys r Llm)
     \<and> check_refs r (nr_condition r) = Inr ()"

lemma bt_entry_set: "(\<And>old. h old = v) \<Longrightarrow> set (bt_entry k h m) \<subseteq> insert (k, v) (set m)"
  by (induction k h m rule: bt_entry.induct) auto

lemma bt_insert_set: "set (bt_insert k v m) \<subseteq> insert (k, v) (set m)"
  unfolding bt_insert_def by (rule bt_entry_set) simp

lemma well_kept_insert:
  "well_kept P m \<Longrightarrow> variable_name k \<Longrightarrow> P v \<Longrightarrow> well_kept P (bt_insert k v m)"
  using bt_insert_set [of k v m] bt_invar_entry [of m k]
  by (fastforce simp: well_kept_def list_all_iff bt_insert_def)

lemma split_var_assignment_name: "split_var_assignment line sec = Inr (var, value) \<Longrightarrow> variable_name var"
  by (auto simp: split_var_assignment_def variable_name_def Let_def split: option.splits if_splits)

lemma var_assignments_kept:
  assumes "\<And>x v. parse_value x = Inr v \<Longrightarrow> P v"
  shows "well_kept P out \<Longrightarrow> var_assignments sec parse_value out lines = Inr m \<Longrightarrow> well_kept P m"
proof (induction lines arbitrary: out)
  case (Cons line lines)
  then obtain var raw v where
    "split_var_assignment line sec = Inr (var, raw)" "parse_value raw = Inr v"
    and m: "var_assignments sec parse_value (bt_insert var v out) lines = Inr m"
    by (auto simp: and_then_Inr split: if_splits)
  then have "well_kept P (bt_insert var v out)"
    using Cons.prems(1) by (blast intro: well_kept_insert split_var_assignment_name assms)
  then show ?case using m by (rule Cons.IH)
qed simp

lemma parse_var_assignments_kept:
  "(\<And>x v. parse_value x = Inr v \<Longrightarrow> P v) \<Longrightarrow> parse_var_assignments body sec parse_value = Inr m \<Longrightarrow> well_kept P m"
  unfolding parse_var_assignments_def
  by (rule var_assignments_kept [of parse_value P "[]"]) (auto simp: well_kept_def bt_invar_def)

lemma f32_of_rat_0_1 [simp]: "f32_of_rat 0 = Fin 0" "f32_of_rat 1 = Fin 1"
  using rnd_of_nat [of 1] by (simp_all add: f32_of_rat_def Let_def)

lemma DEFAULT_THRESHOLD_unit: "f_le (Fin 0) DEFAULT_THRESHOLD" "f_le DEFAULT_THRESHOLD (Fin 1)"
  using f32_of_rat_mono [of 0 "1 / 10"] f32_of_rat_mono [of "1 / 10" 1]
  by (simp_all add: DEFAULT_THRESHOLD_def)

lemma threshold_value_unit: "threshold_value sec x = Inr p \<Longrightarrow> unit_threshold p"
  by (auto simp: threshold_value_def and_then_Inr unit_threshold_def parse_pattern_with_threshold_def Let_def
        DEFAULT_THRESHOLD_unit split: if_splits option.splits)

lemma parse_keyword_value_compiled: "parse_keyword_value env x = Inr p \<Longrightarrow> compiled_keyword env p"
  by (auto simp: parse_keyword_value_def compiled_keyword_def Let_def split: if_splits prod.splits)

lemma apply_section_valid:
  "apply_section env r sec = Inr r' \<Longrightarrow> valid_patterns env r \<Longrightarrow> valid_patterns env r'"
  by (auto simp: apply_section_def valid_patterns_def map_sum_Inr parse_keywords_def parse_semantics_def parse_llm_def
        split: prod.splits if_splits
        intro: parse_var_assignments_kept threshold_value_unit parse_keyword_value_compiled)

lemma apply_sections_valid:
  "apply_sections env r secs = Inr r' \<Longrightarrow> valid_patterns env r \<Longrightarrow> valid_patterns env r'"
  by (induction secs arbitrary: r) (auto simp: and_then_Inr intro: apply_section_valid)

lemma first_duplicate_None: "first_duplicate seen ns = None \<longleftrightarrow> distinct ns \<and> set ns \<inter> set seen = {}"
  by (induction ns arbitrary: seen) auto

lemma rule_keys_update [simp]: "rule_keys (r\<lparr>nr_condition := c\<rparr>) s = rule_keys r s"
  by (cases s) (simp_all add: rule_keys_def)

lemma validate_references_valid:
  "validate_references r = Inr r' \<Longrightarrow> valid_patterns env r \<Longrightarrow> valid_rule env r'"
  by (auto simp: validate_references_def and_then_Inr Let_def valid_rule_def validate_unique_variables_def
        first_duplicate_None valid_patterns_def split: option.splits)

lemma parse_one_rule_valid: "parse_one_rule env input cursor = Inr (r, c) \<Longrightarrow> valid_rule env r"
proof -
  assume "parse_one_rule env input cursor = Inr (r, c)"
  then obtain name secs r0 where
    a: "apply_sections env \<lparr>nr_name = name, nr_meta = [], nr_keywords = [], nr_semantics = [], nr_llm = [],
          nr_condition = Literal False\<rparr> secs = Inr r0" and v: "validate_references r0 = Inr r"
    by (clarsimp simp: parse_one_rule_def and_then_Inr)
  have "valid_patterns env r0"
    by (rule apply_sections_valid [OF a]) (simp add: valid_patterns_def well_kept_def bt_invar_def)
  then show ?thesis by (rule validate_references_valid [OF v])
qed

lemma parse_rules_from_valid:
  "parse_rules_from env input rules cursor = Inr rs \<Longrightarrow>
     distinct (map nr_name rules) \<Longrightarrow> list_all (valid_rule env) rules \<Longrightarrow> length rules \<le> cursor \<Longrightarrow>
     cursor \<le> length input \<Longrightarrow>
     distinct (map nr_name rs) \<and> list_all (valid_rule env) rs \<and> length rs \<le> length input"
proof (induction env input rules cursor rule: parse_rules_from.induct)
  case (1 env input rules cursor)
  note eq = parse_rules_from.simps [of env input rules cursor]
  let ?c1 = "skip_ws_and_comments input cursor"
  show ?case
  proof (cases "length input \<le> cursor \<or> length input \<le> ?c1")
    case True
    then have "rs = rules" using 1(2) unfolding eq Let_def by (auto split: if_splits)
    with 1 show ?thesis by auto
  next
    case False
    with 1(2) obtain r c2 where p: "parse_one_rule env input ?c1 = Inr (r, c2)" "nr_name r \<notin> nr_name ` set rules"
      "parse_rules_from env input (rules @ [r]) c2 = Inr rs"
      by (auto simp: eq Let_def and_then_Inr split: if_splits)
    have c: "?c1 < c2 \<and> c2 \<le> length input" by (rule parse_one_rule_advances [OF p(1)])
    show ?thesis
    proof (rule 1(1) [OF _ refl _ p(1) refl p(2,3)])
      show "list_all (valid_rule env) (rules @ [r])" using 1(4) parse_one_rule_valid [OF p(1)] by simp
      show "length (rules @ [r]) \<le> c2" using c skip_ws_and_comments_ge [of cursor input] 1(5) by simp
    qed (use False c p(2) 1(3) in auto)
  qed
qed


end
