(* ===== verification/Findings.thy ===== *)
theory Findings
  imports F32
begin

text \<open>
  The data model of \<open>findings/\<close>: the enumerations of \<open>enums.rs\<close> with their derived \<open>Ord\<close>
  (an \<open>instantiation\<close> of \<open>linorder\<close> by declaration order, as \<open>derive(Ord)\<close> defines it) and their
  \<open>Display\<close> names, the structures of \<open>types.rs\<close> and \<open>summary.rs\<close> as records, the weights of \<open>weights.rs\<close>, the
  category and scope tables of \<open>mapping.rs\<close>, \<open>permissions.rs\<close> and \<open>calibration.rs\<close>, and the
  finding builder of \<open>builder.rs\<close>. Shown: the confidence of a built finding is a number in
  [0.1, 0.99], so no NaN reaches the scoring; a finding's weighted score is a valid score.
\<close>

named_theorems enum_order \<open>the orders of the enumerations, by rank\<close>

section \<open>Enumerations\<close>

text \<open>\<open>ThreatCategory\<close>\<close>

datatype threat_category = RemoteExec | SupplyChain | PersistentPromptTampering | CredentialExposure | ToolAbuse | AutonomyEscalation | PrivilegeEscalation | DataExfiltration | PersuasiveLanguage | SocialManipulation | ScopeCreep | Obfuscation | UnsafeBinary | Generic

primrec threat_category_display :: "threat_category \<Rightarrow> string" where
  "threat_category_display RemoteExec = ''remote_exec''"
| "threat_category_display SupplyChain = ''supply_chain''"
| "threat_category_display PersistentPromptTampering = ''persistent_prompt_tampering''"
| "threat_category_display CredentialExposure = ''credential_exposure''"
| "threat_category_display ToolAbuse = ''tool_abuse''"
| "threat_category_display AutonomyEscalation = ''autonomy_escalation''"
| "threat_category_display PrivilegeEscalation = ''privilege_escalation''"
| "threat_category_display DataExfiltration = ''data_exfiltration''"
| "threat_category_display PersuasiveLanguage = ''persuasive_language''"
| "threat_category_display SocialManipulation = ''social_manipulation''"
| "threat_category_display ScopeCreep = ''scope_creep''"
| "threat_category_display Obfuscation = ''obfuscation''"
| "threat_category_display UnsafeBinary = ''unsafe_binary''"
| "threat_category_display Generic = ''generic''"

primrec threat_category_rank :: "threat_category \<Rightarrow> nat" where
  "threat_category_rank RemoteExec = 0"
| "threat_category_rank SupplyChain = 1"
| "threat_category_rank PersistentPromptTampering = 2"
| "threat_category_rank CredentialExposure = 3"
| "threat_category_rank ToolAbuse = 4"
| "threat_category_rank AutonomyEscalation = 5"
| "threat_category_rank PrivilegeEscalation = 6"
| "threat_category_rank DataExfiltration = 7"
| "threat_category_rank PersuasiveLanguage = 8"
| "threat_category_rank SocialManipulation = 9"
| "threat_category_rank ScopeCreep = 10"
| "threat_category_rank Obfuscation = 11"
| "threat_category_rank UnsafeBinary = 12"
| "threat_category_rank Generic = 13"

lemma threat_category_rank_inj [simp]: "threat_category_rank a = threat_category_rank b \<longleftrightarrow> a = b"
  by (cases a; cases b) simp_all

instantiation threat_category :: linorder
begin

definition less_eq_threat_category :: "threat_category \<Rightarrow> threat_category \<Rightarrow> bool" where
  [enum_order]: "a \<le> b \<longleftrightarrow> threat_category_rank a \<le> threat_category_rank b"

definition less_threat_category :: "threat_category \<Rightarrow> threat_category \<Rightarrow> bool" where
  [enum_order]: "a < b \<longleftrightarrow> threat_category_rank a < threat_category_rank b"

instance
  by standard (auto simp: enum_order)

end

text \<open>\<open>OperationalContext\<close>; the source derives no order, the sort key of \<open>calibration.rs\<close> is the rank.\<close>

datatype operational_context = Install | Network | Secrets | CodeModification | ExternalComms

primrec operational_context_display :: "operational_context \<Rightarrow> string" where
  "operational_context_display Install = ''install''"
| "operational_context_display Network = ''network''"
| "operational_context_display Secrets = ''secrets''"
| "operational_context_display CodeModification = ''code_modification''"
| "operational_context_display ExternalComms = ''external_comms''"

primrec operational_context_rank :: "operational_context \<Rightarrow> nat" where
  "operational_context_rank Install = 0"
| "operational_context_rank Network = 1"
| "operational_context_rank Secrets = 2"
| "operational_context_rank CodeModification = 3"
| "operational_context_rank ExternalComms = 4"

lemma operational_context_rank_inj [simp]: "operational_context_rank a = operational_context_rank b \<longleftrightarrow> a = b"
  by (cases a; cases b) simp_all

instantiation operational_context :: linorder
begin

definition less_eq_operational_context :: "operational_context \<Rightarrow> operational_context \<Rightarrow> bool" where
  [enum_order]: "a \<le> b \<longleftrightarrow> operational_context_rank a \<le> operational_context_rank b"

definition less_operational_context :: "operational_context \<Rightarrow> operational_context \<Rightarrow> bool" where
  [enum_order]: "a < b \<longleftrightarrow> operational_context_rank a < operational_context_rank b"

instance
  by standard (auto simp: enum_order)

end

text \<open>\<open>Severity\<close>\<close>

datatype severity = Low | Medium | High | Critical

primrec severity_rank :: "severity \<Rightarrow> nat" where
  "severity_rank Low = 0"
| "severity_rank Medium = 1"
| "severity_rank High = 2"
| "severity_rank Critical = 3"

lemma severity_rank_inj [simp]: "severity_rank a = severity_rank b \<longleftrightarrow> a = b"
  by (cases a; cases b) simp_all

instantiation severity :: linorder
begin

definition less_eq_severity :: "severity \<Rightarrow> severity \<Rightarrow> bool" where
  [enum_order]: "a \<le> b \<longleftrightarrow> severity_rank a \<le> severity_rank b"

definition less_severity :: "severity \<Rightarrow> severity \<Rightarrow> bool" where
  [enum_order]: "a < b \<longleftrightarrow> severity_rank a < severity_rank b"

instance
  by standard (auto simp: enum_order)

end

text \<open>\<open>RecommendedAction\<close>\<close>

datatype recommended_action = Log | RequireApproval | Block

primrec recommended_action_display :: "recommended_action \<Rightarrow> string" where
  "recommended_action_display Log = ''log''"
| "recommended_action_display RequireApproval = ''require_approval''"
| "recommended_action_display Block = ''block''"

primrec recommended_action_rank :: "recommended_action \<Rightarrow> nat" where
  "recommended_action_rank Log = 0"
| "recommended_action_rank RequireApproval = 1"
| "recommended_action_rank Block = 2"

lemma recommended_action_rank_inj [simp]: "recommended_action_rank a = recommended_action_rank b \<longleftrightarrow> a = b"
  by (cases a; cases b) simp_all

instantiation recommended_action :: linorder
begin

definition less_eq_recommended_action :: "recommended_action \<Rightarrow> recommended_action \<Rightarrow> bool" where
  [enum_order]: "a \<le> b \<longleftrightarrow> recommended_action_rank a \<le> recommended_action_rank b"

definition less_recommended_action :: "recommended_action \<Rightarrow> recommended_action \<Rightarrow> bool" where
  [enum_order]: "a < b \<longleftrightarrow> recommended_action_rank a < recommended_action_rank b"

instance
  by standard (auto simp: enum_order)

end

text \<open>\<open>EvidenceKind\<close>\<close>

datatype evidence_kind = Ioc | Behavior | Intent | Context

primrec evidence_kind_display :: "evidence_kind \<Rightarrow> string" where
  "evidence_kind_display Ioc = ''ioc''"
| "evidence_kind_display Behavior = ''behavior''"
| "evidence_kind_display Intent = ''intent''"
| "evidence_kind_display Context = ''context''"

primrec evidence_kind_rank :: "evidence_kind \<Rightarrow> nat" where
  "evidence_kind_rank Ioc = 0"
| "evidence_kind_rank Behavior = 1"
| "evidence_kind_rank Intent = 2"
| "evidence_kind_rank Context = 3"

lemma evidence_kind_rank_inj [simp]: "evidence_kind_rank a = evidence_kind_rank b \<longleftrightarrow> a = b"
  by (cases a; cases b) simp_all

instantiation evidence_kind :: linorder
begin

definition less_eq_evidence_kind :: "evidence_kind \<Rightarrow> evidence_kind \<Rightarrow> bool" where
  [enum_order]: "a \<le> b \<longleftrightarrow> evidence_kind_rank a \<le> evidence_kind_rank b"

definition less_evidence_kind :: "evidence_kind \<Rightarrow> evidence_kind \<Rightarrow> bool" where
  [enum_order]: "a < b \<longleftrightarrow> evidence_kind_rank a < evidence_kind_rank b"

instance
  by standard (auto simp: enum_order)

end

text \<open>\<open>ArtifactKind\<close>\<close>

datatype artifact_kind = SkillDocument | AgentInstruction | PromptPackDocument | McpServerManifest | CodeSnippet | ReferencedArtifact | PackageManifest | Lockfile | GenericArtifact

primrec artifact_kind_display :: "artifact_kind \<Rightarrow> string" where
  "artifact_kind_display SkillDocument = ''skill_document''"
| "artifact_kind_display AgentInstruction = ''agent_instruction''"
| "artifact_kind_display PromptPackDocument = ''prompt_pack_document''"
| "artifact_kind_display McpServerManifest = ''mcp_server_manifest''"
| "artifact_kind_display CodeSnippet = ''code_snippet''"
| "artifact_kind_display ReferencedArtifact = ''referenced_artifact''"
| "artifact_kind_display PackageManifest = ''package_manifest''"
| "artifact_kind_display Lockfile = ''lockfile''"
| "artifact_kind_display GenericArtifact = ''generic_artifact''"

primrec artifact_kind_rank :: "artifact_kind \<Rightarrow> nat" where
  "artifact_kind_rank SkillDocument = 0"
| "artifact_kind_rank AgentInstruction = 1"
| "artifact_kind_rank PromptPackDocument = 2"
| "artifact_kind_rank McpServerManifest = 3"
| "artifact_kind_rank CodeSnippet = 4"
| "artifact_kind_rank ReferencedArtifact = 5"
| "artifact_kind_rank PackageManifest = 6"
| "artifact_kind_rank Lockfile = 7"
| "artifact_kind_rank GenericArtifact = 8"

lemma artifact_kind_rank_inj [simp]: "artifact_kind_rank a = artifact_kind_rank b \<longleftrightarrow> a = b"
  by (cases a; cases b) simp_all

instantiation artifact_kind :: linorder
begin

definition less_eq_artifact_kind :: "artifact_kind \<Rightarrow> artifact_kind \<Rightarrow> bool" where
  [enum_order]: "a \<le> b \<longleftrightarrow> artifact_kind_rank a \<le> artifact_kind_rank b"

definition less_artifact_kind :: "artifact_kind \<Rightarrow> artifact_kind \<Rightarrow> bool" where
  [enum_order]: "a < b \<longleftrightarrow> artifact_kind_rank a < artifact_kind_rank b"

instance
  by standard (auto simp: enum_order)

end

text \<open>\<open>ArtifactScope\<close>\<close>

datatype artifact_scope = AgentEntrypoint | PackageRootArtifact | SupportingArtifact

primrec artifact_scope_display :: "artifact_scope \<Rightarrow> string" where
  "artifact_scope_display AgentEntrypoint = ''agent_entrypoint''"
| "artifact_scope_display PackageRootArtifact = ''package_root_artifact''"
| "artifact_scope_display SupportingArtifact = ''supporting_artifact''"

primrec artifact_scope_rank :: "artifact_scope \<Rightarrow> nat" where
  "artifact_scope_rank AgentEntrypoint = 0"
| "artifact_scope_rank PackageRootArtifact = 1"
| "artifact_scope_rank SupportingArtifact = 2"

lemma artifact_scope_rank_inj [simp]: "artifact_scope_rank a = artifact_scope_rank b \<longleftrightarrow> a = b"
  by (cases a; cases b) simp_all

instantiation artifact_scope :: linorder
begin

definition less_eq_artifact_scope :: "artifact_scope \<Rightarrow> artifact_scope \<Rightarrow> bool" where
  [enum_order]: "a \<le> b \<longleftrightarrow> artifact_scope_rank a \<le> artifact_scope_rank b"

definition less_artifact_scope :: "artifact_scope \<Rightarrow> artifact_scope \<Rightarrow> bool" where
  [enum_order]: "a < b \<longleftrightarrow> artifact_scope_rank a < artifact_scope_rank b"

instance
  by standard (auto simp: enum_order)

end

text \<open>\<open>SignalClass\<close>\<close>

datatype signal_class = Hygiene | SuspiciousPackageBehavior | MaliciousBehavior | ReviewSignal

primrec signal_class_rank :: "signal_class \<Rightarrow> nat" where
  "signal_class_rank Hygiene = 0"
| "signal_class_rank SuspiciousPackageBehavior = 1"
| "signal_class_rank MaliciousBehavior = 2"
| "signal_class_rank ReviewSignal = 3"

lemma signal_class_rank_inj [simp]: "signal_class_rank a = signal_class_rank b \<longleftrightarrow> a = b"
  by (cases a; cases b) simp_all

instantiation signal_class :: linorder
begin

definition less_eq_signal_class :: "signal_class \<Rightarrow> signal_class \<Rightarrow> bool" where
  [enum_order]: "a \<le> b \<longleftrightarrow> signal_class_rank a \<le> signal_class_rank b"

definition less_signal_class :: "signal_class \<Rightarrow> signal_class \<Rightarrow> bool" where
  [enum_order]: "a < b \<longleftrightarrow> signal_class_rank a < signal_class_rank b"

instance
  by standard (auto simp: enum_order)

end

text \<open>\<open>Verdict\<close>\<close>

datatype verdict = Benign | Suspicious | Malicious

text \<open>\<open>BlastRadiusLevel\<close>\<close>

datatype blast_radius_level = Radius_Low | Radius_Medium | Radius_High

primrec blast_radius_level_rank :: "blast_radius_level \<Rightarrow> nat" where
  "blast_radius_level_rank Radius_Low = 0"
| "blast_radius_level_rank Radius_Medium = 1"
| "blast_radius_level_rank Radius_High = 2"

lemma blast_radius_level_rank_inj [simp]: "blast_radius_level_rank a = blast_radius_level_rank b \<longleftrightarrow> a = b"
  by (cases a; cases b) simp_all

instantiation blast_radius_level :: linorder
begin

definition less_eq_blast_radius_level :: "blast_radius_level \<Rightarrow> blast_radius_level \<Rightarrow> bool" where
  [enum_order]: "a \<le> b \<longleftrightarrow> blast_radius_level_rank a \<le> blast_radius_level_rank b"

definition less_blast_radius_level :: "blast_radius_level \<Rightarrow> blast_radius_level \<Rightarrow> bool" where
  [enum_order]: "a < b \<longleftrightarrow> blast_radius_level_rank a < blast_radius_level_rank b"

instance
  by standard (auto simp: enum_order)

end

text \<open>\<open>PackageHealth\<close>\<close>

datatype package_health = Healthy | NeedsReview | Elevated

text \<open>\<open>DeclaredPermission\<close> of \<open>permissions.rs\<close>\<close>

datatype declared_permission = Perm_BrowserFull | Perm_FileWrite | Perm_ShellExec | Perm_NetworkAccess | Perm_SecretsAccess | Perm_OAuthScopes

primrec declared_permission_rank :: "declared_permission \<Rightarrow> nat" where
  "declared_permission_rank Perm_BrowserFull = 0"
| "declared_permission_rank Perm_FileWrite = 1"
| "declared_permission_rank Perm_ShellExec = 2"
| "declared_permission_rank Perm_NetworkAccess = 3"
| "declared_permission_rank Perm_SecretsAccess = 4"
| "declared_permission_rank Perm_OAuthScopes = 5"

lemma declared_permission_rank_inj [simp]: "declared_permission_rank a = declared_permission_rank b \<longleftrightarrow> a = b"
  by (cases a; cases b) simp_all

instantiation declared_permission :: linorder
begin

definition less_eq_declared_permission :: "declared_permission \<Rightarrow> declared_permission \<Rightarrow> bool" where
  [enum_order]: "a \<le> b \<longleftrightarrow> declared_permission_rank a \<le> declared_permission_rank b"

definition less_declared_permission :: "declared_permission \<Rightarrow> declared_permission \<Rightarrow> bool" where
  [enum_order]: "a < b \<longleftrightarrow> declared_permission_rank a < declared_permission_rank b"

instance
  by standard (auto simp: enum_order)

end

text \<open>\<open>TaxonomyTag\<close> of \<open>taxonomy.rs\<close>\<close>

datatype taxonomy_tag = MemoryPoisoning | RogueAgent | ExcessiveAgency | OutputHandling | TriggerAbuse | SystemPromptLeakage

datatype match_target =
  Document
  | Section string
  | CodeBlock "string option"
  | ReferencedFile string

fun match_target_display :: "match_target \<Rightarrow> string" where
  "match_target_display Document = ''document''"
| "match_target_display (Section name) = ''section:'' @ name"
| "match_target_display (CodeBlock language) =
     ''code_block:'' @ (case language of Some l \<Rightarrow> l | None \<Rightarrow> ''unknown'')"
| "match_target_display (ReferencedFile path) = ''file:'' @ path"

section \<open>Weights\<close>

primrec severity_weight :: "severity \<Rightarrow> nat" where
  "severity_weight Low = 10"
| "severity_weight Medium = 30"
| "severity_weight High = 60"
| "severity_weight Critical = 90"

primrec default_action :: "severity \<Rightarrow> recommended_action" where
  "default_action Critical = Block"
| "default_action High = Block"
| "default_action Medium = RequireApproval"
| "default_action Low = Log"

primrec evidence_weight :: "evidence_kind \<Rightarrow> nat" where
  "evidence_weight Ioc = 10"
| "evidence_weight Behavior = 8"
| "evidence_weight Intent = 4"
| "evidence_weight Context = 3"

primrec evidence_description :: "evidence_kind \<Rightarrow> string" where
  "evidence_description Ioc = ''Known malicious indicator''"
| "evidence_description Behavior = ''Concrete risky behavior''"
| "evidence_description Intent = ''Manipulative or coercive intent''"
| "evidence_description Context = ''Contextual risk signal''"

definition RISK_THRESHOLD_BLOCK :: nat where
  "RISK_THRESHOLD_BLOCK = 50"

definition RISK_THRESHOLD_APPROVAL :: nat where
  "RISK_THRESHOLD_APPROVAL = 20"

definition MAX_RISK_SCORE :: nat where
  "MAX_RISK_SCORE = 100"

primrec signal_weight :: "signal_class \<Rightarrow> f32" where
  "signal_weight Hygiene = f32_of_rat (35 / 100)"
| "signal_weight SuspiciousPackageBehavior = f32_of_rat (75 / 100)"
| "signal_weight MaliciousBehavior = f32_of_rat 1"
| "signal_weight ReviewSignal = f32_of_rat (5 / 10)"

text \<open>\<open>ArtifactKind::specificity\<close>\<close>

primrec specificity :: "artifact_kind \<Rightarrow> nat" where
  "specificity GenericArtifact = 0"
| "specificity CodeSnippet = 1"
| "specificity ReferencedArtifact = 2"
| "specificity PromptPackDocument = 2"
| "specificity SkillDocument = 3"
| "specificity AgentInstruction = 3"
| "specificity PackageManifest = 4"
| "specificity McpServerManifest = 4"
| "specificity Lockfile = 4"

section \<open>Structures\<close>

record suppression_record =
  sr_kind :: string
  sr_rule_id :: string
  sr_reason :: "string option"

record finding =
  rule_id :: string
  category :: threat_category
  f_severity :: severity
  confidence :: f32
  raw_confidence :: f32
  confidence_rationale :: string
  matched_on :: match_target
  match_value :: string
  reason :: string
  remediation :: string
  f_action :: recommended_action
  f_evidence_kind :: evidence_kind
  f_artifact_kind :: artifact_kind
  f_artifact_scope :: artifact_scope
  f_signal_class :: signal_class
  artifact_path :: "string option"
  operational_contexts :: "operational_context list"
  taxonomy_tags :: "taxonomy_tag list"
  user_taxonomy :: "string list"
  line_number :: "nat option"
  suppression :: "suppression_record option"

record verdict_reason =
  vr_scope :: artifact_scope
  vr_category :: threat_category
  vr_signal_class :: signal_class
  vr_rationale :: string

record root_cause_group =
  g_scope :: artifact_scope
  g_category :: threat_category
  g_signal_class :: signal_class
  finding_count :: nat
  strongest_action :: recommended_action
  representative_rules :: "string list"

record verdict_calibration_note =
  n_rule_id :: string
  n_effect :: string
  n_rationale :: string
  n_scope :: artifact_scope
  n_category :: threat_category
  n_signal_class :: signal_class

record blast_radius_summary =
  br_level :: blast_radius_level
  br_factors :: "string list"
  br_network_targets :: "string list"
  br_declared_permissions :: "declared_permission list"

record hygiene_summary =
  package_root_findings :: nat
  entrypoint_findings :: nat
  supporting_findings :: nat
  top_rules :: "string list"

record risk_factor =
  factor :: string
  contribution :: nat
  rf_rationale :: string

record action_trigger =
  at_action :: recommended_action
  at_factor :: string
  at_rationale :: string

record severity_counts =
  n_low :: nat
  n_medium :: nat
  n_high :: nat
  n_critical :: nat

record finding_summary =
  total_findings :: nat
  by_severity :: severity_counts
  by_category :: "(threat_category \<times> nat) list"
  risk_score :: nat
  s_action :: recommended_action
  score_breakdown :: "risk_factor list"
  action_triggers :: "action_trigger list"

record package_verdict_report =
  pv_verdict :: verdict
  pv_package_health :: package_health
  pv_hygiene_summary :: hygiene_summary
  pv_declared_permissions :: "declared_permission list"
  pv_effective_capabilities :: "string list"
  pv_blast_radius_summary :: blast_radius_summary
  pv_verdict_reasons :: "verdict_reason list"
  pv_root_cause_groups :: "root_cause_group list"
  pv_top_risk_drivers :: "risk_factor list"
  pv_calibration_notes :: "verdict_calibration_note list"
  pv_calibration_risk_adjustment :: int

section \<open>Category and scope tables\<close>

fun artifact_scope_for_kind :: "artifact_kind \<Rightarrow> artifact_scope" where
  "artifact_scope_for_kind SkillDocument = AgentEntrypoint"
| "artifact_scope_for_kind AgentInstruction = AgentEntrypoint"
| "artifact_scope_for_kind PromptPackDocument = AgentEntrypoint"
| "artifact_scope_for_kind McpServerManifest = AgentEntrypoint"
| "artifact_scope_for_kind PackageManifest = PackageRootArtifact"
| "artifact_scope_for_kind Lockfile = PackageRootArtifact"
| "artifact_scope_for_kind GenericArtifact = PackageRootArtifact"
| "artifact_scope_for_kind ReferencedArtifact = SupportingArtifact"
| "artifact_scope_for_kind CodeSnippet = SupportingArtifact"

fun signal_class_for :: "threat_category \<Rightarrow> signal_class" where
  "signal_class_for ScopeCreep = Hygiene"
| "signal_class_for SupplyChain = SuspiciousPackageBehavior"
| "signal_class_for RemoteExec = MaliciousBehavior"
| "signal_class_for CredentialExposure = MaliciousBehavior"
| "signal_class_for DataExfiltration = MaliciousBehavior"
| "signal_class_for PrivilegeEscalation = MaliciousBehavior"
| "signal_class_for UnsafeBinary = MaliciousBehavior"
| "signal_class_for PersistentPromptTampering = MaliciousBehavior"
| "signal_class_for AutonomyEscalation = MaliciousBehavior"
| "signal_class_for ToolAbuse = SuspiciousPackageBehavior"
| "signal_class_for Obfuscation = SuspiciousPackageBehavior"
| "signal_class_for SocialManipulation = SuspiciousPackageBehavior"
| "signal_class_for PersuasiveLanguage = ReviewSignal"
| "signal_class_for Generic = ReviewSignal"

definition DECLARED_PERMISSION_RULES :: "(string \<times> declared_permission) list" where
  "DECLARED_PERMISSION_RULES =
    [(''DECLARED_PERMISSION_BROWSER_FULL'', Perm_BrowserFull),
     (''DECLARED_PERMISSION_FILE_WRITE'', Perm_FileWrite),
     (''DECLARED_PERMISSION_SHELL_EXEC'', Perm_ShellExec),
     (''DECLARED_PERMISSION_NETWORK_ACCESS'', Perm_NetworkAccess),
     (''DECLARED_PERMISSION_SECRETS_ACCESS'', Perm_SecretsAccess),
     (''DECLARED_PERMISSION_OAUTH_SCOPES'', Perm_OAuthScopes)]"

definition declared_permission_for_rule :: "string \<Rightarrow> declared_permission option" where
  "declared_permission_for_rule r = map_option snd (find (\<lambda>p. fst p = r) DECLARED_PERMISSION_RULES)"

definition is_declared_permission_rule :: "string \<Rightarrow> bool" where
  "is_declared_permission_rule r \<longleftrightarrow> list_ex (\<lambda>p. fst p = r) DECLARED_PERMISSION_RULES"

lemma is_declared_permission_rule_iff:
  "is_declared_permission_rule r \<longleftrightarrow> declared_permission_for_rule r \<noteq> None"
  by (force simp: is_declared_permission_rule_def declared_permission_for_rule_def list_ex_iff
      find_None_iff)

text \<open>
  \<open>default_operational_contexts\<close>: the vector the match pushes, sorted by the context rank and
  deduplicated. The artifact kind is ignored by the source.
\<close>

fun category_contexts :: "threat_category \<Rightarrow> operational_context list" where
  "category_contexts RemoteExec = [Install]"
| "category_contexts SupplyChain = [Install]"
| "category_contexts UnsafeBinary = [Install]"
| "category_contexts CredentialExposure = [Secrets]"
| "category_contexts ToolAbuse = [CodeModification, Secrets]"
| "category_contexts AutonomyEscalation = [CodeModification, ExternalComms]"
| "category_contexts PersistentPromptTampering = [CodeModification, ExternalComms]"
| "category_contexts ScopeCreep = [CodeModification]"
| "category_contexts PrivilegeEscalation = [CodeModification]"
| "category_contexts DataExfiltration = [Network, ExternalComms, Secrets]"
| "category_contexts PersuasiveLanguage = [ExternalComms, CodeModification]"
| "category_contexts SocialManipulation = [ExternalComms, CodeModification]"
| "category_contexts Obfuscation = []"
| "category_contexts Generic = []"

definition default_operational_contexts ::
  "threat_category \<Rightarrow> artifact_kind \<Rightarrow> operational_context list" where
  "default_operational_contexts c k =
     remdups_adj (sort_by (\<lambda>a b. ord_cmp (operational_context_rank a) (operational_context_rank b))
       (category_contexts c))"

lemma default_operational_contexts_set [simp]:
  "set (default_operational_contexts c k) = set (category_contexts c)"
  by (simp add: default_operational_contexts_def)

section \<open>The scale of actions\<close>

lemma Log_least [simp]: "Log \<le> a"
  by (cases a) (simp_all add: enum_order)

lemma Block_greatest [simp]: "a \<le> Block"
  by (cases a) (simp_all add: enum_order)

lemma not_Log_iff: "a \<noteq> Log \<longleftrightarrow> Log < a"
  by (cases a) (simp_all add: enum_order)

lemma Max_Block: "finite A \<Longrightarrow> Max (insert Log A) = Block \<longleftrightarrow> Block \<in> A"
  by (simp add: Max_eq_iff)

end
