(* ===== verification/Builder.thy ===== *)
theory Builder
  imports Findings
begin

text \<open>
  \<open>findings/calibration.rs\<close> (confidence calibration, default remediation) and \<open>findings/builder.rs\<close> (the
  \<open>FindingBuilder\<close>, the weighted score, the conclusive-evidence test). The chained builder calls are
  a list of \<open>builder_op\<close> applied to \<open>builder_new\<close>, so that a property of \<open>build\<close> holds for every
  chain of calls.
\<close>

section \<open>Confidence calibration\<close>

definition CONFIDENCE_RAW_WEIGHT :: f32 where
  "CONFIDENCE_RAW_WEIGHT = f32_of_rat (7 / 10)"

definition CONFIDENCE_BASELINE_WEIGHT :: f32 where
  "CONFIDENCE_BASELINE_WEIGHT = f32_of_rat (3 / 10)"

definition CONFIDENCE_FLOOR :: f32 where
  "CONFIDENCE_FLOOR = f32_of_rat (1 / 10)"

definition CONFIDENCE_CEILING :: f32 where
  "CONFIDENCE_CEILING = f32_of_rat (99 / 100)"

primrec evidence_baseline :: "evidence_kind \<Rightarrow> f32" where
  "evidence_baseline Ioc = f32_of_rat (98 / 100)"
| "evidence_baseline Behavior = f32_of_rat (92 / 100)"
| "evidence_baseline Intent = f32_of_rat (84 / 100)"
| "evidence_baseline Context = f32_of_rat (78 / 100)"

primrec category_baseline :: "threat_category \<Rightarrow> f32" where
  "category_baseline RemoteExec = f32_of_rat (94 / 100)"
| "category_baseline CredentialExposure = f32_of_rat (94 / 100)"
| "category_baseline DataExfiltration = f32_of_rat (94 / 100)"
| "category_baseline SupplyChain = f32_of_rat (90 / 100)"
| "category_baseline PrivilegeEscalation = f32_of_rat (90 / 100)"
| "category_baseline UnsafeBinary = f32_of_rat (90 / 100)"
| "category_baseline PersistentPromptTampering = f32_of_rat (86 / 100)"
| "category_baseline ToolAbuse = f32_of_rat (86 / 100)"
| "category_baseline AutonomyEscalation = f32_of_rat (84 / 100)"
| "category_baseline ScopeCreep = f32_of_rat (84 / 100)"
| "category_baseline SocialManipulation = f32_of_rat (80 / 100)"
| "category_baseline PersuasiveLanguage = f32_of_rat (80 / 100)"
| "category_baseline Obfuscation = f32_of_rat (82 / 100)"
| "category_baseline Generic = f32_of_rat (76 / 100)"

text \<open>\<open>{:.2}\<close> of a float: the exact value to two decimals, ties to even.\<close>

fun f32_fmt2 :: "f32 \<Rightarrow> string" where
  "f32_fmt2 (Fin x) =
     (let n = nat (round_half_even (\<bar>x\<bar> * 100)) in
      (if x < 0 then ''-'' else []) @ digits_of (n div 100) @ ''.''
        @ digits_of (n mod 100 div 10) @ digits_of (n mod 10))"
| "f32_fmt2 PosInf = ''inf''"
| "f32_fmt2 NegInf = ''-inf''"
| "f32_fmt2 NaN = ''NaN''"

definition calibrated_baseline :: "evidence_kind \<Rightarrow> threat_category \<Rightarrow> f32" where
  "calibrated_baseline e c =
     f_clamp CONFIDENCE_FLOOR CONFIDENCE_CEILING
       (f_div_by (f_add (evidence_baseline e) (category_baseline c)) 2)"

definition calibrate_confidence :: "f32 \<Rightarrow> evidence_kind \<Rightarrow> threat_category \<Rightarrow> f32 \<times> string" where
  "calibrate_confidence raw e c =
     (let baseline = calibrated_baseline e c;
          calibrated = f_clamp CONFIDENCE_FLOOR CONFIDENCE_CEILING
            (f_add (f_mul raw CONFIDENCE_RAW_WEIGHT) (f_mul baseline CONFIDENCE_BASELINE_WEIGHT));
          rationale = ''Calibrated from raw '' @ f32_fmt2 raw
            @ '' using evidence='' @ evidence_kind_display e
            @ '' baseline '' @ f32_fmt2 (evidence_baseline e)
            @ '' and category='' @ threat_category_display c
            @ '' baseline '' @ f32_fmt2 (category_baseline c)
      in (calibrated, rationale))"

primrec remediation_base :: "threat_category \<Rightarrow> string" where
  "remediation_base RemoteExec = ''Eliminate remote execution paths or require verified hashes, pinned sources, and explicit human approval before running downloaded code.''"
| "remediation_base SupplyChain = ''Pin dependencies and artifacts, add lockfiles, and verify provenance before installation or execution.''"
| "remediation_base PersistentPromptTampering = ''Remove persistent instruction overrides, prevent writes to long-lived instruction files, and require explicit review for memory, prompt, or system-behavior changes.''"
| "remediation_base CredentialExposure = ''Move secrets to secure storage, rotate exposed credentials, and avoid embedding tokens in skills, manifests, or scripts.''"
| "remediation_base ToolAbuse = ''Restrict tool scopes to the minimum required, disable destructive tool paths by default, and require review before enabling filesystem, browser, shell, or admin-capable tools.''"
| "remediation_base AutonomyEscalation = ''Reduce autonomy, add approval gates for high-impact actions, and block self-approval, self-propagation, or unattended coordination workflows.''"
| "remediation_base PrivilegeEscalation = ''Remove privileged execution, host mounts, or elevated system access unless strictly required, isolated, and manually reviewed.''"
| "remediation_base DataExfiltration = ''Block outbound transfer of sensitive data, constrain network egress, and require explicit approval for external communication or uploads.''"
| "remediation_base PersuasiveLanguage = ''Treat manipulative language as a review signal, reject anti-safety framing, and require human validation before acting on urgent, coercive, or trust-bypassing instructions.''"
| "remediation_base SocialManipulation = ''Treat manipulative language as a review signal, reject anti-safety framing, and require human validation before acting on urgent, coercive, or trust-bypassing instructions.''"
| "remediation_base ScopeCreep = ''Reduce requested permissions and keep artifact capabilities aligned with the smallest operational scope.''"
| "remediation_base Obfuscation = ''Deobfuscate payloads before execution and require manual review for encoded or hidden behavior.''"
| "remediation_base UnsafeBinary = ''Validate binary origin, signatures, and integrity before execution.''"
| "remediation_base Generic = ''Review the artifact manually and tighten controls around execution, network access, and secrets.''"

fun join_with :: "string \<Rightarrow> string list \<Rightarrow> string" where
  "join_with sep [] = []"
| "join_with sep [x] = x"
| "join_with sep (x # y # ys) = x @ sep @ join_with sep (y # ys)"

definition default_remediation :: "threat_category \<Rightarrow> operational_context list \<Rightarrow> string" where
  "default_remediation c contexts =
     (let hint = (if contexts = [] then ''Primary operational context: review required.''
        else ''Primary operational contexts: ''
               @ join_with '', '' (map operational_context_display contexts) @ ''.'')
      in remediation_base c @ '' '' @ hint)"

section \<open>The builder\<close>

record finding_builder =
  b_rule_id :: string
  b_category :: threat_category
  b_severity :: severity
  b_confidence :: f32
  b_matched_on :: match_target
  b_match_value :: string
  b_reason :: string
  b_remediation :: string
  b_action :: recommended_action
  b_evidence_kind :: evidence_kind
  b_artifact_kind :: artifact_kind
  b_artifact_scope :: artifact_scope
  b_signal_class :: "signal_class option"
  b_artifact_path :: "string option"
  b_line_number :: "nat option"
  b_taxonomy_tags :: "taxonomy_tag list"
  b_action_explicit :: bool

definition DEFAULT_FINDING_CONFIDENCE :: f32 where
  "DEFAULT_FINDING_CONFIDENCE = f32_of_rat (9 / 10)"

definition builder_new :: "string \<Rightarrow> threat_category \<Rightarrow> finding_builder" where
  "builder_new rule c =
     \<lparr>b_rule_id = rule, b_category = c, b_severity = Medium,
      b_confidence = DEFAULT_FINDING_CONFIDENCE, b_matched_on = Document, b_match_value = [],
      b_reason = [], b_remediation = [], b_action = default_action Medium,
      b_evidence_kind = Behavior, b_artifact_kind = SkillDocument,
      b_artifact_scope = AgentEntrypoint, b_signal_class = None, b_artifact_path = None,
      b_line_number = None, b_taxonomy_tags = [], b_action_explicit = False\<rparr>"

datatype builder_op =
  Set_severity severity
  | Set_confidence f32
  | Set_matched_on match_target
  | Set_match_value string
  | Set_reason string
  | Set_remediation string
  | Set_action recommended_action
  | Set_evidence_kind evidence_kind
  | Set_artifact artifact_kind "string option"
  | Set_artifact_scope artifact_scope
  | Set_signal_class signal_class
  | Set_line nat
  | Set_taxonomy_tags "taxonomy_tag list"

fun builder_apply :: "finding_builder \<Rightarrow> builder_op \<Rightarrow> finding_builder" where
  "builder_apply b (Set_severity s) =
     (let b' = b\<lparr>b_severity := s\<rparr> in
      if \<not> b_action_explicit b then b'\<lparr>b_action := default_action s\<rparr> else b')"
| "builder_apply b (Set_confidence x) =
     (if \<not> f_is_nan x then b\<lparr>b_confidence := f_clamp (Fin 0) (Fin 1) x\<rparr> else b)"
| "builder_apply b (Set_matched_on m) = b\<lparr>b_matched_on := m\<rparr>"
| "builder_apply b (Set_match_value v) = b\<lparr>b_match_value := v\<rparr>"
| "builder_apply b (Set_reason r) = b\<lparr>b_reason := r\<rparr>"
| "builder_apply b (Set_remediation r) = b\<lparr>b_remediation := r\<rparr>"
| "builder_apply b (Set_action a) = b\<lparr>b_action := a, b_action_explicit := True\<rparr>"
| "builder_apply b (Set_evidence_kind e) = b\<lparr>b_evidence_kind := e\<rparr>"
| "builder_apply b (Set_artifact k p) =
     b\<lparr>b_artifact_kind := k, b_artifact_scope := artifact_scope_for_kind k, b_artifact_path := p\<rparr>"
| "builder_apply b (Set_artifact_scope s) = b\<lparr>b_artifact_scope := s\<rparr>"
| "builder_apply b (Set_signal_class s) = b\<lparr>b_signal_class := Some s\<rparr>"
| "builder_apply b (Set_line n) = b\<lparr>b_line_number := Some n\<rparr>"
| "builder_apply b (Set_taxonomy_tags ts) = b\<lparr>b_taxonomy_tags := ts\<rparr>"

definition build :: "finding_builder \<Rightarrow> finding" where
  "build b =
     (let contexts = default_operational_contexts (b_category b) (b_artifact_kind b);
          (conf, rationale) = calibrate_confidence (b_confidence b) (b_evidence_kind b) (b_category b);
          sc = (case b_signal_class b of Some s \<Rightarrow> s | None \<Rightarrow> signal_class_for (b_category b))
      in \<lparr>rule_id = b_rule_id b, category = b_category b, f_severity = b_severity b,
          confidence = conf, raw_confidence = b_confidence b, confidence_rationale = rationale,
          matched_on = b_matched_on b, match_value = b_match_value b, reason = b_reason b,
          remediation = (if b_remediation b = [] then default_remediation (b_category b) contexts
                         else b_remediation b),
          f_action = b_action b, f_evidence_kind = b_evidence_kind b,
          f_artifact_kind = b_artifact_kind b, f_artifact_scope = b_artifact_scope b,
          f_signal_class = sc, artifact_path = b_artifact_path b,
          operational_contexts = contexts, taxonomy_tags = b_taxonomy_tags b,
          user_taxonomy = [], line_number = b_line_number b, suppression = None\<rparr>)"

definition build_with :: "string \<Rightarrow> threat_category \<Rightarrow> builder_op list \<Rightarrow> finding" where
  "build_with rule c ops = build (foldl builder_apply (builder_new rule c) ops)"

text \<open>Updates of a finished finding.\<close>

definition with_line :: "nat \<Rightarrow> finding \<Rightarrow> finding" where
  "with_line n f = f\<lparr>line_number := Some n\<rparr>"

definition with_artifact :: "artifact_kind \<Rightarrow> string \<Rightarrow> finding \<Rightarrow> finding" where
  "with_artifact k p f =
     f\<lparr>f_artifact_kind := k, f_artifact_scope := artifact_scope_for_kind k, artifact_path := Some p\<rparr>"

definition with_match_target :: "match_target \<Rightarrow> finding \<Rightarrow> finding" where
  "with_match_target m f = f\<lparr>matched_on := m\<rparr>"

definition weighted_score :: "finding \<Rightarrow> f32" where
  "weighted_score f =
     f_mul (f_mul (f_of_nat (severity_weight (f_severity f))) (confidence f))
       (signal_weight (f_signal_class f))"

section \<open>Conclusive evidence\<close>

definition REMOTE_EXEC_LITERAL_INDICATORS :: "string list" where
  "REMOTE_EXEC_LITERAL_INDICATORS =
    [''http://'', ''https://'', ''fetch('', ''requests.get'', ''urllib.request.urlopen'',
     ''invoke-webrequest'']"

definition REMOTE_EXEC_COMMAND_INDICATORS :: "string list" where
  "REMOTE_EXEC_COMMAND_INDICATORS = [''curl'', ''wget'', ''iwr'']"

definition SENSITIVE_PAYLOAD_KEYWORDS :: "string list" where
  "SENSITIVE_PAYLOAD_KEYWORDS = [''cookie'', ''token'', ''secret'', ''session'']"

definition TRANSMIT_VERBS :: "string list" where
  "TRANSMIT_VERBS = [''send'', ''post'', ''upload'', ''forward'', ''exfiltrate'']"

definition EXFIL_CHANNELS :: "string list" where
  "EXFIL_CHANNELS =
    [''discord.com/api/webhooks'', ''api.telegram.org/bot'', ''smtp.'', ''sendgrid'', ''mailgun'']"

definition command_left_ok :: "string \<Rightarrow> nat \<Rightarrow> bool" where
  "command_left_ok s i \<longleftrightarrow>
     i = 0 \<or> (let ch = s ! (i - 1) in ascii_whitespace_byte ch \<or> ch \<in> {CHR ''|'', CHR '';'', CHR ''&'', CHR ''/'', CHR 0x5C, CHR ''(''})"

definition command_right_ok :: "string \<Rightarrow> nat \<Rightarrow> bool" where
  "command_right_ok s j \<longleftrightarrow>
     length s \<le> j \<or> (let ch = s ! j in ascii_whitespace_byte ch \<or> ch \<in> set ''|;&><()'')"

definition value_contains_command_token :: "string \<Rightarrow> string \<Rightarrow> bool" where
  "value_contains_command_token s token =
     scan_occurrences (\<lambda>i. command_left_ok s i \<and> command_right_ok s (i + length token)) s token 0"

definition has_remote_exec_indicator :: "string \<Rightarrow> bool" where
  "has_remote_exec_indicator v \<longleftrightarrow>
     list_ex (str_contains v) REMOTE_EXEC_LITERAL_INDICATORS
     \<or> list_ex (value_contains_command_token v) REMOTE_EXEC_COMMAND_INDICATORS"

definition evidence_matches_category :: "finding \<Rightarrow> string \<Rightarrow> bool" where
  "evidence_matches_category f v =
     (let has_remote_indicator = has_remote_exec_indicator v;
          has_sensitive_payload = list_ex (str_contains v) SENSITIVE_PAYLOAD_KEYWORDS;
          has_transmit_verb = list_ex (str_contains v) TRANSMIT_VERBS;
          has_exfil_channel = list_ex (str_contains v) EXFIL_CHANNELS
      in case category f of
           RemoteExec \<Rightarrow> has_remote_indicator
         | DataExfiltration \<Rightarrow> (has_sensitive_payload \<and> has_transmit_verb) \<or> has_exfil_channel
         | PersistentPromptTampering \<Rightarrow> True
         | CredentialExposure \<Rightarrow> True
         | PrivilegeEscalation \<Rightarrow> True
         | SupplyChain \<Rightarrow> has_remote_indicator \<or> has_transmit_verb
         | Obfuscation \<Rightarrow> True
         | UnsafeBinary \<Rightarrow> True
         | _ \<Rightarrow> False)"

definition is_conclusive_malicious_evidence :: "finding \<Rightarrow> bool" where
  "is_conclusive_malicious_evidence f =
     (if f_artifact_scope f \<noteq> SupportingArtifact \<or> f_signal_class f \<noteq> MaliciousBehavior
         \<or> f_action f \<noteq> Block then False
      else case matched_on f of
             CodeBlock _ \<Rightarrow> evidence_matches_category f (to_ascii_lowercase (match_value f))
           | ReferencedFile _ \<Rightarrow> evidence_matches_category f (to_ascii_lowercase (match_value f))
           | _ \<Rightarrow> False)"

lemma conclusive_evidence_is_malicious_block:
  "is_conclusive_malicious_evidence f
     \<Longrightarrow> f_artifact_scope f = SupportingArtifact \<and> f_signal_class f = MaliciousBehavior \<and> f_action f = Block"
  by (auto simp: is_conclusive_malicious_evidence_def split: if_splits)

section \<open>Range of a built confidence\<close>

definition unit_f32 :: "f32 \<Rightarrow> bool" where
  "unit_f32 x \<longleftrightarrow> (\<exists>y. x = Fin y \<and> 0 \<le> y \<and> y \<le> 1 \<and> representable y)"

lemma f32_of_rat_le_nat:
  assumes "0 \<le> q" "q \<le> of_nat n" "n \<le> 2 ^ 24"
  shows "\<exists>y. f32_of_rat q = Fin y \<and> 0 \<le> y \<and> y \<le> of_nat n \<and> representable y"
proof -
  have "rnd q \<le> of_nat n" using rnd_mono [OF assms(2)] rnd_of_nat [OF assms(3)] by simp
  moreover have "0 \<le> rnd q" using assms(1) by (rule rnd_nonneg)
  moreover have "(of_nat n :: rat) \<le> 2 ^ 24" using assms(3) by (metis of_nat_le_iff of_nat_numeral of_nat_power)
  ultimately show ?thesis
    using representable_rnd_nonneg [OF assms(1)] by (simp add: f32_of_rat_def Let_def)
qed

lemma unit_f32_literal: "0 \<le> q \<Longrightarrow> q \<le> 1 \<Longrightarrow> unit_f32 (f32_of_rat q)"
  using f32_of_rat_le_nat [of q 1] by (simp add: unit_f32_def)

lemma unit_f32_score: "unit_f32 x \<Longrightarrow> f_score x"
  by (auto simp: unit_f32_def)

lemma evidence_baseline_unit: "unit_f32 (evidence_baseline e)"
  by (cases e) (simp_all add: unit_f32_literal)

lemma category_baseline_unit: "unit_f32 (category_baseline c)"
  by (cases c) (simp_all add: unit_f32_literal)

lemma signal_weight_unit: "unit_f32 (signal_weight s)"
  by (cases s) (simp_all add: unit_f32_literal)

lemma calibration_constants_unit:
  "unit_f32 CONFIDENCE_RAW_WEIGHT" "unit_f32 CONFIDENCE_BASELINE_WEIGHT"
  "unit_f32 CONFIDENCE_FLOOR" "unit_f32 CONFIDENCE_CEILING" "unit_f32 DEFAULT_FINDING_CONFIDENCE"
  by (simp_all add: CONFIDENCE_RAW_WEIGHT_def CONFIDENCE_BASELINE_WEIGHT_def CONFIDENCE_FLOOR_def
      CONFIDENCE_CEILING_def DEFAULT_FINDING_CONFIDENCE_def unit_f32_literal)

lemma confidence_floor_le_ceiling: "f_le CONFIDENCE_FLOOR CONFIDENCE_CEILING"
proof -
  have "representable (rnd (1 / 10))" "rnd (1 / 10) \<le> rnd (99 / 100)"
    by (simp_all add: representable_rnd_nonneg rnd_mono)
  then show ?thesis using calibration_constants_unit(3,4)
    by (auto simp: CONFIDENCE_FLOOR_def CONFIDENCE_CEILING_def f32_of_rat_def Let_def unit_f32_def
        f_le_def f_is_nan_def split: if_splits)
qed

lemma clamp_confidence:
  assumes "f_score x" 
  shows "unit_f32 (f_clamp CONFIDENCE_FLOOR CONFIDENCE_CEILING x)
    \<and> f_le CONFIDENCE_FLOOR (f_clamp CONFIDENCE_FLOOR CONFIDENCE_CEILING x)
    \<and> f_le (f_clamp CONFIDENCE_FLOOR CONFIDENCE_CEILING x) CONFIDENCE_CEILING"
proof -
  obtain lo hi where c: "CONFIDENCE_FLOOR = Fin lo" "CONFIDENCE_CEILING = Fin hi"
    "0 \<le> lo" "hi \<le> 1" "representable lo" "representable hi"
    using calibration_constants_unit(3,4) by (auto simp: unit_f32_def)
  have le: "lo \<le> hi" using confidence_floor_le_ceiling by (simp add: c f_le_def)
  obtain x' where x: "x = PosInf \<or> x = Fin x' \<and> 0 \<le> x' \<and> representable x'"
    using assms by (cases x) auto
  have "lo \<le> 1" "0 \<le> hi" using c(3,4) le by simp_all
  then show ?thesis unfolding c(1,2) using x c(3-6) le
    by (auto simp: f_clamp_def Let_def unit_f32_def f_le_def f_is_nan_def)
qed

lemma unit_mul: "0 \<le> x \<Longrightarrow> x \<le> 1 \<Longrightarrow> unit_f32 w \<Longrightarrow> unit_f32 (f_mul (Fin x) w)"
  by (auto simp: unit_f32_def intro!: unit_f32_literal [unfolded unit_f32_def] mult_le_one)

lemma unit_add_score: "unit_f32 a \<Longrightarrow> unit_f32 b \<Longrightarrow> f_score (f_add a b)"
  by (simp add: f_add_score unit_f32_score)

lemma calibrated_baseline_unit: "unit_f32 (calibrated_baseline e c)"
proof -
  obtain a b where ab: "evidence_baseline e = Fin a" "category_baseline c = Fin b"
    "0 \<le> a" "a \<le> 1" "0 \<le> b" "b \<le> 1"
    using evidence_baseline_unit [of e] category_baseline_unit [of c] by (auto simp: unit_f32_def)
  then obtain y where "f32_of_rat (a + b) = Fin y" "0 \<le> y"
    using f32_of_rat_le_nat [of "a + b" 2] by auto
  then have "f_score (f_div_by (f_add (evidence_baseline e) (category_baseline c)) 2)"
    using ab by (simp add: f32_of_rat_score)
  then show ?thesis unfolding calibrated_baseline_def by (simp add: clamp_confidence)
qed

lemma calibrate_confidence_range:
  assumes "0 \<le> x" "x \<le> 1"
  shows "unit_f32 (fst (calibrate_confidence (Fin x) e c))
    \<and> f_le CONFIDENCE_FLOOR (fst (calibrate_confidence (Fin x) e c))
    \<and> f_le (fst (calibrate_confidence (Fin x) e c)) CONFIDENCE_CEILING"
proof -
  have "unit_f32 (f_mul (Fin x) CONFIDENCE_RAW_WEIGHT)"
    using assms calibration_constants_unit(1) by (rule unit_mul)
  moreover have "unit_f32 (f_mul (calibrated_baseline e c) CONFIDENCE_BASELINE_WEIGHT)"
    using calibrated_baseline_unit [of e c] calibration_constants_unit(2) unit_mul
    by (auto simp: unit_f32_def [of "calibrated_baseline e c"])
  ultimately show ?thesis
    unfolding calibrate_confidence_def Let_def fst_conv by (intro clamp_confidence unit_add_score)
qed

text \<open>The builder keeps its raw confidence a number between 0 and 1.\<close>

lemma builder_confidence_invariant:
  "\<exists>x. b_confidence b = Fin x \<and> 0 \<le> x \<and> x \<le> 1
     \<Longrightarrow> \<exists>x. b_confidence (foldl builder_apply b ops) = Fin x \<and> 0 \<le> x \<and> x \<le> 1"
proof (induction ops arbitrary: b)
  case (Cons op ops)
  have "\<exists>x. b_confidence (builder_apply b op) = Fin x \<and> 0 \<le> x \<and> x \<le> 1"
    using Cons.prems f_clamp_bounds [of 0 1] by (cases op) (auto simp: Let_def)
  then show ?case using Cons.IH by simp
qed simp

lemma builder_new_confidence: "\<exists>x. b_confidence (builder_new r c) = Fin x \<and> 0 \<le> x \<and> x \<le> 1"
  using calibration_constants_unit(5) by (auto simp: builder_new_def unit_f32_def)

lemma confidence_build: 
  "confidence (build b) = fst (calibrate_confidence (b_confidence b) (b_evidence_kind b) (b_category b))"
  by (simp add: build_def Let_def split: prod.splits)

lemma raw_confidence_build: "raw_confidence (build b) = b_confidence b"
  by (simp add: build_def Let_def split: prod.splits)

lemma action_build: "f_action (build b) = b_action b"
  by (simp add: build_def Let_def split: prod.splits)

lemma builder_new_fields [simp]:
  "b_action (builder_new r c) = default_action Medium" "b_severity (builder_new r c) = Medium"
  "b_action_explicit (builder_new r c) = False"
  by (simp_all add: builder_new_def)

lemma build_with_confidence:
  "unit_f32 (confidence (build_with r c ops))
   \<and> f_le CONFIDENCE_FLOOR (confidence (build_with r c ops))
   \<and> f_le (confidence (build_with r c ops)) CONFIDENCE_CEILING
   \<and> (\<exists>x. raw_confidence (build_with r c ops) = Fin x \<and> 0 \<le> x \<and> x \<le> 1)"
proof -
  obtain x where x: "b_confidence (foldl builder_apply (builder_new r c) ops) = Fin x" "0 \<le> x" "x \<le> 1"
    using builder_confidence_invariant [OF builder_new_confidence] by blast
  then show ?thesis
    using calibrate_confidence_range [OF x(2,3)]
    by (simp add: build_with_def confidence_build raw_confidence_build)
qed

lemma severity_weight_le: "severity_weight s \<le> 90"
  by (cases s) simp_all

lemma weighted_score_unit:
  assumes "unit_f32 (confidence f)"
  shows "f_score (weighted_score f)"
proof -
  obtain y where y: "confidence f = Fin y" "0 \<le> y" "y \<le> 1" "representable y"
    using assms by (auto simp: unit_f32_def)
  obtain w where w: "f_of_nat (severity_weight (f_severity f)) = Fin w" "0 \<le> w" "w \<le> 90"
    using f32_of_rat_le_nat [of "of_nat (severity_weight (f_severity f))" 90] severity_weight_le [of "f_severity f"]
    by (auto simp: f_of_nat_def)
  have "w * y \<le> 90 * 1" using w y by (intro mult_mono) auto
  then obtain z where z: "f32_of_rat (w * y) = Fin z" "0 \<le> z" "representable z"
    using f32_of_rat_le_nat [of "w * y" 90] w y by auto
  obtain s where s: "signal_weight (f_signal_class f) = Fin s" "f_score (Fin s)"
    using signal_weight_unit [of "f_signal_class f"] by (auto simp: unit_f32_def)
  show ?thesis using w y z s by (auto simp: weighted_score_def intro!: f32_of_rat_score)
qed

text \<open>The recommended action: the last explicit one, or else the default of the last severity.\<close>

fun last_action :: "builder_op list \<Rightarrow> recommended_action option" where
  "last_action [] = None"
| "last_action (Set_action a # ops) = (case last_action ops of None \<Rightarrow> Some a | Some x \<Rightarrow> Some x)"
| "last_action (_ # ops) = last_action ops"

fun last_severity :: "severity \<Rightarrow> builder_op list \<Rightarrow> severity" where
  "last_severity s [] = s"
| "last_severity s (Set_severity t # ops) = last_severity t ops"
| "last_severity s (_ # ops) = last_severity s ops"

lemma builder_action_fold:
  "\<not> b_action_explicit b \<longrightarrow> b_action b = default_action (b_severity b)
   \<Longrightarrow> b_action (foldl builder_apply b ops)
      = (case last_action ops of Some a \<Rightarrow> a
         | None \<Rightarrow> if b_action_explicit b then b_action b
                   else default_action (last_severity (b_severity b) ops))
     \<and> b_severity (foldl builder_apply b ops) = last_severity (b_severity b) ops"
proof (induction ops arbitrary: b)
  case (Cons op ops)
  show ?case
    using Cons.prems by (cases op) (auto simp: Let_def Cons.IH split: option.splits)
qed simp

section \<open>A finding for concrete instances\<close>

definition example_finding ::
  "string \<Rightarrow> threat_category \<Rightarrow> artifact_scope \<Rightarrow> signal_class \<Rightarrow> recommended_action \<Rightarrow> finding" where
  "example_finding r c s sc a =
     \<lparr>rule_id = r, category = c, f_severity = High, confidence = Fin 1, raw_confidence = Fin 1,
      confidence_rationale = [], matched_on = Document, match_value = ''x'', reason = [],
      remediation = [], f_action = a, f_evidence_kind = Behavior, f_artifact_kind = SkillDocument,
      f_artifact_scope = s, f_signal_class = sc, artifact_path = None, operational_contexts = [],
      taxonomy_tags = [], user_taxonomy = [], line_number = None, suppression = None\<rparr>"

lemma example_finding_fields [simp]:
  "rule_id (example_finding r c s sc a) = r" "category (example_finding r c s sc a) = c"
  "f_artifact_scope (example_finding r c s sc a) = s" "f_signal_class (example_finding r c s sc a) = sc"
  "f_action (example_finding r c s sc a) = a" "f_severity (example_finding r c s sc a) = High"
  "confidence (example_finding r c s sc a) = Fin 1" "match_value (example_finding r c s sc a) = ''x''"
  "matched_on (example_finding r c s sc a) = Document" "artifact_path (example_finding r c s sc a) = None"
  "f_artifact_kind (example_finding r c s sc a) = SkillDocument"
  "suppression (example_finding r c s sc a) = None" "line_number (example_finding r c s sc a) = None"
  by (simp_all add: example_finding_def)

lemma unit_f32_one: "unit_f32 (Fin 1)"
  using rnd_of_nat [of 1] by (simp add: unit_f32_def representable_def)

section \<open>Properties of the builder\<close>

text \<open>Whatever chain of calls builds a finding, its confidence is a number between the calibration
  floor and ceiling and its raw confidence a number in [0, 1]: no NaN or infinity leaves the builder.\<close>

theorem built_confidence_range:
  "f_le CONFIDENCE_FLOOR (confidence (build_with r c ops))
   \<and> f_le (confidence (build_with r c ops)) CONFIDENCE_CEILING
   \<and> unit_f32 (confidence (build_with r c ops))
   \<and> (\<exists>x. raw_confidence (build_with r c ops) = Fin x \<and> 0 \<le> x \<and> x \<le> 1)"
  using build_with_confidence by blast

text \<open>The recommended action of a built finding is the last one set explicitly; without one it is the
  default of the last severity, in whatever order action and severity were set.\<close>

theorem built_action:
  "f_action (build_with r c ops) =
     (case last_action ops of Some a \<Rightarrow> a | None \<Rightarrow> default_action (last_severity Medium ops))"
  using builder_action_fold [of "builder_new r c" ops]
  unfolding build_with_def action_build builder_new_fields by simp

end
