(* ===== verification/Nova_Engine.thy ===== *)
theory Nova_Engine
  imports Nova_Rules Builder
begin

text \<open>
  Running NOVA rules: confusable normalisation (\<open>nova/unicode.rs\<close>), the section evaluators
  (\<open>nova/evaluators.rs\<close>), the engine (\<open>nova/engine.rs\<close>) and the mapping of a match to findings
  (\<open>nova/mapping.rs\<close>).

  NFKC normalisation, the regex engine and the three evaluators the caller brings are
  parameters; the bundled evaluators are definitions. The regex cache only saves recompilation
  and is not modelled.
\<close>

section \<open>Confusable normalisation\<close>

text \<open>The code point of a character given by its UTF-8 bytes.\<close>

definition char_code :: "string \<Rightarrow> nat" where
  "char_code ch =
     (case map byte_of ch of
        [a] \<Rightarrow> a
      | [a, b] \<Rightarrow> (a - 192) * 64 + (b - 128)
      | [a, b, c] \<Rightarrow> (a - 224) * 4096 + (b - 128) * 64 + (c - 128)
      | [a, b, c, d] \<Rightarrow> (a - 240) * 262144 + (b - 128) * 4096 + (c - 128) * 64 + (d - 128)
      | _ \<Rightarrow> 0)"

definition confusables :: "(nat list \<times> string) list" where
  "confusables =
    [([0x0430], ''a''), ([0x0435], ''e''), ([0x043e], ''o''), ([0x0440], ''p''), ([0x0441], ''c''),
     ([0x0445], ''x''), ([0x0443], ''y''), ([0x0456], ''i''), ([0x0458], ''j''), ([0x0455], ''s''),
     ([0x04bb], ''h''), ([0x0501], ''d''), ([0x0261], ''g''), ([0x03bd], ''v''),
     ([0x0410, 0x0391], ''A''), ([0x0415, 0x0395], ''E''), ([0x041e, 0x039f], ''O''),
     ([0x0420, 0x03a1], ''P''), ([0x0421], ''C''), ([0x0422, 0x03a4], ''T''),
     ([0x0425, 0x03a7], ''X''), ([0x0423, 0x03a5], ''Y''), ([0x041c, 0x039c], ''M''),
     ([0x041d, 0x0397], ''H''), ([0x0412, 0x0392], ''B''), ([0x041a, 0x039a], ''K''),
     ([0x0406, 0x0399], ''I''), ([0x039d], ''N''), ([0x0396], ''Z''), ([0x03bf], ''o''),
     ([0x03b1], ''a''),
     ([0x200b, 0x200c, 0x200d, 0x200e, 0x200f, 0xfeff, 0x00ad, 0x2060, 0x2061, 0x2062, 0x2063, 0x2064], []),
     ([0x2113], ''l''), ([0x212c], ''B''), ([0x2130], ''E''), ([0x2131], ''F''), ([0x2133], ''M''),
     ([0x211b], ''R''), ([0x212e], ''e''), ([0x2170], ''i''), ([0x2171], ''ii''),
     ([0x2010, 0x2011, 0x2012, 0x2013, 0x2014, 0x2015], ''-'')]"

definition confusable_replacement :: "string \<Rightarrow> string option" where
  "confusable_replacement ch = map_option snd (find (\<lambda>e. char_code ch \<in> set (fst e)) confusables)"

definition normalize_for_matching :: "(string \<Rightarrow> string) \<Rightarrow> string \<Rightarrow> string" where
  "normalize_for_matching nfkc input =
     concat (map (\<lambda>ch. case confusable_replacement ch of Some r \<Rightarrow> r | None \<Rightarrow> ch) (str_chars (nfkc input)))"

section \<open>Evaluators\<close>

datatype outcome = Match f32 | NoMatch | Skipped

definition fired :: "outcome \<Rightarrow> bool" where
  "fired o' \<longleftrightarrow> (case o' of Match _ \<Rightarrow> True | _ \<Rightarrow> False)"

definition outcome_score :: "outcome \<Rightarrow> f32 option" where
  "outcome_score o' = (case o' of Match s \<Rightarrow> Some s | _ \<Rightarrow> None)"

type_synonym keyword_evaluator = "string \<Rightarrow> keyword_pattern \<Rightarrow> string \<Rightarrow> outcome"
type_synonym threshold_evaluator = "string \<Rightarrow> threshold_pattern \<Rightarrow> string \<Rightarrow> outcome"

text \<open>
  \<open>NativeKeywordEvaluator\<close>; \<open>rx p cs\<close> is the compiled expression as a predicate on bodies, or
  \<open>None\<close> when it does not build.
\<close>

definition native_keyword_eval ::
  "(string \<Rightarrow> bool \<Rightarrow> (string \<Rightarrow> bool) option) \<Rightarrow> keyword_evaluator" where
  "native_keyword_eval rx var p body =
     (if kp_is_regex p then
        (case rx (kp_pattern p) (kp_case_sensitive p) of
           Some is_match \<Rightarrow> if is_match body then Match (Fin 1) else NoMatch
         | None \<Rightarrow> NoMatch)
      else if kp_case_sensitive p then
        (if str_contains body (kp_pattern p) then Match (Fin 1) else NoMatch)
      else if str_contains (to_ascii_lowercase body) (to_ascii_lowercase (kp_pattern p))
        then Match (Fin 1)
      else NoMatch)"

definition not_yet_wired :: threshold_evaluator where
  "not_yet_wired var p body = Skipped"

section \<open>Engine\<close>

datatype skipped_capability = SkippedSemantics | SkippedLlm

record nova_match =
  nm_rule_name :: string
  nm_matched :: bool
  nm_keyword_hits :: hit_map
  nm_semantic_hits :: hit_map
  nm_llm_hits :: hit_map
  nm_semantic_scores :: "(string \<times> f32) list"
  nm_llm_scores :: "(string \<times> f32) list"
  nm_skipped :: "skipped_capability list"

record engine_state =
  es_ctx :: eval_context
  es_keyword_hits :: hit_map
  es_semantic_hits :: hit_map
  es_llm_hits :: hit_map
  es_semantic_scores :: "(string \<times> f32) list"
  es_llm_scores :: "(string \<times> f32) list"
  es_skipped :: "skipped_capability list"
  es_skipped_refs :: skipped_refs

definition engine_start :: engine_state where
  "engine_start =
     \<lparr>es_ctx = \<lparr>ctx_keywords = [], ctx_semantics = [], ctx_llm = []\<rparr>, es_keyword_hits = [],
      es_semantic_hits = [], es_llm_hits = [], es_semantic_scores = [], es_llm_scores = [],
      es_skipped = [], es_skipped_refs = no_skips\<rparr>"

text \<open>The bodies of the three loops over the patterns of a rule.\<close>

definition keyword_step :: "keyword_evaluator \<Rightarrow> string \<Rightarrow> engine_state \<Rightarrow> string \<times> keyword_pattern \<Rightarrow> engine_state" where
  "keyword_step ev body st e =
     (let o' = ev (fst e) (snd e) body; c = es_ctx st in
      st\<lparr>es_ctx := c\<lparr>ctx_keywords := bt_insert (fst e) (fired o') (ctx_keywords c)\<rparr>,
         es_keyword_hits := bt_insert (fst e) (fired o') (es_keyword_hits st)\<rparr>)"

definition semantic_step :: "threshold_evaluator \<Rightarrow> string \<Rightarrow> engine_state \<Rightarrow> string \<times> threshold_pattern \<Rightarrow> engine_state" where
  "semantic_step ev body st e =
     (let o' = ev (fst e) (snd e) body; c = es_ctx st in
      st\<lparr>es_skipped := (if o' = Skipped \<and> SkippedSemantics \<notin> set (es_skipped st)
                         then es_skipped st @ [SkippedSemantics] else es_skipped st),
         es_skipped_refs := (if o' = Skipped then skip_insert (es_skipped_refs st) Semantics (fst e)
                              else es_skipped_refs st),
         es_ctx := c\<lparr>ctx_semantics := bt_insert (fst e) (fired o') (ctx_semantics c)\<rparr>,
         es_semantic_hits := bt_insert (fst e) (fired o') (es_semantic_hits st),
         es_semantic_scores := (case outcome_score o' of
             Some s \<Rightarrow> bt_insert (fst e) s (es_semantic_scores st) | None \<Rightarrow> es_semantic_scores st)\<rparr>)"

definition llm_step :: "threshold_evaluator \<Rightarrow> string \<Rightarrow> engine_state \<Rightarrow> string \<times> threshold_pattern \<Rightarrow> engine_state" where
  "llm_step ev body st e =
     (let o' = ev (fst e) (snd e) body; c = es_ctx st in
      st\<lparr>es_skipped := (if o' = Skipped \<and> SkippedLlm \<notin> set (es_skipped st)
                         then es_skipped st @ [SkippedLlm] else es_skipped st),
         es_skipped_refs := (if o' = Skipped then skip_insert (es_skipped_refs st) Llm (fst e)
                              else es_skipped_refs st),
         es_ctx := c\<lparr>ctx_llm := bt_insert (fst e) (fired o') (ctx_llm c)\<rparr>,
         es_llm_hits := bt_insert (fst e) (fired o') (es_llm_hits st),
         es_llm_scores := (case outcome_score o' of
             Some s \<Rightarrow> bt_insert (fst e) s (es_llm_scores st) | None \<Rightarrow> es_llm_scores st)\<rparr>)"

definition run_sections ::
  "nova_rule \<Rightarrow> string \<Rightarrow> keyword_evaluator \<Rightarrow> threshold_evaluator \<Rightarrow> threshold_evaluator \<Rightarrow> engine_state" where
  "run_sections r body kw sem llm =
     foldl (llm_step llm body)
       (foldl (semantic_step sem body)
         (foldl (keyword_step kw body) engine_start (nr_keywords r))
         (nr_semantics r))
       (nr_llm r)"

definition evaluate_rule ::
  "(string \<Rightarrow> string) \<Rightarrow> nova_rule \<Rightarrow> string \<Rightarrow> keyword_evaluator \<Rightarrow> threshold_evaluator \<Rightarrow> threshold_evaluator
     \<Rightarrow> eval_error + nova_match"
where
  "evaluate_rule nfkc r body kw sem llm =
     (let st = run_sections r (normalize_for_matching nfkc body) kw sem llm in
      and_then (eval_with_skips (nr_condition r) (es_ctx st) (es_skipped_refs st)) (\<lambda>matched.
      Inr \<lparr>nm_rule_name = nr_name r, nm_matched = matched,
           nm_keyword_hits = es_keyword_hits st, nm_semantic_hits = es_semantic_hits st,
           nm_llm_hits = es_llm_hits st, nm_semantic_scores = es_semantic_scores st,
           nm_llm_scores = es_llm_scores st, nm_skipped = es_skipped st\<rparr>))"

section \<open>Findings of a match\<close>

definition severity_from_meta :: "string option \<Rightarrow> severity" where
  "severity_from_meta label =
     (case map_option to_ascii_lowercase label of
        None \<Rightarrow> Medium
      | Some l \<Rightarrow>
          if l = ''critical'' then Critical
          else if l = ''high'' then High
          else if l \<in> {''low'', ''info'', ''informational''} then Low
          else Medium)"

text \<open>\<open>split('/').next()\<close> and \<open>rsplit('/').next()\<close>.\<close>

definition path_bucket :: "string \<Rightarrow> string" where
  "path_bucket s = takeWhile (\<lambda>c. c \<noteq> CHR ''/'') s"

definition path_leaf :: "string \<Rightarrow> string" where
  "path_leaf s = rev (takeWhile (\<lambda>c. c \<noteq> CHR ''/'') (rev s))"

definition category_from_meta :: "string option \<Rightarrow> threat_category" where
  "category_from_meta label =
     (case label of
        None \<Rightarrow> Generic
      | Some raw \<Rightarrow>
          (let lower = to_ascii_lowercase raw; leaf = path_leaf lower in
           if leaf \<in> {''remote_exec'', ''remote_execution''} then RemoteExec
           else if leaf = ''supply_chain'' then SupplyChain
           else if leaf \<in> {''credential_exposure'', ''credentials'', ''secret_disclosure''} then CredentialExposure
           else if leaf \<in> {''tool_abuse'', ''tool_misuse'', ''agentic_misuse''} then ToolAbuse
           else if leaf = ''autonomy_escalation'' then AutonomyEscalation
           else if leaf = ''privilege_escalation'' then PrivilegeEscalation
           else if leaf \<in> {''data_exfiltration'', ''exfiltration'', ''exfil''} then DataExfiltration
           else if leaf \<in> {''social_engineering'', ''social_manipulation'', ''phishing'', ''scam''} then SocialManipulation
           else if leaf \<in> {''obfuscation'', ''obfuscated'', ''evasion''} then Obfuscation
           else if leaf \<in> {''jailbreak'', ''direct_injection'', ''prompt_injection'', ''prompt_manipulation'', ''policy_puppetry''}
             then PersistentPromptTampering
           else if leaf \<in> {''persuasion'', ''persuasive_language''} then PersuasiveLanguage
           else let bucket = path_bucket lower in
             if bucket = ''abusing_functions'' then ToolAbuse
             else if bucket = ''prompt_manipulation'' then PersistentPromptTampering
             else if bucket = ''supply_chain'' then SupplyChain
             else Generic))"

record finding_ctx =
  fc_rule :: nova_rule
  fc_severity :: severity
  fc_category :: threat_category
  fc_artifact_kind :: artifact_kind
  fc_artifact_scope :: artifact_scope
  fc_path :: "string option"

definition finding_ops :: "finding_ctx \<Rightarrow> nova_section \<Rightarrow> string \<Rightarrow> f32 \<Rightarrow> builder_op list" where
  "finding_ops ctx s var conf =
     (let r = fc_rule ctx; sd = section_display s;
          reason = (case map_of (nr_meta r) ''description'' of
                      Some d \<Rightarrow> d
                    | None \<Rightarrow> ''NOVA rule `'' @ nr_name r @ ''` matched on `'' @ sd @ ''.$'' @ var @ ''`'')
      in [Set_severity (fc_severity ctx), Set_confidence conf, Set_reason reason, Set_matched_on Document,
          Set_match_value (''nova:'' @ sd @ ''.$'' @ var), Set_evidence_kind Behavior,
          Set_artifact (fc_artifact_kind ctx) (fc_path ctx), Set_artifact_scope (fc_artifact_scope ctx),
          Set_signal_class ReviewSignal, Set_action RequireApproval]
         @ (case map_of (nr_meta r) ''uuid'' of
              Some uuid \<Rightarrow>
                [Set_remediation (''See NOVA rule `'' @ nr_name r @ ''` (uuid '' @ uuid
                   @ ''). Consult github.com/Nova-Hunting/nova-rules.'')]
            | None \<Rightarrow> []))"

definition make_finding :: "finding_ctx \<Rightarrow> nova_section \<Rightarrow> string \<Rightarrow> f32 \<Rightarrow> finding" where
  "make_finding ctx s var conf =
     build_with (''NOVA_'' @ nr_name (fc_rule ctx) @ ''_'' @ section_display s @ ''_'' @ var) (fc_category ctx)
       (finding_ops ctx s var conf)"

definition hit_confidence :: "(string \<times> f32) list \<Rightarrow> (string \<times> threshold_pattern) list \<Rightarrow> string \<Rightarrow> f32" where
  "hit_confidence scores patterns var =
     (case map_of scores var of
        Some s \<Rightarrow> s
      | None \<Rightarrow> (case map_of patterns var of Some p \<Rightarrow> tp_threshold p | None \<Rightarrow> f32_of_rat (1 / 2)))"

definition nova_match_to_findings ::
  "nova_rule \<Rightarrow> nova_match \<Rightarrow> string option \<Rightarrow> artifact_kind \<Rightarrow> artifact_scope \<Rightarrow> finding list" where
  "nova_match_to_findings r m path kind scope =
     (if \<not> nm_matched m then []
      else
        let ctx = \<lparr>fc_rule = r, fc_severity = severity_from_meta (map_of (nr_meta r) ''severity''),
                   fc_category = category_from_meta (map_of (nr_meta r) ''category''),
                   fc_artifact_kind = kind, fc_artifact_scope = scope, fc_path = path\<rparr>;
            out = map (\<lambda>e. make_finding ctx Keywords (fst e) (Fin 1)) (filter snd (nm_keyword_hits m))
              @ map (\<lambda>e. make_finding ctx Semantics (fst e)
                        (hit_confidence (nm_semantic_scores m) (nr_semantics r) (fst e)))
                  (filter snd (nm_semantic_hits m))
              @ map (\<lambda>e. make_finding ctx Llm (fst e)
                        (hit_confidence (nm_llm_scores m) (nr_llm r) (fst e)))
                  (filter snd (nm_llm_hits m))
        in if out = [] then [make_finding ctx Keywords ''_condition'' (f32_of_rat (7 / 10))] else out)"

section \<open>What the loops compute\<close>

definition hits_of :: "(string \<Rightarrow> 'p \<Rightarrow> string \<Rightarrow> outcome) \<Rightarrow> string \<Rightarrow> (string \<times> 'p) list \<Rightarrow> hit_map" where
  "hits_of ev body ps = map (\<lambda>e. (fst e, fired (ev (fst e) (snd e) body))) ps"

definition scores_of :: "threshold_evaluator \<Rightarrow> string \<Rightarrow> (string \<times> threshold_pattern) list \<Rightarrow> (string \<times> f32) list" where
  "scores_of ev body ps =
     concat (map (\<lambda>e. case outcome_score (ev (fst e) (snd e) body) of Some s \<Rightarrow> [(fst e, s)] | None \<Rightarrow> []) ps)"

definition skipped_of :: "threshold_evaluator \<Rightarrow> string \<Rightarrow> (string \<times> threshold_pattern) list \<Rightarrow> string list" where
  "skipped_of ev body ps = map fst (filter (\<lambda>e. ev (fst e) (snd e) body = Skipped) ps)"

lemma hits_of_simps [simp]:
  "hits_of ev body [] = []"
  "hits_of ev body (e # ps) = (fst e, fired (ev (fst e) (snd e) body)) # hits_of ev body ps"
  by (simp_all add: hits_of_def)

lemma map_fst_hits_of [simp]: "map fst (hits_of ev body ps) = map fst ps"
  by (simp add: hits_of_def)

lemma bt_insert_snoc: "(\<And>j. j \<in> fst ` set m \<Longrightarrow> j < k) \<Longrightarrow> bt_insert k v m = m @ [(k, v)]"
proof (induction m)
  case (Cons e m)
  obtain j w where e: "e = (j, w)" by (cases e)
  have "j < k" using Cons.prems e by auto
  moreover have "bt_insert k v m = m @ [(k, v)]" using Cons by auto
  ultimately show ?case by (auto simp: e bt_insert_def)
qed (simp add: bt_insert_def)

lemma insort_insert_snoc: "(\<And>j. j \<in> set xs \<Longrightarrow> j < k) \<Longrightarrow> insort_insert k xs = xs @ [k]"
  by (induction xs) (fastforce simp: insort_insert_key_def)+

text \<open>Every map of the state stays below the pattern names still to come.\<close>

definition below :: "(string \<times> 'v) list \<Rightarrow> (string \<times> 'p) list \<Rightarrow> bool" where
  "below m ps \<longleftrightarrow> (\<forall>j\<in>fst ` set m. \<forall>k\<in>fst ` set ps. j < k)"

lemma below_Cons: "below m (e # ps) \<Longrightarrow> bt_invar (e # ps) \<Longrightarrow> below (m @ [(fst e, v)]) ps \<and> bt_insert (fst e) v m = m @ [(fst e, v)]"
  by (auto simp: below_def bt_invar_def intro!: bt_insert_snoc)

lemma below_tl: "below m (e # ps) \<Longrightarrow> below m ps"
  by (auto simp: below_def)

lemma keyword_loop:
  "bt_invar ps \<Longrightarrow> below (ctx_keywords (es_ctx st)) ps \<Longrightarrow> below (es_keyword_hits st) ps \<Longrightarrow>
     foldl (keyword_step kw body) st ps =
       st\<lparr>es_ctx := (es_ctx st)\<lparr>ctx_keywords := ctx_keywords (es_ctx st) @ hits_of kw body ps\<rparr>,
          es_keyword_hits := es_keyword_hits st @ hits_of kw body ps\<rparr>"
proof (induction ps arbitrary: st)
  case (Cons e ps)
  have tl: "bt_invar ps" using Cons.prems(1) by (simp add: bt_invar_def)
  show ?case
    using below_Cons [OF Cons.prems(2,1)] below_Cons [OF Cons.prems(3,1)] Cons.IH [OF tl]
    by (simp add: keyword_step_def Let_def)
qed simp

definition add_skip :: "skipped_capability \<Rightarrow> string list \<Rightarrow> skipped_capability list \<Rightarrow> skipped_capability list" where
  "add_skip c sk cs = (if sk \<noteq> [] \<and> c \<notin> set cs then cs @ [c] else cs)"

lemma skip_insert_below:
  "\<forall>j\<in>set (sk_semantics sk). j < k \<Longrightarrow> skip_insert sk Semantics k = sk\<lparr>sk_semantics := sk_semantics sk @ [k]\<rparr>"
  "\<forall>j\<in>set (sk_llm sk). j < k \<Longrightarrow> skip_insert sk Llm k = sk\<lparr>sk_llm := sk_llm sk @ [k]\<rparr>"
  by (simp_all add: insort_insert_snoc)

lemma skipped_of_simps [simp]:
  "skipped_of ev body [] = []"
  "skipped_of ev body (e # ps) =
     (if ev (fst e) (snd e) body = Skipped then fst e # skipped_of ev body ps else skipped_of ev body ps)"
  by (simp_all add: skipped_of_def)

lemma scores_of_simps [simp]:
  "scores_of ev body [] = []"
  "scores_of ev body (e # ps) =
     (case outcome_score (ev (fst e) (snd e) body) of Some s \<Rightarrow> [(fst e, s)] | None \<Rightarrow> []) @ scores_of ev body ps"
  by (simp_all add: scores_of_def)

lemma semantic_loop:
  "bt_invar ps \<Longrightarrow> below (ctx_semantics (es_ctx st)) ps \<Longrightarrow> below (es_semantic_hits st) ps \<Longrightarrow>
   below (es_semantic_scores st) ps \<Longrightarrow> below (map (\<lambda>n. (n, ())) (sk_semantics (es_skipped_refs st))) ps \<Longrightarrow>
     foldl (semantic_step ev body) st ps =
       st\<lparr>es_skipped := add_skip SkippedSemantics (skipped_of ev body ps) (es_skipped st),
          es_skipped_refs := (es_skipped_refs st)\<lparr>sk_semantics := sk_semantics (es_skipped_refs st) @ skipped_of ev body ps\<rparr>,
          es_ctx := (es_ctx st)\<lparr>ctx_semantics := ctx_semantics (es_ctx st) @ hits_of ev body ps\<rparr>,
          es_semantic_hits := es_semantic_hits st @ hits_of ev body ps,
          es_semantic_scores := es_semantic_scores st @ scores_of ev body ps\<rparr>"
proof (induction ps arbitrary: st)
  case Nil
  then show ?case by (simp add: add_skip_def)
next
  case (Cons e ps)
  have tl: "bt_invar ps" using Cons.prems(1) by (simp add: bt_invar_def)
  note b = below_Cons [OF Cons.prems(2,1)] below_Cons [OF Cons.prems(3,1)] below_Cons [OF Cons.prems(4,1)]
    below_Cons [OF Cons.prems(5,1)]
  have "\<forall>j\<in>set (sk_semantics (es_skipped_refs st)). j < fst e"
    using Cons.prems(5) by (auto simp: below_def)
  note si = skip_insert_below(1) [OF this]
  show ?case
    using b si Cons.IH [OF tl] Cons.prems below_tl [OF Cons.prems(4)] below_tl [OF Cons.prems(5)]
    by (cases "ev (fst e) (snd e) body")
      (simp_all add: semantic_step_def Let_def add_skip_def outcome_score_def del: skip_insert.simps)
qed

lemma llm_loop:
  "bt_invar ps \<Longrightarrow> below (ctx_llm (es_ctx st)) ps \<Longrightarrow> below (es_llm_hits st) ps \<Longrightarrow>
   below (es_llm_scores st) ps \<Longrightarrow> below (map (\<lambda>n. (n, ())) (sk_llm (es_skipped_refs st))) ps \<Longrightarrow>
     foldl (llm_step ev body) st ps =
       st\<lparr>es_skipped := add_skip SkippedLlm (skipped_of ev body ps) (es_skipped st),
          es_skipped_refs := (es_skipped_refs st)\<lparr>sk_llm := sk_llm (es_skipped_refs st) @ skipped_of ev body ps\<rparr>,
          es_ctx := (es_ctx st)\<lparr>ctx_llm := ctx_llm (es_ctx st) @ hits_of ev body ps\<rparr>,
          es_llm_hits := es_llm_hits st @ hits_of ev body ps,
          es_llm_scores := es_llm_scores st @ scores_of ev body ps\<rparr>"
proof (induction ps arbitrary: st)
  case Nil
  then show ?case by (simp add: add_skip_def)
next
  case (Cons e ps)
  have tl: "bt_invar ps" using Cons.prems(1) by (simp add: bt_invar_def)
  note b = below_Cons [OF Cons.prems(2,1)] below_Cons [OF Cons.prems(3,1)] below_Cons [OF Cons.prems(4,1)]
    below_Cons [OF Cons.prems(5,1)]
  have "\<forall>j\<in>set (sk_llm (es_skipped_refs st)). j < fst e"
    using Cons.prems(5) by (auto simp: below_def)
  note si = skip_insert_below(2) [OF this]
  show ?case
    using b si Cons.IH [OF tl] Cons.prems below_tl [OF Cons.prems(4)] below_tl [OF Cons.prems(5)]
    by (cases "ev (fst e) (snd e) body")
      (simp_all add: llm_step_def Let_def add_skip_def outcome_score_def del: skip_insert.simps)
qed

text \<open>The facts of one evaluation, and the references it could not evaluate.\<close>

definition rule_context ::
  "nova_rule \<Rightarrow> string \<Rightarrow> keyword_evaluator \<Rightarrow> threshold_evaluator \<Rightarrow> threshold_evaluator \<Rightarrow> eval_context" where
  "rule_context r b kw sem llm =
     \<lparr>ctx_keywords = hits_of kw b (nr_keywords r), ctx_semantics = hits_of sem b (nr_semantics r),
      ctx_llm = hits_of llm b (nr_llm r)\<rparr>"

definition rule_skips :: "nova_rule \<Rightarrow> string \<Rightarrow> threshold_evaluator \<Rightarrow> threshold_evaluator \<Rightarrow> skipped_refs" where
  "rule_skips r b sem llm =
     \<lparr>sk_semantics = skipped_of sem b (nr_semantics r), sk_llm = skipped_of llm b (nr_llm r)\<rparr>"

lemma run_sections_eq:
  assumes "valid_patterns env r"
  shows "run_sections r b kw sem llm =
    \<lparr>es_ctx = rule_context r b kw sem llm, es_keyword_hits = hits_of kw b (nr_keywords r),
     es_semantic_hits = hits_of sem b (nr_semantics r), es_llm_hits = hits_of llm b (nr_llm r),
     es_semantic_scores = scores_of sem b (nr_semantics r), es_llm_scores = scores_of llm b (nr_llm r),
     es_skipped = (if skipped_of sem b (nr_semantics r) = [] then [] else [SkippedSemantics])
       @ (if skipped_of llm b (nr_llm r) = [] then [] else [SkippedLlm]),
     es_skipped_refs = rule_skips r b sem llm\<rparr>"
proof -
  have inv: "bt_invar (nr_keywords r)" "bt_invar (nr_semantics r)" "bt_invar (nr_llm r)"
    using assms by (auto simp: valid_patterns_def well_kept_def)
  have nil: "below [] (ps :: (string \<times> 'x) list)" for ps by (simp add: below_def)
  show ?thesis
    unfolding run_sections_def
    by (simp add: keyword_loop [OF inv(1)] semantic_loop [OF inv(2)] llm_loop [OF inv(3)]
        engine_start_def nil no_skips_def add_skip_def rule_context_def rule_skips_def)
qed

lemma evaluate_rule_eq:
  assumes "valid_patterns env r"
  shows "evaluate_rule nfkc r body kw sem llm =
    (let b = normalize_for_matching nfkc body in
     and_then (eval_with_skips (nr_condition r) (rule_context r b kw sem llm) (rule_skips r b sem llm)) (\<lambda>matched.
       Inr \<lparr>nm_rule_name = nr_name r, nm_matched = matched,
            nm_keyword_hits = hits_of kw b (nr_keywords r), nm_semantic_hits = hits_of sem b (nr_semantics r),
            nm_llm_hits = hits_of llm b (nr_llm r),
            nm_semantic_scores = scores_of sem b (nr_semantics r), nm_llm_scores = scores_of llm b (nr_llm r),
            nm_skipped = (if skipped_of sem b (nr_semantics r) = [] then [] else [SkippedSemantics])
              @ (if skipped_of llm b (nr_llm r) = [] then [] else [SkippedLlm])\<rparr>))"
  unfolding evaluate_rule_def run_sections_eq [OF assms] Let_def by simp

section \<open>A validated rule never fails to evaluate\<close>

lemma check_refs_references:
  shows "check_refs r e = Inr () \<Longrightarrow> (s, v) \<in> set (references e) \<Longrightarrow> v \<in> set (rule_keys r s)"
    and "check_items r es = Inr () \<Longrightarrow> (s, v) \<in> (\<Union>e\<in>set es. set (references e)) \<Longrightarrow> v \<in> set (rule_keys r s)"
    and "check_target r t = Inr () \<Longrightarrow> (s, v) \<in> set (target_references t) \<Longrightarrow> v \<in> set (rule_keys r s)"
  by (induction r e and r es and r t rule: check_refs_check_items_check_target.induct)
    (auto simp: and_then_Inr split: if_splits)

lemma map_of_hits_of: "map_of (hits_of ev b ps) v = None \<longleftrightarrow> v \<notin> set (map fst ps)"
  by (metis map_fst_hits_of map_of_eq_None_iff set_map)

lemma rule_context_section:
  "map_of (ctx_section (rule_context r b kw sem llm) s) v = None \<longleftrightarrow> v \<notin> set (rule_keys r s)"
  by (cases s) (simp_all add: rule_context_def rule_keys_def map_of_hits_of del: set_map)

lemma valid_rule_resolves: "valid_rule env r \<Longrightarrow> refs_resolve (rule_context r b kw sem llm) (nr_condition r)"
  using check_refs_references(1) [of r "nr_condition r"]
  unfolding refs_resolve_def list_all_iff valid_rule_def by (auto simp: rule_context_section)

lemma valid_rule_evaluates:
  assumes "valid_rule env r"
  shows "\<exists>m. evaluate_rule nfkc r body kw sem llm = Inr m"
proof -
  let ?b = "normalize_for_matching nfkc body"
  have p: "valid_patterns env r" using assms by (simp add: valid_rule_def)
  obtain t where "eval_truth (rule_context r ?b kw sem llm) (rule_skips r ?b sem llm) (nr_condition r) = Inr t"
    using eval_resolved [OF valid_rule_resolves [OF assms]] by blast
  then show ?thesis by (simp add: evaluate_rule_eq [OF p] Let_def eval_with_skips_def)
qed

text \<open>
  A rule that came out of the parser evaluates without error on every body, whatever the
  evaluators answer: the reference check of \<open>validate_references\<close> is exactly what keeps
  \<open>EvalError::UnknownReference\<close> from ever being returned by \<open>evaluate_rule\<close>.
\<close>

theorem parsed_rules_evaluate:
  "case parse_rules env input of
     Inr rs \<Rightarrow> list_all (\<lambda>r. \<not> isl (evaluate_rule nfkc r body kw sem llm)) rs
   | Inl _ \<Rightarrow> True"
proof (cases "parse_rules env input")
  case (Inr rs)
  then have "list_all (valid_rule env) rs"
    using parse_rules_from_valid [of env input "[]" 0] by (simp add: parse_rules_def)
  moreover have "\<not> isl (evaluate_rule nfkc r body kw sem llm)" if "valid_rule env r" for r
    using valid_rule_evaluates [OF that, of nfkc body kw sem llm] by auto
  ultimately show ?thesis using Inr by (simp add: list_all_iff)
qed simp

section \<open>Missing evaluators\<close>

text \<open>A fully wired evaluator that keeps every answer the available one gave.\<close>

definition wires :: "threshold_evaluator \<Rightarrow> threshold_evaluator \<Rightarrow> string \<Rightarrow> (string \<times> threshold_pattern) list \<Rightarrow> bool" where
  "wires ev ev' b ps \<longleftrightarrow>
     list_all (\<lambda>e. ev' (fst e) (snd e) b \<noteq> Skipped
        \<and> (ev (fst e) (snd e) b = Skipped \<or> ev' (fst e) (snd e) b = ev (fst e) (snd e) b)) ps"

lemma wires_no_skip: "wires ev ev' b ps \<Longrightarrow> skipped_of ev' b ps = []"
  by (auto simp: wires_def skipped_of_def list_all_iff filter_empty_conv)

lemma fired_Skipped [simp]: "fired Skipped = False"
  by (simp add: fired_def)

lemma wires_hits:
  assumes "wires ev ev' b ps" "distinct (map fst ps)"
  shows "list_all2 (\<lambda>e e'. fst e = fst e' \<and> (if fst e \<in> set (skipped_of ev b ps) then \<not> snd e else snd e = snd e'))
           (hits_of ev b ps) (hits_of ev' b ps)"
proof -
  have sk: "ev (fst e) (snd e) b = Skipped \<longleftrightarrow> fst e \<in> set (skipped_of ev b ps)" if "e \<in> set ps" for e
    using that assms(2) eq_key_imp_eq_value [of ps "fst e" "snd e"] by (force simp: skipped_of_def)
  have "(if fst e \<in> set (skipped_of ev b ps) then \<not> fired (ev (fst e) (snd e) b)
      else fired (ev (fst e) (snd e) b) = fired (ev' (fst e) (snd e) b))" if "e \<in> set ps" for e
    using assms(1) that sk [OF that] by (cases "ev (fst e) (snd e) b = Skipped") (auto simp: wires_def list_all_iff)
  then show ?thesis by (simp add: hits_of_def list_all2_map1 list_all2_map2 list_all2_same)
qed

lemma wires_completes:
  assumes r: "valid_patterns env r" and w: "wires sem sem' b (nr_semantics r)" "wires llm llm' b (nr_llm r)"
  shows "completes (rule_context r b kw sem llm) (rule_skips r b sem llm) (rule_context r b kw sem' llm')"
proof -
  have d: "distinct (map fst (nr_semantics r))" "distinct (map fst (nr_llm r))"
    using r by (simp_all add: valid_patterns_def well_kept_def bt_invar_def strict_sorted_iff)
  have sub: "set (skipped_of ev b ps) \<subseteq> set (map fst ps)" for ev ps by (auto simp: skipped_of_def)
  have "skip_consistent (rule_skips r b sem llm) (rule_context r b kw sem llm)"
    using sub [of sem "nr_semantics r"] sub [of llm "nr_llm r"]
    by (auto simp: skip_consistent_def rule_skips_def rule_context_def list_all_iff map_of_hits_of simp del: set_map)
  then show ?thesis
    using wires_hits [OF w(1) d(1)] wires_hits [OF w(2) d(2)]
    by (simp add: completes_def completes_section_def rule_context_def rule_skips_def list_all2_same)
qed

text \<open>
  A match found without the semantic or LLM machinery is never retracted by it. If a valid
  rule matches a body while some patterns were skipped, it still matches when fully wired
  evaluators answer those patterns in any way; and if it does not match although nothing was
  skipped, wiring changes nothing either.
\<close>

theorem nova_match_stable:
  assumes "valid_rule env r"
    and "evaluate_rule nfkc r body kw sem llm = Inr m" "nm_matched m \<or> nm_skipped m = []"
    and "wires sem sem' (normalize_for_matching nfkc body) (nr_semantics r)"
    and "wires llm llm' (normalize_for_matching nfkc body) (nr_llm r)"
  shows "\<exists>m'. evaluate_rule nfkc r body kw sem' llm' = Inr m' \<and> nm_matched m' = nm_matched m"
proof -
  let ?b = "normalize_for_matching nfkc body" and ?c = "nr_condition r"
  let ?ctx = "rule_context r ?b kw sem llm" and ?sk = "rule_skips r ?b sem llm"
  let ?ctx' = "rule_context r ?b kw sem' llm'" and ?sk' = "rule_skips r ?b sem' llm'"
  have p: "valid_patterns env r" using assms(1) by (simp add: valid_rule_def)
  note comp = wires_completes [OF p assms(4,5), of kw]
  have sk': "?sk' = no_skips"
    using wires_no_skip assms(4,5) by (simp add: rule_skips_def no_skips_def)
  obtain t where t: "eval_truth ?ctx ?sk ?c = Inr t" using eval_resolved [OF valid_rule_resolves [OF assms(1)]] by blast
  obtain t' where t': "eval_truth ?ctx' no_skips ?c = Inr t'"
    using eval_resolved [OF valid_rule_resolves [OF assms(1)]] by blast
  have m: "nm_matched m = (t = TrueV)"
    using assms(2) t by (auto simp: evaluate_rule_eq [OF p] Let_def eval_with_skips_def is_true_def)
  have h: "approximates t (holds ?ctx' ?c)" using eval_approximates(1) [OF comp t] .
  have h': "approximates t' (holds ?ctx' ?c)" "t' \<noteq> UnknownV"
    using eval_approximates(1) [OF completes_no_skips t'] no_unknown(1) [OF refl t'] by blast+
  have "t \<noteq> UnknownV"
  proof (cases "nm_matched m")
    case False
    then have "nm_skipped m = []" using assms(3) by simp
    then have "?sk = no_skips"
      using assms(2) t by (auto simp: evaluate_rule_eq [OF p] Let_def eval_with_skips_def rule_skips_def no_skips_def
          split: if_splits)
    then show ?thesis using no_unknown(1) [OF _ t] by simp
  qed (simp add: m)
  with h h' have "t = t'" by (cases t; cases t') auto
  then show ?thesis
    using t' m by (simp add: evaluate_rule_eq [OF p] Let_def sk' eval_with_skips_def is_true_def)
qed

definition example_rule :: "condition_expr \<Rightarrow> nova_rule" where
  "example_rule c =
     \<lparr>nr_name = ''demo'', nr_meta = [], nr_keywords = [(''k'', \<lparr>kp_pattern = ''sudo'', kp_is_regex = False, kp_case_sensitive = False\<rparr>)],
      nr_semantics = [(''s'', \<lparr>tp_pattern = ''harm'', tp_threshold = Fin 1\<rparr>)], nr_llm = [], nr_condition = c\<rparr>"

definition example_env :: rule_env where
  "example_env = \<lparr>env_alphanumeric = (\<lambda>ch. list_all is_word_byte ch), env_lowercase = to_ascii_lowercase,
     env_regex_ok = (\<lambda>p. p \<noteq> [])\<rparr>"

lemma example_rule_valid:
  "check_refs (example_rule c) c = Inr () \<Longrightarrow> valid_rule example_env (example_rule c)"
  by (auto simp: valid_rule_def valid_patterns_def well_kept_def bt_invar_def example_rule_def rule_keys_def
      variable_name_def is_word_byte_def is_alpha_byte_def byte_of_def compiled_keyword_def unit_threshold_def
      f_le_def f_is_nan_def)

theorem nova_match_stable_witness:
  "\<exists>m'. evaluate_rule id (example_rule (OrE [Reference Keywords ''k'', Wildcard Semantics])) ''sudo!''
      (\<lambda>_ _ _. Match (Fin 1)) (\<lambda>_ _ _. NoMatch) not_yet_wired = Inr m' \<and> nm_matched m'"
proof -
  let ?c = "OrE [Reference Keywords ''k'', Wildcard Semantics]"
  have v: "valid_rule example_env (example_rule ?c)"
    by (rule example_rule_valid) (simp add: example_rule_def rule_keys_def reject_empty_section_wildcard_def)
  have p: "valid_patterns example_env (example_rule ?c)" using v by (simp add: valid_rule_def)
  define m where "m = projr (evaluate_rule id (example_rule ?c) ''sudo!'' (\<lambda>_ _ _. Match (Fin 1)) not_yet_wired not_yet_wired)"
  have "nm_matched m \<and> evaluate_rule id (example_rule ?c) ''sudo!'' (\<lambda>_ _ _. Match (Fin 1)) not_yet_wired not_yet_wired = Inr m"
    unfolding m_def evaluate_rule_eq [OF p] Let_def
    by (simp add: example_rule_def rule_context_def rule_skips_def eval_with_skips_def fired_def from_bool_def is_true_def)
  then show ?thesis
    using nova_match_stable [OF v, of id "''sudo!''" "\<lambda>_ _ _. Match (Fin 1)" not_yet_wired not_yet_wired m
        "\<lambda>_ _ _. NoMatch" not_yet_wired]
    by (simp add: wires_def not_yet_wired_def example_rule_def)
qed

text \<open>
  A skipped pattern is not treated as false. For a condition \<open>not semantics.$s\<close> run
  without the embedding evaluator the rule does not fire, although the condition would hold with the
  reference read as \<open>false\<close>; the documentation of \<open>NovaMatch\<close> and of \<open>Outcome::Skipped\<close>
  describes the second reading.
\<close>

theorem skipped_is_not_false:
  "let r = example_rule (NotE (Reference Semantics ''s''));
       result = evaluate_rule nfkc r body kw not_yet_wired llm
   in \<not> isl result \<and> \<not> nm_matched (projr result) \<and> nm_skipped (projr result) = [SkippedSemantics]
      \<and> nm_semantic_hits (projr result) = [(''s'', False)]
      \<and> holds (rule_context r (normalize_for_matching nfkc body) kw not_yet_wired llm) (nr_condition r)"
proof -
  let ?c = "NotE (Reference Semantics ''s'')"
  have v: "valid_rule example_env (example_rule ?c)"
    by (rule example_rule_valid) (simp add: example_rule_def rule_keys_def)
  have p: "valid_patterns example_env (example_rule ?c)" using v by (simp add: valid_rule_def)
  show ?thesis
    unfolding evaluate_rule_eq [OF p] Let_def
    by (simp add: example_rule_def rule_context_def rule_skips_def eval_with_skips_def not_yet_wired_def is_true_def)
qed

section \<open>Findings\<close>

lemma last_action_finding_ops: "last_action (finding_ops ctx s var conf) = Some RequireApproval"
  by (simp add: finding_ops_def Let_def split: option.splits)

lemma make_finding_fields:
  "f_action (make_finding ctx s var conf) = RequireApproval"
  "f_signal_class (make_finding ctx s var conf) = ReviewSignal"
  "f_artifact_scope (make_finding ctx s var conf) = fc_artifact_scope ctx"
  "rule_id (make_finding ctx s var conf) = ''NOVA_'' @ nr_name (fc_rule ctx) @ ''_'' @ section_display s @ ''_'' @ var"
  by (simp_all add: make_finding_def build_with_def build_def builder_new_def finding_ops_def Let_def
      split: option.splits prod.splits)

lemma make_finding_confidence:
  "unit_f32 (confidence (make_finding ctx s var conf))
   \<and> f_le CONFIDENCE_FLOOR (confidence (make_finding ctx s var conf))
   \<and> f_le (confidence (make_finding ctx s var conf)) CONFIDENCE_CEILING"
  unfolding make_finding_def using build_with_confidence by blast

text \<open>
  The findings of a match are advisory. A rule yields findings exactly when it matched; each
  is attributed to the rule by its \<open>NOVA_<name>_\<close> id and to the given scope, asks for approval and
  never blocks, is a review signal, and carries a calibrated confidence whatever score an evaluator
  returned (NaN and out-of-range values included).
\<close>

theorem nova_findings_advisory:
  "(nova_match_to_findings r m path kind scope = [] \<longleftrightarrow> \<not> nm_matched m)
   \<and> list_all (\<lambda>f. f_action f = RequireApproval \<and> f_signal_class f = ReviewSignal
        \<and> f_artifact_scope f = scope \<and> prefix (''NOVA_'' @ nr_name r @ ''_'') (rule_id f)
        \<and> unit_f32 (confidence f) \<and> f_le CONFIDENCE_FLOOR (confidence f)
        \<and> f_le (confidence f) CONFIDENCE_CEILING)
      (nova_match_to_findings r m path kind scope)"
  by (auto simp: nova_match_to_findings_def Let_def list_all_iff make_finding_fields make_finding_confidence)

end
