(* ===== verification/Rate_Limit.thy ===== *)
theory Rate_Limit
  imports Prelude
begin

text \<open>
  The client-side rate limiter of the PromptIntel endpoints (\<open>promptintel/feed/ratelimit.rs\<close> of the CLI): the
  calls of each endpoint within the last day, the check before a call and the record after it. The clock is an
  argument in nanoseconds, as in the code's \<open>_at\<close> variants; the files the state is kept in are arguments of \<open>load\<close>.

  The callers check, call and record; \<open>budget_step\<close> is that protocol under a clock that does not go back. Shown: no
  window of an hour (of a day) ever holds more calls than the quota; an endpoint that is refused is served
  again after waiting; a clock that is set back makes the limiter forget the calls it has seen.
\<close>

section \<open>State\<close>

type_synonym time_ns = int

definition hours :: "int \<Rightarrow> int" where
  "hours n = n * 3600 * 10 ^ 9"

definition RATELIMIT_FILENAME :: string where
  "RATELIMIT_FILENAME = ''ratelimit.json''"

definition AGENT_FEED :: string where
  "AGENT_FEED = ''agent-feed''"

definition REPORTS_MINE :: string where
  "REPORTS_MINE = ''agents/reports/mine''"

definition REPORTS_SUBMIT :: string where
  "REPORTS_SUBMIT = ''agents/reports''"

record quota =
  hourly_cap :: nat
  daily_cap :: "nat option"

definition quota_for :: "string \<Rightarrow> quota option" where
  "quota_for ep =
     (if ep = AGENT_FEED then Some \<lparr>hourly_cap = 120, daily_cap = None\<rparr>
      else if ep = REPORTS_MINE then Some \<lparr>hourly_cap = 60, daily_cap = None\<rparr>
      else if ep = REPORTS_SUBMIT then Some \<lparr>hourly_cap = 5, daily_cap = Some 20\<rparr>
      else None)"

record call_record =
  cr_at :: time_ns
  cr_server_remaining :: "nat option"

type_synonym endpoint_history = "call_record list"

record rate_limit_state =
  endpoints :: "(string \<times> endpoint_history) list"

definition default_rate_limit_state :: rate_limit_state where
  "default_rate_limit_state = \<lparr>endpoints = []\<rparr>"

definition recent :: "int \<Rightarrow> time_ns \<Rightarrow> call_record \<Rightarrow> bool" where
  "recent window now c = (let age = now - cr_at c in 0 \<le> age \<and> age < window)"

text \<open>\<open>count() as u32\<close> wraps.\<close>

definition count_within :: "endpoint_history \<Rightarrow> int \<Rightarrow> time_ns \<Rightarrow> nat" where
  "count_within calls window now = length (filter (recent window now) calls) mod 2 ^ 32"

definition evict_older_than :: "int \<Rightarrow> time_ns \<Rightarrow> endpoint_history \<Rightarrow> endpoint_history" where
  "evict_older_than max_age now calls = filter (recent max_age now) calls"

datatype rate_limit_error =
    HourlyExceeded (re_endpoint: string) (re_cap: nat) (re_used: nat)
  | DailyExceeded (re_endpoint: string) (re_cap: nat) (re_used: nat)

fun rate_limit_error_display :: "rate_limit_error \<Rightarrow> string" where
  "rate_limit_error_display (HourlyExceeded ep cap used) =
     ''PromptIntel hourly rate limit reached for '' @ ep @ '': '' @ digits_of used @ ''/'' @ digits_of cap
     @ '' calls in the last hour. Wait before retrying.''"
| "rate_limit_error_display (DailyExceeded ep cap used) =
     ''PromptIntel daily rate limit reached for '' @ ep @ '': '' @ digits_of used @ ''/'' @ digits_of cap
     @ '' calls in the last 24 hours. Wait before retrying.''"

section \<open>Operations\<close>

definition check_can_call_at :: "rate_limit_state \<Rightarrow> string \<Rightarrow> time_ns \<Rightarrow> rate_limit_error + unit" where
  "check_can_call_at s ep now =
     (case quota_for ep of
        None \<Rightarrow> Inr ()
      | Some q \<Rightarrow>
          (case map_of (endpoints s) ep of
             None \<Rightarrow> Inr ()
           | Some history \<Rightarrow>
               let used_hour = count_within history (hours 1) now
               in if hourly_cap q \<le> used_hour then Inl (HourlyExceeded ep (hourly_cap q) used_hour)
                  else
                    (case daily_cap q of
                       None \<Rightarrow> Inr ()
                     | Some cap \<Rightarrow>
                         let used_day = count_within history (hours 24) now
                         in if cap \<le> used_day then Inl (DailyExceeded ep cap used_day) else Inr ())))"

definition record_call_at :: "rate_limit_state \<Rightarrow> string \<Rightarrow> nat option \<Rightarrow> time_ns \<Rightarrow> rate_limit_state" where
  "record_call_at s ep server_remaining now =
     s\<lparr>endpoints :=
         bt_entry ep
           (\<lambda>h. evict_older_than (hours 24) now
                  ((case h of None \<Rightarrow> [] | Some h \<Rightarrow> h) @ [\<lparr>cr_at = now, cr_server_remaining = server_remaining\<rparr>]))
           (endpoints s)\<rparr>"

definition pad_right :: "nat \<Rightarrow> string \<Rightarrow> string" where
  "pad_right n s = s @ replicate (n - length s) CHR '' ''"

definition pad_left :: "nat \<Rightarrow> string \<Rightarrow> string" where
  "pad_left n s = replicate (n - length s) CHR '' '' @ s"

definition summary_line :: "rate_limit_state \<Rightarrow> time_ns \<Rightarrow> string \<Rightarrow> quota \<Rightarrow> string" where
  "summary_line s now ep q =
     (let history = (case map_of (endpoints s) ep of None \<Rightarrow> [] | Some h \<Rightarrow> h);
          used_hour = count_within history (hours 1) now;
          line = ''  '' @ pad_right 22 ep @ '' '' @ pad_left 3 (digits_of used_hour) @ ''/''
                 @ pad_right 3 (digits_of (hourly_cap q)) @ '' per hour''
      in case daily_cap q of
           None \<Rightarrow> line
         | Some cap \<Rightarrow>
             line @ ''   '' @ pad_left 3 (digits_of (count_within history (hours 24) now)) @ ''/''
             @ pad_right 3 (digits_of cap) @ '' per day'')"

definition render_summary :: "rate_limit_state \<Rightarrow> time_ns \<Rightarrow> string" where
  "render_summary s now =
     ''=== PromptIntel rate-limit budget ==='' @
     concat (map (\<lambda>ep. CHR 0x0A # summary_line s now ep (the (quota_for ep))) [AGENT_FEED, REPORTS_MINE, REPORTS_SUBMIT])"

text \<open>What \<open>load\<close> calls: the checks that a directory exists, the capped read and the JSON parser.\<close>

record 'e cache_env =
  real_dir_exists_for_read :: "string \<Rightarrow> 'e + bool"
  path_join :: "string \<Rightarrow> string \<Rightarrow> string"
  read_cache_file_with_cap :: "string \<Rightarrow> nat \<Rightarrow> 'e + string option"
  state_from_json :: "string \<Rightarrow> 'e + rate_limit_state"
  parsing_context :: "string \<Rightarrow> 'e \<Rightarrow> 'e"

definition state_path :: "'e cache_env \<Rightarrow> string \<Rightarrow> string" where
  "state_path env cache_root = path_join env (path_join env cache_root ''promptintel-feed'') RATELIMIT_FILENAME"

definition load_with_cap :: "'e cache_env \<Rightarrow> string \<Rightarrow> nat \<Rightarrow> 'e + rate_limit_state" where
  "load_with_cap env cache_root cap =
     and_then (real_dir_exists_for_read env cache_root) (\<lambda>present.
       if \<not> present then Inr default_rate_limit_state
       else and_then (real_dir_exists_for_read env (path_join env cache_root ''promptintel-feed'')) (\<lambda>present.
         if \<not> present then Inr default_rate_limit_state
         else
           let path = state_path env cache_root
           in and_then (read_cache_file_with_cap env path cap) (\<lambda>content.
                case content of
                  None \<Rightarrow> Inr default_rate_limit_state
                | Some bytes \<Rightarrow>
                    (case state_from_json env bytes of
                       Inl e \<Rightarrow> Inl (parsing_context env path e)
                     | Inr state \<Rightarrow> Inr state))))"

section \<open>The protocol\<close>

text \<open>
  A configuration is the clock, the state, and a log of the calls made (endpoint and time), which the program does not
  keep. A caller is served only after the check accepts it, and is then recorded.
\<close>

type_synonym config = "time_ns \<times> rate_limit_state \<times> (string \<times> time_ns) list"

inductive budget_step :: "config \<Rightarrow> config \<Rightarrow> bool" where
  wait: "now \<le> now' \<Longrightarrow> budget_step (now, s, log) (now', s, log)"
| call: "check_can_call_at s ep now = Inr () \<Longrightarrow>
         budget_step (now, s, log) (now, record_call_at s ep remaining now, (ep, now) # log)"
| refused: "check_can_call_at s ep now = Inl e \<Longrightarrow> budget_step (now, s, log) (now, s, log)"

inductive reachable :: "time_ns \<Rightarrow> config \<Rightarrow> bool" for start where
  initial: "reachable start (start, default_rate_limit_state, [])"
| step: "reachable start c \<Longrightarrow> budget_step c c' \<Longrightarrow> reachable start c'"

inductive_cases budget_stepE: "budget_step (now, s, log) c'"

definition history :: "rate_limit_state \<Rightarrow> string \<Rightarrow> endpoint_history" where
  "history s ep = (case map_of (endpoints s) ep of None \<Rightarrow> [] | Some h \<Rightarrow> h)"

text \<open>The times of an endpoint's calls in the log, the latest first.\<close>

definition times :: "(string \<times> time_ns) list \<Rightarrow> string \<Rightarrow> time_ns list" where
  "times log ep = map snd (filter (\<lambda>e. fst e = ep) log)"

lemma times_Cons [simp]: "times (e # log) ep = (if fst e = ep then snd e # times log ep else times log ep)"
  by (simp add: times_def)

text \<open>The stored history of an endpoint is its log up to a day before its last call.\<close>

definition remembers :: "time_ns \<Rightarrow> endpoint_history \<Rightarrow> time_ns list \<Rightarrow> bool" where
  "remembers now h ts \<longleftrightarrow>
     (\<exists>last\<le>now. (\<forall>t\<in>set ts. t \<le> last) \<and> rev (map cr_at h) = filter (\<lambda>t. last - t < hours 24) ts)"

definition faithful :: "config \<Rightarrow> bool" where
  "faithful = (\<lambda>(now, s, log). bt_invar (endpoints s) \<and> (\<forall>ep. remembers now (history s ep) (times log ep)))"

lemma hours_pos [simp]: "0 < n \<Longrightarrow> 0 < hours n"
  by (simp add: hours_def)

lemma history_record:
  "bt_invar (endpoints s) \<Longrightarrow>
   history (record_call_at s ep r now) ep' =
     (if ep' = ep then filter (recent (hours 24) now) (history s ep @ [\<lparr>cr_at = now, cr_server_remaining = r\<rparr>])
      else history s ep')"
  by (simp add: history_def record_call_at_def bt_get_entry evict_older_than_def)

lemma remembers_wait: "remembers now h ts \<Longrightarrow> now \<le> now' \<Longrightarrow> remembers now' h ts"
  unfolding remembers_def by (meson order.trans)

lemma rev_map_recent: "rev (map cr_at (filter (recent w now) h)) = filter (\<lambda>t. 0 \<le> now - t \<and> now - t < w) (rev (map cr_at h))"
  by (induction h) (auto simp: recent_def Let_def)

lemma remembers_call:
  assumes "remembers now h ts"
  shows "remembers now (filter (recent (hours 24) now) (h @ [\<lparr>cr_at = now, cr_server_remaining = r\<rparr>])) (now # ts)"
proof -
  obtain l where l: "l \<le> now" "\<forall>t\<in>set ts. t \<le> l" "rev (map cr_at h) = filter (\<lambda>t. l - t < hours 24) ts"
    using assms unfolding remembers_def by blast
  have "filter (\<lambda>t. 0 \<le> now - t \<and> now - t < hours 24) (now # filter (\<lambda>t. l - t < hours 24) ts)
      = filter (\<lambda>t. now - t < hours 24) (now # ts)"
    using l(1,2) by (auto intro!: filter_cong)
  then show ?thesis
    using l unfolding remembers_def rev_map_recent by (intro exI [of _ now]) auto
qed

lemma remembers_count:
  assumes "remembers now h ts" "now \<le> now'" "w \<le> hours 24"
  shows "length (filter (recent w now') h) = length (filter (\<lambda>t. now' - t < w) ts)"
proof -
  obtain l where l: "l \<le> now" "\<forall>t\<in>set ts. t \<le> l" "rev (map cr_at h) = filter (\<lambda>t. l - t < hours 24) ts"
    using assms(1) unfolding remembers_def by blast
  have "length (filter (recent w now') h) = length (rev (map cr_at (filter (recent w now') h)))" by simp
  also have "\<dots> = length (filter (\<lambda>t. 0 \<le> now' - t \<and> now' - t < w) (filter (\<lambda>t. l - t < hours 24) ts))"
    unfolding rev_map_recent l(3) ..
  also have "filter (\<lambda>t. 0 \<le> now' - t \<and> now' - t < w) (filter (\<lambda>t. l - t < hours 24) ts) = filter (\<lambda>t. now' - t < w) ts"
    using l(1,2) assms(2,3) by (auto intro!: filter_cong)
  finally show ?thesis .
qed

lemma faithful_step: "budget_step c c' \<Longrightarrow> faithful c \<Longrightarrow> faithful c'"
proof (induction rule: budget_step.induct)
  case (call s ep now log remaining)
  then show ?case
    by (auto simp: faithful_def history_record remembers_call simp del: filter_append)
       (simp add: record_call_at_def bt_invar_entry)
qed (auto simp: faithful_def intro: remembers_wait)

lemma reachable_faithful: "reachable start c \<Longrightarrow> faithful c"
proof (induction rule: reachable.induct)
  case initial
  show ?case
    by (auto simp: faithful_def default_rate_limit_state_def bt_invar_def history_def times_def remembers_def)
next
  case (step c c')
  then show ?case by (blast intro: faithful_step)
qed


section \<open>Windows\<close>

definition calls_in :: "(string \<times> time_ns) list \<Rightarrow> string \<Rightarrow> time_ns \<Rightarrow> int \<Rightarrow> nat" where
  "calls_in log ep from window = length (filter (\<lambda>(e, t). e = ep \<and> from \<le> t \<and> t < from + window) log)"

lemma calls_in_times: "calls_in log ep from w = length (filter (\<lambda>t. from \<le> t \<and> t < from + w) (times log ep))"
  unfolding calls_in_def times_def filter_map filter_filter length_map
  by (intro arg_cong [where f = length] filter_cong) auto

lemma faithful_past: "faithful (now, s, log) \<Longrightarrow> t \<in> set (times log ep) \<Longrightarrow> t \<le> now"
  unfolding faithful_def remembers_def by fastforce

text \<open>What the check counts is what the log holds of the window that ends now.\<close>

lemma counted_calls:
  assumes "faithful (now, s, log)" "now \<le> now'" "w \<le> hours 24"
  shows "length (filter (recent w now') (history s ep)) = length (filter (\<lambda>t. now' - t < w) (times log ep))"
  using assms unfolding faithful_def by (auto intro: remembers_count)

lemma calls_until_now:
  assumes "faithful (now, s, log)" "w \<le> hours 24"
  shows "length (filter (recent w now) (history s ep)) = calls_in log ep (now - w + 1) w"
proof -
  have "filter (\<lambda>t. now - t < w) (times log ep) = filter (\<lambda>t. now - w + 1 \<le> t \<and> t < now - w + 1 + w) (times log ep)"
    using faithful_past [OF assms(1)] by (intro filter_cong) auto
  then show ?thesis using counted_calls [OF assms(1) order.refl assms(2)] by (simp add: calls_in_times)
qed

lemma check_history:
  "check_can_call_at s ep now =
     (case quota_for ep of
        None \<Rightarrow> Inr ()
      | Some q \<Rightarrow>
          if hourly_cap q \<le> count_within (history s ep) (hours 1) now
          then Inl (HourlyExceeded ep (hourly_cap q) (count_within (history s ep) (hours 1) now))
          else case daily_cap q of
                 None \<Rightarrow> Inr ()
               | Some cap \<Rightarrow>
                   if cap \<le> count_within (history s ep) (hours 24) now
                   then Inl (DailyExceeded ep cap (count_within (history s ep) (hours 24) now)) else Inr ())"
proof -
  have "hourly_cap q \<noteq> 0" "daily_cap q \<noteq> Some 0" if "quota_for ep = Some q" for q
    using that by (auto simp: quota_for_def split: if_splits)
  then show ?thesis
    by (auto simp: check_can_call_at_def history_def Let_def count_within_def split: option.split)
qed

lemma quota_small: "quota_for ep = Some q \<Longrightarrow> hourly_cap q < 2 ^ 32 \<and> (daily_cap q = Some cap \<longrightarrow> cap < 2 ^ 32)"
  by (auto simp: quota_for_def split: if_splits)

text \<open>A window of the log is full only up to the cap: the invariant that a checked call preserves.\<close>

lemma window_step:
  assumes "faithful (now, s, log)" "w \<le> hours 24" "0 < w" "cap < 2 ^ 32"
    and inv: "\<And>from. calls_in log ep from w \<le> cap"
    and free: "count_within (history s ep) w now < cap"
  shows "calls_in ((ep, now) # log) ep from w \<le> cap"
proof (cases "from \<le> now \<and> now < from + w")
  case True
  have "calls_in log ep (now - w + 1) w < cap"
    using free inv [of "now - w + 1"] assms(4) by (simp add: count_within_def calls_until_now [OF assms(1,2)])
  moreover have "calls_in log ep from w \<le> calls_in log ep (now - w + 1) w"
  proof -
    have "filter (\<lambda>t. from \<le> t \<and> t < from + w) (times log ep)
        = filter (\<lambda>t. from \<le> t) (filter (\<lambda>t. now - w + 1 \<le> t \<and> t < now - w + 1 + w) (times log ep))"
      unfolding filter_filter using True by (intro filter_cong refl) (auto dest!: faithful_past [OF assms(1)])
    then show ?thesis unfolding calls_in_times by (metis length_filter_le)
  qed
  ultimately show ?thesis using True by (simp add: calls_in_def)
next
  case False
  then show ?thesis using inv [of "from"] by (auto simp: calls_in_def)
qed

lemma calls_in_other: "ep \<noteq> ep' \<Longrightarrow> calls_in ((ep', now) # log) ep from w = calls_in log ep from w"
  by (simp add: calls_in_def)

definition within_quota :: "(string \<times> time_ns) list \<Rightarrow> bool" where
  "within_quota log \<longleftrightarrow>
     (\<forall>ep q. quota_for ep = Some q \<longrightarrow>
        (\<forall>from. calls_in log ep from (hours 1) \<le> hourly_cap q)
        \<and> (\<forall>from cap. daily_cap q = Some cap \<longrightarrow> calls_in log ep from (hours 24) \<le> cap))"

lemma check_free:
  assumes "check_can_call_at s ep now = Inr ()" "quota_for ep = Some q"
  shows "count_within (history s ep) (hours 1) now < hourly_cap q"
    and "daily_cap q = Some cap \<Longrightarrow> count_within (history s ep) (hours 24) now < cap"
  using assms by (auto simp: check_history split: if_splits)

lemma within_quota_call:
  assumes "faithful (now, s, log)" "within_quota log" "check_can_call_at s ep now = Inr ()"
  shows "within_quota ((ep, now) # log)"
  unfolding within_quota_def
proof (intro allI impI conjI)
  fix ep' q "from" cap
  assume q: "quota_for ep' = Some q"
  show "calls_in ((ep, now) # log) ep' from (hours 1) \<le> hourly_cap q"
  proof (cases "ep' = ep")
    case True
    show ?thesis
      using window_step [OF assms(1), of "hours 1" "hourly_cap q" ep] assms(2) check_free(1) [OF assms(3)] q True
        quota_small [OF q] by (auto simp: within_quota_def hours_def)
  next
    case False
    then show ?thesis using assms(2) q by (auto simp: within_quota_def calls_in_other)
  qed
  assume cap: "daily_cap q = Some cap"
  show "calls_in ((ep, now) # log) ep' from (hours 24) \<le> cap"
  proof (cases "ep' = ep")
    case True
    show ?thesis
      using window_step [OF assms(1), of "hours 24" cap ep] assms(2) check_free(2) [OF assms(3)] q True cap
        quota_small [OF q] by (auto simp: within_quota_def hours_def)
  next
    case False
    then show ?thesis using assms(2) q cap by (auto simp: within_quota_def calls_in_other)
  qed
qed

lemma reachable_within_quota: "reachable start (now, s, log) \<Longrightarrow> within_quota log"
proof (induction "(now, s, log)" arbitrary: now s log rule: reachable.induct)
  case initial
  show ?case by (simp add: within_quota_def calls_in_def)
next
  case (step c)
  obtain t st l where c: "c = (t, st, l)" by (cases c)
  from step(3) show ?case
    unfolding c
  proof (cases rule: budget_step.cases)
    case (call ep remaining)
    then show ?thesis using within_quota_call [OF reachable_faithful [OF step(1) [unfolded c]] step(2) [OF c]] by simp
  qed (use step(2) c in auto)
qed


section \<open>Properties\<close>

text \<open>
  Claim C34: while the clock does not go back, no window of an hour ever contains more calls to an endpoint than
  its hourly quota, and no window of a day more than its daily one, wherever the window starts.
\<close>

theorem quota_respected:
  assumes "reachable start (now, s, log)" and "quota_for ep = Some q"
  shows "length (filter (\<lambda>(e, t). e = ep \<and> from \<le> t \<and> t < from + hours 1) log) \<le> hourly_cap q
    \<and> (daily_cap q = Some cap \<longrightarrow>
        length (filter (\<lambda>(e, t). e = ep \<and> from \<le> t \<and> t < from + hours 24) log) \<le> cap)"
  using reachable_within_quota [OF assms(1)] assms(2) unfolding within_quota_def calls_in_def by blast

lemma quota_respected_witness:
  "length (filter (\<lambda>(e, t). e = REPORTS_SUBMIT \<and> 0 \<le> t \<and> t < 0 + hours 24) [(REPORTS_SUBMIT, 7)]) \<le> 20"
proof -
  have "check_can_call_at default_rate_limit_state REPORTS_SUBMIT 7 = Inr ()"
    by (simp add: check_can_call_at_def default_rate_limit_state_def split: option.split)
  then have "reachable 7 (7, record_call_at default_rate_limit_state REPORTS_SUBMIT None 7, [(REPORTS_SUBMIT, 7)])"
    by (intro reachable.step [OF reachable.initial] budget_step.call)
  moreover have "quota_for REPORTS_SUBMIT = Some \<lparr>hourly_cap = 5, daily_cap = Some 20\<rparr>"
    by (simp add: quota_for_def AGENT_FEED_def REPORTS_MINE_def REPORTS_SUBMIT_def)
  ultimately show ?thesis using quota_respected [of 7 _ _ _ REPORTS_SUBMIT _ 0 20] by fastforce
qed

text \<open>
  Claim C35: no endpoint is refused for ever: from every reachable configuration, waiting an hour (a day for an
  endpoint with a daily quota) without calling it leads to one in which its next call is accepted.
\<close>

theorem refused_endpoint_recovers:
  assumes "reachable start (now, s, log)"
  shows "\<exists>now'. budget_step (now, s, log) (now', s, log)
      \<and> now' = now + hours (case quota_for ep of Some q \<Rightarrow> if daily_cap q = None then 1 else 24 | None \<Rightarrow> 1)
      \<and> check_can_call_at s ep now' = Inr ()"
proof -
  let ?n = "case quota_for ep of Some q \<Rightarrow> if daily_cap q = None then 1 else 24 | None \<Rightarrow> (1 :: int)"
  have n: "1 \<le> ?n" "?n \<le> 24" "\<And>q. quota_for ep = Some q \<Longrightarrow> daily_cap q \<noteq> None \<Longrightarrow> ?n = 24"
    by (auto split: option.split)
  have f: "faithful (now, s, log)" using reachable_faithful [OF assms] .
  have later: "now \<le> now + hours ?n" using n(1) by (simp add: hours_def)
  have none: "count_within (history s ep) (hours w) (now + hours ?n) = 0" if "w \<le> ?n" for w
  proof -
    have "hours w \<le> hours 24" using that n(2) by (simp add: hours_def)
    then have "length (filter (recent (hours w) (now + hours ?n)) (history s ep))
        = length (filter (\<lambda>t. now + hours ?n - t < hours w) (times log ep))"
      by (rule counted_calls [OF f later])
    also have "filter (\<lambda>t. now + hours ?n - t < hours w) (times log ep) = []"
      using faithful_past [OF f, of _ ep] that by (fastforce simp: filter_empty_conv hours_def)
    finally show ?thesis by (simp add: count_within_def)
  qed
  have caps: "hourly_cap q \<noteq> 0" "daily_cap q \<noteq> Some 0" if "quota_for ep = Some q" for q
    using that by (auto simp: quota_for_def split: if_splits)
  have "check_can_call_at s ep (now + hours ?n) = Inr ()"
    using none [of 1] none [of 24] n caps by (auto simp: check_history split: option.split)
  then show ?thesis using later by (blast intro: budget_step.wait)
qed

lemma refused_endpoint_recovers_witness:
  "\<exists>now'. check_can_call_at default_rate_limit_state REPORTS_SUBMIT now' = Inr ()"
  using refused_endpoint_recovers [OF reachable.initial [of 0], of REPORTS_SUBMIT] by blast

text \<open>
  a clock that is set back empties the budget: when every recorded call of an endpoint lies after the present
  time, the check accepts whatever the number of those calls, and recording the call forgets all of them, so that they are not counted when the
  clock reaches their times again.
\<close>

theorem clock_set_back_forgets:
  assumes "bt_invar (endpoints s)" and "map_of (endpoints s) ep = Some h" and "\<forall>c\<in>set h. now < cr_at c"
  shows "check_can_call_at s ep now = Inr ()
    \<and> map_of (endpoints (record_call_at s ep r now)) ep = Some [\<lparr>cr_at = now, cr_server_remaining = r\<rparr>]"
proof -
  have none: "filter (recent w now) h = []" for w
    using assms(3) by (auto simp: filter_empty_conv recent_def Let_def)
  have "hourly_cap q \<noteq> 0" "daily_cap q \<noteq> Some 0" if "quota_for ep = Some q" for q
    using that by (auto simp: quota_for_def split: if_splits)
  then have "check_can_call_at s ep now = Inr ()"
    by (auto simp: check_history history_def assms(2) count_within_def none split: option.split)
  moreover have "recent (hours 24) now \<lparr>cr_at = now, cr_server_remaining = r\<rparr>"
    by (simp add: recent_def hours_def)
  ultimately show ?thesis
    by (simp add: record_call_at_def bt_get_entry [OF assms(1)] assms(2) evict_older_than_def none)
qed

definition spent_budget :: rate_limit_state where
  "spent_budget =
     \<lparr>endpoints = [(REPORTS_SUBMIT, map (\<lambda>t. \<lparr>cr_at = t, cr_server_remaining = None\<rparr>) [101, 102, 103, 104, 105])]\<rparr>"

lemma clock_set_back_forgets_witness:
  "(case check_can_call_at spent_budget REPORTS_SUBMIT 106 of Inl e \<Rightarrow> re_used e = 5 | Inr _ \<Rightarrow> False)
   \<and> check_can_call_at spent_budget REPORTS_SUBMIT 100 = Inr ()"
proof
  have q: "quota_for REPORTS_SUBMIT = Some \<lparr>hourly_cap = 5, daily_cap = Some 20\<rparr>"
    by (simp add: quota_for_def AGENT_FEED_def REPORTS_MINE_def REPORTS_SUBMIT_def)
  show "case check_can_call_at spent_budget REPORTS_SUBMIT 106 of Inl e \<Rightarrow> re_used e = 5 | Inr _ \<Rightarrow> False"
    by (simp add: check_can_call_at_def q spent_budget_def count_within_def recent_def hours_def)
  show "check_can_call_at spent_budget REPORTS_SUBMIT 100 = Inr ()"
    using clock_set_back_forgets [of spent_budget REPORTS_SUBMIT _ 100]
    by (simp add: spent_budget_def bt_invar_def)
qed

end
