(* ===== verification/Paths.thy ===== *)
theory Paths
  imports Prelude
begin

text \<open>
  \<open>std::path::Path\<close> on Unix as far as the scanner uses it: \<open>components\<close> (repeated separators and
  inner \<open>.\<close> are dropped, a leading \<open>.\<close> of a relative path is kept, \<open>..\<close> is a component),
  equality and \<open>ends_with\<close> by components, \<open>is_absolute\<close>; and the suffix-matching comparator
  \<open>paths_match\<close> of \<open>policy/fingerprint.rs\<close>.
\<close>

datatype component = RootDir | CurDir | ParentDir | Normal string

text \<open>\<open>Component\<close> derives \<open>Ord\<close>: the constructors in this order, names by their bytes.\<close>

fun component_key :: "component \<Rightarrow> nat \<times> string" where
  "component_key RootDir = (0, [])"
| "component_key CurDir = (1, [])"
| "component_key ParentDir = (2, [])"
| "component_key (Normal n) = (3, n)"

lemma component_key_inj [simp]: "component_key a = component_key b \<longleftrightarrow> a = b"
  by (cases a; cases b) simp_all

instantiation component :: linorder
begin

definition less_eq_component :: "component \<Rightarrow> component \<Rightarrow> bool" where
  "a \<le> b \<longleftrightarrow> component_key a \<le> component_key b"

definition less_component :: "component \<Rightarrow> component \<Rightarrow> bool" where
  "a < b \<longleftrightarrow> component_key a < component_key b"

instance
  by standard (auto simp: less_eq_component_def less_component_def less_le)

end

fun split_on :: "char \<Rightarrow> string \<Rightarrow> string list" where
  "split_on c [] = [[]]"
| "split_on c (x # xs) =
     (if x = c then [] # split_on c xs
      else case split_on c xs of [] \<Rightarrow> [[x]] | p # ps \<Rightarrow> (x # p) # ps)"

definition is_absolute :: "string \<Rightarrow> bool" where
  "is_absolute p \<longleftrightarrow> starts_with p ''/''"

definition part_component :: "string \<Rightarrow> component list" where
  "part_component s =
     (if s = [] \<or> s = ''.'' then [] else if s = ''..'' then [ParentDir] else [Normal s])"

definition path_components :: "string \<Rightarrow> component list" where
  "path_components p =
     (let parts = split_on CHR ''/'' p
      in (if is_absolute p then [RootDir] else if hd parts = ''.'' then [CurDir] else [])
         @ concat (map part_component parts))"

definition path_eq :: "string \<Rightarrow> string \<Rightarrow> bool" where
  "path_eq a b \<longleftrightarrow> path_components a = path_components b"

definition path_ends_with :: "string \<Rightarrow> string \<Rightarrow> bool" where
  "path_ends_with p child \<longleftrightarrow> suffix (path_components child) (path_components p)"

definition meaningful_components :: "string \<Rightarrow> nat" where
  "meaningful_components p = length (filter (\<lambda>c. c \<noteq> RootDir) (path_components p))"

section \<open>Logical path equality\<close>

definition MIN_RELATIVE_SUFFIX_COMPONENTS :: nat where
  "MIN_RELATIVE_SUFFIX_COMPONENTS = 3"

definition paths_match :: "string \<Rightarrow> string \<Rightarrow> bool" where
  "paths_match a b =
     (if a = b then True
      else if is_absolute a \<and> is_absolute b then False
      else
        let a_components = meaningful_components a; b_components = meaningful_components b
        in if MIN_RELATIVE_SUFFIX_COMPONENTS \<le> b_components \<and> path_ends_with a b then True
           else if MIN_RELATIVE_SUFFIX_COMPONENTS \<le> a_components \<and> path_ends_with b a then True
           else False)"

lemma paths_match_refl [simp]: "paths_match a a"
  by (simp add: paths_match_def)

lemma paths_match_sym: "paths_match a b \<longleftrightarrow> paths_match b a"
  by (auto simp: paths_match_def Let_def)

lemma split_on_not_Nil [simp]: "split_on c s \<noteq> []"
  by (induction s) (auto split: list.splits)

lemma RootDir_iff: "RootDir \<in> set (path_components p) \<longleftrightarrow> is_absolute p"
  by (auto simp: path_components_def Let_def part_component_def split: if_splits)

lemma suffix_meaningful:
  "path_ends_with p c \<Longrightarrow> meaningful_components c \<le> meaningful_components p"
  by (auto simp: path_ends_with_def meaningful_components_def suffix_def)

text \<open>Two different paths match only if one is relative and a proper suffix of at least three components.\<close>

lemma paths_match_floor:
  assumes "paths_match a b" "a \<noteq> b"
  shows "\<not> (is_absolute a \<and> is_absolute b)"
    and "MIN_RELATIVE_SUFFIX_COMPONENTS \<le> meaningful_components a"
    and "MIN_RELATIVE_SUFFIX_COMPONENTS \<le> meaningful_components b"
    and "path_ends_with a b \<or> path_ends_with b a"
  using assms suffix_meaningful [of a b] suffix_meaningful [of b a]
  by (auto simp: paths_match_def Let_def split: if_splits)

end
