(* ===== verification/Typosquat.thy ===== *)
theory Typosquat
  imports Builder Paths
begin

text \<open>
  The offline typosquat detector (\<open>detectors/typosquat.rs\<close>): a declared dependency whose name is one edit away from a
  popular package of its ecosystem. The embedded lists of popular names are an argument (the text of the resource
  of each ecosystem); a \<open>HashSet\<close> is the list of its elements in any order.

  Shown: the three-row dynamic programme computes the recursive optimal-string-alignment distance, and its answer is
  exactly ``one insertion, deletion, substitution or swap of neighbours apart''; the reported target does not depend on
  the order of the set; what the scan reports.
\<close>

section \<open>Names\<close>

datatype ecosystem = PyPI | Npm | CratesIo

primrec osv_name :: "ecosystem \<Rightarrow> string" where
  "osv_name PyPI = ''PyPI''"
| "osv_name Npm = ''npm''"
| "osv_name CratesIo = ''crates.io''"

record parsed_dependency =
  pd_name :: string
  pd_version :: "string option"
  pd_ecosystem :: ecosystem
  pd_source_artifact :: string

definition SUPPLY_CHAIN_TYPOSQUAT :: string where
  "SUPPLY_CHAIN_TYPOSQUAT = ''SUPPLY_CHAIN_TYPOSQUAT''"

definition MIN_TYPOSQUAT_NAME_LEN :: nat where
  "MIN_TYPOSQUAT_NAME_LEN = 4"

definition TYPOSQUAT_CONFIDENCE :: f32 where
  "TYPOSQUAT_CONFIDENCE = f32_of_rat (6 / 10)"

text \<open>The PyPI loop: a run of separators becomes one dash.\<close>

fun fold_separators :: "bool \<Rightarrow> string \<Rightarrow> string" where
  "fold_separators prev_sep [] = []"
| "fold_separators prev_sep (ch # chs) =
     (if ch = CHR ''-'' \<or> ch = CHR ''_'' \<or> ch = CHR ''.''
      then if \<not> prev_sep then CHR ''-'' # fold_separators True chs else fold_separators prev_sep chs
      else ch # fold_separators False chs)"

definition canonical :: "string \<Rightarrow> ecosystem \<Rightarrow> string" where
  "canonical name eco =
     (let lower = to_ascii_lowercase (str_trim name)
      in case eco of
           PyPI \<Rightarrow> fold_separators False lower
         | CratesIo \<Rightarrow> map (\<lambda>ch. if ch = CHR ''_'' then CHR ''-'' else ch) lower
         | Npm \<Rightarrow> lower)"

definition is_known_legitimate :: "string \<Rightarrow> ecosystem \<Rightarrow> bool" where
  "is_known_legitimate canon eco =
     (let allowlist = (case eco of Npm \<Rightarrow> [''preact'', ''color''] | PyPI \<Rightarrow> [] | CratesIo \<Rightarrow> [])
      in canon \<in> set allowlist)"

definition popular_set :: "(ecosystem \<Rightarrow> string) \<Rightarrow> ecosystem \<Rightarrow> string list" where
  "popular_set resource eco =
     remdups (map (\<lambda>line. canonical line eco)
       (filter (\<lambda>line. line \<noteq> [] \<and> \<not> starts_with line ''#'') (map str_trim (str_lines (resource eco)))))"

section \<open>Distance\<close>

definition abs_diff :: "nat \<Rightarrow> nat \<Rightarrow> nat" where
  "abs_diff m n = (if m \<le> n then n - m else m - n)"

text \<open>One entry of a row: \<open>prev_prev\<close> and \<open>prev\<close> are the rows before, \<open>curr\<close> is filled up to \<open>j - 1\<close>.\<close>

definition osa_entry ::
    "'a list \<Rightarrow> 'a list \<Rightarrow> nat list \<Rightarrow> nat list \<Rightarrow> nat list \<Rightarrow> nat \<Rightarrow> nat \<Rightarrow> nat" where
  "osa_entry a b prev_prev prev cur i j =
     (let cost = (if a ! (i - 1) \<noteq> b ! (j - 1) then 1 else 0);
          best = min (min (prev ! j + 1) (cur ! (j - 1) + 1)) (prev ! (j - 1) + cost)
      in if 1 < i \<and> 1 < j \<and> a ! (i - 1) = b ! (j - 2) \<and> a ! (i - 2) = b ! (j - 1)
         then min best (prev_prev ! (j - 2) + 1) else best)"

definition osa_row :: "'a list \<Rightarrow> 'a list \<Rightarrow> nat list \<Rightarrow> nat list \<Rightarrow> nat \<Rightarrow> nat list" where
  "osa_row a b prev_prev prev i =
     foldl (\<lambda>cur j. cur[j := osa_entry a b prev_prev prev cur i j])
       ((replicate (length b + 1) 0)[0 := i]) [1..<length b + 1]"

definition osa_rows :: "'a list \<Rightarrow> 'a list \<Rightarrow> nat \<Rightarrow> nat list \<times> nat list" where
  "osa_rows a b n =
     foldl (\<lambda>(prev_prev, prev) i. (prev, osa_row a b prev_prev prev i))
       (replicate (length b + 1) 0, [0..<length b + 1]) [1..<n + 1]"

definition is_edit_distance_one :: "string \<Rightarrow> string \<Rightarrow> bool" where
  "is_edit_distance_one s t =
     (let a = str_chars s; b = str_chars t
      in if 1 < abs_diff (length a) (length b) then False
         else snd (osa_rows a b (length a)) ! length b = 1)"

section \<open>Scan\<close>

text \<open>\<open>Iterator::min\<close>.\<close>

fun iter_min :: "'a::linorder list \<Rightarrow> 'a option" where
  "iter_min [] = None"
| "iter_min (x # xs) = Some (foldl min x xs)"

definition find_typosquat_target :: "string \<Rightarrow> string list \<Rightarrow> string option" where
  "find_typosquat_target canon popular = iter_min (filter (is_edit_distance_one canon) popular)"

definition typosquat_finding :: "parsed_dependency \<Rightarrow> string \<Rightarrow> finding" where
  "typosquat_finding dep target =
     build_with SUPPLY_CHAIN_TYPOSQUAT SupplyChain
       [Set_severity Medium, Set_confidence TYPOSQUAT_CONFIDENCE, Set_action RequireApproval,
        Set_evidence_kind Behavior, Set_artifact PackageManifest (Some (pd_source_artifact dep)),
        Set_matched_on (ReferencedFile (pd_source_artifact dep)),
        Set_match_value (pd_name dep @ '' ~ '' @ target @ '' ('' @ osv_name (pd_ecosystem dep) @ '')''),
        Set_reason (''Dependency '' @ [CHR 0x27] @ pd_name dep @ [CHR 0x27] @ '' is one edit away from the popular ''
          @ osv_name (pd_ecosystem dep) @ '' package '' @ [CHR 0x27] @ target @ [CHR 0x27] @ ''; possible typosquat'')]"

type_synonym squat_key = "ecosystem \<times> string \<times> string"

fun scan_typosquat_from :: "(ecosystem \<Rightarrow> string list) \<Rightarrow> squat_key set \<Rightarrow> parsed_dependency list \<Rightarrow> finding list" where
  "scan_typosquat_from popular seen [] = []"
| "scan_typosquat_from popular seen (dep # deps) =
     (let eco = pd_ecosystem dep; canon = canonical (pd_name dep) eco
      in if length (str_chars canon) < MIN_TYPOSQUAT_NAME_LEN then scan_typosquat_from popular seen deps
         else if canon \<in> set (popular eco) \<or> is_known_legitimate canon eco then scan_typosquat_from popular seen deps
         else
           case find_typosquat_target canon (popular eco) of
             None \<Rightarrow> scan_typosquat_from popular seen deps
           | Some target \<Rightarrow>
               if (eco, canon, target) \<in> seen then scan_typosquat_from popular seen deps
               else typosquat_finding dep target # scan_typosquat_from popular (insert (eco, canon, target) seen) deps)"

definition scan_typosquat :: "(ecosystem \<Rightarrow> string) \<Rightarrow> parsed_dependency list \<Rightarrow> finding list" where
  "scan_typosquat resource deps = scan_typosquat_from (popular_set resource) {} deps"

section \<open>The distance, recursively\<close>

text \<open>Over the reversed prefixes, so that the last characters come first.\<close>

fun osa :: "'a list \<Rightarrow> 'a list \<Rightarrow> nat" where
  "osa [] ys = length ys"
| "osa xs [] = length xs"
| "osa (x # xs) (y # ys) =
     (let best = min (min (osa xs (y # ys) + 1) (osa (x # xs) ys + 1)) (osa xs ys + (if x = y then 0 else 1))
      in case (xs, ys) of
           (x' # xs', y' # ys') \<Rightarrow> if x = y' \<and> x' = y then min best (osa xs' ys' + 1) else best
         | _ \<Rightarrow> best)"

definition osa_prefix :: "'a list \<Rightarrow> 'a list \<Rightarrow> nat \<Rightarrow> nat \<Rightarrow> nat" where
  "osa_prefix a b i j = osa (rev (take i a)) (rev (take j b))"

lemma osa_Nil2 [simp]: "osa xs [] = length xs"
  by (cases xs) auto

lemma osa_prefix_0:
  "j \<le> length b \<Longrightarrow> osa_prefix a b 0 j = j" "i \<le> length a \<Longrightarrow> osa_prefix a b i 0 = i"
  by (simp_all add: osa_prefix_def)

lemma rev_take_Suc: "i < length a \<Longrightarrow> rev (take (Suc i) a) = a ! i # rev (take i a)"
  by (simp add: take_Suc_conv_app_nth)

lemma osa_Cons:
  "osa (x # xs) (y # ys) =
     (let best = min (min (osa xs (y # ys) + 1) (osa (x # xs) ys + 1)) (osa xs ys + (if x = y then 0 else 1))
      in if xs \<noteq> [] \<and> ys \<noteq> [] \<and> x = hd ys \<and> hd xs = y then min best (osa (tl xs) (tl ys) + 1) else best)"
  unfolding osa.simps(3) [of x xs y ys] by (cases xs; cases ys) (auto simp del: osa.simps)

lemma hd_rev_take: "0 < i \<Longrightarrow> i \<le> length a \<Longrightarrow> hd (rev (take i a)) = a ! (i - 1)"
  by (cases i) (simp_all add: rev_take_Suc)

lemma tl_rev_take: "0 < i \<Longrightarrow> i \<le> length a \<Longrightarrow> tl (rev (take i a)) = rev (take (i - 1) a)"
  by (cases i) (simp_all add: rev_take_Suc)

lemma osa_prefix_Suc:
  assumes "i < length a" "j < length b"
  shows "osa_prefix a b (Suc i) (Suc j) =
    (let best = min (min (osa_prefix a b i (Suc j) + 1) (osa_prefix a b (Suc i) j + 1))
                  (osa_prefix a b i j + (if a ! i = b ! j then 0 else 1))
     in if 0 < i \<and> 0 < j \<and> a ! i = b ! (j - 1) \<and> a ! (i - 1) = b ! j
        then min best (osa_prefix a b (i - 1) (j - 1) + 1) else best)"
proof -
  have ne: "rev (take i a) \<noteq> [] \<longleftrightarrow> 0 < i" "rev (take j b) \<noteq> [] \<longleftrightarrow> 0 < j"
    using assms by auto
  show ?thesis
    using assms unfolding osa_prefix_def rev_take_Suc [OF assms(1)] rev_take_Suc [OF assms(2)] osa_Cons Let_def ne
    by (auto simp: hd_rev_take tl_rev_take simp del: osa.simps)
qed

section \<open>The rows are those of the recursion\<close>

lemma replicate_head: "0 < k \<Longrightarrow> (replicate k x)[0 := v] = v # replicate (k - Suc 0) x"
  by (cases k) simp_all

lemma osa_row_prefix:
  assumes a: "Suc i \<le> length a"
    and prev: "prev = map (osa_prefix a b i) [0..<length b + 1]"
    and prev_prev: "0 < i \<Longrightarrow> prev_prev = map (osa_prefix a b (i - 1)) [0..<length b + 1]"
  shows "osa_row a b prev_prev prev (Suc i) = map (osa_prefix a b (Suc i)) [0..<length b + 1]"
proof -
  let ?step = "\<lambda>cur j. cur[j := osa_entry a b prev_prev prev cur (Suc i) j]"
  have "n \<le> length b \<Longrightarrow>
      foldl ?step ((replicate (length b + 1) 0)[0 := Suc i]) [1..<Suc n]
      = map (osa_prefix a b (Suc i)) [0..<Suc n] @ replicate (length b - n) 0" for n
  proof (induction n)
    case 0
    show ?case using a by (simp add: osa_prefix_0)
  next
    case (Suc n)
    let ?cur = "map (osa_prefix a b (Suc i)) [0..<Suc n] @ replicate (length b - n) 0"
    have nth: "?cur ! j = osa_prefix a b (Suc i) j" if "j \<le> n" for j
      using that by (simp add: nth_append del: upt_Suc)
    have "osa_entry a b prev_prev prev ?cur (Suc i) (Suc n) = osa_prefix a b (Suc i) (Suc n)"
      using Suc.prems a prev_prev
      by (simp add: osa_entry_def Let_def osa_prefix_Suc nth prev del: upt_Suc)
    moreover have "?cur[Suc n := v] = map (osa_prefix a b (Suc i)) [0..<Suc n] @ v # replicate (length b - Suc n) 0" for v
      using Suc.prems by (simp add: list_update_append replicate_head del: upt_Suc)
    ultimately show ?case using Suc by simp
  qed
  from this [of "length b"] show ?thesis by (simp add: osa_row_def)
qed

lemma osa_rows_prefix:
  "n \<le> length a \<Longrightarrow>
     snd (osa_rows a b n) = map (osa_prefix a b n) [0..<length b + 1]
     \<and> (0 < n \<longrightarrow> fst (osa_rows a b n) = map (osa_prefix a b (n - 1)) [0..<length b + 1])"
proof (induction n)
  case 0
  show ?case by (auto simp: osa_rows_def osa_prefix_0 intro!: nth_equalityI simp del: upt_Suc)
next
  case (Suc n)
  let ?r = "osa_rows a b n"
  have r: "osa_rows a b (Suc n) = (snd ?r, osa_row a b (fst ?r) (snd ?r) (Suc n))"
    by (simp add: osa_rows_def case_prod_unfold)
  show ?case
    using Suc osa_row_prefix [of n a "snd ?r" b "fst ?r"] unfolding r by simp
qed

theorem osa_rows_distance: "snd (osa_rows a b (length a)) ! length b = osa (rev a) (rev b)"
  using osa_rows_prefix [of "length a" a b] by (simp add: osa_prefix_def del: upt_Suc)

section \<open>Distance one\<close>

text \<open>One insertion, deletion, substitution, or swap of neighbours.\<close>

definition one_edit :: "'a list \<Rightarrow> 'a list \<Rightarrow> bool" where
  "one_edit a b \<longleftrightarrow>
     (\<exists>x y c. a = x @ c # y \<and> b = x @ y)
     \<or> (\<exists>x y c. a = x @ y \<and> b = x @ c # y)
     \<or> (\<exists>x y c d. a = x @ c # y \<and> b = x @ d # y \<and> c \<noteq> d)
     \<or> (\<exists>x y c d. a = x @ c # d # y \<and> b = x @ d # c # y \<and> c \<noteq> d)"


lemma one_edit_delete: "one_edit (x @ c # y) (x @ y)"
  and one_edit_insert: "one_edit (x @ y) (x @ c # y)"
  and one_edit_subst: "c \<noteq> d \<Longrightarrow> one_edit (x @ c # y) (x @ d # y)"
  and one_edit_swap: "c \<noteq> d \<Longrightarrow> one_edit (x @ c # d # y) (x @ d # c # y)"
  unfolding one_edit_def by metis+

lemma one_edit_neq: "one_edit a b \<Longrightarrow> a \<noteq> b"
  by (auto simp: one_edit_def dest: arg_cong [where f = length])

lemma one_edit_rev: "one_edit a b \<Longrightarrow> one_edit (rev a) (rev b)"
proof -
  have s: "rev (x @ c # y) = rev y @ c # rev x" "rev (x @ c # d # y) = rev y @ d # c # rev x" for x y :: "'a list" and c d
    by simp_all
  show "one_edit a b \<Longrightarrow> one_edit (rev a) (rev b)"
    unfolding one_edit_def by (elim disjE exE conjE) (metis s rev_append)+
qed

lemma one_edit_Cons: "one_edit a b \<Longrightarrow> one_edit (x # a) (x # b)"
  unfolding one_edit_def by (elim disjE exE conjE) (metis append_Cons)+

lemma one_edit_length: "one_edit a b \<Longrightarrow> abs_diff (length a) (length b) \<le> 1"
  by (auto simp: one_edit_def abs_diff_def)

lemma osa_zero: "osa xs ys = 0 \<longleftrightarrow> xs = ys"
proof (induction xs ys rule: osa.induct)
  case (3 x xs y ys)
  then show ?case
    using osa_Cons [of x xs y ys] by (auto simp: Let_def min_def simp del: osa.simps split: if_splits)
qed auto

lemma osa_subst_le: "osa (x # xs) (y # ys) \<le> osa xs ys + (if x = y then 0 else 1)"
  unfolding osa_Cons [of x xs y ys] by (simp add: Let_def min_le_iff_disj del: osa.simps)

lemma osa_delete_le: "osa (x # xs) ys \<le> osa xs ys + 1"
proof (cases ys)
  case (Cons y ys')
  then show ?thesis unfolding Cons osa_Cons [of x xs y ys'] by (simp add: Let_def min_le_iff_disj del: osa.simps)
qed simp

lemma osa_insert_le: "osa xs (y # ys) \<le> osa xs ys + 1"
proof (cases xs)
  case (Cons x xs')
  then show ?thesis unfolding Cons osa_Cons [of x xs' y ys] by (simp add: Let_def min_le_iff_disj del: osa.simps)
qed simp

lemma osa_swap_le: "osa (x # y # xs) (y # x # ys) \<le> osa xs ys + 1"
  unfolding osa_Cons [of x "y # xs" y "x # ys"] by (simp add: Let_def min_le_iff_disj del: osa.simps)

lemma osa_append_le: "osa (p @ xs) (p @ ys) \<le> osa xs ys"
proof (induction p)
  case (Cons c p)
  then show ?case using osa_subst_le [of c "p @ xs" c "p @ ys"] by (simp del: osa.simps)
qed simp

lemma osa_one: "osa xs ys = 1 \<longleftrightarrow> one_edit xs ys"
proof
  assume "one_edit xs ys"
  moreover have "osa xs ys \<le> 1"
    using calculation unfolding one_edit_def
  proof (elim disjE exE conjE)
    fix x y c assume "xs = x @ c # y" "ys = x @ y"
    then show "osa xs ys \<le> 1"
      using osa_append_le [of x "c # y" y] osa_delete_le [of c y y] osa_zero [of y y] by (simp del: osa.simps)
  next
    fix x y c assume "xs = x @ y" "ys = x @ c # y"
    then show "osa xs ys \<le> 1"
      using osa_append_le [of x y "c # y"] osa_insert_le [of y c y] osa_zero [of y y] by (simp del: osa.simps)
  next
    fix x y c d assume "xs = x @ c # y" "ys = x @ d # y" "c \<noteq> d"
    then show "osa xs ys \<le> 1"
      using osa_append_le [of x "c # y" "d # y"] osa_subst_le [of c y d y] osa_zero [of y y] by (simp del: osa.simps)
  next
    fix x y c d assume "xs = x @ c # d # y" "ys = x @ d # c # y"
    then show "osa xs ys \<le> 1"
      using osa_append_le [of x "c # d # y" "d # c # y"] osa_swap_le [of c d y y] osa_zero [of y y] by (simp del: osa.simps)
  qed
  ultimately show "osa xs ys = 1" using osa_zero [of xs ys] one_edit_neq [of xs ys] by (metis le_neq_implies_less less_one)
next
  show "osa xs ys = 1 \<Longrightarrow> one_edit xs ys"
  proof (induction xs ys rule: osa.induct)
    case (1 ys)
    then obtain c where "ys = [c]" by (auto simp: length_Suc_conv)
    then show ?case unfolding one_edit_def by force
  next
    case (2 x xs)
    then show ?case unfolding one_edit_def by force
  next
    case (3 x xs y ys)
    note IH = 3(3) and one = 3(5)
    consider
        "osa xs (y # ys) = 0" | "osa (x # xs) ys = 0" | "osa xs ys = 0" "x \<noteq> y" | "osa xs ys = 1" "x = y"
      | "xs \<noteq> []" "ys \<noteq> []" "x = hd ys" "hd xs = y" "osa (tl xs) (tl ys) = 0"
      using one osa_Cons [of x xs y ys] by (auto simp: min_def Let_def simp del: osa.simps split: if_splits)
    then show ?case
    proof cases
      case 1
      then show ?thesis using one_edit_delete [of "[]" x xs] by (simp only: osa_zero append_Nil)
    next
      case 2
      then show ?thesis using one_edit_insert [of "[]" ys y] by (simp only: osa_zero append_Nil)
    next
      case 3
      then show ?thesis using one_edit_subst [of x y "[]" xs] by (simp add: osa_zero)
    next
      case 4
      then show ?thesis using IH one_edit_Cons by simp
    next
      case 5
      then obtain xs' where e: "xs = y # xs'" "ys = x # xs'"
        unfolding osa_zero by (cases xs; cases ys) auto
      moreover have "x \<noteq> y" using one osa_zero [of "x # xs" "y # ys"] e by (auto simp del: osa.simps)
      ultimately show ?thesis using one_edit_swap [of x y "[]" xs'] by simp
    qed
  qed
qed


section \<open>The scan\<close>

lemma iter_min_Min: "xs \<noteq> [] \<Longrightarrow> iter_min xs = Some (Min (set xs))"
  by (cases xs) (simp_all add: Min.set_eq_fold foldl_conv_fold fold_commute min.commute flip: Min.set_eq_fold)

text \<open>The name a dependency is reported for, if any.\<close>

definition squat_of :: "(ecosystem \<Rightarrow> string list) \<Rightarrow> parsed_dependency \<Rightarrow> squat_key option" where
  "squat_of popular dep =
     (let eco = pd_ecosystem dep; canon = canonical (pd_name dep) eco
      in if length (str_chars canon) < MIN_TYPOSQUAT_NAME_LEN \<or> canon \<in> set (popular eco) \<or> is_known_legitimate canon eco
         then None
         else map_option (\<lambda>target. (eco, canon, target)) (find_typosquat_target canon (popular eco)))"

text \<open>The dependencies with a key, the first of each key.\<close>

fun first_of_each :: "('a \<Rightarrow> 'k option) \<Rightarrow> 'k set \<Rightarrow> 'a list \<Rightarrow> ('a \<times> 'k) list" where
  "first_of_each key seen [] = []"
| "first_of_each key seen (x # xs) =
     (case key x of
        None \<Rightarrow> first_of_each key seen xs
      | Some k \<Rightarrow> if k \<in> seen then first_of_each key seen xs else (x, k) # first_of_each key (insert k seen) xs)"

lemma first_of_each_keys:
  "distinct (map snd (first_of_each key seen xs))
   \<and> set (map snd (first_of_each key seen xs)) = {k. \<exists>x\<in>set xs. key x = Some k} - seen"
  by (induction key seen xs rule: first_of_each.induct) (auto split: option.splits)

lemma first_of_each_mem: "(x, k) \<in> set (first_of_each key seen xs) \<Longrightarrow> x \<in> set xs \<and> key x = Some k"
  by (induction key seen xs rule: first_of_each.induct) (auto split: option.splits if_splits)

lemma scan_first_of_each:
  "scan_typosquat_from popular seen deps =
     map (\<lambda>(dep, eco, canon, target). typosquat_finding dep target) (first_of_each (squat_of popular) seen deps)"
proof (induction deps arbitrary: seen)
  case (Cons dep deps)
  show ?case
    by (cases "find_typosquat_target (canonical (pd_name dep) (pd_ecosystem dep)) (popular (pd_ecosystem dep))")
       (auto simp: squat_of_def Let_def Cons)
qed simp

section \<open>Properties\<close>

lemma edit_distance_one: "is_edit_distance_one s t \<longleftrightarrow> one_edit (str_chars s) (str_chars t)"
proof -
  have "snd (osa_rows (str_chars s) (str_chars t) (length (str_chars s))) ! length (str_chars t) = 1
      \<longleftrightarrow> one_edit (rev (str_chars s)) (rev (str_chars t))"
    unfolding osa_rows_distance osa_one ..
  also have "\<dots> \<longleftrightarrow> one_edit (str_chars s) (str_chars t)"
    using one_edit_rev [of "rev (str_chars s)" "rev (str_chars t)"] one_edit_rev [of "str_chars s" "str_chars t"] by auto
  finally show ?thesis
    using one_edit_length [of "str_chars s" "str_chars t"] by (auto simp: is_edit_distance_one_def Let_def not_less)
qed

text \<open>
  Claim C36: the three-row dynamic programme with its early exit answers exactly whether one name becomes the other
  by one insertion or deletion of a character, one substitution by a different one, or one swap of two
  different neighbours; in particular never for equal names.
\<close>

theorem edit_distance_one_exact:
  "is_edit_distance_one s t \<longleftrightarrow>
     (\<exists>x y c. str_chars s = x @ c # y \<and> str_chars t = x @ y)
     \<or> (\<exists>x y c. str_chars s = x @ y \<and> str_chars t = x @ c # y)
     \<or> (\<exists>x y c d. str_chars s = x @ c # y \<and> str_chars t = x @ d # y \<and> c \<noteq> d)
     \<or> (\<exists>x y c d. str_chars s = x @ c # d # y \<and> str_chars t = x @ d # c # y \<and> c \<noteq> d)"
  unfolding edit_distance_one one_edit_def ..

text \<open>
  the scan reports, once per ecosystem, canonical name and target, the first dependency whose canonical name has
  at least four characters, is not itself popular or allowlisted, and is one edit from a popular name; the target is the
  smallest such popular name, whatever the order in which the popular names are held.
\<close>

theorem typosquats_reported:
  "\<exists>hits. scan_typosquat resource deps = map (\<lambda>(dep, eco, canon, target). typosquat_finding dep target) hits
     \<and> distinct (map snd hits)
     \<and> set (map snd hits) =
         {(pd_ecosystem dep, canonical (pd_name dep) (pd_ecosystem dep), target) | dep target.
            dep \<in> set deps \<and> 4 \<le> length (str_chars (canonical (pd_name dep) (pd_ecosystem dep)))
            \<and> canonical (pd_name dep) (pd_ecosystem dep) \<notin> set (popular_set resource (pd_ecosystem dep))
            \<and> \<not> is_known_legitimate (canonical (pd_name dep) (pd_ecosystem dep)) (pd_ecosystem dep)
            \<and> {n \<in> set (popular_set resource (pd_ecosystem dep)).
                 one_edit (str_chars (canonical (pd_name dep) (pd_ecosystem dep))) (str_chars n)} \<noteq> {}
            \<and> target = Min {n \<in> set (popular_set resource (pd_ecosystem dep)).
                 one_edit (str_chars (canonical (pd_name dep) (pd_ecosystem dep))) (str_chars n)}}"
proof -
  let ?hits = "first_of_each (squat_of (popular_set resource)) {} deps"
  have target: "find_typosquat_target canon names = Some t \<longleftrightarrow>
      {n \<in> set names. one_edit (str_chars canon) (str_chars n)} \<noteq> {}
      \<and> t = Min {n \<in> set names. one_edit (str_chars canon) (str_chars n)}" for canon names t
  proof (cases "filter (is_edit_distance_one canon) names = []")
    case True
    then show ?thesis by (auto simp: find_typosquat_target_def filter_empty_conv edit_distance_one)
  next
    case False
    then have "{n \<in> set names. one_edit (str_chars canon) (str_chars n)} \<noteq> {}"
      by (auto simp: filter_empty_conv edit_distance_one)
    with False show ?thesis
      by (auto simp: find_typosquat_target_def iter_min_Min edit_distance_one)
  qed
  have key: "squat_of (popular_set resource) dep = Some k \<longleftrightarrow>
      (\<exists>t. k = (pd_ecosystem dep, canonical (pd_name dep) (pd_ecosystem dep), t)
        \<and> 4 \<le> length (str_chars (canonical (pd_name dep) (pd_ecosystem dep)))
        \<and> canonical (pd_name dep) (pd_ecosystem dep) \<notin> set (popular_set resource (pd_ecosystem dep))
        \<and> \<not> is_known_legitimate (canonical (pd_name dep) (pd_ecosystem dep)) (pd_ecosystem dep)
        \<and> find_typosquat_target (canonical (pd_name dep) (pd_ecosystem dep)) (popular_set resource (pd_ecosystem dep)) = Some t)"
    for dep k
    by (auto simp: squat_of_def Let_def MIN_TYPOSQUAT_NAME_LEN_def)
  have "scan_typosquat resource deps = map (\<lambda>(dep, eco, canon, target). typosquat_finding dep target) ?hits"
    by (simp add: scan_typosquat_def scan_first_of_each)
  moreover have "distinct (map snd ?hits)"
    and hits: "set (map snd ?hits) = {k. \<exists>x\<in>set deps. squat_of (popular_set resource) x = Some k}"
    using first_of_each_keys [of "squat_of (popular_set resource)" "{}" deps] by simp_all
  ultimately show ?thesis
    by (intro exI [of _ ?hits] conjI) (assumption, assumption, simp only: hits key target, blast)
qed

end
