(* ===== verification/Dedup.thy ===== *)
theory Dedup
  imports Builder Paths
begin

text \<open>
  \<open>findings/dedup.rs\<close>: findings with the same identity key are merged into one, the qualitative
  fields of the strongest, the maximum of the scalar ones; and the split of findings into those of
  the primary artifact and the supporting ones. Shown: the keys of the result are distinct and
  those of the input, no action or severity is lost, action and signal class come from the same finding,
  deduplication is idempotent.
\<close>

record deduplication_summary =
  original_findings :: nat
  unique_findings :: nat
  duplicates_removed :: nat

text \<open>\<open>FindingDedupKey\<close>, ordered field by field as \<open>derive(Ord)\<close> does.\<close>

type_synonym dedup_identity =
  "string \<times> threat_category \<times> string \<times> string \<times> artifact_kind \<times> artifact_scope \<times> string option"

fun dedup_matched_on :: "match_target \<Rightarrow> string" where
  "dedup_matched_on Document = ''document''"
| "dedup_matched_on (Section name) = ''section:'' @ to_ascii_lowercase name"
| "dedup_matched_on (CodeBlock language) =
     ''code_block:'' @ to_ascii_lowercase (case language of Some l \<Rightarrow> l | None \<Rightarrow> ''unknown'')"
| "dedup_matched_on (ReferencedFile path) = ''file:'' @ path"

definition dedup_key :: "finding \<Rightarrow> dedup_identity" where
  "dedup_key f =
     (rule_id f, category f, dedup_matched_on (matched_on f), to_ascii_lowercase (match_value f),
      f_artifact_kind f, f_artifact_scope f, artifact_path f)"

section \<open>Primary and supporting findings\<close>

definition primary_path_matches :: "string \<Rightarrow> string \<Rightarrow> bool" where
  "primary_path_matches primary ap =
     (if ap = [] then False
      else if path_eq ap primary then True
      else if is_absolute ap \<and> is_absolute primary then False
      else
        let ap_components = meaningful_components ap; primary_components = meaningful_components primary
        in if ap_components = 1 then path_ends_with primary ap
           else if MIN_RELATIVE_SUFFIX_COMPONENTS \<le> ap_components \<and> path_ends_with primary ap then True
           else if MIN_RELATIVE_SUFFIX_COMPONENTS \<le> primary_components \<and> path_ends_with ap primary then True
           else False)"

definition is_primary_finding :: "string \<Rightarrow> artifact_kind \<Rightarrow> finding \<Rightarrow> bool" where
  "is_primary_finding path kind f \<longleftrightarrow>
     f_artifact_kind f = kind
     \<and> (artifact_path f = None
        \<or> (case artifact_path f of Some ap \<Rightarrow> primary_path_matches path ap | None \<Rightarrow> False))"

definition split_findings_by_scope ::
  "string \<Rightarrow> artifact_kind \<Rightarrow> finding list \<Rightarrow> finding list \<times> finding list" where
  "split_findings_by_scope path kind fs = partition (is_primary_finding path kind) fs"

text \<open>
  Scope attribution and waiver matching agree: every path a waiver for the primary path would match is the
  primary's, and beyond these only another spelling of the same path or a bare file name.
\<close>

lemma primary_path_matches_iff:
  "primary_path_matches p ap \<longleftrightarrow>
     ap \<noteq> [] \<and> (paths_match p ap \<or> path_eq ap p
       \<or> \<not> (is_absolute ap \<and> is_absolute p) \<and> meaningful_components ap = 1 \<and> path_ends_with p ap)"
  using suffix_meaningful [of ap p]
  by (auto simp: primary_path_matches_def paths_match_def path_eq_def Let_def
      MIN_RELATIVE_SUFFIX_COMPONENTS_def)

section \<open>Merging duplicates\<close>

definition partial_cmp_or_equal :: "f32 \<Rightarrow> f32 \<Rightarrow> ordering" where
  "partial_cmp_or_equal a b = (case f_partial_cmp a b of Some o' \<Rightarrow> o' | None \<Rightarrow> Equal)"

definition cmp_finding_strength :: "finding \<Rightarrow> finding \<Rightarrow> ordering" where
  "cmp_finding_strength c e =
     then_with (ord_cmp (f_action c) (f_action e))
     (then_with (ord_cmp (f_severity c) (f_severity e))
       (partial_cmp_or_equal (confidence c) (confidence e)))"

definition merge_into :: "finding \<Rightarrow> finding \<Rightarrow> finding" where
  "merge_into existing candidate =
     (let order = cmp_finding_strength candidate existing;
          e1 = existing\<lparr>f_severity := max (f_severity existing) (f_severity candidate)\<rparr>;
          e2 = (if f_is_nan (confidence e1)
                   \<or> \<not> f_is_nan (confidence candidate) \<and> f_lt (confidence e1) (confidence candidate)
                then e1\<lparr>confidence := confidence candidate\<rparr> else e1);
          e3 = (if order = Greater then
                  e2\<lparr>f_action := f_action candidate, f_signal_class := f_signal_class candidate,
                     f_evidence_kind := f_evidence_kind candidate,
                     raw_confidence := raw_confidence candidate,
                     confidence_rationale := confidence_rationale candidate,
                     reason := reason candidate, remediation := remediation candidate\<rparr>
                else if order = Equal then
                  let e = (if length (reason e2) < length (reason candidate)
                           then e2\<lparr>reason := reason candidate\<rparr> else e2)
                  in if length (remediation e) < length (remediation candidate)
                     then e\<lparr>remediation := remediation candidate\<rparr> else e
                else e2);
          e4 = (if line_number e3 = None then e3\<lparr>line_number := line_number candidate\<rparr> else e3)
      in e4\<lparr>operational_contexts :=
           foldl (\<lambda>acc c. push_new c acc) (operational_contexts e4) (operational_contexts candidate)\<rparr>)"

fun dedup_entry :: "finding \<Rightarrow> finding option \<Rightarrow> finding" where
  "dedup_entry f None = f"
| "dedup_entry f (Some e) = merge_into e f"

definition unique_order :: "finding \<Rightarrow> finding \<Rightarrow> ordering" where
  "unique_order l r =
     then_with (ord_cmp (rule_id l) (rule_id r))
     (then_with (ord_cmp (artifact_path l) (artifact_path r))
     (then_with (ord_cmp (line_number l) (line_number r))
       (ord_cmp (match_value l) (match_value r))))"

definition dedup_map :: "finding list \<Rightarrow> (dedup_identity \<times> finding) list" where
  "dedup_map fs = foldl (\<lambda>m f. bt_entry (dedup_key f) (dedup_entry f) m) [] fs"

definition deduplicate_findings :: "finding list \<Rightarrow> finding list \<times> deduplication_summary" where
  "deduplicate_findings fs =
     (let unique = sort_by unique_order (map snd (dedup_map fs));
          n = length unique
      in (unique, \<lparr>original_findings = length fs, unique_findings = n,
                   duplicates_removed = length fs - n\<rparr>))"

interpretation unique_order: comparator_laws unique_order
  unfolding unique_order_def [abs_def] by (intro comparator_then comparator_key)

section \<open>What a merged finding keeps\<close>

lemma dedup_key_merge [simp]: "dedup_key (merge_into e c) = dedup_key e"
  by (simp add: merge_into_def dedup_key_def Let_def)

lemma merge_into_fields:
  "f_severity (merge_into e c) = max (f_severity e) (f_severity c)"
  "confidence (merge_into e c) = (if f_is_nan (confidence e)
      \<or> \<not> f_is_nan (confidence c) \<and> f_lt (confidence e) (confidence c) then confidence c else confidence e)"
  by (simp_all add: merge_into_def Let_def)

text \<open>The fields that are taken as a set from one finding.\<close>

definition qualities :: "finding \<Rightarrow> recommended_action \<times> signal_class \<times> evidence_kind \<times> f32 \<times> string" where
  "qualities f = (f_action f, f_signal_class f, f_evidence_kind f, raw_confidence f, confidence_rationale f)"

lemma merge_into_qualities:
  "qualities (merge_into e c)
     = (if cmp_finding_strength c e = Greater then qualities c else qualities e)"
  by (simp add: merge_into_def qualities_def Let_def)

lemma merge_into_action: "f_action (merge_into e c) = max (f_action e) (f_action c)"
proof -
  have "f_action (merge_into e c) = (if cmp_finding_strength c e = Greater then f_action c else f_action e)"
    using merge_into_qualities [of e c] by (simp add: qualities_def split: if_splits)
  then show ?thesis
    by (auto simp: cmp_finding_strength_def ord_cmp_def max_def split: if_splits)
qed

lemma merge_fold:
  "f_severity (foldl merge_into e fs) = foldl max (f_severity e) (map f_severity fs)"
  "f_action (foldl merge_into e fs) = foldl max (f_action e) (map f_action fs)"
  "qualities (foldl merge_into e fs) \<in> qualities ` insert e (set fs)"
  "dedup_key (foldl merge_into e fs) = dedup_key e"
proof (induction fs arbitrary: e)
  case (Cons f fs)
  { case 1 show ?case by (simp add: Cons merge_into_fields) }
  { case 2 show ?case by (simp add: Cons merge_into_action) }
  { case 3
    have "qualities (merge_into e f) \<in> {qualities e, qualities f}"
      by (simp add: merge_into_qualities)
    then show ?case using Cons.IH(3) [of "merge_into e f"] by auto }
  { case 4 show ?case by (simp add: Cons) }
qed simp_all

lemma merge_fold_confidence:
  assumes "\<forall>f\<in>insert e (set fs). unit_f32 (confidence f)"
  shows "unit_f32 (confidence (foldl merge_into e fs))
    \<and> (\<forall>f\<in>insert e (set fs). f_le (confidence f) (confidence (foldl merge_into e fs)))"
  using assms
proof (induction fs arbitrary: e)
  case Nil
  then show ?case by (simp add: unit_f32_score)
next
  case (Cons f fs)
  have m: "unit_f32 (confidence (merge_into e f))" "f_le (confidence e) (confidence (merge_into e f))"
    "f_le (confidence f) (confidence (merge_into e f))"
    using Cons.prems by (auto simp: merge_into_fields unit_f32_def f_le_def f_is_nan_def)
  have "\<forall>g\<in>insert (merge_into e f) (set fs). unit_f32 (confidence g)"
    using m(1) Cons.prems by simp
  from Cons.IH [OF this] m show ?case by (auto intro: f_le_trans)
qed

section \<open>The deduplicated list\<close>

lemma dedup_map_invar: "bt_invar (dedup_map fs)"
  unfolding dedup_map_def by (rule bt.invar_fold [OF bt.invar_empty])

lemma dedup_map_get:
  "map_of (dedup_map fs) k
     = foldl (\<lambda>o' f. Some (dedup_entry f o')) None (filter (\<lambda>f. dedup_key f = k) fs)"
  using bt.get_fold [OF bt.invar_empty] by (simp add: dedup_map_def)

lemma dedup_fold_some:
  "foldl (\<lambda>o' f. Some (dedup_entry f o')) (Some e) fs = Some (foldl merge_into e fs)"
  by (induction fs arbitrary: e) auto

lemma dedup_map_item:
  assumes "(k, m) \<in> set (dedup_map fs)"
  shows "\<exists>e rest. filter (\<lambda>f. dedup_key f = k) fs = e # rest \<and> m = foldl merge_into e rest"
proof -
  have "map_of (dedup_map fs) k = Some m"
    using assms bt.items_iff [OF dedup_map_invar] by blast
  then show ?thesis
    by (cases "filter (\<lambda>f. dedup_key f = k) fs") (auto simp: dedup_map_get dedup_fold_some)
qed

lemma dedup_map_item_key: "(k, m) \<in> set (dedup_map fs) \<Longrightarrow> dedup_key m = k"
  using dedup_map_item [of k m fs] by (auto simp: merge_fold filter_eq_Cons_iff)

lemma dedup_set: "set (fst (deduplicate_findings fs)) = snd ` set (dedup_map fs)"
  by (simp add: deduplicate_findings_def Let_def)

lemma dedup_mem:
  assumes "m \<in> set (fst (deduplicate_findings fs))"
  shows "\<exists>e rest. filter (\<lambda>f. dedup_key f = dedup_key m) fs = e # rest \<and> m = foldl merge_into e rest"
proof -
  obtain k where k: "(k, m) \<in> set (dedup_map fs)" using assms by (auto simp: dedup_set)
  show ?thesis using dedup_map_item [OF k] dedup_map_item_key [OF k] by simp
qed

lemma dedup_keys: "dedup_key ` set (fst (deduplicate_findings fs)) = dedup_key ` set fs"
proof -
  have "dedup_key ` set (fst (deduplicate_findings fs)) = fst ` set (dedup_map fs)"
    unfolding dedup_set image_image
    by (intro image_cong) (auto dest: dedup_map_item_key)
  then show ?thesis unfolding dedup_map_def by (simp add: bt.keys_fold)
qed

lemma dedup_keys_distinct: "distinct (map dedup_key (fst (deduplicate_findings fs)))"
proof -
  have "map (\<lambda>e. dedup_key (snd e)) (dedup_map fs) = map fst (dedup_map fs)"
    using dedup_map_item_key by fastforce
  then show ?thesis
    using bt.items_distinct [OF dedup_map_invar [of fs]]
    unfolding deduplicate_findings_def Let_def fst_conv distinct_map_sort_by map_map comp_def by metis
qed

lemma dedup_length: "length (fst (deduplicate_findings fs)) \<le> length fs"
  using bt_fold_length [of dedup_key dedup_entry "[]" fs]
  by (simp add: deduplicate_findings_def Let_def dedup_map_def)

lemma dedup_strongest:
  assumes "m \<in> set (fst (deduplicate_findings fs))"
  defines "S \<equiv> {f \<in> set fs. dedup_key f = dedup_key m}"
  shows "f_severity m = Max (f_severity ` S)" "f_action m = Max (f_action ` S)"
    "qualities m \<in> qualities ` S"
proof -
  obtain e rest where f: "filter (\<lambda>f. dedup_key f = dedup_key m) fs = e # rest"
    and m: "m = foldl merge_into e rest"
    using dedup_mem [OF assms(1)] by blast
  have S: "S = insert e (set rest)" unfolding S_def using f by (metis list.simps(15) set_filter)
  show "f_severity m = Max (f_severity ` S)" "f_action m = Max (f_action ` S)"
    by (simp_all add: S m merge_fold foldl_max_Max)
  show "qualities m \<in> qualities ` S" unfolding S m by (rule merge_fold(3))
qed

lemma dedup_map_idem: "dedup_map (fst (deduplicate_findings fs)) = dedup_map fs"
proof (rule bt_canonical [OF dedup_map_invar dedup_map_invar], rule ext)
  fix k
  let ?u = "fst (deduplicate_findings fs)"
  have one: "filter (\<lambda>f. dedup_key f = dedup_key m) us = [m]"
    if "m \<in> set us" "distinct (map dedup_key us)" for m us
    using that by (induction us) (auto simp: filter_empty_conv rev_image_eqI)
  show "map_of (dedup_map ?u) k = map_of (dedup_map fs) k"
  proof (cases "map_of (dedup_map fs) k")
    case None
    then have "k \<notin> dedup_key ` set ?u"
      unfolding dedup_keys dedup_map_def bt.get_fold_empty_None by simp
    then have "map_of (dedup_map ?u) k = None"
      unfolding dedup_map_def bt.get_fold_empty_None .
    then show ?thesis using None by simp
  next
    case (Some m)
    then have km: "(k, m) \<in> set (dedup_map fs)" by (rule map_of_SomeD)
    then have "m \<in> set ?u" "k = dedup_key m" by (force simp: dedup_set, simp add: dedup_map_item_key)
    then have "map_of (dedup_map ?u) k = Some m"
      unfolding dedup_map_get using one [OF _ dedup_keys_distinct] by simp
    then show ?thesis using Some by simp
  qed
qed

lemma dedup_idem: "fst (deduplicate_findings (fst (deduplicate_findings fs))) = fst (deduplicate_findings fs)"
  using dedup_map_idem [of fs] by (simp add: deduplicate_findings_def Let_def)

section \<open>Properties of deduplication\<close>

text \<open>Claim C22: Deduplication keeps one finding per identity key and loses none of the keys; each kept finding has
  the strongest action and severity of its duplicates, and its action, signal class, evidence kind, raw confidence and
  rationale all come from one and the same of them.\<close>

theorem dedup_correct:
  "distinct (map dedup_key (fst (deduplicate_findings fs)))
   \<and> dedup_key ` set (fst (deduplicate_findings fs)) = dedup_key ` set fs
   \<and> list_all (\<lambda>m. let dups = filter (\<lambda>f. dedup_key f = dedup_key m) fs in
        f_action m = Max (f_action ` set dups) \<and> f_severity m = Max (f_severity ` set dups)
        \<and> qualities m \<in> qualities ` set dups) (fst (deduplicate_findings fs))
   \<and> duplicates_removed (snd (deduplicate_findings fs)) + unique_findings (snd (deduplicate_findings fs))
       = length fs"
proof -
  have "list_all (\<lambda>m. let dups = filter (\<lambda>f. dedup_key f = dedup_key m) fs in
        f_action m = Max (f_action ` set dups) \<and> f_severity m = Max (f_severity ` set dups)
        \<and> qualities m \<in> qualities ` set dups) (fst (deduplicate_findings fs))"
    using dedup_strongest [of _ fs] by (simp add: list_all_iff Let_def)
  moreover have "duplicates_removed (snd (deduplicate_findings fs))
      + unique_findings (snd (deduplicate_findings fs)) = length fs"
    using dedup_length [of fs] by (simp add: deduplicate_findings_def Let_def)
  ultimately show ?thesis using dedup_keys_distinct dedup_keys by blast
qed

text \<open>Deduplication is idempotent: a second pass changes nothing, not even the order.\<close>

theorem dedup_idempotent:
  "deduplicate_findings (fst (deduplicate_findings fs)) =
     (fst (deduplicate_findings fs),
      \<lparr>original_findings = length (fst (deduplicate_findings fs)),
       unique_findings = length (fst (deduplicate_findings fs)), duplicates_removed = 0\<rparr>)"
  using dedup_map_idem [of fs] by (simp add: deduplicate_findings_def Let_def)

text \<open>Scope attribution agrees with waiver matching: an artifact path is the primary's exactly when
  the waiver comparator matches it, or it is another spelling of the same path, or a bare
  file name at the end of the primary path.\<close>

theorem primary_path_agrees_with_waivers:
  "primary_path_matches p ap \<longleftrightarrow>
     ap \<noteq> [] \<and> (paths_match p ap \<or> path_eq ap p
       \<or> \<not> (is_absolute ap \<and> is_absolute p) \<and> meaningful_components ap = 1 \<and> path_ends_with p ap)"
  by (rule primary_path_matches_iff)

end
