(* ===== verification/Policy_Files.thy ===== *)
theory Policy_Files
  imports Dedup
begin

text \<open>
  The policy state an operator gives the scanner (\<open>policy/types.rs\<close>, \<open>policy/baseline.rs\<close>): policy
  overrides, waivers and baselines; the fingerprint of a finding and the predicates that match an entry
  against it (\<open>policy/fingerprint.rs\<close>, \<open>policy/state/matchers.rs\<close>); the validators and the loaders
  (\<open>policy/state/validators.rs\<close>, \<open>loaders.rs\<close>); the defaults of the profiles (\<open>policy/mod.rs\<close>).

  A \<open>DateTime<Utc>\<close> is an \<open>int\<close> (nanoseconds since the epoch), so \<open>Utc::now()\<close> is an argument. SHA-256
  rendered in hexadecimal, the file system and the JSON and YAML parsers are arguments as well: the
  code relies on no property of them.

  Shown: what the validators accept, exactly, and which error they report; that a loaded file is one the
  validator accepted; when a selector matches a finding.
\<close>

section \<open>Types\<close>

type_synonym instant = int

datatype policy_profile = Personal | Team | Enterprise | Research

record context_action_override =
  cao_context :: operational_context
  cao_action :: recommended_action

record configured_profile =
  cp_fail_on :: "severity option"
  cp_context_actions :: "context_action_override list"

record policy_profiles =
  personal :: "configured_profile option"
  team :: "configured_profile option"
  enterprise :: "configured_profile option"
  research :: "configured_profile option"

record policy_override =
  po_id :: "string option"
  po_rule_id :: "string option"
  po_artifact_path :: "string option"
  po_context :: "operational_context option"
  po_action :: recommended_action
  po_reason :: string
  po_expires_at :: "instant option"

record policy_file =
  pf_schema_version :: string
  pf_profiles :: policy_profiles
  pf_overrides :: "policy_override list"

record applied_policy_override =
  ao_fingerprint :: string
  ao_rule_id :: string
  ao_artifact_path :: "string option"
  ao_override_id :: "string option"
  ao_original_action :: recommended_action
  ao_effective_action :: recommended_action
  ao_specificity :: nat
  ao_reason :: string
  ao_matched_contexts :: "operational_context list"

record policy_audit =
  pa_precedence_order :: "string list"
  pa_effective_fail_on :: "severity option"
  pa_applied_overrides :: "applied_policy_override list"

record suppression_summary =
  baseline_suppressed :: nat
  waiver_suppressed :: nat
  inline_suppressed :: nat
  disposition_adjusted :: nat
  disposition_allowlisted :: nat
  active_findings :: nat

record diff_entry =
  de_fingerprint :: string
  de_rule_id :: string
  de_category :: threat_category
  de_artifact_path :: "string option"
  de_reason :: string

record diff_report =
  new_findings :: "diff_entry list"
  resolved_findings :: "diff_entry list"
  waived_findings :: "diff_entry list"
  baselined_findings :: "diff_entry list"
  unchanged_findings :: nat

record baseline_entry =
  be_fingerprint :: string
  be_rule_id :: string
  be_artifact_path :: "string option"
  be_reason :: string

record baseline_file =
  bf_schema_version :: string
  bf_entries :: "baseline_entry list"

record waiver_entry =
  we_rule_id :: "string option"
  we_artifact_path :: "string option"
  we_context :: "operational_context option"
  we_reason :: string
  we_expires_at :: "instant option"

record waiver_file =
  wf_schema_version :: string
  wf_waivers :: "waiver_entry list"

definition POLICY_AUDIT_PRECEDENCE :: "string list" where
  "POLICY_AUDIT_PRECEDENCE = [''inline_suppressions'', ''waivers'', ''baseline'', ''policy_overrides'']"

definition POLICY_SCHEMA_VERSION :: string where
  "POLICY_SCHEMA_VERSION = ''skill-veil.dev/v1alpha1''"

definition default_policy_schema_version :: string where
  "default_policy_schema_version = POLICY_SCHEMA_VERSION"

definition default_policy_profiles :: policy_profiles where
  "default_policy_profiles = \<lparr>personal = None, team = None, enterprise = None, research = None\<rparr>"

definition default_policy_file :: policy_file where
  "default_policy_file =
     \<lparr>pf_schema_version = default_policy_schema_version, pf_profiles = default_policy_profiles, pf_overrides = []\<rparr>"

definition default_policy_audit :: policy_audit where
  "default_policy_audit =
     \<lparr>pa_precedence_order = POLICY_AUDIT_PRECEDENCE, pa_effective_fail_on = None, pa_applied_overrides = []\<rparr>"

section \<open>Profiles\<close>

primrec default_fail_on :: "policy_profile \<Rightarrow> severity option" where
  "default_fail_on Personal = Some Critical"
| "default_fail_on Team = Some High"
| "default_fail_on Enterprise = Some Medium"
| "default_fail_on Research = None"

primrec default_action_for_context :: "policy_profile \<Rightarrow> operational_context \<Rightarrow> recommended_action" where
  "default_action_for_context Personal c = RequireApproval"
| "default_action_for_context Team c = (case c of Secrets \<Rightarrow> Block | _ \<Rightarrow> RequireApproval)"
| "default_action_for_context Enterprise c =
     (case c of
        Install \<Rightarrow> Block | Secrets \<Rightarrow> Block | ExternalComms \<Rightarrow> Block
      | Network \<Rightarrow> RequireApproval | CodeModification \<Rightarrow> RequireApproval)"
| "default_action_for_context Research c =
     (case c of Secrets \<Rightarrow> RequireApproval | ExternalComms \<Rightarrow> RequireApproval | _ \<Rightarrow> Log)"

primrec profile_config :: "policy_profile \<Rightarrow> policy_file \<Rightarrow> configured_profile option" where
  "profile_config Personal p = personal (pf_profiles p)"
| "profile_config Team p = team (pf_profiles p)"
| "profile_config Enterprise p = enterprise (pf_profiles p)"
| "profile_config Research p = research (pf_profiles p)"

definition resolve_fail_on :: "policy_file \<Rightarrow> policy_profile \<Rightarrow> severity option" where
  "resolve_fail_on p profile =
     (case Option.bind (profile_config profile p) cp_fail_on of
        Some s \<Rightarrow> Some s
      | None \<Rightarrow> default_fail_on profile)"

definition resolve_context_action ::
    "policy_file \<Rightarrow> policy_profile \<Rightarrow> operational_context \<Rightarrow> recommended_action" where
  "resolve_context_action p profile context =
     (case Option.bind (profile_config profile p)
             (\<lambda>config. map_option cao_action
                (find (\<lambda>entry. cao_context entry = context) (cp_context_actions config))) of
        Some a \<Rightarrow> a
      | None \<Rightarrow> default_action_for_context profile context)"

primrec context_label :: "operational_context \<Rightarrow> string" where
  "context_label Install = ''install''"
| "context_label Network = ''network''"
| "context_label Secrets = ''secrets''"
| "context_label CodeModification = ''code_modification''"
| "context_label ExternalComms = ''external_comms''"

primrec severity_to_sarif_level :: "severity \<Rightarrow> string" where
  "severity_to_sarif_level Critical = ''error''"
| "severity_to_sarif_level High = ''error''"
| "severity_to_sarif_level Medium = ''warning''"
| "severity_to_sarif_level Low = ''note''"

section \<open>Fingerprints\<close>

definition finding_fingerprint :: "(string \<Rightarrow> string) \<Rightarrow> finding \<Rightarrow> string" where
  "finding_fingerprint sha256_hex f =
     sha256_hex
       (rule_id f @ [CHR 0x00]
        @ (case artifact_path f of Some p \<Rightarrow> p | None \<Rightarrow> CHR 0x00 # ''<missing-path>'') @ [CHR 0x00]
        @ to_ascii_lowercase (match_value f) @ [CHR 0x00]
        @ match_target_display (matched_on f))"

definition baseline_matches_finding :: "(string \<Rightarrow> string) \<Rightarrow> baseline_entry \<Rightarrow> finding \<Rightarrow> bool" where
  "baseline_matches_finding sha entry f \<longleftrightarrow> be_fingerprint entry = finding_fingerprint sha f"

definition finding_to_diff_entry :: "(string \<Rightarrow> string) \<Rightarrow> finding \<Rightarrow> diff_entry" where
  "finding_to_diff_entry sha f =
     \<lparr>de_fingerprint = finding_fingerprint sha f, de_rule_id = rule_id f, de_category = category f,
      de_artifact_path = artifact_path f, de_reason = reason f\<rparr>"

text \<open>The action and the confidence of a finding are not part of its identity.\<close>

lemma fingerprint_action [simp]:
  "finding_fingerprint sha (f\<lparr>f_action := a\<rparr>) = finding_fingerprint sha f"
  by (simp add: finding_fingerprint_def)

lemma fingerprint_confidence [simp]:
  "finding_fingerprint sha (f\<lparr>confidence := c\<rparr>) = finding_fingerprint sha f"
  by (simp add: finding_fingerprint_def)

lemma diff_entry_fingerprint [simp]:
  "de_fingerprint (finding_to_diff_entry sha f) = finding_fingerprint sha f"
  by (simp add: finding_to_diff_entry_def)

section \<open>Matchers\<close>

definition finding_contexts :: "finding \<Rightarrow> operational_context list" where
  "finding_contexts f =
     (if operational_contexts f = [] then default_operational_contexts (category f) (f_artifact_kind f)
      else operational_contexts f)"

definition criteria_matches_finding ::
    "string option \<Rightarrow> string option \<Rightarrow> operational_context option \<Rightarrow> instant option \<Rightarrow> finding \<Rightarrow> instant \<Rightarrow> bool" where
  "criteria_matches_finding r p c expires f now =
     (if (case expires of Some e \<Rightarrow> e < now | None \<Rightarrow> False) then False
      else
        let rule_matches = (case r of None \<Rightarrow> True | Some r \<Rightarrow> eq_ignore_ascii_case r (rule_id f));
            path_matches =
              (case p of
                 None \<Rightarrow> True
               | Some path \<Rightarrow> (case artifact_path f of None \<Rightarrow> False | Some a \<Rightarrow> paths_match a path));
            context_matches = (case c of None \<Rightarrow> True | Some x \<Rightarrow> x \<in> set (finding_contexts f))
        in rule_matches \<and> path_matches \<and> context_matches)"

definition waiver_matches_finding :: "waiver_entry \<Rightarrow> finding \<Rightarrow> instant \<Rightarrow> bool" where
  "waiver_matches_finding w f now =
     criteria_matches_finding (we_rule_id w) (we_artifact_path w) (we_context w) (we_expires_at w) f now"

definition policy_override_matches :: "policy_override \<Rightarrow> finding \<Rightarrow> instant \<Rightarrow> bool" where
  "policy_override_matches po f now =
     criteria_matches_finding (po_rule_id po) (po_artifact_path po) (po_context po) (po_expires_at po) f now"

definition policy_override_specificity :: "policy_override \<Rightarrow> nat" where
  "policy_override_specificity po =
     (if po_rule_id po \<noteq> None then 4 else 0) + (if po_artifact_path po \<noteq> None then 2 else 0)
     + (if po_context po \<noteq> None then 1 else 0)"

lemma finding_contexts_update [simp]:
  "finding_contexts (f\<lparr>f_action := a\<rparr>) = finding_contexts f"
  "finding_contexts (f\<lparr>confidence := x\<rparr>) = finding_contexts f"
  by (simp_all add: finding_contexts_def)

lemma criteria_matches_update [simp]:
  "criteria_matches_finding r p c e (f\<lparr>f_action := a\<rparr>) now = criteria_matches_finding r p c e f now"
  "criteria_matches_finding r p c e (f\<lparr>confidence := x\<rparr>) now = criteria_matches_finding r p c e f now"
  by (simp_all add: criteria_matches_finding_def split: option.split)

lemma waiver_matches_update [simp]:
  "waiver_matches_finding w (f\<lparr>f_action := a\<rparr>) now = waiver_matches_finding w f now"
  "waiver_matches_finding w (f\<lparr>confidence := x\<rparr>) now = waiver_matches_finding w f now"
  by (simp_all add: waiver_matches_finding_def)

lemma override_matches_update [simp]:
  "policy_override_matches po (f\<lparr>f_action := a\<rparr>) now = policy_override_matches po f now"
  "policy_override_matches po (f\<lparr>confidence := x\<rparr>) now = policy_override_matches po f now"
  by (simp_all add: policy_override_matches_def)

lemma expired_criteria: "e < now \<Longrightarrow> \<not> criteria_matches_finding r p c (Some e) f now"
  by (simp add: criteria_matches_finding_def)

text \<open>The specificity orders the selectors by the most significant one present.\<close>

lemma specificity_order:
  "policy_override_specificity p \<le> policy_override_specificity q \<longleftrightarrow>
     (po_rule_id p \<noteq> None, po_artifact_path p \<noteq> None, po_context p \<noteq> None)
       \<le> (po_rule_id q \<noteq> None, po_artifact_path q \<noteq> None, po_context q \<noteq> None)"
  by (auto simp: policy_override_specificity_def less_eq_prod_def)

section \<open>Validators\<close>

definition quoted :: "string \<Rightarrow> string" where
  "quoted s = CHR 0x27 # s @ [CHR 0x27]"

definition normalized_rule_id :: "string option \<Rightarrow> string option" where
  "normalized_rule_id r = map_option to_ascii_lowercase r"

definition unsupported_version :: "string \<Rightarrow> string \<Rightarrow> string" where
  "unsupported_version what v =
     ''Unsupported '' @ what @ '' schema_version '' @ quoted v @ '', expected '' @ quoted POLICY_SCHEMA_VERSION"

text \<open>
  The loop of \<open>validate_policy\<close> and \<open>validate_waivers\<close>: the checks of one entry, then its key, which
  must be new in \<open>seen\<close>. The key of the source is the \<open>Debug\<close> text of the four selectors, which
  escapes its strings and so determines them; here it is the tuple.
\<close>

fun validate_entries :: "('a \<Rightarrow> string option) \<Rightarrow> ('a \<Rightarrow> 'k) \<Rightarrow> string \<Rightarrow> 'a list \<Rightarrow> 'k set \<Rightarrow> string + unit" where
  "validate_entries entry_error key dup [] seen = Inr ()"
| "validate_entries entry_error key dup (x # xs) seen =
     (case entry_error x of
        Some e \<Rightarrow> Inl e
      | None \<Rightarrow>
          if key x \<in> seen then Inl dup
          else validate_entries entry_error key dup xs (insert (key x) seen))"

type_synonym selector_key =
  "string option \<times> string option \<times> operational_context option \<times> instant option"

definition override_key :: "policy_override \<Rightarrow> selector_key" where
  "override_key po = (normalized_rule_id (po_rule_id po), po_artifact_path po, po_context po, po_expires_at po)"

definition override_error :: "policy_override \<Rightarrow> string option" where
  "override_error po =
     (if po_rule_id po = None \<and> po_artifact_path po = None \<and> po_context po = None then
        Some ''Each policy override must define at least one selector: rule_id, artifact_path, or context''
      else if str_trim (po_reason po) = [] then Some ''Policy overrides must define a non-empty reason''
      else None)"

definition validate_policy :: "policy_file \<Rightarrow> string + unit" where
  "validate_policy p =
     (if pf_schema_version p \<noteq> POLICY_SCHEMA_VERSION then
        Inl (unsupported_version ''policy'' (pf_schema_version p))
      else
        validate_entries override_error override_key ''Conflicting policy override entries detected''
          (pf_overrides p) {})"

definition waiver_key :: "waiver_entry \<Rightarrow> selector_key" where
  "waiver_key w = (normalized_rule_id (we_rule_id w), we_artifact_path w, we_context w, we_expires_at w)"

definition waiver_error :: "waiver_entry \<Rightarrow> string option" where
  "waiver_error w =
     (if we_rule_id w = None \<and> we_artifact_path w = None \<and> we_context w = None then
        Some ''Each waiver must define at least one selector: rule_id, artifact_path, or context''
      else if str_trim (we_reason w) = [] then Some ''Waivers must define a non-empty reason''
      else None)"

definition validate_waivers :: "waiver_file \<Rightarrow> string + unit" where
  "validate_waivers w =
     (if wf_schema_version w \<noteq> POLICY_SCHEMA_VERSION then
        Inl (unsupported_version ''waiver'' (wf_schema_version w))
      else validate_entries waiver_error waiver_key ''Duplicate waiver entries detected'' (wf_waivers w) {})"

fun validate_baseline_entries :: "baseline_entry list \<Rightarrow> string + unit" where
  "validate_baseline_entries [] = Inr ()"
| "validate_baseline_entries (e # es) =
     (if str_trim (be_fingerprint e) = [] then Inl ''Baseline entries must define a non-empty fingerprint''
      else if str_trim (be_rule_id e) = [] then Inl ''Baseline entries must define a non-empty rule_id''
      else if str_trim (be_reason e) = [] then Inl ''Baseline entries must define a non-empty reason''
      else validate_baseline_entries es)"

definition validate_baseline :: "baseline_file \<Rightarrow> string + unit" where
  "validate_baseline b =
     (if bf_schema_version b \<noteq> POLICY_SCHEMA_VERSION then
        Inl (unsupported_version ''baseline'' (bf_schema_version b))
      else validate_baseline_entries (bf_entries b))"

lemma validate_entries_ok:
  "validate_entries err key dup xs seen = Inr () \<longleftrightarrow>
     list_all (\<lambda>x. err x = None) xs \<and> distinct (map key xs) \<and> set (map key xs) \<inter> seen = {}"
  by (induction err key dup xs seen rule: validate_entries.induct) (auto split: option.split)

text \<open>A rejected list is rejected for its first offending entry.\<close>

lemma validate_entries_error:
  "validate_entries err key dup xs seen = Inl e \<longleftrightarrow>
     (\<exists>pre x post. xs = pre @ x # post \<and> list_all (\<lambda>x. err x = None) pre \<and> distinct (map key pre)
        \<and> set (map key pre) \<inter> seen = {}
        \<and> (case err x of Some e' \<Rightarrow> e = e' | None \<Rightarrow> key x \<in> seen \<union> set (map key pre) \<and> e = dup))"
    (is "?L xs seen \<longleftrightarrow> (\<exists>pre x post. ?R xs seen pre x post)")
proof (induction xs arbitrary: seen)
  case (Cons y ys)
  show ?case
  proof (cases "err y = None \<and> key y \<notin> seen")
    case True
    have shift: "?R ys (insert (key y) seen) pre x post \<longleftrightarrow> ?R (y # ys) seen (y # pre) x post" for pre x post
      using True by (cases "err x") auto
    have cons: "\<exists>pre'. pre = y # pre'" if "?R (y # ys) seen pre x post" for pre x post
      using that True by (cases pre) (auto split: option.splits)
    have "?L (y # ys) seen \<longleftrightarrow> ?L ys (insert (key y) seen)" using True by simp
    also have "\<dots> \<longleftrightarrow> (\<exists>pre x post. ?R ys (insert (key y) seen) pre x post)" by (rule Cons.IH)
    also have "\<dots> \<longleftrightarrow> (\<exists>pre x post. ?R (y # ys) seen (y # pre) x post)" by (simp only: shift)
    also have "\<dots> \<longleftrightarrow> (\<exists>pre x post. ?R (y # ys) seen pre x post)" using cons by metis
    finally show ?thesis .
  next
    case False
    have "?L (y # ys) seen \<longleftrightarrow> ?R (y # ys) seen [] y ys"
      using False by (auto split: option.splits)
    moreover have "pre = []" if "?R (y # ys) seen pre x post" for pre x post
      using that False by (cases pre) auto
    ultimately show ?thesis using False by fastforce
  qed
qed simp

lemma validate_baseline_entries_ok:
  "validate_baseline_entries es = Inr () \<longleftrightarrow>
     list_all (\<lambda>e. str_trim (be_fingerprint e) \<noteq> [] \<and> str_trim (be_rule_id e) \<noteq> [] \<and> str_trim (be_reason e) \<noteq> []) es"
  by (induction es) auto

section \<open>Loaders\<close>

datatype 'e policy_load_error = Load_Io 'e | Load_InvalidUtf8 string | Load_Parse string | Load_Validation string

text \<open>
  What a loader calls: the file system port, \<open>String::from_utf8\<close> (the rendering of its error, or
  \<open>None\<close> when the bytes are UTF-8), \<open>serde_json::from_str\<close> and \<open>serde_yaml::from_str\<close> (the value, or the
  rendering of the error).
\<close>

record ('e, 'a) loader_env =
  read_file_bytes :: "string \<Rightarrow> 'e + string"
  from_utf8_error :: "string \<Rightarrow> string option"
  json_from_str :: "string \<Rightarrow> string + 'a"
  yaml_from_str :: "string \<Rightarrow> string + 'a"

definition read_text_through_port ::
    "('e, 'a) loader_env \<Rightarrow> string \<Rightarrow> 'e policy_load_error + string" where
  "read_text_through_port env path =
     (case read_file_bytes env path of
        Inl e \<Rightarrow> Inl (Load_Io e)
      | Inr bytes \<Rightarrow>
          (case from_utf8_error env bytes of
             Some e \<Rightarrow> Inl (Load_Parse (path @ '': file contains invalid UTF-8: '' @ e))
           | None \<Rightarrow> Inr bytes))"

definition select_parser_error :: "string \<Rightarrow> string \<Rightarrow> string \<Rightarrow> string" where
  "select_parser_error content json_err yaml_err =
     (let trimmed = str_trim_start content
      in if starts_with trimmed ''{'' \<or> starts_with trimmed ''['' then json_err else yaml_err)"

definition EMPTY_POLICY_FILE :: string where
  "EMPTY_POLICY_FILE = ''policy file is empty (whitespace only); refusing to silently apply defaulted fields''"

definition parse_json_or_yaml :: "('e, 'a) loader_env \<Rightarrow> string \<Rightarrow> 'e policy_load_error + 'a" where
  "parse_json_or_yaml env content =
     (if str_trim content = [] then Inl (Load_Parse EMPTY_POLICY_FILE)
      else case json_from_str env content of
             Inr v \<Rightarrow> Inr v
           | Inl json_err \<Rightarrow>
               (case yaml_from_str env content of
                  Inr v \<Rightarrow> Inr v
                | Inl yaml_err \<Rightarrow> Inl (Load_Parse (select_parser_error content json_err yaml_err))))"

definition load_validated ::
    "('e, 'a) loader_env \<Rightarrow> ('a \<Rightarrow> string + unit) \<Rightarrow> string \<Rightarrow> 'e policy_load_error + 'a" where
  "load_validated env validate path =
     and_then (read_text_through_port env path) (\<lambda>content.
     and_then (parse_json_or_yaml env content) (\<lambda>v.
       case validate v of Inl e \<Rightarrow> Inl (Load_Validation e) | Inr _ \<Rightarrow> Inr v))"

definition load_baseline ::
    "('e, baseline_file) loader_env \<Rightarrow> string \<Rightarrow> 'e policy_load_error + baseline_file" where
  "load_baseline env = load_validated env validate_baseline"

definition load_waivers ::
    "('e, waiver_file) loader_env \<Rightarrow> string \<Rightarrow> 'e policy_load_error + waiver_file" where
  "load_waivers env = load_validated env validate_waivers"

definition load_policy ::
    "('e, policy_file) loader_env \<Rightarrow> string \<Rightarrow> 'e policy_load_error + policy_file" where
  "load_policy env = load_validated env validate_policy"

lemma read_text_Inr:
  "read_text_through_port env path = Inr c \<longleftrightarrow>
     read_file_bytes env path = Inr c \<and> from_utf8_error env c = None"
  by (auto simp: read_text_through_port_def split: sum.splits option.splits)

lemma parse_Inr:
  "parse_json_or_yaml env c = Inr v \<longleftrightarrow>
     str_trim c \<noteq> [] \<and>
     (json_from_str env c = Inr v \<or> (\<exists>e. json_from_str env c = Inl e) \<and> yaml_from_str env c = Inr v)"
  by (auto simp: parse_json_or_yaml_def split: sum.splits)

lemma validated_Inr:
  "(case r of Inl e \<Rightarrow> Inl (g e) | Inr u \<Rightarrow> Inr v) = Inr w \<longleftrightarrow> r = Inr () \<and> v = w"
  by (cases r) auto

lemma load_validated_Inr:
  "load_validated env validate path = Inr v \<longleftrightarrow>
     (\<exists>c. read_file_bytes env path = Inr c \<and> from_utf8_error env c = None \<and> str_trim c \<noteq> []
        \<and> (json_from_str env c = Inr v \<or> (\<exists>e. json_from_str env c = Inl e) \<and> yaml_from_str env c = Inr v))
     \<and> validate v = Inr ()"
  by (auto simp: load_validated_def and_then_Inr read_text_Inr parse_Inr validated_Inr)

lemma read_text_not_InvalidUtf8: "read_text_through_port env path \<noteq> Inl (Load_InvalidUtf8 e)"
  by (auto simp: read_text_through_port_def split: sum.splits option.splits)

lemma parse_not_InvalidUtf8: "parse_json_or_yaml env c \<noteq> Inl (Load_InvalidUtf8 e)"
  by (auto simp: parse_json_or_yaml_def split: sum.splits)

lemma load_not_InvalidUtf8: "load_validated env validate path \<noteq> Inl (Load_InvalidUtf8 e)"
  using read_text_not_InvalidUtf8 [of env path e] parse_not_InvalidUtf8 [of env _ e]
  by (auto simp: load_validated_def and_then_Inl split: sum.splits)

section \<open>Properties\<close>

text \<open>
  Claim C33: the policy validator decides exactly the documented conditions and reports the first
  violation: a file passes when its schema version is the supported one, every override has a selector and
  a non-blank reason, and no two overrides have the same selectors (rule ids compared without ASCII case)
  and expiry; otherwise the error is that of the version, or of the first override that has an error of its own
  or repeats the selectors of an earlier one.
\<close>

theorem validate_policy_decides:
  "(validate_policy p = Inr () \<longleftrightarrow>
      pf_schema_version p = POLICY_SCHEMA_VERSION
      \<and> list_all (\<lambda>po. \<not> (po_rule_id po = None \<and> po_artifact_path po = None \<and> po_context po = None)
                       \<and> str_trim (po_reason po) \<noteq> []) (pf_overrides p)
      \<and> distinct (map (\<lambda>po. (map_option to_ascii_lowercase (po_rule_id po), po_artifact_path po, po_context po, po_expires_at po))
           (pf_overrides p)))
   \<and> (validate_policy p = Inl e \<longleftrightarrow>
        (if pf_schema_version p = POLICY_SCHEMA_VERSION then
           \<exists>pre po post. pf_overrides p = pre @ po # post
             \<and> validate_policy (p\<lparr>pf_overrides := pre\<rparr>) = Inr ()
             \<and> (case override_error po of
                  Some e' \<Rightarrow> e = e'
                | None \<Rightarrow> override_key po \<in> override_key ` set pre \<and> e = ''Conflicting policy override entries detected'')
         else e = unsupported_version ''policy'' (pf_schema_version p)))"
proof
  have "override_error po = None \<longleftrightarrow>
      \<not> (po_rule_id po = None \<and> po_artifact_path po = None \<and> po_context po = None) \<and> str_trim (po_reason po) \<noteq> []" for po
    by (auto simp: override_error_def)
  then show "validate_policy p = Inr () \<longleftrightarrow>
      pf_schema_version p = POLICY_SCHEMA_VERSION
      \<and> list_all (\<lambda>po. \<not> (po_rule_id po = None \<and> po_artifact_path po = None \<and> po_context po = None)
                       \<and> str_trim (po_reason po) \<noteq> []) (pf_overrides p)
      \<and> distinct (map (\<lambda>po. (map_option to_ascii_lowercase (po_rule_id po), po_artifact_path po, po_context po, po_expires_at po))
           (pf_overrides p))"
    by (simp add: validate_policy_def validate_entries_ok override_key_def [abs_def] normalized_rule_id_def)
next
  show "validate_policy p = Inl e \<longleftrightarrow>
      (if pf_schema_version p = POLICY_SCHEMA_VERSION then
         \<exists>pre po post. pf_overrides p = pre @ po # post
           \<and> validate_policy (p\<lparr>pf_overrides := pre\<rparr>) = Inr ()
           \<and> (case override_error po of
                Some e' \<Rightarrow> e = e'
              | None \<Rightarrow> override_key po \<in> override_key ` set pre \<and> e = ''Conflicting policy override entries detected'')
       else e = unsupported_version ''policy'' (pf_schema_version p))"
    by (simp add: validate_policy_def validate_entries_error validate_entries_ok cong: option.case_cong) metis
qed

text \<open>
  loading a policy file yields exactly the values the validator accepts: the bytes were
  read and are UTF-8, the text is not blank (a truncated file is refused rather than read as a file of
  defaults), JSON was tried before YAML, and the validator passed; and no failure is
  ever reported as the error variant the documentation gives for bytes that are not UTF-8.
\<close>

theorem load_policy_outcome:
  "(load_policy env path = Inr p \<longleftrightarrow>
      (\<exists>c. read_file_bytes env path = Inr c \<and> from_utf8_error env c = None \<and> str_trim c \<noteq> []
         \<and> (json_from_str env c = Inr p \<or> (\<exists>e. json_from_str env c = Inl e) \<and> yaml_from_str env c = Inr p))
      \<and> validate_policy p = Inr ())
   \<and> load_policy env path \<noteq> Inl (Load_InvalidUtf8 m)"
  using load_validated_Inr [of env validate_policy path p] load_not_InvalidUtf8 [of env validate_policy path m]
  unfolding load_policy_def by blast

end
