(* ===== verification/Inline_Suppressions.thy ===== *)
theory Inline_Suppressions
  imports Policy_Files
begin

text \<open>
  \<open>inline_suppressions.rs\<close>: directives in comments and in JSON files that silence findings. Collecting
  them from the text of a file, and splitting the findings of a scan into active and suppressed ones.
  The two regular expressions are parameters: for a line, the list of their matches, each with its
  groups (kind, rules, reason); so are the JSON parser and the parser of timestamps. The present time
  is an argument.
\<close>

section \<open>Directives in comments\<close>

definition MAX_SUPPRESSION_REASON_CHARS :: nat where
  "MAX_SUPPRESSION_REASON_CHARS = 500"

definition capped_suppression_reason :: "string \<Rightarrow> string" where
  "capped_suppression_reason r = concat (take MAX_SUPPRESSION_REASON_CHARS (str_chars r))"

record inline_suppression =
  is_path :: string
  is_rule_id :: string
  applies_to_line :: "nat option"
  is_kind :: string
  is_reason :: "string option"
  expires_at :: "instant option"

record captures =
  group_kind :: "string option"
  group_rules :: "string option"
  group_reason :: "string option"

record suppression_patterns =
  standalone_captures :: "string \<Rightarrow> captures list"
  inline_captures :: "string \<Rightarrow> captures list"

definition significant_line :: "string \<Rightarrow> bool" where
  "significant_line line =
     (let trimmed = str_trim line
      in trimmed \<noteq> [] \<and> \<not> starts_with trimmed [CHR 0x60, CHR 0x60, CHR 0x60]
         \<and> \<not> starts_with trimmed ''<!--'')"

definition next_significant_line :: "string list \<Rightarrow> nat \<Rightarrow> nat option" where
  "next_significant_line lines index =
     map_option (\<lambda>(i, line). i + 1)
       (find (\<lambda>(i, line). significant_line line) (drop (index + 1) (enumerate 0 lines)))"

text \<open>The line a directive applies to; the outer \<open>None\<close> is a directive without effect.\<close>

definition directive_target :: "string \<Rightarrow> bool \<Rightarrow> nat \<Rightarrow> nat option \<Rightarrow> nat option option" where
  "directive_target kind standalone line_no next_line_number =
     (if suffix ''next-line'' kind then map_option Some next_line_number
      else if standalone \<and> kind = ''ignore'' then map_option Some next_line_number
      else if kind = ''ignore'' then Some None
      else if standalone then None
      else Some (Some line_no))"

definition add_suppressions_from_capture ::
    "inline_suppression list \<Rightarrow> string \<Rightarrow> nat \<Rightarrow> bool \<Rightarrow> nat option \<Rightarrow> captures \<Rightarrow> inline_suppression list" where
  "add_suppressions_from_capture suppressions path line_no standalone next_line_number capture =
     (case map_option to_ascii_lowercase (group_kind capture) of
        None \<Rightarrow> suppressions
      | Some kind \<Rightarrow>
          let rule_list = (case group_rules capture of Some r \<Rightarrow> r | None \<Rightarrow> ''*'');
              why = map_option (\<lambda>r. capped_suppression_reason (str_trim r)) (group_reason capture)
          in case directive_target kind standalone line_no next_line_number of
               None \<Rightarrow> suppressions
             | Some target \<Rightarrow>
                 suppressions
                 @ map (\<lambda>rule. \<lparr>is_path = path, is_rule_id = rule, applies_to_line = target,
                                is_kind = kind, is_reason = why, expires_at = None\<rparr>)
                     (filter (\<lambda>r. r \<noteq> []) (map str_trim (split_on CHR '','' rule_list))))"

definition line_suppressions ::
    "suppression_patterns \<Rightarrow> string \<Rightarrow> string list \<Rightarrow> inline_suppression list \<Rightarrow> nat \<times> string
     \<Rightarrow> inline_suppression list" where
  "line_suppressions re path lines suppressions = (\<lambda>(index, line).
     (let line_no = index + 1; next_line = next_significant_line lines index
      in case standalone_captures re line of
           capture # _ \<Rightarrow> add_suppressions_from_capture suppressions path line_no True next_line capture
         | [] \<Rightarrow>
             foldl (\<lambda>acc capture. add_suppressions_from_capture acc path line_no False next_line capture)
               suppressions (inline_captures re line)))"

definition collect_comment_suppressions ::
    "suppression_patterns \<Rightarrow> string \<Rightarrow> string \<Rightarrow> inline_suppression list" where
  "collect_comment_suppressions re path content =
     (let lines = str_lines content
      in foldl (line_suppressions re path lines) [] (enumerate 0 lines))"

section \<open>Directives in JSON\<close>

datatype json =
  JNull | JBool bool | JNumber string | JString string | JArray "json list" | JObject "(string \<times> json) list"

fun json_get :: "json \<Rightarrow> string \<Rightarrow> json option" where
  "json_get (JObject members) key = map_of members key"
| "json_get _ key = None"

fun as_str :: "json \<Rightarrow> string option" where
  "as_str (JString s) = Some s"
| "as_str _ = None"

definition parse_json_suppression_object ::
    "(string \<Rightarrow> 'e + instant) \<Rightarrow> (string \<times> json) list \<Rightarrow> string \<Rightarrow> inline_suppression option" where
  "parse_json_suppression_object parse_time object path =
     (case Option.bind (map_of object ''rule_id'') as_str of
        None \<Rightarrow> None
      | Some rule \<Rightarrow>
          let why = map_option capped_suppression_reason (Option.bind (map_of object ''reason'') as_str);
              make = (\<lambda>expires. \<lparr>is_path = path, is_rule_id = rule, applies_to_line = None,
                                is_kind = ''ignore'', is_reason = why, expires_at = expires\<rparr>)
          in case map_of object ''expires_at'' of
               None \<Rightarrow> Some (make None)
             | Some v \<Rightarrow>
                 (case as_str v of
                    None \<Rightarrow> None
                  | Some t \<Rightarrow>
                      (case parse_time t of Inl e \<Rightarrow> None | Inr ts \<Rightarrow> Some (make (Some ts)))))"

definition string_suppression :: "string \<Rightarrow> string \<Rightarrow> inline_suppression" where
  "string_suppression path rule =
     \<lparr>is_path = path, is_rule_id = rule, applies_to_line = None, is_kind = ''ignore'',
      is_reason = None, expires_at = None\<rparr>"

fun json_entry ::
    "(string \<Rightarrow> 'e + instant) \<Rightarrow> string \<Rightarrow> json \<Rightarrow> inline_suppression option" where
  "json_entry parse_time path (JString rule) = Some (string_suppression path rule)"
| "json_entry parse_time path (JObject object) = parse_json_suppression_object parse_time object path"
| "json_entry parse_time path _ = None"

definition json_entries ::
    "(string \<Rightarrow> 'e + instant) \<Rightarrow> string \<Rightarrow> json \<Rightarrow> inline_suppression list" where
  "json_entries parse_time path entries =
     (case entries of
        JArray es \<Rightarrow> List.map_filter (json_entry parse_time path) es
      | _ \<Rightarrow> (case json_entry parse_time path entries of None \<Rightarrow> [] | Some s \<Rightarrow> [s]))"

definition collect_json_suppressions ::
    "(string \<Rightarrow> 'j + json) \<Rightarrow> (string \<Rightarrow> 'e + instant) \<Rightarrow> string \<Rightarrow> string \<Rightarrow> inline_suppression list" where
  "collect_json_suppressions parse_json parse_time path content =
     (case parse_json content of
        Inl e \<Rightarrow> []
      | Inr value \<Rightarrow>
          (case (case json_get value ''x-skill-veil-ignore'' of
                   Some v \<Rightarrow> Some v
                 | None \<Rightarrow> json_get value ''skill-veil-ignore'') of
             None \<Rightarrow> []
           | Some entries \<Rightarrow> json_entries parse_time path entries))"

definition collect_inline_suppressions ::
    "suppression_patterns \<Rightarrow> (string \<Rightarrow> 'j + json) \<Rightarrow> (string \<Rightarrow> 'e + instant) \<Rightarrow> (string \<times> string) list
     \<Rightarrow> inline_suppression list" where
  "collect_inline_suppressions re parse_json parse_time sources =
     concat (map (\<lambda>(path, content).
         collect_comment_suppressions re path content
         @ collect_json_suppressions parse_json parse_time path content) sources)"

section \<open>Applying\<close>

definition suppression_path_matches :: "inline_suppression \<Rightarrow> string option \<Rightarrow> finding \<Rightarrow> bool" where
  "suppression_path_matches s primary_path f =
     (if applies_to_line s = None
      then (case artifact_path f of None \<Rightarrow> False | Some ap \<Rightarrow> paths_match ap (is_path s))
      else (case artifact_path f of
              Some ap \<Rightarrow> paths_match ap (is_path s)
            | None \<Rightarrow> (case primary_path of None \<Rightarrow> False | Some pp \<Rightarrow> paths_match pp (is_path s))))"

definition suppression_matches ::
    "instant \<Rightarrow> string option \<Rightarrow> finding \<Rightarrow> inline_suppression \<Rightarrow> bool" where
  "suppression_matches now primary_path f s =
     (if (case expires_at s of None \<Rightarrow> False | Some e \<Rightarrow> e < now) then False
      else
        suppression_path_matches s primary_path f
        \<and> (is_rule_id s = ''*'' \<or> eq_ignore_ascii_case (is_rule_id s) (rule_id f))
        \<and> (case applies_to_line s of
             None \<Rightarrow> True
           | Some line \<Rightarrow> (case line_number f of None \<Rightarrow> False | Some l \<Rightarrow> l = line)))"

definition tag_suppressed :: "inline_suppression \<Rightarrow> finding \<Rightarrow> finding" where
  "tag_suppressed s f =
     f\<lparr>suppression := Some \<lparr>sr_kind = is_kind s, sr_rule_id = is_rule_id s, sr_reason = is_reason s\<rparr>\<rparr>"

fun suppress_step ::
    "instant \<Rightarrow> inline_suppression list \<Rightarrow> string option \<Rightarrow> finding list \<times> finding list \<Rightarrow> finding
     \<Rightarrow> finding list \<times> finding list" where
  "suppress_step now suppressions primary_path (active, suppressed) f =
     (case find (suppression_matches now primary_path f) suppressions of
        Some s \<Rightarrow> (active, suppressed @ [tag_suppressed s f])
      | None \<Rightarrow> (active @ [f], suppressed))"

definition apply_inline_suppressions ::
    "instant \<Rightarrow> finding list \<Rightarrow> inline_suppression list \<Rightarrow> string option \<Rightarrow> finding list \<times> finding list" where
  "apply_inline_suppressions now findings suppressions primary_path =
     (if suppressions = [] then (findings, [])
      else foldl (suppress_step now suppressions primary_path) ([], []) findings)"

section \<open>Collected directives\<close>

lemma str_chars_take: "str_chars (concat (take n (str_chars s))) = take n (str_chars s)"
proof (induction s arbitrary: n rule: str_chars.induct)
  case (2 c cs)
  show ?case
  proof (cases n)
    case (Suc m)
    have "drop (utf8_extra c) cs \<noteq> [] \<Longrightarrow> length (take (utf8_extra c) cs) = utf8_extra c"
      by simp
    with Suc 2 [of m] show ?thesis
      by (cases "drop (utf8_extra c) cs = []") auto
  qed simp
qed simp

lemma capped_length: "length (str_chars (capped_suppression_reason r)) \<le> MAX_SUPPRESSION_REASON_CHARS"
  by (simp add: capped_suppression_reason_def str_chars_take)

text \<open>
  What the collector promises of every directive it takes from the file \<open>path\<close> with \<open>n\<close> lines: it
  belongs to that file, points to one of its lines or to all of it, and carries a short reason.
\<close>

definition directive_ok :: "string \<Rightarrow> nat \<Rightarrow> inline_suppression \<Rightarrow> bool" where
  "directive_ok path n s \<longleftrightarrow>
     is_path s = path
     \<and> (case applies_to_line s of
          None \<Rightarrow> is_kind s = ''ignore''
        | Some l \<Rightarrow> 1 \<le> l \<and> l \<le> n)
     \<and> (case is_reason s of
          None \<Rightarrow> True | Some r \<Rightarrow> length (str_chars r) \<le> MAX_SUPPRESSION_REASON_CHARS)"

lemma next_significant_line_range:
  assumes "next_significant_line lines index = Some l"
  shows "index + 1 < l \<and> l \<le> length lines"
proof -
  from assms obtain i line where l: "l = i + 1"
    and f: "find (\<lambda>(i, line). significant_line line) (drop (index + 1) (enumerate 0 lines)) = Some (i, line)"
    by (auto simp: next_significant_line_def)
  have "(i, line) \<in> set (drop (index + 1) (enumerate 0 lines))" using find_mem [OF f] by simp
  then obtain j where "index + 1 + j < length lines" "enumerate 0 lines ! (index + 1 + j) = (i, line)"
    by (auto simp: in_set_conv_nth less_diff_conv add.commute)
  then show ?thesis using l by (simp add: nth_enumerate_eq)
qed

lemma directive_target_ok:
  assumes "directive_target kind standalone line_no next = Some target"
    "1 \<le> line_no" "line_no \<le> n" "\<And>l. next = Some l \<Longrightarrow> 1 \<le> l \<and> l \<le> n"
  shows "case target of None \<Rightarrow> kind = ''ignore'' \<and> \<not> standalone | Some l \<Rightarrow> 1 \<le> l \<and> l \<le> n"
  using assms by (auto simp: directive_target_def split: if_splits option.splits)

lemma add_suppressions_ok:
  assumes "list_all (directive_ok path n) acc" "1 \<le> line_no" "line_no \<le> n"
    "\<And>l. next = Some l \<Longrightarrow> 1 \<le> l \<and> l \<le> n"
  shows "list_all (directive_ok path n)
    (add_suppressions_from_capture acc path line_no standalone next capture)"
proof (cases "group_kind capture")
  case (Some k)
  show ?thesis
  proof (cases "directive_target (to_ascii_lowercase k) standalone line_no next")
    case None
    with Some assms(1) show ?thesis by (simp add: add_suppressions_from_capture_def Let_def)
  next
    case target: (Some t)
    show ?thesis
      using assms(1) Some directive_target_ok [OF target assms(2-4)] capped_length
      by (auto simp: add_suppressions_from_capture_def Let_def target list_all_iff directive_ok_def
          split: option.splits)
  qed
qed (use assms(1) in \<open>simp add: add_suppressions_from_capture_def\<close>)

lemma line_suppressions_ok:
  assumes "list_all (directive_ok path (length lines)) acc" "index < length lines"
  shows "list_all (directive_ok path (length lines)) (line_suppressions re path lines acc (index, line))"
proof -
  let ?next = "next_significant_line lines index"
  have range: "?next = Some l \<Longrightarrow> 1 \<le> l \<and> l \<le> length lines" for l
    using next_significant_line_range [of lines index l] by simp
  have "list_all (directive_ok path (length lines))
      (foldl (\<lambda>acc c. add_suppressions_from_capture acc path (index + 1) False ?next c) acc cs)" for cs
    using assms range by (induction cs arbitrary: acc) (simp_all add: add_suppressions_ok)
  then show ?thesis
    using assms range
    by (auto simp: line_suppressions_def Let_def add_suppressions_ok split: list.split)
qed

lemma comment_suppressions_ok:
  "list_all (directive_ok path (length (str_lines content))) (collect_comment_suppressions re path content)"
proof -
  let ?ls = "str_lines content"
  have "list_all (directive_ok path (length ?ls)) (foldl (line_suppressions re path ?ls) acc ils)"
    if "list_all (directive_ok path (length ?ls)) acc" "\<forall>il \<in> set ils. fst il < length ?ls" for acc ils
    using that by (induction ils arbitrary: acc) (auto simp: line_suppressions_ok)
  moreover have "\<forall>il \<in> set (enumerate 0 ?ls). fst il < length ?ls"
    by (auto simp: in_set_enumerate_eq)
  ultimately show ?thesis by (auto simp: collect_comment_suppressions_def Let_def)
qed

lemma json_entry_ok: "json_entry parse_time path v = Some s \<Longrightarrow> directive_ok path n s"
  using capped_length
  by (cases v) (auto simp: string_suppression_def parse_json_suppression_object_def directive_ok_def
      Let_def split: option.splits sum.splits)

lemma json_suppressions_ok:
  "list_all (directive_ok path n) (collect_json_suppressions parse_json parse_time path content)"
proof -
  have "list_all (directive_ok path n) (json_entries parse_time path v)" for v
    by (auto simp: json_entries_def list_all_iff map_filter_def
        intro: json_entry_ok split: json.split option.split simp del: json_entry.simps)
  then show ?thesis by (simp add: collect_json_suppressions_def split: sum.split option.split)
qed

lemma collected_directive:
  assumes "s \<in> set (collect_inline_suppressions re parse_json parse_time sources)"
  obtains path content where "(path, content) \<in> set sources" "directive_ok path (length (str_lines content)) s"
  using assms comment_suppressions_ok json_suppressions_ok
  by (fastforce simp: collect_inline_suppressions_def list_all_iff)

section \<open>Applied directives\<close>

lemma suppress_fold:
  "foldl (suppress_step now ss pp) (a, d) fs =
     (a @ filter (\<lambda>f. \<not> list_ex (suppression_matches now pp f) ss) fs,
      d @ List.map_filter (\<lambda>f. map_option (\<lambda>s. tag_suppressed s f)
                                   (find (suppression_matches now pp f) ss)) fs)"
proof (induction fs arbitrary: a d)
  case (Cons f fs)
  have "list_ex (suppression_matches now pp f) ss \<longleftrightarrow> find (suppression_matches now pp f) ss \<noteq> None"
    by (auto simp: list_ex_iff find_None_iff)
  then show ?case using Cons by (auto simp: map_filter_simps split: option.split)
qed (simp add: map_filter_simps)

section \<open>Properties\<close>

text \<open>
  every directive collected from a set of files belongs to one of them, points to an existing line of that
  file or, for kind \<open>ignore\<close> only, to the whole file, and carries a reason of at most 500 characters.
\<close>

theorem collected_directives_sound:
  "list_all (\<lambda>s. list_ex (\<lambda>(path, content). directive_ok path (length (str_lines content)) s) sources)
     (collect_inline_suppressions re parse_json parse_time sources)"
  unfolding list_all_iff list_ex_iff by (blast elim: collected_directive intro: bexI [rotated])

text \<open>
  applying directives splits the findings in two without losing, changing or reordering an active one: active are exactly
  the findings no unexpired directive matches, and each other finding is tagged with the first
  directive that matches it.
\<close>

theorem suppressions_partition:
  "apply_inline_suppressions now fs ss pp =
     (filter (\<lambda>f. \<not> list_ex (suppression_matches now pp f) ss) fs,
      List.map_filter (\<lambda>f. map_option (\<lambda>s. tag_suppressed s f)
                                   (find (suppression_matches now pp f) ss)) fs)
   \<and> length (fst (apply_inline_suppressions now fs ss pp)) + length (snd (apply_inline_suppressions now fs ss pp))
      = length fs"
proof -
  have none: "List.map_filter (\<lambda>f. None) fs = []"
    by (induction fs) (simp_all add: map_filter_simps)
  have eq: "apply_inline_suppressions now fs ss pp =
     (filter (\<lambda>f. \<not> list_ex (suppression_matches now pp f) ss) fs,
      List.map_filter (\<lambda>f. map_option (\<lambda>s. tag_suppressed s f)
                                   (find (suppression_matches now pp f) ss)) fs)"
    by (cases "ss = []") (simp_all add: apply_inline_suppressions_def suppress_fold none)
  have "length (filter (\<lambda>f. \<not> list_ex (suppression_matches now pp f) ss) fs)
      + length (List.map_filter (\<lambda>f. map_option (\<lambda>s. tag_suppressed s f)
                                   (find (suppression_matches now pp f) ss)) fs) = length fs"
  proof (induction fs)
    case (Cons f fs)
    have "list_ex (suppression_matches now pp f) ss \<longleftrightarrow> find (suppression_matches now pp f) ss \<noteq> None"
      by (auto simp: list_ex_iff find_None_iff)
    then show ?case using Cons by (auto simp: map_filter_simps split: option.split)
  qed (simp add: map_filter_simps)
  with eq show ?thesis by simp
qed

text \<open>
  a directive silences nothing outside the file it stands in: a finding whose file matches none of the
  files the directives were collected from stays active, and so does a finding without a file and
  without a line, whatever the primary document says.
\<close>

theorem suppressions_confined:
  assumes "f \<in> set fs"
    and "case artifact_path f of
           Some ap \<Rightarrow> \<not> list_ex (\<lambda>(path, content). paths_match ap path) sources
         | None \<Rightarrow> line_number f = None"
  shows "f \<in> set (fst (apply_inline_suppressions now fs
                    (collect_inline_suppressions re parse_json parse_time sources) pp))"
proof -
  let ?ss = "collect_inline_suppressions re parse_json parse_time sources"
  have "\<not> suppression_matches now pp f s" if s: "s \<in> set ?ss" for s
  proof -
    obtain path content where "(path, content) \<in> set sources"
      and ok: "directive_ok path (length (str_lines content)) s"
      by (rule collected_directive [OF s])
    have "is_path s = path" using ok by (simp add: directive_ok_def)
    show ?thesis
    proof (cases "artifact_path f")
      case None
      then show ?thesis
        using assms(2) by (simp add: suppression_matches_def suppression_path_matches_def split: option.split)
    next
      case (Some ap)
      then have "\<not> paths_match ap (is_path s)"
        using assms(2) \<open>(path, content) \<in> set sources\<close> \<open>is_path s = path\<close> by (force simp: list_ex_iff)
      with Some show ?thesis
        by (simp add: suppression_matches_def suppression_path_matches_def)
    qed
  qed
  with assms(1) show ?thesis
    by (auto simp: apply_inline_suppressions_def suppress_fold list_ex_iff)
qed

text \<open>The hypotheses hold, and a directive does silence the finding of its own file.\<close>

definition ignore_everything :: suppression_patterns where
  "ignore_everything =
     \<lparr>standalone_captures = (\<lambda>line. []),
      inline_captures = (\<lambda>line. [\<lparr>group_kind = Some ''IGNORE'', group_rules = None, group_reason = None\<rparr>])\<rparr>"

definition finding_in :: "string option \<Rightarrow> finding" where
  "finding_in path = (example_finding ''R'' RemoteExec AgentEntrypoint MaliciousBehavior Block)\<lparr>artifact_path := path\<rparr>"

lemma suppressions_confined_witness:
  "finding_in (Some ''b.md'') \<in> set (fst (apply_inline_suppressions 0
      [finding_in (Some ''a.md''), finding_in (Some ''b.md'')]
      (collect_inline_suppressions ignore_everything (\<lambda>s. Inl ()) (\<lambda>s. Inl ()) [(''a.md'', ''x'')]) None))"
  by (rule suppressions_confined)
     (simp_all add: finding_in_def paths_match_def is_absolute_def starts_with_def Let_def
       MIN_RELATIVE_SUFFIX_COMPONENTS_def meaningful_components_def path_components_def part_component_def)

lemma own_file_silenced:
  "fst (apply_inline_suppressions 0 [finding_in (Some ''a.md'')]
      (collect_inline_suppressions ignore_everything (\<lambda>s. Inl ()) (\<lambda>s. Inl ()) [(''a.md'', ''x'')]) None) = []"
  by code_simp

end
