(* ===== verification/Dependency_Inventory.thy ===== *)
theory Dependency_Inventory
  imports Typosquat Inline_Suppressions
begin

text \<open>
  The dependencies a package declares (\<open>dependency_inventory.rs\<close>), with the parser of Python requirement
  names it shares with the detectors (\<open>detectors/manifests/python/mod.rs\<close>). The JSON and TOML parsers are
  arguments; the members of an object and the entries of a table come in the order the parser gives them.
\<close>

section \<open>Python requirement names\<close>

definition PYTHON_VCS_PREFIXES :: "string list" where
  "PYTHON_VCS_PREFIXES = [''git+'', ''hg+'', ''svn+'', ''bzr+'']"

definition starts_with_ignore_ascii_case :: "string \<Rightarrow> string \<Rightarrow> bool" where
  "starts_with_ignore_ascii_case s p \<longleftrightarrow> length p \<le> length s \<and> eq_ignore_ascii_case (take (length p) s) p"

definition has_python_vcs_prefix :: "string \<Rightarrow> bool" where
  "has_python_vcs_prefix line \<longleftrightarrow> list_ex (starts_with_ignore_ascii_case line) PYTHON_VCS_PREFIXES"

definition ascii_alnum :: "char \<Rightarrow> bool" where
  "ascii_alnum c \<longleftrightarrow>
     48 \<le> byte_of c \<and> byte_of c \<le> 57 \<or> 65 \<le> byte_of c \<and> byte_of c \<le> 90 \<or> 97 \<le> byte_of c \<and> byte_of c \<le> 122"

definition ascii_digit :: "char \<Rightarrow> bool" where
  "ascii_digit c \<longleftrightarrow> 48 \<le> byte_of c \<and> byte_of c \<le> 57"

definition is_python_distribution_name :: "string \<Rightarrow> bool" where
  "is_python_distribution_name name \<longleftrightarrow>
     name \<noteq> [] \<and> ascii_alnum (hd name) \<and> ascii_alnum (last name)
     \<and> list_all (\<lambda>c. ascii_alnum c \<or> c \<in> set ''._-'') name"

definition canonical_python_requirement_name :: "string \<Rightarrow> string option" where
  "canonical_python_requirement_name name =
     (let base = str_trim (hd (split_on CHR ''['' name))
      in if is_python_distribution_name base then Some (to_ascii_lowercase base) else None)"

definition parse_direct_reference_name :: "string \<Rightarrow> string option" where
  "parse_direct_reference_name line =
     (case str_find line ''@'' of
        None \<Rightarrow> None
      | Some i \<Rightarrow>
          if str_trim (drop (i + 1) line) = [] then None else canonical_python_requirement_name (take i line))"

text \<open>The loops over the fragments after the first \<open>#\<close> and their \<open>&\<close>-separated parts.\<close>

fun first_egg :: "string list \<Rightarrow> string option" where
  "first_egg [] = None"
| "first_egg (kv # kvs) =
     (case strip_prefix (str_trim kv) ''egg='' of
        None \<Rightarrow> first_egg kvs
      | Some value \<Rightarrow>
          (case canonical_python_requirement_name value of Some name \<Rightarrow> Some name | None \<Rightarrow> first_egg kvs))"

definition until_first :: "string \<Rightarrow> string \<Rightarrow> string" where
  "until_first stops s = takeWhile (\<lambda>c. c \<notin> set stops) s"

definition parse_python_dep_name :: "string \<Rightarrow> string option" where
  "parse_python_dep_name line =
     (case parse_direct_reference_name line of
        Some dep_name \<Rightarrow> Some dep_name
      | None \<Rightarrow>
          if has_python_vcs_prefix line
          then first_egg (concat (map (split_on CHR ''&'') (tl (split_on CHR 0x23 line))))
          else canonical_python_requirement_name (str_trim (until_first ''=><~![; '' line)))"

section \<open>Versions\<close>

fun split_any :: "string \<Rightarrow> string \<Rightarrow> string list" where
  "split_any seps [] = [[]]"
| "split_any seps (c # cs) =
     (if c \<in> set seps then [] # split_any seps cs
      else (case split_any seps cs of p # ps \<Rightarrow> (c # p) # ps | [] \<Rightarrow> [[c]]))"

definition has_wildcard_component :: "string \<Rightarrow> bool" where
  "has_wildcard_component s \<longleftrightarrow> list_ex (\<lambda>p. p = ''*'' \<or> p = ''x'' \<or> p = ''X'') (split_any ''.-+'' s)"

definition exact_version :: "string \<Rightarrow> string option" where
  "exact_version spec =
     (let s = str_trim (dropWhile (\<lambda>c. c = CHR ''='' \<or> c = CHR ''v'') (str_trim spec))
      in if s = [] then None
         else if ascii_digit (hd s) \<and> list_all (\<lambda>b. ascii_alnum b \<or> b \<in> set ''.-+_'') s
                 \<and> \<not> has_wildcard_component s
         then Some s else None)"

definition numeric_component :: "string \<Rightarrow> bool" where
  "numeric_component c \<longleftrightarrow> c \<noteq> [] \<and> list_all ascii_digit c"

definition exact_semver_pin :: "string \<Rightarrow> string option" where
  "exact_semver_pin spec =
     (case exact_version spec of
        None \<Rightarrow> None
      | Some pin \<Rightarrow>
          (case split_any ''.'' (hd (split_any ''-+'' pin)) of
             [major, minor, patch] \<Rightarrow>
               if numeric_component major \<and> numeric_component minor \<and> numeric_component patch
               then Some pin else None
           | parts \<Rightarrow> None))"

section \<open>Collection\<close>

definition push_dep ::
    "parsed_dependency list \<Rightarrow> string \<Rightarrow> string option \<Rightarrow> ecosystem \<Rightarrow> string \<Rightarrow> parsed_dependency list" where
  "push_dep out name version eco source =
     (if str_trim name = [] then out
      else push_new \<lparr>pd_name = str_trim name, pd_version = version, pd_ecosystem = eco, pd_source_artifact = source\<rparr> out)"

definition requirement_line :: "string \<Rightarrow> parsed_dependency list \<Rightarrow> string \<Rightarrow> parsed_dependency list" where
  "requirement_line source out raw =
     (let trimmed = str_trim raw
      in if str_contains trimmed ''://'' then
           (let spec = str_trim (case strip_prefix trimmed ''-e'' of
                  Some rest \<Rightarrow> rest
                | None \<Rightarrow> (case strip_prefix trimmed ''--editable'' of Some rest \<Rightarrow> rest | None \<Rightarrow> trimmed))
            in case parse_python_dep_name spec of
                 Some name \<Rightarrow> push_dep out name None PyPI source
               | None \<Rightarrow> out)
         else
           (let line = str_trim (hd (split_on CHR 0x23 trimmed))
            in if line = [] \<or> starts_with line ''-'' then out
               else
                 (let spec = str_trim (hd (split_on CHR '';'' line));
                      name = until_first ''=><~![ @'' spec;
                      rest = drop (length name) spec;
                      version = (case str_find rest ''=='' of
                          None \<Rightarrow> None | Some i \<Rightarrow> exact_version (hd (split_any '',; '' (drop (i + 2) rest))))
                  in push_dep out (str_trim name) version PyPI source)))"

definition collect_requirements_txt :: "string \<Rightarrow> string \<Rightarrow> parsed_dependency list" where
  "collect_requirements_txt content source = foldl (requirement_line source) [] (str_lines content)"

definition npm_alias_target :: "string \<Rightarrow> (string \<times> string option) option" where
  "npm_alias_target spec =
     (case strip_prefix spec ''npm:'' of
        None \<Rightarrow> None
      | Some rest \<Rightarrow>
          let version_at = (case strip_prefix rest ''@'' of
                Some after_scope \<Rightarrow> map_option Suc (str_find after_scope ''@'')
              | None \<Rightarrow> str_find rest ''@'')
          in Some (case version_at of Some i \<Rightarrow> (take i rest, Some (drop (i + 1) rest)) | None \<Rightarrow> (rest, None)))"

definition npm_member :: "string \<Rightarrow> parsed_dependency list \<Rightarrow> string \<times> json \<Rightarrow> parsed_dependency list" where
  "npm_member source out = (\<lambda>(name, spec).
     (case Option.bind (as_str spec) npm_alias_target of
        Some (target, version) \<Rightarrow> push_dep out target (Option.bind version exact_semver_pin) Npm source
      | None \<Rightarrow> push_dep out name (Option.bind (as_str spec) exact_semver_pin) Npm source))"

definition npm_field :: "json \<Rightarrow> string \<Rightarrow> parsed_dependency list \<Rightarrow> string \<Rightarrow> parsed_dependency list" where
  "npm_field value source out field =
     (case json_get value field of
        Some (JObject members) \<Rightarrow> foldl (npm_member source) out members | x \<Rightarrow> out)"

definition collect_package_json :: "(string \<Rightarrow> string + json) \<Rightarrow> string \<Rightarrow> string \<Rightarrow> parsed_dependency list" where
  "collect_package_json parse_json content source =
     (case parse_json content of
        Inl e \<Rightarrow> []
      | Inr value \<Rightarrow>
          foldl (npm_field value source) [] [''dependencies'', ''devDependencies'', ''optionalDependencies''])"

text \<open>A TOML value, as far as it is looked at.\<close>

datatype toml_value =
  TV_String string | TV_Table "(string \<times> toml_value) list" | TV_Array "toml_value list" | TV_Other

fun toml_get :: "toml_value \<Rightarrow> string \<Rightarrow> toml_value option" where
  "toml_get (TV_Table members) key = map_of members key"
| "toml_get _ key = None"

fun toml_str :: "toml_value \<Rightarrow> string option" where
  "toml_str (TV_String s) = Some s"
| "toml_str _ = None"

definition toml_version :: "toml_value \<Rightarrow> string option" where
  "toml_version spec =
     (case spec of
        TV_String s \<Rightarrow> exact_semver_pin s
      | TV_Table t \<Rightarrow> Option.bind (Option.bind (map_of t ''version'') toml_str) exact_semver_pin
      | x \<Rightarrow> None)"

definition cargo_entry :: "string \<Rightarrow> parsed_dependency list \<Rightarrow> string \<times> toml_value \<Rightarrow> parsed_dependency list" where
  "cargo_entry source out = (\<lambda>(name, spec).
     let resolved = (case spec of
           TV_Table t \<Rightarrow> (case Option.bind (map_of t ''package'') toml_str of Some p \<Rightarrow> p | None \<Rightarrow> name)
         | x \<Rightarrow> name)
     in push_dep out resolved (toml_version spec) CratesIo source)"

definition cargo_section :: "toml_value \<Rightarrow> string \<Rightarrow> parsed_dependency list \<Rightarrow> string \<Rightarrow> parsed_dependency list" where
  "cargo_section value source out section_name =
     (case toml_get value section_name of
        Some (TV_Table table) \<Rightarrow> foldl (cargo_entry source) out table | x \<Rightarrow> out)"

definition collect_cargo :: "(string \<Rightarrow> toml_value option) \<Rightarrow> string \<Rightarrow> string \<Rightarrow> parsed_dependency list" where
  "collect_cargo parse_toml content source =
     (case parse_toml content of
        None \<Rightarrow> []
      | Some value \<Rightarrow>
          foldl (cargo_section value source) [] [''dependencies'', ''dev-dependencies'', ''build-dependencies''])"

definition project_entry :: "string \<Rightarrow> parsed_dependency list \<Rightarrow> toml_value \<Rightarrow> parsed_dependency list" where
  "project_entry source out entry =
     (case toml_str entry of
        None \<Rightarrow> out
      | Some s \<Rightarrow>
          foldl (\<lambda>out d. push_dep out (pd_name d) (pd_version d) PyPI source) out (collect_requirements_txt s source))"

definition poetry_entry :: "string \<Rightarrow> parsed_dependency list \<Rightarrow> string \<times> toml_value \<Rightarrow> parsed_dependency list" where
  "poetry_entry source out = (\<lambda>(name, spec).
     if eq_ignore_ascii_case name ''python'' then out else push_dep out name (toml_version spec) PyPI source)"

definition collect_pyproject :: "(string \<Rightarrow> toml_value option) \<Rightarrow> string \<Rightarrow> string \<Rightarrow> parsed_dependency list" where
  "collect_pyproject parse_toml content source =
     (case parse_toml content of
        None \<Rightarrow> []
      | Some value \<Rightarrow>
          let out = (case Option.bind (toml_get value ''project'') (\<lambda>p. toml_get p ''dependencies'') of
                Some (TV_Array deps) \<Rightarrow> foldl (project_entry source) [] deps | x \<Rightarrow> [])
          in case Option.bind (Option.bind (toml_get value ''tool'') (\<lambda>t. toml_get t ''poetry''))
                    (\<lambda>p. toml_get p ''dependencies'') of
               Some (TV_Table table) \<Rightarrow> foldl (poetry_entry source) out table | x \<Rightarrow> out)"

definition collect_for_manifest ::
    "(string \<Rightarrow> string + json) \<Rightarrow> (string \<Rightarrow> toml_value option) \<Rightarrow> string \<Rightarrow> string \<Rightarrow> string \<Rightarrow> parsed_dependency list" where
  "collect_for_manifest parse_json parse_toml file_name content source =
     (let lower = to_ascii_lowercase file_name
      in if lower = ''requirements.txt'' then collect_requirements_txt content source
         else if lower = ''pyproject.toml'' then collect_pyproject parse_toml content source
         else if lower = ''package.json'' then collect_package_json parse_json content source
         else if lower = ''cargo.toml'' then collect_cargo parse_toml content source
         else [])"

section \<open>What an inventory holds\<close>

text \<open>A version that stands for one release: no operator, no wildcard, and in npm and Cargo three numbers.\<close>

definition exact_release :: "ecosystem \<Rightarrow> string \<Rightarrow> bool" where
  "exact_release eco v \<longleftrightarrow>
     v \<noteq> [] \<and> ascii_digit (hd v) \<and> list_all (\<lambda>b. ascii_alnum b \<or> b \<in> set ''.-+_'') v
     \<and> list_all (\<lambda>p. p \<notin> {''*'', ''x'', ''X''}) (split_any ''.-+'' v)
     \<and> (eco = PyPI \<or> length (split_any ''.'' (hd (split_any ''-+'' v))) = 3
          \<and> list_all numeric_component (split_any ''.'' (hd (split_any ''-+'' v))))"

definition sound_dependency :: "string \<Rightarrow> parsed_dependency \<Rightarrow> bool" where
  "sound_dependency source d \<longleftrightarrow>
     pd_name d \<noteq> [] \<and> pd_source_artifact d = source
     \<and> (case pd_version d of None \<Rightarrow> True | Some v \<Rightarrow> exact_release (pd_ecosystem d) v)"

definition sound_inventory :: "string \<Rightarrow> parsed_dependency list \<Rightarrow> bool" where
  "sound_inventory source out \<longleftrightarrow> distinct out \<and> list_all (sound_dependency source) out"

lemma exact_version_release: "exact_version spec = Some v \<Longrightarrow> exact_release PyPI v"
  by (auto simp: exact_version_def exact_release_def has_wildcard_component_def list_all_iff list_ex_iff Let_def
      split: if_splits)

lemma exact_semver_release: "exact_semver_pin spec = Some v \<Longrightarrow> exact_release eco v"
  by (auto simp: exact_semver_pin_def exact_release_def dest!: exact_version_release
      split: option.splits list.splits if_splits)

lemma push_dep_sound:
  assumes "sound_inventory source out" "\<And>v. version = Some v \<Longrightarrow> exact_release eco v"
  shows "sound_inventory source (push_dep out name version eco source)"
  using assms by (auto simp: push_dep_def sound_inventory_def sound_dependency_def list_all_iff split: option.split)

text \<open>Every loop body keeps an inventory sound, so every loop does.\<close>

locale collecting_step =
  fixes source :: string and step :: "parsed_dependency list \<Rightarrow> 'x \<Rightarrow> parsed_dependency list"
  assumes step_sound: "sound_inventory source out \<Longrightarrow> sound_inventory source (step out x)"
begin

lemma loop_sound: "sound_inventory source out \<Longrightarrow> sound_inventory source (foldl step out xs)"
  by (induction xs arbitrary: out) (simp_all add: step_sound)

lemma collected_sound: "sound_inventory source (foldl step [] xs)"
  by (rule loop_sound) (simp add: sound_inventory_def)

end

interpretation requirement_lines: collecting_step source "requirement_line source" for source
  by unfold_locales
     (auto simp: requirement_line_def Let_def split: option.split intro!: push_dep_sound dest: exact_version_release)

lemma requirements_sound: "sound_inventory source (collect_requirements_txt content source)"
  unfolding collect_requirements_txt_def by (rule requirement_lines.collected_sound)

interpretation npm_members: collecting_step source "npm_member source" for source
  by unfold_locales
     (auto simp: npm_member_def split: option.split prod.split intro!: push_dep_sound
        dest: exact_semver_release simp: bind_eq_Some_conv)

interpretation npm_fields: collecting_step source "npm_field v source" for v source
  by unfold_locales (auto simp: npm_field_def npm_members.loop_sound split: option.split json.split)

lemma toml_version_release: "toml_version spec = Some v \<Longrightarrow> exact_release eco v"
  by (auto simp: toml_version_def bind_eq_Some_conv dest: exact_semver_release split: toml_value.splits)

interpretation cargo_entries: collecting_step source "cargo_entry source" for source
  by unfold_locales (auto simp: cargo_entry_def Let_def intro!: push_dep_sound dest: toml_version_release)

interpretation cargo_sections: collecting_step source "cargo_section v source" for v source
  by unfold_locales (auto simp: cargo_section_def cargo_entries.loop_sound split: option.split toml_value.split)

interpretation poetry_entries: collecting_step source "poetry_entry source" for source
  by unfold_locales (auto simp: poetry_entry_def intro!: push_dep_sound dest: toml_version_release)

lemma project_dependencies_sound:
  "sound_inventory source out \<Longrightarrow> list_all (sound_dependency source) ds \<Longrightarrow> list_all (\<lambda>d. pd_ecosystem d = PyPI) ds \<Longrightarrow>
     sound_inventory source (foldl (\<lambda>out d. push_dep out (pd_name d) (pd_version d) PyPI source) out ds)"
proof (induction ds arbitrary: out)
  case (Cons d ds)
  then have "sound_inventory source (push_dep out (pd_name d) (pd_version d) PyPI source)"
    by (intro push_dep_sound) (auto simp: sound_dependency_def)
  with Cons show ?case by simp
qed simp

lemma requirement_line_PyPI:
  "list_all (\<lambda>d. pd_ecosystem d = PyPI) out \<Longrightarrow> list_all (\<lambda>d. pd_ecosystem d = PyPI) (requirement_line source out raw)"
  by (auto simp: requirement_line_def Let_def push_dep_def list_all_iff split: option.split)

lemma requirements_PyPI: "list_all (\<lambda>d. pd_ecosystem d = PyPI) (collect_requirements_txt content source)"
proof -
  have "list_all (\<lambda>d. pd_ecosystem d = PyPI) out \<Longrightarrow>
      list_all (\<lambda>d. pd_ecosystem d = PyPI) (foldl (requirement_line source) out ls)" for out ls
    by (induction ls arbitrary: out) (simp_all add: requirement_line_PyPI)
  then show ?thesis by (simp add: collect_requirements_txt_def)
qed

interpretation project_entries: collecting_step source "project_entry source" for source
proof unfold_locales
  fix out x
  assume "sound_inventory source out"
  moreover have "list_all (sound_dependency source) (collect_requirements_txt c source)" for c
    using requirements_sound [of source c] by (simp add: sound_inventory_def)
  ultimately show "sound_inventory source (project_entry source out x)"
    using requirements_PyPI by (auto simp: project_entry_def project_dependencies_sound split: option.split)
qed

lemma empty_sound: "sound_inventory source []"
  by (simp add: sound_inventory_def)

lemma inventory_sound: "sound_inventory source (collect_for_manifest parse_json parse_toml file_name content source)"
proof -
  have "sound_inventory source (collect_package_json parse_json content source)"
    unfolding collect_package_json_def
    by (cases "parse_json content") (simp_all add: empty_sound npm_fields.collected_sound del: foldl_Cons)
  moreover have "sound_inventory source (collect_cargo parse_toml content source)"
    unfolding collect_cargo_def
    by (cases "parse_toml content") (simp_all add: empty_sound cargo_sections.collected_sound del: foldl_Cons)
  moreover have "sound_inventory source (collect_pyproject parse_toml content source)"
    unfolding collect_pyproject_def Let_def
    by (auto simp: empty_sound project_entries.collected_sound poetry_entries.loop_sound split: option.split toml_value.split)
  ultimately show ?thesis
    by (simp add: collect_for_manifest_def Let_def requirements_sound empty_sound)
qed

text \<open>The names a manifest declares: the target of an npm alias or the renamed crate, else the key.\<close>

definition members_of :: "json \<Rightarrow> string \<Rightarrow> (string \<times> json) list" where
  "members_of value field = (case json_get value field of Some (JObject members) \<Rightarrow> members | x \<Rightarrow> [])"

definition npm_name :: "string \<times> json \<Rightarrow> string" where
  "npm_name = (\<lambda>(name, spec).
     str_trim (case Option.bind (as_str spec) npm_alias_target of Some (target, v) \<Rightarrow> target | None \<Rightarrow> name))"

definition table_of :: "toml_value \<Rightarrow> string \<Rightarrow> (string \<times> toml_value) list" where
  "table_of value name = (case toml_get value name of Some (TV_Table table) \<Rightarrow> table | x \<Rightarrow> [])"

definition crate_name :: "string \<times> toml_value \<Rightarrow> string" where
  "crate_name = (\<lambda>(name, spec). str_trim (case spec of
       TV_Table t \<Rightarrow> (case Option.bind (map_of t ''package'') toml_str of Some p \<Rightarrow> p | None \<Rightarrow> name) | x \<Rightarrow> name))"

lemma push_dep_names: "pd_name ` set (push_dep out n v e s) = pd_name ` set out \<union> ({str_trim n} - {[]})"
  by (auto simp: push_dep_def)

lemma npm_member_names: "pd_name ` set (npm_member source out m) = pd_name ` set out \<union> ({npm_name m} - {[]})"
  by (simp add: npm_member_def npm_name_def push_dep_names split: prod.split option.split)

lemma npm_field_names:
  "pd_name ` set (npm_field value source out field) = pd_name ` set out \<union> (npm_name ` set (members_of value field) - {[]})"
proof -
  have "pd_name ` set (foldl (npm_member source) out ms) = pd_name ` set out \<union> (npm_name ` set ms - {[]})" for ms
    by (induction ms arbitrary: out) (auto simp: npm_member_names)
  then show ?thesis by (auto simp: npm_field_def members_of_def split: option.split json.split)
qed

lemma cargo_entry_names: "pd_name ` set (cargo_entry source out m) = pd_name ` set out \<union> ({crate_name m} - {[]})"
  by (simp add: cargo_entry_def crate_name_def push_dep_names Let_def split: prod.split)

lemma cargo_section_names:
  "pd_name ` set (cargo_section value source out name) = pd_name ` set out \<union> (crate_name ` set (table_of value name) - {[]})"
proof -
  have "pd_name ` set (foldl (cargo_entry source) out ms) = pd_name ` set out \<union> (crate_name ` set ms - {[]})" for ms
    by (induction ms arbitrary: out) (auto simp: cargo_entry_names)
  then show ?thesis by (auto simp: cargo_section_def table_of_def split: option.split toml_value.split)
qed

section \<open>Properties\<close>


text \<open>A pin with a space after its operator, which the requirement grammar allows, loses its version.\<close>

lemma spaced_pin_lost:
  "map (\<lambda>d. pd_version d) (collect_requirements_txt ''a == 2.3'' source) = [None]"
  "map (\<lambda>d. pd_version d) (collect_requirements_txt ''a==2.3'' source) = [Some ''2.3'']"
  by code_simp+

end
