(* ===== verification/Shell_Commands.thy ===== *)
theory Shell_Commands
  imports Dependency_Inventory
begin

text \<open>
  The scanners for shell commands shared by the manifest detectors (\<open>detectors/patterns.rs\<close>): which words of a
  line stand in command position, and whether a command is given an argument. The loops move an index
  over the line; here they return the rest of it.
\<close>

section \<open>Words of a line\<close>

definition is_shell_command_separator :: "char \<Rightarrow> bool" where
  "is_shell_command_separator ch \<longleftrightarrow> ch \<in> set ''|;&(''"

definition word_char :: "char \<Rightarrow> bool" where
  "word_char ch \<longleftrightarrow> \<not> (ascii_whitespace_byte ch \<or> is_shell_command_separator ch)"

definition QUOTES_AND_BRACKETS :: "char set" where
  "QUOTES_AND_BRACKETS = {CHR 0x22, CHR 0x27, CHR 0x60} \<union> set '')]}''"

definition trim_matches :: "char set \<Rightarrow> string \<Rightarrow> string" where
  "trim_matches cs s = rev (dropWhile (\<lambda>c. c \<in> cs) (rev (dropWhile (\<lambda>c. c \<in> cs) s)))"

definition normalized_command_basename :: "string \<Rightarrow> bool \<Rightarrow> string" where
  "normalized_command_basename token expects_command =
     (let command = trim_matches QUOTES_AND_BRACKETS token;
          command = (if expects_command then dropWhile (\<lambda>c. c \<in> set ''@-+'') command else command);
          basename = rev (takeWhile (\<lambda>c. c \<noteq> CHR ''/'' \<and> c \<noteq> CHR 0x5C) (rev command));
          lower = to_ascii_lowercase basename
      in if ends_with lower ''.exe'' then take (length lower - 4) lower else lower)"

definition is_interpreter_basename :: "string \<Rightarrow> bool" where
  "is_interpreter_basename b \<longleftrightarrow>
     b \<in> set [''bash'', ''sh'', ''dash'', ''zsh'', ''fish'', ''ksh'', ''csh'', ''tcsh'', ''pwsh'', ''powershell'', ''python'', ''node'']"

definition is_shell_assignment :: "string \<Rightarrow> bool" where
  "is_shell_assignment token =
     (case str_find token ''='' of
        None \<Rightarrow> False
      | Some i \<Rightarrow> take i token \<noteq> [] \<and> list_all (\<lambda>b. ascii_alnum b \<or> b = CHR ''_'') (take i token))"

definition token_keeps_command_position :: "string \<Rightarrow> bool" where
  "token_keeps_command_position token \<longleftrightarrow>
     token \<in> set [''sudo'', ''doas'', ''env'', ''command'', ''exec'', ''nohup'', ''time'', ''nice'', ''xargs'', ''if'', ''elif'',
       ''while'', ''until'', ''then'', ''else'', ''do'']
     \<or> is_shell_assignment token"

section \<open>The loops\<close>

lemma after_word_shorter:
  assumes "dropWhile p s = c # cs"
  shows "length cs < length s" "q c \<Longrightarrow> length (dropWhile q (c # cs)) < length s"
proof -
  have "length (c # cs) \<le> length s" using length_dropWhile_le [of p s] assms by simp
  then show "length cs < length s" by simp
  then show "length (dropWhile q (c # cs)) < length s" if "q c"
    using that length_dropWhile_le [of q cs] by simp
qed

text \<open>Both command loops; they differ in the test of a word in command position and of what follows it.\<close>

function command_scan :: "(string \<Rightarrow> string \<Rightarrow> bool) \<Rightarrow> bool \<Rightarrow> string \<Rightarrow> bool" where
  "command_scan hit expects s =
     (case dropWhile ascii_whitespace_byte s of
        [] \<Rightarrow> False
      | c # cs \<Rightarrow>
          if is_shell_command_separator c then command_scan hit True cs
          else
            (let rest = dropWhile word_char (c # cs);
                 basename = normalized_command_basename (takeWhile word_char (c # cs)) expects
             in if expects \<and> hit basename rest then True
                else command_scan hit (expects \<and> token_keeps_command_position basename) rest))"
  by pat_completeness auto

lemma first_word_char:
  "dropWhile ascii_whitespace_byte s = c # cs \<Longrightarrow> \<not> is_shell_command_separator c \<Longrightarrow> word_char c"
  using hd_dropWhile [of ascii_whitespace_byte s] by (auto simp: word_char_def)

termination command_scan
proof (relation "measure (\<lambda>(hit, expects, s). length s)", goal_cases)
  case (2 hit expects s c cs)
  then show ?case using after_word_shorter(1) by fastforce
next
  case (3 hit expects s c cs rest basename)
  then show ?case using after_word_shorter(2) [of ascii_whitespace_byte s c cs word_char] first_word_char by simp
qed simp

declare command_scan.simps [simp del]

function command_invocation_has_arg :: "string \<Rightarrow> string \<Rightarrow> bool" where
  "command_invocation_has_arg rest arg =
     (case dropWhile ascii_whitespace_byte rest of
        [] \<Rightarrow> False
      | c # cs \<Rightarrow>
          if is_shell_command_separator c then False
          else if trim_matches QUOTES_AND_BRACKETS (takeWhile word_char (c # cs)) = arg then True
          else command_invocation_has_arg (dropWhile word_char (c # cs)) arg)"
  by pat_completeness auto

termination
proof (relation "measure (\<lambda>(rest, arg). length rest)", goal_cases)
  case (2 rest arg c cs)
  then show ?case using after_word_shorter(2) [of ascii_whitespace_byte rest c cs word_char] first_word_char by simp
qed simp

declare command_invocation_has_arg.simps [simp del]

definition line_invokes_shell_or_interpreter :: "string \<Rightarrow> bool" where
  "line_invokes_shell_or_interpreter line = command_scan (\<lambda>b rest. is_interpreter_basename b) True line"

definition line_invokes_command_with_arg :: "string \<Rightarrow> string \<Rightarrow> string \<Rightarrow> bool" where
  "line_invokes_command_with_arg line command arg =
     command_scan (\<lambda>b rest. b = command \<and> command_invocation_has_arg rest arg) True line"

text \<open>\<open>scan_command_token\<close> is the loop \<open>scan_occurrences\<close> with tests of what stands around the token.\<close>

definition scan_command_token ::
    "string \<Rightarrow> string \<Rightarrow> (string \<Rightarrow> char option \<Rightarrow> bool) \<Rightarrow> (string \<Rightarrow> bool) \<Rightarrow> bool" where
  "scan_command_token line token left_ok right_ok =
     scan_occurrences (\<lambda>i. left_ok (take i line) (if 0 < i then Some (line ! (i - 1)) else None)
         \<and> right_ok (drop (i + length token) line)) line token 0"

text \<open>The byte before the token is of a set, if there is one; so is the first one after it.\<close>

definition byte_before :: "char set \<Rightarrow> char option \<Rightarrow> bool" where
  "byte_before cs before = (case before of None \<Rightarrow> True | Some c \<Rightarrow> c \<in> cs)"

definition byte_after :: "char set \<Rightarrow> string \<Rightarrow> bool" where
  "byte_after cs after = (case after of [] \<Rightarrow> True | c # rest \<Rightarrow> c \<in> cs)"

definition line_contains_command_token :: "string \<Rightarrow> string \<Rightarrow> bool" where
  "line_contains_command_token line token =
     scan_command_token line token
       (\<lambda>pre. byte_before (set '' |;&/('' \<union> {CHR 0x09, CHR 0x5C, CHR 0x22, CHR 0x27, CHR 0x60}))
       (byte_after (set '' (|;&><),]}'' \<union> {CHR 0x09, CHR 0x22, CHR 0x27, CHR 0x60}))"

definition line_invokes_powershell_expression_alias :: "string \<Rightarrow> bool" where
  "line_invokes_powershell_expression_alias line =
     scan_command_token (to_ascii_lowercase line) ''iex''
       (\<lambda>pre. byte_before (set '' |;&('' \<union> {CHR 0x09})) (byte_after (set '' (|;&'' \<union> {CHR 0x09}))"

section \<open>Commands of a line\<close>

text \<open>The words of a line, grouped by the separators between them.\<close>

function command_groups :: "string \<Rightarrow> string list list" where
  "command_groups s =
     (case dropWhile ascii_whitespace_byte s of
        [] \<Rightarrow> [[]]
      | c # cs \<Rightarrow>
          if is_shell_command_separator c then [] # command_groups cs
          else
            (case command_groups (dropWhile word_char (c # cs)) of
               g # gs \<Rightarrow> (takeWhile word_char (c # cs) # g) # gs | [] \<Rightarrow> [[takeWhile word_char (c # cs)]]))"
  by pat_completeness auto

termination
proof (relation "measure length", goal_cases)
  case (2 s c cs)
  then show ?case using after_word_shorter(1) by fastforce
next
  case (3 s c cs)
  then show ?case using after_word_shorter(2) [of ascii_whitespace_byte s c cs word_char] first_word_char by simp
qed simp

declare command_groups.simps [simp del]

lemma command_groups_nonempty: "command_groups s \<noteq> []"
  by (subst command_groups.simps) (auto split: list.split)

text \<open>One round of each loop.\<close>

lemma rounds_end:
  assumes "dropWhile ascii_whitespace_byte s = []"
  shows "command_groups s = [[]]" "\<not> command_scan hit e s" "\<not> command_invocation_has_arg s arg"
  by (simp_all only: command_groups.simps [of s] command_scan.simps [of hit e s] command_invocation_has_arg.simps [of s arg]
      assms list.case not_False_eq_True)

lemma rounds_separator:
  assumes "dropWhile ascii_whitespace_byte s = c # cs" "is_shell_command_separator c"
  shows "command_groups s = [] # command_groups cs" "command_scan hit e s = command_scan hit True cs"
    "\<not> command_invocation_has_arg s arg"
  by (simp_all only: command_groups.simps [of s] command_scan.simps [of hit e s] command_invocation_has_arg.simps [of s arg]
      assms list.case if_True not_False_eq_True)

lemma rounds_word:
  assumes "dropWhile ascii_whitespace_byte s = c # cs" "\<not> is_shell_command_separator c"
    and "command_groups (dropWhile word_char (c # cs)) = g # gs"
  shows "command_groups s = (takeWhile word_char (c # cs) # g) # gs"
    "command_scan hit e s =
       (let b = normalized_command_basename (takeWhile word_char (c # cs)) e; rest = dropWhile word_char (c # cs)
        in if e \<and> hit b rest then True else command_scan hit (e \<and> token_keeps_command_position b) rest)"
    "command_invocation_has_arg s arg =
       (trim_matches QUOTES_AND_BRACKETS (takeWhile word_char (c # cs)) = arg
        \<or> command_invocation_has_arg (dropWhile word_char (c # cs)) arg)"
  by (simp_all only: command_groups.simps [of s] command_scan.simps [of hit e s] command_invocation_has_arg.simps [of s arg]
      assms list.case if_False Let_def) simp_all

lemma groups_split: obtains g gs where "command_groups s = g # gs"
  using command_groups_nonempty [of s] by (cases "command_groups s") auto

text \<open>A word in command position: every word before it in its group keeps that position.\<close>

definition group_invokes :: "string \<Rightarrow> string \<Rightarrow> string list \<Rightarrow> bool" where
  "group_invokes command arg g \<longleftrightarrow>
     (\<exists>wrappers w args. g = wrappers @ w # args
        \<and> list_all (\<lambda>p. token_keeps_command_position (normalized_command_basename p True)) wrappers
        \<and> normalized_command_basename w True = command
        \<and> arg \<in> trim_matches QUOTES_AND_BRACKETS ` set args)"

lemma group_invokes_Nil [simp]: "\<not> group_invokes command arg []"
  by (simp add: group_invokes_def)

lemma group_invokes_Cons:
  "group_invokes command arg (w # ws) \<longleftrightarrow>
     normalized_command_basename w True = command \<and> arg \<in> trim_matches QUOTES_AND_BRACKETS ` set ws
     \<or> token_keeps_command_position (normalized_command_basename w True) \<and> group_invokes command arg ws"
proof
  assume "group_invokes command arg (w # ws)"
  then obtain wrappers v args where g: "w # ws = wrappers @ v # args"
    "list_all (\<lambda>p. token_keeps_command_position (normalized_command_basename p True)) wrappers"
    "normalized_command_basename v True = command" "arg \<in> trim_matches QUOTES_AND_BRACKETS ` set args"
    unfolding group_invokes_def by blast
  then show "normalized_command_basename w True = command \<and> arg \<in> trim_matches QUOTES_AND_BRACKETS ` set ws
     \<or> token_keeps_command_position (normalized_command_basename w True) \<and> group_invokes command arg ws"
    unfolding group_invokes_def by (cases wrappers) auto
next
  assume "normalized_command_basename w True = command \<and> arg \<in> trim_matches QUOTES_AND_BRACKETS ` set ws
     \<or> token_keeps_command_position (normalized_command_basename w True) \<and> group_invokes command arg ws"
  then show "group_invokes command arg (w # ws)"
  proof
    assume "normalized_command_basename w True = command \<and> arg \<in> trim_matches QUOTES_AND_BRACKETS ` set ws"
    then show ?thesis unfolding group_invokes_def
      by (intro exI [of _ "[]"] exI [of _ w] exI [of _ ws]) simp
  next
    assume rest: "token_keeps_command_position (normalized_command_basename w True) \<and> group_invokes command arg ws"
    then obtain wrappers v args where "ws = wrappers @ v # args"
      "list_all (\<lambda>p. token_keeps_command_position (normalized_command_basename p True)) wrappers"
      "normalized_command_basename v True = command" "arg \<in> trim_matches QUOTES_AND_BRACKETS ` set args"
      unfolding group_invokes_def by blast
    then show ?thesis using rest unfolding group_invokes_def
      by (intro exI [of _ "w # wrappers"] exI [of _ v] exI [of _ args]) simp
  qed
qed

lemma has_arg_group:
  "command_invocation_has_arg rest arg \<longleftrightarrow> arg \<in> trim_matches QUOTES_AND_BRACKETS ` set (hd (command_groups rest))"
proof (induction rest arg rule: command_invocation_has_arg.induct)
  case (1 rest arg)
  show ?case
  proof (cases "dropWhile ascii_whitespace_byte rest")
    case Nil
    then show ?thesis by (simp add: rounds_end del: dropWhile_eq_Nil_conv)
  next
    case (Cons c cs)
    obtain g gs where g: "command_groups (dropWhile word_char (c # cs)) = g # gs" by (rule groups_split)
    show ?thesis
    proof (cases "is_shell_command_separator c")
      case True
      then show ?thesis by (simp add: rounds_separator [OF Cons])
    next
      case False
      have "trim_matches QUOTES_AND_BRACKETS (takeWhile word_char (c # cs)) \<noteq> arg \<Longrightarrow>
          command_invocation_has_arg (dropWhile word_char (c # cs)) arg \<longleftrightarrow> arg \<in> trim_matches QUOTES_AND_BRACKETS ` set g"
        using 1 [OF Cons False] by (simp only: g list.sel not_False_eq_True simp_thms)
      then show ?thesis unfolding rounds_word(1,3) [OF Cons False g] list.sel list.set by blast
    qed
  qed
qed

lemma command_scan_groups:
  fixes command arg
  defines "hit \<equiv> \<lambda>b rest. b = command \<and> command_invocation_has_arg rest arg"
  shows "command_scan hit expects s
     \<longleftrightarrow> (expects \<and> group_invokes command arg (hd (command_groups s)))
         \<or> list_ex (group_invokes command arg) (tl (command_groups s))"
proof (induction "length s" arbitrary: expects s rule: less_induct)
  case less
  show ?case
  proof (cases "dropWhile ascii_whitespace_byte s")
    case Nil
    then show ?thesis by (simp add: rounds_end del: dropWhile_eq_Nil_conv)
  next
    case (Cons c cs)
    show ?thesis
    proof (cases "is_shell_command_separator c")
      case True
      obtain g gs where "command_groups cs = g # gs" by (rule groups_split)
      then show ?thesis
        using less [OF after_word_shorter(1) [OF Cons], of True] by (simp add: rounds_separator [OF Cons True])
    next
      case False
      let ?w = "takeWhile word_char (c # cs)" and ?rest = "dropWhile word_char (c # cs)"
      obtain g gs where g: "command_groups ?rest = g # gs" by (rule groups_split)
      note rounds = rounds_word [OF Cons False g]
      have "length ?rest < length s" 
        using after_word_shorter(2) [of ascii_whitespace_byte s c cs word_char] Cons first_word_char [OF Cons False] by simp
      then have IH: "command_scan hit e ?rest \<longleftrightarrow> (e \<and> group_invokes command arg g) \<or> list_ex (group_invokes command arg) gs" for e
        using less [of ?rest e] by (simp only: g list.sel)
      have arg: "command_invocation_has_arg ?rest arg \<longleftrightarrow> arg \<in> trim_matches QUOTES_AND_BRACKETS ` set g"
        by (simp only: has_arg_group g list.sel)
      show ?thesis
        unfolding rounds(1,2) Let_def list.sel group_invokes_Cons IH 
        by (cases expects; simp only: hit_def arg simp_thms if_bool_eq_disj; blast)
    qed
  qed
qed

section \<open>Properties\<close>

text \<open>
  Claim C18: the scanner finds a command with an argument exactly if some group of words between separators runs it:
  the word's base name, without quotes, path, prefix and extension, is the command, every word before it in the
  group is a wrapper, a keyword or an assignment, and a later word of the same group is the argument.
\<close>

theorem command_with_arg_exact:
  "line_invokes_command_with_arg line command arg = list_ex (group_invokes command arg) (command_groups line)"
  using command_scan_groups [of command arg True line] command_groups_nonempty [of line]
  by (cases "command_groups line") (simp_all add: line_invokes_command_with_arg_def)

text \<open>
  What the words miss: a flag of a wrapper ends the command position, an assignment whose value is a path
  is read as a command because its base name is taken first, and an interpreter with its version in its name is not one.
\<close>

lemma wrapper_flag_hides_command:
  "line_invokes_command_with_arg ''sudo bash -c x'' ''bash'' ''-c''"
  "\<not> line_invokes_command_with_arg ''sudo -E bash -c x'' ''bash'' ''-c''"
  by code_simp+

lemma assigned_path_hides_command:
  "line_invokes_shell_or_interpreter ''A=b bash x.sh''"
  "\<not> line_invokes_shell_or_interpreter ''A=/b bash x.sh''"
  by code_simp+

lemma versioned_interpreter_missed:
  "line_invokes_shell_or_interpreter ''python x.py''"
  "\<not> line_invokes_shell_or_interpreter ''python3 x.py''"
  by code_simp+

end
