(* ===== verification/Path_Safety.thy ===== *)
theory Path_Safety
  imports Paths "HOL-Library.Sublist"
begin

text \<open>
  Containment of paths that an attacker can choose (\<open>path_safety.rs\<close>) and the references a markdown
  document makes to other files (\<open>analyzer/references.rs\<close>).

  The operations of \<open>std::path\<close> that this code uses (\<open>join\<close>, \<open>parent\<close>, \<open>file_name\<close>, \<open>extension\<close>,
  \<open>strip_prefix\<close>, \<open>starts_with\<close>) are written out on the text of a path, as on Unix; \<open>Eq\<close> and \<open>Hash\<close> of a
  path go by components. The file system and the three regular expressions are parameters: a file
  system is its \<open>exists\<close> and \<open>canonicalize\<close>, a regular expression is the function that lists, for a
  text, the first group of each match.
\<close>

section \<open>std::path\<close>

definition path_join :: "string \<Rightarrow> string \<Rightarrow> string" where
  "path_join base p =
     (if is_absolute p then p
      else if base = [] \<or> last base = CHR ''/'' then base @ p
      else base @ ''/'' @ p)"

fun join_parts :: "string list \<Rightarrow> string" where
  "join_parts [] = []"
| "join_parts [p] = p"
| "join_parts (p # ps) = p @ ''/'' @ join_parts ps"

definition trim_parts :: "string list \<Rightarrow> string list" where
  "trim_parts ps = rev (dropWhile (\<lambda>s. part_component s = []) (rev ps))"

definition path_parent :: "string \<Rightarrow> string option" where
  "path_parent p =
     (let parts = split_on CHR ''/'' p;
          rooted = is_absolute p;
          dotted = (\<not> rooted \<and> hd parts = ''.'');
          body = trim_parts (if rooted \<or> dotted then tl parts else parts)
      in if body = [] then (if dotted then Some [] else None)
         else
           let rest = trim_parts (butlast body)
           in Some (if rooted then ''/'' @ join_parts rest
                    else if dotted then join_parts (''.'' # rest)
                    else join_parts rest))"

definition path_file_name :: "string \<Rightarrow> string option" where
  "path_file_name p =
     (let cs = path_components p
      in if cs = [] then None else (case last cs of Normal n \<Rightarrow> Some n | _ \<Rightarrow> None))"

definition path_extension :: "string \<Rightarrow> string option" where
  "path_extension p =
     (case path_file_name p of
        None \<Rightarrow> None
      | Some name \<Rightarrow>
          (case str_rfind name ''.'' of
             None \<Rightarrow> None
           | Some i \<Rightarrow> if i = 0 then None else Some (drop (i + 1) name)))"

definition path_strip_prefix :: "component list \<Rightarrow> component list \<Rightarrow> component list option" where
  "path_strip_prefix cs base =
     (if take (length base) cs = base then Some (drop (length base) cs) else None)"

definition path_starts_with :: "string \<Rightarrow> string \<Rightarrow> bool" where
  "path_starts_with p base \<longleftrightarrow> prefix (path_components base) (path_components p)"

section \<open>path_safety.rs\<close>

fun stays_from :: "int \<Rightarrow> component list \<Rightarrow> bool" where
  "stays_from depth [] = True"
| "stays_from depth (c # cs) =
     (case c of
        ParentDir \<Rightarrow> (let d = depth - 1 in if d < 0 then False else stays_from d cs)
      | Normal n \<Rightarrow> stays_from (depth + 1) cs
      | CurDir \<Rightarrow> stays_from depth cs
      | RootDir \<Rightarrow> False)"

definition path_stays_within_base :: "string \<Rightarrow> string \<Rightarrow> bool" where
  "path_stays_within_base candidate base_dir =
     (let suffix = (case path_strip_prefix (path_components candidate) (path_components base_dir) of
                      Some rest \<Rightarrow> rest | None \<Rightarrow> path_components candidate)
      in stays_from 0 suffix)"

record 'e path_resolver =
  path_exists :: "string \<Rightarrow> bool"
  canonicalize :: "string \<Rightarrow> 'e + string"

definition path_resolves_within_base :: "('e, 'z) path_resolver_scheme \<Rightarrow> string \<Rightarrow> string \<Rightarrow> bool" where
  "path_resolves_within_base fs candidate base_dir =
     (if \<not> path_stays_within_base candidate base_dir then False
      else if \<not> path_exists fs candidate then True
      else
        (case canonicalize fs base_dir of
           Inl e \<Rightarrow> False
         | Inr base \<Rightarrow>
             (case canonicalize fs candidate of
                Inl e \<Rightarrow> False
              | Inr real \<Rightarrow> path_starts_with real base)))"

section \<open>references.rs\<close>

definition MAX_REFERENCED_FILES :: nat where
  "MAX_REFERENCED_FILES = 1024"

definition SCRIPT_EXTENSIONS :: "string list" where
  "SCRIPT_EXTENSIONS =
     [''sh'', ''py'', ''ps1'', ''js'', ''ts'', ''rb'', ''pl'', ''bat'', ''cmd'']"

definition TRAILING_PUNCTUATION :: "char list" where
  "TRAILING_PUNCTUATION =
     [CHR '')'', CHR 0x60, CHR 0x22, CHR 0x27, CHR '','', CHR '';'', CHR ''>'', CHR ''.'']"

definition has_script_extension :: "string \<Rightarrow> bool" where
  "has_script_extension p =
     (case path_extension p of None \<Rightarrow> False | Some ext \<Rightarrow> ext \<in> set SCRIPT_EXTENSIONS)"

definition KNOWN_BARE_URL_PREFIXES :: "string list" where
  "KNOWN_BARE_URL_PREFIXES = [''mailto:'', ''data:'', ''javascript:'', ''tel:'']"

definition starts_with_bare_url_prefix :: "string \<Rightarrow> string \<Rightarrow> bool" where
  "starts_with_bare_url_prefix candidate pre \<longleftrightarrow>
     length pre < length candidate \<and> eq_ignore_ascii_case (take (length pre) candidate) pre"

definition ascii_alphabetic :: "char \<Rightarrow> bool" where
  "ascii_alphabetic c \<longleftrightarrow>
     65 \<le> byte_of c \<and> byte_of c \<le> 90 \<or> 97 \<le> byte_of c \<and> byte_of c \<le> 122"

definition scheme_byte :: "char \<Rightarrow> bool" where
  "scheme_byte c \<longleftrightarrow> ascii_alphabetic c \<or> 48 \<le> byte_of c \<and> byte_of c \<le> 57
     \<or> c = CHR ''+'' \<or> c = CHR ''.'' \<or> c = CHR ''-''"

text \<open>The walk of \<open>has_url_scheme\<close> over the bytes after the first one.\<close>

fun scheme_rest :: "string \<Rightarrow> bool" where
  "scheme_rest [] = False"
| "scheme_rest (b # bs) =
     (if scheme_byte b then scheme_rest bs
      else b = CHR '':'' \<and> take 2 bs = ''//'' \<and> 2 < length bs)"

definition has_url_scheme :: "string \<Rightarrow> bool" where
  "has_url_scheme candidate =
     (if list_ex (starts_with_bare_url_prefix candidate) KNOWN_BARE_URL_PREFIXES then True
      else
        (case candidate of
           [] \<Rightarrow> False
         | first # rest \<Rightarrow> if \<not> ascii_alphabetic first then False else scheme_rest rest))"

definition trim_end_matches :: "char list \<Rightarrow> string \<Rightarrow> string" where
  "trim_end_matches cs s = rev (dropWhile (\<lambda>c. c \<in> set cs) (rev s))"

definition clean_reference :: "string \<Rightarrow> string" where
  "clean_reference matched =
     (let raw = trim_end_matches TRAILING_PUNCTUATION matched
      in case strip_prefix raw ''./'' of Some r \<Rightarrow> r | None \<Rightarrow> raw)"

definition resolve_reference :: "string \<Rightarrow> bool \<Rightarrow> string \<Rightarrow> string option" where
  "resolve_reference base_dir requires_script_ext matched =
     (let raw = clean_reference matched
      in if raw = [] then None
         else if requires_script_ext \<and> \<not> has_script_extension raw then None
         else if has_url_scheme raw then None
         else if is_absolute raw then None
         else
           let resolved = path_join base_dir raw
           in if \<not> path_stays_within_base resolved base_dir then None else Some resolved)"

text \<open>
  The loops over the patterns and their matches as one list: a match is the flag of its pattern and
  its optional first group. The cap is tested before a match is looked at, and ends both loops.
\<close>

fun collect_references ::
    "string \<Rightarrow> component list set \<Rightarrow> string list \<Rightarrow> (bool \<times> string option) list \<Rightarrow> string list" where
  "collect_references base_dir seen refs [] = refs"
| "collect_references base_dir seen refs ((requires_script_ext, cap) # ms) =
     (if MAX_REFERENCED_FILES \<le> length refs then refs
      else
        (case Option.bind cap (resolve_reference base_dir requires_script_ext) of
           None \<Rightarrow> collect_references base_dir seen refs ms
         | Some resolved \<Rightarrow>
             let key = path_components resolved
             in if key \<in> seen then collect_references base_dir seen refs ms
                else collect_references base_dir (insert key seen) (refs @ [resolved]) ms))"

record reference_patterns =
  link_captures :: "string \<Rightarrow> string option list"
  command_captures :: "string \<Rightarrow> string option list"
  exec_captures :: "string \<Rightarrow> string option list"

definition reference_matches :: "reference_patterns \<Rightarrow> string \<Rightarrow> (bool \<times> string option) list" where
  "reference_matches re content =
     map (Pair False) (link_captures re content)
     @ map (Pair True) (command_captures re content)
     @ map (Pair False) (exec_captures re content)"

definition reference_base :: "string \<Rightarrow> string" where
  "reference_base base_path = (case path_parent base_path of Some d \<Rightarrow> d | None \<Rightarrow> ''.'')"

definition extract_references :: "reference_patterns \<Rightarrow> string \<Rightarrow> string \<Rightarrow> string list" where
  "extract_references re content base_path =
     collect_references (reference_base base_path) {} [] (reference_matches re content)"

section \<open>Lexical resolution\<close>

text \<open>
  What a list of components denotes lexically: \<open>..\<close> removes the name before it, stays at the root, and
  is kept where nothing is left to remove. The names are on a stack, the innermost first.
\<close>

fun resolve_step :: "component list \<Rightarrow> component \<Rightarrow> component list" where
  "resolve_step st RootDir = [RootDir]"
| "resolve_step st CurDir = st"
| "resolve_step st (Normal n) = Normal n # st"
| "resolve_step st ParentDir =
     (case st of
        Normal n # rest \<Rightarrow> rest
      | RootDir # rest \<Rightarrow> st
      | _ \<Rightarrow> ParentDir # st)"

definition resolve_components :: "component list \<Rightarrow> component list" where
  "resolve_components cs = rev (foldl resolve_step [] cs)"

definition lexical :: "string \<Rightarrow> component list" where
  "lexical p = resolve_components (path_components p)"

text \<open>\<open>below base p\<close>: lexically, \<open>p\<close> is \<open>base\<close> followed by names only.\<close>

definition below :: "string \<Rightarrow> string \<Rightarrow> bool" where
  "below base p \<longleftrightarrow> (\<exists>names. lexical p = lexical base @ map Normal names)"

lemma stays_from_stack:
  assumes "0 \<le> d" "stays_from d cs" "d = int (length names)"
  shows "\<exists>names'. foldl resolve_step (map Normal names @ st) cs = map Normal names' @ st"
  using assms
proof (induction cs arbitrary: d names)
  case Nil
  then show ?case by auto
next
  case (Cons c cs)
  show ?case
  proof (cases c)
    case (Normal n)
    then show ?thesis using Cons.IH [of "d + 1" "n # names"] Cons.prems by simp
  next
    case ParentDir
    then obtain m ms where "names = m # ms"
      using Cons.prems by (cases names) (auto simp: Let_def)
    then show ?thesis
      using Cons.IH [of "d - 1" ms] Cons.prems ParentDir by (auto simp: Let_def split: if_splits)
  qed (use Cons in auto)
qed

lemma stays_from_exact:
  "0 \<le> d \<Longrightarrow> stays_from d cs \<longleftrightarrow>
     RootDir \<notin> set cs
     \<and> list_all (\<lambda>p. count_list p ParentDir \<le> nat d + length [c \<leftarrow> p. \<exists>n. c = Normal n]) (prefixes cs)"
proof (induction cs arbitrary: d)
  case Nil
  then show ?case by simp
next
  case (Cons c cs)
  show ?case
  proof (cases c)
    case (Normal n)
    have "nat (d + 1) = Suc (nat d)" using Cons.prems by simp
    with Normal Cons.prems show ?thesis
      using Cons.IH [of "d + 1"] by (simp add: list_all_iff)
  next
    case ParentDir
    show ?thesis
    proof (cases "d - 1 < 0")
      case True
      then have "d = 0" using Cons.prems by simp
      then show ?thesis using ParentDir by (auto simp: list_all_iff intro!: bexI [of _ "[]"])
    next
      case False
      then have "nat d = Suc (nat (d - 1))" by simp
      with False ParentDir show ?thesis
        using Cons.IH [of "d - 1"] by (simp add: list_all_iff Let_def)
    qed
  qed (use Cons in \<open>auto simp: list_all_iff\<close>)
qed

section \<open>Joining\<close>

lemma split_on_append: "split_on c (a @ c # b) = split_on c a @ split_on c b"
  by (induction a) (auto split: list.splits)

lemma split_on_append_Nil: "split_on c (a @ [c]) = split_on c a @ [[]]"
  using split_on_append [of c a "[]"] by simp

lemma starts_with_slash: "is_absolute p \<longleftrightarrow> (\<exists>q. p = CHR ''/'' # q)"
  by (cases p) (auto simp: is_absolute_def starts_with_def)

definition without_leading_dot :: "component list \<Rightarrow> component list" where
  "without_leading_dot cs = (case cs of CurDir # rest \<Rightarrow> rest | _ \<Rightarrow> cs)"

lemma part_component_CurDir: "CurDir \<notin> set (part_component s)"
  by (simp add: part_component_def)

definition path_body :: "string \<Rightarrow> component list" where
  "path_body p = concat (map part_component (split_on CHR ''/'' p))"

definition path_front :: "string \<Rightarrow> component list" where
  "path_front p =
     (if is_absolute p then [RootDir] else if hd (split_on CHR ''/'' p) = ''.'' then [CurDir] else [])"

lemma components_front_body: "path_components p = path_front p @ path_body p"
  by (simp add: path_components_def path_front_def path_body_def Let_def)

lemma without_leading_dot_components:
  assumes "\<not> is_absolute p"
  shows "without_leading_dot (path_components p) = path_body p"
proof -
  have "CurDir \<notin> set (path_body p)" using part_component_CurDir by (auto simp: path_body_def)
  then show ?thesis
    using assms
    by (cases "path_body p")
       (auto simp: components_front_body path_front_def without_leading_dot_def split: component.split)
qed

lemma body_append: "path_body (a @ CHR ''/'' # b) = path_body a @ path_body b"
  by (simp add: path_body_def split_on_append)

lemma front_append:
  assumes "a \<noteq> []"
  shows "path_front (a @ CHR ''/'' # b) = path_front a"
proof -
  have "is_absolute (a @ CHR ''/'' # b) = is_absolute a"
    using assms by (cases a) (auto simp: starts_with_slash)
  then show ?thesis by (simp add: path_front_def split_on_append hd_append)
qed

lemma body_Nil: "path_body [] = []"
  by (simp add: path_body_def part_component_def)

lemma components_join:
  assumes "\<not> is_absolute p" "base \<noteq> []"
  shows "path_components (path_join base p) = path_components base @ without_leading_dot (path_components p)"
proof (cases "last base = CHR ''/''")
  case True
  then obtain a where base: "base = a @ [CHR ''/'']"
    using assms(2) by (metis append_butlast_last_id)
  show ?thesis
  proof (cases "a = []")
    case True
    with base have "path_components base = [RootDir]" by (simp add: path_components_def is_absolute_def starts_with_def part_component_def)
    with True base show ?thesis
      using assms without_leading_dot_components [OF assms(1)] body_append [of "[]" p]
      by (simp add: path_join_def components_front_body path_front_def body_Nil starts_with_slash)
  next
    case False
    with base show ?thesis
      using assms without_leading_dot_components [OF assms(1)] body_append [of a p] body_append [of a "[]"]
        front_append [of a p] front_append [of a "[]"]
      by (simp add: path_join_def components_front_body body_Nil)
  qed
next
  case False
  then show ?thesis
    using assms without_leading_dot_components [OF assms(1)] body_append [of base p] front_append [of base p]
    by (simp add: path_join_def components_front_body)
qed

lemma components_join_Nil: "path_join [] p = p"
  by (simp add: path_join_def)

lemma components_Nil [simp]: "path_components [] = []"
  by (simp add: components_front_body body_Nil path_front_def is_absolute_def starts_with_def)

lemma stays_without_leading_dot: "stays_from d (without_leading_dot cs) = stays_from d cs"
  by (auto simp: without_leading_dot_def split: list.split component.split)

lemma stays_join:
  assumes "\<not> is_absolute r"
  shows "path_stays_within_base (path_join b r) b = stays_from 0 (path_components r)"
  using assms
  by (cases "b = []")
     (simp_all add: path_stays_within_base_def path_strip_prefix_def components_join components_join_Nil
        stays_without_leading_dot)

lemma lexical_join:
  assumes "\<not> is_absolute r" "stays_from 0 (path_components r)"
  shows "below b (path_join b r)"
proof -
  let ?st = "foldl resolve_step [] (path_components b)"
  have "stays_from 0 (without_leading_dot (path_components r))"
    using assms(2) by (simp add: stays_without_leading_dot)
  from stays_from_stack [OF _ this, of "[]" ?st]
  obtain names where names:
    "foldl resolve_step ?st (without_leading_dot (path_components r)) = map Normal names @ ?st" by auto
  have "foldl resolve_step [] (path_components (path_join b r)) = map Normal names @ ?st"
  proof (cases "b = []")
    case True
    then have "foldl resolve_step [] (path_components r) = map Normal names"
      using names by (auto simp: without_leading_dot_def split: list.splits component.splits)
    with True show ?thesis by (simp add: components_join_Nil)
  next
    case False
    with assms(1) names show ?thesis by (simp add: components_join)
  qed
  then show ?thesis
    unfolding below_def lexical_def resolve_components_def
    by (intro exI [of _ "rev names"]) (simp add: rev_map)
qed

definition names_in :: "component list \<Rightarrow> nat" where
  "names_in cs = length [c \<leftarrow> cs. \<exists>n. c = Normal n]"

lemma stays_from_relative:
  "\<not> is_absolute r \<Longrightarrow> stays_from 0 (path_components r)
     = list_all (\<lambda>p. count_list p ParentDir \<le> names_in p) (prefixes (path_components r))"
  using stays_from_exact [of 0 "path_components r"] RootDir_iff [of r] by (simp add: names_in_def)

section \<open>Collecting\<close>

fun keep_first :: "('a \<Rightarrow> 'k) \<Rightarrow> 'k set \<Rightarrow> 'a list \<Rightarrow> 'a list" where
  "keep_first key seen [] = []"
| "keep_first key seen (x # xs) =
     (if key x \<in> seen then keep_first key seen xs else x # keep_first key (insert (key x) seen) xs)"

lemma keep_first_sub: "set (keep_first key seen xs) \<subseteq> set xs"
  by (induction xs arbitrary: seen) (simp_all, blast)

lemma keep_first_keys: "key ` set (keep_first key seen xs) = key ` set xs - seen"
  by (induction xs arbitrary: seen) auto

lemma keep_first_distinct: "distinct (map key (keep_first key seen xs))"
  by (induction xs arbitrary: seen) (auto simp: keep_first_keys)

definition reference_of :: "string \<Rightarrow> bool \<times> string option \<Rightarrow> string option" where
  "reference_of base_dir m = Option.bind (snd m) (resolve_reference base_dir (fst m))"

definition acceptable_references :: "string \<Rightarrow> (bool \<times> string option) list \<Rightarrow> string list" where
  "acceptable_references base_dir ms = List.map_filter (reference_of base_dir) ms"

lemma acceptable_references_simps [simp]:
  "acceptable_references b [] = []"
  "acceptable_references b (m # ms) =
     (case reference_of b m of None \<Rightarrow> acceptable_references b ms
      | Some r \<Rightarrow> r # acceptable_references b ms)"
  by (simp_all add: acceptable_references_def map_filter_simps split: option.split)

lemma collect_references_take:
  "length refs \<le> MAX_REFERENCED_FILES \<Longrightarrow>
   collect_references b seen refs ms
     = take MAX_REFERENCED_FILES (refs @ keep_first path_components seen (acceptable_references b ms))"
proof (induction b seen refs ms rule: collect_references.induct)
  case (2 b seen refs flag cap ms)
  show ?case
  proof (cases "MAX_REFERENCED_FILES \<le> length refs")
    case True
    then show ?thesis using 2(4) by simp
  next
    case False
    then show ?thesis
      using 2 by (auto simp: reference_of_def Let_def split: option.split)
  qed
qed simp

lemma resolve_reference_Some:
  assumes "resolve_reference b flag m = Some r"
  obtains raw where "raw = clean_reference m" "raw \<noteq> []" "\<not> is_absolute raw" "\<not> has_url_scheme raw"
    "\<not> (flag \<and> \<not> has_script_extension raw)" "r = path_join b raw" "path_stays_within_base r b"
  using assms by (auto simp: resolve_reference_def Let_def split: if_splits)

lemma acceptable_below: "r \<in> set (acceptable_references b ms) \<Longrightarrow> below b r \<and> path_stays_within_base r b"
  by (induction ms)
     (auto simp: reference_of_def bind_eq_Some_conv stays_join elim!: resolve_reference_Some
       intro!: lexical_join split: option.splits)

section \<open>Properties\<close>

text \<open>
  Claim C37: for a path joined from a base directory and a relative path, the check accepts exactly when no initial part
  of the relative path has more \<open>..\<close> than names, and then the joined path is, lexically, the base
  directory followed by names only: it cannot leave the base directory, whatever the base is.
\<close>

theorem stays_within_base_exact:
  assumes "\<not> is_absolute r"
  shows "path_stays_within_base (path_join base r) base
           = list_all (\<lambda>p. count_list p ParentDir \<le> names_in p) (prefixes (path_components r))
         \<and> (path_stays_within_base (path_join base r) base \<longrightarrow> below base (path_join base r))"
  using assms by (simp_all add: stays_join stays_from_relative lexical_join)

theorem stays_within_base_exact_witness:
  "path_stays_within_base ''../pkg/a/../b.sh'' ''../pkg'' \<and> below ''../pkg'' ''../pkg/a/../b.sh''
   \<and> \<not> path_stays_within_base ''../pkg/a/../../b.sh'' ''../pkg''"
proof -
  have in_base: "\<not> is_absolute ''a/../b.sh''" and out: "\<not> is_absolute ''a/../../b.sh''"
    by (simp_all add: is_absolute_def starts_with_def)
  have joins: "path_join ''../pkg'' ''a/../b.sh'' = ''../pkg/a/../b.sh''"
    "path_join ''../pkg'' ''a/../../b.sh'' = ''../pkg/a/../../b.sh''"
    by (simp_all add: path_join_def is_absolute_def starts_with_def)
  have "list_all (\<lambda>p. count_list p ParentDir \<le> names_in p) (prefixes (path_components ''a/../b.sh''))"
    and "\<not> list_all (\<lambda>p. count_list p ParentDir \<le> names_in p)
             (prefixes (path_components ''a/../../b.sh''))"
    by (simp_all add: path_components_def part_component_def is_absolute_def starts_with_def names_in_def)
  then show ?thesis
    using stays_within_base_exact [OF in_base, of "''../pkg''"]
      stays_within_base_exact [OF out, of "''../pkg''"] by (simp add: joins)
qed

text \<open>
  the references extracted from a document are the first 1024, distinct as paths, of the captures (links, then
  commands, then executions) that survive cleaning and every rejection; in particular each of them
  lies, lexically, in the directory of the document, passes the containment check that the scanner
  repeats later, and no two of them are equal paths.
\<close>

theorem extract_references_exact:
  "extract_references re content path
     = take MAX_REFERENCED_FILES
         (keep_first path_components {}
            (acceptable_references (reference_base path) (reference_matches re content)))
   \<and> list_all (\<lambda>r. below (reference_base path) r \<and> path_stays_within_base r (reference_base path))
     (extract_references re content path)
   \<and> distinct (map path_components (extract_references re content path))
   \<and> length (extract_references re content path) \<le> MAX_REFERENCED_FILES"
proof -
  let ?b = "reference_base path" and ?ms = "reference_matches re content"
  let ?all = "keep_first path_components {} (acceptable_references ?b ?ms)"
  have eq: "extract_references re content path = take MAX_REFERENCED_FILES ?all"
    by (simp add: extract_references_def collect_references_take)
  have "set (extract_references re content path) \<subseteq> set (acceptable_references ?b ?ms)"
    using keep_first_sub set_take_subset unfolding eq by (metis subset_trans)
  then have "list_all (\<lambda>r. below ?b r \<and> path_stays_within_base r ?b) (extract_references re content path)"
    using acceptable_below by (auto simp: list_all_iff)
  moreover have "distinct (map path_components (extract_references re content path))"
    using keep_first_distinct [of path_components "{}" "acceptable_references ?b ?ms"]
    unfolding eq by (simp add: take_map [symmetric])
  moreover have "length (extract_references re content path) \<le> MAX_REFERENCED_FILES"
    unfolding eq by simp
  ultimately show ?thesis using eq by blast
qed

end
