(* ===== verification/Documents.thy ===== *)
theory Documents
  imports Path_Safety
begin

text \<open>
  The skill document (\<open>analyzer/\<close>): the file system and parser ports it is loaded through
  (\<open>ports.rs\<close>), lossy UTF-8 decoding, the probe for binaries disguised as markdown
  (\<open>binary_magic.rs\<close>), the structural assessment (\<open>assessment.rs\<close>) and the loader itself
  (\<open>document.rs\<close>).

  Paths are UTF-8 text, so \<open>to_str\<close>, \<open>to_string_lossy\<close> and \<open>display\<close> are the identity. The markdown
  parser and the regular expressions are parameters.
\<close>

section \<open>Lossy decoding\<close>

text \<open>
  \<open>String::from_utf8_lossy\<close>: the next well-formed character, or the longest ill-formed prefix that one
  replacement character stands for; with its number of bytes.
\<close>

definition cont_byte :: "char \<Rightarrow> bool" where
  "cont_byte c \<longleftrightarrow> 128 \<le> byte_of c \<and> byte_of c \<le> 191"

definition second_byte :: "nat \<Rightarrow> char \<Rightarrow> bool" where
  "second_byte b c \<longleftrightarrow>
     (if b = 0xE0 then 0xA0 \<le> byte_of c \<and> byte_of c \<le> 0xBF
      else if b = 0xED then 0x80 \<le> byte_of c \<and> byte_of c \<le> 0x9F
      else if b = 0xF0 then 0x90 \<le> byte_of c \<and> byte_of c \<le> 0xBF
      else if b = 0xF4 then 0x80 \<le> byte_of c \<and> byte_of c \<le> 0x8F
      else cont_byte c)"

fun cont_run :: "nat \<Rightarrow> string \<Rightarrow> nat" where
  "cont_run 0 bs = 0"
| "cont_run (Suc n) [] = 0"
| "cont_run (Suc n) (b # bs) = (if cont_byte b then Suc (cont_run n bs) else 0)"

fun utf8_unit :: "string \<Rightarrow> bool \<times> nat" where
  "utf8_unit [] = (True, 0)"
| "utf8_unit (b # bs) =
     (let v = byte_of b;
          more = (if v < 128 then 0 else if 0xC2 \<le> v \<and> v \<le> 0xDF then 1
                  else if 0xE0 \<le> v \<and> v \<le> 0xEF then 2 else if 0xF0 \<le> v \<and> v \<le> 0xF4 then 3 else 4)
      in if more = 0 then (True, 1)
         else if more = 4 then (False, 1)
         else case bs of
                [] \<Rightarrow> (False, 1)
              | c # cs \<Rightarrow>
                  if \<not> second_byte v c then (False, 1)
                  else let run = cont_run (more - 1) cs in (run = more - 1, 2 + run))"

definition REPLACEMENT_CHARACTER :: string where
  "REPLACEMENT_CHARACTER = [CHR 0xEF, CHR 0xBF, CHR 0xBD]"

lemma cont_run_le: "cont_run n bs \<le> n \<and> cont_run n bs \<le> length bs"
  by (induction n bs rule: cont_run.induct) auto

lemma utf8_unit_length: "bs \<noteq> [] \<Longrightarrow> 1 \<le> snd (utf8_unit bs) \<and> snd (utf8_unit bs) \<le> length bs"
  by (cases bs) (auto simp: Let_def cont_run_le split: list.splits)

function utf8_valid :: "string \<Rightarrow> bool" where
  "utf8_valid [] = True"
| "utf8_valid (b # bs) =
     (fst (utf8_unit (b # bs)) \<and> utf8_valid (drop (snd (utf8_unit (b # bs))) (b # bs)))"
  by pat_completeness auto
termination
proof (relation "measure length", goal_cases)
  case (2 b bs)
  show ?case using utf8_unit_length [of "b # bs"] by (simp add: diff_less del: utf8_unit.simps)
qed simp

function from_utf8_lossy :: "string \<Rightarrow> string" where
  "from_utf8_lossy [] = []"
| "from_utf8_lossy (b # bs) =
     (if fst (utf8_unit (b # bs)) then take (snd (utf8_unit (b # bs))) (b # bs) else REPLACEMENT_CHARACTER)
     @ from_utf8_lossy (drop (snd (utf8_unit (b # bs))) (b # bs))"
  by pat_completeness auto
termination
proof (relation "measure length", goal_cases)
  case (2 b bs)
  show ?case using utf8_unit_length [of "b # bs"] by (simp add: diff_less del: utf8_unit.simps)
qed simp

declare utf8_valid.simps(2) [simp del] from_utf8_lossy.simps(2) [simp del]

record decoded_text =
  dt_text :: string
  dt_decode_warning :: bool

definition decode_utf8_lossy :: "string \<Rightarrow> decoded_text" where
  "decode_utf8_lossy bytes = \<lparr>dt_text = from_utf8_lossy bytes, dt_decode_warning = (\<not> utf8_valid bytes)\<rparr>"

text \<open>Decoding keeps text as it is and always yields text; so decoding twice is decoding once.\<close>

lemma lossy_valid: "utf8_valid bs \<Longrightarrow> from_utf8_lossy bs = bs"
  by (induction bs rule: utf8_valid.induct)
    (simp_all add: utf8_valid.simps(2) from_utf8_lossy.simps(2) del: utf8_unit.simps)

lemma cont_run_append: "cont_run n bs = n \<Longrightarrow> cont_run n (take n bs @ zs) = n"
  by (induction n bs rule: cont_run.induct) (auto split: if_splits)

lemma utf8_unit_append:
  assumes "fst (utf8_unit bs)"
  shows "utf8_unit (take (snd (utf8_unit bs)) bs @ zs) = (True, snd (utf8_unit bs)) \<or> bs = []"
proof (cases bs)
  case (Cons b cs)
  then show ?thesis
    using assms by (cases cs) (auto simp: Let_def cont_run_append numeral_2_eq_2 split: if_splits)
qed simp

lemma utf8_valid_unit:
  assumes "fst (utf8_unit bs)" "bs \<noteq> []" "utf8_valid zs"
  shows "utf8_valid (take (snd (utf8_unit bs)) bs @ zs)"
proof -
  let ?n = "snd (utf8_unit bs)"
  have u: "utf8_unit (take ?n bs @ zs) = (True, ?n)" using utf8_unit_append [OF assms(1)] assms(2) by blast
  have n: "1 \<le> ?n" "?n \<le> length bs" using utf8_unit_length [OF assms(2)] by simp_all
  then obtain b cs where h: "take ?n bs = b # cs" by (cases "take ?n bs") auto
  then have "utf8_unit (b # cs @ zs) = (True, ?n)" using u by simp
  moreover have "drop ?n (b # cs @ zs) = zs" using n h by (metis append_Cons append_eq_conv_conj length_take min.absorb2)
  ultimately show ?thesis using assms(3) h by (simp add: utf8_valid.simps(2) del: utf8_unit.simps)
qed

lemma replacement_valid: "utf8_valid zs \<Longrightarrow> utf8_valid (REPLACEMENT_CHARACTER @ zs)"
  by (simp add: REPLACEMENT_CHARACTER_def utf8_valid.simps(2) byte_of_def second_byte_def cont_byte_def numeral_2_eq_2)

theorem lossy_is_valid: "utf8_valid (from_utf8_lossy bs)"
  by (induction bs rule: from_utf8_lossy.induct)
    (simp_all add: from_utf8_lossy.simps(2) utf8_valid_unit replacement_valid del: utf8_unit.simps append_Cons)

lemma lossy_idempotent: "from_utf8_lossy (from_utf8_lossy bs) = from_utf8_lossy bs"
  by (rule lossy_valid [OF lossy_is_valid])

section \<open>Ports\<close>

datatype file_system_error = Fs_IoError string | Fs_PathNotFound string

fun file_system_error_display :: "file_system_error \<Rightarrow> string" where
  "file_system_error_display (Fs_IoError e) = ''IO error: '' @ e"
| "file_system_error_display (Fs_PathNotFound p) = ''Path not found: '' @ p"

text \<open>
  The file system port. The last four operations have default bodies in the trait; a provider that keeps
  them is \<open>default_provider\<close>.
\<close>

record file_system = "file_system_error path_resolver" +
  fs_read :: "string \<Rightarrow> file_system_error + string"
  fs_list :: "string \<Rightarrow> string \<Rightarrow> bool \<Rightarrow> file_system_error + string list"
  fs_metadata :: "string \<Rightarrow> file_system_error + nat"
  fs_is_file :: "string \<Rightarrow> bool"
  fs_is_dir :: "string \<Rightarrow> bool"
  fs_walk :: "string \<Rightarrow> nat \<Rightarrow> string list \<Rightarrow> file_system_error + string list"

definition default_provider ::
    "(string \<Rightarrow> file_system_error + string) \<Rightarrow> (string \<Rightarrow> string \<Rightarrow> bool \<Rightarrow> file_system_error + string list)
     \<Rightarrow> (string \<Rightarrow> bool) \<Rightarrow> file_system" where
  "default_provider read list exists =
     \<lparr>path_exists = exists, canonicalize = Inr, fs_read = read, fs_list = list,
      fs_metadata = (\<lambda>p. case read p of Inl e \<Rightarrow> Inl e | Inr bytes \<Rightarrow> Inr (length bytes)),
      fs_is_file = (\<lambda>p. \<not> isl (read p)),
      fs_is_dir = (\<lambda>p. exists p \<and> isl (read p)),
      fs_walk = (\<lambda>p depth skip. list p ''*'' True)\<rparr>"

record code_block =
  cb_language :: "string option"
  cb_code :: string

record doc_section =
  sec_name :: string
  sec_level :: nat
  sec_content :: string
  sec_code_blocks :: "code_block list"
  sec_start_line :: nat

section \<open>Binaries disguised as markdown\<close>

definition MARKDOWN_EXTENSIONS :: "string list" where
  "MARKDOWN_EXTENSIONS = [''md'', ''markdown'']"

definition BINARY_MAGICS :: "(string \<times> string) list" where
  "BINARY_MAGICS =
     [(''PK'' @ [CHR 0x03, CHR 0x04], ''ZIP''), ([CHR 0x1F, CHR 0x8B], ''gzip''), (''MZ'', ''PE/EXE''),
      (CHR 0x7F # ''ELF'', ''ELF''), (CHR 0x89 # ''PNG'', ''PNG''), (''BM'', ''BMP'')]"

definition is_markdown_extension :: "string \<Rightarrow> bool" where
  "is_markdown_extension path =
     (case path_extension path of None \<Rightarrow> False
      | Some ext \<Rightarrow> list_ex (eq_ignore_ascii_case ext) MARKDOWN_EXTENSIONS)"

definition detect_binary_disguise_kind :: "string \<Rightarrow> string \<Rightarrow> string option" where
  "detect_binary_disguise_kind path bytes =
     (if \<not> is_markdown_extension path then None
      else map_option snd (find (\<lambda>(magic, kind). starts_with bytes magic) BINARY_MAGICS))"

section \<open>Assessment\<close>

datatype agent_extension_kind = Ext_Skill | Ext_AgentInstruction | Ext_PromptPack | Ext_McpServer | Ext_Generic

datatype artifact_identity_source = ExplicitName | KnownLocation | KnownStructure | TypicalContent | UnknownIdentity

datatype structural_validity = Confirmed | Heuristic | Weak

datatype artifact_classification = ConfirmedSkill | ConfirmedAgentInstruction | HeuristicSkillLike | GenericMarkdown

record structural_signals =
  sig_score :: nat
  has_operational_sections :: bool
  has_referenced_artifacts :: bool
  has_imperative_language :: bool
  has_code_or_flows :: bool
  has_persistence_language :: bool
  has_reasonable_structure :: bool

record artifact_assessment =
  as_extension_kind :: agent_extension_kind
  as_identity_source :: artifact_identity_source
  as_structural_validity :: structural_validity
  as_classification :: artifact_classification
  as_structural_signals :: structural_signals

text \<open>The regular expressions, each the question whether it matches a text.\<close>

record assessment_patterns =
  imperative_language :: "string \<Rightarrow> bool"
  numbered_list :: "string \<Rightarrow> bool"
  persistence_language :: "string \<Rightarrow> bool"
  referenced_artifacts :: "string \<Rightarrow> bool"
  mcp_structure :: "string \<Rightarrow> bool"
  agent_instruction :: "string \<Rightarrow> bool"
  mcp_heuristic :: "string \<Rightarrow> bool"

definition MIN_STRUCTURAL_HEURISTIC_SCORE :: nat where
  "MIN_STRUCTURAL_HEURISTIC_SCORE = 2"

definition MIN_STRUCTURAL_CONFIRMED_SCORE :: nat where
  "MIN_STRUCTURAL_CONFIRMED_SCORE = 3"

definition MCP_NAMES :: "string list" where
  "MCP_NAMES = [''mcp.json'', ''mcp.yaml'', ''mcp.yml'', ''.mcp.json'', ''claude_desktop_config.json'']"

definition INSTRUCTION_NAMES :: "string list" where
  "INSTRUCTION_NAMES = [''agents.md'', ''claude.md'', ''system.md'', ''persona.md'', ''soul.md'']"

definition lower_file_name :: "string \<Rightarrow> string option" where
  "lower_file_name path = map_option to_ascii_lowercase (path_file_name path)"

definition infer_extension_identity :: "string \<Rightarrow> agent_extension_kind \<times> artifact_identity_source" where
  "infer_extension_identity path =
     (let parent_name = Option.bind (path_parent path) lower_file_name
      in case lower_file_name path of
           None \<Rightarrow> (Ext_Generic, UnknownIdentity)
         | Some name \<Rightarrow>
             if name = ''skill.md'' \<or> ends_with name ''.skill.md'' then (Ext_Skill, ExplicitName)
             else if name \<in> set INSTRUCTION_NAMES then (Ext_AgentInstruction, ExplicitName)
             else if name \<in> set MCP_NAMES then (Ext_McpServer, ExplicitName)
             else if ends_with name ''.prompt.md'' then (Ext_PromptPack, ExplicitName)
             else if parent_name = Some ''prompts'' then (Ext_PromptPack, KnownLocation)
             else if parent_name \<in> Some ` {''skills'', ''commands'', ''extensions'', ''.claude'', ''.claude-plugin''}
             then (Ext_Skill, KnownLocation)
             else (Ext_Generic, UnknownIdentity))"

definition infer_extension_kind :: "string \<Rightarrow> agent_extension_kind" where
  "infer_extension_kind path = fst (infer_extension_identity path)"

definition OPERATIONAL_SECTION_NAMES :: "string list" where
  "OPERATIONAL_SECTION_NAMES = [''setup'', ''install'', ''usage'', ''workflow'', ''instructions'', ''configuration'']"

definition is_operational_heading :: "string \<Rightarrow> bool" where
  "is_operational_heading name =
     list_ex (\<lambda>op. name = op \<or> starts_with name (op @ '' '')) OPERATIONAL_SECTION_NAMES"

definition evaluate_structural_signals ::
    "assessment_patterns \<Rightarrow> string \<Rightarrow> doc_section list \<Rightarrow> string list \<Rightarrow> structural_signals" where
  "evaluate_structural_signals re content sections referenced_files =
     (let low = to_ascii_lowercase content;
          operational =
            (if sections = []
             then list_ex (\<lambda>line. let trimmed = str_trim_start line
                                   in starts_with trimmed ''#''
                                      \<and> is_operational_heading (str_trim (dropWhile (\<lambda>c. c = CHR ''#'') trimmed)))
                    (str_lines low)
             else list_ex (\<lambda>s. is_operational_heading (sec_name s)) sections);
          imperative = imperative_language re content;
          code = (str_contains content [CHR 0x60, CHR 0x60, CHR 0x60] \<or> numbered_list re content);
          persistence = persistence_language re content;
          reasonable =
            (if sections = []
             then 2 \<le> length (filter (\<lambda>line. starts_with (str_trim_start line) ''#'') (str_lines content))
             else 2 \<le> length sections);
          referenced = (referenced_files \<noteq> [] \<or> referenced_artifacts re content);
          score = (if operational then 2 else 0) + of_bool referenced + of_bool imperative + of_bool code
                  + of_bool persistence + of_bool reasonable
      in \<lparr>sig_score = score, has_operational_sections = operational, has_referenced_artifacts = referenced,
          has_imperative_language = imperative, has_code_or_flows = code, has_persistence_language = persistence,
          has_reasonable_structure = reasonable\<rparr>)"

definition looks_like_mcp_structure :: "assessment_patterns \<Rightarrow> string \<Rightarrow> string \<Rightarrow> bool" where
  "looks_like_mcp_structure re path content \<longleftrightarrow>
     map_option to_ascii_lowercase (path_extension path) \<in> Some ` {''json'', ''yaml'', ''yml''}
     \<and> mcp_structure re content"

definition looks_like_skill_content :: "structural_signals \<Rightarrow> bool" where
  "looks_like_skill_content s \<longleftrightarrow>
     has_operational_sections s
     \<or> has_imperative_language s \<and> has_reasonable_structure s \<and> (has_code_or_flows s \<or> has_referenced_artifacts s)"

definition structural_validity_for ::
    "assessment_patterns \<Rightarrow> string \<Rightarrow> agent_extension_kind \<Rightarrow> structural_signals \<Rightarrow> string \<Rightarrow> structural_validity" where
  "structural_validity_for re path kind s content =
     (if kind = Ext_McpServer \<and> looks_like_mcp_structure re path content then Confirmed
      else if kind = Ext_AgentInstruction \<and> has_persistence_language s then Confirmed
      else if kind = Ext_Skill \<and> MIN_STRUCTURAL_CONFIRMED_SCORE \<le> sig_score s then Confirmed
      else if kind = Ext_Skill \<and> MIN_STRUCTURAL_HEURISTIC_SCORE \<le> sig_score s then Heuristic
      else if kind \<in> {Ext_PromptPack, Ext_AgentInstruction}
              \<and> (MIN_STRUCTURAL_HEURISTIC_SCORE \<le> sig_score s \<or> has_reasonable_structure s) then Heuristic
      else if kind = Ext_McpServer \<and> mcp_heuristic re content then Heuristic
      else if MIN_STRUCTURAL_HEURISTIC_SCORE \<le> sig_score s then Heuristic
      else Weak)"

definition classify_artifact ::
    "agent_extension_kind \<Rightarrow> artifact_identity_source \<Rightarrow> structural_validity \<Rightarrow> structural_signals
     \<Rightarrow> artifact_classification" where
  "classify_artifact kind identity validity s =
     (if kind = Ext_Skill \<and> identity \<in> {ExplicitName, KnownLocation} \<and> validity \<noteq> Weak then ConfirmedSkill
      else if kind = Ext_AgentInstruction
              \<and> (validity \<noteq> Weak \<or> identity \<in> {ExplicitName, KnownLocation, TypicalContent})
      then ConfirmedAgentInstruction
      else if validity \<noteq> Weak \<or> has_operational_sections s \<or> has_persistence_language s then HeuristicSkillLike
      else GenericMarkdown)"

definition assess_artifact ::
    "assessment_patterns \<Rightarrow> string \<Rightarrow> string \<Rightarrow> doc_section list \<Rightarrow> string list \<Rightarrow> artifact_assessment" where
  "assess_artifact re path content sections referenced_files =
     (let s = evaluate_structural_signals re content sections referenced_files;
          (kind0, identity0) = infer_extension_identity path;
          (kind, identity) =
            (if kind0 = Ext_Generic then
               if looks_like_mcp_structure re path content then (Ext_McpServer, KnownStructure)
               else if agent_instruction re content then (Ext_AgentInstruction, TypicalContent)
               else if looks_like_skill_content s then (Ext_Skill, TypicalContent)
               else (kind0, identity0)
             else (kind0, identity0));
          validity = structural_validity_for re path kind s content
      in \<lparr>as_extension_kind = kind, as_identity_source = identity, as_structural_validity = validity,
          as_classification = classify_artifact kind identity validity s, as_structural_signals = s\<rparr>)"

definition assess_artifact_path :: "assessment_patterns \<Rightarrow> string \<Rightarrow> string \<Rightarrow> artifact_assessment" where
  "assess_artifact_path re path content = assess_artifact re path content [] []"

section \<open>The document\<close>

record skill_document =
  doc_path :: string
  doc_name :: string
  doc_extension_kind :: agent_extension_kind
  doc_identity_source :: artifact_identity_source
  doc_structural_validity :: structural_validity
  doc_classification :: artifact_classification
  doc_structural_signals :: structural_signals
  doc_decode_warning :: bool
  doc_parse_warning :: bool
  doc_binary_disguise_kind :: "string option"
  doc_sections :: "doc_section list"
  doc_raw_content :: string
  doc_referenced_files :: "string list"

text \<open>What loading a document calls outside this theory.\<close>

record document_lib =
  dl_parse_sections :: "string \<Rightarrow> string + doc_section list"
  dl_reference_patterns :: reference_patterns
  dl_assessment_patterns :: assessment_patterns

definition path_file_stem :: "string \<Rightarrow> string option" where
  "path_file_stem p =
     (case path_file_name p of
        None \<Rightarrow> None
      | Some name \<Rightarrow>
          (case str_rfind name ''.'' of
             None \<Rightarrow> Some name
           | Some i \<Rightarrow> Some (if i = 0 then name else take i name)))"

definition parse_with_parser :: "document_lib \<Rightarrow> string \<Rightarrow> string \<Rightarrow> skill_document" where
  "parse_with_parser lib path content =
     (let name = (case path_file_stem path of Some s \<Rightarrow> s | None \<Rightarrow> ''unknown'');
          (sections, parse_warning) =
            (case dl_parse_sections lib content of Inr sections \<Rightarrow> (sections, False) | Inl e \<Rightarrow> ([], True));
          referenced_files = extract_references (dl_reference_patterns lib) content path;
          assessment = assess_artifact (dl_assessment_patterns lib) path content sections referenced_files
      in \<lparr>doc_path = path, doc_name = name, doc_extension_kind = as_extension_kind assessment,
          doc_identity_source = as_identity_source assessment,
          doc_structural_validity = as_structural_validity assessment,
          doc_classification = as_classification assessment,
          doc_structural_signals = as_structural_signals assessment,
          doc_decode_warning = False, doc_parse_warning = parse_warning, doc_binary_disguise_kind = None,
          doc_sections = sections, doc_raw_content = content, doc_referenced_files = referenced_files\<rparr>)"

text \<open>An \<open>io::Error\<close> is its rendering.\<close>

datatype analyzer_error = Analyzer_IoError string

fun analyzer_error_display :: "analyzer_error \<Rightarrow> string" where
  "analyzer_error_display (Analyzer_IoError e) = ''Failed to read file: '' @ e"

fun file_system_error_to_io_error :: "file_system_error \<Rightarrow> string" where
  "file_system_error_to_io_error (Fs_IoError e) = e"
| "file_system_error_to_io_error (Fs_PathNotFound p) = p"

definition from_file_with_provider ::
    "document_lib \<Rightarrow> file_system \<Rightarrow> string \<Rightarrow> analyzer_error + skill_document" where
  "from_file_with_provider lib fs path =
     (case fs_read fs path of
        Inl e \<Rightarrow> Inl (Analyzer_IoError (file_system_error_to_io_error e))
      | Inr bytes \<Rightarrow>
          Inr ((parse_with_parser lib path (from_utf8_lossy bytes))
                 \<lparr>doc_decode_warning := \<not> utf8_valid bytes,
                  doc_binary_disguise_kind := detect_binary_disguise_kind path bytes\<rparr>))"

definition all_code_blocks :: "skill_document \<Rightarrow> code_block list" where
  "all_code_blocks doc = concat (map sec_code_blocks (doc_sections doc))"

definition has_code_language :: "skill_document \<Rightarrow> string \<Rightarrow> bool" where
  "has_code_language doc lang = list_ex (\<lambda>cb. cb_language cb = Some lang) (all_code_blocks doc)"

section \<open>Properties\<close>

lemma validity_not_weak: "2 \<le> sig_score s \<Longrightarrow> structural_validity_for re path kind s content \<noteq> Weak"
  by (simp add: structural_validity_for_def MIN_STRUCTURAL_HEURISTIC_SCORE_def)

lemma signals_score_eq:
  "sig_score (evaluate_structural_signals re content sections refs) =
     (let s = evaluate_structural_signals re content sections refs in
        (if has_operational_sections s then 2 else 0) + of_bool (has_referenced_artifacts s)
        + of_bool (has_imperative_language s) + of_bool (has_code_or_flows s) + of_bool (has_persistence_language s)
        + of_bool (has_reasonable_structure s))"
  unfolding evaluate_structural_signals_def Let_def by simp

lemma signals_score:
  "sig_score (evaluate_structural_signals re content sections refs) \<le> 7"
  "has_operational_sections (evaluate_structural_signals re content sections refs)
     \<Longrightarrow> 2 \<le> sig_score (evaluate_structural_signals re content sections refs)"
  unfolding signals_score_eq Let_def by (simp_all split: if_split)

lemma agent_instruction_identity:
  "infer_extension_identity path = (Ext_AgentInstruction, i) \<Longrightarrow> i = ExplicitName"
  by (auto simp: infer_extension_identity_def Let_def split: option.splits if_splits)

text \<open>
  an artifact is dismissed as plain Markdown only when nothing speaks for an extension: its score, which never exceeds
  7, is at most 1, it has no persistence language and it is no agent instruction. Agent instructions are
  always confirmed, and a skill is confirmed only by its name or place together with enough structure.
\<close>

theorem classification_exact:
  "let a = assess_artifact re path content sections refs; s = as_structural_signals a in
     sig_score s \<le> 7
     \<and> \<not> (as_classification a = GenericMarkdown
           \<and> (2 \<le> sig_score s \<or> has_persistence_language s \<or> as_extension_kind a = Ext_AgentInstruction))
     \<and> (as_classification a = ConfirmedAgentInstruction) = (as_extension_kind a = Ext_AgentInstruction)
     \<and> (as_classification a = ConfirmedSkill)
         = (as_extension_kind a = Ext_Skill \<and> as_identity_source a \<in> {ExplicitName, KnownLocation}
            \<and> 2 \<le> sig_score s)"
proof -
  let ?s = "evaluate_structural_signals re content sections refs"
  have weak: "structural_validity_for re path Ext_Skill ?s content \<noteq> Weak \<longleftrightarrow> 2 \<le> sig_score ?s"
    by (auto simp: structural_validity_for_def MIN_STRUCTURAL_HEURISTIC_SCORE_def MIN_STRUCTURAL_CONFIRMED_SCORE_def)
  obtain k i where ki: "infer_extension_identity path = (k, i)" by fastforce
  show ?thesis
    using signals_score [of re content sections refs] validity_not_weak [of ?s re path _ content] weak
      agent_instruction_identity [of path i]
    by (auto simp: assess_artifact_def Let_def ki classify_artifact_def)
qed

text \<open>
  Claim C9: loading a document fails exactly when its file cannot be read. Otherwise the text analysed is valid UTF-8, it is the file's
  bytes unless the document carries the decode warning, and every file it references lies, lexically, in
  its own directory; there are at most 1024 of them.
\<close>

theorem document_loading:
  "case from_file_with_provider lib fs path of
     Inl e \<Rightarrow> (case fs_read fs path of Inl io \<Rightarrow> e = Analyzer_IoError (file_system_error_to_io_error io) | Inr b \<Rightarrow> False)
   | Inr doc \<Rightarrow>
       (case fs_read fs path of
          Inl io \<Rightarrow> False
        | Inr bytes \<Rightarrow>
            doc_path doc = path \<and> utf8_valid (doc_raw_content doc)
            \<and> (doc_decode_warning doc \<longleftrightarrow> doc_raw_content doc \<noteq> bytes)
            \<and> list_all (below (reference_base path)) (doc_referenced_files doc)
            \<and> length (doc_referenced_files doc) \<le> MAX_REFERENCED_FILES)"
proof (cases "fs_read fs path")
  case (Inl io)
  then show ?thesis by (simp add: from_file_with_provider_def)
next
  case (Inr bytes)
  let ?refs = "extract_references (dl_reference_patterns lib) (from_utf8_lossy bytes) path"
  have refs: "?refs = take MAX_REFERENCED_FILES (keep_first path_components {} (acceptable_references (reference_base path)
      (reference_matches (dl_reference_patterns lib) (from_utf8_lossy bytes))))"
    by (simp add: extract_references_def collect_references_take)
  then have "set ?refs \<subseteq> set (acceptable_references (reference_base path)
      (reference_matches (dl_reference_patterns lib) (from_utf8_lossy bytes)))"
    using keep_first_sub set_take_subset by (metis subset_trans)
  then have "list_all (below (reference_base path)) ?refs"
    using acceptable_below by (auto simp: list_all_iff)
  moreover have "\<not> utf8_valid bytes \<longleftrightarrow> from_utf8_lossy bytes \<noteq> bytes"
    using lossy_valid lossy_is_valid by metis
  ultimately show ?thesis
    using Inr by (simp add: from_file_with_provider_def parse_with_parser_def Let_def case_prod_unfold lossy_is_valid refs)
qed

end
