(* ===== verification/File_Discovery.thy ===== *)
theory File_Discovery
  imports Documents
begin

text \<open>
  Which files of a package are scanned: the file-name sets (\<open>artifact_names.rs\<close>), the pure path
  classification (\<open>services/file_discovery/classification.rs\<close>), the capped discovery of supporting
  scripts and data files, of manifests and lockfiles (\<open>package_artifacts.rs\<close>) and of the entrypoints
  (\<open>skill_discovery.rs\<close>). Log lines are not modelled.
\<close>

section \<open>Ordered paths\<close>

text \<open>\<open>Ord\<close> of a path compares components; \<open>sort\<close> is stable and \<open>dedup\<close> drops equal neighbours.\<close>

definition sort_paths :: "string list \<Rightarrow> string list" where
  "sort_paths = sort_by (\<lambda>a b. ord_cmp (path_components a) (path_components b))"

fun dedup_paths :: "string list \<Rightarrow> string list" where
  "dedup_paths [] = []"
| "dedup_paths [p] = [p]"
| "dedup_paths (p # q # ps) = (if path_eq p q then dedup_paths (p # ps) else p # dedup_paths (q # ps))"

section \<open>Names\<close>

definition MANIFEST_NAMES :: "string list" where
  "MANIFEST_NAMES =
     [''package.json'', ''mcp.json'', ''mcp.yaml'', ''mcp.yml'', ''.mcp.json'', ''claude_desktop_config.json'',
      ''requirements.txt'', ''pyproject.toml'', ''cargo.toml'', ''dockerfile'', ''docker-compose.yml'',
      ''docker-compose.yaml'', ''makefile'', ''gnumakefile'', ''.npmrc'', ''pip.conf'']"

definition LOCKFILE_NAMES :: "string list" where
  "LOCKFILE_NAMES =
     [''package-lock.json'', ''npm-shrinkwrap.json'', ''cargo.lock'', ''poetry.lock'', ''pipfile.lock'',
      ''uv.lock'', ''yarn.lock'', ''pnpm-lock.yaml'']"

definition SCRIPT_GLOB_PATTERNS :: "string list" where
  "SCRIPT_GLOB_PATTERNS =
     [''*.sh'', ''*.bash'', ''*.zsh'', ''*.ksh'', ''*.fish'', ''*.py'', ''*.ps1'', ''*.js'', ''*.cjs'', ''*.mjs'',
      ''*.ts'', ''*.rb'', ''*.pl'', ''*.rs'', ''*.go'', ''*.php'', ''*.pyc'', ''*.pyo'']"

definition DATA_FILE_GLOB_PATTERNS :: "string list" where
  "DATA_FILE_GLOB_PATTERNS =
     [''*.json'', ''*.yaml'', ''*.yml'', ''*.toml'', ''*.txt'', ''*.env'', ''*.cfg'', ''*.ini'']"

definition ENTRYPOINT_GLOB_PATTERNS :: "string list" where
  "ENTRYPOINT_GLOB_PATTERNS = [''*.md'', ''*.json'', ''*.yaml'', ''*.yml'']"

definition SCRIPT_DISCOVERY_SUBDIRS :: "string list" where
  "SCRIPT_DISCOVERY_SUBDIRS =
     [''scripts'', ''bin'', ''hooks'', ''src'', ''lib'', ''references'', ''tools'', ''actions'', ''commands'',
      ''workflows'', ''deploy'', ''config'', ''.github'']"

definition SKIP_DISCOVERY_DIRS :: "string list" where
  "SKIP_DISCOVERY_DIRS =
     [''node_modules'', ''vendor'', ''.git'', ''dist'', ''build'', ''target'', ''.venv'', ''venv'', ''__pycache__'',
      ''.yarn'', ''.pnpm-store'', ''.next'', ''.turbo'', ''coverage'']"

definition MAX_DISCOVERED_SCRIPTS :: nat where "MAX_DISCOVERED_SCRIPTS = 400"

definition MAX_DISCOVERED_DATA_FILES :: nat where "MAX_DISCOVERED_DATA_FILES = 100"

definition MAX_DATA_FILE_BYTES :: nat where "MAX_DATA_FILE_BYTES = 512 * 1024"

definition MAX_DISCOVERY_DEPTH :: nat where "MAX_DISCOVERY_DEPTH = 20"

section \<open>Classification by path\<close>

fun component_text :: "component \<Rightarrow> string" where
  "component_text RootDir = ''/''"
| "component_text CurDir = ''.''"
| "component_text ParentDir = ''..''"
| "component_text (Normal n) = n"

definition path_traverses_skip_dir :: "string \<Rightarrow> bool" where
  "path_traverses_skip_dir path =
     (case path_parent path of None \<Rightarrow> False
      | Some parent \<Rightarrow>
          list_ex (\<lambda>c. list_ex (eq_ignore_ascii_case (component_text c)) SKIP_DISCOVERY_DIRS)
            (path_components parent))"

definition PROMPT_DIR_MARKDOWN_SUFFIXES :: "string list" where
  "PROMPT_DIR_MARKDOWN_SUFFIXES = [''.md'', ''.mdx'']"

definition parent_is_prompts :: "string \<Rightarrow> bool" where
  "parent_is_prompts path =
     (case Option.bind (path_parent path) path_file_name of
        None \<Rightarrow> False | Some name \<Rightarrow> eq_ignore_ascii_case name ''prompts'')"

definition is_markdown_under_prompts_dir :: "string \<Rightarrow> string \<Rightarrow> bool" where
  "is_markdown_under_prompts_dir path file_name_lower =
     (if \<not> list_ex (ends_with file_name_lower) PROMPT_DIR_MARKDOWN_SUFFIXES then False
      else if \<not> parent_is_prompts path then False
      else \<not> path_traverses_skip_dir path)"

definition is_explicit_skill_file :: "string \<Rightarrow> bool" where
  "is_explicit_skill_file path =
     (case lower_file_name path of
        None \<Rightarrow> False
      | Some name \<Rightarrow>
          name = ''skill.md'' \<or> name = ''agents.md'' \<or> name = ''claude.md'' \<or> name = ''system.md''
          \<or> name = ''persona.md'' \<or> name = ''soul.md'' \<or> name = ''mcp.json'' \<or> name = ''mcp.yaml''
          \<or> name = ''mcp.yml'' \<or> ends_with name ''.skill.md'' \<or> ends_with name ''.prompt.md''
          \<or> is_markdown_under_prompts_dir path name)"

section \<open>Supporting files\<close>

record file_discovery_service =
  fd_recursive :: bool
  fd_provider :: file_system

definition is_manifest_or_lockfile :: "string \<Rightarrow> bool" where
  "is_manifest_or_lockfile path =
     (case lower_file_name path of None \<Rightarrow> False
      | Some name \<Rightarrow> name \<in> set MANIFEST_NAMES \<or> name \<in> set LOCKFILE_NAMES)"

definition filename_matches_glob_extension :: "string \<Rightarrow> string \<Rightarrow> bool" where
  "filename_matches_glob_extension name ext \<longleftrightarrow>
     length ext < length name
     \<and> name ! (length name - length ext - 1) = CHR ''.''
     \<and> eq_ignore_ascii_case (drop (length name - length ext) name) ext"

definition discovery_roots :: "file_system \<Rightarrow> string \<Rightarrow> (string \<times> bool) list" where
  "discovery_roots fs package_root =
     (package_root, False)
     # map (\<lambda>d. (d, True)) (filter (fs_is_dir fs) (map (path_join package_root) SCRIPT_DISCOVERY_SUBDIRS))"

definition root_files :: "file_system \<Rightarrow> string list \<Rightarrow> string \<times> bool \<Rightarrow> string list option" where
  "root_files fs patterns = (\<lambda>(root, recursive).
     if recursive then
       (case fs_walk fs root MAX_DISCOVERY_DEPTH SKIP_DISCOVERY_DIRS of Inr files \<Rightarrow> Some files | Inl e \<Rightarrow> None)
     else Some (concat (map (\<lambda>pat. case fs_list fs root pat False of Inr files \<Rightarrow> files | Inl e \<Rightarrow> []) patterns)))"

definition glob_extensions :: "string list \<Rightarrow> string list" where
  "glob_extensions patterns = List.map_filter (\<lambda>p. strip_prefix p ''*.'') patterns"

definition extension_wanted :: "string list \<Rightarrow> string \<Rightarrow> bool" where
  "extension_wanted extensions file =
     (case path_file_name file of None \<Rightarrow> False
      | Some name \<Rightarrow> list_ex (filename_matches_glob_extension name) extensions)"

definition size_allowed :: "file_system \<Rightarrow> nat option \<Rightarrow> string \<Rightarrow> bool" where
  "size_allowed fs max_bytes file =
     (case max_bytes of None \<Rightarrow> True
      | Some limit \<Rightarrow> (case fs_metadata fs file of Inr len \<Rightarrow> \<not> limit < len | Inl e \<Rightarrow> False))"

text \<open>The loop over the files of a root: the flag says that the cap ends the whole discovery.\<close>

fun take_files ::
    "file_system \<Rightarrow> string list \<Rightarrow> nat \<Rightarrow> nat option \<Rightarrow> bool \<Rightarrow> string list \<Rightarrow> component list set \<Rightarrow> string list
     \<Rightarrow> bool \<times> string list \<times> component list set" where
  "take_files fs extensions cap max_bytes recursive results seen [] = (False, results, seen)"
| "take_files fs extensions cap max_bytes recursive results seen (file # files) =
     (if cap \<le> length results then (True, results, seen)
      else if recursive \<and> extensions \<noteq> [] \<and> \<not> extension_wanted extensions file
      then take_files fs extensions cap max_bytes recursive results seen files
      else if \<not> size_allowed fs max_bytes file
      then take_files fs extensions cap max_bytes recursive results seen files
      else if path_components file \<in> seen
      then take_files fs extensions cap max_bytes recursive results seen files
      else take_files fs extensions cap max_bytes recursive (results @ [file])
             (insert (path_components file) seen) files)"

fun take_roots ::
    "file_system \<Rightarrow> string list \<Rightarrow> nat \<Rightarrow> nat option \<Rightarrow> string list \<Rightarrow> component list set
     \<Rightarrow> (string \<times> bool) list \<Rightarrow> string list" where
  "take_roots fs patterns cap max_bytes results seen [] = results"
| "take_roots fs patterns cap max_bytes results seen (root # roots) =
     (case root_files fs patterns root of
        None \<Rightarrow> take_roots fs patterns cap max_bytes results seen roots
      | Some files \<Rightarrow>
          (case take_files fs (glob_extensions patterns) cap max_bytes (snd root) results seen (sort_paths files) of
             (capped, results', seen') \<Rightarrow>
               if capped then results' else take_roots fs patterns cap max_bytes results' seen' roots))"

definition discover_by_patterns :: "file_system \<Rightarrow> string \<Rightarrow> string list \<Rightarrow> nat \<Rightarrow> nat option \<Rightarrow> string list" where
  "discover_by_patterns fs package_root patterns cap max_bytes =
     take_roots fs patterns cap max_bytes [] {} (discovery_roots fs package_root)"

definition discover_package_scripts :: "file_discovery_service \<Rightarrow> string \<Rightarrow> string list" where
  "discover_package_scripts svc package_root =
     discover_by_patterns (fd_provider svc) package_root SCRIPT_GLOB_PATTERNS MAX_DISCOVERED_SCRIPTS None"

definition discover_package_data_files :: "file_discovery_service \<Rightarrow> string \<Rightarrow> string list" where
  "discover_package_data_files svc package_root =
     filter (\<lambda>p. \<not> is_manifest_or_lockfile p)
       (discover_by_patterns (fd_provider svc) package_root DATA_FILE_GLOB_PATTERNS MAX_DISCOVERED_DATA_FILES
          (Some MAX_DATA_FILE_BYTES))"

definition discover_files_by_name :: "file_discovery_service \<Rightarrow> string \<Rightarrow> string list \<Rightarrow> string list" where
  "discover_files_by_name svc root names =
     (case fs_walk (fd_provider svc) root MAX_DISCOVERY_DEPTH SKIP_DISCOVERY_DIRS of
        Inl e \<Rightarrow> []
      | Inr files \<Rightarrow>
          sort_paths (filter (\<lambda>p. case lower_file_name p of None \<Rightarrow> False | Some n \<Rightarrow> n \<in> set names) files))"

definition discover_package_manifests :: "file_discovery_service \<Rightarrow> string \<Rightarrow> string list" where
  "discover_package_manifests svc path = discover_files_by_name svc path MANIFEST_NAMES"

definition discover_lockfiles :: "file_discovery_service \<Rightarrow> string \<Rightarrow> string list" where
  "discover_lockfiles svc path = discover_files_by_name svc path LOCKFILE_NAMES"

section \<open>Entrypoints\<close>

definition listed_candidates :: "file_discovery_service \<Rightarrow> string \<Rightarrow> string list" where
  "listed_candidates svc path =
     dedup_paths (sort_paths (concat (map (\<lambda>pat.
       case fs_list (fd_provider svc) path pat (fd_recursive svc) of Inr files \<Rightarrow> files | Inl e \<Rightarrow> [])
       ENTRYPOINT_GLOB_PATTERNS)))"

definition discover_skill_entrypoints :: "file_discovery_service \<Rightarrow> string \<Rightarrow> string list" where
  "discover_skill_entrypoints svc path = filter is_explicit_skill_file (listed_candidates svc path)"

definition looks_like_agent_extension :: "assessment_patterns \<Rightarrow> file_discovery_service \<Rightarrow> string \<Rightarrow> bool" where
  "looks_like_agent_extension re svc path =
     (if (case fs_metadata (fd_provider svc) path of Inr len \<Rightarrow> MAX_DATA_FILE_BYTES < len | Inl e \<Rightarrow> False) then False
      else
        (case fs_read (fd_provider svc) path of
           Inl e \<Rightarrow> False
         | Inr content \<Rightarrow>
             as_classification (assess_artifact_path re path (dt_text (decode_utf8_lossy content)))
               \<noteq> GenericMarkdown))"

definition discover_heuristic_candidates :: "assessment_patterns \<Rightarrow> file_discovery_service \<Rightarrow> string \<Rightarrow> string list" where
  "discover_heuristic_candidates re svc path =
     filter (looks_like_agent_extension re svc) (listed_candidates svc path)"

definition discover_skills :: "assessment_patterns \<Rightarrow> file_discovery_service \<Rightarrow> string \<Rightarrow> string list" where
  "discover_skills re svc path =
     (let explicit = discover_skill_entrypoints svc path
      in if explicit \<noteq> [] then explicit else discover_heuristic_candidates re svc path)"

definition is_skill_file :: "assessment_patterns \<Rightarrow> file_discovery_service \<Rightarrow> string \<Rightarrow> bool" where
  "is_skill_file re svc path =
     (if is_explicit_skill_file path then True else looks_like_agent_extension re svc path)"

section \<open>Discovery, declaratively\<close>

lemma keep_first_append:
  "keep_first key seen (xs @ ys) = keep_first key seen xs @ keep_first key (seen \<union> key ` set xs) ys"
  by (induction xs arbitrary: seen) (auto simp: insert_absorb)

definition wanted_files ::
    "file_system \<Rightarrow> string list \<Rightarrow> nat option \<Rightarrow> bool \<Rightarrow> string list \<Rightarrow> string list" where
  "wanted_files fs exts max_bytes recursive files =
     filter (\<lambda>f. (recursive \<longrightarrow> exts = [] \<or> extension_wanted exts f) \<and> size_allowed fs max_bytes f) files"

lemma take_files_spec:
  assumes "length results \<le> cap"
    and "take_files fs exts cap mb recursive results seen files = (capped, results', seen')"
  defines "kept \<equiv> results @ keep_first path_components seen (wanted_files fs exts mb recursive files)"
  shows "if capped then length results' = cap \<and> results' = take cap kept
         else length results' \<le> cap \<and> results' = kept
           \<and> seen' = seen \<union> path_components ` set (wanted_files fs exts mb recursive files)"
  using assms unfolding kept_def
proof (induction files arbitrary: results seen)
  case (Cons f files)
  show ?case
  proof (cases "cap \<le> length results")
    case True
    then show ?thesis using Cons(2,3) by auto
  next
    case room: False
    show ?thesis
    proof (cases "(recursive \<longrightarrow> exts = [] \<or> extension_wanted exts f) \<and> size_allowed fs mb f")
      case False
      then have "take_files fs exts cap mb recursive results seen files = (capped, results', seen')"
        using Cons(3) room by (auto split: if_splits)
      moreover have "wanted_files fs exts mb recursive (f # files) = wanted_files fs exts mb recursive files"
        using False by (auto simp: wanted_files_def)
      ultimately show ?thesis using Cons(1) Cons(2) by metis
    next
      case wanted: True
      then have w: "wanted_files fs exts mb recursive (f # files) = f # wanted_files fs exts mb recursive files"
        by (simp add: wanted_files_def)
      show ?thesis
      proof (cases "path_components f \<in> seen")
        case True
        then have t: "take_files fs exts cap mb recursive results seen files = (capped, results', seen')"
          using Cons(3) room wanted by auto
        have "keep_first path_components seen (wanted_files fs exts mb recursive (f # files))
            = keep_first path_components seen (wanted_files fs exts mb recursive files)"
          "seen \<union> path_components ` set (wanted_files fs exts mb recursive (f # files))
            = seen \<union> path_components ` set (wanted_files fs exts mb recursive files)"
          using True unfolding w by auto
        then show ?thesis using Cons(1) [OF Cons(2) t] by (simp only:)
      next
        case False
        then have t: "take_files fs exts cap mb recursive (results @ [f]) (insert (path_components f) seen) files
            = (capped, results', seen')"
          using Cons(3) room wanted by auto
        have "length (results @ [f]) \<le> cap" using room by simp
        note IH = Cons(1) [OF this t]
        have "results @ keep_first path_components seen (wanted_files fs exts mb recursive (f # files))
            = (results @ [f]) @ keep_first path_components (insert (path_components f) seen)
                                   (wanted_files fs exts mb recursive files)"
          "seen \<union> path_components ` set (wanted_files fs exts mb recursive (f # files))
            = insert (path_components f) seen \<union> path_components ` set (wanted_files fs exts mb recursive files)"
          using False unfolding w by auto
        then show ?thesis using IH by (simp only:)
      qed
    qed
  qed
qed (simp add: wanted_files_def)

definition root_candidates :: "file_system \<Rightarrow> string list \<Rightarrow> nat option \<Rightarrow> string \<times> bool \<Rightarrow> string list" where
  "root_candidates fs patterns max_bytes root =
     (case root_files fs patterns root of
        None \<Rightarrow> []
      | Some files \<Rightarrow> wanted_files fs (glob_extensions patterns) max_bytes (snd root) (sort_paths files))"

definition candidates :: "file_system \<Rightarrow> string \<Rightarrow> string list \<Rightarrow> nat option \<Rightarrow> string list" where
  "candidates fs package_root patterns max_bytes =
     concat (map (root_candidates fs patterns max_bytes) (discovery_roots fs package_root))"

lemma take_roots_spec:
  "length results \<le> cap \<Longrightarrow>
   take_roots fs patterns cap mb results seen roots
     = take cap (results @ keep_first path_components seen (concat (map (root_candidates fs patterns mb) roots)))"
proof (induction roots arbitrary: results seen)
  case (Cons root roots)
  show ?case
  proof (cases "root_files fs patterns root")
    case None
    then show ?thesis using Cons by (simp add: root_candidates_def)
  next
    case (Some files)
    obtain capped results' seen' where t:
      "take_files fs (glob_extensions patterns) cap mb (snd root) results seen (sort_paths files)
         = (capped, results', seen')"
      by (metis prod_cases3)
    note spec = take_files_spec [OF Cons(2) t]
    have rc: "root_candidates fs patterns mb root
        = wanted_files fs (glob_extensions patterns) mb (snd root) (sort_paths files)"
      using Some by (simp add: root_candidates_def)
    show ?thesis
    proof (cases capped)
      case True
      let ?kept = "results @ keep_first path_components seen
        (wanted_files fs (glob_extensions patterns) mb (snd root) (sort_paths files))"
      have "results' = take cap ?kept" "length results' = cap"
        using spec [unfolded if_P [OF True]] by blast+
      then have "cap \<le> length ?kept" and kept: "take cap ?kept = results'" by auto
      then have "take cap (?kept @ more) = results'" for more by (simp only: take_append diff_is_0_eq' take0 append_Nil2)
      moreover have "take_roots fs patterns cap mb results seen (root # roots) = results'"
        using t Some True by simp
      ultimately show ?thesis
        by (simp only: list.map concat.simps keep_first_append rc append_assoc)
    next
      case False
      let ?wanted = "wanted_files fs (glob_extensions patterns) mb (snd root) (sort_paths files)"
      have *: "length results' \<le> cap" "results' = results @ keep_first path_components seen ?wanted"
        "seen' = seen \<union> path_components ` set ?wanted"
        using spec [unfolded if_not_P [OF False]] by blast+
      have "take_roots fs patterns cap mb results seen (root # roots) = take_roots fs patterns cap mb results' seen' roots"
        using t Some False by simp
      then show ?thesis
        unfolding Cons(1) [OF *(1)] by (simp add: *(2,3) rc keep_first_append)
    qed
  qed
qed simp

lemma discover_eq:
  "discover_by_patterns fs package_root patterns cap mb
     = take cap (keep_first path_components {} (candidates fs package_root patterns mb))"
  by (simp add: discover_by_patterns_def candidates_def take_roots_spec)

section \<open>Properties\<close>

lemma candidate_size: "f \<in> set (candidates fs dir patterns mb) \<Longrightarrow> size_allowed fs mb f"
  by (auto simp: candidates_def root_candidates_def wanted_files_def split: option.splits)

text \<open>The cap falls before the filter: manifests use it up, are then thrown away, and hide every data file after them.\<close>

lemma manifests_use_up_the_cap:
  assumes "list_all is_manifest_or_lockfile (take MAX_DISCOVERED_DATA_FILES
      (keep_first path_components {} (candidates (fd_provider svc) dir DATA_FILE_GLOB_PATTERNS (Some MAX_DATA_FILE_BYTES))))"
  shows "discover_package_data_files svc dir = []"
  using assms by (simp add: discover_package_data_files_def discover_eq list_all_iff filter_empty_conv)


end
