(* ===== verification/Artifact_Graph.thy ===== *)
theory Artifact_Graph
  imports Findings
begin

text \<open>
  \<open>artifact_graph.rs\<close>: the graph of scanned artifacts. A vector of nodes with one node per
  path and a vector of edges with one edge per (from, to, relation); adding again merges. Both
  vectors are instances of the same contract, the locale \<open>keyed_store\<close> (find by key, modify the first
  hit or push), whose lemmas give uniqueness of the keys and what is stored under a key
  after any sequence of additions.
\<close>

section \<open>Find by key, modify or push\<close>

fun upsert :: "('a \<Rightarrow> bool) \<Rightarrow> ('a \<Rightarrow> 'a) \<Rightarrow> 'a \<Rightarrow> 'a list \<Rightarrow> 'a list" where
  "upsert p f x [] = [x]"
| "upsert p f x (y # ys) = (if p y then f y # ys else y # upsert p f x ys)"

locale keyed_store =
  fixes key :: "'a \<Rightarrow> 'k" and okey :: "'o \<Rightarrow> 'k" and mk :: "'o \<Rightarrow> 'a" and upd :: "'o \<Rightarrow> 'a \<Rightarrow> 'a"
  assumes key_mk: "key (mk x) = okey x"
    and key_upd: "key (upd x a) = key a"
begin

lemma put_keys:
  "set (map key (upsert (\<lambda>a. key a = okey x) (upd x) (mk x) xs)) = insert (okey x) (key ` set xs)"
  by (induction xs) (auto simp: key_mk key_upd)

lemma put_distinct:
  "distinct (map key xs)
     \<Longrightarrow> distinct (map key (upsert (\<lambda>a. key a = okey x) (upd x) (mk x) xs))"
proof (induction xs)
  case (Cons y ys)
  have "set (map key (upsert (\<lambda>a. key a = okey x) (upd x) (mk x) ys)) = insert (okey x) (key ` set ys)"
    by (rule put_keys)
  with Cons show ?case by (auto simp: key_upd)
qed simp

lemma get_put:
  "find (\<lambda>a. key a = k) (upsert (\<lambda>a. key a = okey x) (upd x) (mk x) xs)
     = (if okey x = k
        then Some (case find (\<lambda>a. key a = k) xs of None \<Rightarrow> mk x | Some a \<Rightarrow> upd x a)
        else find (\<lambda>a. key a = k) xs)"
  by (induction xs) (auto simp: key_mk key_upd)

lemma fold_distinct:
  "distinct (map key xs)
     \<Longrightarrow> distinct (map key (foldl (\<lambda>xs x. upsert (\<lambda>a. key a = okey x) (upd x) (mk x) xs) xs os))"
  by (induction os arbitrary: xs) (simp_all add: put_distinct)

lemma get_fold:
  "find (\<lambda>a. key a = k) (foldl (\<lambda>xs x. upsert (\<lambda>a. key a = okey x) (upd x) (mk x) xs) xs os)
     = foldl (\<lambda>a x. Some (case a of None \<Rightarrow> mk x | Some a \<Rightarrow> upd x a))
         (find (\<lambda>a. key a = k) xs) (filter (\<lambda>x. okey x = k) os)"
  by (induction os arbitrary: xs) (auto simp: get_put)

lemma find_member: "distinct (map key xs) \<Longrightarrow> a \<in> set xs \<longleftrightarrow> find (\<lambda>b. key b = key a) xs = Some a"
  by (induction xs) (auto simp: rev_image_eqI split: if_splits)

lemma fold_upd_key: "key (foldl (\<lambda>a x. upd x a) a os) = key a"
  by (induction os arbitrary: a) (simp_all add: key_upd)

lemma stored_value:
  assumes "a \<in> set (foldl (\<lambda>xs x. upsert (\<lambda>a. key a = okey x) (upd x) (mk x) xs) [] os)"
  shows "\<exists>x xs. filter (\<lambda>x. okey x = key a) os = x # xs \<and> a = foldl (\<lambda>a x. upd x a) (mk x) xs"
proof -
  have "find (\<lambda>b. key b = key a) (foldl (\<lambda>xs x. upsert (\<lambda>a. key a = okey x) (upd x) (mk x) xs) [] os) = Some a"
    using assms find_member [OF fold_distinct [of "[]"]] by simp
  then have get: "foldl (\<lambda>a x. Some (case a of None \<Rightarrow> mk x | Some a \<Rightarrow> upd x a)) None
      (filter (\<lambda>x. okey x = key a) os) = Some a"
    by (simp add: get_fold)
  have some: "foldl (\<lambda>a x. Some (case a of None \<Rightarrow> mk x | Some a \<Rightarrow> upd x a)) (Some b) xs
      = Some (foldl (\<lambda>a x. upd x a) b xs)" for b xs
    by (induction xs arbitrary: b) auto
  show ?thesis
    using get by (cases "filter (\<lambda>x. okey x = key a) os") (auto simp: some)
qed

lemma fold_keys:
  "key ` set (foldl (\<lambda>xs x. upsert (\<lambda>a. key a = okey x) (upd x) (mk x) xs) xs os)
     = key ` set xs \<union> okey ` set os"
proof (induction os arbitrary: xs)
  case (Cons x os)
  show ?case using Cons [of "upsert (\<lambda>a. key a = okey x) (upd x) (mk x) xs"] put_keys [of x xs] by simp
qed simp

end

section \<open>The graph\<close>

datatype artifact_capability = BrowserAccess | NetworkAccess | InstallExecution | ExposesBinary
  | PrivilegedRuntime | HostFilesystemAccess | ProcessExecution | SecretAccess | PersistenceSurface
  | FilesystemWrite | IdentityAccess | InboundNetworkSurface

datatype artifact_capability_source = Declared | Observed

record artifact_capability_fact =
  fact_capability :: artifact_capability
  fact_source :: artifact_capability_source

record artifact_node =
  node_path :: string
  node_kind :: artifact_kind
  node_capabilities :: "artifact_capability_fact list"

datatype endpoint_kind = Remote | Registry | Transient | ControlPlane | Local

datatype artifact_relation = References | Contains | Locks | Downloads | Executes | Loads | Persists
  | Mounts | ConnectsTo | Reads | Writes | AccessesSecrets

record artifact_edge =
  edge_from :: string
  edge_to :: string
  edge_relation :: artifact_relation
  edge_endpoint :: "endpoint_kind option"

record artifact_graph =
  nodes :: "artifact_node list"
  edges :: "artifact_edge list"

definition graph_new :: artifact_graph where
  "graph_new = \<lparr>nodes = [], edges = []\<rparr>"

definition merge_capabilities ::
  "artifact_capability_fact list \<Rightarrow> artifact_capability_fact list \<Rightarrow> artifact_capability_fact list" where
  "merge_capabilities existing new =
     foldl (\<lambda>acc c. if list_ex (\<lambda>f. fact_capability f = fact_capability c \<and> fact_source f = fact_source c) acc
                    then acc else acc @ [c]) existing new"

definition merge_node :: "artifact_node \<Rightarrow> artifact_node \<Rightarrow> artifact_node" where
  "merge_node new existing =
     existing\<lparr>node_kind := (if specificity (node_kind existing) < specificity (node_kind new)
                           then node_kind new else node_kind existing),
             node_capabilities := merge_capabilities (node_capabilities existing) (node_capabilities new)\<rparr>"

definition add_node_with_capabilities ::
  "string \<Rightarrow> artifact_kind \<Rightarrow> artifact_capability_fact list \<Rightarrow> artifact_graph \<Rightarrow> artifact_graph" where
  "add_node_with_capabilities path kind caps g =
     (let new = \<lparr>node_path = path, node_kind = kind, node_capabilities = caps\<rparr>
      in g\<lparr>nodes := upsert (\<lambda>n. node_path n = path) (merge_node new) new (nodes g)\<rparr>)"

definition add_node :: "string \<Rightarrow> artifact_kind \<Rightarrow> artifact_graph \<Rightarrow> artifact_graph" where
  "add_node path kind g = add_node_with_capabilities path kind [] g"

fun endpoint_rank :: "endpoint_kind option \<Rightarrow> nat" where
  "endpoint_rank (Some ControlPlane) = 5"
| "endpoint_rank (Some Transient) = 4"
| "endpoint_rank (Some Remote) = 3"
| "endpoint_rank (Some Local) = 2"
| "endpoint_rank (Some Registry) = 1"
| "endpoint_rank None = 0"

definition upgrade_endpoint_kind ::
  "endpoint_kind option \<Rightarrow> endpoint_kind option \<Rightarrow> endpoint_kind option" where
  "upgrade_endpoint_kind existing incoming =
     (if endpoint_rank existing < endpoint_rank incoming then incoming else existing)"

definition merge_edge :: "artifact_edge \<Rightarrow> artifact_edge \<Rightarrow> artifact_edge" where
  "merge_edge new existing =
     existing\<lparr>edge_endpoint := upgrade_endpoint_kind (edge_endpoint existing) (edge_endpoint new)\<rparr>"

definition edge_key :: "artifact_edge \<Rightarrow> string \<times> string \<times> artifact_relation" where
  "edge_key e = (edge_from e, edge_to e, edge_relation e)"

definition add_edge_with_endpoint ::
  "string \<Rightarrow> string \<Rightarrow> artifact_relation \<Rightarrow> endpoint_kind option \<Rightarrow> artifact_graph \<Rightarrow> artifact_graph" where
  "add_edge_with_endpoint from to rel ep g =
     (let e = \<lparr>edge_from = from, edge_to = to, edge_relation = rel, edge_endpoint = ep\<rparr>
      in g\<lparr>edges := upsert (\<lambda>x. edge_from x = edge_from e \<and> edge_to x = edge_to e
                              \<and> edge_relation x = edge_relation e) (merge_edge e) e (edges g)\<rparr>)"

definition add_edge :: "string \<Rightarrow> string \<Rightarrow> artifact_relation \<Rightarrow> artifact_graph \<Rightarrow> artifact_graph" where
  "add_edge from to rel g = add_edge_with_endpoint from to rel None g"

section \<open>Sequences of additions\<close>

datatype graph_op =
  Add_node string artifact_kind "artifact_capability_fact list"
  | Add_edge string string artifact_relation "endpoint_kind option"

fun graph_apply :: "artifact_graph \<Rightarrow> graph_op \<Rightarrow> artifact_graph" where
  "graph_apply g (Add_node p k cs) = add_node_with_capabilities p k cs g"
| "graph_apply g (Add_edge s t r e) = add_edge_with_endpoint s t r e g"

definition graph_of :: "graph_op list \<Rightarrow> artifact_graph" where
  "graph_of ops = foldl graph_apply graph_new ops"

fun op_node :: "graph_op \<Rightarrow> artifact_node list" where
  "op_node (Add_node p k cs) = [\<lparr>node_path = p, node_kind = k, node_capabilities = cs\<rparr>]"
| "op_node (Add_edge _ _ _ _) = []"

fun op_edge :: "graph_op \<Rightarrow> artifact_edge list" where
  "op_edge (Add_node _ _ _) = []"
| "op_edge (Add_edge s t r e) =
     [\<lparr>edge_from = s, edge_to = t, edge_relation = r, edge_endpoint = e\<rparr>]"

definition added_nodes :: "graph_op list \<Rightarrow> artifact_node list" where
  "added_nodes ops = concat (map op_node ops)"

definition added_edges :: "graph_op list \<Rightarrow> artifact_edge list" where
  "added_edges ops = concat (map op_edge ops)"

interpretation node_store: keyed_store node_path node_path "\<lambda>n. n" merge_node
  by unfold_locales (simp_all add: merge_node_def)

interpretation edge_store: keyed_store edge_key edge_key "\<lambda>e. e" merge_edge
  by unfold_locales (simp_all add: merge_edge_def edge_key_def)

lemma nodes_fold:
  "nodes (foldl graph_apply g ops)
     = foldl (\<lambda>xs n. upsert (\<lambda>a. node_path a = node_path n) (merge_node n) n xs) (nodes g) (added_nodes ops)"
proof (induction ops arbitrary: g)
  case (Cons x ops)
  then show ?case
    by (cases x) (simp_all add: added_nodes_def add_node_with_capabilities_def
        add_edge_with_endpoint_def Let_def)
qed (simp add: added_nodes_def)

lemma edges_fold:
  "edges (foldl graph_apply g ops)
     = foldl (\<lambda>xs n. upsert (\<lambda>a. edge_key a = edge_key n) (merge_edge n) n xs) (edges g) (added_edges ops)"
proof (induction ops arbitrary: g)
  case (Cons x ops)
  then show ?case
    by (cases x) (simp_all add: added_edges_def add_node_with_capabilities_def edge_key_def
        add_edge_with_endpoint_def Let_def)
qed (simp add: added_edges_def)

lemma graph_nodes_distinct: "distinct (map node_path (nodes (graph_of ops)))"
  unfolding graph_of_def nodes_fold by (rule node_store.fold_distinct) (simp add: graph_new_def)

lemma graph_edges_distinct: "distinct (map edge_key (edges (graph_of ops)))"
  unfolding graph_of_def edges_fold by (rule edge_store.fold_distinct) (simp add: graph_new_def)

lemma graph_node_paths: "node_path ` set (nodes (graph_of ops)) = node_path ` set (added_nodes ops)"
  unfolding graph_of_def nodes_fold node_store.fold_keys by (simp add: graph_new_def)

lemma graph_edge_keys: "edge_key ` set (edges (graph_of ops)) = edge_key ` set (added_edges ops)"
  unfolding graph_of_def edges_fold edge_store.fold_keys by (simp add: graph_new_def)

section \<open>What a node and an edge accumulate\<close>

lemma capability_fact_eq_iff:
  "fact_capability f = fact_capability c \<and> fact_source f = fact_source c \<longleftrightarrow> f = (c :: artifact_capability_fact)"
  by (cases f; cases c) simp

lemma merge_capabilities_set: "set (merge_capabilities xs ys) = set xs \<union> set ys"
proof -
  have "list_ex (\<lambda>f. fact_capability f = fact_capability c \<and> fact_source f = fact_source c) acc \<longleftrightarrow> c \<in> set acc"
    for acc and c :: artifact_capability_fact
    unfolding capability_fact_eq_iff by (auto simp: list_ex_iff)
  then show ?thesis
    unfolding merge_capabilities_def by (induction ys arbitrary: xs) auto
qed

lemma fold_merge_node:
  "specificity (node_kind (foldl (\<lambda>a n. merge_node n a) a ns))
     = Max (insert (specificity (node_kind a)) ((\<lambda>n. specificity (node_kind n)) ` set ns))"
  "set (node_capabilities (foldl (\<lambda>a n. merge_node n a) a ns))
     = set (node_capabilities a) \<union> (\<Union>n\<in>set ns. set (node_capabilities n))"
  "node_kind (foldl (\<lambda>a n. merge_node n a) a ns) \<in> node_kind ` insert a (set ns)"
proof (induction ns arbitrary: a)
  case (Cons n ns)
  { case 1
    have "specificity (node_kind (merge_node n a)) = max (specificity (node_kind a)) (specificity (node_kind n))"
      by (simp add: merge_node_def max_def)
    then show ?case
      using Cons.IH(1) [of "merge_node n a"]
      by (cases "ns = []") (simp_all add: max.assoc)
  next
    case 2
    then show ?case
      using Cons.IH(2) [of "merge_node n a"] by (auto simp: merge_node_def merge_capabilities_set)
  next
    case 3
    then show ?case
      using Cons.IH(3) [of "merge_node n a"] by (auto simp: merge_node_def split: if_splits)
  }
qed simp_all

lemma graph_node_accumulates:
  assumes "n \<in> set (nodes (graph_of ops))"
  defines "A \<equiv> {a \<in> set (added_nodes ops). node_path a = node_path n}"
  shows "set (node_capabilities n) = (\<Union>a\<in>A. set (node_capabilities a))
    \<and> specificity (node_kind n) = Max ((\<lambda>a. specificity (node_kind a)) ` A)
    \<and> node_kind n \<in> node_kind ` A"
proof -
  obtain x xs where "filter (\<lambda>x. node_path x = node_path n) (added_nodes ops) = x # xs"
    and n: "n = foldl (\<lambda>a n. merge_node n a) x xs"
    using node_store.stored_value [of n "added_nodes ops"] assms(1)
    by (auto simp: graph_of_def nodes_fold graph_new_def)
  then have "A = insert x (set xs)" unfolding A_def by (metis list.simps(15) set_filter)
  then show ?thesis using fold_merge_node [where a = x and ns = xs] by (simp add: n)
qed

lemma fold_merge_edge:
  "endpoint_rank (edge_endpoint (foldl (\<lambda>a e. merge_edge e a) a es))
     = Max (insert (endpoint_rank (edge_endpoint a)) ((\<lambda>e. endpoint_rank (edge_endpoint e)) ` set es))"
proof (induction es arbitrary: a)
  case (Cons e es)
  have "endpoint_rank (edge_endpoint (merge_edge e a))
      = max (endpoint_rank (edge_endpoint a)) (endpoint_rank (edge_endpoint e))"
    by (simp add: merge_edge_def upgrade_endpoint_kind_def max_def)
  then show ?case
    using Cons [of "merge_edge e a"] by (cases "es = []") (simp_all add: max.assoc)
qed simp

lemma endpoint_rank_inj: "endpoint_rank a = endpoint_rank b \<longleftrightarrow> a = b"
  by (cases a rule: endpoint_rank.cases; cases b rule: endpoint_rank.cases) simp_all

lemma graph_edge_accumulates:
  assumes "e \<in> set (edges (graph_of ops))"
  shows "endpoint_rank (edge_endpoint e)
    = Max ((\<lambda>a. endpoint_rank (edge_endpoint a)) ` {a \<in> set (added_edges ops). edge_key a = edge_key e})"
proof -
  obtain x xs where f: "filter (\<lambda>x. edge_key x = edge_key e) (added_edges ops) = x # xs"
    and e: "e = foldl (\<lambda>a n. merge_edge n a) x xs"
    using edge_store.stored_value [of e "added_edges ops"] assms
    by (auto simp: graph_of_def edges_fold graph_new_def)
  have "{a \<in> set (added_edges ops). edge_key a = edge_key e} = insert x (set xs)"
    using f by (metis list.simps(15) set_filter)
  then show ?thesis using fold_merge_edge [of x xs] by (simp add: e)
qed

section \<open>Properties of the graph\<close>

text \<open>After any sequence of additions every path that was added has exactly one node, which
  carries all capabilities added for it and a kind of the highest specificity among them.\<close>

theorem graph_nodes_correct:
  "distinct (map node_path (nodes (graph_of ops)))
   \<and> node_path ` set (nodes (graph_of ops)) = node_path ` set (added_nodes ops)
   \<and> list_all (\<lambda>n. let added = filter (\<lambda>a. node_path a = node_path n) (added_nodes ops) in
        set (node_capabilities n) = (\<Union>a\<in>set added. set (node_capabilities a))
        \<and> specificity (node_kind n) = Max ((\<lambda>a. specificity (node_kind a)) ` set added)
        \<and> node_kind n \<in> node_kind ` set added) (nodes (graph_of ops))"
  using graph_nodes_distinct graph_node_paths graph_node_accumulates [of _ ops]
  by (simp add: list_all_iff Let_def)

text \<open>After any sequence of additions there is exactly one edge for every (from, to, relation) that was
  added, with the most dangerous endpoint kind seen for it.\<close>

theorem graph_edges_correct:
  "distinct (map edge_key (edges (graph_of ops)))
   \<and> edge_key ` set (edges (graph_of ops)) = edge_key ` set (added_edges ops)
   \<and> list_all (\<lambda>e. endpoint_rank (edge_endpoint e) =
        Max ((\<lambda>a. endpoint_rank (edge_endpoint a))
          ` set (filter (\<lambda>a. edge_key a = edge_key e) (added_edges ops)))) (edges (graph_of ops))"
  using graph_edges_distinct graph_edge_keys graph_edge_accumulates [of _ ops]
  by (simp add: list_all_iff)

end
