(* ===== verification/Artifact_Dispatch.thy ===== *)
theory Artifact_Dispatch
  imports File_Discovery Artifact_Graph
begin

text \<open>
  What a file is and who analyses it: the artifact kind of a path (\<open>scanner_graph.rs\<close>), the script gate
  (\<open>detectors/scripts/mod.rs\<close>) and the routing of a file to its detector
  (\<open>services/artifact_orchestration/dispatch.rs\<close>). The detectors themselves are a parameter: a function
  from the name of the detector to what it reports.
\<close>

section \<open>Kinds\<close>

definition artifact_kind_for_path :: "string \<Rightarrow> artifact_kind" where
  "artifact_kind_for_path path =
     (let file_name = lower_file_name path;
          named = (\<lambda>names. case file_name of None \<Rightarrow> False | Some n \<Rightarrow> n \<in> set names);
          ending = (\<lambda>s. case file_name of None \<Rightarrow> False | Some n \<Rightarrow> ends_with n s)
      in if named MCP_NAMES then McpServerManifest
         else if named [''cargo.lock'', ''poetry.lock'', ''uv.lock'', ''pipfile.lock'', ''yarn.lock'',
                        ''pnpm-lock.yaml'', ''npm-shrinkwrap.json'', ''package-lock.json''] then Lockfile
         else if named [''package.json'', ''requirements.txt'', ''pyproject.toml'', ''cargo.toml'', ''dockerfile'',
                        ''docker-compose.yml'', ''docker-compose.yaml'', ''makefile'', ''gnumakefile'', ''.npmrc'',
                        ''pip.conf''] then PackageManifest
         else if named [''agents.md'', ''claude.md'', ''system.md'', ''persona.md'', ''soul.md''] then AgentInstruction
         else if ending ''.prompt.md'' then PromptPackDocument
         else if (ending ''.md'' \<or> ending ''.mdx'') \<and> parent_is_prompts path then PromptPackDocument
         else if is_explicit_skill_file path then SkillDocument
         else ReferencedArtifact)"

section \<open>Routing\<close>

definition RECOGNISED_SCRIPT_EXTENSIONS :: "string list" where
  "RECOGNISED_SCRIPT_EXTENSIONS =
       [''sh'', ''bash'', ''zsh'', ''ksh'', ''fish'', ''ps1'', ''psm1'', ''psd1'', ''py'', ''js'', ''cjs'', ''mjs'',
        ''ts'', ''mts'', ''cts'', ''rb'', ''pl'', ''go'', ''rs'', ''php'', ''bat'', ''cmd'']"

definition looks_like_script :: "string \<Rightarrow> bool" where
  "looks_like_script path \<longleftrightarrow>
     map_option to_ascii_lowercase (path_extension path) \<in> Some ` set RECOGNISED_SCRIPT_EXTENSIONS"

definition DOCKER_COMPOSE_NAMES :: "string list" where
  "DOCKER_COMPOSE_NAMES = [''docker-compose.yml'', ''docker-compose.yaml'']"

definition TOML_ARTIFACT_NAMES :: "string list" where
  "TOML_ARTIFACT_NAMES = [''cargo.toml'', ''pyproject.toml'']"

definition is_prompt_pack_document :: "string \<Rightarrow> bool" where
  "is_prompt_pack_document path \<longleftrightarrow>
     (case lower_file_name path of None \<Rightarrow> False | Some n \<Rightarrow> ends_with n ''.prompt.md'')
     \<or> (case path_extension path of None \<Rightarrow> False | Some e \<Rightarrow> eq_ignore_ascii_case e ''md'')
       \<and> parent_is_prompts path"

datatype detector =
  Package_json | Mcp_manifest | Skill_md | Requirements_txt | Pyproject_toml | Cargo_toml | Package_lock
  | Cargo_lock | Poetry_lock | Pipfile_lock | Uv_lock | Yarn_lock | Pnpm_lock | Any_lockfile | Dockerfile
  | Docker_compose | Makefile | Npmrc | Pip_conf | Instruction_file | Prompt_pack | Script

record artifact_link =
  link_target :: string
  link_relation :: artifact_relation

record 'f detectors =
  run_detector :: "detector \<Rightarrow> string \<Rightarrow> string \<Rightarrow> string list \<Rightarrow> skill_document option \<Rightarrow> 'f list"
  run_relations :: "detector \<Rightarrow> string \<Rightarrow> artifact_link list"
  run_capabilities :: "detector \<Rightarrow> string \<Rightarrow> artifact_capability_fact list"
  run_expected_lockfiles :: "detector \<Rightarrow> string \<Rightarrow> string list"
  strip_comments :: "string \<Rightarrow> string \<Rightarrow> string"

definition analyze_route :: "string \<Rightarrow> detector option" where
  "analyze_route path =
     (case lower_file_name path of
        None \<Rightarrow> None
      | Some name \<Rightarrow>
          if name = ''package.json'' then Some Package_json
          else if name \<in> set MCP_NAMES then Some Mcp_manifest
          else if name = ''skill.md'' then Some Skill_md
          else if name = ''requirements.txt'' then Some Requirements_txt
          else if name = ''pyproject.toml'' then Some Pyproject_toml
          else if name = ''cargo.toml'' then Some Cargo_toml
          else if name = ''package-lock.json'' \<or> name = ''npm-shrinkwrap.json'' then Some Package_lock
          else if name = ''cargo.lock'' then Some Cargo_lock
          else if name = ''poetry.lock'' then Some Poetry_lock
          else if name = ''pipfile.lock'' then Some Pipfile_lock
          else if name = ''uv.lock'' then Some Uv_lock
          else if name = ''yarn.lock'' then Some Yarn_lock
          else if name = ''pnpm-lock.yaml'' then Some Pnpm_lock
          else if name = ''dockerfile'' then Some Dockerfile
          else if name \<in> set DOCKER_COMPOSE_NAMES then Some Docker_compose
          else if name = ''makefile'' \<or> name = ''gnumakefile'' then Some Makefile
          else if name = ''.npmrc'' then Some Npmrc
          else if name = ''pip.conf'' then Some Pip_conf
          else if name \<in> set INSTRUCTION_NAMES then Some Instruction_file
          else if ends_with name ''.skill.md'' then Some Skill_md
          else if is_prompt_pack_document path then Some Prompt_pack
          else if looks_like_script path then Some Script
          else None)"

definition analyze :: "'f detectors \<Rightarrow> string \<Rightarrow> string \<Rightarrow> string list \<Rightarrow> skill_document option \<Rightarrow> 'f list" where
  "analyze ds path content sibling_files document =
     (case analyze_route path of None \<Rightarrow> [] | Some d \<Rightarrow> run_detector ds d path content sibling_files document)"

definition relations_route :: "string \<Rightarrow> detector option" where
  "relations_route path =
     (case lower_file_name path of
        None \<Rightarrow> None
      | Some name \<Rightarrow>
          if name \<in> set MCP_NAMES then Some Mcp_manifest
          else if name \<in> set DOCKER_COMPOSE_NAMES then Some Docker_compose
          else if name = ''dockerfile'' then Some Dockerfile
          else if name = ''package.json'' then Some Package_json
          else if name \<in> set LOCKFILE_NAMES then Some Any_lockfile
          else if name = ''makefile'' \<or> name = ''gnumakefile'' then Some Makefile
          else if name = ''.npmrc'' then Some Npmrc
          else if name = ''pip.conf'' then Some Pip_conf
          else if name = ''skill.md'' then Some Instruction_file
          else if name \<in> set INSTRUCTION_NAMES then Some Instruction_file
          else if ends_with name ''.skill.md'' then Some Instruction_file
          else if is_prompt_pack_document path then Some Instruction_file
          else if looks_like_script path then Some Script
          else None)"

definition script_language_for :: "string \<Rightarrow> string" where
  "script_language_for path =
     (case path_extension path of Some ext \<Rightarrow> to_ascii_lowercase ext | None \<Rightarrow> [])"

definition infer_relations :: "'f detectors \<Rightarrow> string \<Rightarrow> string \<Rightarrow> artifact_link list" where
  "infer_relations ds path content =
     (case relations_route path of
        None \<Rightarrow> []
      | Some Script \<Rightarrow> run_relations ds Script (strip_comments ds content (script_language_for path))
      | Some d \<Rightarrow> run_relations ds d content)"

definition capabilities_route :: "string \<Rightarrow> detector option" where
  "capabilities_route path =
     (case lower_file_name path of
        None \<Rightarrow> None
      | Some name \<Rightarrow>
          if name = ''package.json'' then Some Package_json
          else if name \<in> set MCP_NAMES then Some Mcp_manifest
          else if name = ''dockerfile'' then Some Dockerfile
          else if name \<in> set DOCKER_COMPOSE_NAMES then Some Docker_compose
          else if name = ''requirements.txt'' then Some Requirements_txt
          else if name = ''pyproject.toml'' then Some Pyproject_toml
          else if name = ''cargo.toml'' then Some Cargo_toml
          else if name = ''makefile'' \<or> name = ''gnumakefile'' then Some Makefile
          else if name = ''.npmrc'' then Some Npmrc
          else if name = ''pip.conf'' then Some Pip_conf
          else if name = ''skill.md'' then Some Instruction_file
          else if name \<in> set INSTRUCTION_NAMES then Some Instruction_file
          else if ends_with name ''.skill.md'' then Some Instruction_file
          else if is_prompt_pack_document path then Some Instruction_file
          else if name \<in> set LOCKFILE_NAMES then Some Any_lockfile
          else if looks_like_script path then Some Script
          else None)"

definition infer_capabilities :: "'f detectors \<Rightarrow> string \<Rightarrow> string \<Rightarrow> artifact_capability_fact list" where
  "infer_capabilities ds path content =
     (case capabilities_route path of
        None \<Rightarrow> []
      | Some Script \<Rightarrow> run_capabilities ds Script (strip_comments ds content (script_language_for path))
      | Some d \<Rightarrow> run_capabilities ds d content)"

definition expected_lockfiles :: "'f detectors \<Rightarrow> string \<Rightarrow> string \<Rightarrow> string list" where
  "expected_lockfiles ds path content =
     (case lower_file_name path of
        None \<Rightarrow> []
      | Some name \<Rightarrow>
          if name = ''package.json'' then run_expected_lockfiles ds Package_json content
          else if name = ''pyproject.toml'' then run_expected_lockfiles ds Pyproject_toml content
          else if name = ''cargo.toml'' then [''Cargo.lock'']
          else [])"

section \<open>Names and extensions\<close>

text \<open>The extension, read off the lower-case file name.\<close>

definition name_extension :: "string \<Rightarrow> string option" where
  "name_extension n =
     (case str_rfind n ''.'' of None \<Rightarrow> None | Some i \<Rightarrow> if i = 0 then None else Some (drop (i + 1) n))"

lemma ascii_lower_dot: "ascii_lower c = CHR ''.'' \<longleftrightarrow> c = CHR ''.''"
proof
  assume "ascii_lower c = CHR ''.''"
  then have "byte_of (ascii_lower c) = 46" by (simp add: byte_of_def)
  then have "byte_of c = 46" by (auto simp: byte_of_ascii_lower split: if_splits)
  then have "(of_char c :: nat) = of_char (CHR ''.'')" by (simp add: byte_of_def)
  then show "c = CHR ''.''" by (simp only: of_char_eq_iff)
qed (simp add: ascii_lower_def byte_of_def)

lemma rfind_lower: "str_rfind (to_ascii_lowercase s) ''.'' = str_rfind s ''.''"
  by (induction s) (simp_all add: to_ascii_lowercase_def ascii_lower_dot eq_commute [of "CHR ''.''"] split: option.split)

lemma extension_lower:
  "map_option to_ascii_lowercase (path_extension path) = Option.bind (lower_file_name path) name_extension"
proof -
  have "to_ascii_lowercase (drop k a) = drop k (to_ascii_lowercase a)" for k a
    by (simp add: to_ascii_lowercase_def drop_map)
  then show ?thesis
    by (cases "path_file_name path")
       (simp_all add: path_extension_def lower_file_name_def name_extension_def rfind_lower split: option.split)
qed

lemma name_extension_iff:
  "name_extension n = Some e \<longleftrightarrow> (\<exists>stem. stem \<noteq> [] \<and> n = stem @ CHR ''.'' # e \<and> CHR ''.'' \<notin> set e)"
proof -
  have none: "str_rfind e ''.'' = None \<longleftrightarrow> CHR ''.'' \<notin> set e" for e
    by (induction e) (auto split: option.splits)
  have split: "str_rfind n ''.'' = Some i \<Longrightarrow> n = take i n @ CHR ''.'' # drop (i + 1) n \<and> CHR ''.'' \<notin> set (drop (i + 1) n)
      \<and> i < length n" for i
  proof (induction n arbitrary: i)
    case (Cons c n)
    then show ?case by (cases "str_rfind n ''.''") (auto simp: none split: if_splits)
  qed simp
  have ext: "str_rfind (p @ CHR ''.'' # e) ''.'' = Some (length p)" if "CHR ''.'' \<notin> set e" for p
    using that none [of e] by (induction p) simp_all
  show ?thesis
  proof
    assume "name_extension n = Some e"
    then obtain i where "str_rfind n ''.'' = Some i" "i \<noteq> 0" "e = drop (i + 1) n"
      by (auto simp: name_extension_def split: option.splits if_splits)
    with split [of i] show "\<exists>stem. stem \<noteq> [] \<and> n = stem @ CHR ''.'' # e \<and> CHR ''.'' \<notin> set e"
      by (intro exI [of _ "take i n"]) auto
  next
    assume "\<exists>stem. stem \<noteq> [] \<and> n = stem @ CHR ''.'' # e \<and> CHR ''.'' \<notin> set e"
    then show "name_extension n = Some e" by (auto simp: name_extension_def ext)
  qed
qed

section \<open>Kinds and routes agree\<close>

definition special_names :: "string list" where
  "special_names = MCP_NAMES @ INSTRUCTION_NAMES @ LOCKFILE_NAMES @ MANIFEST_NAMES @ [''skill.md'']"

text \<open>A markdown file of a prompts directory that the router does not take for one.\<close>

definition unrouted_prompt :: "string \<Rightarrow> bool" where
  "unrouted_prompt path \<longleftrightarrow>
     parent_is_prompts path
     \<and> (case lower_file_name path of None \<Rightarrow> False | Some n \<Rightarrow> ends_with n ''.mdx'' \<or> n = ''.md'')"

lemma extension_is_md:
  "(case path_extension path of None \<Rightarrow> False | Some e \<Rightarrow> eq_ignore_ascii_case e ''md'')
     \<longleftrightarrow> Option.bind (lower_file_name path) name_extension = Some ''md''"
  unfolding extension_lower [symmetric]
  by (cases "path_extension path") (simp_all add: eq_ignore_ascii_case_def to_ascii_lowercase_def ascii_lower_def byte_of_def)

lemma md_name: "name_extension n = Some ''md'' \<longleftrightarrow> ends_with n ''.md'' \<and> n \<noteq> ''.md''"
  by (auto simp: name_extension_iff ends_with_def suffix_def)

lemma mdx_not_md: "ends_with n ''.mdx'' \<Longrightarrow> \<not> ends_with n ''.md''"
  by (auto simp: ends_with_def suffix_def)

lemma prompt_pack_name:
  assumes "lower_file_name path = Some n"
  shows "is_prompt_pack_document path \<longleftrightarrow>
    ends_with n ''.prompt.md'' \<or> ends_with n ''.md'' \<and> n \<noteq> ''.md'' \<and> parent_is_prompts path"
  unfolding is_prompt_pack_document_def extension_is_md by (simp add: assms md_name)

lemma md_extension:
  "ends_with n ''.md'' \<Longrightarrow> name_extension n \<in> {None, Some ''md''}"
  "ends_with n ''.mdx'' \<Longrightarrow> name_extension n \<in> {None, Some ''mdx''}"
proof -
  have *: "name_extension n \<in> {None, Some e}" if e: "ends_with n (CHR ''.'' # e)" "CHR ''.'' \<notin> set e" for e
  proof -
    obtain z where n: "n = z @ CHR ''.'' # e" using e(1) unfolding ends_with_def suffix_def by blast
    show ?thesis
    proof (cases "name_extension n")
      case (Some e')
      then obtain stem where "n = stem @ CHR ''.'' # e'" "CHR ''.'' \<notin> set e'" by (auto simp: name_extension_iff)
      moreover have "takeWhile (\<lambda>c. c \<noteq> CHR ''.'') (rev (a @ CHR ''.'' # x)) = rev x"
        if "CHR ''.'' \<notin> set x" for a x :: string
        using that by (simp, subst takeWhile_append2) auto
      ultimately have "rev e' = rev e" using n e(2) by metis
      then show ?thesis using Some by simp
    qed simp
  qed
  show "ends_with n ''.md'' \<Longrightarrow> name_extension n \<in> {None, Some ''md''}" by (rule *) simp_all
  show "ends_with n ''.mdx'' \<Longrightarrow> name_extension n \<in> {None, Some ''mdx''}" by (rule *) simp_all
qed

lemma markdown_not_script:
  assumes "lower_file_name path = Some n" "ends_with n ''.md'' \<or> ends_with n ''.mdx''"
  shows "\<not> looks_like_script path"
  using assms md_extension [of n] unfolding looks_like_script_def RECOGNISED_SCRIPT_EXTENSIONS_def extension_lower by auto

lemma skill_suffix: "ends_with n ''.skill.md'' \<Longrightarrow> ends_with n ''.md''" "ends_with n ''.prompt.md'' \<Longrightarrow> ends_with n ''.md''"
  by (auto simp: ends_with_def suffix_def)

lemma special_routed:
  assumes "lower_file_name path = Some n" "n \<in> set special_names"
  shows "analyze_route path \<noteq> None \<and> \<not> unrouted_prompt path \<and> artifact_kind_for_path path \<noteq> ReferencedArtifact
    \<and> capabilities_route path \<noteq> None
    \<and> (relations_route path = None \<longleftrightarrow> n \<in> {''requirements.txt'', ''pyproject.toml'', ''cargo.toml''})"
proof -
  have "n \<in> {''package.json'', ''mcp.json'', ''mcp.yaml'', ''mcp.yml'', ''.mcp.json'', ''claude_desktop_config.json'',
      ''requirements.txt'', ''pyproject.toml'', ''cargo.toml'', ''dockerfile'', ''docker-compose.yml'',
      ''docker-compose.yaml'', ''makefile'', ''gnumakefile'', ''.npmrc'', ''pip.conf'',
      ''package-lock.json'', ''npm-shrinkwrap.json'', ''cargo.lock'', ''poetry.lock'', ''pipfile.lock'',
      ''uv.lock'', ''yarn.lock'', ''pnpm-lock.yaml'', ''agents.md'', ''claude.md'', ''system.md'', ''persona.md'',
      ''soul.md'', ''skill.md''}"
    using assms(2) unfolding special_names_def MCP_NAMES_def INSTRUCTION_NAMES_def LOCKFILE_NAMES_def MANIFEST_NAMES_def
    by auto
  then show ?thesis
    by (elim insertE emptyE)
      (simp_all add: analyze_route_def capabilities_route_def relations_route_def unrouted_prompt_def
        artifact_kind_for_path_def assms(1) ends_with_def LOCKFILE_NAMES_def MCP_NAMES_def DOCKER_COMPOSE_NAMES_def INSTRUCTION_NAMES_def suffix_def is_explicit_skill_file_def
        prompt_pack_name [OF assms(1)] looks_like_script_def
        RECOGNISED_SCRIPT_EXTENSIONS_def extension_lower name_extension_def)
qed

lemma plain_routing:
  assumes n: "lower_file_name path = Some n" and plain: "n \<notin> set special_names"
  shows "analyze_route path = None \<longleftrightarrow>
      \<not> ends_with n ''.skill.md'' \<and> \<not> is_prompt_pack_document path \<and> \<not> looks_like_script path"
    and "capabilities_route path = None \<longleftrightarrow>
      \<not> ends_with n ''.skill.md'' \<and> \<not> is_prompt_pack_document path \<and> \<not> looks_like_script path"
    and "relations_route path = None \<longleftrightarrow>
      \<not> ends_with n ''.skill.md'' \<and> \<not> is_prompt_pack_document path \<and> \<not> looks_like_script path"
    and "artifact_kind_for_path path =
      (if ends_with n ''.prompt.md'' \<or> (ends_with n ''.md'' \<or> ends_with n ''.mdx'') \<and> parent_is_prompts path
       then PromptPackDocument else if ends_with n ''.skill.md'' then SkillDocument else ReferencedArtifact)"
    and "is_explicit_skill_file path \<longleftrightarrow>
      ends_with n ''.skill.md'' \<or> ends_with n ''.prompt.md''
      \<or> (ends_with n ''.md'' \<or> ends_with n ''.mdx'') \<and> parent_is_prompts path \<and> \<not> path_traverses_skip_dir path"
proof -
  have neq: "n \<noteq> x" if "x \<in> set special_names" for x using plain that by blast
  note names = special_names_def MCP_NAMES_def INSTRUCTION_NAMES_def LOCKFILE_NAMES_def MANIFEST_NAMES_def
    DOCKER_COMPOSE_NAMES_def
  have apart: "n \<notin> set MCP_NAMES" "n \<notin> set INSTRUCTION_NAMES" "n \<notin> set DOCKER_COMPOSE_NAMES"
    "n \<notin> set LOCKFILE_NAMES"
    using plain by (auto simp: names)
  show ex: "is_explicit_skill_file path \<longleftrightarrow>
      ends_with n ''.skill.md'' \<or> ends_with n ''.prompt.md''
      \<or> (ends_with n ''.md'' \<or> ends_with n ''.mdx'') \<and> parent_is_prompts path \<and> \<not> path_traverses_skip_dir path"
    by (simp add: is_explicit_skill_file_def n is_markdown_under_prompts_dir_def PROMPT_DIR_MARKDOWN_SUFFIXES_def neq names)
  show "analyze_route path = None \<longleftrightarrow>
      \<not> ends_with n ''.skill.md'' \<and> \<not> is_prompt_pack_document path \<and> \<not> looks_like_script path"
    using apart by (simp add: analyze_route_def n neq names)
  show "capabilities_route path = None \<longleftrightarrow>
      \<not> ends_with n ''.skill.md'' \<and> \<not> is_prompt_pack_document path \<and> \<not> looks_like_script path"
    using apart by (simp add: capabilities_route_def n neq names)
  show "relations_route path = None \<longleftrightarrow>
      \<not> ends_with n ''.skill.md'' \<and> \<not> is_prompt_pack_document path \<and> \<not> looks_like_script path"
    using apart by (simp add: relations_route_def n neq names)
  show "artifact_kind_for_path path =
      (if ends_with n ''.prompt.md'' \<or> (ends_with n ''.md'' \<or> ends_with n ''.mdx'') \<and> parent_is_prompts path
       then PromptPackDocument else if ends_with n ''.skill.md'' then SkillDocument else ReferencedArtifact)"
    using apart by (simp add: artifact_kind_for_path_def n neq names ex Let_def)
qed

text \<open>
  every file that has a kind of its own is routed to a detector, and only scripts are routed beside
  them, with one gap: a markdown file of a prompts directory whose name ends in \<open>.mdx\<close> (or is just
  \<open>.md\<close>) is a prompt pack and, outside vendored directories, an explicit entrypoint, but no detector
  ever sees it. The capability inference routes the same files; the relation inference leaves out
  three manifests.
\<close>

theorem dispatch_covers_kinds:
  "(analyze_route path = None \<longleftrightarrow>
      \<not> looks_like_script path \<and> (artifact_kind_for_path path = ReferencedArtifact \<or> unrouted_prompt path))
   \<and> (is_explicit_skill_file path \<and> analyze_route path = None \<longleftrightarrow>
        unrouted_prompt path \<and> \<not> path_traverses_skip_dir path)
   \<and> (unrouted_prompt path \<and> artifact_kind_for_path path \<noteq> PromptPackDocument \<longleftrightarrow> False)
   \<and> (capabilities_route path = None \<longleftrightarrow> analyze_route path = None)
   \<and> (relations_route path = None \<longleftrightarrow>
        analyze_route path = None
        \<or> lower_file_name path \<in> {Some ''requirements.txt'', Some ''pyproject.toml'', Some ''cargo.toml''})"
proof (cases "lower_file_name path")
  case None
  moreover have "\<not> looks_like_script path"
    using None by (simp add: looks_like_script_def extension_lower)
  ultimately show ?thesis
    by (simp add: analyze_route_def capabilities_route_def relations_route_def unrouted_prompt_def
        artifact_kind_for_path_def is_explicit_skill_file_def Let_def)
next
  case (Some n)
  show ?thesis
  proof (cases "n \<in> set special_names")
    case True
    then show ?thesis using special_routed [OF Some True] Some by auto
  next
    case False
    have three: "n \<noteq> ''requirements.txt''" "n \<noteq> ''pyproject.toml''" "n \<noteq> ''cargo.toml''"
      using False by (auto simp: special_names_def MANIFEST_NAMES_def)
    have unrouted: "unrouted_prompt path \<longleftrightarrow> parent_is_prompts path \<and> (ends_with n ''.mdx'' \<or> n = ''.md'')"
      by (simp add: unrouted_prompt_def Some)
    have dot: "ends_with ''.md'' ''.md''" "\<not> ends_with ''.md'' ''.skill.md''" "\<not> ends_with ''.md'' ''.prompt.md''"
      by (simp_all add: ends_with_def suffix_def)
    note r = plain_routing [OF Some False] prompt_pack_name [OF Some]
    show ?thesis
      using markdown_not_script [OF Some] mdx_not_md [of n] skill_suffix [of n] dot
      by (cases "ends_with n ''.md''"; cases "ends_with n ''.mdx''"; cases "parent_is_prompts path";
          cases "looks_like_script path"; cases "n = ''.md''")
         (simp_all add: r unrouted three Some, blast+)
  qed
qed

text \<open>Scripts that are analysed when a document refers to them but never discovered beside it.\<close>

lemma undiscovered_scripts:
  "set RECOGNISED_SCRIPT_EXTENSIONS - set (glob_extensions SCRIPT_GLOB_PATTERNS)
     = {''psm1'', ''psd1'', ''mts'', ''cts'', ''bat'', ''cmd''}"
  by (auto simp: RECOGNISED_SCRIPT_EXTENSIONS_def glob_extensions_def SCRIPT_GLOB_PATTERNS_def map_filter_simps
      strip_prefix_def)

end
