(* ===== verification/Rule_Matching.thy ===== *)
theory Rule_Matching
  imports Artifact_Dispatch Builder "HOL-Library.Sublist"
begin

text \<open>
  Rules of the rule engine and their evaluation on a document: \<open>rules/schema.rs\<close>, \<open>rules/condition.rs\<close> and
  \<open>rules/compiled.rs\<close>. A compiled pattern is the function from a text to its matches; the regex
  compiler and the Unicode lower-case mappings are parameters (\<open>rule_lib\<close>). The
  condition \<open>Yara\<close> exists only with a feature that is off by default and is left out. Log lines are not
  modelled.
\<close>

section \<open>Rules\<close>

datatype rule_condition =
  RC_Regex string
  | RC_SectionContains string "string list"
  | RC_SectionRegex string string
  | RC_ArtifactKind "artifact_kind list"
  | RC_Any "rule_condition list"
  | RC_All "rule_condition list"
  | RC_CodeLanguage "string list"

record rule =
  ru_id :: string
  ru_category :: threat_category
  ru_severity :: severity
  ru_confidence :: f32
  ru_condition :: rule_condition
  ru_action :: recommended_action
  ru_reason :: string
  ru_shield :: "string option"
  ru_enabled :: bool
  ru_tags :: "string list"
  ru_taxonomy_tags :: "taxonomy_tag list"
  ru_promptintel_threats :: "string list"
  ru_requires_code_artifact :: bool
  ru_downgrade_when_confirmation_gate :: bool
  ru_downgrade_when_documentation_context :: bool

record pattern_match =
  pm_start :: nat
  pm_text :: string

type_synonym compiled_pattern = "string \<Rightarrow> pattern_match list"

text \<open>
  \<open>char::to_lowercase\<close> yields at least one character: the first and the others. \<open>str::to_lowercase\<close> is
  context sensitive and therefore a mapping of its own.
\<close>

record rule_lib =
  ru_compile :: "string \<Rightarrow> string + compiled_pattern"
  ru_char_lower :: "string \<Rightarrow> string \<times> string list"
  ru_str_lower :: "string \<Rightarrow> string"

datatype rule_error =
  RE_InvalidRule string
  | RE_PatternError string
  | RE_IoError string
  | RE_DuplicateBuiltinRule string string string
  | RE_DuplicateUserRule string string
  | RE_ChecksumMismatch string string string
  | RE_MissingChecksum string

record compiled_rule =
  cr_rule :: rule
  cr_patterns :: "string \<rightharpoonup> compiled_pattern"

definition MAX_SECTION_CONTAINS_VALUES :: nat where "MAX_SECTION_CONTAINS_VALUES = 200"

section \<open>Compilation\<close>

text \<open>The first \<open>SectionContains\<close> over the cap, in the order of the recursion.\<close>

fun validate_value_caps :: "rule_condition \<Rightarrow> rule_error + unit"
and validate_value_caps_list :: "rule_condition list \<Rightarrow> rule_error + unit" where
  "validate_value_caps (RC_SectionContains s values) =
     (if MAX_SECTION_CONTAINS_VALUES < length values
      then Inl (RE_InvalidRule (''SectionContains has '' @ digits_of (length values)
             @ '' values; the per-rule cap is '' @ digits_of MAX_SECTION_CONTAINS_VALUES
             @ '' (split the rule or use a single Regex condition instead)''))
      else Inr ())"
| "validate_value_caps (RC_Any cs) = validate_value_caps_list cs"
| "validate_value_caps (RC_All cs) = validate_value_caps_list cs"
| "validate_value_caps (RC_Regex p) = Inr ()"
| "validate_value_caps (RC_SectionRegex s p) = Inr ()"
| "validate_value_caps (RC_ArtifactKind ks) = Inr ()"
| "validate_value_caps (RC_CodeLanguage ls) = Inr ()"
| "validate_value_caps_list [] = Inr ()"
| "validate_value_caps_list (c # cs) =
     (case validate_value_caps c of Inl e \<Rightarrow> Inl e | Inr u \<Rightarrow> validate_value_caps_list cs)"

fun extract_pattern_strings :: "rule_condition \<Rightarrow> string list" where
  "extract_pattern_strings (RC_Regex p) = [p]"
| "extract_pattern_strings (RC_SectionRegex s p) = [p]"
| "extract_pattern_strings (RC_Any cs) = concat (map extract_pattern_strings cs)"
| "extract_pattern_strings (RC_All cs) = concat (map extract_pattern_strings cs)"
| "extract_pattern_strings (RC_SectionContains s vs) = []"
| "extract_pattern_strings (RC_ArtifactKind ks) = []"
| "extract_pattern_strings (RC_CodeLanguage ls) = []"

fun compile_all ::
    "rule_lib \<Rightarrow> (string \<rightharpoonup> compiled_pattern) \<Rightarrow> string list \<Rightarrow> rule_error + (string \<rightharpoonup> compiled_pattern)" where
  "compile_all lib m [] = Inr m"
| "compile_all lib m (p # ps) =
     (if m p \<noteq> None then compile_all lib m ps
      else (case ru_compile lib p of
              Inl e \<Rightarrow> Inl (RE_PatternError e)
            | Inr handle \<Rightarrow> compile_all lib (m(p \<mapsto> handle)) ps))"

definition compile_rule :: "rule_lib \<Rightarrow> rule \<Rightarrow> rule_error + compiled_rule" where
  "compile_rule lib r =
     (case validate_value_caps (ru_condition r) of
        Inl e \<Rightarrow> Inl e
      | Inr u \<Rightarrow>
          (case compile_all lib Map.empty (extract_pattern_strings (ru_condition r)) of
             Inl e \<Rightarrow> Inl e
           | Inr m \<Rightarrow> Inr \<lparr>cr_rule = r, cr_patterns = m\<rparr>))"

section \<open>Downgrades\<close>

definition match_appears_in_code_block :: "skill_document \<Rightarrow> string \<Rightarrow> bool" where
  "match_appears_in_code_block doc match_text =
     (if match_text = [] then False
      else list_ex (\<lambda>b. str_contains (cb_code b) match_text) (concat (map sec_code_blocks (doc_sections doc))))"

definition CONFIRMATION_GATE_MARKERS :: "string list" where
  "CONFIRMATION_GATE_MARKERS =
     [''confirmation_token'', ''confirmation token'', ''human-in-the-loop'', ''human in the loop'', ''explicit yes'',
      ''user types yes'', ''user must reply yes'', ''user must reply'', ''two-step gate'', ''two step gate'',
      ''explicit confirmation'', ''explicitly confirm'', ''propose '' @ [CHR 0xE2, CHR 0x86, CHR 0x92] @ '' user'',
      ''propose -> user'', ''ask the user to reply'', ''wait for the user'' @ [CHR 0x27] @ ''s reply'',
      ''do not proceed otherwise'', ''yes <id>'', ''yes <token>'']"

definition DOCUMENTATION_CONTEXT_MARKERS :: "string list" where
  "DOCUMENTATION_CONTEXT_MARKERS =
     [''## what it checks'', ''## anti-patterns'', ''## anti patterns'', ''### anti-patterns'', ''### anti patterns'',
      ''## detection patterns'', ''## blocked patterns'', ''this skill detects'', ''this skill checks'',
      ''examples of bad code'', ''patterns we block'', ''## patterns'', ''## examples ('',
      ''('' @ [CHR 0xE2, CHR 0x9D, CHR 0x8C] @ '' bad)'', ''('' @ [CHR 0xE2, CHR 0x9C, CHR 0x85] @ '' good)'',
      ''// anti-pattern'', ''# anti-pattern'']"

definition doc_has_confirmation_gate :: "skill_document \<Rightarrow> bool" where
  "doc_has_confirmation_gate doc =
     list_ex (str_contains (to_ascii_lowercase (doc_raw_content doc))) CONFIRMATION_GATE_MARKERS"

definition doc_has_documentation_context :: "skill_document \<Rightarrow> bool" where
  "doc_has_documentation_context doc =
     list_ex (str_contains (to_ascii_lowercase (doc_raw_content doc))) DOCUMENTATION_CONTEXT_MARKERS"

definition rule_evidence_kind :: "rule \<Rightarrow> evidence_kind" where
  "rule_evidence_kind r =
     (if list_ex (\<lambda>t. t \<in> {''ioc'', ''publisher'', ''malicious_domain'', ''c2''}) (ru_tags r) then Ioc
      else if ru_category r \<in> {PersuasiveLanguage, SocialManipulation}
              \<or> list_ex (\<lambda>t. t \<in> {''jailbreak'', ''manipulation'', ''semantic''}) (ru_tags r) then Intent
      else if ru_category r \<in> {ScopeCreep, PersistentPromptTampering, ToolAbuse, AutonomyEscalation}
              \<or> list_ex (\<lambda>t. t \<in> {''persistence'', ''filesystem'', ''context'', ''tool_abuse'', ''autonomy''}) (ru_tags r)
      then Context
      else Behavior)"

fun target_kind :: "match_target \<Rightarrow> artifact_kind" where
  "target_kind Document = SkillDocument"
| "target_kind (Section s) = SkillDocument"
| "target_kind (CodeBlock l) = CodeSnippet"
| "target_kind (ReferencedFile p) = ReferencedArtifact"

fun is_prose_target :: "match_target \<Rightarrow> bool" where
  "is_prose_target Document = True"
| "is_prose_target (Section s) = True"
| "is_prose_target (CodeBlock l) = False"
| "is_prose_target (ReferencedFile p) = False"

definition downgrade_notes :: "rule \<Rightarrow> match_target \<Rightarrow> string \<Rightarrow> skill_document option \<Rightarrow> string list" where
  "downgrade_notes r target value doc =
     (case doc of
        None \<Rightarrow> []
      | Some d \<Rightarrow>
          (if ru_requires_code_artifact r \<and> is_prose_target target \<and> \<not> match_appears_in_code_block d value
           then [''prose-only match''] else [])
          @ (if ru_downgrade_when_confirmation_gate r \<and> doc_has_confirmation_gate d
             then [''confirmation-gate present in document''] else [])
          @ (if ru_downgrade_when_documentation_context r \<and> doc_has_documentation_context d
             then [''document is an educational / detection catalogue''] else []))"

definition create_finding_with_doc :: "rule \<Rightarrow> match_target \<Rightarrow> string \<Rightarrow> skill_document option \<Rightarrow> finding" where
  "create_finding_with_doc r target value doc =
     (let notes = downgrade_notes r target value doc;
          any_downgrade = (notes \<noteq> []);
          action = (if any_downgrade \<and> ru_action r = Block then RequireApproval else ru_action r);
          reason_text =
            (if any_downgrade then ru_reason r @ '' (downgraded: '' @ join_with ''; '' notes @ '')'' else ru_reason r)
      in build_with (ru_id r) (ru_category r)
           ([Set_severity (ru_severity r), Set_confidence (ru_confidence r), Set_action action,
             Set_evidence_kind (rule_evidence_kind r), Set_artifact (target_kind target) None,
             Set_matched_on target, Set_match_value value, Set_reason reason_text,
             Set_taxonomy_tags (ru_taxonomy_tags r)]
            @ (if any_downgrade then [Set_signal_class ReviewSignal] else [])))"

definition create_finding :: "rule \<Rightarrow> match_target \<Rightarrow> string \<Rightarrow> finding" where
  "create_finding r target value = create_finding_with_doc r target value None"

section \<open>Sections\<close>

definition calculate_line_number :: "string \<Rightarrow> nat \<Rightarrow> nat" where
  "calculate_line_number content offset =
     length (filter (\<lambda>c. c = CHR 0x0A) (take offset content)) + 1"

definition sections_named :: "rule_lib \<Rightarrow> skill_document \<Rightarrow> string \<Rightarrow> doc_section list" where
  "sections_named lib doc name = filter (\<lambda>s. sec_name s = ru_str_lower lib name) (doc_sections doc)"

definition folded_char :: "rule_lib \<Rightarrow> string \<Rightarrow> string list" where
  "folded_char lib ch =
     (if ch = [CHR 0xC3, CHR 0x9F] \<or> ch = [CHR 0xE1, CHR 0xBA, CHR 0x9E] then [''s'', ''s'']
      else fst (ru_char_lower lib ch) # snd (ru_char_lower lib ch))"

definition folded_char_count :: "rule_lib \<Rightarrow> string \<Rightarrow> nat" where
  "folded_char_count lib ch = length (folded_char lib ch)"

definition case_fold :: "rule_lib \<Rightarrow> string \<Rightarrow> string list" where
  "case_fold lib s = concat (map (folded_char lib) (str_chars s))"

text \<open>\<open>str::find\<close> on the characters of a string.\<close>

fun list_find :: "'a list \<Rightarrow> 'a list \<Rightarrow> nat option" where
  "list_find [] needle = (if needle = [] then Some 0 else None)"
| "list_find (x # xs) needle = (if prefix needle (x # xs) then Some 0 else map_option Suc (list_find xs needle))"

text \<open>The original character each folded character comes from, and one entry for the end.\<close>

definition lower_to_original :: "rule_lib \<Rightarrow> string \<Rightarrow> nat list" where
  "lower_to_original lib content =
     concat (map (\<lambda>(i, ch). replicate (folded_char_count lib ch) i) (enumerate 0 (str_chars content)))
     @ [length (str_chars content)]"

lemma list_find_bound: "list_find xs needle = Some p \<Longrightarrow> p + length needle \<le> length xs"
  by (induction xs arbitrary: p) (auto split: if_splits dest: prefix_length_le)

text \<open>The \<open>while let\<close> over the folded content: each match as a range of folded characters.\<close>

function section_hits :: "'a list \<Rightarrow> 'a list \<Rightarrow> nat \<Rightarrow> (nat \<times> nat) list" where
  "section_hits content needle search_from =
     (if needle = [] then []
      else
        (case list_find (drop search_from content) needle of
           None \<Rightarrow> []
         | Some p \<Rightarrow>
             (search_from + p, search_from + p + length needle)
             # section_hits content needle (search_from + p + length needle)))"
  by pat_completeness auto
termination
proof (relation "measure (\<lambda>(content, needle, search_from). length content - search_from)")
  show "wf (measure (\<lambda>(content, needle, search_from). length content - search_from))" by simp
next
  fix content needle :: "'a list" and search_from p
  assume "needle \<noteq> []" "list_find (drop search_from content) needle = Some p"
  then have "p + length needle \<le> length content - search_from" "0 < length needle"
    using list_find_bound [of "drop search_from content" needle p] by simp_all
  then have "length content - (search_from + p + length needle) < length content - search_from" by linarith
  then show "((content, needle, search_from + p + length needle), (content, needle, search_from))
      \<in> measure (\<lambda>(content, needle, search_from). length content - search_from)" by simp
qed

declare section_hits.simps [simp del]

definition hit_finding ::
    "rule_lib \<Rightarrow> rule \<Rightarrow> string \<Rightarrow> skill_document \<Rightarrow> doc_section \<Rightarrow> nat \<times> nat \<Rightarrow> finding" where
  "hit_finding lib r section_name doc sec hit =
     (let chars = str_chars (sec_content sec);
          orig_start = lower_to_original lib (sec_content sec) ! fst hit;
          orig_end = lower_to_original lib (sec_content sec) ! snd hit;
          original_text = concat (take (orig_end - orig_start) (drop orig_start chars));
          orig_byte_offset = length (concat (take orig_start chars));
          line_number = calculate_line_number (sec_content sec) orig_byte_offset + (sec_start_line sec - 1)
      in with_line line_number (create_finding_with_doc r (Section section_name) original_text (Some doc)))"

definition section_value_findings ::
    "rule_lib \<Rightarrow> rule \<Rightarrow> string \<Rightarrow> skill_document \<Rightarrow> doc_section \<Rightarrow> string \<Rightarrow> finding list" where
  "section_value_findings lib r section_name doc sec value =
     (if value = [] then []
      else map (hit_finding lib r section_name doc sec)
             (section_hits (case_fold lib (sec_content sec)) (case_fold lib value) 0))"

definition section_findings :: "rule_lib \<Rightarrow> rule \<Rightarrow> string \<Rightarrow> string list \<Rightarrow> skill_document \<Rightarrow> finding list" where
  "section_findings lib r section_name values doc =
     concat (map (\<lambda>sec. concat (map (section_value_findings lib r section_name doc sec) values))
       (sections_named lib doc section_name))"

section \<open>Conditions\<close>

definition check_regex_condition ::
    "compiled_rule \<Rightarrow> string \<Rightarrow> skill_document \<Rightarrow> finding list \<Rightarrow> bool \<times> finding list" where
  "check_regex_condition cr pattern doc findings =
     (case cr_patterns cr pattern of
        None \<Rightarrow> (False, findings)
      | Some compiled \<Rightarrow>
          let new = map (\<lambda>m. with_line (calculate_line_number (doc_raw_content doc) (pm_start m))
                       (create_finding_with_doc (cr_rule cr) Document (pm_text m) (Some doc)))
                     (compiled (doc_raw_content doc))
          in (length findings < length (findings @ new), findings @ new))"

definition check_section_condition ::
    "rule_lib \<Rightarrow> compiled_rule \<Rightarrow> string \<Rightarrow> string list \<Rightarrow> skill_document \<Rightarrow> finding list \<Rightarrow> bool \<times> finding list" where
  "check_section_condition lib cr section_name values doc findings =
     (let new = section_findings lib (cr_rule cr) section_name values doc in (new \<noteq> [], findings @ new))"

definition check_section_regex_condition ::
    "rule_lib \<Rightarrow> compiled_rule \<Rightarrow> string \<Rightarrow> string \<Rightarrow> skill_document \<Rightarrow> finding list \<Rightarrow> bool \<times> finding list" where
  "check_section_regex_condition lib cr section_name pattern doc findings =
     (case cr_patterns cr pattern of
        None \<Rightarrow> (False, findings)
      | Some compiled \<Rightarrow>
          let new = concat (map (\<lambda>sec. map (\<lambda>m.
                 with_line (calculate_line_number (sec_content sec) (pm_start m) + (sec_start_line sec - 1))
                   (create_finding_with_doc (cr_rule cr) (Section section_name) (pm_text m) (Some doc)))
               (compiled (sec_content sec))) (sections_named lib doc section_name))
          in (length findings < length (findings @ new), findings @ new))"

definition check_artifact_kind_condition ::
    "compiled_rule \<Rightarrow> artifact_kind list \<Rightarrow> skill_document \<Rightarrow> finding list \<Rightarrow> bool \<times> finding list" where
  "check_artifact_kind_condition cr kinds doc findings =
     (let kind = artifact_kind_for_path (doc_path doc)
      in if kind \<in> set kinds
         then (True, findings @ [create_finding (cr_rule cr) Document (''artifact_kind='' @ artifact_kind_display kind)])
         else (False, findings))"

definition check_code_language_condition ::
    "compiled_rule \<Rightarrow> string list \<Rightarrow> skill_document \<Rightarrow> finding list \<Rightarrow> bool \<times> finding list" where
  "check_code_language_condition cr languages doc findings =
     (let found = filter (has_code_language doc) languages
      in (found \<noteq> [], findings @ map (\<lambda>l. create_finding (cr_rule cr) (CodeBlock (Some l))
                                          (''Code block with language: '' @ l)) found))"

fun check_condition ::
    "rule_lib \<Rightarrow> compiled_rule \<Rightarrow> skill_document \<Rightarrow> rule_condition \<Rightarrow> finding list \<Rightarrow> bool \<times> finding list"
and check_any ::
    "rule_lib \<Rightarrow> compiled_rule \<Rightarrow> skill_document \<Rightarrow> rule_condition list \<Rightarrow> bool \<Rightarrow> finding list \<Rightarrow> bool \<times> finding list"
and check_all ::
    "rule_lib \<Rightarrow> compiled_rule \<Rightarrow> skill_document \<Rightarrow> rule_condition list \<Rightarrow> finding list \<Rightarrow> bool \<times> finding list" where
  "check_condition lib cr doc (RC_Regex p) findings = check_regex_condition cr p doc findings"
| "check_condition lib cr doc (RC_SectionContains s vs) findings = check_section_condition lib cr s vs doc findings"
| "check_condition lib cr doc (RC_SectionRegex s p) findings = check_section_regex_condition lib cr s p doc findings"
| "check_condition lib cr doc (RC_ArtifactKind ks) findings = check_artifact_kind_condition cr ks doc findings"
| "check_condition lib cr doc (RC_CodeLanguage ls) findings = check_code_language_condition cr ls doc findings"
| "check_condition lib cr doc (RC_Any cs) findings = check_any lib cr doc cs False findings"
| "check_condition lib cr doc (RC_All cs) findings =
     (case check_all lib cr doc cs [] of
        (True, branch) \<Rightarrow> (True, findings @ branch) | (False, branch) \<Rightarrow> (False, findings))"
| "check_any lib cr doc [] matched findings = (matched, findings)"
| "check_any lib cr doc (c # cs) matched findings =
     (case check_condition lib cr doc c [] of
        (True, branch) \<Rightarrow> check_any lib cr doc cs True (findings @ branch)
      | (False, branch) \<Rightarrow> check_any lib cr doc cs matched findings)"
| "check_all lib cr doc [] branch = (True, branch)"
| "check_all lib cr doc (c # cs) branch =
     (case check_condition lib cr doc c branch of
        (True, branch') \<Rightarrow> check_all lib cr doc cs branch' | (False, branch') \<Rightarrow> (False, branch'))"

definition rule_matches :: "rule_lib \<Rightarrow> compiled_rule \<Rightarrow> skill_document \<Rightarrow> finding list" where
  "rule_matches lib cr doc =
     (if \<not> ru_enabled (cr_rule cr) then []
      else snd (check_condition lib cr doc (ru_condition (cr_rule cr)) []))"

section \<open>What conditions mean\<close>

text \<open>Each condition by itself: the findings it gives when it holds, with the regex compiler for the cache.\<close>

definition pattern_matches :: "rule_lib \<Rightarrow> string \<Rightarrow> compiled_pattern" where
  "pattern_matches lib p = (case ru_compile lib p of Inl e \<Rightarrow> (\<lambda>s. []) | Inr f \<Rightarrow> f)"

fun cond_findings :: "rule_lib \<Rightarrow> rule \<Rightarrow> skill_document \<Rightarrow> rule_condition \<Rightarrow> finding list"
  and cond_holds :: "rule_lib \<Rightarrow> rule \<Rightarrow> skill_document \<Rightarrow> rule_condition \<Rightarrow> bool" where
  "cond_findings lib r doc (RC_Regex p) =
     map (\<lambda>m. with_line (calculate_line_number (doc_raw_content doc) (pm_start m))
                (create_finding_with_doc r Document (pm_text m) (Some doc)))
       (pattern_matches lib p (doc_raw_content doc))"
| "cond_findings lib r doc (RC_SectionContains s vs) = section_findings lib r s vs doc"
| "cond_findings lib r doc (RC_SectionRegex s p) =
     concat (map (\<lambda>sec. map (\<lambda>m.
         with_line (calculate_line_number (sec_content sec) (pm_start m) + (sec_start_line sec - 1))
           (create_finding_with_doc r (Section s) (pm_text m) (Some doc)))
       (pattern_matches lib p (sec_content sec))) (sections_named lib doc s))"
| "cond_findings lib r doc (RC_ArtifactKind ks) =
     (if artifact_kind_for_path (doc_path doc) \<in> set ks
      then [create_finding r Document (''artifact_kind='' @ artifact_kind_display (artifact_kind_for_path (doc_path doc)))]
      else [])"
| "cond_findings lib r doc (RC_CodeLanguage ls) =
     map (\<lambda>l. create_finding r (CodeBlock (Some l)) (''Code block with language: '' @ l))
       (filter (has_code_language doc) ls)"
| "cond_findings lib r doc (RC_Any cs) =
     concat (map (\<lambda>c. if cond_holds lib r doc c then cond_findings lib r doc c else []) cs)"
| "cond_findings lib r doc (RC_All cs) = concat (map (cond_findings lib r doc) cs)"
| "cond_holds lib r doc (RC_Regex p) \<longleftrightarrow> pattern_matches lib p (doc_raw_content doc) \<noteq> []"
| "cond_holds lib r doc (RC_SectionContains s vs) \<longleftrightarrow>
     list_ex (\<lambda>sec. list_ex (\<lambda>v. v \<noteq> [] \<and> sublist (case_fold lib v) (case_fold lib (sec_content sec))) vs)
       (sections_named lib doc s)"
| "cond_holds lib r doc (RC_SectionRegex s p) \<longleftrightarrow>
     list_ex (\<lambda>sec. pattern_matches lib p (sec_content sec) \<noteq> []) (sections_named lib doc s)"
| "cond_holds lib r doc (RC_ArtifactKind ks) \<longleftrightarrow> artifact_kind_for_path (doc_path doc) \<in> set ks"
| "cond_holds lib r doc (RC_CodeLanguage ls) \<longleftrightarrow> list_ex (has_code_language doc) ls"
| "cond_holds lib r doc (RC_Any cs) \<longleftrightarrow> list_ex (cond_holds lib r doc) cs"
| "cond_holds lib r doc (RC_All cs) \<longleftrightarrow> list_all (cond_holds lib r doc) cs"

lemma list_find_iff: "list_find xs needle \<noteq> None \<longleftrightarrow> sublist needle xs"
  by (induction xs) (auto simp: sublist_Cons_right)

lemma section_hits_Nil_iff: "needle \<noteq> [] \<Longrightarrow> section_hits content needle 0 \<noteq> [] \<longleftrightarrow> sublist needle content"
  using list_find_iff [of content needle] by (subst section_hits.simps) (auto split: option.split)

lemma str_chars_Nil [simp]: "str_chars s = [] \<longleftrightarrow> s = []"
  by (cases s) auto

lemma case_fold_Nil [simp]: "case_fold lib s = [] \<longleftrightarrow> s = []"
  by (cases "str_chars s") (auto simp: case_fold_def folded_char_def)

lemma section_findings_Nil:
  "section_findings lib r s vs doc \<noteq> [] \<longleftrightarrow> cond_holds lib r doc (RC_SectionContains s vs)"
proof -
  have "section_value_findings lib r s doc sec v \<noteq> []
      \<longleftrightarrow> v \<noteq> [] \<and> sublist (case_fold lib v) (case_fold lib (sec_content sec))" for sec v
    using section_hits_Nil_iff [of "case_fold lib v" "case_fold lib (sec_content sec)"]
    by (auto simp: section_value_findings_def)
  then show ?thesis by (auto simp: section_findings_def list_ex_iff)
qed

section \<open>The cache of compiled patterns\<close>

definition cache_of :: "rule_lib \<Rightarrow> (string \<rightharpoonup> compiled_pattern) \<Rightarrow> bool" where
  "cache_of lib m \<longleftrightarrow> (\<forall>p f. m p = Some f \<longrightarrow> f = pattern_matches lib p)"

lemma compile_all_cache:
  "compile_all lib m ps = Inr m' \<Longrightarrow> cache_of lib m \<Longrightarrow> cache_of lib m' \<and> dom m \<union> set ps \<subseteq> dom m'"
proof (induction ps arbitrary: m)
  case (Cons p ps)
  show ?case
  proof (cases "m p")
    case (Some f)
    then have "compile_all lib m ps = Inr m'" using Cons.prems(1) by simp
    then show ?thesis using Cons.IH [OF _ Cons.prems(2)] Some by auto
  next
    case None
    then obtain f where f: "ru_compile lib p = Inr f" "compile_all lib (m(p \<mapsto> f)) ps = Inr m'"
      using Cons.prems(1) by (auto split: sum.splits)
    have "cache_of lib (m(p \<mapsto> f))" using Cons.prems(2) f(1) by (auto simp: cache_of_def pattern_matches_def)
    from Cons.IH [OF f(2) this] show ?thesis by (auto split: if_splits simp: subset_iff dom_def)
  qed
qed auto

lemma compile_all_error:
  "compile_all lib m ps = Inl e \<Longrightarrow> \<exists>p \<in> set ps. \<exists>why. ru_compile lib p = Inl why \<and> e = RE_PatternError why"
  by (induction ps arbitrary: m) (auto split: if_splits sum.splits)

lemma cached_pattern:
  assumes "cache_of lib m" "p \<in> dom m"
  shows "m p = Some (pattern_matches lib p)"
  using assms by (auto simp: cache_of_def)

section \<open>Evaluation follows the meaning\<close>

definition cond_outcome :: "rule_lib \<Rightarrow> rule \<Rightarrow> skill_document \<Rightarrow> rule_condition \<Rightarrow> finding list" where
  "cond_outcome lib r doc c = (if cond_holds lib r doc c then cond_findings lib r doc c else [])"

lemma check_leaf:
  assumes "cache_of lib (cr_patterns cr)" "set (extract_pattern_strings c) \<subseteq> dom (cr_patterns cr)"
    and "\<And>cs. c \<noteq> RC_Any cs" "\<And>cs. c \<noteq> RC_All cs"
  shows "check_condition lib cr doc c fs
     = (cond_holds lib (cr_rule cr) doc c, fs @ cond_outcome lib (cr_rule cr) doc c)"
proof (cases c)
  case (RC_Regex p)
  then show ?thesis
    using assms(2) cached_pattern [OF assms(1), of p]
    by (simp add: cond_outcome_def check_regex_condition_def)
next
  case (RC_SectionContains s vs)
  then show ?thesis
    using section_findings_Nil [of lib "cr_rule cr" s vs doc]
    by (auto simp: cond_outcome_def check_section_condition_def Let_def simp del: cond_holds.simps)
next
  case (RC_SectionRegex s p)
  then show ?thesis
    using assms(2) cached_pattern [OF assms(1), of p]
    by (auto simp: cond_outcome_def check_section_regex_condition_def list_ex_iff)
next
  case (RC_ArtifactKind ks)
  then show ?thesis by (simp add: cond_outcome_def check_artifact_kind_condition_def Let_def)
next
  case (RC_CodeLanguage ls)
  then show ?thesis
    by (auto simp: cond_outcome_def check_code_language_condition_def Let_def list_ex_iff filter_empty_conv)
qed (use assms in blast)+

lemma check_any_eq:
  assumes "\<And>c fs. c \<in> set cs \<Longrightarrow> check_condition lib cr doc c fs
     = (cond_holds lib (cr_rule cr) doc c, fs @ cond_outcome lib (cr_rule cr) doc c)"
  shows "check_any lib cr doc cs m fs
     = (m \<or> list_ex (cond_holds lib (cr_rule cr) doc) cs, fs @ concat (map (cond_outcome lib (cr_rule cr) doc) cs))"
  using assms
proof (induction cs arbitrary: m fs)
  case (Cons c cs)
  have "check_condition lib cr doc c [] = (cond_holds lib (cr_rule cr) doc c, cond_outcome lib (cr_rule cr) doc c)"
    using Cons.prems [of c "[]"] by simp
  then show ?case
    using Cons.IH Cons.prems by (cases "cond_holds lib (cr_rule cr) doc c") (simp_all add: cond_outcome_def)
qed simp

lemma check_all_eq:
  assumes "\<And>c fs. c \<in> set cs \<Longrightarrow> check_condition lib cr doc c fs
     = (cond_holds lib (cr_rule cr) doc c, fs @ cond_outcome lib (cr_rule cr) doc c)"
  shows "fst (check_all lib cr doc cs fs) = list_all (cond_holds lib (cr_rule cr) doc) cs
    \<and> (list_all (cond_holds lib (cr_rule cr) doc) cs \<longrightarrow>
        snd (check_all lib cr doc cs fs) = fs @ concat (map (cond_findings lib (cr_rule cr) doc) cs))"
  using assms
proof (induction cs arbitrary: fs)
  case (Cons c cs)
  have c: "check_condition lib cr doc c fs
      = (cond_holds lib (cr_rule cr) doc c, fs @ cond_outcome lib (cr_rule cr) doc c)" for fs
    by (rule Cons.prems) simp
  have "fst (check_all lib cr doc cs fs) = list_all (cond_holds lib (cr_rule cr) doc) cs
    \<and> (list_all (cond_holds lib (cr_rule cr) doc) cs \<longrightarrow>
        snd (check_all lib cr doc cs fs) = fs @ concat (map (cond_findings lib (cr_rule cr) doc) cs))" for fs
    by (rule Cons.IH) (rule Cons.prems, simp)
  then show ?case using c by (cases "cond_holds lib (cr_rule cr) doc c") (simp_all add: cond_outcome_def)
qed simp

lemma check_condition_eq:
  assumes "cache_of lib (cr_patterns cr)"
  shows "set (extract_pattern_strings c) \<subseteq> dom (cr_patterns cr) \<Longrightarrow> check_condition lib cr doc c fs
     = (cond_holds lib (cr_rule cr) doc c, fs @ cond_outcome lib (cr_rule cr) doc c)"
proof (induction c arbitrary: fs)
  case (RC_Any cs)
  have "check_condition lib cr doc c fs = (cond_holds lib (cr_rule cr) doc c, fs @ cond_outcome lib (cr_rule cr) doc c)"
    if "c \<in> set cs" for c fs
  proof (rule RC_Any.IH [OF that])
    show "set (extract_pattern_strings c) \<subseteq> dom (cr_patterns cr)" using RC_Any.prems that by auto
  qed
  note any = check_any_eq [OF this, where m = False and fs = fs]
  have "concat (map (cond_outcome lib (cr_rule cr) doc) cs) = cond_outcome lib (cr_rule cr) doc (RC_Any cs)"
    by (cases "list_ex (cond_holds lib (cr_rule cr) doc) cs")
       (auto simp: cond_outcome_def [abs_def] list_ex_iff)
  with any show ?case by simp
next
  case (RC_All cs)
  have "check_condition lib cr doc c fs = (cond_holds lib (cr_rule cr) doc c, fs @ cond_outcome lib (cr_rule cr) doc c)"
    if "c \<in> set cs" for c fs
  proof (rule RC_All.IH [OF that])
    show "set (extract_pattern_strings c) \<subseteq> dom (cr_patterns cr)" using RC_All.prems that by auto
  qed
  then have "fst (check_all lib cr doc cs []) = list_all (cond_holds lib (cr_rule cr) doc) cs
    \<and> (list_all (cond_holds lib (cr_rule cr) doc) cs \<longrightarrow>
        snd (check_all lib cr doc cs []) = [] @ concat (map (cond_findings lib (cr_rule cr) doc) cs))"
    by (rule check_all_eq)
  then show ?case
    by (cases "check_all lib cr doc cs []"; cases "fst (check_all lib cr doc cs [])") (simp_all add: cond_outcome_def)
qed (rule check_leaf [OF assms]; simp)+

section \<open>Properties\<close>

text \<open>A condition that cannot hold without reporting: no \<open>all\<close> of it is empty.\<close>

fun reports :: "rule_condition \<Rightarrow> bool" where
  "reports (RC_Any cs) \<longleftrightarrow> list_all reports cs"
| "reports (RC_All cs) \<longleftrightarrow> cs \<noteq> [] \<and> list_all reports cs"
| "reports c \<longleftrightarrow> True"

lemma reports_findings:
  "reports c \<Longrightarrow> cond_holds lib r doc c \<Longrightarrow> cond_findings lib r doc c \<noteq> []"
proof (induction c)
  case (RC_SectionContains s vs)
  then show ?case using section_findings_Nil [of lib r s vs doc] by simp
next
  case (RC_All cs)
  then obtain c where "c \<in> set cs" by (cases cs) auto
  then show ?case using RC_All by (auto simp: list_all_iff)
qed (auto simp: list_ex_iff list_all_iff filter_empty_conv)

text \<open>The findings of a rule carry its identity and severity, and never more than its action.\<close>

definition finding_of_rule :: "rule \<Rightarrow> finding \<Rightarrow> bool" where
  "finding_of_rule r f \<longleftrightarrow> rule_id f = ru_id r \<and> category f = ru_category r \<and> f_severity f = ru_severity r
     \<and> (f_action f = ru_action r
        \<or> ru_action r = Block \<and> f_action f = RequireApproval \<and> f_signal_class f = ReviewSignal)"

lemma build_fields:
  "rule_id (build b) = b_rule_id b" "category (build b) = b_category b" "f_severity (build b) = b_severity b"
  "f_action (build b) = b_action b"
  "f_signal_class (build b) = (case b_signal_class b of Some s \<Rightarrow> s | None \<Rightarrow> signal_class_for (b_category b))"
  by (simp_all add: build_def Let_def case_prod_unfold)

lemma created_finding:
  "rule_id (create_finding_with_doc r t v d) = ru_id r" "category (create_finding_with_doc r t v d) = ru_category r"
  "f_severity (create_finding_with_doc r t v d) = ru_severity r"
  "f_action (create_finding_with_doc r t v d)
     = (if downgrade_notes r t v d \<noteq> [] \<and> ru_action r = Block then RequireApproval else ru_action r)"
  "downgrade_notes r t v d \<noteq> [] \<Longrightarrow> f_signal_class (create_finding_with_doc r t v d) = ReviewSignal"
  by (simp_all add: create_finding_with_doc_def Let_def build_with_def build_fields builder_new_def)

lemma created_of_rule:
  "finding_of_rule r (create_finding_with_doc r t v d)" "finding_of_rule r (create_finding r t v)"
  "finding_of_rule r f \<Longrightarrow> finding_of_rule r (with_line n f)"
  using created_finding [of r t v d] created_finding [of r t v None]
  by (auto simp: finding_of_rule_def create_finding_def with_line_def)

lemma cond_findings_of_rule: "f \<in> set (cond_findings lib r doc c) \<Longrightarrow> finding_of_rule r f"
proof (induction c)
  case (RC_SectionContains s vs)
  then show ?case
    by (auto simp: section_findings_def section_value_findings_def hit_finding_def Let_def created_of_rule split: if_splits)
qed (auto simp: created_of_rule split: if_splits)

text \<open>
  Claim C11: the engine decides a rule by its meaning: a rule is rejected only for a value list over the cap or a
  pattern that does not compile, and otherwise it reports, on every document, exactly the findings of its condition when the
  condition holds and nothing else, in spite of the cache of compiled patterns and of the findings that
  branches collect before they fail. A condition that holds reports something unless an \<open>all\<close> in it is
  empty, and every finding has the identity and severity of the rule and at most its action.
\<close>

theorem rule_matches_exact:
  "case compile_rule lib r of
     Inl e \<Rightarrow>
       validate_value_caps (ru_condition r) = Inl e
       \<or> list_ex (\<lambda>p. case ru_compile lib p of Inl why \<Rightarrow> e = RE_PatternError why | Inr f \<Rightarrow> False)
           (extract_pattern_strings (ru_condition r))
   | Inr cr \<Rightarrow>
       rule_matches lib cr doc
         = (if ru_enabled r \<and> cond_holds lib r doc (ru_condition r) then cond_findings lib r doc (ru_condition r) else [])
       \<and> \<not> (ru_enabled r \<and> cond_holds lib r doc (ru_condition r) \<and> reports (ru_condition r) \<and> rule_matches lib cr doc = [])
       \<and> list_all (finding_of_rule r) (rule_matches lib cr doc)"
proof (cases "compile_rule lib r")
  case (Inl e)
  then consider "validate_value_caps (ru_condition r) = Inl e"
    | "compile_all lib Map.empty (extract_pattern_strings (ru_condition r)) = Inl e"
    by (auto simp: compile_rule_def split: sum.splits)
  then show ?thesis
  proof cases
    case 1
    then show ?thesis using Inl by simp
  next
    case 2
    from compile_all_error [OF this] show ?thesis using Inl by (force simp: list_ex_iff)
  qed
next
  case (Inr cr)
  then obtain m where m: "compile_all lib Map.empty (extract_pattern_strings (ru_condition r)) = Inr m"
    "cr = \<lparr>cr_rule = r, cr_patterns = m\<rparr>" by (auto simp: compile_rule_def split: sum.splits)
  have "cache_of lib Map.empty" by (simp add: cache_of_def)
  from compile_all_cache [OF m(1) this]
  have cache: "cache_of lib (cr_patterns cr)" "set (extract_pattern_strings (ru_condition r)) \<subseteq> dom (cr_patterns cr)"
    using m(2) by auto
  have "rule_matches lib cr doc
      = (if ru_enabled r \<and> cond_holds lib r doc (ru_condition r) then cond_findings lib r doc (ru_condition r) else [])"
    using check_condition_eq [OF cache, of doc "[]"] m(2) by (simp add: rule_matches_def cond_outcome_def)
  moreover have "list_all (finding_of_rule r) (cond_findings lib r doc (ru_condition r))"
    using cond_findings_of_rule by (auto simp: list_all_iff)
  ultimately show ?thesis using Inr reports_findings [of "ru_condition r" lib r doc] by auto
qed

text \<open>
  The findings of \<open>artifact_kind\<close> and \<open>code_language\<close> conditions are never softened, although a rule that
  opts into the confirmation gate is documented to emit softened findings on such documents.
\<close>

lemma kind_finding_not_softened: "f_action (create_finding r t v) = ru_action r"
  by (simp add: create_finding_def created_finding downgrade_notes_def)

text \<open>
  A match that ends inside the fold of a sharp s is reported without that character: the text of the first of the
  two matches below is empty, and an empty text never counts as standing in a code block.
\<close>

lemma sharp_s_match_is_cut:
  assumes "ru_char_lower lib ''s'' = (''s'', [])" and "sec_content sec = [CHR 0xC3, CHR 0x9F]"
  shows "map (\<lambda>f. match_value f) (section_value_findings lib r name doc sec ''s'') = [[], [CHR 0xC3, CHR 0x9F]]"
proof -
  have "str_chars [CHR 0xC3, CHR 0x9F] = [[CHR 0xC3, CHR 0x9F]]" "str_chars ''s'' = [''s'']" by code_simp+
  moreover from this have "case_fold lib [CHR 0xC3, CHR 0x9F] = [''s'', ''s'']" "case_fold lib ''s'' = [''s'']"
    using assms(1) by (simp_all add: case_fold_def folded_char_def)
  moreover have "section_hits [''s'', ''s''] [''s''] 0 = [(0, 1), (1, 2)]"
    by (simp add: section_hits.simps numeral_2_eq_2)
  moreover have "match_value (create_finding_with_doc r t v d) = v" for t v d
    by (simp add: create_finding_with_doc_def Let_def build_with_def build_def case_prod_unfold builder_new_def)
  ultimately show ?thesis
    using assms(2)
    by (simp add: section_value_findings_def hit_finding_def lower_to_original_def folded_char_count_def folded_char_def
        with_line_def Let_def numeral_2_eq_2)
qed

end
