(* ===== verification/Lockfiles.thy ===== *)
theory Lockfiles
  imports Artifact_Dispatch Dependency_Inventory Rule_Matching
begin

text \<open>
  The lockfile detectors (\<open>detectors/lockfiles.rs\<close>) with the URL helpers of
  \<open>services/artifact_orchestration/network.rs\<close>: which sources of a lockfile count as remote, the one finding
  a lockfile can give, and its capability and relation. Parameters (\<open>lockfile_lib\<close>): the JSON, TOML and URL
  parsers and the regular expressions.
\<close>

section \<open>Sources\<close>

record lockfile_lib =
  lk_json :: "string \<Rightarrow> string + json"
  lk_toml :: "string \<Rightarrow> toml_value option"
  lk_url_host :: "string \<Rightarrow> string option"
  lk_http_url :: compiled_pattern
  lk_cargo_git_source :: "string \<Rightarrow> bool"
  lk_poetry_url_source :: "string \<Rightarrow> bool"
  lk_uv_git_source :: "string \<Rightarrow> bool"
  lk_yarn_remote_tarball :: "string \<Rightarrow> bool"
  lk_pnpm_remote_tarball :: "string \<Rightarrow> bool"

definition URL_TRIM_TRAILING :: "char set" where
  "URL_TRIM_TRAILING = {CHR 0x22, CHR 0x27} \<union> set '')><,.;:!?]}''"

definition extract_http_urls :: "lockfile_lib \<Rightarrow> string \<Rightarrow> string list" where
  "extract_http_urls lib content =
     map (\<lambda>m. rev (dropWhile (\<lambda>c. c \<in> URL_TRIM_TRAILING) (rev (pm_text m)))) (lk_http_url lib content)"

definition host_matches_url :: "lockfile_lib \<Rightarrow> string \<Rightarrow> string \<Rightarrow> bool" where
  "host_matches_url lib host url =
     (case lk_url_host lib url of None \<Rightarrow> False | Some h \<Rightarrow> eq_ignore_ascii_case h host)"

definition COMMON_LOCKFILE_HOSTS :: "string list" where
  "COMMON_LOCKFILE_HOSTS =
     [''registry.npmjs.org'', ''registry.yarnpkg.com'', ''repo.yarnpkg.com'', ''mirrors.tencentyun.com'',
      ''registry.npmmirror.com'', ''registry.yarnpkg.cn'', ''npm.pkg.github.com'', ''pypi.org'', ''pypi.python.org'',
      ''files.pythonhosted.org'']"

definition is_common_lockfile_source :: "lockfile_lib \<Rightarrow> string \<Rightarrow> bool" where
  "is_common_lockfile_source lib url = list_ex (\<lambda>host. host_matches_url lib host url) COMMON_LOCKFILE_HOSTS"

definition REMOTE_HTTP_SOURCE_PREFIXES :: "string list" where
  "REMOTE_HTTP_SOURCE_PREFIXES = [''http://'', ''https://'']"

definition REMOTE_NON_HTTP_GIT_SOURCE_PREFIXES :: "string list" where
  "REMOTE_NON_HTTP_GIT_SOURCE_PREFIXES = [''ssh://'', ''git://'']"

definition is_scp_user_host_byte :: "char \<Rightarrow> bool" where
  "is_scp_user_host_byte b \<longleftrightarrow> ascii_alnum b \<or> b \<in> set ''._-''"

definition is_scp_like_git_source :: "string \<Rightarrow> bool" where
  "is_scp_like_git_source v =
     (case str_find v '':'' of
        None \<Rightarrow> False
      | Some i \<Rightarrow>
          let user_host = take i v; remote_path = str_trim (drop (i + 1) v)
          in if CHR ''/'' \<in> set user_host \<or> remote_path = [] then False
             else
               (case str_find user_host ''@'' of
                  None \<Rightarrow> False
                | Some j \<Rightarrow>
                    let user = take j user_host; host = drop (j + 1) user_host;
                        looks_like_git_remote = (CHR ''.'' \<in> set host \<or> ends_with remote_path ''.git'')
                    in user \<noteq> [] \<and> host \<noteq> [] \<and> looks_like_git_remote
                       \<and> list_all is_scp_user_host_byte user \<and> list_all is_scp_user_host_byte host))"

definition git_transport :: "string \<Rightarrow> string" where
  "git_transport lower = (case strip_prefix lower ''git+'' of Some t \<Rightarrow> t | None \<Rightarrow> lower)"

definition remote_dependency_source_match_value :: "lockfile_lib \<Rightarrow> string \<Rightarrow> string option" where
  "remote_dependency_source_match_value lib source =
     (let trimmed = str_trim source; transport = git_transport (to_ascii_lowercase trimmed)
      in if starts_with transport ''file://'' then None
         else if list_ex (starts_with transport) REMOTE_HTTP_SOURCE_PREFIXES
         then (case extract_http_urls lib trimmed of u # us \<Rightarrow> Some u | [] \<Rightarrow> None)
         else if is_scp_like_git_source transport then Some trimmed
         else if list_ex (starts_with transport) REMOTE_NON_HTTP_GIT_SOURCE_PREFIXES then Some trimmed else None)"

section \<open>JSON lockfiles\<close>

text \<open>The visits of \<open>for_each_json_string\<close>: every string member of an object at any depth, with its key.\<close>

fun json_strings :: "json \<Rightarrow> (string \<times> string) list" where
  "json_strings (JObject members) =
     concat (map (\<lambda>(k, v). (case as_str v of Some s \<Rightarrow> [(k, s)] | None \<Rightarrow> []) @ json_strings v) members)"
| "json_strings (JArray vs) = concat (map json_strings vs)"
| "json_strings (JString s) = []"
| "json_strings (JNumber s) = []"
| "json_strings (JBool b) = []"
| "json_strings JNull = []"

definition remote_urls_for_json_key :: "lockfile_lib \<Rightarrow> string \<Rightarrow> string \<Rightarrow> string list" where
  "remote_urls_for_json_key lib content key =
     (case lk_json lib content of
        Inl e \<Rightarrow> []
      | Inr j \<Rightarrow> concat (map (\<lambda>(k, s). if k = key then extract_http_urls lib s else []) (json_strings j)))"

definition pipfile_lock_sources :: "lockfile_lib \<Rightarrow> string \<Rightarrow> string list" where
  "pipfile_lock_sources lib content =
     (case lk_json lib content of
        Inl e \<Rightarrow> []
      | Inr j \<Rightarrow> List.map_filter (\<lambda>(k, s).
            if k = ''url'' \<or> k = ''git'' then remote_dependency_source_match_value lib s else None) (json_strings j))"

section \<open>TOML lockfiles\<close>

definition lock_packages :: "lockfile_lib \<Rightarrow> string \<Rightarrow> toml_value list option" where
  "lock_packages lib content =
     (case Option.bind (lk_toml lib content) (\<lambda>t. toml_get t ''package'') of
        Some (TV_Array packages) \<Rightarrow> Some packages | x \<Rightarrow> None)"

definition remote_cargo_git_source :: "lockfile_lib \<Rightarrow> string \<Rightarrow> string option" where
  "remote_cargo_git_source lib source =
     (let trimmed = str_trim source
      in if \<not> starts_with (to_ascii_lowercase trimmed) ''git+'' then None
         else remote_dependency_source_match_value lib trimmed)"

definition cargo_lock_git_sources :: "lockfile_lib \<Rightarrow> string \<Rightarrow> string list option" where
  "cargo_lock_git_sources lib content =
     map_option (List.map_filter (\<lambda>p. Option.bind (Option.bind (toml_get p ''source'') toml_str) (remote_cargo_git_source lib)))
       (lock_packages lib content)"

definition poetry_source_url :: "lockfile_lib \<Rightarrow> toml_value \<Rightarrow> string option" where
  "poetry_source_url lib source =
     (case source of
        TV_Table t \<Rightarrow> Option.bind (Option.bind (map_of t ''url'') toml_str) (remote_dependency_source_match_value lib)
      | x \<Rightarrow> None)"

definition poetry_lock_sources :: "lockfile_lib \<Rightarrow> string \<Rightarrow> string list option" where
  "poetry_lock_sources lib content =
     (case lock_packages lib content of
        None \<Rightarrow> None
      | Some packages \<Rightarrow>
          let sources = List.map_filter (\<lambda>p. toml_get p ''source'') packages
          in if sources = [] then None else Some (List.map_filter (poetry_source_url lib) sources))"

definition uv_git_source :: "lockfile_lib \<Rightarrow> toml_value \<Rightarrow> string option" where
  "uv_git_source lib source =
     (case source of
        TV_Table t \<Rightarrow> Option.bind (Option.bind (map_of t ''git'') toml_str) (remote_dependency_source_match_value lib)
      | TV_String s \<Rightarrow>
          if starts_with (to_ascii_lowercase (str_trim s)) ''git+'' then remote_dependency_source_match_value lib s else None
      | x \<Rightarrow> None)"

definition uv_lock_git_sources :: "lockfile_lib \<Rightarrow> string \<Rightarrow> string list option" where
  "uv_lock_git_sources lib content =
     map_option (\<lambda>packages. List.map_filter (uv_git_source lib) (List.map_filter (\<lambda>p. toml_get p ''source'') packages))
       (lock_packages lib content)"

section \<open>Findings\<close>

definition lockfile_findings_for_sources ::
    "lockfile_lib \<Rightarrow> string \<Rightarrow> string \<Rightarrow> string \<Rightarrow> string list \<Rightarrow> finding list" where
  "lockfile_findings_for_sources lib path rule reason_text sources =
     (case filter (\<lambda>s. \<not> is_common_lockfile_source lib s) sources of
        [] \<Rightarrow> []
      | s # ss \<Rightarrow>
          [build_with rule SupplyChain
             [Set_severity Low, Set_action Log, Set_evidence_kind Context, Set_artifact Lockfile (Some path),
              Set_matched_on (ReferencedFile path), Set_match_value s,
              Set_reason (reason_text @ '' from a non-standard remote source'')]])"

text \<open>The two patterns of \<open>analyze_lockfile\<close>.\<close>

datatype lockfile_pattern = Json_Key string | Pattern_Matches "string \<Rightarrow> bool"

definition analyze_lockfile ::
    "lockfile_lib \<Rightarrow> string \<Rightarrow> string \<Rightarrow> string \<Rightarrow> lockfile_pattern \<Rightarrow> string \<Rightarrow> finding list" where
  "analyze_lockfile lib path content rule pattern reason_text =
     lockfile_findings_for_sources lib path rule reason_text
       (case pattern of
          Json_Key key \<Rightarrow> remote_urls_for_json_key lib content key
        | Pattern_Matches is_match \<Rightarrow> if is_match content then extract_http_urls lib content else [])"

definition analyze_package_lock :: "lockfile_lib \<Rightarrow> string \<Rightarrow> string \<Rightarrow> finding list" where
  "analyze_package_lock lib path content =
     analyze_lockfile lib path content ''LOCKFILE_PACKAGE_REMOTE_TARBALL'' (Json_Key ''resolved'')
       ''package-lock resolves dependencies from remote tarballs''"

definition analyze_pipfile_lock :: "lockfile_lib \<Rightarrow> string \<Rightarrow> string \<Rightarrow> finding list" where
  "analyze_pipfile_lock lib path content =
     lockfile_findings_for_sources lib path ''LOCKFILE_PIPFILE_REMOTE_SOURCE''
       ''Pipfile.lock references remote dependency sources'' (pipfile_lock_sources lib content)"

text \<open>Structured sources where the file has them, a pattern over its text where it has not.\<close>

definition analyze_toml_lock ::
    "lockfile_lib \<Rightarrow> string \<Rightarrow> string \<Rightarrow> string \<Rightarrow> string \<Rightarrow> (string \<Rightarrow> bool) \<Rightarrow> string list option \<Rightarrow> finding list" where
  "analyze_toml_lock lib path content rule reason_text is_match sources =
     (case sources of
        None \<Rightarrow> analyze_lockfile lib path content rule (Pattern_Matches is_match) reason_text
      | Some s \<Rightarrow> lockfile_findings_for_sources lib path rule reason_text s)"

definition analyze_cargo_lock :: "lockfile_lib \<Rightarrow> string \<Rightarrow> string \<Rightarrow> finding list" where
  "analyze_cargo_lock lib path content =
     analyze_toml_lock lib path content ''LOCKFILE_CARGO_GIT_SOURCE'' ''Cargo.lock references git-based dependency sources''
       (lk_cargo_git_source lib) (cargo_lock_git_sources lib content)"

definition analyze_poetry_lock :: "lockfile_lib \<Rightarrow> string \<Rightarrow> string \<Rightarrow> finding list" where
  "analyze_poetry_lock lib path content =
     analyze_toml_lock lib path content ''LOCKFILE_POETRY_URL_SOURCE'' ''poetry.lock references URL-based dependency sources''
       (lk_poetry_url_source lib) (poetry_lock_sources lib content)"

definition analyze_uv_lock :: "lockfile_lib \<Rightarrow> string \<Rightarrow> string \<Rightarrow> finding list" where
  "analyze_uv_lock lib path content =
     analyze_toml_lock lib path content ''LOCKFILE_UV_GIT_SOURCE'' ''uv.lock references git-based dependency sources''
       (lk_uv_git_source lib) (uv_lock_git_sources lib content)"

definition analyze_yarn_lock :: "lockfile_lib \<Rightarrow> string \<Rightarrow> string \<Rightarrow> finding list" where
  "analyze_yarn_lock lib path content =
     analyze_lockfile lib path content ''LOCKFILE_YARN_REMOTE_TARBALL'' (Pattern_Matches (lk_yarn_remote_tarball lib))
       ''yarn.lock resolves dependencies from remote tarballs''"

definition analyze_pnpm_lock :: "lockfile_lib \<Rightarrow> string \<Rightarrow> string \<Rightarrow> finding list" where
  "analyze_pnpm_lock lib path content =
     analyze_lockfile lib path content ''LOCKFILE_PNPM_REMOTE_TARBALL'' (Pattern_Matches (lk_pnpm_remote_tarball lib))
       ''pnpm lockfile references remote tarballs''"

section \<open>Capability and relation\<close>

definition is_lockfile_source_delimiter :: "string \<Rightarrow> bool" where
  "is_lockfile_source_delimiter ch \<longleftrightarrow>
     is_whitespace ch \<or> ch \<in> {[CHR 0x22], [CHR 0x27], '','', ''{'', ''}'', ''['', '']'', ''('', '')''}"

fun split_chars :: "(string \<Rightarrow> bool) \<Rightarrow> string list \<Rightarrow> string list" where
  "split_chars sep [] = [[]]"
| "split_chars sep (ch # chs) =
     (if sep ch then [] # split_chars sep chs
      else (case split_chars sep chs of p # ps \<Rightarrow> (ch @ p) # ps | [] \<Rightarrow> [ch]))"

definition lockfile_mentions_remote_source :: "string \<Rightarrow> bool" where
  "lockfile_mentions_remote_source content =
     (let lower = to_ascii_lowercase content
      in str_contains lower ''http://'' \<or> str_contains lower ''https://''
         \<or> list_ex (str_contains lower) REMOTE_NON_HTTP_GIT_SOURCE_PREFIXES
         \<or> list_ex (\<lambda>token. is_scp_like_git_source (git_transport (to_ascii_lowercase (str_trim token))))
             (split_chars is_lockfile_source_delimiter (str_chars content)))"

definition lockfile_capabilities :: "string \<Rightarrow> artifact_capability_fact list" where
  "lockfile_capabilities content =
     (if lockfile_mentions_remote_source content
      then [\<lparr>fact_capability = NetworkAccess, fact_source = Declared\<rparr>] else [])"

definition lockfile_relations :: "string \<Rightarrow> artifact_link list" where
  "lockfile_relations content =
     (if lockfile_mentions_remote_source content
      then [\<lparr>link_target = ''registry'', link_relation = ConnectsTo\<rparr>] else [])"

text \<open>The lockfile branches of the dispatch.\<close>

definition lockfile_detector :: "lockfile_lib \<Rightarrow> detector \<Rightarrow> (string \<Rightarrow> string \<Rightarrow> finding list) option" where
  "lockfile_detector lib d =
     (case d of
        Package_lock \<Rightarrow> Some (analyze_package_lock lib) | Cargo_lock \<Rightarrow> Some (analyze_cargo_lock lib)
      | Poetry_lock \<Rightarrow> Some (analyze_poetry_lock lib) | Pipfile_lock \<Rightarrow> Some (analyze_pipfile_lock lib)
      | Uv_lock \<Rightarrow> Some (analyze_uv_lock lib) | Yarn_lock \<Rightarrow> Some (analyze_yarn_lock lib)
      | Pnpm_lock \<Rightarrow> Some (analyze_pnpm_lock lib) | x \<Rightarrow> None)"

definition with_lockfile_detectors :: "lockfile_lib \<Rightarrow> finding detectors \<Rightarrow> finding detectors" where
  "with_lockfile_detectors lib ds =
     ds\<lparr>run_detector := (\<lambda>d path content siblings doc.
          case lockfile_detector lib d of
            Some f \<Rightarrow> f path content | None \<Rightarrow> run_detector ds d path content siblings doc),
        run_relations := (\<lambda>d content. if d = Any_lockfile then lockfile_relations content else run_relations ds d content),
        run_capabilities := (\<lambda>d content. if d = Any_lockfile then lockfile_capabilities content
          else run_capabilities ds d content)\<rparr>"

section \<open>Entries of a JSON document\<close>

inductive json_entry :: "json \<Rightarrow> string \<Rightarrow> string \<Rightarrow> bool" where
  member: "(k, JString s) \<in> set members \<Longrightarrow> json_entry (JObject members) k s"
| below_object: "(m, v) \<in> set members \<Longrightarrow> json_entry v k s \<Longrightarrow> json_entry (JObject members) k s"
| below_array: "v \<in> set vs \<Longrightarrow> json_entry v k s \<Longrightarrow> json_entry (JArray vs) k s"

lemma as_str_Some: "as_str v = Some s \<longleftrightarrow> v = JString s"
  by (cases v) auto

lemma json_entry_visited: "json_entry j k s \<Longrightarrow> (k, s) \<in> set (json_strings j)"
  by (induction rule: json_entry.induct) (force simp: as_str_Some)+

lemma visited_json_entry: "(k, s) \<in> set (json_strings j) \<Longrightarrow> json_entry j k s"
proof (induction j)
  case (JObject members)
  then obtain m v where mv: "(m, v) \<in> set members" "(k, s) \<in> set (json_strings v) \<or> as_str v = Some s \<and> m = k"
    by (auto split: option.splits)
  then show ?case
    using JObject.IH [of "(m, v)" v] by (auto simp: as_str_Some intro: json_entry.intros)
next
  case (JArray vs)
  then show ?case by (auto intro: json_entry.intros)
qed simp_all

lemma json_strings_iff: "(k, s) \<in> set (json_strings j) \<longleftrightarrow> json_entry j k s"
  using json_entry_visited visited_json_entry by blast

section \<open>Remotes in scp form\<close>

lemma str_find_char: "c \<notin> set a \<Longrightarrow> str_find (a @ c # b) [c] = Some (length a)"
  by (induction a) auto

lemma str_find_char_split: "str_find v [c] = Some i \<Longrightarrow> v = take i v @ c # drop (i + 1) v"
  using str_find_Some [of v "[c]" i]
  by (metis Suc_eq_plus1 append_take_drop_id drop_Suc prefix_def append_Cons append_Nil list.sel(3) tl_drop)

text \<open>Exactly \<open>user@host:path\<close> with a dotted host or a path to a git repository.\<close>

lemma scp_like_iff:
  "is_scp_like_git_source v \<longleftrightarrow>
     (\<exists>user host path. v = user @ CHR ''@'' # host @ CHR '':'' # path \<and> user \<noteq> [] \<and> host \<noteq> []
        \<and> list_all is_scp_user_host_byte user \<and> list_all is_scp_user_host_byte host
        \<and> str_trim path \<noteq> [] \<and> (CHR ''.'' \<in> set host \<or> ends_with (str_trim path) ''.git''))"
proof
  assume scp: "is_scp_like_git_source v"
  then obtain i where i: "str_find v '':'' = Some i" by (auto simp: is_scp_like_git_source_def split: option.splits)
  with scp obtain j where j: "str_find (take i v) ''@'' = Some j"
    by (auto simp: is_scp_like_git_source_def Let_def split: option.splits if_splits)
  have "v = take i v @ CHR '':'' # drop (i + 1) v" by (rule str_find_char_split [OF i])
  also have "take i v = take j (take i v) @ CHR ''@'' # drop (j + 1) (take i v)" by (rule str_find_char_split [OF j])
  finally have "v = take j (take i v) @ CHR ''@'' # drop (j + 1) (take i v) @ CHR '':'' # drop (i + 1) v" by simp
  then show "\<exists>user host path. v = user @ CHR ''@'' # host @ CHR '':'' # path \<and> user \<noteq> [] \<and> host \<noteq> []
        \<and> list_all is_scp_user_host_byte user \<and> list_all is_scp_user_host_byte host
        \<and> str_trim path \<noteq> [] \<and> (CHR ''.'' \<in> set host \<or> ends_with (str_trim path) ''.git'')"
    using scp i j
    by (intro exI [of _ "take j (take i v)"] exI [of _ "drop (j + 1) (take i v)"] exI [of _ "drop (i + 1) v"])
       (simp add: is_scp_like_git_source_def Let_def split: if_splits)
next
  assume "\<exists>user host path. v = user @ CHR ''@'' # host @ CHR '':'' # path \<and> user \<noteq> [] \<and> host \<noteq> []
        \<and> list_all is_scp_user_host_byte user \<and> list_all is_scp_user_host_byte host
        \<and> str_trim path \<noteq> [] \<and> (CHR ''.'' \<in> set host \<or> ends_with (str_trim path) ''.git'')"
  then obtain user host path where v: "v = (user @ CHR ''@'' # host) @ CHR '':'' # path"
    and parts: "user \<noteq> []" "host \<noteq> []" "list_all is_scp_user_host_byte user" "list_all is_scp_user_host_byte host"
      "str_trim path \<noteq> []" "CHR ''.'' \<in> set host \<or> ends_with (str_trim path) ''.git''" by auto
  have byte: "\<not> is_scp_user_host_byte CHR '':''" "\<not> is_scp_user_host_byte CHR ''@''" "\<not> is_scp_user_host_byte CHR ''/''"
    by (simp_all add: is_scp_user_host_byte_def ascii_alnum_def byte_of_def)
  then have free: "CHR '':'' \<notin> set (user @ CHR ''@'' # host)" "CHR ''@'' \<notin> set user" "CHR ''/'' \<notin> set (user @ CHR ''@'' # host)"
    using parts(3,4) by (auto simp: list_all_iff)
  have "str_find v '':'' = Some (length (user @ CHR ''@'' # host))" unfolding v by (rule str_find_char [OF free(1)])
  moreover have "take (length (user @ CHR ''@'' # host)) v = user @ CHR ''@'' # host"
    "drop (length (user @ CHR ''@'' # host) + 1) v = path" by (simp_all add: v)
  moreover have "str_find (user @ CHR ''@'' # host) ''@'' = Some (length user)" by (rule str_find_char [OF free(2)])
  ultimately show "is_scp_like_git_source v"
    using parts free(3) by (simp add: is_scp_like_git_source_def)
qed

section \<open>Properties\<close>

lemma list_ex_map_filter:
  "list_ex P (List.map_filter f xs) \<longleftrightarrow> (\<exists>x \<in> set xs. case f x of None \<Rightarrow> False | Some u \<Rightarrow> P u)"
  by (induction xs) (auto simp: map_filter_simps split: option.split)

lemma findings_for_sources:
  "lockfile_findings_for_sources lib path rule r sources \<noteq> [] \<longleftrightarrow> list_ex (\<lambda>s. \<not> is_common_lockfile_source lib s) sources"
  "length (lockfile_findings_for_sources lib path rule r sources) \<le> 1
   \<and> list_all (\<lambda>f. f_severity f = Low \<and> f_action f = Log \<and> match_value f \<in> set sources
       \<and> \<not> is_common_lockfile_source lib (match_value f)) (lockfile_findings_for_sources lib path rule r sources)"
proof -
  have "lockfile_findings_for_sources lib path rule r sources \<noteq> []
      \<longleftrightarrow> filter (\<lambda>s. \<not> is_common_lockfile_source lib s) sources \<noteq> []"
    by (simp add: lockfile_findings_for_sources_def split: list.split)
  then show "lockfile_findings_for_sources lib path rule r sources \<noteq> []
      \<longleftrightarrow> list_ex (\<lambda>s. \<not> is_common_lockfile_source lib s) sources"
    by (simp add: filter_empty_conv list_ex_iff)
  show "length (lockfile_findings_for_sources lib path rule r sources) \<le> 1
   \<and> list_all (\<lambda>f. f_severity f = Low \<and> f_action f = Log \<and> match_value f \<in> set sources
       \<and> \<not> is_common_lockfile_source lib (match_value f)) (lockfile_findings_for_sources lib path rule r sources)"
    by (auto simp: lockfile_findings_for_sources_def build_with_def build_def case_prod_unfold builder_new_def Let_def
        filter_eq_Cons_iff split: list.split)
qed


text \<open>
  The capability and the relation look at the text, the findings at the parsed document: with escaped slashes a
  remote tarball is reported but leaves no trace in the artifact graph.
\<close>

lemma escaped_url_has_no_capability:
  assumes "lk_json lib content = Inr (JObject [(''resolved'', JString url)])"
    and "content = [CHR 0x22] @ ''https:'' @ [CHR 0x5C, CHR ''/'', CHR 0x5C] @ ''/e.co'' @ [CHR 0x22]"
    and "lk_http_url lib url = [\<lparr>pm_start = 0, pm_text = url\<rparr>]" "url = ''https://e.co''" "lk_url_host lib url = Some ''e.co''"
  shows "analyze_package_lock lib path content \<noteq> []" "lockfile_capabilities content = []" "lockfile_relations content = []"
proof -
  have "\<not> is_common_lockfile_source lib url"
    using assms(5) by (simp add: is_common_lockfile_source_def COMMON_LOCKFILE_HOSTS_def host_matches_url_def
        eq_ignore_ascii_case_def to_ascii_lowercase_def)
  moreover have "extract_http_urls lib url = [url]"
    using assms(3,4) by (simp add: extract_http_urls_def URL_TRIM_TRAILING_def)
  ultimately show "analyze_package_lock lib path content \<noteq> []"
    unfolding analyze_package_lock_def analyze_lockfile_def findings_for_sources(1)
    using assms(1) by (simp add: remote_urls_for_json_key_def)
  have "\<not> lockfile_mentions_remote_source content"
    unfolding assms(2) by code_simp
  then show "lockfile_capabilities content = []" "lockfile_relations content = []"
    by (simp_all add: lockfile_capabilities_def lockfile_relations_def)
qed

end
