(* ===== verification/Config_Manifests.thy ===== *)
theory Config_Manifests
  imports Shell_Commands Lockfiles
begin

text \<open>
  The detectors for package manager configuration and for npm and pip manifests:
  \<open>detectors/manifests/javascript/npmrc.rs\<close>, \<open>package_json.rs\<close>, \<open>detectors/manifests/python/pip_conf.rs\<close>,
  \<open>requirements.rs\<close>, with \<open>detectors/manifests/mod.rs\<close>, \<open>version_pin.rs\<close> and the comment helpers of
  \<open>services/artifact_orchestration/manifests/mod.rs\<close>. The JSON and URL parsers and the URL regex are parameters.
\<close>

section \<open>Shared helpers\<close>

fun strip_hash_from :: "bool \<Rightarrow> string \<Rightarrow> string" where
  "strip_hash_from prev_is_boundary [] = []"
| "strip_hash_from prev_is_boundary (b # bs) =
     (if b = CHR 0x23 \<and> prev_is_boundary then [] else b # strip_hash_from (ascii_whitespace_byte b) bs)"

definition strip_inline_hash_comment :: "string \<Rightarrow> string" where
  "strip_inline_hash_comment line = strip_hash_from True line"

definition strip_inline_ini_comment :: "string \<Rightarrow> string" where
  "strip_inline_ini_comment line = takeWhile (\<lambda>c. c \<noteq> CHR 0x23 \<and> c \<noteq> CHR '';'') line"

definition sibling_has_file :: "string list \<Rightarrow> string \<Rightarrow> bool" where
  "sibling_has_file siblings name =
     list_ex (\<lambda>f. case path_file_name f of None \<Rightarrow> False | Some n \<Rightarrow> eq_ignore_ascii_case n name) siblings"

definition manifest_finding ::
    "string \<Rightarrow> threat_category \<Rightarrow> severity \<Rightarrow> recommended_action \<Rightarrow> evidence_kind \<Rightarrow> string \<Rightarrow> string \<Rightarrow> string \<Rightarrow> finding" where
  "manifest_finding rule cat sev act ek path value reason_text =
     build_with rule cat
       [Set_severity sev, Set_action act, Set_evidence_kind ek, Set_artifact PackageManifest (Some path),
        Set_matched_on (ReferencedFile path), Set_match_value value, Set_reason reason_text]"

definition manifest_unpinned_dep_finding :: "string \<Rightarrow> string \<Rightarrow> string \<Rightarrow> string \<Rightarrow> finding" where
  "manifest_unpinned_dep_finding rule path value reason_text =
     manifest_finding rule SupplyChain Low Log Context path value reason_text"

definition manifest_parse_failure_finding :: "string \<Rightarrow> string \<Rightarrow> string \<Rightarrow> string \<Rightarrow> finding" where
  "manifest_parse_failure_finding rule path detail reason_text =
     manifest_finding rule Generic Low Log Context path detail reason_text"

definition missing_lockfile_findings :: "string \<Rightarrow> string list \<Rightarrow> string list \<Rightarrow> string \<Rightarrow> string \<Rightarrow> finding list" where
  "missing_lockfile_findings path siblings expected rule reason_text =
     (if list_ex (sibling_has_file siblings) expected then []
      else [manifest_finding rule SupplyChain Low Log Context path (join_with '', '' expected) reason_text])"

definition declared_capability :: "artifact_capability \<Rightarrow> artifact_capability_fact" where
  "declared_capability c = \<lparr>fact_capability = c, fact_source = Declared\<rparr>"

definition observed_capability :: "artifact_capability \<Rightarrow> artifact_capability_fact" where
  "observed_capability c = \<lparr>fact_capability = c, fact_source = Observed\<rparr>"

text \<open>\<open>split_once\<close> with the rest optional.\<close>

definition split_once_optional :: "string \<Rightarrow> char \<Rightarrow> string \<times> string option" where
  "split_once_optional v d =
     (case str_find v [d] of None \<Rightarrow> (v, None) | Some i \<Rightarrow> (take i v, Some (drop (i + 1) v)))"

definition is_dotted_alnum_hyphen_list :: "string \<Rightarrow> bool" where
  "is_dotted_alnum_hyphen_list v \<longleftrightarrow>
     v \<noteq> [] \<and> list_all (\<lambda>p. p \<noteq> [] \<and> list_all (\<lambda>b. ascii_alnum b \<or> b = CHR ''-'') p) (split_on CHR ''.'' v)"

definition is_exact_dotted_version_pin :: "string \<Rightarrow> bool" where
  "is_exact_dotted_version_pin version =
     (case split_once_optional version CHR ''+'' of
        (without_build, build_meta) \<Rightarrow>
          if (case build_meta of None \<Rightarrow> False | Some v \<Rightarrow> \<not> is_dotted_alnum_hyphen_list v) then False
          else
            (case split_once_optional without_build CHR ''-'' of
               (core, prerelease) \<Rightarrow>
                 if (case prerelease of None \<Rightarrow> False | Some v \<Rightarrow> \<not> is_dotted_alnum_hyphen_list v) then False
                 else (case split_on CHR ''.'' core of
                         [major, minor, patch] \<Rightarrow> list_all numeric_component [major, minor, patch]
                       | parts \<Rightarrow> False)))"

section \<open>.npmrc\<close>

record config_url =
  cu_scheme :: string
  cu_host :: "string option"
  cu_path :: string
  cu_query :: "string option"
  cu_fragment :: "string option"

definition ini_code_lines :: "string \<Rightarrow> string list" where
  "ini_code_lines content =
     filter (\<lambda>l. l \<noteq> []) (map (\<lambda>l. str_trim (strip_inline_ini_comment l)) (str_lines content))"

definition NPMRC_CREDENTIAL_TOKENS :: "string list" where
  "NPMRC_CREDENTIAL_TOKENS = [''_authtoken='', ''_password='', ''_auth='']"

definition npmrc_line_embeds_credential :: "string \<Rightarrow> bool" where
  "npmrc_line_embeds_credential line = list_ex (str_contains (to_ascii_lowercase line)) NPMRC_CREDENTIAL_TOKENS"

definition redact_npmrc_auth_token :: "string \<Rightarrow> string" where
  "redact_npmrc_auth_token line =
     (case str_find line ''='' of
        None \<Rightarrow> ''_authToken=<redacted>'' | Some i \<Rightarrow> str_trim (take i line) @ ''=<redacted>'')"

definition starts_with_http_scheme :: "string \<Rightarrow> bool" where
  "starts_with_http_scheme v =
     (let lower = to_ascii_lowercase v in starts_with lower ''http://'' \<or> starts_with lower ''https://'')"

definition is_default_npm_registry :: "(string \<Rightarrow> config_url option) \<Rightarrow> string \<Rightarrow> bool" where
  "is_default_npm_registry parse_url v =
     (case parse_url v of
        None \<Rightarrow> False
      | Some u \<Rightarrow> cu_scheme u = ''https''
          \<and> (case cu_host u of None \<Rightarrow> False | Some h \<Rightarrow> eq_ignore_ascii_case h ''registry.npmjs.org'')
          \<and> cu_path u = ''/'' \<and> cu_query u = None \<and> cu_fragment u = None)"

definition npmrc_registry_directive :: "(string \<Rightarrow> config_url option) \<Rightarrow> string \<Rightarrow> (string \<times> string) option" where
  "npmrc_registry_directive parse_url line =
     (case str_find line ''='' of
        None \<Rightarrow> None
      | Some i \<Rightarrow>
          let key = str_trim (take i line); v = str_trim (drop (i + 1) line); key_lower = to_ascii_lowercase key;
              is_registry_key = (key_lower = ''registry'' \<or> ends_with key_lower '':registry'')
          in if is_registry_key \<and> starts_with_http_scheme v \<and> \<not> is_default_npm_registry parse_url v
             then Some (key, v) else None)"

definition npmrc_token_finding :: "string \<Rightarrow> string \<Rightarrow> finding" where
  "npmrc_token_finding path line =
     manifest_finding ''MANIFEST_NPMRC_EMBEDDED_TOKEN'' CredentialExposure High Block Behavior path
       (redact_npmrc_auth_token line) ''npm configuration embeds a registry authentication credential''"

definition npmrc_has_registry :: "(string \<Rightarrow> config_url option) \<Rightarrow> string \<Rightarrow> bool" where
  "npmrc_has_registry parse_url content = list_ex (\<lambda>l. npmrc_registry_directive parse_url l \<noteq> None) (ini_code_lines content)"

definition npmrc_has_token :: "string \<Rightarrow> bool" where
  "npmrc_has_token content = list_ex npmrc_line_embeds_credential (ini_code_lines content)"

definition analyze_npmrc :: "(string \<Rightarrow> config_url option) \<Rightarrow> string \<Rightarrow> string \<Rightarrow> finding list" where
  "analyze_npmrc parse_url path content =
     map (npmrc_token_finding path) (filter npmrc_line_embeds_credential (ini_code_lines content))
     @ (if npmrc_has_registry parse_url content
        then [manifest_finding ''MANIFEST_NPMRC_CUSTOM_REGISTRY'' SupplyChain Medium RequireApproval Context path
                ''registry'' ''npm configuration overrides the default registry'']
        else [])"

definition npmrc_capabilities :: "(string \<Rightarrow> config_url option) \<Rightarrow> string \<Rightarrow> artifact_capability_fact list" where
  "npmrc_capabilities parse_url content =
     (if npmrc_has_token content then [declared_capability SecretAccess] else [])
     @ (if npmrc_has_registry parse_url content then [declared_capability NetworkAccess] else [])"

definition npmrc_relations :: "(string \<Rightarrow> config_url option) \<Rightarrow> string \<Rightarrow> artifact_link list" where
  "npmrc_relations parse_url content =
     (if npmrc_has_token content then [\<lparr>link_target = ''credential-store'', link_relation = AccessesSecrets\<rparr>] else [])
     @ (if npmrc_has_registry parse_url content
        then [\<lparr>link_target = ''package-registry'', link_relation = ConnectsTo\<rparr>] else [])"

section \<open>pip.conf\<close>

definition pip_conf_key_is :: "string \<Rightarrow> string \<Rightarrow> bool" where
  "pip_conf_key_is line expected =
     (case str_find line ''='' of None \<Rightarrow> False | Some i \<Rightarrow> eq_ignore_ascii_case (str_trim (take i line)) expected)"

definition pip_conf_key_in :: "string \<Rightarrow> string list \<Rightarrow> bool" where
  "pip_conf_key_in line expected = list_ex (pip_conf_key_is line) expected"

definition pip_conf_line_finding :: "string \<Rightarrow> string \<Rightarrow> finding option" where
  "pip_conf_line_finding path line =
     (if pip_conf_key_is line ''index-url''
      then Some (manifest_finding ''MANIFEST_PIP_CONF_INDEX_URL'' SupplyChain Medium RequireApproval Context path line
                   ''pip configuration replaces the default package index'')
      else if pip_conf_key_is line ''extra-index-url''
      then Some (manifest_finding ''MANIFEST_PIP_CONF_EXTRA_INDEX'' SupplyChain Medium RequireApproval Context path line
                   ''pip configuration adds an extra package index'')
      else None)"

definition analyze_pip_conf :: "string \<Rightarrow> string \<Rightarrow> finding list" where
  "analyze_pip_conf path content =
     List.map_filter (pip_conf_line_finding path) (ini_code_lines content)
     @ (if list_ex (\<lambda>l. pip_conf_key_is l ''trusted-host'') (ini_code_lines content)
        then [manifest_finding ''MANIFEST_PIP_CONF_TRUSTED_HOST'' SupplyChain Medium RequireApproval Context path
                ''trusted-host'' ''pip configuration trusts a custom package host'']
        else [])"

definition pip_conf_has_index :: "string \<Rightarrow> bool" where
  "pip_conf_has_index content = list_ex (\<lambda>l. pip_conf_key_in l [''extra-index-url'', ''index-url'']) (ini_code_lines content)"

definition pip_conf_has_client_cert :: "string \<Rightarrow> bool" where
  "pip_conf_has_client_cert content = list_ex (\<lambda>l. pip_conf_key_is l ''client-cert'') (ini_code_lines content)"

definition pip_conf_capabilities :: "string \<Rightarrow> artifact_capability_fact list" where
  "pip_conf_capabilities content =
     (if pip_conf_has_index content then [declared_capability NetworkAccess] else [])
     @ (if pip_conf_has_client_cert content then [declared_capability SecretAccess] else [])"

definition pip_conf_relations :: "string \<Rightarrow> artifact_link list" where
  "pip_conf_relations content =
     (if pip_conf_has_index content then [\<lparr>link_target = ''package-index'', link_relation = ConnectsTo\<rparr>] else [])
     @ (if pip_conf_has_client_cert content
        then [\<lparr>link_target = ''client-cert'', link_relation = AccessesSecrets\<rparr>] else [])"

section \<open>requirements.txt\<close>

definition PYTHON_NETWORK_DEPS :: "string list" where
  "PYTHON_NETWORK_DEPS =
     [''requests'', ''httpx'', ''aiohttp'', ''urllib3'', ''paramiko'', ''grpcio'', ''websockets'', ''tornado'']"

definition PYTHON_EXEC_DEPS :: "string list" where
  "PYTHON_EXEC_DEPS = [''subprocess32'', ''pexpect'', ''fabric'', ''invoke'']"

definition is_direct_url_requirement :: "string \<Rightarrow> bool" where
  "is_direct_url_requirement line \<longleftrightarrow>
     has_python_vcs_prefix line \<or> starts_with_ignore_ascii_case line ''http://'' \<or> starts_with_ignore_ascii_case line ''https://''"

definition is_requirements_directive :: "string \<Rightarrow> bool" where
  "is_requirements_directive line =
     (case split_whitespace line of
        [] \<Rightarrow> False
      | tok # toks \<Rightarrow> tok = ''-r'' \<or> tok = ''-c'' \<or> starts_with_ignore_ascii_case tok ''--requirement'' \<or> starts_with tok ''--'')"

definition analyze_requirements_txt :: "string \<Rightarrow> string \<Rightarrow> finding list" where
  "analyze_requirements_txt path content =
     map (\<lambda>l. manifest_unpinned_dep_finding ''MANIFEST_REQUIREMENTS_UNPINNED_DEP'' path l
                ''Python requirement is not strictly pinned'')
       (filter (\<lambda>l. l \<noteq> [] \<and> \<not> is_requirements_directive l \<and> \<not> is_direct_url_requirement l
                  \<and> \<not> str_contains l ''=='' \<and> \<not> str_contains l ''~='')
          (map (\<lambda>l. str_trim (strip_inline_hash_comment l)) (str_lines content)))"

definition requirement_capabilities :: "string \<Rightarrow> artifact_capability_fact list" where
  "requirement_capabilities raw_line =
     (let trimmed = str_trim raw_line;
          line = (if has_python_vcs_prefix trimmed then trimmed else str_trim (strip_inline_hash_comment raw_line))
      in if line = [] then []
         else (case parse_python_dep_name line of
                 None \<Rightarrow> []
               | Some dep \<Rightarrow>
                   (if dep \<in> set PYTHON_NETWORK_DEPS then [observed_capability NetworkAccess] else [])
                   @ (if dep \<in> set PYTHON_EXEC_DEPS then [observed_capability ProcessExecution] else [])))"

text \<open>The order \<open>ArtifactCapability\<close> derives: that of its variants.\<close>

definition capability_position :: "artifact_capability \<Rightarrow> nat" where
  "capability_position c =
     length (takeWhile (\<lambda>d. d \<noteq> c)
       [BrowserAccess, NetworkAccess, InstallExecution, ExposesBinary, PrivilegedRuntime, HostFilesystemAccess,
        ProcessExecution, SecretAccess, PersistenceSurface, FilesystemWrite, IdentityAccess, InboundNetworkSurface])"

fun dedup_by_kind :: "artifact_capability_fact list \<Rightarrow> artifact_capability_fact list" where
  "dedup_by_kind (f # g # fs) =
     (if fact_capability f = fact_capability g then dedup_by_kind (f # fs) else f # dedup_by_kind (g # fs))"
| "dedup_by_kind fs = fs"

definition dedup_capabilities_by_kind :: "artifact_capability_fact list \<Rightarrow> artifact_capability_fact list" where
  "dedup_capabilities_by_kind facts = dedup_by_kind (sort_key (\<lambda>f. capability_position (fact_capability f)) facts)"

definition requirements_txt_capabilities :: "string \<Rightarrow> artifact_capability_fact list" where
  "requirements_txt_capabilities content =
     dedup_capabilities_by_kind (concat (map requirement_capabilities (str_lines content)))"

section \<open>package.json\<close>

definition NPM_INSTALL_HOOKS :: "string list" where
  "NPM_INSTALL_HOOKS = [''preinstall'', ''install'', ''postinstall'', ''prepare'', ''prepublishOnly'', ''postpublish'']"

definition INSTALL_HOOK_NETWORK_COMMAND_TOKENS :: "string list" where
  "INSTALL_HOOK_NETWORK_COMMAND_TOKENS =
     [''curl'', ''wget'', ''invoke-webrequest'', ''iwr'', ''invoke-restmethod'', ''irm'']"

definition INSTALL_HOOK_EXEC_COMMAND_ARGS :: "(string \<times> string) list" where
  "INSTALL_HOOK_EXEC_COMMAND_ARGS = [(''bash'', ''-c''), (''sh'', ''-c''), (''python'', ''-c''), (''node'', ''-e'')]"

definition package_json_install_hook_has_network :: "string \<Rightarrow> bool" where
  "package_json_install_hook_has_network command =
     (let lower = to_ascii_lowercase command
      in list_ex (\<lambda>line. list_ex (line_contains_command_token line) INSTALL_HOOK_NETWORK_COMMAND_TOKENS) (str_lines lower)
         \<or> str_contains lower ''http://'' \<or> str_contains lower ''https://'')"

definition package_json_install_hook_is_risky :: "string \<Rightarrow> bool" where
  "package_json_install_hook_is_risky command =
     (let lower = to_ascii_lowercase command
      in package_json_install_hook_has_network command
         \<or> list_ex (\<lambda>line. line_contains_command_token line ''powershell'') (str_lines lower)
         \<or> list_ex (\<lambda>line. list_ex (\<lambda>(c, a). line_invokes_command_with_arg line c a) INSTALL_HOOK_EXEC_COMMAND_ARGS)
             (str_lines lower))"

definition is_unpinned_npm_version :: "string \<Rightarrow> bool" where
  "is_unpinned_npm_version version =
     (let trimmed = str_trim version
      in if trimmed = [] then True
         else \<not> is_exact_dotted_version_pin (case strip_prefix trimmed ''='' of Some v \<Rightarrow> v | None \<Rightarrow> trimmed))"

definition package_json_bin_is_exposed :: "json \<Rightarrow> bool" where
  "package_json_bin_is_exposed j =
     (case json_get j ''bin'' of
        Some (JString s) \<Rightarrow> str_trim s \<noteq> [] | Some (JObject members) \<Rightarrow> members \<noteq> [] | x \<Rightarrow> False)"

definition package_json_expected_lockfiles :: "(string \<Rightarrow> string + json) \<Rightarrow> string \<Rightarrow> string list" where
  "package_json_expected_lockfiles parse_json content =
     (case parse_json content of
        Inl e \<Rightarrow> []
      | Inr j \<Rightarrow>
          let manager = to_ascii_lowercase (case Option.bind (json_get j ''packageManager'') as_str of Some s \<Rightarrow> s | None \<Rightarrow> [])
          in if starts_with manager ''pnpm@'' then [''pnpm-lock.yaml'']
             else if starts_with manager ''yarn@'' then [''yarn.lock'']
             else if starts_with manager ''npm@'' then [''package-lock.json'', ''npm-shrinkwrap.json'']
             else [''package-lock.json'', ''npm-shrinkwrap.json'', ''yarn.lock'', ''pnpm-lock.yaml''])"

text \<open>The hooks a manifest declares, with their commands.\<close>

definition install_hooks :: "json \<Rightarrow> (string \<times> string) list" where
  "install_hooks j =
     (case json_get j ''scripts'' of
        Some (JObject scripts) \<Rightarrow>
          List.map_filter (\<lambda>hook. map_option (Pair hook) (Option.bind (map_of scripts hook) as_str)) NPM_INSTALL_HOOKS
      | x \<Rightarrow> [])"

definition install_hook_finding :: "string \<Rightarrow> string \<times> string \<Rightarrow> finding" where
  "install_hook_finding path = (\<lambda>(hook, command).
     let risky = package_json_install_hook_is_risky command
     in manifest_finding ''MANIFEST_PACKAGE_JSON_INSTALL_HOOK'' SupplyChain (if risky then Medium else Low)
          (if risky then RequireApproval else Log) (if risky then Behavior else Context) path (hook @ '': '' @ command)
          (if risky then ''Manifest defines an install lifecycle hook that fetches or executes code''
           else ''Manifest defines an install lifecycle hook''))"

definition unpinned_npm_findings :: "string \<Rightarrow> bool \<Rightarrow> json \<Rightarrow> string \<Rightarrow> finding list" where
  "unpinned_npm_findings path has_lockfile j field =
     List.map_filter (\<lambda>(name, version).
         case as_str version of
           None \<Rightarrow> None
         | Some v \<Rightarrow>
             if \<not> has_lockfile \<and> is_unpinned_npm_version v
             then Some (manifest_unpinned_dep_finding ''MANIFEST_PACKAGE_JSON_UNPINNED_DEP'' path (name @ ''@'' @ v)
                          ''Manifest dependency is not strictly pinned'')
             else None) (members_of j field)"

definition analyze_package_json ::
    "(string \<Rightarrow> string + json) \<Rightarrow> string \<Rightarrow> string \<Rightarrow> string list \<Rightarrow> finding list" where
  "analyze_package_json parse_json path content siblings =
     (case parse_json content of
        Inl e \<Rightarrow>
          [manifest_parse_failure_finding ''MANIFEST_PACKAGE_JSON_PARSE_FAILURE'' path e
             ''package.json manifest is not valid JSON; install-hook, bin-exposure and dependency analyses cannot run against this file'']
      | Inr j \<Rightarrow>
          let expected = package_json_expected_lockfiles parse_json content;
              has_lockfile = list_ex (sibling_has_file siblings) expected
          in concat (map (unpinned_npm_findings path has_lockfile j)
               [''dependencies'', ''devDependencies'', ''optionalDependencies''])
             @ map (install_hook_finding path) (install_hooks j)
             @ (if package_json_bin_is_exposed j
                then [manifest_finding ''MANIFEST_PACKAGE_JSON_BIN_EXPOSED'' ScopeCreep Low Log Context path ''bin''
                        ''Manifest exposes executable binaries'']
                else [])
             @ (if expected \<noteq> []
                then missing_lockfile_findings path siblings expected ''MANIFEST_PACKAGE_JSON_MISSING_LOCKFILE''
                       ''JavaScript manifest has no matching nearby lockfile''
                else []))"

definition package_json_capabilities :: "(string \<Rightarrow> string + json) \<Rightarrow> string \<Rightarrow> artifact_capability_fact list" where
  "package_json_capabilities parse_json content =
     (case parse_json content of
        Inl e \<Rightarrow> []
      | Inr j \<Rightarrow>
          (if install_hooks j \<noteq> [] then [declared_capability InstallExecution, declared_capability ProcessExecution] else [])
          @ (if list_ex (\<lambda>(h, c). package_json_install_hook_has_network c) (install_hooks j)
             then [observed_capability NetworkAccess] else [])
          @ (if package_json_bin_is_exposed j then [declared_capability ExposesBinary] else []))"

definition install_hook_links :: "lockfile_lib \<Rightarrow> string \<times> string \<Rightarrow> artifact_link list" where
  "install_hook_links lib = (\<lambda>(hook, command).
     \<lparr>link_target = command, link_relation = Executes\<rparr>
     # (if package_json_install_hook_has_network command
        then (let urls = extract_http_urls lib command
              in if urls = [] then [\<lparr>link_target = ''remote-resource'', link_relation = Downloads\<rparr>]
                 else map (\<lambda>url. \<lparr>link_target = url, link_relation = Downloads\<rparr>) urls)
        else []))"

definition package_json_relations :: "lockfile_lib \<Rightarrow> string \<Rightarrow> artifact_link list" where
  "package_json_relations lib content =
     (case lk_json lib content of Inl e \<Rightarrow> [] | Inr j \<Rightarrow> concat (map (install_hook_links lib) (install_hooks j)))"

section \<open>Their branches of the dispatch\<close>

definition with_config_detectors ::
    "lockfile_lib \<Rightarrow> (string \<Rightarrow> config_url option) \<Rightarrow> finding detectors \<Rightarrow> finding detectors" where
  "with_config_detectors lib parse_url ds =
     ds\<lparr>run_detector := (\<lambda>d path content siblings doc.
          case d of
            Package_json \<Rightarrow> analyze_package_json (lk_json lib) path content siblings
          | Requirements_txt \<Rightarrow> analyze_requirements_txt path content
          | Npmrc \<Rightarrow> analyze_npmrc parse_url path content
          | Pip_conf \<Rightarrow> analyze_pip_conf path content
          | x \<Rightarrow> run_detector ds d path content siblings doc),
        run_relations := (\<lambda>d content.
          case d of
            Package_json \<Rightarrow> package_json_relations lib content
          | Npmrc \<Rightarrow> npmrc_relations parse_url content
          | Pip_conf \<Rightarrow> pip_conf_relations content
          | x \<Rightarrow> run_relations ds d content),
        run_capabilities := (\<lambda>d content.
          case d of
            Package_json \<Rightarrow> package_json_capabilities (lk_json lib) content
          | Requirements_txt \<Rightarrow> requirements_txt_capabilities content
          | Npmrc \<Rightarrow> npmrc_capabilities parse_url content
          | Pip_conf \<Rightarrow> pip_conf_capabilities content
          | x \<Rightarrow> run_capabilities ds d content),
        run_expected_lockfiles := (\<lambda>d content.
          if d = Package_json then package_json_expected_lockfiles (lk_json lib) content
          else run_expected_lockfiles ds d content)\<rparr>"

section \<open>Properties\<close>

lemma manifest_finding_fields [simp]:
  "rule_id (manifest_finding r c s a e p v t) = r" "match_value (manifest_finding r c s a e p v t) = v"
  "f_action (manifest_finding r c s a e p v t) = a" "f_severity (manifest_finding r c s a e p v t) = s"
  by (simp_all add: manifest_finding_def build_with_def build_def case_prod_unfold builder_new_def Let_def)

lemma takeWhile_str_find: "str_find s [c] = Some i \<Longrightarrow> take i s = takeWhile (\<lambda>d. d \<noteq> c) s"
  by (induction s arbitrary: i) (auto split: if_splits)

lemma str_find_None: "str_find s [c] = None \<longleftrightarrow> c \<notin> set s"
  by (induction s) auto

lemma map_filter_member: "y \<in> set (List.map_filter g xs) \<longleftrightarrow> (\<exists>x \<in> set xs. g x = Some y)"
  by (force simp: List.map_filter_def)

lemma equals_sign_kept: "CHR ''='' \<in> set (to_ascii_lowercase line) \<Longrightarrow> CHR ''='' \<in> set line"
proof -
  assume "CHR ''='' \<in> set (to_ascii_lowercase line)"
  then obtain c where c: "c \<in> set line" "ascii_lower c = CHR ''=''" by (auto simp: to_ascii_lowercase_def)
  have small: "byte_of (ascii_lower c) = 61" by (simp add: c(2) byte_of_def)
  have "ascii_lower c = c"
  proof (cases "65 \<le> byte_of c \<and> byte_of c \<le> 90")
    case True
    then show ?thesis using byte_of_ascii_lower [of c] small by simp
  next
    case False
    then show ?thesis by (simp only: ascii_lower_def if_False)
  qed
  then show ?thesis using c by simp
qed

lemma credential_has_key:
  assumes "npmrc_line_embeds_credential line"
  shows "redact_npmrc_auth_token line = str_trim (takeWhile (\<lambda>c. c \<noteq> CHR ''='') line) @ ''=<redacted>''"
proof -
  obtain token a b where token: "token \<in> set NPMRC_CREDENTIAL_TOKENS" and lower: "to_ascii_lowercase line = a @ token @ b"
    using assms unfolding npmrc_line_embeds_credential_def list_ex_iff str_contains_iff by blast
  have "CHR ''='' \<in> set token" using token unfolding NPMRC_CREDENTIAL_TOKENS_def by (simp, elim disjE) simp_all
  then have "CHR ''='' \<in> set (to_ascii_lowercase line)" by (simp only: lower set_append Un_iff simp_thms)
  then have "CHR ''='' \<in> set line" by (rule equals_sign_kept)
  then obtain i where "str_find line ''='' = Some i" using str_find_None [of line "CHR ''=''"] by blast
  then show ?thesis using takeWhile_str_find [of line "CHR ''=''" i] by (simp add: redact_npmrc_auth_token_def)
qed


text \<open>
  an npm manifest that does not parse gives one finding and no capability. Otherwise each declared install hook has
  one finding with its command, which asks for approval exactly if the command is risky; the manifest can execute
  at install exactly if it has a hook, and has network access exactly if a hook fetches, which is then among the approvals.
\<close>

theorem install_hooks_exact:
  "let fs = analyze_package_json parse_json path content siblings;
       caps = map fact_capability (package_json_capabilities parse_json content);
       hook_findings = filter (\<lambda>f. rule_id f = ''MANIFEST_PACKAGE_JSON_INSTALL_HOOK'') fs in
   (case parse_json content of
      Inl e \<Rightarrow> map rule_id fs = [''MANIFEST_PACKAGE_JSON_PARSE_FAILURE''] \<and> caps = []
    | Inr j \<Rightarrow>
        map (\<lambda>f. (match_value f, f_action f)) hook_findings
          = map (\<lambda>(hook, command). (hook @ '': '' @ command,
              if package_json_install_hook_is_risky command then RequireApproval else Log)) (install_hooks j)
        \<and> (InstallExecution \<in> set caps) = (hook_findings \<noteq> [])
        \<and> (NetworkAccess \<in> set caps) = list_ex (\<lambda>(hook, command). package_json_install_hook_has_network command) (install_hooks j)
        \<and> \<not> (NetworkAccess \<in> set caps \<and> list_all (\<lambda>f. f_action f = Log) hook_findings))"
proof (cases "parse_json content")
  case (Inl e)
  then show ?thesis
    by (simp add: analyze_package_json_def package_json_capabilities_def manifest_parse_failure_finding_def)
next
  case (Inr j)
  let ?fs = "analyze_package_json parse_json path content siblings"
  have unpinned: "rule_id f = ''MANIFEST_PACKAGE_JSON_UNPINNED_DEP''"
    if "f \<in> set (unpinned_npm_findings path l j field)" for f l field
  proof -
    from that obtain entry where "(case entry of (name, version) \<Rightarrow> (case as_str version of
        None \<Rightarrow> None
      | Some v \<Rightarrow> if \<not> l \<and> is_unpinned_npm_version v
          then Some (manifest_unpinned_dep_finding ''MANIFEST_PACKAGE_JSON_UNPINNED_DEP'' path (name @ ''@'' @ v)
                       ''Manifest dependency is not strictly pinned'') else None)) = Some f"
      unfolding unpinned_npm_findings_def map_filter_member by blast
    then show ?thesis
      by (auto simp: manifest_unpinned_dep_finding_def split: prod.splits option.splits if_splits)
  qed
  have none: "filter (\<lambda>f. rule_id f = ''MANIFEST_PACKAGE_JSON_INSTALL_HOOK'') (unpinned_npm_findings path l j field) = []" for l field
    using unpinned by (fastforce simp: filter_empty_conv)
  have hooks: "filter (\<lambda>f. rule_id f = ''MANIFEST_PACKAGE_JSON_INSTALL_HOOK'') ?fs = map (install_hook_finding path) (install_hooks j)"
    by (simp add: Inr analyze_package_json_def Let_def none missing_lockfile_findings_def filter_map o_def
        install_hook_finding_def case_prod_unfold)
  have approved: "\<not> list_all (\<lambda>f. f_action f = Log) (map (install_hook_finding path) (install_hooks j))"
    if "list_ex (\<lambda>(h, c). package_json_install_hook_has_network c) (install_hooks j)"
    using that by (fastforce simp: list_ex_iff list_all_iff install_hook_finding_def package_json_install_hook_is_risky_def)
  have caps: "(InstallExecution \<in> set (map fact_capability (package_json_capabilities parse_json content))) = (install_hooks j \<noteq> [])"
    "(NetworkAccess \<in> set (map fact_capability (package_json_capabilities parse_json content)))
      = list_ex (\<lambda>(h, c). package_json_install_hook_has_network c) (install_hooks j)"
    by (cases "install_hooks j = []";
        cases "list_ex (\<lambda>(h, c). package_json_install_hook_has_network c) (install_hooks j)";
        cases "package_json_bin_is_exposed j";
        simp add: Inr package_json_capabilities_def declared_capability_def observed_capability_def)+
  show ?thesis
    unfolding Let_def hooks caps using approved
    by (simp add: Inr install_hook_finding_def case_prod_unfold Let_def)
qed

text \<open>What the line-based checks miss: a space before the equals sign, and pip's spelling with underscores.\<close>

lemma spelled_differently:
  "\<not> npmrc_line_embeds_credential ''//r/:_authToken = npm_x''"
  "\<not> pip_conf_key_in ''extra_index_url = https://e.co'' [''extra-index-url'', ''index-url'']"
  by code_simp+

text \<open>A pip index line is reported whole, with the password of its URL.\<close>

lemma pip_password_reported:
  "pip_conf_line_finding path ''index-url = https://u:pw@e.co'' \<noteq> None"
  "match_value (the (pip_conf_line_finding path ''index-url = https://u:pw@e.co'')) = ''index-url = https://u:pw@e.co''"
proof -
  have "pip_conf_key_is ''index-url = https://u:pw@e.co'' ''index-url''" by code_simp
  then show "pip_conf_line_finding path ''index-url = https://u:pw@e.co'' \<noteq> None"
    "match_value (the (pip_conf_line_finding path ''index-url = https://u:pw@e.co'')) = ''index-url = https://u:pw@e.co''"
    by (simp_all only: pip_conf_line_finding_def if_True option.sel manifest_finding_fields option.distinct not_False_eq_True)
qed

end
