(* ===== verification/Rule_Loading.thy ===== *)
theory Rule_Loading
  imports Rule_Matching
begin

text \<open>
  How the rule engine gets its rules: \<open>rules/parser.rs\<close>, \<open>rules/ioc.rs\<close>, \<open>rules/builtin.rs\<close> and
  \<open>rules/mod.rs\<close>. The engine is a record that every loading operation returns updated, also when it
  fails half way. The YAML parser (into the three file formats), \<open>regex::escape\<close>, SHA-256 and the text
  of a UTF-8 error are parameters; the embedded rule packs are an argument.
\<close>

section \<open>Rule files\<close>

definition RULE_PACK_SCHEMA_VERSION :: string where
  "RULE_PACK_SCHEMA_VERSION = ''skill-veil.dev/rules/v1alpha1''"

definition MAX_IOC_ITEMS_PER_KIND :: nat where "MAX_IOC_ITEMS_PER_KIND = 10000"

datatype rule_pack_kind = Official_Pack | Community_Pack | IocFeed_Pack

record rule_pack_metadata =
  rm_name :: string
  rm_kind :: "rule_pack_kind option"
  rm_compatibility :: "string list"

record rule_pack_file =
  rp_schema_version :: string
  rp_metadata :: rule_pack_metadata
  rp_rules :: "rule list"

record ioc_feed_file =
  if_schema_version :: string
  if_metadata :: rule_pack_metadata
  if_domains :: "string list"
  if_filenames :: "string list"
  if_ips :: "string list"

record rule_load_lib =
  ld_rules :: rule_lib
  ld_pack :: "string \<Rightarrow> string + rule_pack_file"
  ld_feed :: "string \<Rightarrow> string + ioc_feed_file"
  ld_list :: "string \<Rightarrow> string + rule list"
  ld_escape :: "string \<Rightarrow> string"
  ld_sha256 :: "string \<Rightarrow> string"
  ld_utf8_error :: "string \<Rightarrow> string"

definition is_supported_rule_pack_schema :: "string \<Rightarrow> bool" where
  "is_supported_rule_pack_schema v \<longleftrightarrow> v = RULE_PACK_SCHEMA_VERSION"

section \<open>Indicator feeds\<close>

definition ascii_upper :: "char \<Rightarrow> char" where
  "ascii_upper c = (if 97 \<le> byte_of c \<and> byte_of c \<le> 122 then char_of (byte_of c - 32) else c)"

definition ascii_alnum_byte :: "char \<Rightarrow> bool" where
  "ascii_alnum_byte c \<longleftrightarrow>
     48 \<le> byte_of c \<and> byte_of c \<le> 57 \<or> 65 \<le> byte_of c \<and> byte_of c \<le> 90 \<or> 97 \<le> byte_of c \<and> byte_of c \<le> 122"

definition normalized_pack_name :: "string \<Rightarrow> string" where
  "normalized_pack_name name =
     (if str_trim name = [] then ''UNNAMED''
      else concat (map (\<lambda>ch. if length ch = 1 \<and> list_all ascii_alnum_byte ch then ch else ''_'')
             (str_chars (map ascii_upper name))))"

record ioc_rule_spec =
  io_suffix :: string
  io_category :: threat_category
  io_severity :: severity
  io_confidence :: f32
  io_reason :: string
  io_tag :: string

definition ioc_rule :: "(string \<Rightarrow> string) \<Rightarrow> string list \<Rightarrow> string \<Rightarrow> ioc_rule_spec \<Rightarrow> rule" where
  "ioc_rule escape items pack_name spec =
     \<lparr>ru_id = ''IOC_FEED_'' @ normalized_pack_name pack_name @ ''_'' @ io_suffix spec, ru_category = io_category spec,
      ru_severity = io_severity spec, ru_confidence = io_confidence spec,
      ru_condition = RC_Regex (''(?i)('' @ join_with ''|'' (map escape (filter (\<lambda>i. i \<noteq> []) items)) @ '')''),
      ru_action = Block, ru_reason = io_reason spec, ru_shield = None, ru_enabled = True,
      ru_tags = [''ioc'', io_tag spec], ru_taxonomy_tags = [], ru_promptintel_threats = [],
      ru_requires_code_artifact = False, ru_downgrade_when_confirmation_gate = False,
      ru_downgrade_when_documentation_context = False\<rparr>"

definition push_ioc_rule ::
    "(string \<Rightarrow> string) \<Rightarrow> rule list \<Rightarrow> string list \<Rightarrow> string \<Rightarrow> ioc_rule_spec \<Rightarrow> rule_error + rule list" where
  "push_ioc_rule escape rules items pack_name spec =
     (if items = [] then Inr rules
      else if MAX_IOC_ITEMS_PER_KIND < length items then
        Inl (RE_InvalidRule (''IOC feed '' @ [CHR 0x27] @ pack_name @ [CHR 0x27] @ '' has '' @ digits_of (length items) @ '' ''
          @ io_tag spec @ '' entries; the per-kind cap is '' @ digits_of MAX_IOC_ITEMS_PER_KIND
          @ '' (split the feed into multiple packs to enforce the budget)''))
      else if filter (\<lambda>i. i \<noteq> []) items = [] then Inr rules
      else Inr (rules @ [ioc_rule escape items pack_name spec]))"

definition DOMAIN_SPEC :: ioc_rule_spec where
  "DOMAIN_SPEC = \<lparr>io_suffix = ''DOMAINS'', io_category = SupplyChain, io_severity = Critical,
     io_confidence = f32_of_rat (99 / 100), io_reason = ''IOC feed matched a known malicious domain'', io_tag = ''domain''\<rparr>"

definition IP_SPEC :: ioc_rule_spec where
  "IP_SPEC = \<lparr>io_suffix = ''IPS'', io_category = DataExfiltration, io_severity = Critical,
     io_confidence = f32_of_rat (99 / 100), io_reason = ''IOC feed matched a known malicious IP'', io_tag = ''ip''\<rparr>"

definition FILENAME_SPEC :: ioc_rule_spec where
  "FILENAME_SPEC = \<lparr>io_suffix = ''FILENAMES'', io_category = SupplyChain, io_severity = High,
     io_confidence = f32_of_rat (95 / 100), io_reason = ''IOC feed matched a known malicious filename'',
     io_tag = ''filename''\<rparr>"

definition ioc_feed_to_rules :: "(string \<Rightarrow> string) \<Rightarrow> ioc_feed_file \<Rightarrow> rule_error + rule list" where
  "ioc_feed_to_rules escape feed =
     (let name = rm_name (if_metadata feed)
      in and_then (push_ioc_rule escape [] (if_domains feed) name DOMAIN_SPEC) (\<lambda>rules.
         and_then (push_ioc_rule escape rules (if_ips feed) name IP_SPEC) (\<lambda>rules.
         push_ioc_rule escape rules (if_filenames feed) name FILENAME_SPEC)))"

section \<open>Parsing\<close>

text \<open>Each of the first two formats returns, or goes on with what it adds to the errors.\<close>

definition try_pack :: "rule_load_lib \<Rightarrow> string \<Rightarrow> (rule_error + rule list) + string list" where
  "try_pack lib content =
     (case ld_pack lib content of
        Inr pack \<Rightarrow>
          if \<not> is_supported_rule_pack_schema (rp_schema_version pack)
          then Inl (Inl (RE_InvalidRule (''Unsupported rule pack schema version: '' @ rp_schema_version pack)))
          else if rp_rules pack \<noteq> [] then Inl (Inr (rp_rules pack))
          else Inr [''RulePackFile format (empty rules)'']
      | Inl e \<Rightarrow> Inr (if str_trim content \<noteq> [] then [''RulePackFile format''] else []))"

definition try_feed :: "rule_load_lib \<Rightarrow> string \<Rightarrow> (rule_error + rule list) + string list" where
  "try_feed lib content =
     (case ld_feed lib content of
        Inr feed \<Rightarrow>
          if \<not> is_supported_rule_pack_schema (if_schema_version feed)
          then Inl (Inl (RE_InvalidRule (''Unsupported IOC feed schema version: '' @ if_schema_version feed)))
          else if \<not> (if_domains feed = [] \<and> if_filenames feed = [] \<and> if_ips feed = [])
          then Inl (ioc_feed_to_rules (ld_escape lib) feed)
          else Inr []
      | Inl e \<Rightarrow> Inr (if str_trim content \<noteq> [] then [''IocFeedFile format''] else []))"

definition parse_rules_file :: "rule_load_lib \<Rightarrow> string \<Rightarrow> rule_error + rule list" where
  "parse_rules_file lib content =
     (case try_pack lib content of
        Inl result \<Rightarrow> result
      | Inr errors \<Rightarrow>
          (case try_feed lib content of
             Inl result \<Rightarrow> result
           | Inr feed_errors \<Rightarrow>
               (case ld_list lib content of
                  Inr rules \<Rightarrow> Inr rules
                | Inl e \<Rightarrow>
                    let errors = errors @ feed_errors @ [''rule list format: '' @ e]
                    in if errors = []
                       then Inl (RE_InvalidRule ''Rule file is empty or contains no valid rules'')
                       else Inl (RE_InvalidRule (''Failed to parse rules file. Attempted formats: ''
                              @ join_with ''; '' errors)))))"

text \<open>The rules of the embedded packs, each a name and a body; \<open>seen\<close> maps an id to the first pack with it.\<close>

fun builtin_pack ::
    "string \<Rightarrow> (string \<rightharpoonup> string) \<Rightarrow> rule list \<Rightarrow> rule list \<Rightarrow> rule_error + (string \<rightharpoonup> string) \<times> rule list" where
  "builtin_pack pack_name seen rules [] = Inr (seen, rules)"
| "builtin_pack pack_name seen rules (r # rs) =
     (case seen (ru_id r) of
        Some prev \<Rightarrow> Inl (RE_DuplicateBuiltinRule (ru_id r) prev pack_name)
      | None \<Rightarrow> builtin_pack pack_name (seen(ru_id r \<mapsto> pack_name)) (rules @ [r]) rs)"

fun builtin_packs ::
    "rule_load_lib \<Rightarrow> (string \<rightharpoonup> string) \<Rightarrow> rule list \<Rightarrow> (string \<times> string) list \<Rightarrow> rule_error + rule list" where
  "builtin_packs lib seen rules [] = Inr rules"
| "builtin_packs lib seen rules ((pack_name, body) # packs) =
     (case parse_rules_file lib body of
        Inl e \<Rightarrow> Inl e
      | Inr new \<Rightarrow>
          (case builtin_pack pack_name seen rules new of
             Inl e \<Rightarrow> Inl e
           | Inr (seen', rules') \<Rightarrow> builtin_packs lib seen' rules' packs))"

definition get_builtin_rules :: "rule_load_lib \<Rightarrow> (string \<times> string) list \<Rightarrow> rule_error + rule list" where
  "get_builtin_rules lib packs = builtin_packs lib Map.empty [] packs"

section \<open>Checksums\<close>

definition RULE_PACK_CHECKSUM_SUFFIX :: string where "RULE_PACK_CHECKSUM_SUFFIX = ''.sha256''"

definition ascii_hex_byte :: "char \<Rightarrow> bool" where
  "ascii_hex_byte c \<longleftrightarrow>
     48 \<le> byte_of c \<and> byte_of c \<le> 57 \<or> 65 \<le> byte_of c \<and> byte_of c \<le> 70 \<or> 97 \<le> byte_of c \<and> byte_of c \<le> 102"

definition parse_checksum_sidecar :: "string \<Rightarrow> string option" where
  "parse_checksum_sidecar body =
     (case split_whitespace body of
        [] \<Rightarrow> None
      | tok # toks \<Rightarrow> if length tok = 64 \<and> list_all ascii_hex_byte tok then Some (to_ascii_lowercase tok) else None)"

datatype checksum_policy = Lenient | WarnOnMissing | Required

fun rule_io_error :: "file_system_error \<Rightarrow> rule_error" where
  "rule_io_error (Fs_IoError e) = RE_IoError e"
| "rule_io_error (Fs_PathNotFound p) = RE_IoError (''path not found: '' @ p)"

definition verify_pack_checksum ::
    "rule_load_lib \<Rightarrow> file_system \<Rightarrow> string \<Rightarrow> string \<Rightarrow> checksum_policy \<Rightarrow> rule_error + unit" where
  "verify_pack_checksum lib fs pack_path body policy =
     (if policy = Lenient then Inr ()
      else
        (case fs_read fs (pack_path @ RULE_PACK_CHECKSUM_SUFFIX) of
           Inl (Fs_PathNotFound p) \<Rightarrow> if policy = Required then Inl (RE_MissingChecksum pack_path) else Inr ()
         | Inl (Fs_IoError e) \<Rightarrow> Inl (RE_IoError e)
         | Inr sidecar \<Rightarrow>
             if \<not> utf8_valid sidecar then Inl (RE_IoError (ld_utf8_error lib sidecar))
             else
               (case parse_checksum_sidecar sidecar of
                  None \<Rightarrow> Inl (RE_IoError (''rule pack sidecar `'' @ pack_path @ RULE_PACK_CHECKSUM_SUFFIX
                    @ ''` does not contain a 64-char hex SHA-256 digest''))
                | Some expected \<Rightarrow>
                    if expected \<noteq> ld_sha256 lib body
                    then Inl (RE_ChecksumMismatch pack_path expected (ld_sha256 lib body)) else Inr ())))"

section \<open>The engine\<close>

record rule_engine =
  en_rules :: "compiled_rule list"
  en_rules_dir :: "string option"
  en_strict_mode :: bool
  en_checksum_policy :: checksum_policy

definition with_matcher :: rule_engine where
  "with_matcher = \<lparr>en_rules = [], en_rules_dir = None, en_strict_mode = True, en_checksum_policy = WarnOnMissing\<rparr>"

definition set_checksum_policy :: "checksum_policy \<Rightarrow> rule_engine \<Rightarrow> rule_engine" where
  "set_checksum_policy policy en = en\<lparr>en_checksum_policy := policy\<rparr>"

definition set_strict_mode :: "bool \<Rightarrow> rule_engine \<Rightarrow> rule_engine" where
  "set_strict_mode strict en = en\<lparr>en_strict_mode := strict\<rparr>"

text \<open>The common body of \<open>add_rule\<close> and of the loop of \<open>load_rules_file\<close>.\<close>

definition push_rule :: "rule_load_lib \<Rightarrow> string \<Rightarrow> rule_engine \<Rightarrow> rule \<Rightarrow> rule_engine \<times> (rule_error + unit)" where
  "push_rule lib path en r =
     (case compile_rule (ld_rules lib) r of
        Inl e \<Rightarrow> (en, Inl e)
      | Inr compiled \<Rightarrow>
          if list_ex (\<lambda>existing. ru_id (cr_rule existing) = ru_id (cr_rule compiled)) (en_rules en) then
            (if en_strict_mode en then (en, Inl (RE_DuplicateUserRule (ru_id (cr_rule compiled)) path)) else (en, Inr ()))
          else (en\<lparr>en_rules := en_rules en @ [compiled]\<rparr>, Inr ()))"

fun push_rules :: "rule_load_lib \<Rightarrow> string \<Rightarrow> rule_engine \<Rightarrow> rule list \<Rightarrow> rule_engine \<times> (rule_error + unit)" where
  "push_rules lib path en [] = (en, Inr ())"
| "push_rules lib path en (r # rs) =
     (case push_rule lib path en r of
        (en', Inl e) \<Rightarrow> (en', Inl e) | (en', Inr u) \<Rightarrow> push_rules lib path en' rs)"

definition add_rule :: "rule_load_lib \<Rightarrow> rule_engine \<Rightarrow> rule \<Rightarrow> rule_engine \<times> (rule_error + unit)" where
  "add_rule lib en r = push_rule lib ''<programmatic add_rule>'' en r"

definition load_rules_file ::
    "rule_load_lib \<Rightarrow> file_system \<Rightarrow> string \<Rightarrow> rule_engine \<Rightarrow> rule_engine \<times> (rule_error + unit)" where
  "load_rules_file lib fs path en =
     (case fs_read fs path of
        Inl e \<Rightarrow> (en, Inl (rule_io_error e))
      | Inr bytes \<Rightarrow>
          (case verify_pack_checksum lib fs path bytes (en_checksum_policy en) of
             Inl e \<Rightarrow> (en, Inl e)
           | Inr u \<Rightarrow>
               if \<not> utf8_valid bytes then (en, Inl (RE_IoError (ld_utf8_error lib bytes)))
               else
                 (case parse_rules_file lib bytes of
                    Inl e \<Rightarrow> (en, Inl e)
                  | Inr rules \<Rightarrow> push_rules lib path en rules)))"

fun load_files ::
    "rule_load_lib \<Rightarrow> file_system \<Rightarrow> rule_engine \<Rightarrow> string list \<Rightarrow> rule_engine \<times> (rule_error + unit)" where
  "load_files lib fs en [] = (en, Inr ())"
| "load_files lib fs en (p # ps) =
     (case load_rules_file lib fs p en of
        (en', Inl e) \<Rightarrow> (en', Inl e) | (en', Inr u) \<Rightarrow> load_files lib fs en' ps)"

definition load_pattern ::
    "rule_load_lib \<Rightarrow> file_system \<Rightarrow> string \<Rightarrow> string \<Rightarrow> rule_engine \<Rightarrow> rule_engine \<times> (rule_error + unit)" where
  "load_pattern lib fs dir pattern en =
     (case fs_list fs dir pattern True of
        Inl e \<Rightarrow> (en, Inl (rule_io_error e)) | Inr paths \<Rightarrow> load_files lib fs en (sort_paths paths))"

definition load_from_dir ::
    "rule_load_lib \<Rightarrow> file_system \<Rightarrow> string \<Rightarrow> rule_engine \<Rightarrow> rule_engine \<times> (rule_error + unit)" where
  "load_from_dir lib fs dir en =
     (case load_pattern lib fs dir ''*.yaml'' (en\<lparr>en_rules_dir := Some dir\<rparr>) of
        (en', Inl e) \<Rightarrow> (en', Inl e) | (en', Inr u) \<Rightarrow> load_pattern lib fs dir ''*.yml'' en')"

fun load_existing_runtime_dirs ::
    "rule_load_lib \<Rightarrow> file_system \<Rightarrow> bool \<Rightarrow> rule_engine \<Rightarrow> string list \<Rightarrow> rule_engine \<times> (rule_error + bool)" where
  "load_existing_runtime_dirs lib fs loaded en [] = (en, Inr loaded)"
| "load_existing_runtime_dirs lib fs loaded en (d # ds) =
     (if path_exists fs d then
        (case load_from_dir lib fs d en of
           (en', Inl e) \<Rightarrow> (en', Inl e) | (en', Inr u) \<Rightarrow> load_existing_runtime_dirs lib fs True en' ds)
      else load_existing_runtime_dirs lib fs loaded en ds)"

definition with_strict_mode ::
    "bool \<Rightarrow> (rule_engine \<Rightarrow> rule_engine \<times> (rule_error + 'r)) \<Rightarrow> rule_engine \<Rightarrow> rule_engine \<times> (rule_error + 'r)" where
  "with_strict_mode temporary f en =
     (case f (en\<lparr>en_strict_mode := temporary\<rparr>) of
        (en', result) \<Rightarrow> (en'\<lparr>en_strict_mode := en_strict_mode en\<rparr>, result))"

definition load_runtime_default_rules ::
    "rule_load_lib \<Rightarrow> file_system \<Rightarrow> string list \<Rightarrow> bool \<Rightarrow> rule_engine \<Rightarrow> rule_engine \<times> (rule_error + bool)" where
  "load_runtime_default_rules lib fs dirs strict en =
     (if strict then load_existing_runtime_dirs lib fs False en dirs
      else with_strict_mode False (\<lambda>en. load_existing_runtime_dirs lib fs False en dirs) en)"

fun add_rules :: "rule_load_lib \<Rightarrow> rule_engine \<Rightarrow> rule list \<Rightarrow> rule_engine \<times> (rule_error + unit)" where
  "add_rules lib en [] = (en, Inr ())"
| "add_rules lib en (r # rs) =
     (case add_rule lib en r of (en', Inl e) \<Rightarrow> (en', Inl e) | (en', Inr u) \<Rightarrow> add_rules lib en' rs)"

definition load_builtin_rules ::
    "rule_load_lib \<Rightarrow> (string \<times> string) list \<Rightarrow> rule_engine \<Rightarrow> rule_engine \<times> (rule_error + unit)" where
  "load_builtin_rules lib packs en =
     (case get_builtin_rules lib packs of Inl e \<Rightarrow> (en, Inl e) | Inr rules \<Rightarrow> add_rules lib en rules)"

definition with_defaults_and_matcher_runtime_strict ::
    "rule_load_lib \<Rightarrow> (string \<times> string) list \<Rightarrow> file_system \<Rightarrow> string list \<Rightarrow> bool \<Rightarrow> rule_error + rule_engine" where
  "with_defaults_and_matcher_runtime_strict lib packs fs dirs strict =
     (case load_builtin_rules lib packs with_matcher of
        (en, Inl e) \<Rightarrow> Inl e
      | (en, Inr u) \<Rightarrow>
          (case load_runtime_default_rules lib fs dirs strict en of
             (en', Inl e) \<Rightarrow> Inl e | (en', Inr loaded) \<Rightarrow> Inr en'))"

definition with_defaults_and_matcher ::
    "rule_load_lib \<Rightarrow> (string \<times> string) list \<Rightarrow> file_system \<Rightarrow> string list \<Rightarrow> rule_error + rule_engine" where
  "with_defaults_and_matcher lib packs fs dirs = with_defaults_and_matcher_runtime_strict lib packs fs dirs False"

definition rule_count :: "rule_engine \<Rightarrow> nat" where
  "rule_count en = length (en_rules en)"

definition engine_evaluate :: "rule_lib \<Rightarrow> rule_engine \<Rightarrow> skill_document \<Rightarrow> finding list" where
  "engine_evaluate lib en doc = concat (map (\<lambda>cr. rule_matches lib cr doc) (en_rules en))"

definition test_rule :: "rule_lib \<Rightarrow> document_lib \<Rightarrow> rule_engine \<Rightarrow> string \<Rightarrow> string \<Rightarrow> finding list" where
  "test_rule lib dl en rule content =
     (let doc = parse_with_parser dl ''test.md'' content
      in concat (map (\<lambda>cr. rule_matches lib cr doc) (filter (\<lambda>cr. ru_id (cr_rule cr) = rule) (en_rules en))))"

section \<open>What loading keeps\<close>

definition rule_ids :: "rule_engine \<Rightarrow> string list" where
  "rule_ids en = map (\<lambda>cr. ru_id (cr_rule cr)) (en_rules en)"

text \<open>
  Loading only appends compiled rules with new ids and leaves the modes alone; it may stop half way.
\<close>

definition extends_engine :: "rule_load_lib \<Rightarrow> rule_engine \<Rightarrow> rule_engine \<Rightarrow> bool" where
  "extends_engine lib en en' \<longleftrightarrow>
     (\<exists>new. en_rules en' = en_rules en @ new
        \<and> list_all (\<lambda>c. compile_rule (ld_rules lib) (cr_rule c) = Inr c) new
        \<and> distinct (map (\<lambda>c. ru_id (cr_rule c)) new)
        \<and> (\<forall>c \<in> set new. ru_id (cr_rule c) \<notin> set (rule_ids en)))
     \<and> en_strict_mode en' = en_strict_mode en \<and> en_checksum_policy en' = en_checksum_policy en"

lemma extends_refl [simp, intro]: "extends_engine lib en en"
  by (simp add: extends_engine_def)

lemma extends_dir [simp]: "extends_engine lib (en\<lparr>en_rules_dir := d\<rparr>) en' \<longleftrightarrow> extends_engine lib en en'"
  by (simp add: extends_engine_def rule_ids_def)

lemma extends_trans [trans]:
  assumes "extends_engine lib a b" "extends_engine lib b c"
  shows "extends_engine lib a c"
proof -
  obtain n where n: "en_rules b = en_rules a @ n" "list_all (\<lambda>c. compile_rule (ld_rules lib) (cr_rule c) = Inr c) n"
    "distinct (map (\<lambda>c. ru_id (cr_rule c)) n)" "\<forall>c \<in> set n. ru_id (cr_rule c) \<notin> set (rule_ids a)"
    using assms(1) unfolding extends_engine_def by blast
  obtain k where k: "en_rules c = en_rules b @ k" "list_all (\<lambda>c. compile_rule (ld_rules lib) (cr_rule c) = Inr c) k"
    "distinct (map (\<lambda>c. ru_id (cr_rule c)) k)" "\<forall>c \<in> set k. ru_id (cr_rule c) \<notin> set (rule_ids b)"
    using assms(2) unfolding extends_engine_def by blast
  have "en_rules c = en_rules a @ (n @ k)" using n(1) k(1) by simp
  moreover have "set (map (\<lambda>c. ru_id (cr_rule c)) n) \<inter> set (map (\<lambda>c. ru_id (cr_rule c)) k) = {}"
  proof (rule equals0I)
    fix x
    assume x: "x \<in> set (map (\<lambda>c. ru_id (cr_rule c)) n) \<inter> set (map (\<lambda>c. ru_id (cr_rule c)) k)"
    then obtain c where "c \<in> set k" "x = ru_id (cr_rule c)" by auto
    then have "x \<notin> set (rule_ids b)" using k(4) by blast
    then show False using x n(1) by (simp add: rule_ids_def)
  qed
  then have "distinct (map (\<lambda>c. ru_id (cr_rule c)) (n @ k))"
    using n(3) k(3) by (simp only: map_append distinct_append)
  moreover have "\<forall>c \<in> set (n @ k). ru_id (cr_rule c) \<notin> set (rule_ids a)"
    using n(1,4) k(4) by (auto simp: rule_ids_def)
  moreover have "list_all (\<lambda>c. compile_rule (ld_rules lib) (cr_rule c) = Inr c) (n @ k)"
    using n(2) k(2) by simp
  moreover have "en_strict_mode c = en_strict_mode a \<and> en_checksum_policy c = en_checksum_policy a"
    using assms unfolding extends_engine_def by simp
  ultimately show ?thesis unfolding extends_engine_def by blast
qed

lemma compiled_rule_of: "compile_rule lib r = Inr c \<Longrightarrow> cr_rule c = r"
  by (auto simp: compile_rule_def split: sum.splits)

text \<open>Every loading operation is a step that extends the engine; steps compose.\<close>

locale loading_step =
  fixes lib :: rule_load_lib and step :: "rule_engine \<Rightarrow> rule_engine \<times> (rule_error + 'r)"
  assumes step_extends: "extends_engine lib en (fst (step en))"
begin

lemma then_extends:
  assumes "\<And>en. extends_engine lib en (fst (g en))"
  shows "extends_engine lib en (fst (case step en of (en', Inl e) \<Rightarrow> (en', Inl e) | (en', Inr u) \<Rightarrow> g en'))"
  using step_extends [of en] assms extends_trans by (auto split: prod.split sum.split)

lemma temporary_mode: "extends_engine lib en (fst (with_strict_mode b step en))"
  using step_extends [of "en\<lparr>en_strict_mode := b\<rparr>"]
  by (auto simp: with_strict_mode_def extends_engine_def rule_ids_def split: prod.split)

end

interpretation pushing: loading_step lib "\<lambda>en. push_rule lib path en r" for lib path r
proof unfold_locales
  fix en
  show "extends_engine lib en (fst (push_rule lib path en r))"
    by (auto simp: push_rule_def extends_engine_def rule_ids_def list_ex_iff compiled_rule_of split: sum.split)
qed

lemma push_rules_extends: "extends_engine lib en (fst (push_rules lib path en rs))"
  by (induction rs arbitrary: en) (simp_all add: pushing.then_extends)

lemma add_rules_extends: "extends_engine lib en (fst (add_rules lib en rs))"
  by (induction rs arbitrary: en) (simp_all add: add_rule_def pushing.then_extends)

interpretation loading_file: loading_step lib "load_rules_file lib fs path" for lib fs path
  by unfold_locales (auto simp: load_rules_file_def push_rules_extends split: sum.split)

lemma load_files_extends: "extends_engine lib en (fst (load_files lib fs en ps))"
  by (induction ps arbitrary: en) (simp_all add: loading_file.then_extends)

interpretation loading_pattern: loading_step lib "load_pattern lib fs dir pattern" for lib fs dir pattern
  by unfold_locales (auto simp: load_pattern_def load_files_extends split: sum.split)

interpretation loading_dir: loading_step lib "load_from_dir lib fs dir" for lib fs dir
proof unfold_locales
  fix en
  have "extends_engine lib (en\<lparr>en_rules_dir := Some dir\<rparr>) (fst (load_from_dir lib fs dir en))"
    unfolding load_from_dir_def by (rule loading_pattern.then_extends) (rule loading_pattern.step_extends)
  then show "extends_engine lib en (fst (load_from_dir lib fs dir en))" by simp
qed

interpretation loading_dirs: loading_step lib "\<lambda>en. load_existing_runtime_dirs lib fs loaded en dirs" for lib fs loaded dirs
proof unfold_locales
  show "extends_engine lib en (fst (load_existing_runtime_dirs lib fs loaded en dirs))" for en
    by (induction dirs arbitrary: en loaded) (simp_all add: loading_dir.then_extends)
qed

lemma runtime_rules_extend: "extends_engine lib en (fst (load_runtime_default_rules lib fs dirs strict en))"
  by (simp add: load_runtime_default_rules_def loading_dirs.step_extends loading_dirs.temporary_mode)

section \<open>Built-in rules\<close>

lemma builtin_pack_distinct:
  assumes "builtin_pack p seen rules new = Inr (seen', rules')"
    and "dom seen = ru_id ` set rules" "distinct (map ru_id rules)"
  shows "dom seen' = ru_id ` set rules' \<and> distinct (map ru_id rules')"
  using assms
proof (induction new arbitrary: seen rules)
  case (Cons r new)
  then have "seen (ru_id r) = None" "builtin_pack p (seen(ru_id r \<mapsto> p)) (rules @ [r]) new = Inr (seen', rules')"
    by (auto split: option.splits)
  moreover from this(1) have "ru_id r \<notin> ru_id ` set rules" using Cons.prems(2) by blast
  moreover have "dom (seen(ru_id r \<mapsto> p)) = ru_id ` set (rules @ [r])" using Cons.prems(2) by simp
  ultimately show ?case using Cons.IH [of "seen(ru_id r \<mapsto> p)" "rules @ [r]"] Cons.prems(3)
    by (simp only: map_append distinct_append) simp
qed simp

lemma builtin_packs_distinct:
  assumes "builtin_packs lib seen rules packs = Inr rules'"
    and "dom seen = ru_id ` set rules" "distinct (map ru_id rules)"
  shows "distinct (map ru_id rules')"
  using assms
proof (induction packs arbitrary: seen rules)
  case (Cons pack packs)
  obtain p body where pack: "pack = (p, body)" by fastforce
  then obtain new seen1 rules1 where new: "parse_rules_file lib body = Inr new"
    "builtin_pack p seen rules new = Inr (seen1, rules1)" "builtin_packs lib seen1 rules1 packs = Inr rules'"
    using Cons.prems(1) by (auto split: sum.splits)
  then show ?case using Cons.IH builtin_pack_distinct [OF new(2) Cons.prems(2,3)] by blast
qed simp

lemma add_rules_strict:
  "add_rules lib en rs = (en', Inr ()) \<Longrightarrow> en_strict_mode en \<Longrightarrow> rule_ids en' = rule_ids en @ map ru_id rs"
proof (induction rs arbitrary: en)
  case (Cons r rs)
  then obtain c where c: "compile_rule (ld_rules lib) r = Inr c"
    "add_rules lib (en\<lparr>en_rules := en_rules en @ [c]\<rparr>) rs = (en', Inr ())"
    by (auto simp: add_rule_def push_rule_def split: sum.splits if_splits)
  then show ?case using Cons.IH [OF c(2)] Cons.prems(2) compiled_rule_of [OF c(1)] by (simp add: rule_ids_def)
qed (simp add: rule_ids_def)

section \<open>Properties\<close>

text \<open>
  Claim C12: an engine built with defaults holds every rule once and compiled, the built-in rules first and in their order; overlays
  only add rules with new ids, so they never replace a built-in rule, and whether or not duplicates are tolerated
  while they load, the engine comes out strict. No rules are lost when a pack fails: loading only ever appends.
\<close>

theorem engine_loading:
  "(case with_defaults_and_matcher_runtime_strict lib packs fs dirs strict of
      Inl e \<Rightarrow> True
    | Inr en \<Rightarrow>
        distinct (rule_ids en) \<and> list_all (\<lambda>c. compile_rule (ld_rules lib) (cr_rule c) = Inr c) (en_rules en)
        \<and> en_strict_mode en \<and> en_checksum_policy en = WarnOnMissing
        \<and> (case get_builtin_rules lib packs of
             Inl e \<Rightarrow> False
           | Inr rules \<Rightarrow> take (length rules) (rule_ids en) = map ru_id rules \<and> distinct (map ru_id rules)))
   \<and> extends_engine lib en0 (fst (load_runtime_default_rules lib fs dirs strict en0))"
proof (cases "with_defaults_and_matcher_runtime_strict lib packs fs dirs strict")
  case (Inl e)
  then show ?thesis by (simp add: runtime_rules_extend)
next
  case (Inr en)
  then obtain rules en1 loaded where built: "get_builtin_rules lib packs = Inr rules"
    "add_rules lib with_matcher rules = (en1, Inr ())"
    and runtime: "load_runtime_default_rules lib fs dirs strict en1 = (en, Inr loaded)"
    by (auto simp: with_defaults_and_matcher_runtime_strict_def load_builtin_rules_def split: sum.splits prod.splits)
  have ext: "extends_engine lib en1 en" using runtime_rules_extend [of lib en1 fs dirs strict] runtime by simp
  have "extends_engine lib with_matcher en1" using add_rules_extends [of lib with_matcher rules] built(2) by simp
  from extends_trans [OF this ext]
  have all: "distinct (rule_ids en) \<and> list_all (\<lambda>c. compile_rule (ld_rules lib) (cr_rule c) = Inr c) (en_rules en)
      \<and> en_strict_mode en \<and> en_checksum_policy en = WarnOnMissing"
    by (auto simp: extends_engine_def rule_ids_def with_matcher_def)
  have "rule_ids en1 = map ru_id rules"
    using add_rules_strict [OF built(2)] by (simp add: with_matcher_def rule_ids_def)
  then have "take (length rules) (rule_ids en) = map ru_id rules"
    using ext by (auto simp: extends_engine_def rule_ids_def take_map [symmetric])
  moreover have "distinct (map ru_id rules)"
    using builtin_packs_distinct [of lib Map.empty "[]" packs rules] built(1) by (simp add: get_builtin_rules_def)
  ultimately show ?thesis using Inr all built(1) by (simp add: runtime_rules_extend)
qed

text \<open>The integrity check by itself.\<close>

definition pack_verified :: "rule_load_lib \<Rightarrow> file_system \<Rightarrow> string \<Rightarrow> checksum_policy \<Rightarrow> bool" where
  "pack_verified lib fs path policy \<longleftrightarrow>
     (case fs_read fs path of
        Inl e \<Rightarrow> False
      | Inr body \<Rightarrow>
          policy = Lenient
          \<or> (case fs_read fs (path @ ''.sha256'') of
               Inr sidecar \<Rightarrow> utf8_valid sidecar \<and> parse_checksum_sidecar sidecar = Some (ld_sha256 lib body)
             | Inl (Fs_PathNotFound p) \<Rightarrow> policy = WarnOnMissing
             | Inl (Fs_IoError e) \<Rightarrow> False))"


end
