(* ===== verification/Container_Manifests.thy ===== *)
theory Container_Manifests
  imports Config_Manifests Rule_Loading
begin

text \<open>
  The detectors for container and build manifests: \<open>detectors/manifests/container/mod.rs\<close>, \<open>volumes.rs\<close>,
  \<open>compose/mod.rs\<close>, \<open>compose/detectors.rs\<close>, \<open>dockerfile.rs\<close>, and \<open>detectors/manifests/build.rs\<close>. The YAML parser
  is a parameter; what its values offer (\<open>as_str\<close>, \<open>get\<close>, looking through tags) is written out.
\<close>

section \<open>YAML values\<close>

datatype yaml =
  YNull | YBool bool | YNumber string | YString string | YSequence "yaml list" | YMapping "(yaml \<times> yaml) list"
  | YTagged string yaml

type_synonym yaml_mapping = "(yaml \<times> yaml) list"

fun untag_ref :: "yaml \<Rightarrow> yaml" where
  "untag_ref (YTagged tag v) = untag_ref v"
| "untag_ref v = v"

definition yaml_as_str :: "yaml \<Rightarrow> string option" where
  "yaml_as_str v = (case untag_ref v of YString s \<Rightarrow> Some s | x \<Rightarrow> None)"

definition yaml_as_bool :: "yaml \<Rightarrow> bool option" where
  "yaml_as_bool v = (case untag_ref v of YBool b \<Rightarrow> Some b | x \<Rightarrow> None)"

definition yaml_as_sequence :: "yaml \<Rightarrow> yaml list option" where
  "yaml_as_sequence v = (case untag_ref v of YSequence vs \<Rightarrow> Some vs | x \<Rightarrow> None)"

definition yaml_as_mapping :: "yaml \<Rightarrow> yaml_mapping option" where
  "yaml_as_mapping v = (case untag_ref v of YMapping m \<Rightarrow> Some m | x \<Rightarrow> None)"

definition mapping_get :: "yaml_mapping \<Rightarrow> string \<Rightarrow> yaml option" where
  "mapping_get m key = map_of m (YString key)"

definition yaml_get :: "yaml \<Rightarrow> string \<Rightarrow> yaml option" where
  "yaml_get v key = Option.bind (yaml_as_mapping v) (\<lambda>m. mapping_get m key)"

text \<open>The sequence under a key; where the code gives up without one, there is nothing to look at.\<close>

definition sequence_at :: "yaml_mapping \<Rightarrow> string \<Rightarrow> yaml list" where
  "sequence_at m key = (case Option.bind (mapping_get m key) yaml_as_sequence of None \<Rightarrow> [] | Some vs \<Rightarrow> vs)"

definition str_at :: "yaml_mapping \<Rightarrow> string \<Rightarrow> string option" where
  "str_at m key = Option.bind (mapping_get m key) yaml_as_str"

section \<open>Images\<close>

definition image_uses_mutable_latest :: "string \<Rightarrow> bool" where
  "image_uses_mutable_latest raw =
     (let img = str_trim raw in
      if img = [] then False
      else
        (case (case str_find img ''@'' of
                 None \<Rightarrow> (img, None) | Some i \<Rightarrow> (take i img, Some (str_trim (drop (i + 1) img)))) of
           (reference, digest) \<Rightarrow>
             if (case digest of None \<Rightarrow> False | Some d \<Rightarrow> d \<noteq> []) then False
             else if eq_ignore_ascii_case reference ''scratch'' then False
             else (case str_rfind reference '':'' of
                     None \<Rightarrow> True
                   | Some last_colon \<Rightarrow>
                       if (case str_rfind reference ''/'' of None \<Rightarrow> False | Some slash \<Rightarrow> last_colon < slash) then True
                       else eq_ignore_ascii_case (drop (last_colon + 1) reference) ''latest'')))"

section \<open>Volumes\<close>

definition matches_root_path :: "string \<Rightarrow> string \<Rightarrow> bool" where
  "matches_root_path volume base \<longleftrightarrow>
     (if volume = base then True
      else (case strip_prefix volume base of
              None \<Rightarrow> False | Some rest \<Rightarrow> starts_with rest ''/'' \<or> starts_with rest '':''))"

definition normalised_source :: "string \<Rightarrow> string" where
  "normalised_source source =
     fold (\<lambda>seg acc. (if 1 < length acc then acc @ ''/'' else acc) @ seg)
       (filter (\<lambda>seg. seg \<noteq> [] \<and> seg \<noteq> ''.'') (split_on CHR ''/'' source)) ''/''"

definition normalise_volume_for_classification :: "string \<Rightarrow> string" where
  "normalise_volume_for_classification volume =
     (case split_once_optional volume CHR '':'' of
        (source, rest) \<Rightarrow>
          if \<not> starts_with source ''/'' then volume
          else (case rest of None \<Rightarrow> normalised_source source | Some r \<Rightarrow> normalised_source source @ '':'' @ r))"

definition destination_is_host_alias :: "string \<Rightarrow> bool" where
  "destination_is_host_alias volume =
     (case str_find volume '':'' of
        None \<Rightarrow> False
      | Some i \<Rightarrow>
          let destination = takeWhile (\<lambda>c. c \<noteq> CHR '':'') (drop (i + 1) volume)
          in destination = ''/host'' \<or> starts_with destination ''/host/'')"

definition is_sensitive_host_volume :: "string \<Rightarrow> bool" where
  "is_sensitive_host_volume volume =
     (let v = normalise_volume_for_classification volume
      in starts_with v ''/:'' \<or> destination_is_host_alias v \<or> matches_root_path v ''/var/run/docker.sock''
         \<or> starts_with v ''/etc/'' \<or> matches_root_path v ''/root'' \<or> matches_root_path v ''/proc''
         \<or> matches_root_path v ''/sys'' \<or> starts_with v ''/'' \<and> str_contains v '':/'')"

text \<open>Unlike \<open>as_str\<close>, the patterns of the next four functions do not look through tags.\<close>

definition volume_entry_string :: "yaml \<Rightarrow> string option" where
  "volume_entry_string v =
     (case v of
        YString s \<Rightarrow> Some s
      | YMapping m \<Rightarrow>
          if (case str_at m ''type'' of None \<Rightarrow> False | Some other \<Rightarrow> other \<noteq> ''bind'') then None
          else map_option (\<lambda>source. case str_at m ''target'' of None \<Rightarrow> source | Some target \<Rightarrow> source @ '':'' @ target)
                 (str_at m ''source'')
      | x \<Rightarrow> None)"

definition real_path :: "yaml \<Rightarrow> string option" where
  "real_path item = Option.bind (yaml_as_str item) (\<lambda>s. if str_trim s = [] then None else Some (str_trim s))"

definition env_file_has_real_paths :: "yaml \<Rightarrow> bool" where
  "env_file_has_real_paths v =
     (case v of
        YString s \<Rightarrow> str_trim s \<noteq> [] | YSequence vs \<Rightarrow> list_ex (\<lambda>item. real_path item \<noteq> None) vs | x \<Rightarrow> False)"

definition render_env_file :: "yaml \<Rightarrow> string" where
  "render_env_file v =
     (case v of YString s \<Rightarrow> str_trim s | YSequence vs \<Rightarrow> join_with '', '' (List.map_filter real_path vs) | x \<Rightarrow> [])"

definition port_entry_has_real_value :: "yaml \<Rightarrow> bool" where
  "port_entry_has_real_value v =
     (case v of YString s \<Rightarrow> str_trim s \<noteq> [] | YMapping m \<Rightarrow> m \<noteq> [] | x \<Rightarrow> False)"

definition ports_value_has_real_entries :: "yaml \<Rightarrow> bool" where
  "ports_value_has_real_entries v =
     (case v of YSequence vs \<Rightarrow> list_ex port_entry_has_real_value vs | YString s \<Rightarrow> str_trim s \<noteq> [] | x \<Rightarrow> False)"

section \<open>Findings of a compose service\<close>

definition compose_finding ::
    "string \<Rightarrow> threat_category \<Rightarrow> severity \<Rightarrow> evidence_kind \<Rightarrow> string \<Rightarrow> string \<Rightarrow> string \<Rightarrow> string \<Rightarrow> finding" where
  "compose_finding rule cat sev ek path service what reason_text =
     manifest_finding rule cat sev RequireApproval ek path (service @ '': '' @ what) reason_text"

definition detect_latest_image_tag :: "string \<Rightarrow> yaml_mapping \<Rightarrow> string \<Rightarrow> finding option" where
  "detect_latest_image_tag service m path =
     Option.bind (str_at m ''image'') (\<lambda>img.
       if \<not> image_uses_mutable_latest img then None
       else Some (compose_finding ''MANIFEST_DOCKER_COMPOSE_LATEST_TAG'' SupplyChain Low Context path service img
                    ''docker-compose service uses a mutable latest image tag''))"

definition declares_privileged :: "yaml_mapping \<Rightarrow> bool" where
  "declares_privileged m = (Option.bind (mapping_get m ''privileged'') yaml_as_bool = Some True)"

definition detect_privileged :: "string \<Rightarrow> yaml_mapping \<Rightarrow> string \<Rightarrow> finding option" where
  "detect_privileged service m path =
     (if \<not> declares_privileged m then None
      else Some (compose_finding ''MANIFEST_DOCKER_COMPOSE_PRIVILEGED'' PrivilegeEscalation Medium Behavior path service
                   ''privileged=true'' ''docker-compose service requests privileged execution''))"

definition DANGEROUS_LINUX_CAPABILITIES :: "string list" where
  "DANGEROUS_LINUX_CAPABILITIES =
     [''SYS_ADMIN'', ''NET_ADMIN'', ''SYS_PTRACE'', ''SYS_MODULE'', ''DAC_OVERRIDE'', ''DAC_READ_SEARCH'', ''SYS_RAWIO'',
      ''SYS_BOOT'', ''SYS_TIME'', ''MAC_ADMIN'', ''MAC_OVERRIDE'', ''AUDIT_CONTROL'']"

text \<open>\<open>trim_start_matches\<close> with a string removes it as often as it stands there.\<close>

fun trim_start_all :: "string \<Rightarrow> string \<Rightarrow> string" where
  "trim_start_all p [] = []"
| "trim_start_all p (c # cs) =
     (if p \<noteq> [] \<and> prefix p (c # cs) then trim_start_all p (drop (length p - 1) cs) else c # cs)"

definition canonicalise_capability :: "string \<Rightarrow> string" where
  "canonicalise_capability raw = map ascii_upper (trim_start_all ''CAP_'' (trim_start_all ''cap_'' (str_trim raw)))"

definition dangerous_caps :: "yaml_mapping \<Rightarrow> string list" where
  "dangerous_caps m =
     filter (\<lambda>raw. canonicalise_capability raw \<in> set DANGEROUS_LINUX_CAPABILITIES)
       (List.map_filter yaml_as_str (sequence_at m ''cap_add''))"

definition mapping_declares_dangerous_cap :: "yaml_mapping \<Rightarrow> bool" where
  "mapping_declares_dangerous_cap m =
     list_ex (\<lambda>raw. canonicalise_capability raw \<in> set DANGEROUS_LINUX_CAPABILITIES)
       (List.map_filter yaml_as_str (sequence_at m ''cap_add''))"

definition detect_dangerous_cap_add :: "string \<Rightarrow> yaml_mapping \<Rightarrow> string \<Rightarrow> finding list" where
  "detect_dangerous_cap_add service m path =
     map (\<lambda>raw. compose_finding ''MANIFEST_DOCKER_COMPOSE_DANGEROUS_CAP_ADD'' PrivilegeEscalation High Behavior path service
            (''cap_add='' @ raw)
            (''docker-compose service requests dangerous Linux capability '' @ canonicalise_capability raw @ '' ''
             @ [CHR 0xE2, CHR 0x80, CHR 0x94] @ '' equivalent to privileged execution for container-escape vectors''))
       (dangerous_caps m)"

definition host_volumes :: "yaml_mapping \<Rightarrow> string list" where
  "host_volumes m = filter is_sensitive_host_volume (List.map_filter volume_entry_string (sequence_at m ''volumes''))"

definition detect_host_volumes :: "string \<Rightarrow> yaml_mapping \<Rightarrow> string \<Rightarrow> finding list" where
  "detect_host_volumes service m path =
     map (\<lambda>volume. compose_finding ''MANIFEST_DOCKER_COMPOSE_HOST_MOUNT'' PrivilegeEscalation Medium Behavior path service
            volume ''docker-compose service mounts sensitive host paths'') (host_volumes m)"

definition mounts_host_volume :: "yaml_mapping \<Rightarrow> bool" where
  "mounts_host_volume m =
     list_ex (\<lambda>volume. case volume_entry_string volume of None \<Rightarrow> False | Some v \<Rightarrow> is_sensitive_host_volume v)
       (sequence_at m ''volumes'')"

definition is_host_network_mode :: "string \<Rightarrow> bool" where
  "is_host_network_mode mode \<longleftrightarrow> mode \<in> set [''host'', ''service:host'']"

definition detect_host_network :: "string \<Rightarrow> yaml_mapping \<Rightarrow> string \<Rightarrow> finding option" where
  "detect_host_network service m path =
     Option.bind (str_at m ''network_mode'') (\<lambda>mode.
       if \<not> is_host_network_mode mode then None
       else Some (compose_finding ''MANIFEST_DOCKER_COMPOSE_HOST_NETWORK'' PrivilegeEscalation Medium Behavior path service
                    (''network_mode='' @ mode) ''docker-compose service shares the host network namespace''))"

definition mapping_declares_host_network :: "yaml_mapping \<Rightarrow> bool" where
  "mapping_declares_host_network m =
     (case str_at m ''network_mode'' of None \<Rightarrow> False | Some mode \<Rightarrow> is_host_network_mode mode)"

definition HOST_NAMESPACE_KEYS :: "string list" where
  "HOST_NAMESPACE_KEYS = [''pid'', ''ipc'']"

definition shares_namespace :: "yaml_mapping \<Rightarrow> string \<Rightarrow> bool" where
  "shares_namespace m key = (case str_at m key of None \<Rightarrow> False | Some mode \<Rightarrow> str_trim mode = ''host'')"

definition detect_host_namespace :: "string \<Rightarrow> yaml_mapping \<Rightarrow> string \<Rightarrow> finding list" where
  "detect_host_namespace service m path =
     map (\<lambda>key. compose_finding ''MANIFEST_DOCKER_COMPOSE_HOST_NAMESPACE'' PrivilegeEscalation Medium Behavior path service
            (key @ ''=host'')
            ''docker-compose service shares a host namespace (pid/ipc), enabling escape to host processes'')
       (filter (shares_namespace m) HOST_NAMESPACE_KEYS)"

definition security_opt_is_unconfined :: "string \<Rightarrow> bool" where
  "security_opt_is_unconfined opt =
     (let lower = to_ascii_lowercase opt
      in (starts_with lower ''seccomp'' \<or> starts_with lower ''apparmor'') \<and> str_contains lower ''unconfined'')"

definition detect_unconfined_security_opt :: "string \<Rightarrow> yaml_mapping \<Rightarrow> string \<Rightarrow> finding list" where
  "detect_unconfined_security_opt service m path =
     map (\<lambda>opt. compose_finding ''MANIFEST_DOCKER_COMPOSE_UNCONFINED'' PrivilegeEscalation Medium Behavior path service
            (''security_opt='' @ opt) ''docker-compose service disables its seccomp/AppArmor sandbox (unconfined)'')
       (filter security_opt_is_unconfined (List.map_filter yaml_as_str (sequence_at m ''security_opt'')))"

definition DANGEROUS_HOST_DEVICE_PREFIXES :: "string list" where
  "DANGEROUS_HOST_DEVICE_PREFIXES =
     [''/dev/mem'', ''/dev/kmem'', ''/dev/port'', ''/dev/sd'', ''/dev/hd'', ''/dev/nvme'', ''/dev/vd'', ''/dev/xvd'',
      ''/dev/disk'', ''/dev/loop'']"

definition device_host_path :: "yaml \<Rightarrow> string option" where
  "device_host_path v =
     (case yaml_as_str v of
        Some s \<Rightarrow> Some (str_trim (takeWhile (\<lambda>c. c \<noteq> CHR '':'') s))
      | None \<Rightarrow> map_option str_trim (Option.bind (yaml_as_mapping v) (\<lambda>m. str_at m ''source'')))"

definition is_dangerous_host_device :: "string \<Rightarrow> bool" where
  "is_dangerous_host_device host_path = list_ex (starts_with (to_ascii_lowercase host_path)) DANGEROUS_HOST_DEVICE_PREFIXES"

definition detect_host_devices :: "string \<Rightarrow> yaml_mapping \<Rightarrow> string \<Rightarrow> finding list" where
  "detect_host_devices service m path =
     map (\<lambda>dev. compose_finding ''MANIFEST_DOCKER_COMPOSE_HOST_DEVICE'' PrivilegeEscalation High Behavior path service
            dev ''docker-compose service maps a raw host disk/memory device into the container'')
       (filter is_dangerous_host_device (List.map_filter device_host_path (sequence_at m ''devices'')))"

definition mapping_declares_namespace_or_security_escape :: "yaml_mapping \<Rightarrow> bool" where
  "mapping_declares_namespace_or_security_escape m \<longleftrightarrow>
     list_ex (shares_namespace m) HOST_NAMESPACE_KEYS
     \<or> list_ex security_opt_is_unconfined (List.map_filter yaml_as_str (sequence_at m ''security_opt''))
     \<or> list_ex is_dangerous_host_device (List.map_filter device_host_path (sequence_at m ''devices''))"

definition loads_env_file :: "yaml_mapping \<Rightarrow> bool" where
  "loads_env_file m = (case mapping_get m ''env_file'' of None \<Rightarrow> False | Some v \<Rightarrow> env_file_has_real_paths v)"

definition detect_env_file :: "string \<Rightarrow> yaml_mapping \<Rightarrow> string \<Rightarrow> finding option" where
  "detect_env_file service m path =
     Option.bind (mapping_get m ''env_file'') (\<lambda>env_file.
       if env_file_has_real_paths env_file
       then Some (compose_finding ''MANIFEST_DOCKER_COMPOSE_ENV_FILE'' CredentialExposure Low Context path service
                    (render_env_file env_file) ''docker-compose service loads environment files that may contain secrets'')
       else None)"

section \<open>Compose files\<close>

definition MAX_YAML_CONTENT_BYTES :: nat where
  "MAX_YAML_CONTENT_BYTES = 4 * 1024 * 1024"

definition MAX_YAML_NESTING_DEPTH :: nat where
  "MAX_YAML_NESTING_DEPTH = 64"

fun yaml_nesting_depth :: "yaml \<Rightarrow> nat" where
  "yaml_nesting_depth (YMapping m) =
     1 + foldr max (concat (map (\<lambda>(k, v). [yaml_nesting_depth k, yaml_nesting_depth v]) m)) 0"
| "yaml_nesting_depth (YSequence vs) = 1 + foldr max (map yaml_nesting_depth vs) 0"
| "yaml_nesting_depth (YTagged tag v) = 0"
| "yaml_nesting_depth (YString s) = 0"
| "yaml_nesting_depth (YNumber s) = 0"
| "yaml_nesting_depth (YBool b) = 0"
| "yaml_nesting_depth YNull = 0"

definition parse_compose_yaml :: "(string \<Rightarrow> string + yaml) \<Rightarrow> string \<Rightarrow> string + yaml" where
  "parse_compose_yaml parse_yaml content =
     (if MAX_YAML_CONTENT_BYTES < length content
      then Inl (''YAML content exceeds '' @ digits_of MAX_YAML_CONTENT_BYTES @ '' byte limit (got ''
                @ digits_of (length content) @ '' bytes)'')
      else (case parse_yaml content of
              Inl e \<Rightarrow> Inl e
            | Inr v \<Rightarrow>
                if MAX_YAML_NESTING_DEPTH < yaml_nesting_depth v
                then Inl (''YAML nesting depth exceeds '' @ digits_of MAX_YAML_NESTING_DEPTH @ '' level limit'')
                else Inr v))"

definition compose_services :: "yaml \<Rightarrow> (string \<times> yaml_mapping) list" where
  "compose_services y =
     (case Option.bind (yaml_get y ''services'') yaml_as_mapping of
        None \<Rightarrow> []
      | Some services \<Rightarrow>
          List.map_filter (\<lambda>(raw_name, service).
            map_option (Pair (case yaml_as_str raw_name of None \<Rightarrow> ''unknown'' | Some n \<Rightarrow> n)) (yaml_as_mapping service)) services)"

definition list_of_option :: "'a option \<Rightarrow> 'a list" where
  "list_of_option x = (case x of None \<Rightarrow> [] | Some y \<Rightarrow> [y])"

definition service_findings :: "string \<Rightarrow> string \<times> yaml_mapping \<Rightarrow> finding list" where
  "service_findings path = (\<lambda>(service, m).
     list_of_option (detect_latest_image_tag service m path) @ list_of_option (detect_privileged service m path)
     @ detect_dangerous_cap_add service m path @ detect_host_volumes service m path
     @ list_of_option (detect_host_network service m path) @ detect_host_namespace service m path
     @ detect_unconfined_security_opt service m path @ detect_host_devices service m path
     @ list_of_option (detect_env_file service m path))"

definition analyze_docker_compose :: "(string \<Rightarrow> string + yaml) \<Rightarrow> string \<Rightarrow> string \<Rightarrow> finding list" where
  "analyze_docker_compose parse_yaml path content =
     (case parse_compose_yaml parse_yaml content of
        Inl e \<Rightarrow>
          [manifest_parse_failure_finding ''MANIFEST_DOCKER_COMPOSE_PARSE_FAILURE'' path e
             ''docker-compose manifest is not valid YAML; capability and volume/env analyses cannot run against this file'']
      | Inr y \<Rightarrow> concat (map (service_findings path) (compose_services y)))"

definition mapping_declares_network_surface :: "yaml_mapping \<Rightarrow> bool" where
  "mapping_declares_network_surface m \<longleftrightarrow>
     mapping_declares_host_network m
     \<or> (case mapping_get m ''ports'' of None \<Rightarrow> False | Some v \<Rightarrow> ports_value_has_real_entries v)"

definition declares_process :: "yaml_mapping \<Rightarrow> bool" where
  "declares_process m \<longleftrightarrow> mapping_get m ''command'' \<noteq> None \<or> mapping_get m ''entrypoint'' \<noteq> None"

text \<open>A capability is pushed unless the list has it already.\<close>

definition push_declared ::
    "bool \<Rightarrow> artifact_capability list \<Rightarrow> artifact_capability_fact list \<Rightarrow> artifact_capability_fact list" where
  "push_declared wanted cs caps =
     (if wanted \<and> declared_capability (hd cs) \<notin> set caps then caps @ map declared_capability cs else caps)"

definition service_capabilities :: "string \<times> yaml_mapping \<Rightarrow> artifact_capability_fact list \<Rightarrow> artifact_capability_fact list" where
  "service_capabilities = (\<lambda>(service, m) caps.
     (let caps = push_declared (declares_privileged m \<or> mapping_declares_dangerous_cap m
                   \<or> mapping_declares_namespace_or_security_escape m) [PrivilegedRuntime] caps;
          caps = push_declared (mounts_host_volume m) [HostFilesystemAccess, FilesystemWrite] caps;
          caps = push_declared (mapping_declares_network_surface m) [NetworkAccess] caps;
          caps = push_declared (loads_env_file m) [SecretAccess] caps
      in push_declared (declares_process m) [ProcessExecution] caps))"

definition services_of :: "(string \<Rightarrow> string + yaml) \<Rightarrow> string \<Rightarrow> (string \<times> yaml_mapping) list" where
  "services_of parse_yaml content =
     (case parse_compose_yaml parse_yaml content of Inl e \<Rightarrow> [] | Inr y \<Rightarrow> compose_services y)"

definition docker_compose_capabilities :: "(string \<Rightarrow> string + yaml) \<Rightarrow> string \<Rightarrow> artifact_capability_fact list" where
  "docker_compose_capabilities parse_yaml content = fold service_capabilities (services_of parse_yaml content) []"

definition link_if :: "bool \<Rightarrow> string \<Rightarrow> artifact_relation \<Rightarrow> artifact_link list" where
  "link_if b target relation = (if b then [\<lparr>link_target = target, link_relation = relation\<rparr>] else [])"

definition service_links :: "string \<times> yaml_mapping \<Rightarrow> artifact_link list" where
  "service_links = (\<lambda>(service, m).
     (case str_at m ''image'' of None \<Rightarrow> [] | Some img \<Rightarrow> link_if True img Loads)
     @ link_if (mapping_declares_network_surface m) ''network'' ConnectsTo
     @ link_if (mounts_host_volume m) ''host-filesystem'' Mounts
     @ link_if (loads_env_file m) ''.env'' AccessesSecrets
     @ link_if (declares_process m) ''process'' Executes)"

definition docker_compose_relations :: "(string \<Rightarrow> string + yaml) \<Rightarrow> string \<Rightarrow> artifact_link list" where
  "docker_compose_relations parse_yaml content = concat (map service_links (services_of parse_yaml content))"

section \<open>Dockerfile\<close>

definition DOCKERFILE_NETWORK_DOWNLOAD_TOKENS :: "string list" where
  "DOCKERFILE_NETWORK_DOWNLOAD_TOKENS =
     [''curl'', ''wget'', ''invoke-webrequest'', ''iwr'', ''invoke-restmethod'', ''irm'', ''ncat'', '' nc'', ''fetch'']"

definition dockerfile_instruction_args :: "string \<Rightarrow> string \<Rightarrow> string option" where
  "dockerfile_instruction_args lower_line expected =
     (case split_whitespace lower_line of
        [] \<Rightarrow> None
      | instruction # toks \<Rightarrow>
          if instruction \<noteq> expected then None else Some (str_trim_start (drop (length instruction) lower_line)))"

definition is_remote_add_instruction :: "string \<Rightarrow> bool" where
  "is_remote_add_instruction lower_line =
     (case dockerfile_instruction_args lower_line ''add'' of
        None \<Rightarrow> False | Some args \<Rightarrow> str_contains args ''http://'' \<or> str_contains args ''https://'')"

definition dockerfile_from_image :: "string \<Rightarrow> string option" where
  "dockerfile_from_image line =
     (case split_whitespace line of
        [] \<Rightarrow> None
      | instruction # toks \<Rightarrow>
          if \<not> eq_ignore_ascii_case instruction ''from'' then None
          else find (\<lambda>tok. \<not> starts_with tok ''--'') toks)"

definition shell_tokens :: "string \<Rightarrow> string list" where
  "shell_tokens line =
     filter (\<lambda>tok. tok \<noteq> []) (split_any ([CHR 0x09, CHR 0x0A, CHR 0x0C, CHR 0x0D, CHR 0x20] @ ''|;&('') line)"

definition token_basename :: "string \<Rightarrow> string" where
  "token_basename tok = rev (takeWhile (\<lambda>c. c \<noteq> CHR ''/'' \<and> c \<noteq> CHR 0x5C) (rev tok))"

text \<open>A token with the given base name, and a test of the tokens after it.\<close>

fun command_followed_by :: "string \<Rightarrow> (string list \<Rightarrow> bool) \<Rightarrow> string list \<Rightarrow> bool" where
  "command_followed_by name p [] = False"
| "command_followed_by name p (tok # toks) = (token_basename tok = name \<and> p toks \<or> command_followed_by name p toks)"

fun module_download_args :: "string list \<Rightarrow> bool" where
  "module_download_args (a # b # toks) =
     (a = ''-m'' \<and> (b = ''urllib'' \<or> starts_with b ''urllib.'' \<or> b = ''http'' \<or> starts_with b ''http.'')
      \<or> module_download_args (b # toks))"
| "module_download_args toks = False"

definition line_invokes_python_module_download :: "string \<Rightarrow> bool" where
  "line_invokes_python_module_download lower_line =
     command_followed_by ''python'' module_download_args (shell_tokens lower_line)"

definition line_invokes_python_c_urllib :: "string \<Rightarrow> bool" where
  "line_invokes_python_c_urllib lower_line =
     command_followed_by ''python'' (\<lambda>args. ''-c'' \<in> set args \<and> str_contains lower_line ''import urllib'') (shell_tokens lower_line)"

definition line_invokes_perl_lwp :: "string \<Rightarrow> bool" where
  "line_invokes_perl_lwp lower_line =
     command_followed_by ''perl'' (list_ex (\<lambda>arg. starts_with arg ''-mlwp'')) (shell_tokens lower_line)"

definition token_with_boundary :: "string \<Rightarrow> string \<Rightarrow> bool" where
  "token_with_boundary lower_line tok =
     scan_command_token lower_line tok
       (\<lambda>pre before. starts_with tok '' ''
          \<or> byte_before (set '' |;&/('' \<union> {CHR 0x09, CHR 0x22, CHR 0x27, CHR 0x60}) before)
       (byte_after (set '' (|;&>.:'' \<union> {CHR 0x09}))"

definition dockerfile_has_network_download :: "string \<Rightarrow> bool" where
  "dockerfile_has_network_download lower_line \<longleftrightarrow>
     list_ex (token_with_boundary lower_line) DOCKERFILE_NETWORK_DOWNLOAD_TOKENS
     \<or> line_invokes_python_module_download lower_line \<or> line_invokes_python_c_urllib lower_line
     \<or> line_invokes_perl_lwp lower_line"

definition analyze_dockerfile :: "string \<Rightarrow> string \<Rightarrow> finding list" where
  "analyze_dockerfile path content =
     map (\<lambda>line. manifest_finding ''MANIFEST_DOCKER_LATEST_TAG'' SupplyChain Low RequireApproval Context path line
                   ''Docker base image uses the mutable latest tag'')
       (filter (\<lambda>line. case dockerfile_from_image line of None \<Rightarrow> False | Some img \<Rightarrow> image_uses_mutable_latest img)
          (map str_trim (str_lines content)))"

definition dockerfile_capabilities :: "string \<Rightarrow> artifact_capability_fact list" where
  "dockerfile_capabilities content =
     (let ls = map (\<lambda>line. to_ascii_lowercase (strip_inline_hash_comment (str_trim_start line))) (str_lines content);
          has = (\<lambda>instruction. list_ex (\<lambda>l. dockerfile_instruction_args l instruction \<noteq> None) ls)
      in (if has ''expose'' then [declared_capability NetworkAccess] else [])
         @ (if list_ex (\<lambda>l. dockerfile_has_network_download l \<or> is_remote_add_instruction l) ls
            then [observed_capability NetworkAccess] else [])
         @ (if has ''run'' then [declared_capability ProcessExecution] else [])
         @ (if has ''copy'' \<or> has ''add'' then [declared_capability FilesystemWrite] else []))"

definition dockerfile_relations :: "string \<Rightarrow> artifact_link list" where
  "dockerfile_relations content =
     concat (map (\<lambda>line.
       let code = strip_inline_hash_comment line; lower = to_ascii_lowercase code
       in (case dockerfile_from_image code of None \<Rightarrow> [] | Some img \<Rightarrow> link_if True img Loads)
          @ link_if (dockerfile_has_network_download lower \<or> is_remote_add_instruction lower) ''remote-resource'' Downloads)
     (map str_trim (str_lines content)))"

section \<open>Makefile\<close>

definition MAKEFILE_REMOTE_DOWNLOAD_TOKENS :: "string list" where
  "MAKEFILE_REMOTE_DOWNLOAD_TOKENS =
     [''curl'', ''wget'', ''ncat'', ''nc'', ''invoke-webrequest'', ''iwr'', ''invoke-restmethod'', ''irm'']"

definition command_token_with_boundary :: "string \<Rightarrow> string \<Rightarrow> bool" where
  "command_token_with_boundary lower_line tok =
     scan_command_token lower_line tok
       (\<lambda>pre before.
          before \<noteq> None \<and> the before \<in> set ''@-+'' \<and> list_all (\<lambda>b. b \<in> set ''@-+'') pre
          \<or> byte_before (set '' |;&/('' \<union> {CHR 0x09, CHR 0x22, CHR 0x27, CHR 0x60}) before)
       (byte_after (set '' |;&><'' \<union> {CHR 0x09}))"

definition makefile_has_remote_download :: "string \<Rightarrow> bool" where
  "makefile_has_remote_download lower_line \<longleftrightarrow>
     list_ex (command_token_with_boundary lower_line) MAKEFILE_REMOTE_DOWNLOAD_TOKENS
     \<or> command_token_with_boundary lower_line ''fetch'' \<and> str_contains lower_line ''://''"

definition makefile_code :: "string \<Rightarrow> string" where
  "makefile_code line = to_ascii_lowercase (strip_inline_hash_comment line)"

definition analyze_makefile :: "string \<Rightarrow> string \<Rightarrow> finding list" where
  "analyze_makefile path content =
     map (\<lambda>line. manifest_finding ''MANIFEST_MAKEFILE_REMOTE_DOWNLOAD'' SupplyChain Medium RequireApproval Behavior path line
                   ''Makefile performs remote downloads'')
       (filter (\<lambda>line. makefile_has_remote_download (makefile_code line)) (map str_trim (str_lines content)))"

definition makefile_capabilities :: "string \<Rightarrow> artifact_capability_fact list" where
  "makefile_capabilities content =
     (let ls = map (\<lambda>line. makefile_code (str_trim_start line)) (str_lines content)
      in (if list_ex makefile_has_remote_download ls then [observed_capability NetworkAccess] else [])
         @ (if list_ex line_invokes_shell_or_interpreter ls then [observed_capability ProcessExecution] else []))"

definition makefile_relations :: "string \<Rightarrow> artifact_link list" where
  "makefile_relations content =
     concat (map (\<lambda>line.
       link_if (makefile_has_remote_download (makefile_code line)) ''remote-resource'' Downloads
       @ link_if (line_invokes_shell_or_interpreter (makefile_code line)) (strip_inline_hash_comment line) Executes)
     (map str_trim (str_lines content)))"

section \<open>Their branches of the dispatch\<close>

definition with_container_detectors :: "(string \<Rightarrow> string + yaml) \<Rightarrow> finding detectors \<Rightarrow> finding detectors" where
  "with_container_detectors parse_yaml ds =
     ds\<lparr>run_detector := (\<lambda>d path content siblings doc.
          case d of
            Dockerfile \<Rightarrow> analyze_dockerfile path content
          | Docker_compose \<Rightarrow> analyze_docker_compose parse_yaml path content
          | Makefile \<Rightarrow> analyze_makefile path content
          | x \<Rightarrow> run_detector ds d path content siblings doc),
        run_relations := (\<lambda>d content.
          case d of
            Dockerfile \<Rightarrow> dockerfile_relations content
          | Docker_compose \<Rightarrow> docker_compose_relations parse_yaml content
          | Makefile \<Rightarrow> makefile_relations content
          | x \<Rightarrow> run_relations ds d content),
        run_capabilities := (\<lambda>d content.
          case d of
            Dockerfile \<Rightarrow> dockerfile_capabilities content
          | Docker_compose \<Rightarrow> docker_compose_capabilities parse_yaml content
          | Makefile \<Rightarrow> makefile_capabilities content
          | x \<Rightarrow> run_capabilities ds d content)\<rparr>"

section \<open>What a service declares\<close>

text \<open>The rules that report each declared capability; none reports a process.\<close>

definition service_declares :: "yaml_mapping \<Rightarrow> artifact_capability \<Rightarrow> bool" where
  "service_declares m c =
     (case c of
        PrivilegedRuntime \<Rightarrow> declares_privileged m \<or> mapping_declares_dangerous_cap m
          \<or> mapping_declares_namespace_or_security_escape m
      | HostFilesystemAccess \<Rightarrow> mounts_host_volume m
      | FilesystemWrite \<Rightarrow> mounts_host_volume m
      | NetworkAccess \<Rightarrow> mapping_declares_network_surface m
      | SecretAccess \<Rightarrow> loads_env_file m
      | ProcessExecution \<Rightarrow> declares_process m
      | x \<Rightarrow> False)"

lemma declared_capability_eq [simp]: "declared_capability c = declared_capability d \<longleftrightarrow> c = d"
  by (simp add: declared_capability_def)

definition mount_pair :: "artifact_capability_fact list \<Rightarrow> bool" where
  "mount_pair caps \<longleftrightarrow> distinct caps
     \<and> (declared_capability HostFilesystemAccess \<in> set caps) = (declared_capability FilesystemWrite \<in> set caps)"

lemma push_one [simp]:
  "declared_capability c \<in> set (push_declared b [d] caps) \<longleftrightarrow> declared_capability c \<in> set caps \<or> b \<and> c = d"
  "distinct (push_declared b [d] caps) = distinct caps"
  by (auto simp: push_declared_def)

lemma push_mount [simp]:
  "declared_capability c \<in> set (push_declared b [d, e] caps)
     \<longleftrightarrow> declared_capability c \<in> set caps \<or> b \<and> declared_capability d \<notin> set caps \<and> (c = d \<or> c = e)"
  by (auto simp: push_declared_def)

lemma push_mount_distinct:
  "d \<noteq> e \<Longrightarrow> (declared_capability d \<in> set caps) = (declared_capability e \<in> set caps) \<Longrightarrow>
     distinct (push_declared b [d, e] caps) = distinct caps"
  by (auto simp: push_declared_def)

lemma service_capabilities_step:
  assumes "mount_pair caps"
  shows "mount_pair (service_capabilities (n, m) caps)"
    "declared_capability c \<in> set (service_capabilities (n, m) caps)
       \<longleftrightarrow> declared_capability c \<in> set caps \<or> service_declares m c"
  using assms
  by (auto simp: service_capabilities_def mount_pair_def Let_def push_mount_distinct service_declares_def
      split: artifact_capability.splits)

lemma compose_capability_iff:
  "mount_pair caps \<Longrightarrow>
     mount_pair (fold service_capabilities sms caps)
     \<and> (declared_capability c \<in> set (fold service_capabilities sms caps)
        \<longleftrightarrow> declared_capability c \<in> set caps \<or> list_ex (\<lambda>(n, m). service_declares m c) sms)"
proof (induction sms arbitrary: caps)
  case (Cons sm sms)
  obtain n m where sm: "sm = (n, m)" by (cases sm)
  show ?case
    using Cons.IH [OF service_capabilities_step(1) [OF Cons.prems, of n m]] service_capabilities_step(2) [OF Cons.prems]
    by (simp add: sm)
qed simp

section \<open>What is reported\<close>

lemma map_filter_ex: "list_ex p (List.map_filter f xs) \<longleftrightarrow> list_ex (\<lambda>x. case f x of None \<Rightarrow> False | Some y \<Rightarrow> p y) xs"
  by (induction xs) (auto simp: map_filter_simps split: option.split)

lemma list_ex_of_map: "list_ex p (map f xs) = list_ex (\<lambda>x. p (f x)) xs"
  by (induction xs) auto

lemma filter_ex: "filter p xs \<noteq> [] \<longleftrightarrow> list_ex p xs"
  by (induction xs) auto

lemma compose_finding_fields [simp]:
  "rule_id (compose_finding r c s e path service what t) = r"
  "f_action (compose_finding r c s e path service what t) = RequireApproval"
  by (simp_all add: compose_finding_def)

lemma list_ex_const_map [simp]: "list_ex (\<lambda>x. b) xs \<longleftrightarrow> b \<and> xs \<noteq> []"
  by (induction xs) auto

text \<open>Each detector reports one rule, under the condition the other passes test.\<close>

lemma optional_rules:
  "list_ex (\<lambda>f. p (rule_id f)) (list_of_option (detect_latest_image_tag n m path))
     \<longleftrightarrow> p ''MANIFEST_DOCKER_COMPOSE_LATEST_TAG'' \<and> detect_latest_image_tag n m path \<noteq> None"
  "list_ex (\<lambda>f. p (rule_id f)) (list_of_option (detect_privileged n m path))
     \<longleftrightarrow> p ''MANIFEST_DOCKER_COMPOSE_PRIVILEGED'' \<and> declares_privileged m"
  "list_ex (\<lambda>f. p (rule_id f)) (list_of_option (detect_host_network n m path))
     \<longleftrightarrow> p ''MANIFEST_DOCKER_COMPOSE_HOST_NETWORK'' \<and> mapping_declares_host_network m"
  "list_ex (\<lambda>f. p (rule_id f)) (list_of_option (detect_env_file n m path))
     \<longleftrightarrow> p ''MANIFEST_DOCKER_COMPOSE_ENV_FILE'' \<and> loads_env_file m"
  by (auto simp: detect_latest_image_tag_def detect_privileged_def detect_host_network_def detect_env_file_def
      list_of_option_def mapping_declares_host_network_def loads_env_file_def bind_eq_Some_conv
      split: option.splits if_splits Option.bind_splits)

lemma list_rules:
  "list_ex (\<lambda>f. p (rule_id f)) (detect_dangerous_cap_add n m path)
     \<longleftrightarrow> p ''MANIFEST_DOCKER_COMPOSE_DANGEROUS_CAP_ADD'' \<and> mapping_declares_dangerous_cap m"
  "list_ex (\<lambda>f. p (rule_id f)) (detect_host_volumes n m path)
     \<longleftrightarrow> p ''MANIFEST_DOCKER_COMPOSE_HOST_MOUNT'' \<and> mounts_host_volume m"
  "list_ex (\<lambda>f. p (rule_id f)) (detect_host_namespace n m path)
     \<longleftrightarrow> p ''MANIFEST_DOCKER_COMPOSE_HOST_NAMESPACE'' \<and> list_ex (shares_namespace m) HOST_NAMESPACE_KEYS"
  "list_ex (\<lambda>f. p (rule_id f)) (detect_unconfined_security_opt n m path)
     \<longleftrightarrow> p ''MANIFEST_DOCKER_COMPOSE_UNCONFINED''
         \<and> list_ex security_opt_is_unconfined (List.map_filter yaml_as_str (sequence_at m ''security_opt''))"
  "list_ex (\<lambda>f. p (rule_id f)) (detect_host_devices n m path)
     \<longleftrightarrow> p ''MANIFEST_DOCKER_COMPOSE_HOST_DEVICE''
         \<and> list_ex is_dangerous_host_device (List.map_filter device_host_path (sequence_at m ''devices''))"
  by (simp_all add: detect_dangerous_cap_add_def detect_host_volumes_def detect_host_namespace_def
      detect_unconfined_security_opt_def detect_host_devices_def list_ex_of_map filter_ex dangerous_caps_def host_volumes_def
      mapping_declares_dangerous_cap_def mounts_host_volume_def map_filter_ex del: filter_empty_conv)

lemma optional_actions:
  "list_all (\<lambda>f. f_action f = RequireApproval) (list_of_option (detect_latest_image_tag n m path))"
  "list_all (\<lambda>f. f_action f = RequireApproval) (list_of_option (detect_privileged n m path))"
  "list_all (\<lambda>f. f_action f = RequireApproval) (list_of_option (detect_host_network n m path))"
  "list_all (\<lambda>f. f_action f = RequireApproval) (list_of_option (detect_env_file n m path))"
  by (auto simp: detect_latest_image_tag_def detect_privileged_def detect_host_network_def detect_env_file_def
      list_of_option_def split: option.splits if_splits Option.bind_splits)

lemma list_actions:
  "list_all (\<lambda>f. f_action f = RequireApproval) (detect_dangerous_cap_add n m path)"
  "list_all (\<lambda>f. f_action f = RequireApproval) (detect_host_volumes n m path)"
  "list_all (\<lambda>f. f_action f = RequireApproval) (detect_host_namespace n m path)"
  "list_all (\<lambda>f. f_action f = RequireApproval) (detect_unconfined_security_opt n m path)"
  "list_all (\<lambda>f. f_action f = RequireApproval) (detect_host_devices n m path)"
  by (simp_all add: detect_dangerous_cap_add_def detect_host_volumes_def detect_host_namespace_def
      detect_unconfined_security_opt_def detect_host_devices_def list_all_length)

lemma actions_of_service: "list_all (\<lambda>f. f_action f = RequireApproval) (service_findings path (n, m))"
  by (simp only: service_findings_def prod.case list_all_append optional_actions list_actions simp_thms)

text \<open>The rules by which the findings of a compose file show a capability.\<close>

definition PRIVILEGED_RULES :: "string list" where
  "PRIVILEGED_RULES =
     [''MANIFEST_DOCKER_COMPOSE_PRIVILEGED'', ''MANIFEST_DOCKER_COMPOSE_DANGEROUS_CAP_ADD'',
      ''MANIFEST_DOCKER_COMPOSE_HOST_NAMESPACE'', ''MANIFEST_DOCKER_COMPOSE_UNCONFINED'', ''MANIFEST_DOCKER_COMPOSE_HOST_DEVICE'']"

definition reported :: "string list \<Rightarrow> finding list \<Rightarrow> bool" where
  "reported rules fs = list_ex (\<lambda>f. rule_id f \<in> set rules) fs"

lemma service_reports:
  "reported PRIVILEGED_RULES (service_findings path (n, m)) \<longleftrightarrow> service_declares m PrivilegedRuntime"
  "reported [''MANIFEST_DOCKER_COMPOSE_HOST_MOUNT''] (service_findings path (n, m)) \<longleftrightarrow> mounts_host_volume m"
  "reported [''MANIFEST_DOCKER_COMPOSE_ENV_FILE''] (service_findings path (n, m)) \<longleftrightarrow> loads_env_file m"
  "reported [''MANIFEST_DOCKER_COMPOSE_HOST_NETWORK''] (service_findings path (n, m)) \<longleftrightarrow> mapping_declares_host_network m"
proof -
  note rules = optional_rules [of "\<lambda>r. r \<in> set rs" n m path for rs] list_rules [of "\<lambda>r. r \<in> set rs" n m path for rs]
  show "reported PRIVILEGED_RULES (service_findings path (n, m)) \<longleftrightarrow> service_declares m PrivilegedRuntime"
    "reported [''MANIFEST_DOCKER_COMPOSE_HOST_MOUNT''] (service_findings path (n, m)) \<longleftrightarrow> mounts_host_volume m"
    "reported [''MANIFEST_DOCKER_COMPOSE_ENV_FILE''] (service_findings path (n, m)) \<longleftrightarrow> loads_env_file m"
    "reported [''MANIFEST_DOCKER_COMPOSE_HOST_NETWORK''] (service_findings path (n, m)) \<longleftrightarrow> mapping_declares_host_network m"
    unfolding reported_def service_findings_def prod.case list_ex_append rules
    by (auto simp: PRIVILEGED_RULES_def service_declares_def mapping_declares_namespace_or_security_escape_def)
qed

lemma reported_concat: "reported rules (concat (map g sms)) = list_ex (\<lambda>sm. reported rules (g sm)) sms"
  by (induction sms) (simp_all add: reported_def)

lemma link_relations:
  "r \<in> link_relation ` set (concat (map service_links sms))
     \<longleftrightarrow> list_ex (\<lambda>sm. r \<in> link_relation ` set (service_links sm)) sms"
  by (induction sms) (auto simp: image_Un)

lemma service_link_relations:
  "Mounts \<in> link_relation ` set (service_links (n, m)) \<longleftrightarrow> mounts_host_volume m"
  "AccessesSecrets \<in> link_relation ` set (service_links (n, m)) \<longleftrightarrow> loads_env_file m"
  by (auto simp: service_links_def link_if_def image_Un split: option.splits)

section \<open>Properties\<close>


text \<open>A bind of an absolute host path is always sensitive; of the others, only those mounted at \<open>/host\<close>.\<close>

lemma relative_mount: "\<not> starts_with v ''/'' \<Longrightarrow> is_sensitive_host_volume v = destination_is_host_alias v"
proof -
  assume v: "\<not> starts_with v ''/''"
  have "\<not> starts_with (fst (split_once_optional v CHR '':'')) ''/''"
    using v by (cases v) (auto simp: split_once_optional_def starts_with_def split: option.splits nat.splits if_splits)
  then have "normalise_volume_for_classification v = v"
    by (simp add: normalise_volume_for_classification_def case_prod_unfold)
  then show ?thesis
    using v by (cases v) (auto simp: is_sensitive_host_volume_def matches_root_path_def starts_with_def strip_prefix_def Let_def)
qed

text \<open>
  What the compose checks miss: mounts that leave the project through its parent or the home directory, a published
  port written as a number, every capability at once, settings merged from an anchor (the
  parser keeps the merge key), and nesting below a tag. A stage name is taken for an image without a tag.
\<close>

lemma outside_mounts_missed:
  "\<not> is_sensitive_host_volume ''../../../etc:/x''" "\<not> is_sensitive_host_volume ''~/.ssh:/x''"
  by code_simp+

lemma numeric_port_missed: "\<not> ports_value_has_real_entries (YSequence [YNumber n])"
  by (simp add: ports_value_has_real_entries_def port_entry_has_real_value_def)

lemma all_capabilities_missed:
  "\<not> mapping_declares_dangerous_cap [(YString ''cap_add'', YSequence [YString ''ALL''])]"
  by code_simp

lemma merged_settings_missed:
  "\<not> declares_privileged [(YString ''<<'', YMapping [(YString ''privileged'', YBool True)])]"
  by code_simp

lemma tag_hides_depth: "yaml_nesting_depth (YTagged tag v) \<le> MAX_YAML_NESTING_DEPTH"
  by simp

lemma stage_name_flagged: "image_uses_mutable_latest ''builder''"
  by code_simp

end
