(* ===== verification/Toml_Manifests.thy ===== *)
theory Toml_Manifests
  imports Container_Manifests
begin

text \<open>
  The detectors for Cargo.toml (\<open>detectors/manifests/rust_cargo.rs\<close>) and pyproject.toml
  (\<open>detectors/manifests/python/pyproject.rs\<close>). The TOML parser is a parameter. A function of the code that visits
  the dependency tables with a callback is the list of its visits.
\<close>

section \<open>Cargo.toml\<close>

definition CARGO_DEPENDENCY_SECTIONS :: "string list" where
  "CARGO_DEPENDENCY_SECTIONS = [''dependencies'', ''dev-dependencies'', ''build-dependencies'']"

definition toml_as_table :: "toml_value \<Rightarrow> (string \<times> toml_value) list option" where
  "toml_as_table v = (case v of TV_Table t \<Rightarrow> Some t | x \<Rightarrow> None)"

definition toml_as_array :: "toml_value \<Rightarrow> toml_value list option" where
  "toml_as_array v = (case v of TV_Array vs \<Rightarrow> Some vs | x \<Rightarrow> None)"

definition visits_of :: "string \<Rightarrow> toml_value option \<Rightarrow> (string \<times> (string \<times> toml_value) list) list" where
  "visits_of section_name v = (case Option.bind v toml_as_table of None \<Rightarrow> [] | Some deps \<Rightarrow> [(section_name, deps)])"

definition visit_cargo_dependency_tables :: "toml_value \<Rightarrow> (string \<times> (string \<times> toml_value) list) list" where
  "visit_cargo_dependency_tables toml =
     concat (map (\<lambda>s. visits_of s (toml_get toml s)) CARGO_DEPENDENCY_SECTIONS)
     @ visits_of ''workspace.dependencies'' (Option.bind (toml_get toml ''workspace'') (\<lambda>w. toml_get w ''dependencies''))
     @ (case Option.bind (toml_get toml ''target'') toml_as_table of
          None \<Rightarrow> []
        | Some targets \<Rightarrow>
            concat (map (\<lambda>(target, v).
              case toml_as_table v of
                None \<Rightarrow> []
              | Some target_table \<Rightarrow>
                  concat (map (\<lambda>s. visits_of (''target.'' @ target @ ''.'' @ s) (map_of target_table s))
                    CARGO_DEPENDENCY_SECTIONS)) targets))"

definition non_empty_toml_str :: "(string \<times> toml_value) list \<Rightarrow> string \<Rightarrow> string option" where
  "non_empty_toml_str t key =
     Option.bind (Option.bind (map_of t key) toml_str) (\<lambda>s. if str_trim s = [] then None else Some (str_trim s))"

definition unpinned_git_source :: "(string \<times> toml_value) list \<Rightarrow> string option" where
  "unpinned_git_source t =
     Option.bind (non_empty_toml_str t ''git'') (\<lambda>git.
       if non_empty_toml_str t ''rev'' \<noteq> None then None
       else Some (''git:'' @ git
              @ (case non_empty_toml_str t ''branch'' of
                   Some branch \<Rightarrow> ''#branch='' @ branch
                 | None \<Rightarrow> (case non_empty_toml_str t ''tag'' of Some tag \<Rightarrow> ''#tag='' @ tag | None \<Rightarrow> []))))"

definition is_strict_cargo_pin :: "string \<Rightarrow> bool" where
  "is_strict_cargo_pin version = (str_trim version \<noteq> [] \<and> starts_with (str_trim version) ''='')"

definition cargo_dependency_match_value :: "string \<Rightarrow> string \<Rightarrow> string \<Rightarrow> string" where
  "cargo_dependency_match_value section_name name spec =
     (if section_name = ''dependencies'' then name @ '' = '' @ spec else section_name @ ''.'' @ name @ '' = '' @ spec)"

definition cargo_unpinned_dep_match_value :: "string \<Rightarrow> string \<Rightarrow> toml_value \<Rightarrow> string option" where
  "cargo_unpinned_dep_match_value section_name name dep =
     (case dep of
        TV_String version \<Rightarrow>
          if \<not> is_strict_cargo_pin version then Some (cargo_dependency_match_value section_name name version) else None
      | TV_Table t \<Rightarrow>
          (case unpinned_git_source t of
             Some git_source \<Rightarrow> Some (cargo_dependency_match_value section_name name git_source)
           | None \<Rightarrow>
               Option.bind (Option.bind (map_of t ''version'') toml_str) (\<lambda>version.
                 if \<not> is_strict_cargo_pin version then Some (cargo_dependency_match_value section_name name version) else None))
      | x \<Rightarrow> None)"

definition cargo_unpinned_dep_finding :: "string \<Rightarrow> string \<Rightarrow> toml_value \<Rightarrow> string \<Rightarrow> finding option" where
  "cargo_unpinned_dep_finding section_name name dep path =
     map_option (\<lambda>m. manifest_unpinned_dep_finding ''MANIFEST_CARGO_UNPINNED_DEP'' path m
                       ''Cargo dependency is not strictly pinned'')
       (cargo_unpinned_dep_match_value section_name name dep)"

definition analyze_cargo_toml :: "(string \<Rightarrow> string + toml_value) \<Rightarrow> string \<Rightarrow> string \<Rightarrow> string list \<Rightarrow> finding list" where
  "analyze_cargo_toml parse_toml path content siblings =
     (case parse_toml content of
        Inl e \<Rightarrow>
          [manifest_parse_failure_finding ''MANIFEST_CARGO_PARSE_FAILURE'' path e
             ''Cargo manifest is not valid TOML; dependency-pinning and lockfile analyses cannot run against this file'']
      | Inr toml \<Rightarrow>
          (if \<not> sibling_has_file siblings ''Cargo.lock''
           then concat (map (\<lambda>(section_name, deps).
                  List.map_filter (\<lambda>(name, dep). cargo_unpinned_dep_finding section_name name dep path) deps)
                (visit_cargo_dependency_tables toml))
           else [])
          @ missing_lockfile_findings path siblings [''Cargo.lock''] ''MANIFEST_CARGO_MISSING_LOCKFILE''
              ''Cargo manifest has no matching nearby lockfile'')"

definition CARGO_NETWORK_CRATES :: "string list" where
  "CARGO_NETWORK_CRATES = [''reqwest'', ''hyper'', ''surf'', ''ureq'', ''attohttpc'', ''tonic'', ''tarpc'']"

definition CARGO_EXEC_CRATES :: "string list" where
  "CARGO_EXEC_CRATES = [''nix'', ''command-fds'', ''duct'']"

text \<open>What a dependency name shows, given the lists of network and process libraries.\<close>

definition library_capabilities :: "string list \<Rightarrow> string list \<Rightarrow> string \<Rightarrow> artifact_capability_fact list" where
  "library_capabilities network exec name =
     (if name \<in> set network then [observed_capability NetworkAccess] else [])
     @ (if name \<in> set exec then [observed_capability ProcessExecution] else [])"

definition cargo_toml_capabilities :: "(string \<Rightarrow> string + toml_value) \<Rightarrow> string \<Rightarrow> artifact_capability_fact list" where
  "cargo_toml_capabilities parse_toml content =
     (case parse_toml content of
        Inl e \<Rightarrow> []
      | Inr toml \<Rightarrow>
          dedup_capabilities_by_kind
            (concat (map (\<lambda>(section_name, deps).
                concat (map (\<lambda>(name, dep).
                  library_capabilities CARGO_NETWORK_CRATES CARGO_EXEC_CRATES (to_ascii_lowercase name)) deps))
              (visit_cargo_dependency_tables toml))))"

section \<open>pyproject.toml\<close>

definition project_dependencies :: "toml_value \<Rightarrow> string list" where
  "project_dependencies toml =
     (case Option.bind (Option.bind (toml_get toml ''project'') (\<lambda>p. toml_get p ''dependencies'')) toml_as_array of
        None \<Rightarrow> [] | Some deps \<Rightarrow> List.map_filter toml_str deps)"

definition poetry_dependencies :: "toml_value \<Rightarrow> (string \<times> toml_value) list" where
  "poetry_dependencies toml =
     (case Option.bind (Option.bind (Option.bind (toml_get toml ''tool'') (\<lambda>t. toml_get t ''poetry''))
             (\<lambda>p. toml_get p ''dependencies'')) toml_as_table of
        None \<Rightarrow> [] | Some deps \<Rightarrow> deps)"

definition is_unpinned_pep621_dependency :: "string \<Rightarrow> bool" where
  "is_unpinned_pep621_dependency dependency =
     (let requirement = takeWhile (\<lambda>c. c \<noteq> CHR '';'') dependency
      in \<not> (str_contains requirement ''=='' \<or> str_contains requirement ''~='' \<or> str_contains requirement ''@''))"

definition is_exact_poetry_version_pin :: "string \<Rightarrow> bool" where
  "is_exact_poetry_version_pin version =
     is_exact_dotted_version_pin (case strip_prefix version ''=='' of Some v \<Rightarrow> v | None \<Rightarrow> version)"

definition is_unpinned_poetry_version :: "string \<Rightarrow> bool" where
  "is_unpinned_poetry_version version =
     (let trimmed = str_trim version
      in if trimmed = [] then True
         else if to_ascii_lowercase trimmed \<in> set [''*'', ''latest''] then True
         else if hd trimmed \<in> set ''^~><!'' then True
         else if str_contains trimmed ''*'' \<or> str_contains trimmed '','' \<or> str_contains trimmed ''||'' then True
         else \<not> is_exact_poetry_version_pin trimmed)"

definition is_unpinned_poetry_dependency :: "toml_value \<Rightarrow> bool" where
  "is_unpinned_poetry_dependency spec =
     (case toml_str spec of
        Some version \<Rightarrow> is_unpinned_poetry_version version
      | None \<Rightarrow> (case Option.bind (toml_get spec ''version'') toml_str of
                   None \<Rightarrow> False | Some version \<Rightarrow> is_unpinned_poetry_version version))"

definition poetry_dependency_match_value :: "string \<Rightarrow> toml_value \<Rightarrow> string" where
  "poetry_dependency_match_value name spec =
     (case toml_str spec of
        Some version \<Rightarrow> name @ ''@'' @ version
      | None \<Rightarrow> (case Option.bind (toml_get spec ''version'') toml_str of
                   Some version \<Rightarrow> name @ ''@'' @ version | None \<Rightarrow> name))"

definition pyproject_unpinned_dep_finding :: "string \<Rightarrow> string \<Rightarrow> finding" where
  "pyproject_unpinned_dep_finding path m =
     manifest_unpinned_dep_finding ''MANIFEST_PYPROJECT_UNPINNED_DEP'' path m ''pyproject dependency is not strictly pinned''"

definition pyproject_expected_lockfiles :: "(string \<Rightarrow> string + toml_value) \<Rightarrow> string \<Rightarrow> string list" where
  "pyproject_expected_lockfiles parse_toml content =
     (case parse_toml content of
        Inl e \<Rightarrow> []
      | Inr toml \<Rightarrow>
          if Option.bind (toml_get toml ''tool'') (\<lambda>t. toml_get t ''poetry'') \<noteq> None then [''poetry.lock'']
          else if Option.bind (toml_get toml ''tool'') (\<lambda>t. toml_get t ''uv'') \<noteq> None then [''uv.lock'']
          else [])"

definition analyze_pyproject_toml :: "(string \<Rightarrow> string + toml_value) \<Rightarrow> string \<Rightarrow> string \<Rightarrow> string list \<Rightarrow> finding list" where
  "analyze_pyproject_toml parse_toml path content siblings =
     (case parse_toml content of
        Inl e \<Rightarrow>
          [manifest_parse_failure_finding ''MANIFEST_PYPROJECT_PARSE_FAILURE'' path e
             ''pyproject manifest is not valid TOML; dependency-pinning and lockfile analyses cannot run against this file'']
      | Inr toml \<Rightarrow>
          map (pyproject_unpinned_dep_finding path) (filter is_unpinned_pep621_dependency (project_dependencies toml))
          @ map (\<lambda>(name, spec). pyproject_unpinned_dep_finding path (poetry_dependency_match_value name spec))
              (filter (\<lambda>(name, spec). \<not> eq_ignore_ascii_case name ''python'' \<and> is_unpinned_poetry_dependency spec)
                (poetry_dependencies toml))
          @ (if pyproject_expected_lockfiles parse_toml content \<noteq> []
             then missing_lockfile_findings path siblings (pyproject_expected_lockfiles parse_toml content)
                    ''MANIFEST_PYPROJECT_MISSING_LOCKFILE'' ''pyproject manifest has no matching nearby lockfile''
             else []))"

definition pyproject_toml_capabilities :: "(string \<Rightarrow> string + toml_value) \<Rightarrow> string \<Rightarrow> artifact_capability_fact list" where
  "pyproject_toml_capabilities parse_toml content =
     (case parse_toml content of
        Inl e \<Rightarrow> []
      | Inr toml \<Rightarrow>
          dedup_capabilities_by_kind
            (concat (map (\<lambda>dep. case parse_python_dep_name (str_trim dep) of
                None \<Rightarrow> [] | Some name \<Rightarrow> library_capabilities PYTHON_NETWORK_DEPS PYTHON_EXEC_DEPS name)
              (project_dependencies toml @ map fst (poetry_dependencies toml)))))"

section \<open>Their branches of the dispatch\<close>

definition with_toml_detectors :: "(string \<Rightarrow> string + toml_value) \<Rightarrow> finding detectors \<Rightarrow> finding detectors" where
  "with_toml_detectors parse_toml ds =
     ds\<lparr>run_detector := (\<lambda>d path content siblings doc.
          case d of
            Cargo_toml \<Rightarrow> analyze_cargo_toml parse_toml path content siblings
          | Pyproject_toml \<Rightarrow> analyze_pyproject_toml parse_toml path content siblings
          | x \<Rightarrow> run_detector ds d path content siblings doc),
        run_capabilities := (\<lambda>d content.
          case d of
            Cargo_toml \<Rightarrow> cargo_toml_capabilities parse_toml content
          | Pyproject_toml \<Rightarrow> pyproject_toml_capabilities parse_toml content
          | x \<Rightarrow> run_capabilities ds d content),
        run_expected_lockfiles := (\<lambda>d content.
          if d = Pyproject_toml then pyproject_expected_lockfiles parse_toml content
          else run_expected_lockfiles ds d content)\<rparr>"

section \<open>Capabilities by kind\<close>

lemma kinds_of_dedup_by_kind: "fact_capability ` set (dedup_by_kind fs) = fact_capability ` set fs"
  by (induction fs rule: dedup_by_kind.induct) auto

lemma kinds_of_dedup [simp]: "fact_capability ` set (dedup_capabilities_by_kind fs) = fact_capability ` set fs"
  by (simp add: dedup_capabilities_by_kind_def kinds_of_dedup_by_kind)

lemma dedup_by_kind_hd: "fs \<noteq> [] \<Longrightarrow> fact_capability (hd (dedup_by_kind fs)) = fact_capability (hd fs) \<and> dedup_by_kind fs \<noteq> []"
  by (induction fs rule: dedup_by_kind.induct) auto

lemma capability_position_inj: "capability_position c = capability_position d \<longleftrightarrow> c = d"
  by (cases c; cases d; simp add: capability_position_def)

lemma dedup_by_kind_distinct:
  "sorted (map (\<lambda>f. capability_position (fact_capability f)) fs) \<Longrightarrow> distinct (map fact_capability (dedup_by_kind fs))"
proof (induction fs rule: dedup_by_kind.induct)
  case (1 f g fs)
  show ?case
  proof (cases "fact_capability f = fact_capability g")
    case False
    have "fact_capability f \<notin> fact_capability ` set (g # fs)"
    proof
      assume "fact_capability f \<in> fact_capability ` set (g # fs)"
      then have "capability_position (fact_capability g) \<le> capability_position (fact_capability f)"
        using 1(3) by auto
      then show False using 1(3) False capability_position_inj by force
    qed
    then have "fact_capability f \<notin> fact_capability ` set (dedup_by_kind (g # fs))"
      by (simp only: kinds_of_dedup_by_kind not_False_eq_True)
    then show ?thesis using 1(2) [OF False] 1(3) False by simp
  qed (use 1 in simp)
qed auto

text \<open>
  A list of capabilities keeps its kinds, each once: what a manifest's libraries show does not depend on how often or
  in which section they are named.
\<close>

theorem dedup_capabilities_correct:
  "distinct (map fact_capability (dedup_capabilities_by_kind fs))
   \<and> fact_capability ` set (dedup_capabilities_by_kind fs) = fact_capability ` set fs"
  by (simp add: dedup_capabilities_by_kind_def dedup_by_kind_distinct kinds_of_dedup_by_kind)

text \<open>A dependency of a crate: in one of the three tables, of the workspace or of a target.\<close>

definition crate_dependency :: "toml_value \<Rightarrow> string \<Rightarrow> bool" where
  "crate_dependency toml name \<longleftrightarrow>
     (\<exists>s \<in> set CARGO_DEPENDENCY_SECTIONS. name \<in> fst ` set (table_of toml s))
     \<or> (\<exists>w. toml_get toml ''workspace'' = Some w \<and> name \<in> fst ` set (table_of w ''dependencies''))
     \<or> (\<exists>target v. (target, v) \<in> set (table_of toml ''target'')
          \<and> (\<exists>s \<in> set CARGO_DEPENDENCY_SECTIONS. name \<in> fst ` set (table_of v s)))"

lemma target_visits:
  "(case toml_as_table v of None \<Rightarrow> []
      | Some target_table \<Rightarrow> concat (map (\<lambda>s. visits_of (n s) (map_of target_table s)) ss))
     = concat (map (\<lambda>s. visits_of (n s) (toml_get v s)) ss)"
  by (cases v) (simp_all add: toml_as_table_def visits_of_def)

definition visited :: "string \<Rightarrow> (string \<times> (string \<times> toml_value) list) list \<Rightarrow> bool" where
  "visited name vs \<longleftrightarrow> (\<exists>(section_name, deps) \<in> set vs. name \<in> fst ` set deps)"

lemma visited_append [simp]: "visited name (vs @ ws) \<longleftrightarrow> visited name vs \<or> visited name ws"
  by (auto simp: visited_def)

lemma visited_concat [simp]: "visited name (concat (map f xs)) \<longleftrightarrow> (\<exists>x \<in> set xs. visited name (f x))"
  by (auto simp: visited_def)

lemma visited_table [simp]: "visited name (visits_of n (toml_get v s)) \<longleftrightarrow> name \<in> fst ` set (table_of v s)"
proof (cases "toml_get v s")
  case None
  then show ?thesis by (simp add: visited_def visits_of_def table_of_def)
next
  case (Some t)
  then show ?thesis by (cases t) (simp_all add: visited_def visits_of_def table_of_def toml_as_table_def)
qed

lemma visited_nothing [simp]: "\<not> visited name (visits_of n None)" "\<not> visited name []"
  by (simp_all add: visited_def visits_of_def)

lemma visits_exact: "visited name (visit_cargo_dependency_tables toml) \<longleftrightarrow> crate_dependency toml name"
proof -
  have workspace: "visited name (visits_of n (Option.bind (toml_get toml ''workspace'') (\<lambda>w. toml_get w ''dependencies'')))
      \<longleftrightarrow> (\<exists>w. toml_get toml ''workspace'' = Some w \<and> name \<in> fst ` set (table_of w ''dependencies''))" for n
    by (cases "toml_get toml ''workspace''") simp_all
  have targets: "visited name (case Option.bind (toml_get toml ''target'') toml_as_table of None \<Rightarrow> [] | Some ts \<Rightarrow> concat (map g ts))
      \<longleftrightarrow> (\<exists>p \<in> set (table_of toml ''target''). visited name (g p))" for g
  proof (cases "toml_get toml ''target''")
    case (Some t)
    then show ?thesis by (cases t) (simp_all add: table_of_def toml_as_table_def)
  qed (simp add: table_of_def)
  show ?thesis
    unfolding visit_cargo_dependency_tables_def crate_dependency_def target_visits visited_append visited_concat workspace targets
    unfolding Bex_def split_paired_Ex prod.case visited_concat visited_table by blast
qed

text \<open>
  A crate shows network access exactly if a table of the manifest names a network library, process execution exactly
  if one names a process library, and nothing else; no kind is listed twice. With a lockfile beside it nothing is reported.
\<close>

theorem cargo_capabilities_exact:
  "let caps = map fact_capability (cargo_toml_capabilities parse_toml content) in
     distinct caps
     \<and> (case parse_toml content of
          Inl e \<Rightarrow> caps = []
        | Inr toml \<Rightarrow>
            (NetworkAccess \<in> set caps) = (\<exists>name. crate_dependency toml name \<and> to_ascii_lowercase name \<in> set CARGO_NETWORK_CRATES)
            \<and> (ProcessExecution \<in> set caps) = (\<exists>name. crate_dependency toml name \<and> to_ascii_lowercase name \<in> set CARGO_EXEC_CRATES)
            \<and> set caps \<subseteq> {NetworkAccess, ProcessExecution}
            \<and> (if sibling_has_file siblings ''Cargo.lock'' then analyze_cargo_toml parse_toml path content siblings = [] else True))"
proof (cases "parse_toml content")
  case (Inl e)
  then show ?thesis by (simp add: cargo_toml_capabilities_def)
next
  case (Inr toml)
  let ?crates = "{name. crate_dependency toml name}"
  have "set (concat (map (\<lambda>(section_name, deps).
            concat (map (\<lambda>(name, dep). library_capabilities CARGO_NETWORK_CRATES CARGO_EXEC_CRATES (to_ascii_lowercase name)) deps))
          (visit_cargo_dependency_tables toml)))
      = (\<Union>name \<in> ?crates. set (library_capabilities CARGO_NETWORK_CRATES CARGO_EXEC_CRATES (to_ascii_lowercase name)))"
    unfolding visits_exact [symmetric] by (force simp: visited_def)
  then have kinds: "set (map fact_capability (cargo_toml_capabilities parse_toml content))
      = (\<Union>name \<in> ?crates. fact_capability ` set (library_capabilities CARGO_NETWORK_CRATES CARGO_EXEC_CRATES (to_ascii_lowercase name)))"
    by (simp add: Inr cargo_toml_capabilities_def image_UN)
  have dist: "distinct (map fact_capability (cargo_toml_capabilities parse_toml content))"
    by (simp add: Inr cargo_toml_capabilities_def dedup_capabilities_correct)
  show ?thesis
    unfolding Let_def kinds Inr sum.case using dist
    by (auto simp: library_capabilities_def observed_capability_def analyze_cargo_toml_def missing_lockfile_findings_def Inr
        split: if_splits)
qed

text \<open>What they miss: the library behind a renamed dependency, and a partial version after the equals sign.\<close>

lemma renamed_crate_missed:
  "cargo_toml_capabilities (\<lambda>c. Inr (TV_Table [(''dependencies'', TV_Table [(''http'', TV_Table [(''package'', TV_String ''reqwest'')])])])) c = []"
  by (simp add: cargo_toml_capabilities_def, code_simp)

lemma partial_pin_accepted: "is_strict_cargo_pin ''=1''" "is_strict_cargo_pin ''=''"
  by code_simp+

end
