(* ===== verification/Deceptive_Docs.thy ===== *)
theory Deceptive_Docs
  imports Rule_Matching
begin

text \<open>
  Documents that claim what their files contradict (\<open>deceptive_docs.rs\<close>): a claim in the document and a
  pattern in a script. The compiled tables of claim and contradiction patterns are a parameter; that the
  last kind has no contradictions of its own is written out.
\<close>

section \<open>Claims\<close>

definition CONTRADICTION_EVIDENCE_MAX_CHARS :: nat where "CONTRADICTION_EVIDENCE_MAX_CHARS = 120"

definition CLAIM_EVIDENCE_MAX_CHARS :: nat where "CLAIM_EVIDENCE_MAX_CHARS = 80"

datatype claim_kind = NoNetwork | NoSubprocess | EncryptedOnly | NoTelemetry | AuditedSafe

fun claim_label :: "claim_kind \<Rightarrow> string" where
  "claim_label NoNetwork = ''NO_NETWORK''"
| "claim_label NoSubprocess = ''NO_SUBPROCESS''"
| "claim_label EncryptedOnly = ''ENCRYPTED_ONLY''"
| "claim_label NoTelemetry = ''NO_TELEMETRY''"
| "claim_label AuditedSafe = ''AUDITED_SAFE''"

fun claim_phrase :: "claim_kind \<Rightarrow> string" where
  "claim_phrase NoNetwork = ''no network access''"
| "claim_phrase NoSubprocess = ''no subprocess / static analysis only''"
| "claim_phrase EncryptedOnly = ''data is encrypted at rest''"
| "claim_phrase NoTelemetry = ''no telemetry / tracking''"
| "claim_phrase AuditedSafe = ''the skill is audited''"

record claim_lib =
  dc_claims :: "claim_kind \<Rightarrow> compiled_pattern list"
  dc_contradictions :: "claim_kind \<Rightarrow> compiled_pattern list"
  dc_crypto_language :: "string \<Rightarrow> bool"

text \<open>The tables in their order; audit claims only amplify.\<close>

definition CLAIM_KINDS :: "claim_kind list" where
  "CLAIM_KINDS = [NoNetwork, NoSubprocess, EncryptedOnly, NoTelemetry, AuditedSafe]"

definition contradiction_regexes :: "claim_lib \<Rightarrow> claim_kind \<Rightarrow> compiled_pattern list" where
  "contradiction_regexes lib k = (if k = AuditedSafe then [] else dc_contradictions lib k)"

text \<open>The first match of the first pattern that has one.\<close>

fun first_match :: "compiled_pattern list \<Rightarrow> string \<Rightarrow> pattern_match option" where
  "first_match [] text = None"
| "first_match (re # res) text = (case re text of m # ms \<Rightarrow> Some m | [] \<Rightarrow> first_match res text)"

record detected_claim =
  cl_kind :: claim_kind
  cl_text :: string
  cl_line :: nat

definition claims_of_kind :: "claim_lib \<Rightarrow> string \<Rightarrow> claim_kind \<Rightarrow> detected_claim list" where
  "claims_of_kind lib skill_md k =
     List.map_filter (\<lambda>(idx, line).
         map_option (\<lambda>m. \<lparr>cl_kind = k, cl_text = pm_text m, cl_line = idx + 1\<rparr>) (first_match (dc_claims lib k) line))
       (enumerate 0 (str_lines skill_md))"

definition detect_claims :: "claim_lib \<Rightarrow> string \<Rightarrow> detected_claim list" where
  "detect_claims lib skill_md = concat (map (claims_of_kind lib skill_md) CLAIM_KINDS)"

section \<open>Contradictions\<close>

record detected_contradiction =
  ct_kind :: claim_kind
  ct_artifact :: string
  ct_text :: string
  ct_line :: "nat option"

fun locate_line_from :: "nat \<Rightarrow> nat \<Rightarrow> nat \<Rightarrow> string list \<Rightarrow> nat option" where
  "locate_line_from byte_offset line n [] = Some line"
| "locate_line_from byte_offset line n (ch # chs) =
     (if byte_offset \<le> n then Some line
      else locate_line_from byte_offset (if ch = [CHR 0x0A] then line + 1 else line) (n + length ch) chs)"

definition locate_line :: "string \<Rightarrow> nat \<Rightarrow> nat option" where
  "locate_line content byte_offset = locate_line_from byte_offset 1 0 (str_chars content)"

definition contradiction_of_kind :: "claim_lib \<Rightarrow> string \<Rightarrow> string \<Rightarrow> claim_kind \<Rightarrow> detected_contradiction option" where
  "contradiction_of_kind lib artifact contents k =
     (if k = EncryptedOnly \<and> dc_crypto_language lib contents then None
      else map_option (\<lambda>m. \<lparr>ct_kind = k, ct_artifact = artifact, ct_text = pm_text m,
                             ct_line = locate_line contents (pm_start m)\<rparr>)
             (first_match (contradiction_regexes lib k) contents))"

definition detect_contradictions ::
    "claim_lib \<Rightarrow> string \<Rightarrow> string \<Rightarrow> claim_kind list \<Rightarrow> detected_contradiction list" where
  "detect_contradictions lib artifact contents only_claims =
     (if \<not> looks_like_script artifact then []
      else List.map_filter (contradiction_of_kind lib artifact contents)
             (filter (\<lambda>k. k \<in> set only_claims) CLAIM_KINDS))"

definition take_chars :: "nat \<Rightarrow> string \<Rightarrow> string" where
  "take_chars n s = concat (take n (str_chars s))"

definition deceptive_finding :: "bool \<Rightarrow> detected_claim \<Rightarrow> detected_contradiction \<Rightarrow> finding" where
  "deceptive_finding amplify claim contra =
     build_with (''SKILL_DECEPTIVE_DOC_'' @ claim_label (ct_kind contra)) SocialManipulation
       ([Set_severity (if amplify then Critical else High), Set_confidence (f32_of_rat (85 / 100)),
         Set_signal_class MaliciousBehavior, Set_matched_on (ReferencedFile (ct_artifact contra)),
         Set_match_value (take_chars CONTRADICTION_EVIDENCE_MAX_CHARS (ct_text contra)
           @ '' (contradicts SKILL.md line '' @ digits_of (cl_line claim) @ '': '' @ [CHR 0x22]
           @ take_chars CLAIM_EVIDENCE_MAX_CHARS (cl_text claim) @ [CHR 0x22] @ '')''),
         Set_reason (''SKILL.md claims '' @ claim_phrase (ct_kind contra) @ '' but '' @ ct_artifact contra
           @ '' contains contradicting behavior''),
         Set_action Block, Set_evidence_kind Behavior, Set_artifact ReferencedArtifact (Some (ct_artifact contra))]
        @ (case ct_line contra of Some l \<Rightarrow> [Set_line l] | None \<Rightarrow> []))"

definition contradiction_finding :: "detected_claim list \<Rightarrow> detected_contradiction \<Rightarrow> finding option" where
  "contradiction_finding claims contra =
     map_option (\<lambda>claim. deceptive_finding (AuditedSafe \<in> cl_kind ` set claims) claim contra)
       (List.find (\<lambda>c. cl_kind c = ct_kind contra) claims)"

definition detect_deceptive_documentation ::
    "claim_lib \<Rightarrow> skill_document \<Rightarrow> (string \<times> string) list \<Rightarrow> finding list" where
  "detect_deceptive_documentation lib doc supporting_artifacts =
     (let claims = detect_claims lib (doc_raw_content doc)
      in if claims = [] then []
         else concat (map (\<lambda>(artifact, content).
                List.map_filter (contradiction_finding claims)
                  (detect_contradictions lib artifact content (map cl_kind claims))) supporting_artifacts))"

section \<open>What is reported\<close>

definition claimed :: "claim_lib \<Rightarrow> string \<Rightarrow> claim_kind \<Rightarrow> bool" where
  "claimed lib skill_md k \<longleftrightarrow> list_ex (\<lambda>line. list_ex (\<lambda>re. re line \<noteq> []) (dc_claims lib k)) (str_lines skill_md)"

definition contradicted :: "claim_lib \<Rightarrow> string \<Rightarrow> claim_kind \<Rightarrow> bool" where
  "contradicted lib contents k \<longleftrightarrow>
     k \<noteq> AuditedSafe \<and> \<not> (k = EncryptedOnly \<and> dc_crypto_language lib contents)
     \<and> list_ex (\<lambda>re. re contents \<noteq> []) (dc_contradictions lib k)"

lemma first_match_iff: "first_match res text \<noteq> None \<longleftrightarrow> list_ex (\<lambda>re. re text \<noteq> []) res"
  by (induction res) (auto split: list.split)

lemma claims_kind: "c \<in> set (claims_of_kind lib s k) \<Longrightarrow> cl_kind c = k"
  by (auto simp: claims_of_kind_def List.map_filter_def)

lemma map_filter_nonempty: "List.map_filter f xs \<noteq> [] \<longleftrightarrow> (\<exists>x \<in> set xs. f x \<noteq> None)"
  by (simp add: List.map_filter_def filter_empty_conv)

lemma claims_of_kind_Nil: "claims_of_kind lib s k \<noteq> [] \<longleftrightarrow> claimed lib s k"
proof -
  have "claims_of_kind lib s k \<noteq> []
      \<longleftrightarrow> (\<exists>l \<in> snd ` set (enumerate 0 (str_lines s)). first_match (dc_claims lib k) l \<noteq> None)"
    by (simp add: claims_of_kind_def map_filter_nonempty case_prod_unfold)
  also have "snd ` set (enumerate 0 (str_lines s)) = set (str_lines s)" by (simp flip: set_map)
  finally show ?thesis unfolding first_match_iff claimed_def by (simp add: list_ex_iff)
qed

lemma claimed_kinds: "cl_kind ` set (detect_claims lib s) = {k. claimed lib s k}"
proof (rule set_eqI)
  fix k
  have all: "k \<in> set CLAIM_KINDS" by (cases k) (simp_all add: CLAIM_KINDS_def)
  have "k \<in> cl_kind ` set (detect_claims lib s) \<longleftrightarrow> claims_of_kind lib s k \<noteq> []"
  proof
    assume "k \<in> cl_kind ` set (detect_claims lib s)"
    then obtain c k' where "c \<in> set (claims_of_kind lib s k')" "k = cl_kind c" by (auto simp: detect_claims_def)
    then show "claims_of_kind lib s k \<noteq> []" using claims_kind [of c lib s k'] by auto
  next
    assume "claims_of_kind lib s k \<noteq> []"
    then have hd: "hd (claims_of_kind lib s k) \<in> set (claims_of_kind lib s k)" by simp
    then have "hd (claims_of_kind lib s k) \<in> set (detect_claims lib s)" using all by (auto simp: detect_claims_def)
    then show "k \<in> cl_kind ` set (detect_claims lib s)"
      by (intro image_eqI [where x = "hd (claims_of_kind lib s k)"]) (simp add: claims_kind [OF hd])
  qed
  then show "k \<in> cl_kind ` set (detect_claims lib s) \<longleftrightarrow> k \<in> {k. claimed lib s k}" by (simp add: claims_of_kind_Nil)
qed

lemma contradiction_iff: "contradiction_of_kind lib a c k \<noteq> None \<longleftrightarrow> contradicted lib c k"
  using first_match_iff [of "contradiction_regexes lib k" c]
  by (auto simp: contradiction_of_kind_def contradicted_def contradiction_regexes_def)

lemma contradiction_fields:
  "contradiction_of_kind lib a c k = Some x \<Longrightarrow> ct_kind x = k \<and> ct_artifact x = a"
  by (auto simp: contradiction_of_kind_def split: if_splits)

lemma deceptive_fields:
  "rule_id (deceptive_finding am cl x) = ''SKILL_DECEPTIVE_DOC_'' @ claim_label (ct_kind x)"
  "artifact_path (deceptive_finding am cl x) = Some (ct_artifact x)" "f_action (deceptive_finding am cl x) = Block"
  "f_signal_class (deceptive_finding am cl x) = MaliciousBehavior"
  "f_severity (deceptive_finding am cl x) = (if am then Critical else High)"
  by (simp_all add: deceptive_finding_def build_with_def build_def case_prod_unfold builder_new_def Let_def split: option.split)

lemma claim_found:
  assumes "k \<in> cl_kind ` set claims"
  obtains c where "List.find (\<lambda>c. cl_kind c = k) claims = Some c"
  using assms by (cases "List.find (\<lambda>c. cl_kind c = k) claims") (auto simp: find_None_iff)

text \<open>The findings for one file.\<close>

lemma artifact_findings:
  fixes lib s
  defines "claims \<equiv> detect_claims lib s"
  shows "map (\<lambda>f. (rule_id f, artifact_path f)) (List.map_filter (contradiction_finding claims)
       (detect_contradictions lib a c (map cl_kind claims)))
     = (if looks_like_script a
        then map (\<lambda>k. (''SKILL_DECEPTIVE_DOC_'' @ claim_label k, Some a))
               (filter (\<lambda>k. claimed lib s k \<and> contradicted lib c k) CLAIM_KINDS)
        else [])"
proof -
  have kinds: "k \<in> set (map cl_kind claims) \<longleftrightarrow> claimed lib s k" for k
    using claimed_kinds [of lib s] by (auto simp: claims_def)
  have "map (\<lambda>f. (rule_id f, artifact_path f)) (List.map_filter (contradiction_finding claims)
        (List.map_filter (contradiction_of_kind lib a c) (filter (claimed lib s) ks)))
      = map (\<lambda>k. (''SKILL_DECEPTIVE_DOC_'' @ claim_label k, Some a))
          (filter (\<lambda>k. claimed lib s k \<and> contradicted lib c k) ks)" for ks
  proof (induction ks)
    case (Cons k ks)
    show ?case
    proof (cases "claimed lib s k \<and> contradicted lib c k")
      case True
      then obtain x where x: "contradiction_of_kind lib a c k = Some x" using contradiction_iff [of lib a c k] by blast
      obtain cl where "List.find (\<lambda>c. cl_kind c = k) claims = Some cl"
        using claim_found [of k claims] kinds [of k] True by auto
      then have "contradiction_finding claims x = Some (deceptive_finding (AuditedSafe \<in> cl_kind ` set claims) cl x)"
        using contradiction_fields [OF x] by (simp add: contradiction_finding_def)
      then show ?thesis
        using True x Cons.IH contradiction_fields [OF x] by (simp add: map_filter_simps deceptive_fields)
    next
      case False
      then show ?thesis
        using Cons.IH contradiction_iff [of lib a c k] by (auto simp: map_filter_simps split: option.splits)
    qed
  qed (simp add: map_filter_simps)
  then show ?thesis using kinds by (simp add: detect_contradictions_def map_filter_simps)
qed

lemma detect_contradictions_skips: "\<not> looks_like_script a \<Longrightarrow> detect_contradictions lib a c ks = []"
  by (simp add: detect_contradictions_def)

section \<open>Properties\<close>

text \<open>
  Claim C14: the check reports, for every script in order and every kind of claim in order, exactly the claims that the
  document makes on some line and the script contradicts; encryption claims are not held against a script that
  mentions cryptography. Every report blocks as malicious behavior, and an audit claim makes all of them critical.
\<close>

theorem deceptive_docs_exact:
  "let s = doc_raw_content doc; fs = detect_deceptive_documentation lib doc artifacts in
     map (\<lambda>f. (rule_id f, artifact_path f)) fs
       = concat (map (\<lambda>(a, c). map (\<lambda>k. (''SKILL_DECEPTIVE_DOC_'' @ claim_label k, Some a))
             (filter (\<lambda>k. claimed lib s k \<and> contradicted lib c k) CLAIM_KINDS))
           (filter (\<lambda>(a, c). looks_like_script a) artifacts))
     \<and> list_all (\<lambda>f. f_action f = Block \<and> f_signal_class f = MaliciousBehavior
         \<and> f_severity f = (if claimed lib s AuditedSafe then Critical else High)) fs"
proof -
  let ?s = "doc_raw_content doc"
  let ?claims = "detect_claims lib ?s"
  have none: "filter (\<lambda>k. claimed lib ?s k \<and> contradicted lib c k) CLAIM_KINDS = []" if "?claims = []" for c
    using that claimed_kinds [of lib ?s] by (auto simp: filter_empty_conv)
  have fs: "detect_deceptive_documentation lib doc artifacts
      = (if ?claims = [] then [] else concat (map (\<lambda>(artifact, content).
           List.map_filter (contradiction_finding ?claims)
             (detect_contradictions lib artifact content (map cl_kind ?claims))) artifacts))"
    by (simp add: detect_deceptive_documentation_def Let_def)
  have "map (\<lambda>f. (rule_id f, artifact_path f)) (detect_deceptive_documentation lib doc artifacts)
      = concat (map (\<lambda>(a, c). map (\<lambda>k. (''SKILL_DECEPTIVE_DOC_'' @ claim_label k, Some a))
          (filter (\<lambda>k. claimed lib ?s k \<and> contradicted lib c k) CLAIM_KINDS))
        (filter (\<lambda>(a, c). looks_like_script a) artifacts))"
  proof (cases "?claims = []")
    case True
    then show ?thesis by (simp add: fs none case_prod_unfold)
  next
    case False
    then show ?thesis
      unfolding fs by (simp, induction artifacts) (auto simp: artifact_findings detect_contradictions_skips map_filter_simps)
  qed
  moreover have "AuditedSafe \<in> cl_kind ` set ?claims \<longleftrightarrow> claimed lib ?s AuditedSafe"
    using claimed_kinds [of lib ?s] by auto
  then have "list_all (\<lambda>f. f_action f = Block \<and> f_signal_class f = MaliciousBehavior
      \<and> f_severity f = (if claimed lib ?s AuditedSafe then Critical else High))
      (detect_deceptive_documentation lib doc artifacts)"
    unfolding fs list_all_iff
    by (auto simp: List.map_filter_def contradiction_finding_def deceptive_fields split: if_splits)
  ultimately show ?thesis by (simp add: Let_def)
qed

end
