(* ===== verification/Unicode_Deception.thy ===== *)
theory Unicode_Deception
  imports Builder
begin

text \<open>
  Hidden and disguising characters in a text (\<open>unicode_deception.rs\<close>): invisible and zero-width
  characters, bidirectional overrides, tag characters and tokens that mix scripts. A character is the
  list of its UTF-8 bytes; the classifiers look at its code point.
\<close>

section \<open>Kinds of deception\<close>

definition EVIDENCE_CONTEXT_CHARS :: nat where "EVIDENCE_CONTEXT_CHARS = 24"

definition MIN_HOMOGLYPH_TOKEN_LEN :: nat where "MIN_HOMOGLYPH_TOKEN_LEN = 2"

datatype deception_kind = InvisibleChars | BidiOverride | TagBlock | HomoglyphMix

fun deception_rule_id :: "deception_kind \<Rightarrow> string" where
  "deception_rule_id InvisibleChars = ''UNICODE_INVISIBLE_CHARS''"
| "deception_rule_id BidiOverride = ''UNICODE_BIDI_OVERRIDE''"
| "deception_rule_id TagBlock = ''UNICODE_TAG_BLOCK''"
| "deception_rule_id HomoglyphMix = ''UNICODE_HOMOGLYPH_MIX''"

definition deception_category :: "deception_kind \<Rightarrow> threat_category" where
  "deception_category k = (if k = TagBlock then PersistentPromptTampering else Obfuscation)"

definition deception_severity :: "deception_kind \<Rightarrow> severity" where
  "deception_severity k = (if k \<in> {TagBlock, BidiOverride} then High else Medium)"

fun deception_reason :: "deception_kind \<Rightarrow> string" where
  "deception_reason InvisibleChars =
     ''invisible/zero-width characters embedded in text can hide instructions or disguise identifiers''"
| "deception_reason BidiOverride =
     ''bidirectional-override control characters can reorder source so rendered text differs from logical content (Trojan Source)''"
| "deception_reason TagBlock =
     ''Unicode tag-block characters (U+E0000-U+E007F) encode hidden ASCII invisible to humans but read by the model (ASCII smuggling)''"
| "deception_reason HomoglyphMix =
     ''a single token mixes Latin with Cyrillic or Greek look-alike characters, a homoglyph disguise''"

section \<open>Characters\<close>

text \<open>\<open>c as u32\<close>, and the ranges of the classifiers.\<close>

definition code_point :: "string \<Rightarrow> nat" where
  "code_point ch =
     (case map byte_of ch of
        [a] \<Rightarrow> a
      | [a, b] \<Rightarrow> (a mod 32) * 64 + b mod 64
      | [a, b, c] \<Rightarrow> ((a mod 16) * 64 + b mod 64) * 64 + c mod 64
      | [a, b, c, d] \<Rightarrow> (((a mod 8) * 64 + b mod 64) * 64 + c mod 64) * 64 + d mod 64
      | x \<Rightarrow> 0)"

definition char_between :: "nat \<Rightarrow> nat \<Rightarrow> string \<Rightarrow> bool" where
  "char_between lo hi ch \<longleftrightarrow> lo \<le> code_point ch \<and> code_point ch \<le> hi"

datatype script = Latin | Cyrillic | Greek | Other_Script

definition script_of :: "string \<Rightarrow> script" where
  "script_of ch =
     (if char_between 0x61 0x7A ch \<or> char_between 0x41 0x5A ch then Latin
      else if char_between 0xC0 0x24F ch then Latin
      else if char_between 0x370 0x3FF ch \<or> char_between 0x1F00 0x1FFF ch then Greek
      else if char_between 0x400 0x52F ch then Cyrillic
      else Other_Script)"

definition is_invisible_format :: "string \<Rightarrow> bool" where
  "is_invisible_format ch \<longleftrightarrow>
     code_point ch \<in> {0x200B, 0x200C, 0x200D, 0x2060, 0xFEFF, 0x180E, 0x061C, 0x115F, 0x1160, 0x3164, 0xFFA0}
     \<or> char_between 0x2061 0x2064 ch \<or> char_between 0xE0100 0xE01EF ch"

definition is_bidi_control :: "string \<Rightarrow> bool" where
  "is_bidi_control ch \<longleftrightarrow> char_between 0x202A 0x202E ch \<or> char_between 0x2066 0x2069 ch"

definition is_tag_block :: "string \<Rightarrow> bool" where
  "is_tag_block ch \<longleftrightarrow> char_between 0xE0000 0xE007F ch"

definition ascii_alphanumeric_char :: "string \<Rightarrow> bool" where
  "ascii_alphanumeric_char ch \<longleftrightarrow> char_between 0x30 0x39 ch \<or> char_between 0x41 0x5A ch \<or> char_between 0x61 0x7A ch"

section \<open>Occurrences\<close>

record occurrence =
  oc_kind :: deception_kind
  oc_line :: nat
  oc_count :: nat
  oc_sample :: string

fun hex_digits :: "nat \<Rightarrow> string" where
  "hex_digits n =
     (if n < 16 then [char_of (if n < 10 then 48 + n else 55 + n)]
      else hex_digits (n div 16) @ [char_of (if n mod 16 < 10 then 48 + n mod 16 else 55 + n mod 16)])"

declare hex_digits.simps [simp del]

text \<open>\<open>format!("U+{:04X}")\<close>\<close>

definition code_sample :: "string \<Rightarrow> string" where
  "code_sample ch =
     (let h = hex_digits (code_point ch) in ''U+'' @ replicate (4 - length h) CHR ''0'' @ h)"

definition record_occurrence :: "occurrence option \<Rightarrow> deception_kind \<Rightarrow> nat \<Rightarrow> string \<Rightarrow> occurrence option" where
  "record_occurrence slot kind line ch =
     (case slot of
        Some occ \<Rightarrow> Some (occ\<lparr>oc_count := oc_count occ + 1\<rparr>)
      | None \<Rightarrow> Some \<lparr>oc_kind = kind, oc_line = line, oc_count = 1, oc_sample = code_sample ch\<rparr>)"

text \<open>The nearest visible neighbour on either side.\<close>

definition next_visible :: "string list \<Rightarrow> bool" where
  "next_visible chars =
     (case List.find (\<lambda>c. \<not> is_invisible_format c) chars of None \<Rightarrow> False | Some c \<Rightarrow> ascii_alphanumeric_char c)"

definition embedded_in_ascii :: "string list \<Rightarrow> nat \<Rightarrow> bool" where
  "embedded_in_ascii chars idx \<longleftrightarrow> next_visible (rev (take idx chars)) \<or> next_visible (drop (idx + 1) chars)"

record deception_state =
  ds_line :: nat
  ds_invisible :: "occurrence option"
  ds_bidi :: "occurrence option"
  ds_tag :: "occurrence option"

definition scan_char :: "string list \<Rightarrow> deception_state \<Rightarrow> nat \<times> string \<Rightarrow> deception_state" where
  "scan_char chars st = (\<lambda>(idx, c).
     if c = [CHR 0x0A] then st\<lparr>ds_line := ds_line st + 1\<rparr>
     else if \<not> (idx = 0 \<and> code_point c = 0xFEFF) \<and> is_invisible_format c \<and> embedded_in_ascii chars idx
     then st\<lparr>ds_invisible := record_occurrence (ds_invisible st) InvisibleChars (ds_line st) c\<rparr>
     else if is_bidi_control c
     then st\<lparr>ds_bidi := record_occurrence (ds_bidi st) BidiOverride (ds_line st) c\<rparr>
     else if is_tag_block c
     then st\<lparr>ds_tag := record_occurrence (ds_tag st) TagBlock (ds_line st) c\<rparr>
     else st)"

definition mixes_scripts :: "string \<Rightarrow> bool" where
  "mixes_scripts token \<longleftrightarrow>
     \<not> length (str_chars token) < MIN_HOMOGLYPH_TOKEN_LEN
     \<and> list_ex (\<lambda>c. script_of c = Latin) (str_chars token)
     \<and> (list_ex (\<lambda>c. script_of c = Cyrillic) (str_chars token) \<or> list_ex (\<lambda>c. script_of c = Greek) (str_chars token))"

fun homoglyph_in_lines :: "nat \<Rightarrow> string list \<Rightarrow> occurrence option" where
  "homoglyph_in_lines idx [] = None"
| "homoglyph_in_lines idx (l # ls) =
     (case List.find mixes_scripts (split_whitespace l) of
        Some token \<Rightarrow>
          Some \<lparr>oc_kind = HomoglyphMix, oc_line = idx + 1, oc_count = 1,
                oc_sample = concat (take EVIDENCE_CONTEXT_CHARS (str_chars token))\<rparr>
      | None \<Rightarrow> homoglyph_in_lines (idx + 1) ls)"

definition detect_homoglyph_mix :: "string \<Rightarrow> occurrence option" where
  "detect_homoglyph_mix content = homoglyph_in_lines 0 (str_lines content)"

definition option_list :: "'a option \<Rightarrow> 'a list" where
  "option_list x = (case x of None \<Rightarrow> [] | Some y \<Rightarrow> [y])"

definition collect_occurrences :: "string \<Rightarrow> occurrence list" where
  "collect_occurrences content =
     (let chars = str_chars content;
          st = foldl (scan_char chars) \<lparr>ds_line = 1, ds_invisible = None, ds_bidi = None, ds_tag = None\<rparr>
                 (enumerate 0 chars)
      in option_list (ds_invisible st) @ option_list (ds_bidi st) @ option_list (ds_tag st)
         @ option_list (detect_homoglyph_mix content))"

definition build_deception_finding :: "artifact_kind \<Rightarrow> string \<Rightarrow> occurrence \<Rightarrow> finding" where
  "build_deception_finding kind path occ =
     (let sev = deception_severity (oc_kind occ);
          action = (case sev of Critical \<Rightarrow> Block | High \<Rightarrow> Block | Medium \<Rightarrow> RequireApproval | Low \<Rightarrow> Log)
      in build_with (deception_rule_id (oc_kind occ)) (deception_category (oc_kind occ))
           [Set_severity sev, Set_confidence (f32_of_rat (85 / 100)), Set_matched_on (ReferencedFile path),
            Set_match_value (oc_sample occ @ '' '' @ [CHR 0xC3, CHR 0x97] @ digits_of (oc_count occ)
              @ '' (first sample: '' @ oc_sample occ @ '')''),
            Set_reason (deception_reason (oc_kind occ)), Set_action action, Set_evidence_kind Behavior,
            Set_artifact kind (Some path), Set_line (oc_line occ)])"

definition scan_unicode_deception :: "string \<Rightarrow> artifact_kind \<Rightarrow> string \<Rightarrow> finding list" where
  "scan_unicode_deception content kind path = map (build_deception_finding kind path) (collect_occurrences content)"

section \<open>What the scan reports\<close>

text \<open>The kind of a position, the line it is on, and one occurrence per kind over a prefix.\<close>

definition kind_at :: "string list \<Rightarrow> nat \<Rightarrow> deception_kind option" where
  "kind_at chars i =
     (let c = chars ! i
      in if c = [CHR 0x0A] then None
         else if \<not> (i = 0 \<and> code_point c = 0xFEFF) \<and> is_invisible_format c \<and> embedded_in_ascii chars i
         then Some InvisibleChars
         else if is_bidi_control c then Some BidiOverride
         else if is_tag_block c then Some TagBlock else None)"

definition line_of :: "string list \<Rightarrow> nat \<Rightarrow> nat" where
  "line_of chars i = 1 + length (filter (\<lambda>c. c = [CHR 0x0A]) (take i chars))"

definition occurrence_in :: "deception_kind \<Rightarrow> string list \<Rightarrow> nat \<Rightarrow> occurrence option" where
  "occurrence_in k chars n =
     (case filter (\<lambda>i. kind_at chars i = Some k) [0..<n] of
        [] \<Rightarrow> None
      | i # more_is \<Rightarrow> Some \<lparr>oc_kind = k, oc_line = line_of chars i, oc_count = Suc (length more_is),
                        oc_sample = code_sample (chars ! i)\<rparr>)"

lemma line_of_Suc:
  "n < length chars \<Longrightarrow> line_of chars (Suc n) = line_of chars n + (if chars ! n = [CHR 0x0A] then 1 else 0)"
  by (simp add: line_of_def take_Suc_conv_app_nth)

lemma occurrence_in_Suc:
  "occurrence_in k chars (Suc n)
     = (if kind_at chars n = Some k then record_occurrence (occurrence_in k chars n) k (line_of chars n) (chars ! n)
        else occurrence_in k chars n)"
  by (auto simp: occurrence_in_def record_occurrence_def split: list.split)

text \<open>One step, by the kind of the position.\<close>

lemma scan_char_kind:
  "scan_char chars st (n, chars ! n)
     = (case kind_at chars n of
          Some InvisibleChars \<Rightarrow>
            st\<lparr>ds_invisible := record_occurrence (ds_invisible st) InvisibleChars (ds_line st) (chars ! n)\<rparr>
        | Some BidiOverride \<Rightarrow> st\<lparr>ds_bidi := record_occurrence (ds_bidi st) BidiOverride (ds_line st) (chars ! n)\<rparr>
        | Some TagBlock \<Rightarrow> st\<lparr>ds_tag := record_occurrence (ds_tag st) TagBlock (ds_line st) (chars ! n)\<rparr>
        | Some HomoglyphMix \<Rightarrow> st
        | None \<Rightarrow> st\<lparr>ds_line := ds_line st + (if chars ! n = [CHR 0x0A] then 1 else 0)\<rparr>)"
  by (auto simp: scan_char_def kind_at_def Let_def)

lemma kind_at_newline: "kind_at chars n = Some k \<Longrightarrow> chars ! n \<noteq> [CHR 0x0A]" "kind_at chars n \<noteq> Some HomoglyphMix"
  by (auto simp: kind_at_def Let_def split: if_splits)

lemma scan_prefix:
  "n \<le> length chars \<Longrightarrow>
   foldl (scan_char chars) \<lparr>ds_line = 1, ds_invisible = None, ds_bidi = None, ds_tag = None\<rparr> (enumerate 0 (take n chars))
     = \<lparr>ds_line = line_of chars n, ds_invisible = occurrence_in InvisibleChars chars n,
        ds_bidi = occurrence_in BidiOverride chars n, ds_tag = occurrence_in TagBlock chars n\<rparr>"
proof (induction n)
  case (Suc n)
  then have "enumerate 0 (take (Suc n) chars) = enumerate 0 (take n chars) @ [(n, chars ! n)]"
    by (simp add: take_Suc_conv_app_nth enumerate_append_eq)
  then show ?case
    using Suc line_of_Suc [of n chars] kind_at_newline [of chars n]
    by (simp add: scan_char_kind occurrence_in_Suc split: option.split deception_kind.split)
qed (simp add: line_of_def occurrence_in_def)

lemma collected:
  "collect_occurrences content
     = concat (map (\<lambda>k. option_list (occurrence_in k (str_chars content) (length (str_chars content))))
         [InvisibleChars, BidiOverride, TagBlock]) @ option_list (detect_homoglyph_mix content)"
  using scan_prefix [of "length (str_chars content)" "str_chars content"] by (simp add: collect_occurrences_def Let_def)

lemma occurrence_some: "occurrence_in k chars n = Some occ \<Longrightarrow> oc_kind occ = k"
  by (auto simp: occurrence_in_def split: list.splits)

lemma occurrence_iff: "occurrence_in k chars n \<noteq> None \<longleftrightarrow> list_ex (\<lambda>i. kind_at chars i = Some k) [0..<n]"
proof -
  have "occurrence_in k chars n \<noteq> None \<longleftrightarrow> filter (\<lambda>i. kind_at chars i = Some k) [0..<n] \<noteq> []"
    by (simp add: occurrence_in_def split: list.split)
  then show ?thesis by (simp add: filter_empty_conv list_ex_iff)
qed

lemma homoglyph_kind: "homoglyph_in_lines i ls = Some occ \<Longrightarrow> oc_kind occ = HomoglyphMix"
  by (induction ls arbitrary: i) (auto split: option.splits)

lemma disjoint_kinds:
  "is_bidi_control c \<Longrightarrow> \<not> is_invisible_format c" "is_tag_block c \<Longrightarrow> \<not> is_invisible_format c"
  "is_tag_block c \<Longrightarrow> \<not> is_bidi_control c" "is_bidi_control c \<Longrightarrow> c \<noteq> [CHR 0x0A]" "is_tag_block c \<Longrightarrow> c \<noteq> [CHR 0x0A]"
proof -
  have newline: "code_point [CHR 0x0A] = 10" by (simp add: code_point_def byte_of_def)
  show "is_bidi_control c \<Longrightarrow> \<not> is_invisible_format c" "is_tag_block c \<Longrightarrow> \<not> is_invisible_format c"
    unfolding is_bidi_control_def is_tag_block_def is_invisible_format_def char_between_def by auto
  show "is_tag_block c \<Longrightarrow> \<not> is_bidi_control c"
    unfolding is_bidi_control_def is_tag_block_def char_between_def by linarith
  show "is_bidi_control c \<Longrightarrow> c \<noteq> [CHR 0x0A]" "is_tag_block c \<Longrightarrow> c \<noteq> [CHR 0x0A]"
    using newline by (auto simp: is_bidi_control_def is_tag_block_def char_between_def)
qed

lemma bidi_tag_kind:
  "kind_at chars i = Some BidiOverride \<longleftrightarrow> is_bidi_control (chars ! i)"
  "kind_at chars i = Some TagBlock \<longleftrightarrow> is_tag_block (chars ! i)"
  by (cases "is_bidi_control (chars ! i)"; cases "is_tag_block (chars ! i)"; simp add: kind_at_def Let_def disjoint_kinds)+

lemma occurrence_list_ex:
  assumes "\<And>i. kind_at chars i = Some k \<longleftrightarrow> P (chars ! i)"
  shows "occurrence_in k chars (length chars) \<noteq> None \<longleftrightarrow> list_ex P chars"
proof -
  have "occurrence_in k chars (length chars) \<noteq> None \<longleftrightarrow> (\<exists>i<length chars. P (chars ! i))"
    unfolding occurrence_iff assms by (auto simp: list_ex_iff)
  then show ?thesis by (simp add: list_ex_length)
qed

lemmas bidi_tag_occurrences = occurrence_list_ex [OF bidi_tag_kind(1)] occurrence_list_ex [OF bidi_tag_kind(2)]

lemma built_finding:
  "rule_id (build_deception_finding k p occ) = deception_rule_id (oc_kind occ)"
  "f_action (build_deception_finding k p occ)
     = (if oc_kind occ \<in> {TagBlock, BidiOverride} then Block else RequireApproval)"
  "line_number (build_deception_finding k p occ) = Some (oc_line occ)"
  by (simp_all add: build_deception_finding_def Let_def build_with_def build_def case_prod_unfold builder_new_def
      deception_severity_def)

section \<open>Properties\<close>

text \<open>
  Claim C15: the scan reports each kind of hidden character at most once: at the line of its first occurrence, with the number of
  all its occurrences, whatever the order of the characters, and after them the first token that mixes scripts.
  It blocks exactly when a bidirectional control or a tag character occurs anywhere, also outside of
  ASCII text, and each rule reports at most once.
\<close>

theorem unicode_deception_exact:
  "let chars = str_chars content; fs = scan_unicode_deception content kind path in
     fs = map (build_deception_finding kind path)
            (concat (map (\<lambda>k. option_list (occurrence_in k chars (length chars))) [InvisibleChars, BidiOverride, TagBlock])
             @ option_list (detect_homoglyph_mix content))
     \<and> distinct (map rule_id fs)
     \<and> list_ex (\<lambda>f. f_action f = Block) fs = list_ex (\<lambda>c. is_bidi_control c \<or> is_tag_block c) chars
     \<and> list_ex (\<lambda>f. rule_id f = ''UNICODE_INVISIBLE_CHARS'') fs
         = list_ex (\<lambda>i. kind_at chars i = Some InvisibleChars) [0..<length chars]"
proof -
  let ?c = "str_chars content"
  have fs: "scan_unicode_deception content kind path = map (build_deception_finding kind path)
      (concat (map (\<lambda>k. option_list (occurrence_in k ?c (length ?c))) [InvisibleChars, BidiOverride, TagBlock])
       @ option_list (detect_homoglyph_mix content))"
    by (simp add: scan_unicode_deception_def collected)
  have homoglyph: "oc_kind occ = HomoglyphMix" if "detect_homoglyph_mix content = Some occ" for occ
    using that homoglyph_kind by (simp add: detect_homoglyph_mix_def)
  note kinds = occurrence_some homoglyph and iffs = bidi_tag_occurrences [of ?c] occurrence_iff [of InvisibleChars ?c "length ?c"]
  have once: "distinct (map rule_id (scan_unicode_deception content kind path))"
    unfolding fs by (auto simp: option_list_def built_finding split: option.splits dest!: kinds)
  have block: "list_ex (\<lambda>f. f_action f = Block) (scan_unicode_deception content kind path)
      = (occurrence_in BidiOverride ?c (length ?c) \<noteq> None \<or> occurrence_in TagBlock ?c (length ?c) \<noteq> None)"
    unfolding fs by (auto simp: option_list_def built_finding split: option.splits dest!: kinds)
  have invisible: "list_ex (\<lambda>f. rule_id f = ''UNICODE_INVISIBLE_CHARS'') (scan_unicode_deception content kind path)
      = (occurrence_in InvisibleChars ?c (length ?c) \<noteq> None)"
    unfolding fs by (auto simp: option_list_def built_finding split: option.splits dest!: kinds)
  have either: "list_ex (\<lambda>c. is_bidi_control c \<or> is_tag_block c) ?c = (list_ex is_bidi_control ?c \<or> list_ex is_tag_block ?c)"
    by (auto simp: list_ex_iff)
  show ?thesis unfolding Let_def
  proof (intro conjI)
    show "list_ex (\<lambda>f. f_action f = Block) (scan_unicode_deception content kind path)
        = list_ex (\<lambda>c. is_bidi_control c \<or> is_tag_block c) ?c"
      by (simp only: block either iffs)
    show "list_ex (\<lambda>f. rule_id f = ''UNICODE_INVISIBLE_CHARS'') (scan_unicode_deception content kind path)
        = list_ex (\<lambda>i. kind_at ?c i = Some InvisibleChars) [0..<length ?c]"
      by (simp only: invisible iffs)
  qed (rule fs once)+
qed

text \<open>
  The multiplication sign lies in the range taken for Latin letters, so a product of a Greek letter is
  reported as a homoglyph disguise.
\<close>

lemma product_is_a_homoglyph: "mixes_scripts [CHR ''2'', CHR 0xC3, CHR 0x97, CHR 0xCF, CHR 0x80]"
proof -
  have "str_chars [CHR ''2'', CHR 0xC3, CHR 0x97, CHR 0xCF, CHR 0x80] = [[CHR ''2''], [CHR 0xC3, CHR 0x97], [CHR 0xCF, CHR 0x80]]"
    by code_simp
  moreover have "code_point [CHR 0xC3, CHR 0x97] = 215" "code_point [CHR 0xCF, CHR 0x80] = 960"
    by (simp_all add: code_point_def byte_of_def)
  then have "script_of [CHR 0xC3, CHR 0x97] = Latin" "script_of [CHR 0xCF, CHR 0x80] = Greek"
    by (simp_all only: script_of_def char_between_def) simp_all
  ultimately show ?thesis unfolding mixes_scripts_def MIN_HOMOGLYPH_TOKEN_LEN_def by (simp del: str_chars.simps)
qed

end
