(* ===== verification/Scanner_Graph.thy ===== *)
theory Scanner_Graph
  imports Artifact_Dispatch
begin

text \<open>
  The artifact graph of a document (\<open>scanner_graph.rs\<close>): the document, the manifests and lockfiles beside
  it and the files it refers to, each with the capabilities and relations inferred from its text. A
  graph is built by a sequence of additions, here listed first and applied afterwards.
\<close>

section \<open>Building\<close>

definition artifact_capabilities :: "'f detectors \<Rightarrow> file_system \<Rightarrow> string \<Rightarrow> artifact_capability_fact list" where
  "artifact_capabilities ds fs path =
     (case fs_read fs path of
        Inl e \<Rightarrow> []
      | Inr bytes \<Rightarrow> infer_capabilities ds path (dt_text (decode_utf8_lossy bytes)))"

definition add_inferred_relations :: "'f detectors \<Rightarrow> file_system \<Rightarrow> string \<Rightarrow> string \<Rightarrow> graph_op list" where
  "add_inferred_relations ds fs path source_path =
     (case fs_read fs path of
        Inl e \<Rightarrow> []
      | Inr bytes \<Rightarrow>
          concat (map (\<lambda>link.
              [Add_node (link_target link) (artifact_kind_for_path (link_target link)) [],
               Add_edge source_path (link_target link) (link_relation link) None])
            (infer_relations ds path (dt_text (decode_utf8_lossy bytes)))))"

definition sibling_package_manifests :: "file_system \<Rightarrow> string \<Rightarrow> string list" where
  "sibling_package_manifests fs path =
     sort_paths (filter (\<lambda>p. case lower_file_name p of None \<Rightarrow> False | Some n \<Rightarrow> n \<in> set MANIFEST_NAMES)
       (case fs_list fs path ''*'' False of Inr files \<Rightarrow> files | Inl e \<Rightarrow> []))"

definition sibling_expected_lockfiles_for_manifest ::
    "'f detectors \<Rightarrow> file_system \<Rightarrow> string \<Rightarrow> string \<Rightarrow> string list" where
  "sibling_expected_lockfiles_for_manifest ds fs manifest parent_dir =
     (case fs_read fs manifest of
        Inl e \<Rightarrow> []
      | Inr bytes \<Rightarrow>
          filter (path_exists fs) (map (path_join parent_dir)
            (expected_lockfiles ds manifest (dt_text (decode_utf8_lossy bytes)))))"

definition lockfile_ops :: "'f detectors \<Rightarrow> file_system \<Rightarrow> string \<Rightarrow> string \<Rightarrow> graph_op list" where
  "lockfile_ops ds fs manifest lockfile =
     [Add_node lockfile Lockfile (artifact_capabilities ds fs lockfile), Add_edge manifest lockfile Locks None]
     @ add_inferred_relations ds fs lockfile lockfile"

definition manifest_ops :: "'f detectors \<Rightarrow> file_system \<Rightarrow> string \<Rightarrow> string \<Rightarrow> string \<Rightarrow> graph_op list" where
  "manifest_ops ds fs root_path parent_dir manifest =
     (if path_eq manifest root_path then []
      else
        [Add_node manifest (artifact_kind_for_path manifest) (artifact_capabilities ds fs manifest),
         Add_edge root_path manifest Contains None]
        @ add_inferred_relations ds fs manifest manifest
        @ concat (map (lockfile_ops ds fs manifest)
            (sibling_expected_lockfiles_for_manifest ds fs manifest parent_dir)))"

definition reference_ops :: "'f detectors \<Rightarrow> file_system \<Rightarrow> string \<Rightarrow> string \<Rightarrow> string \<Rightarrow> graph_op list" where
  "reference_ops ds fs root_path base_dir referenced =
     (if \<not> path_resolves_within_base fs referenced base_dir then []
      else
        [Add_node referenced (artifact_kind_for_path referenced) (artifact_capabilities ds fs referenced),
         Add_edge root_path referenced References None]
        @ add_inferred_relations ds fs referenced referenced)"

definition graph_ops :: "'f detectors \<Rightarrow> file_system \<Rightarrow> skill_document \<Rightarrow> graph_op list" where
  "graph_ops ds fs doc =
     (let root_path = doc_path doc
      in [Add_node root_path (artifact_kind_for_path root_path) (artifact_capabilities ds fs root_path)]
         @ add_inferred_relations ds fs root_path root_path
         @ (case path_parent root_path of
              None \<Rightarrow> []
            | Some parent_dir \<Rightarrow>
                concat (map (manifest_ops ds fs root_path parent_dir) (sibling_package_manifests fs parent_dir)))
         @ concat (map (reference_ops ds fs root_path (reference_base root_path)) (doc_referenced_files doc)))"

definition build_artifact_graph :: "'f detectors \<Rightarrow> file_system \<Rightarrow> skill_document \<Rightarrow> artifact_graph" where
  "build_artifact_graph ds fs doc = graph_of (graph_ops ds fs doc)"

section \<open>Siblings and package identity\<close>

definition SIBLING_NAMES :: "string list" where
  "SIBLING_NAMES =
     [''package.json'', ''package-lock.json'', ''npm-shrinkwrap.json'', ''requirements.txt'', ''pyproject.toml'',
      ''cargo.toml'', ''cargo.lock'', ''poetry.lock'', ''uv.lock'', ''pipfile.lock'', ''dockerfile'',
      ''docker-compose.yml'', ''docker-compose.yaml'', ''makefile'', ''gnumakefile'', ''.npmrc'', ''pip.conf'',
      ''mcp.json'', ''mcp.yaml'', ''mcp.yml'', ''.mcp.json'', ''claude_desktop_config.json'', ''yarn.lock'',
      ''pnpm-lock.yaml'']"

definition SIBLING_EXTENSIONS :: "string list" where
  "SIBLING_EXTENSIONS =
     [''sh'', ''bash'', ''zsh'', ''ksh'', ''fish'', ''ps1'', ''py'', ''js'', ''ts'', ''mjs'', ''cjs'', ''mts'',
      ''cts'', ''rb'', ''pl'', ''rs'', ''go'', ''php'']"

definition sibling_files :: "file_system \<Rightarrow> string \<Rightarrow> string list" where
  "sibling_files fs path =
     (case path_parent path of
        None \<Rightarrow> []
      | Some parent \<Rightarrow>
          sort_paths (filter (\<lambda>p.
              (case lower_file_name p of None \<Rightarrow> False | Some n \<Rightarrow> n \<in> set SIBLING_NAMES)
              \<or> map_option to_ascii_lowercase (path_extension p) \<in> Some ` set SIBLING_EXTENSIONS)
            (case fs_list fs parent ''*'' False of Inr files \<Rightarrow> files | Inl e \<Rightarrow> [])))"

definition SHA256_HEX_LEN :: nat where "SHA256_HEX_LEN = 64"

definition is_lower_hex_byte :: "char \<Rightarrow> bool" where
  "is_lower_hex_byte b \<longleftrightarrow> 48 \<le> byte_of b \<and> byte_of b \<le> 57 \<or> 97 \<le> byte_of b \<and> byte_of b \<le> 102"

text \<open>
  \<open>Path::ancestors\<close>: the path itself, its parent, the parent of that, and so on. A parent is a shorter
  text; the weight of a list of parts is the length of the text it is split from, and one more.
\<close>

definition parts_weight :: "string list \<Rightarrow> nat" where
  "parts_weight ps = sum_list (map (\<lambda>p. Suc (length p)) ps)"

lemma parts_weight_simps [simp]:
  "parts_weight [] = 0" "parts_weight (p # ps) = Suc (length p) + parts_weight ps"
  "parts_weight (ps @ qs) = parts_weight ps + parts_weight qs" "parts_weight (rev ps) = parts_weight ps"
  by (simp_all add: parts_weight_def rev_map [symmetric])

lemma split_weight: "parts_weight (split_on c s) = Suc (length s)"
  by (induction s) (auto split: list.split)

lemma join_weight: "length (join_parts ps) = parts_weight ps - 1"
  by (induction ps rule: join_parts.induct) simp_all

lemma weight_dropWhile: "parts_weight (dropWhile P ps) \<le> parts_weight ps"
  by (induction ps) auto

lemma trim_weight: "parts_weight (trim_parts ps) \<le> parts_weight ps"
  using weight_dropWhile [of _ "rev ps"] by (simp add: trim_parts_def)

lemma trim_last: "trim_parts ps \<noteq> [] \<Longrightarrow> last (trim_parts ps) \<noteq> []"
proof -
  assume *: "trim_parts ps \<noteq> []"
  then have "hd (dropWhile (\<lambda>s. part_component s = []) (rev ps)) \<noteq> []"
    using hd_dropWhile [of "\<lambda>s. part_component s = []" "rev ps"] by (auto simp: trim_parts_def part_component_def)
  then show ?thesis using * by (simp add: trim_parts_def last_rev)
qed

lemma butlast_weight: "ps \<noteq> [] \<Longrightarrow> parts_weight (butlast ps) + Suc (length (last ps)) = parts_weight ps"
  by (induction ps) auto

lemma parent_shorter:
  assumes "path_parent p = Some q"
  shows "length q < length p"
proof -
  define parts where "parts = split_on CHR ''/'' p"
  define rooted where "rooted = is_absolute p"
  define dotted where "dotted = (\<not> rooted \<and> hd parts = ''.'')"
  define body where "body = trim_parts (if rooted \<or> dotted then tl parts else parts)"
  define rest where "rest = trim_parts (butlast body)"
  have w: "parts_weight parts = Suc (length p)" by (simp add: parts_def split_weight)
  have ne: "parts \<noteq> []" by (simp add: parts_def)
  have r0: "rooted \<Longrightarrow> hd parts = []"
    by (cases p) (auto simp: rooted_def is_absolute_def starts_with_def parts_def)
  have tl: "parts_weight parts = Suc (length (hd parts)) + parts_weight (tl parts)" using ne by (cases parts) simp_all
  have body: "parts_weight body \<le> parts_weight (if rooted \<or> dotted then tl parts else parts)"
    unfolding body_def by (rule trim_weight)
  have q: "(if body = [] then (if dotted then Some [] else None)
      else Some (if rooted then ''/'' @ join_parts rest
                 else if dotted then join_parts (''.'' # rest) else join_parts rest)) = Some q"
    using assms unfolding path_parent_def Let_def parts_def rooted_def dotted_def body_def rest_def .
  show ?thesis
  proof (cases "body = []")
    case True
    then have "dotted" "q = []" using q by (auto split: if_splits)
    then show ?thesis using w tl by (cases p) (auto simp: dotted_def)
  next
    case False
    then have "last body \<noteq> []" unfolding body_def by (rule trim_last)
    then have "1 \<le> length (last body)" by (simp add: Suc_le_eq)
    then have rest: "parts_weight rest + 2 \<le> parts_weight body"
      using butlast_weight [OF False] trim_weight [of "butlast body"] unfolding rest_def by linarith
    show ?thesis
      using q False rest body w tl r0 by (auto simp: join_weight dotted_def split: if_splits)
  qed
qed

function path_ancestors :: "string \<Rightarrow> string list" where
  "path_ancestors p = p # (case path_parent p of None \<Rightarrow> [] | Some q \<Rightarrow> path_ancestors q)"
  by pat_completeness auto
termination
  by (relation "measure length") (simp_all add: parent_shorter)

declare path_ancestors.simps [simp del]

definition derive_package_id :: "string \<Rightarrow> string option" where
  "derive_package_id path =
     find (\<lambda>segment. length segment = SHA256_HEX_LEN \<and> list_all is_lower_hex_byte segment)
       (List.map_filter path_file_name (path_ancestors path))"

section \<open>What a graph holds\<close>

definition doc_manifests :: "file_system \<Rightarrow> skill_document \<Rightarrow> string list" where
  "doc_manifests fs doc =
     (case path_parent (doc_path doc) of
        None \<Rightarrow> []
      | Some d \<Rightarrow> filter (\<lambda>m. \<not> path_eq m (doc_path doc)) (sibling_package_manifests fs d))"

definition doc_lockfiles :: "'f detectors \<Rightarrow> file_system \<Rightarrow> skill_document \<Rightarrow> string \<Rightarrow> string list" where
  "doc_lockfiles ds fs doc manifest =
     (case path_parent (doc_path doc) of
        None \<Rightarrow> [] | Some d \<Rightarrow> sibling_expected_lockfiles_for_manifest ds fs manifest d)"

definition doc_references :: "file_system \<Rightarrow> skill_document \<Rightarrow> string list" where
  "doc_references fs doc =
     filter (\<lambda>r. path_resolves_within_base fs r (reference_base (doc_path doc))) (doc_referenced_files doc)"

definition inferred_links :: "'f detectors \<Rightarrow> file_system \<Rightarrow> string \<Rightarrow> artifact_link list" where
  "inferred_links ds fs path =
     (case fs_read fs path of
        Inl e \<Rightarrow> [] | Inr bytes \<Rightarrow> infer_relations ds path (dt_text (decode_utf8_lossy bytes)))"

definition graph_sources :: "'f detectors \<Rightarrow> file_system \<Rightarrow> skill_document \<Rightarrow> string set" where
  "graph_sources ds fs doc =
     {doc_path doc} \<union> set (doc_manifests fs doc)
     \<union> (\<Union>m \<in> set (doc_manifests fs doc). set (doc_lockfiles ds fs doc m)) \<union> set (doc_references fs doc)"

lemma added_nodes_simps [simp]:
  "added_nodes [] = []" "added_nodes (x # xs) = op_node x @ added_nodes xs"
  "added_nodes (xs @ ys) = added_nodes xs @ added_nodes ys"
  by (simp_all add: added_nodes_def)

lemma added_edges_simps [simp]:
  "added_edges [] = []" "added_edges (x # xs) = op_edge x @ added_edges xs"
  "added_edges (xs @ ys) = added_edges xs @ added_edges ys"
  by (simp_all add: added_edges_def)

lemma added_concat:
  "set (added_nodes (concat (map f xs))) = (\<Union>x \<in> set xs. set (added_nodes (f x)))"
  "set (added_edges (concat (map f xs))) = (\<Union>x \<in> set xs. set (added_edges (f x)))"
  by (induction xs) auto

definition link_nodes :: "'f detectors \<Rightarrow> file_system \<Rightarrow> string \<Rightarrow> string set" where
  "link_nodes ds fs s = link_target ` set (inferred_links ds fs s)"

definition link_edges :: "'f detectors \<Rightarrow> file_system \<Rightarrow> string \<Rightarrow> (string \<times> string \<times> artifact_relation) set" where
  "link_edges ds fs s = (\<lambda>l. (s, link_target l, link_relation l)) ` set (inferred_links ds fs s)"

lemma edge_key_edge:
  "edge_key \<lparr>edge_from = a, edge_to = b, edge_relation = r, edge_endpoint = e\<rparr> = (a, b, r)"
  by (simp add: edge_key_def)

lemma inferred_ops:
  "node_path ` set (added_nodes (add_inferred_relations ds fs s s)) = link_nodes ds fs s"
  "edge_key ` set (added_edges (add_inferred_relations ds fs s s)) = link_edges ds fs s"
  by (auto simp: add_inferred_relations_def inferred_links_def link_nodes_def link_edges_def added_concat
      edge_key_edge image_UN split: sum.split)

lemma lockfile_ops_added:
  "node_path ` set (added_nodes (lockfile_ops ds fs m l)) = insert l (link_nodes ds fs l)"
  "edge_key ` set (added_edges (lockfile_ops ds fs m l)) = insert (m, l, Locks) (link_edges ds fs l)"
  by (simp_all add: lockfile_ops_def inferred_ops edge_key_edge)

lemma manifest_ops_added:
  assumes "\<not> path_eq m r0"
  shows "node_path ` set (added_nodes (manifest_ops ds fs r0 d m))
      = insert m (link_nodes ds fs m)
        \<union> (\<Union>l \<in> set (sibling_expected_lockfiles_for_manifest ds fs m d). insert l (link_nodes ds fs l))"
    and "edge_key ` set (added_edges (manifest_ops ds fs r0 d m))
      = insert (r0, m, Contains) (link_edges ds fs m)
        \<union> (\<Union>l \<in> set (sibling_expected_lockfiles_for_manifest ds fs m d).
             insert (m, l, Locks) (link_edges ds fs l))"
  using assms
  by (simp_all add: manifest_ops_def image_Un inferred_ops added_concat image_UN lockfile_ops_added edge_key_edge)

lemma manifests_added:
  "node_path ` set (added_nodes (concat (map (manifest_ops ds fs r0 d) ms)))
     = (\<Union>m \<in> set (filter (\<lambda>m. \<not> path_eq m r0) ms). insert m (link_nodes ds fs m)
        \<union> (\<Union>l \<in> set (sibling_expected_lockfiles_for_manifest ds fs m d). insert l (link_nodes ds fs l)))"
  "edge_key ` set (added_edges (concat (map (manifest_ops ds fs r0 d) ms)))
     = (\<Union>m \<in> set (filter (\<lambda>m. \<not> path_eq m r0) ms). insert (r0, m, Contains) (link_edges ds fs m)
        \<union> (\<Union>l \<in> set (sibling_expected_lockfiles_for_manifest ds fs m d).
             insert (m, l, Locks) (link_edges ds fs l)))"
proof -
  have skip: "path_eq m r0 \<Longrightarrow> manifest_ops ds fs r0 d m = []" for m by (simp add: manifest_ops_def)
  show "node_path ` set (added_nodes (concat (map (manifest_ops ds fs r0 d) ms)))
     = (\<Union>m \<in> set (filter (\<lambda>m. \<not> path_eq m r0) ms). insert m (link_nodes ds fs m)
        \<union> (\<Union>l \<in> set (sibling_expected_lockfiles_for_manifest ds fs m d). insert l (link_nodes ds fs l)))"
    by (induction ms) (simp_all add: image_Un manifest_ops_added skip)
  show "edge_key ` set (added_edges (concat (map (manifest_ops ds fs r0 d) ms)))
     = (\<Union>m \<in> set (filter (\<lambda>m. \<not> path_eq m r0) ms). insert (r0, m, Contains) (link_edges ds fs m)
        \<union> (\<Union>l \<in> set (sibling_expected_lockfiles_for_manifest ds fs m d).
             insert (m, l, Locks) (link_edges ds fs l)))"
    by (induction ms) (simp_all add: image_Un manifest_ops_added skip)
qed

lemma references_added:
  "node_path ` set (added_nodes (concat (map (reference_ops ds fs r0 b) rs)))
     = (\<Union>r \<in> set (filter (\<lambda>r. path_resolves_within_base fs r b) rs). insert r (link_nodes ds fs r))"
  "edge_key ` set (added_edges (concat (map (reference_ops ds fs r0 b) rs)))
     = (\<Union>r \<in> set (filter (\<lambda>r. path_resolves_within_base fs r b) rs).
          insert (r0, r, References) (link_edges ds fs r))"
  by (induction rs) (simp_all add: reference_ops_def image_Un inferred_ops edge_key_edge)

lemma UN_insert_split: "(\<Union>x \<in> A. insert (f x) (g x)) = f ` A \<union> (\<Union>x \<in> A. g x)"
  by blast

text \<open>
  Claim C7: the graph of a document holds exactly the document, the manifests beside it, the existing lockfiles those
  expect, the referenced files that resolve inside the document's directory, and the targets
  inferred from the text of one of these, each once; and its edges are exactly the containment,
  lock, reference and inferred relations between them. A reference that a symbolic link leads out of
  the directory is not read and adds nothing by itself.
\<close>

theorem graph_contents:
  "node_path ` set (nodes (build_artifact_graph ds fs doc))
     = graph_sources ds fs doc \<union> (\<Union>s \<in> graph_sources ds fs doc. link_nodes ds fs s)
   \<and> edge_key ` set (edges (build_artifact_graph ds fs doc))
     = (\<lambda>m. (doc_path doc, m, Contains)) ` set (doc_manifests fs doc)
       \<union> (\<Union>m \<in> set (doc_manifests fs doc). (\<lambda>l. (m, l, Locks)) ` set (doc_lockfiles ds fs doc m))
       \<union> (\<lambda>r. (doc_path doc, r, References)) ` set (doc_references fs doc)
       \<union> (\<Union>s \<in> graph_sources ds fs doc. link_edges ds fs s)
   \<and> distinct (map node_path (nodes (build_artifact_graph ds fs doc)))
   \<and> distinct (map edge_key (edges (build_artifact_graph ds fs doc)))"
proof (intro conjI)
  show "node_path ` set (nodes (build_artifact_graph ds fs doc))
     = graph_sources ds fs doc \<union> (\<Union>s \<in> graph_sources ds fs doc. link_nodes ds fs s)"
    by (cases "path_parent (doc_path doc)")
      (simp_all add: build_artifact_graph_def graph_node_paths graph_ops_def Let_def image_Un inferred_ops
        manifests_added references_added graph_sources_def doc_manifests_def doc_lockfiles_def doc_references_def,
       blast+)
  show "edge_key ` set (edges (build_artifact_graph ds fs doc))
     = (\<lambda>m. (doc_path doc, m, Contains)) ` set (doc_manifests fs doc)
       \<union> (\<Union>m \<in> set (doc_manifests fs doc). (\<lambda>l. (m, l, Locks)) ` set (doc_lockfiles ds fs doc m))
       \<union> (\<lambda>r. (doc_path doc, r, References)) ` set (doc_references fs doc)
       \<union> (\<Union>s \<in> graph_sources ds fs doc. link_edges ds fs s)"
    by (cases "path_parent (doc_path doc)")
      (simp_all add: build_artifact_graph_def graph_edge_keys graph_ops_def Let_def image_Un inferred_ops
        manifests_added references_added graph_sources_def doc_manifests_def doc_lockfiles_def doc_references_def
        UN_insert_split UN_Un_distrib UN_UN_flatten Un_ac)
qed (simp_all add: build_artifact_graph_def graph_nodes_distinct graph_edges_distinct)

end
