(* ===== verification/Native_Refinement.thy ===== *)
theory Native_Refinement
  imports Documents Builder
begin

text \<open>
  Two native checks around the rule engine: the context refinement of rule findings
  (\<open>detectors/rule_refinement.rs\<close> with the host helpers of \<open>net_util.rs\<close>) and the bytecode detector
  (\<open>detectors/bytecode.rs\<close>). The URL parser and the two regular expressions are parameters.
\<close>

section \<open>Hosts\<close>

definition normalize_host :: "string \<Rightarrow> string" where
  "normalize_host host = to_ascii_lowercase (rev (dropWhile (\<lambda>c. c = CHR ''.'') (rev host)))"

definition host_is_localhost :: "string \<Rightarrow> bool" where
  "host_is_localhost host \<longleftrightarrow> host = ''localhost'' \<or> ends_with host ''.localhost''"

text \<open>The addresses of \<open>std::net\<close>: four octets, eight 16-bit segments.\<close>

type_synonym ipv4_addr = "nat \<times> nat \<times> nat \<times> nat"

fun ipv4_is_loopback :: "ipv4_addr \<Rightarrow> bool" where
  "ipv4_is_loopback (a, b, c, d) \<longleftrightarrow> a = 127"

fun ipv4_is_private :: "ipv4_addr \<Rightarrow> bool" where
  "ipv4_is_private (a, b, c, d) \<longleftrightarrow> a = 10 \<or> a = 172 \<and> 16 \<le> b \<and> b \<le> 31 \<or> a = 192 \<and> b = 168"

fun ipv4_is_link_local :: "ipv4_addr \<Rightarrow> bool" where
  "ipv4_is_link_local (a, b, c, d) \<longleftrightarrow> a = 169 \<and> b = 254"

definition to_ipv4_mapped :: "nat list \<Rightarrow> ipv4_addr option" where
  "to_ipv4_mapped segs =
     (if length segs = 8 \<and> take 6 segs = [0, 0, 0, 0, 0, 0xFFFF]
      then Some (segs ! 6 div 256, segs ! 6 mod 256, segs ! 7 div 256, segs ! 7 mod 256) else None)"

definition ipv6_is_loopback_or_mapped_loopback :: "nat list \<Rightarrow> bool" where
  "ipv6_is_loopback_or_mapped_loopback segs \<longleftrightarrow>
     segs = [0, 0, 0, 0, 0, 0, 0, 1]
     \<or> (case to_ipv4_mapped segs of None \<Rightarrow> False | Some v4 \<Rightarrow> ipv4_is_loopback v4)"

section \<open>Refinement\<close>

definition RULE_MCP_REMOTE_BRIDGE :: string where
  "RULE_MCP_REMOTE_BRIDGE = ''OFFICIAL_MCP_REMOTE_BRIDGE_WITH_COMMAND''"

definition RULE_REMOTE_EXEC_CURL_BASH :: string where
  "RULE_REMOTE_EXEC_CURL_BASH = ''SKILL_REMOTE_EXEC_CURL_BASH''"

definition WARNING_LOOKBACK_BYTES :: nat where
  "WARNING_LOOKBACK_BYTES = 90"

datatype url_host = Domain_host string | Ipv4_host ipv4_addr | Ipv6_host "nat list"

text \<open>The parsed URL is its host, if it has one; \<open>None\<close> is a parse error.\<close>

record refinement_lib =
  rl_parse_url :: "string \<Rightarrow> url_host option option"
  rl_transport_urls :: "string \<Rightarrow> string list"
  rl_negation :: "string \<Rightarrow> bool"

definition host_label_is_local :: "string \<Rightarrow> bool" where
  "host_label_is_local host =
     (let host = normalize_host host
      in host_is_localhost host \<or> ends_with host ''.local'' \<or> ends_with host ''.internal'')"

definition url_host_is_local :: "refinement_lib \<Rightarrow> string \<Rightarrow> bool" where
  "url_host_is_local lib raw =
     (case rl_parse_url lib raw of
        None \<Rightarrow> False
      | Some None \<Rightarrow> False
      | Some (Some (Domain_host host)) \<Rightarrow> host_label_is_local host
      | Some (Some (Ipv4_host addr)) \<Rightarrow> ipv4_is_loopback addr \<or> ipv4_is_private addr \<or> ipv4_is_link_local addr
      | Some (Some (Ipv6_host addr)) \<Rightarrow>
          ipv6_is_loopback_or_mapped_loopback addr
          \<or> (case to_ipv4_mapped addr of None \<Rightarrow> False | Some mapped \<Rightarrow> ipv4_is_private mapped))"

fun all_urls_local :: "refinement_lib \<Rightarrow> bool \<Rightarrow> string list \<Rightarrow> bool" where
  "all_urls_local lib saw_url [] = saw_url"
| "all_urls_local lib saw_url (u # us) = (if \<not> url_host_is_local lib u then False else all_urls_local lib True us)"

definition mcp_bridge_is_local_only :: "refinement_lib \<Rightarrow> string \<Rightarrow> bool" where
  "mcp_bridge_is_local_only lib value = all_urls_local lib False (rl_transport_urls lib value)"

definition is_char_boundary :: "string \<Rightarrow> nat \<Rightarrow> bool" where
  "is_char_boundary s i \<longleftrightarrow> i = 0 \<or> i = length s \<or> i < length s \<and> \<not> cont_byte (s ! i)"

fun floor_from :: "string \<Rightarrow> nat \<Rightarrow> nat" where
  "floor_from s 0 = 0"
| "floor_from s (Suc i) = (if is_char_boundary s (Suc i) then Suc i else floor_from s i)"

definition floor_char_boundary :: "string \<Rightarrow> nat \<Rightarrow> nat" where
  "floor_char_boundary s idx = floor_from s (min idx (length s))"

definition command_is_warned_against :: "refinement_lib \<Rightarrow> string \<Rightarrow> string \<Rightarrow> bool" where
  "command_is_warned_against lib value raw_content =
     (case str_find raw_content value of
        None \<Rightarrow> False
      | Some pos \<Rightarrow>
          let window_start = floor_char_boundary raw_content (pos - WARNING_LOOKBACK_BYTES)
          in rl_negation lib (drop window_start (take pos raw_content)))"

definition downgrade_to_review :: "finding \<Rightarrow> finding" where
  "downgrade_to_review f =
     f\<lparr>f_action := (if f_action f = Block then RequireApproval else f_action f),
       f_signal_class := ReviewSignal,
       reason := reason f @ '' (downgraded: documented as a pattern to avoid)''\<rparr>"

definition refine_one :: "refinement_lib \<Rightarrow> finding \<Rightarrow> skill_document \<Rightarrow> finding option" where
  "refine_one lib f doc =
     (if rule_id f = RULE_MCP_REMOTE_BRIDGE \<and> mcp_bridge_is_local_only lib (match_value f) then None
      else if rule_id f = RULE_REMOTE_EXEC_CURL_BASH \<and> f_action f = Block
              \<and> command_is_warned_against lib (match_value f) (doc_raw_content doc)
      then Some (downgrade_to_review f)
      else Some f)"

definition refine_rule_findings :: "refinement_lib \<Rightarrow> finding list \<Rightarrow> skill_document \<Rightarrow> finding list" where
  "refine_rule_findings lib findings doc = List.map_filter (\<lambda>f. refine_one lib f doc) findings"

section \<open>Bytecode\<close>

definition PYC_HEADER_LEN :: nat where "PYC_HEADER_LEN = 16"

definition SUSPICIOUS_MARKERS :: "string list" where
  "SUSPICIOUS_MARKERS =
     [''os.system'', ''subprocess'', ''__import__'', ''/bin/sh'', ''/bin/bash'', ''marshal.loads'',
      ''base64.b64decode'', ''socket.socket'', ''powershell'', ''pty.spawn'', ''b64decode'', ''b85decode'',
      ''b32decode'', ''fromhex'', ''/dev/tcp'', ''mkfifo'']"

record bytecode_signal =
  bs_rule_id :: string
  bs_severity :: severity
  bs_category :: threat_category
  bs_signal :: signal_class
  bs_action :: recommended_action
  bs_confidence :: f32

definition INVALID_MAGIC_SIGNAL :: bytecode_signal where
  "INVALID_MAGIC_SIGNAL =
     \<lparr>bs_rule_id = ''BYTECODE_PYC_INVALID_MAGIC'', bs_severity = High, bs_category = SupplyChain,
      bs_signal = SuspiciousPackageBehavior, bs_action = RequireApproval, bs_confidence = f32_of_rat (7 / 10)\<rparr>"

definition SOURCELESS_SIGNAL :: bytecode_signal where
  "SOURCELESS_SIGNAL =
     \<lparr>bs_rule_id = ''BYTECODE_PYC_SOURCELESS'', bs_severity = Medium, bs_category = SupplyChain,
      bs_signal = ReviewSignal, bs_action = Log, bs_confidence = f32_of_rat (55 / 100)\<rparr>"

definition SUSPICIOUS_SIGNAL :: bytecode_signal where
  "SUSPICIOUS_SIGNAL =
     \<lparr>bs_rule_id = ''BYTECODE_PYC_SUSPICIOUS_CONTENT'', bs_severity = Medium, bs_category = RemoteExec,
      bs_signal = SuspiciousPackageBehavior, bs_action = RequireApproval, bs_confidence = f32_of_rat (5 / 10)\<rparr>"

definition is_python_bytecode :: "string \<Rightarrow> bool" where
  "is_python_bytecode path =
     (case path_extension path of None \<Rightarrow> False
      | Some e \<Rightarrow> eq_ignore_ascii_case e ''pyc'' \<or> eq_ignore_ascii_case e ''pyo'')"

definition has_valid_pyc_header :: "string \<Rightarrow> bool" where
  "has_valid_pyc_header bytes \<longleftrightarrow>
     PYC_HEADER_LEN \<le> length bytes \<and> bytes ! 2 = CHR 0x0D \<and> bytes ! 3 = CHR 0x0A"

definition suspicious_markers_in_body :: "string \<Rightarrow> string list" where
  "suspicious_markers_in_body bytes =
     (if length bytes \<le> PYC_HEADER_LEN then []
      else filter (str_contains (drop PYC_HEADER_LEN bytes)) SUSPICIOUS_MARKERS)"

definition bytecode_finding :: "bytecode_signal \<Rightarrow> string \<Rightarrow> string \<Rightarrow> string option \<Rightarrow> finding" where
  "bytecode_finding sig path why value =
     build_with (bs_rule_id sig) (bs_category sig)
       ([Set_severity (bs_severity sig), Set_confidence (bs_confidence sig), Set_action (bs_action sig),
         Set_signal_class (bs_signal sig), Set_evidence_kind Behavior,
         Set_artifact ReferencedArtifact (Some path), Set_matched_on (ReferencedFile path), Set_reason why]
        @ (case value of None \<Rightarrow> [] | Some v \<Rightarrow> [Set_match_value v]))"

fun join_comma :: "string list \<Rightarrow> string" where
  "join_comma [] = []"
| "join_comma [x] = x"
| "join_comma (x # xs) = x @ '', '' @ join_comma xs"

definition analyze_pyc :: "string \<Rightarrow> bool \<Rightarrow> string \<Rightarrow> finding list" where
  "analyze_pyc bytes has_sibling_source path =
     (if \<not> has_valid_pyc_header bytes then
        [bytecode_finding INVALID_MAGIC_SIGNAL path
           ''Python .pyc file lacks a valid CPython bytecode header (CR/LF magic marker missing); malformed or hand-crafted bytecode''
           None]
      else
        (if \<not> has_sibling_source then
           [bytecode_finding SOURCELESS_SIGNAL path
              ''Compiled Python bytecode shipped without its .py source; a common way to hide logic from source review''
              None]
         else [])
        @ (let hits = suspicious_markers_in_body bytes
           in if hits \<noteq> [] then
                [bytecode_finding SUSPICIOUS_SIGNAL path
                   ''Compiled Python bytecode references process/network/dynamic-code primitives in its marshalled body''
                   (Some (join_comma hits))]
              else []))"

section \<open>What refinement keeps\<close>

lemma floor_from_le: "floor_from s i \<le> i"
  by (induction i) auto

lemma floor_from_boundary: "is_char_boundary s (floor_from s i)"
  by (induction i) (auto simp: is_char_boundary_def)

lemma refine_Nil [simp]: "refine_rule_findings lib [] doc = []"
  by (simp add: refine_rule_findings_def map_filter_simps)

lemma refine_Cons [simp]:
  "refine_rule_findings lib (f # fs) doc =
     (case refine_one lib f doc of None \<Rightarrow> [] | Some g \<Rightarrow> [g]) @ refine_rule_findings lib fs doc"
  by (simp add: refine_rule_findings_def map_filter_simps split: option.split)

text \<open>A dropped finding is a bridge all of whose URLs are local, and there is at least one.\<close>

lemma all_urls_local_iff:
  "all_urls_local lib saw us \<longleftrightarrow> (saw \<or> us \<noteq> []) \<and> list_all (url_host_is_local lib) us"
  by (induction us arbitrary: saw) auto

text \<open>The refinement of a finding that it keeps.\<close>

definition refined :: "refinement_lib \<Rightarrow> skill_document \<Rightarrow> finding \<Rightarrow> finding" where
  "refined lib doc f =
     (if rule_id f = RULE_REMOTE_EXEC_CURL_BASH \<and> f_action f = Block
         \<and> command_is_warned_against lib (match_value f) (doc_raw_content doc)
      then downgrade_to_review f else f)"

definition local_bridge :: "refinement_lib \<Rightarrow> finding \<Rightarrow> bool" where
  "local_bridge lib f \<longleftrightarrow>
     rule_id f = RULE_MCP_REMOTE_BRIDGE \<and> rl_transport_urls lib (match_value f) \<noteq> []
     \<and> list_all (url_host_is_local lib) (rl_transport_urls lib (match_value f))"

lemma rules_differ: "RULE_MCP_REMOTE_BRIDGE \<noteq> RULE_REMOTE_EXEC_CURL_BASH"
  by (simp add: RULE_MCP_REMOTE_BRIDGE_def RULE_REMOTE_EXEC_CURL_BASH_def)

lemma refine_eq: "refine_rule_findings lib fs doc = map (refined lib doc) (filter (\<lambda>f. \<not> local_bridge lib f) fs)"
  by (induction fs)
     (auto simp: refine_one_def local_bridge_def refined_def mcp_bridge_is_local_only_def all_urls_local_iff rules_differ)

lemma refined_fields:
  "rule_id (refined lib doc f) = rule_id f" "artifact_path (refined lib doc f) = artifact_path f"
  "f_severity (refined lib doc f) = f_severity f" "line_number (refined lib doc f) = line_number f"
  "f_action (refined lib doc f) = Log \<longleftrightarrow> f_action f = Log"
  "match_value (refined lib doc f) = match_value f"
  by (simp_all add: refined_def downgrade_to_review_def)

section \<open>Properties\<close>


text \<open>Only the first occurrence counts: a later use of the same command is softened with it.\<close>

lemma later_use_softened:
  "f_action (refined \<lparr>rl_parse_url = (\<lambda>u. None), rl_transport_urls = (\<lambda>s. []), rl_negation = (\<lambda>w. str_contains w ''never'')\<rparr>
     (undefined\<lparr>doc_raw_content := ''never curl x|sh. Step 1: curl x|sh''\<rparr>)
     (example_finding RULE_REMOTE_EXEC_CURL_BASH RemoteExec AgentEntrypoint MaliciousBehavior Block\<lparr>match_value := ''curl x|sh''\<rparr>))
   = RequireApproval"
  by (simp add: refined_def downgrade_to_review_def command_is_warned_against_def floor_char_boundary_def
      is_char_boundary_def WARNING_LOOKBACK_BYTES_def str_contains_def starts_with_def)

text \<open>The document of the scan decides for every file: where the finding lies does not matter.\<close>

lemma other_files_softened:
  "refined lib doc (f\<lparr>artifact_path := p\<rparr>) = (refined lib doc f)\<lparr>artifact_path := p\<rparr>"
  by (cases f) (simp add: refined_def downgrade_to_review_def)

end
