(* ===== verification/Trusted_Hosts.thy ===== *)
theory Trusted_Hosts
  imports Artifact_Graph Paths
begin

text \<open>
  Where taint flows to and what it reads (\<open>artifact_taint/trusted_hosts.rs\<close>, \<open>artifact_taint/patterns.rs\<close>,
  \<open>detectors/scripts/dotenv.rs\<close>): hosts that may receive credentials, reserved hosts, the affinity of a
  host to a credential, targets that look like secrets or identities, and sinks that are external.

  The URL parser and the Unicode table behind \<open>char::is_alphanumeric\<close> are the fields of a \<open>taint_lib\<close>:
  \<open>url_parse\<close> gives, for a text the parser accepts, the host and the path.
\<close>

record parsed_url =
  host_str :: "string option"
  url_path :: string

record taint_lib =
  url_parse :: "string \<Rightarrow> parsed_url option"
  alphanumeric :: "string \<Rightarrow> bool"

section \<open>Hosts\<close>

definition parse_endpoint_url :: "taint_lib \<Rightarrow> string \<Rightarrow> parsed_url option" where
  "parse_endpoint_url lib endpoint =
     (let trimmed = str_trim endpoint
      in if trimmed = [] then None
         else
           let schemeless = (case strip_prefix trimmed ''//'' of Some r \<Rightarrow> r | None \<Rightarrow> trimmed);
               retry = url_parse lib (''https://'' @ schemeless)
           in case url_parse lib trimmed of
                Some u \<Rightarrow> if host_str u \<noteq> None then Some u else retry
              | None \<Rightarrow> retry)"

definition extract_host :: "taint_lib \<Rightarrow> string \<Rightarrow> string option" where
  "extract_host lib endpoint =
     (case parse_endpoint_url lib endpoint of
        None \<Rightarrow> None
      | Some u \<Rightarrow> map_option to_ascii_lowercase (host_str u))"

definition ascii_digit :: "char \<Rightarrow> bool" where
  "ascii_digit c \<longleftrightarrow> 48 \<le> byte_of c \<and> byte_of c \<le> 57"

definition decimal_value :: "string \<Rightarrow> nat" where
  "decimal_value ds = foldl (\<lambda>n c. 10 * n + (byte_of c - 48)) 0 ds"

definition is_ipv4_octet :: "string \<Rightarrow> bool" where
  "is_ipv4_octet part =
     (if part = [] \<or> 3 < length part then False
      else if \<not> list_all ascii_digit part then False
      else decimal_value part \<le> 255)"

definition is_ipv4_literal :: "string \<Rightarrow> bool" where
  "is_ipv4_literal host =
     (let parts = split_on CHR ''.'' host
      in if \<not> list_all is_ipv4_octet parts then False else length parts = 4)"

definition is_loopback_ipv4 :: "string \<Rightarrow> bool" where
  "is_loopback_ipv4 host = (if \<not> is_ipv4_literal host then False else starts_with host ''127.'')"

definition matches_host_pattern :: "string \<Rightarrow> string \<Rightarrow> bool" where
  "matches_host_pattern host pat =
     (let pattern_lc = to_ascii_lowercase pat
      in case strip_prefix pattern_lc ''*.'' of
           Some sfx \<Rightarrow>
             if length host \<le> length sfx then False
             else suffix sfx host \<and> host ! (length host - length sfx - 1) = CHR ''.''
         | None \<Rightarrow> host = pattern_lc)"

definition TRUSTED_API_HOSTS :: "string list" where
  "TRUSTED_API_HOSTS =
     [''*.googleapis.com'', ''*.google.com'', ''github.com'', ''api.github.com'', ''*.github.com'',
      ''*.githubusercontent.com'', ''api.openai.com'', ''api.anthropic.com'', ''api.x.ai'',
      ''api.deepseek.com'', ''openrouter.ai'', ''api.openrouter.ai'', ''ollama.com'',
      ''api.ollama.com'', ''huggingface.co'', ''*.huggingface.co'', ''*.hf.co'', ''atlassian.com'',
      ''*.atlassian.net'', ''*.atlassian.com'', ''api.notion.com'', ''*.slack.com'', ''slack.com'',
      ''hooks.slack.com'', ''graph.microsoft.com'', ''login.microsoftonline.com'', ''*.amazonaws.com'',
      ''*.cloudflare.com'', ''*.pages.dev'', ''*.workers.dev'', ''*.zapier.com'', ''*.make.com'',
      ''*.n8n.cloud'', ''*.pipedream.com'', ''*.pipedream.net'', ''*.ifttt.com'', ''*.tavily.com'',
      ''iana.org'', ''*.iana.org'', ''ietf.org'', ''*.ietf.org'', ''api.stripe.com'',
      ''api.twilio.com'', ''api.sendgrid.com'', ''api.mailgun.net'', ''api.postmarkapp.com'',
      ''api.linear.app'', ''api.figma.com'', ''api.zoom.us'', ''api.dropbox.com'', ''api.intercom.io'',
      ''api.hubapi.com'', ''api.asana.com'', ''api.trello.com'', ''api.airtable.com'',
      ''api.basecamp.com'', ''api.calendly.com'', ''api.discord.com'', ''discord.com'',
      ''api.telegram.org'', ''api.spotify.com'', ''api.youtube.com'', ''pypi.org'',
      ''files.pythonhosted.org'', ''registry.npmjs.org'', ''*.npmjs.com'', ''npmjs.org'', ''crates.io'',
      ''static.crates.io'', ''rubygems.org'', ''pkg.go.dev'', ''proxy.golang.org'', ''packagist.org'',
      ''repo.maven.apache.org'', ''repo1.maven.org'', ''apps.apple.com'', ''itunes.apple.com'']"

definition DOCUMENTATION_OR_RESERVED_HOSTS :: "string list" where
  "DOCUMENTATION_OR_RESERVED_HOSTS =
     [''example.com'', ''example.org'', ''example.net'', ''*.example.com'', ''*.example.org'',
      ''*.example.net'', ''*.example'', ''*.test'', ''*.invalid'', ''localhost'', ''*.localhost'']"

definition is_documentation_or_reserved_host :: "taint_lib \<Rightarrow> string \<Rightarrow> bool" where
  "is_documentation_or_reserved_host lib endpoint =
     (case extract_host lib endpoint of
        None \<Rightarrow> False
      | Some host \<Rightarrow>
          if host = [] then False
          else if is_loopback_ipv4 host then True
          else list_ex (matches_host_pattern host) DOCUMENTATION_OR_RESERVED_HOSTS)"

definition is_trusted_api_host :: "taint_lib \<Rightarrow> string \<Rightarrow> bool" where
  "is_trusted_api_host lib endpoint =
     (case extract_host lib endpoint of
        None \<Rightarrow> False
      | Some host \<Rightarrow>
          if host = [] then False
          else if is_ipv4_literal host then False
          else list_ex (matches_host_pattern host) TRUSTED_API_HOSTS)"

section \<open>First-party affinity\<close>

definition SECRET_NAME_STOPWORDS :: "string list" where
  "SECRET_NAME_STOPWORDS =
     [''api'', ''key'', ''keys'', ''token'', ''tokens'', ''secret'', ''secrets'', ''auth'', ''oauth'',
      ''client'', ''bearer'', ''access'', ''refresh'', ''env'', ''environ'', ''config'', ''url'',
      ''uri'', ''host'', ''hostname'', ''endpoint'', ''bot'', ''pat'', ''cred'', ''creds'',
      ''credential'', ''credentials'', ''password'', ''passwd'', ''pwd'', ''user'', ''username'',
      ''login'', ''session'', ''cookie'', ''prod'', ''production'', ''dev'', ''development'', ''stage'',
      ''staging'', ''test'', ''sandbox'', ''live'', ''http'', ''https'', ''www'', ''com'', ''net'',
      ''org'', ''default'', ''value'', ''string'', ''data'', ''file'', ''path'', ''name'']"

definition COMPOUND_TLD_PENULTIMATES :: "string list" where
  "COMPOUND_TLD_PENULTIMATES =
     [''com'', ''net'', ''org'', ''co'', ''gov'', ''edu'', ''ac'']"

definition registrable_label :: "taint_lib \<Rightarrow> string \<Rightarrow> string option" where
  "registrable_label lib endpoint =
     (case extract_host lib endpoint of
        None \<Rightarrow> None
      | Some host \<Rightarrow>
          if host = [] \<or> is_ipv4_literal host then None
          else
            let labels = filter (\<lambda>l. l \<noteq> []) (split_on CHR ''.'' host); n = length labels
            in if n < 2 then None
               else
                 let suffix_len =
                   (if 3 \<le> n \<and> labels ! (n - 2) \<in> set COMPOUND_TLD_PENULTIMATES
                       \<and> length (labels ! (n - 1)) \<le> 3 then 2 else 1)
                 in if n \<le> suffix_len then None
                    else
                      let label = labels ! (n - suffix_len - 1)
                      in if length label < 4 then None else Some label)"

definition ascii_alphanumeric :: "char \<Rightarrow> bool" where
  "ascii_alphanumeric c \<longleftrightarrow> ascii_digit c
     \<or> 65 \<le> byte_of c \<and> byte_of c \<le> 90 \<or> 97 \<le> byte_of c \<and> byte_of c \<le> 122"

text \<open>\<open>split\<close> on a predicate. A character outside ASCII gives one empty piece per byte more; those are filtered out.\<close>

fun split_where :: "(char \<Rightarrow> bool) \<Rightarrow> string \<Rightarrow> string list" where
  "split_where p [] = [[]]"
| "split_where p (x # xs) =
     (if p x then [] # split_where p xs
      else case split_where p xs of [] \<Rightarrow> [[x]] | q # qs \<Rightarrow> (x # q) # qs)"

definition secret_identity_tokens :: "string \<Rightarrow> string list" where
  "secret_identity_tokens name =
     bset_collect
       (filter (\<lambda>t. 4 \<le> length t \<and> t \<notin> set SECRET_NAME_STOPWORDS \<and> \<not> list_all ascii_digit t)
          (split_where (\<lambda>c. \<not> ascii_alphanumeric c) (to_ascii_lowercase name)))"

definition token_affinity :: "string \<Rightarrow> string \<Rightarrow> bool" where
  "token_affinity label token =
     (let (shorter, longer) = (if length token \<le> length label then (token, label) else (label, token))
      in 4 \<le> length shorter \<and> str_contains longer shorter)"

definition host_matches_secret_owner :: "taint_lib \<Rightarrow> string \<Rightarrow> string list \<Rightarrow> bool" where
  "host_matches_secret_owner lib endpoint secret_targets =
     (case registrable_label lib endpoint of
        None \<Rightarrow> False
      | Some label \<Rightarrow>
          list_ex (\<lambda>target. list_ex (token_affinity label) (secret_identity_tokens target)) secret_targets)"

section \<open>Secrets and identities\<close>

text \<open>
  The scanning loop \<open>while let Some(pos) = s[start..].find(t) { if ok(start + pos) { return true; }
  start += pos + 1; }\<close> over a non-empty constant \<open>t\<close>.
\<close>

function scan_every :: "(nat \<Rightarrow> bool) \<Rightarrow> string \<Rightarrow> string \<Rightarrow> nat \<Rightarrow> bool" where
  "scan_every ok s t start =
     (if t = [] then False
      else
        (case str_find (drop start s) t of
           None \<Rightarrow> False
         | Some pos \<Rightarrow> if ok (start + pos) then True else scan_every ok s t (start + pos + 1)))"
  by pat_completeness auto

termination scan_every
proof (relation "measure (\<lambda>(ok, s, t, start). length s - start)", goal_cases)
  case 1
  then show ?case by simp
next
  case (2 ok s t start pos)
  then have "pos + length t \<le> length s - start" using str_find_length by fastforce
  with 2 show ?case by (cases t) auto
qed

declare scan_every.simps [simp del]

definition next_char :: "string \<Rightarrow> nat \<Rightarrow> string option" where
  "next_char s i = (case str_chars (drop i s) of [] \<Rightarrow> None | c # _ \<Rightarrow> Some c)"

definition prev_char :: "string \<Rightarrow> nat \<Rightarrow> string option" where
  "prev_char s i = (let cs = str_chars (take i s) in if cs = [] then None else Some (last cs))"

definition word_boundary_at :: "taint_lib \<Rightarrow> string \<Rightarrow> string \<Rightarrow> nat \<Rightarrow> bool" where
  "word_boundary_at lib s keyword i \<longleftrightarrow>
     (case prev_char s i of None \<Rightarrow> True | Some c \<Rightarrow> \<not> alphanumeric lib c)
     \<and> (case next_char s (i + length keyword) of None \<Rightarrow> True | Some c \<Rightarrow> \<not> alphanumeric lib c)"

definition has_word_boundary :: "taint_lib \<Rightarrow> string \<Rightarrow> string \<Rightarrow> bool" where
  "has_word_boundary lib s keyword = scan_every (word_boundary_at lib s keyword) s keyword 0"

definition DOTENV_TERMINATORS :: "string list" where
  "DOTENV_TERMINATORS =
     [[CHR 0x22], [CHR 0x27], '' '', [CHR 0x09], [CHR 0x0A], [CHR 0x0D], '':'', '','', '')'', '';'',
      [CHR 0x60], ''.'', ''|'', ''&'', ''<'', ''>'']"

definition DOTENV_PRECEDERS :: "string list" where
  "DOTENV_PRECEDERS =
     [[CHR 0x22], [CHR 0x27], ''/'', [CHR 0x5C], '' '', [CHR 0x09], ''('', '','', '':'', [CHR 0x60], ''='', ''-'']"

definition is_placeholder_env_suffix :: "string option \<Rightarrow> string \<Rightarrow> bool" where
  "is_placeholder_env_suffix next rest =
     (if next \<noteq> Some ''.'' then False
      else takeWhile (\<lambda>c. ascii_alphanumeric c \<or> c = CHR ''_'' \<or> c = CHR ''-'') (drop 1 rest)
             \<in> {''example'', ''sample'', ''dist'', ''template''})"

definition dotenv_at :: "string \<Rightarrow> nat \<Rightarrow> bool" where
  "dotenv_at lower i =
     (let after = i + 4; next = next_char lower after;
          is_terminator = (case next of None \<Rightarrow> True | Some c \<Rightarrow> c \<in> set DOTENV_TERMINATORS)
      in if is_terminator \<and> \<not> is_placeholder_env_suffix next (drop after lower)
         then (case prev_char lower i of None \<Rightarrow> True | Some c \<Rightarrow> c \<in> set DOTENV_PRECEDERS)
         else False)"

definition references_dotenv_file :: "string \<Rightarrow> bool" where
  "references_dotenv_file lower =
     (if str_contains lower ''dotenv'' \<or> str_contains lower ''load_dotenv'' then True
      else scan_every (dotenv_at lower) lower ''.env'' 0)"

definition SPECIFIC_SECRET_PATTERNS :: "string list" where
  "SPECIFIC_SECRET_PATTERNS =
     [''.npmrc'', ''.ssh'', ''id_rsa'', ''known_hosts'', ''aws_secret_access_key'',
      ''aws_session_token'', ''openai_api_key'', ''anthropic_api_key'', ''claude_api_key'',
      ''groq_api_key'', ''mistral_api_key'', ''deepseek_api_key'', ''gemini_api_key'',
      ''cohere_api_key'', ''xai_api_key'', ''github_token'', ''gh_token'',
      ''google_application_credentials'', ''slack_bot_token'']"

definition looks_like_secret_target :: "taint_lib \<Rightarrow> string \<Rightarrow> bool" where
  "looks_like_secret_target lib target =
     (let lower = to_ascii_lowercase target
      in if references_dotenv_file lower then True
         else if list_ex (str_contains lower) SPECIFIC_SECRET_PATTERNS then True
         else list_ex (\<lambda>keyword. str_contains lower keyword \<and> has_word_boundary lib lower keyword)
                [''token'', ''secret'', ''cookie'', ''session''])"

definition looks_like_identity_target :: "taint_lib \<Rightarrow> string \<Rightarrow> bool" where
  "looks_like_identity_target lib target =
     (let lower = to_ascii_lowercase target
      in if str_contains lower ''oauth'' \<or> str_contains lower ''identity'' then True
         else list_ex (\<lambda>keyword. str_contains lower keyword \<and> has_word_boundary lib lower keyword)
                [''token'', ''session'', ''cookie'', ''credential''])"

section \<open>External sinks\<close>

definition ARTIFACT_EXTENSIONS :: "string list" where
  "ARTIFACT_EXTENSIONS =
     [''.tar.gz'', ''.tar.bz2'', ''.tar.xz'', ''.tar.zst'', ''.tgz'', ''.tbz2'', ''.txz'', ''.rpm'',
      ''.deb'', ''.pkg'', ''.dmg'', ''.msi'', ''.apk'', ''.appimage'', ''.whl'', ''.gem'', ''.jar'',
      ''.nupkg'', ''.crate'', ''.snap'', ''.flatpak'', ''.7z'', ''.zst'']"

definition trim_end_slashes :: "string \<Rightarrow> string" where
  "trim_end_slashes s = rev (dropWhile (\<lambda>c. c = CHR ''/'') (rev s))"

text \<open>The parsed URL of an endpoint with its host, lowercased.\<close>

definition endpoint_host_path :: "taint_lib \<Rightarrow> string \<Rightarrow> (string \<times> string) option" where
  "endpoint_host_path lib endpoint =
     (case parse_endpoint_url lib endpoint of
        None \<Rightarrow> None
      | Some u \<Rightarrow> map_option (\<lambda>h. (to_ascii_lowercase h, url_path u)) (host_str u))"

definition looks_like_software_distribution_url :: "taint_lib \<Rightarrow> string \<Rightarrow> bool" where
  "looks_like_software_distribution_url lib lower =
     (case endpoint_host_path lib lower of
        None \<Rightarrow> False
      | Some (host, p) \<Rightarrow>
          let path = trim_end_slashes p
          in if host = ''github.com'' \<and> str_contains path ''/releases/download/'' then True
             else list_ex (\<lambda>ext. suffix ext path) ARTIFACT_EXTENSIONS)"

definition looks_like_local_endpoint :: "taint_lib \<Rightarrow> string \<Rightarrow> bool" where
  "looks_like_local_endpoint lib endpoint =
     (case extract_host lib endpoint of
        None \<Rightarrow> False
      | Some host \<Rightarrow>
          host = ''localhost'' \<or> suffix ''.localhost'' host \<or> is_loopback_ipv4 host \<or> host = ''0.0.0.0''
          \<or> host \<in> {''::1'', ''[::1]''} \<or> suffix ''.local'' host \<or> suffix ''.internal'' host)"

definition looks_like_registry_url :: "taint_lib \<Rightarrow> string \<Rightarrow> bool" where
  "looks_like_registry_url lib url =
     (case endpoint_host_path lib url of
        None \<Rightarrow> False
      | Some (host, p) \<Rightarrow>
          let path = to_ascii_lowercase p
          in host \<in> {''registry.npmjs.org'', ''registry.yarnpkg.com'', ''files.pythonhosted.org'',
                      ''static.crates.io'', ''index.crates.io'', ''registry.hub.docker.com'', ''ghcr.io''}
             \<or> host = ''pypi.org'' \<and> starts_with path ''/packages''
             \<or> host = ''crates.io'' \<and> starts_with path ''/api'')"

definition known_external :: "string \<Rightarrow> bool" where
  "known_external lower \<longleftrightarrow>
     list_ex (str_contains lower)
       [''discord.com/api/webhooks'', ''api.telegram.org/bot'', ''pastebin.com'', ''ngrok'',
        ''trycloudflare'', ''raw.githubusercontent.com'', ''sendgrid'', ''mailgun'']
     \<or> list_ex (\<lambda>segment. segment = ''webhook'' \<or> starts_with segment ''webhook?''
                           \<or> starts_with segment ''webhook#'') (split_on CHR ''/'' lower)
     \<or> str_contains lower ''webhook.site''"

definition looks_like_external_sink :: "taint_lib \<Rightarrow> artifact_edge \<Rightarrow> bool" where
  "looks_like_external_sink lib e =
     (if edge_endpoint e \<in> {Some Remote, Some Transient, Some ControlPlane} then True
      else if edge_endpoint e \<in> {Some Registry, Some Local} then False
      else
        let lower = to_ascii_lowercase (edge_to e)
        in if known_external lower then True
           else (starts_with lower ''http://'' \<or> starts_with lower ''https://'')
                  \<and> \<not> looks_like_registry_url lib (edge_to e)
                  \<and> \<not> looks_like_software_distribution_url lib lower
                  \<and> \<not> looks_like_local_endpoint lib lower)"

definition is_real_external_sink :: "taint_lib \<Rightarrow> artifact_edge \<Rightarrow> bool" where
  "is_real_external_sink lib e \<longleftrightarrow>
     looks_like_external_sink lib e \<and> \<not> is_documentation_or_reserved_host lib (edge_to e)"

section \<open>Which hosts are trusted\<close>

lemma dot_suffix:
  "length sfx < length host \<and> suffix sfx host \<and> host ! (length host - length sfx - 1) = c
     \<longleftrightarrow> suffix (c # sfx) host"
proof
  assume h: "length sfx < length host \<and> suffix sfx host \<and> host ! (length host - length sfx - 1) = c"
  from h obtain pre where pre1: "host = pre @ sfx" unfolding suffix_def by blast
  with h have pre2: "pre \<noteq> []" by auto
  note pre = pre1 pre2
  have "host ! (length pre - 1) = c" using h pre1 by (simp del: nth_append)
  then have "last pre = c" using pre by (simp add: nth_append last_conv_nth)
  then have "pre = butlast pre @ [c]" using append_butlast_last_id [OF pre(2)] by simp
  then have "host = butlast pre @ c # sfx" using pre(1) by (metis append_Cons append_Nil append_assoc)
  then show "suffix (c # sfx) host" by (rule suffixI)
next
  assume "suffix (c # sfx) host"
  then obtain pre where "host = pre @ c # sfx" by (auto simp: suffix_def)
  then show "length sfx < length host \<and> suffix sfx host \<and> host ! (length host - length sfx - 1) = c"
    by (auto simp: suffix_def nth_append)
qed

lemma matches_host_pattern_iff:
  "matches_host_pattern host pat \<longleftrightarrow>
     (case strip_prefix (to_ascii_lowercase pat) ''*.'' of
        Some d \<Rightarrow> suffix (''.'' @ d) host | None \<Rightarrow> host = to_ascii_lowercase pat)"
proof (cases "strip_prefix (to_ascii_lowercase pat) ''*.''")
  case (Some d)
  have "matches_host_pattern host pat \<longleftrightarrow>
      length d < length host \<and> suffix d host \<and> host ! (length host - length d - 1) = CHR ''.''"
    by (simp add: matches_host_pattern_def Some not_le)
  also have "\<dots> \<longleftrightarrow> suffix (CHR ''.'' # d) host" by (rule dot_suffix)
  finally show ?thesis by (simp add: Some)
qed (simp add: matches_host_pattern_def)

lemma trusted_hosts_lowercase: "map to_ascii_lowercase TRUSTED_API_HOSTS = TRUSTED_API_HOSTS"
  by code_simp

text \<open>
  an endpoint is trusted exactly when its host is not an address and is an entry of the list or ends in a dot
  and the domain of a wildcard entry: no host that only contains or ends in a trusted name
  without the dot, and no bare domain of a wildcard.
\<close>

theorem trusted_host_exact:
  "is_trusted_api_host lib endpoint =
     (case extract_host lib endpoint of
        None \<Rightarrow> False
      | Some h \<Rightarrow> h \<noteq> [] \<and> \<not> is_ipv4_literal h
          \<and> list_ex (\<lambda>pat. case strip_prefix pat ''*.'' of Some d \<Rightarrow> suffix (''.'' @ d) h | None \<Rightarrow> h = pat)
              TRUSTED_API_HOSTS)"
proof -
  have "list_ex (matches_host_pattern h) TRUSTED_API_HOSTS
      = list_ex (\<lambda>pat. case strip_prefix pat ''*.'' of Some d \<Rightarrow> suffix (''.'' @ d) h | None \<Rightarrow> h = pat)
          (map to_ascii_lowercase TRUSTED_API_HOSTS)" for h
    by (simp add: list_ex_iff matches_host_pattern_iff)
  then show ?thesis
    unfolding is_trusted_api_host_def trusted_hosts_lowercase
    by (cases "extract_host lib endpoint") simp_all
qed

end
