(* ===== verification/Sibling_Clusters.thy ===== *)
theory Sibling_Clusters
  imports Artifact_Graph
begin

text \<open>
  The clusters of related artifacts that cross-file taint is derived for (\<open>artifact_taint/utils.rs\<close>): one
  cluster per parent of a structural edge, then the clusters that share a node merged with a union-find
  over a vector of parents, with path halving. An index out of range (a panic of the vector) and a walk
  that does not end are both \<open>None\<close>; it is shown that neither happens and that the merged clusters are
  the connected components.
\<close>

section \<open>Union-find\<close>

partial_function (option) uf_find :: "nat list \<Rightarrow> nat \<Rightarrow> (nat list \<times> nat) option" where
  "uf_find p i =
     (if length p \<le> i then None
      else if p ! i = i then Some (p, i)
      else if length p \<le> p ! i then None
      else
        let p' = p[i := p ! (p ! i)]
        in uf_find p' (p' ! i))"

definition uf_union :: "nat list \<Rightarrow> nat \<Rightarrow> nat \<Rightarrow> nat list option" where
  "uf_union p a b =
     Option.bind (uf_find p a) (\<lambda>(p, ra).
     Option.bind (uf_find p b) (\<lambda>(p, rb).
       Some (if ra \<noteq> rb then p[ra := rb] else p)))"

section \<open>Merging clusters\<close>

text \<open>\<open>node_index\<close>: every node gets the size of the map at its first occurrence.\<close>

definition index_node :: "(string \<times> nat) list \<Rightarrow> string \<Rightarrow> (string \<times> nat) list" where
  "index_node m node = (if map_of m node = None then bt_insert node (length m) m else m)"

definition node_index :: "string list list \<Rightarrow> (string \<times> nat) list" where
  "node_index clusters = foldl (foldl index_node) [] clusters"

fun union_rest :: "(string \<times> nat) list \<Rightarrow> nat \<Rightarrow> nat list \<Rightarrow> string list \<Rightarrow> nat list option" where
  "union_rest ix first p [] = Some p"
| "union_rest ix first p (node # rest) =
     (case map_of ix node of
        None \<Rightarrow> None
      | Some j \<Rightarrow> Option.bind (uf_union p first j) (\<lambda>p. union_rest ix first p rest))"

definition union_cluster :: "(string \<times> nat) list \<Rightarrow> nat list \<Rightarrow> string list \<Rightarrow> nat list option" where
  "union_cluster ix p cluster =
     (case cluster of
        [] \<Rightarrow> Some p
      | first # rest \<Rightarrow>
          (case map_of ix first of None \<Rightarrow> None | Some i \<Rightarrow> union_rest ix i p rest))"

fun union_clusters :: "(string \<times> nat) list \<Rightarrow> nat list \<Rightarrow> string list list \<Rightarrow> nat list option" where
  "union_clusters ix p [] = Some p"
| "union_clusters ix p (c # cs) = Option.bind (union_cluster ix p c) (\<lambda>p. union_clusters ix p cs)"

fun collect_by_root ::
    "nat list \<Rightarrow> (nat \<times> string list) list \<Rightarrow> (string \<times> nat) list \<Rightarrow> (nat \<times> string list) list option" where
  "collect_by_root p m [] = Some m"
| "collect_by_root p m ((node, idx) # rest) =
     Option.bind (uf_find p idx) (\<lambda>(p, root).
       collect_by_root p
         (bt_entry root (\<lambda>s. insort_insert node (case s of None \<Rightarrow> [] | Some s \<Rightarrow> s)) m) rest)"

definition merge_overlapping_clusters :: "string list list \<Rightarrow> string list list option" where
  "merge_overlapping_clusters clusters =
     (if clusters = [] then Some []
      else
        let ix = node_index clusters
        in Option.bind (union_clusters ix [0..<length ix] clusters) (\<lambda>p.
           map_option (map snd) (collect_by_root p [] ix)))"

section \<open>Clusters of a graph\<close>

definition relation_forms_sibling_cluster :: "artifact_relation \<Rightarrow> bool" where
  "relation_forms_sibling_cluster r \<longleftrightarrow> r \<in> {References, Contains, Loads, Mounts}"

definition cluster_edge :: "(string \<times> string list) list \<Rightarrow> artifact_edge \<Rightarrow> (string \<times> string list) list" where
  "cluster_edge m e =
     (if relation_forms_sibling_cluster (edge_relation e)
      then bt_entry (edge_from e)
             (\<lambda>s. insort_insert (edge_to e)
                    (insort_insert (edge_from e) (case s of None \<Rightarrow> [] | Some s \<Rightarrow> s))) m
      else m)"

definition parent_clusters :: "artifact_graph \<Rightarrow> string list list" where
  "parent_clusters g = map snd (foldl cluster_edge [] (edges g))"

definition build_sibling_clusters :: "artifact_graph \<Rightarrow> string list list option" where
  "build_sibling_clusters g = merge_overlapping_clusters (parent_clusters g)"

section \<open>Forests\<close>

text \<open>\<open>leads p d i r\<close>: from \<open>i\<close> it is \<open>d\<close> parents up to the root \<open>r\<close>.\<close>

inductive leads :: "nat list \<Rightarrow> nat \<Rightarrow> nat \<Rightarrow> nat \<Rightarrow> bool" for p where
  leads_root: "i < length p \<Longrightarrow> p ! i = i \<Longrightarrow> leads p 0 i i"
| leads_step: "i < length p \<Longrightarrow> p ! i \<noteq> i \<Longrightarrow> leads p d (p ! i) r \<Longrightarrow> leads p (Suc d) i r"

inductive_cases leads_zero: "leads p 0 i r"
inductive_cases leads_Suc: "leads p (Suc d) i r"
inductive_simps leads_iff: "leads p d i r"

definition root_of :: "nat list \<Rightarrow> nat \<Rightarrow> nat \<Rightarrow> bool" where
  "root_of p i r \<longleftrightarrow> (\<exists>d. leads p d i r)"

definition forest :: "nat list \<Rightarrow> bool" where
  "forest p \<longleftrightarrow> (\<forall>i < length p. \<exists>r. root_of p i r)"

lemma leads_bounds: "leads p d i r \<Longrightarrow> i < length p \<and> r < length p \<and> p ! r = r"
  by (induction rule: leads.induct) auto

lemma leads_unique: "leads p d i r \<Longrightarrow> leads p d' i r' \<Longrightarrow> d = d' \<and> r = r'"
proof (induction arbitrary: d' rule: leads.induct)
  case (leads_root i)
  from leads_root(3,2) show ?case by cases auto
next
  case (leads_step i d r)
  from leads_step(5,2) show ?case
    by cases (use leads_step.IH in auto)
qed

lemma root_unique: "root_of p i r \<Longrightarrow> root_of p i r' \<Longrightarrow> r = r'"
  unfolding root_of_def using leads_unique by blast

lemma root_bounds: "root_of p i r \<Longrightarrow> i < length p \<and> r < length p \<and> p ! r = r"
  unfolding root_of_def using leads_bounds by blast

lemma root_self: "i < length p \<Longrightarrow> p ! i = i \<Longrightarrow> root_of p i i"
  unfolding root_of_def using leads_root by blast

text \<open>Path halving keeps every root and lengthens no path.\<close>

lemma leads_halved:
  assumes "i < length p" "p ! i \<noteq> i" "leads p d j r"
  shows "\<exists>d' \<le> d. leads (p[i := p ! (p ! i)]) d' j r"
  using assms(3)
proof (induction d arbitrary: j rule: less_induct)
  case (less d)
  let ?p = "p[i := p ! (p ! i)]"
  from less.prems show ?case
  proof cases
    case leads_root
    with assms show ?thesis by (auto intro!: exI [of _ 0] leads.leads_root simp: nth_list_update)
  next
    case (leads_step e)
    show ?thesis
    proof (cases "j = i")
      case False
      from less.IH [of e "p ! j"] leads_step obtain e' where "e' \<le> e" "leads ?p e' (p ! j) r" by auto
      with False leads_step have "leads ?p (Suc e') j r" by (intro leads.leads_step) simp_all
      with \<open>e' \<le> e\<close> leads_step show ?thesis by (intro exI [of _ "Suc e'"]) simp
    next
      case True
      from leads_step(4) show ?thesis
      proof cases
        case root: leads_root
        with True leads_step have "leads ?p 0 r r" by (intro leads.leads_root) auto
        with True leads_step root have "leads ?p (Suc 0) j r" by (intro leads.leads_step) simp_all
        then show ?thesis using leads_step by (intro exI [of _ "Suc 0"]) simp
      next
        case up: (leads_step c)
        from less.IH [of c "p ! (p ! j)"] up leads_step obtain c'
          where "c' \<le> c" "leads ?p c' (p ! (p ! j)) r" by auto
        moreover have "p ! (p ! i) \<noteq> i"
        proof
          assume "p ! (p ! i) = i"
          then have "leads p c i r" using up True by simp
          with less.prems True leads_unique have "d = c" by blast
          with leads_step up show False by simp
        qed
        ultimately have "leads ?p (Suc c') j r"
          using True leads_step by (intro leads.leads_step) simp_all
        with \<open>c' \<le> c\<close> leads_step up show ?thesis by (intro exI [of _ "Suc c'"]) simp
      qed
    qed
  qed
qed

lemma roots_halved:
  assumes "forest p" "i < length p" "p ! i \<noteq> i"
  shows "root_of (p[i := p ! (p ! i)]) j r = root_of p j r"
proof
  assume "root_of p j r"
  then show "root_of (p[i := p ! (p ! i)]) j r"
    using leads_halved [OF assms(2,3)] unfolding root_of_def by blast
next
  assume halved: "root_of (p[i := p ! (p ! i)]) j r"
  then have "j < length p" using root_bounds by fastforce
  then obtain s where "root_of p j s" using assms(1) unfolding forest_def by blast
  moreover from this have "root_of (p[i := p ! (p ! i)]) j s"
    using leads_halved [OF assms(2,3)] unfolding root_of_def by blast
  ultimately show "root_of p j r" using halved root_unique by blast
qed

text \<open>\<open>same_roots p q\<close>: one vector stands for the other.\<close>

definition same_roots :: "nat list \<Rightarrow> nat list \<Rightarrow> bool" where
  "same_roots p q \<longleftrightarrow> length p = length q \<and> (\<forall>j s. root_of p j s = root_of q j s)"

lemma same_roots_refl [simp]: "same_roots p p"
  by (simp add: same_roots_def)

lemma same_roots_trans: "same_roots p q \<Longrightarrow> same_roots q r \<Longrightarrow> same_roots p r"
  by (simp add: same_roots_def)

lemma same_roots_forest: "same_roots p q \<Longrightarrow> forest p \<Longrightarrow> forest q"
  by (simp add: same_roots_def forest_def)

lemma find_correct:
  assumes "forest p" "leads p d i r"
  shows "\<exists>q. uf_find p i = Some (q, r) \<and> same_roots p q"
  using assms
proof (induction d arbitrary: p i rule: less_induct)
  case (less d)
  from less.prems(2) show ?case
  proof cases
    case leads_root
    then show ?thesis by (subst uf_find.simps) simp
  next
    case (leads_step e)
    let ?q = "p[i := p ! (p ! i)]"
    have bound: "p ! i < length p" using leads_step leads_bounds by blast
    have roots: "same_roots p ?q"
      using roots_halved [OF less.prems(1)] leads_step by (simp add: same_roots_def)
    then have forest: "forest ?q" using same_roots_forest less.prems(1) by blast
    have "\<exists>c \<le> e. leads p c (p ! (p ! i)) r"
      using leads_step(4)
    proof cases
      case leads_root
      with leads_step(4) show ?thesis by auto
    next
      case (leads_step c)
      then show ?thesis by (intro exI [of _ c]) simp
    qed
    then obtain c where "c \<le> e" "leads p c (p ! (p ! i)) r" by blast
    then obtain c' where "c' \<le> c" "leads ?q c' (p ! (p ! i)) r"
      using leads_halved leads_step(2,3) by blast
    with less.IH [of c' ?q "p ! (p ! i)"] forest \<open>c \<le> e\<close> leads_step
    obtain q where "uf_find ?q (p ! (p ! i)) = Some (q, r)" "same_roots ?q q" by auto
    moreover from this have "same_roots p q" using roots same_roots_trans by blast
    ultimately have "uf_find p i = Some (q, r) \<and> same_roots p q"
      using leads_step(2,3) bound by (subst uf_find.simps) (simp add: Let_def)
    then show ?thesis by blast
  qed
qed

lemma find_root: "forest p \<Longrightarrow> root_of p i r \<Longrightarrow> \<exists>q. uf_find p i = Some (q, r) \<and> same_roots p q"
  unfolding root_of_def using find_correct by blast

lemma leads_linked:
  assumes "leads p d j t" "p ! ra = ra" "p ! rb = rb" "ra \<noteq> rb" "ra < length p" "rb < length p"
  shows "\<exists>d'. leads (p[ra := rb]) d' j (if t = ra then rb else t)"
  using assms(1)
proof (induction rule: leads.induct)
  case (leads_root i)
  have "leads (p[ra := rb]) 0 rb rb" using assms by (intro leads.leads_root) simp_all
  then have "leads (p[ra := rb]) (Suc 0) ra rb" using assms by (intro leads.leads_step) simp_all
  moreover have "leads (p[ra := rb]) 0 i i" if "i \<noteq> ra"
    using leads_root that by (intro leads.leads_root) simp_all
  ultimately show ?case by (cases "i = ra") auto
next
  case (leads_step i d r)
  then show ?case using assms by (metis leads.leads_step length_list_update nth_list_update_neq)
qed

lemma roots_linked:
  "root_of p j t \<Longrightarrow> p ! ra = ra \<Longrightarrow> p ! rb = rb \<Longrightarrow> ra \<noteq> rb \<Longrightarrow> ra < length p
     \<Longrightarrow> rb < length p \<Longrightarrow> root_of (p[ra := rb]) j (if t = ra then rb else t)"
  unfolding root_of_def using leads_linked by blast

text \<open>\<open>linked S\<close>: the equivalence a set of pairs generates.\<close>

definition linked :: "('a \<times> 'a) set \<Rightarrow> ('a \<times> 'a) set" where
  "linked S = (S \<union> S\<inverse>)\<^sup>*"

lemma linked_refl [simp]: "(x, x) \<in> linked S"
  by (simp add: linked_def)

lemma linked_sym: "(x, y) \<in> linked S \<Longrightarrow> (y, x) \<in> linked S"
  unfolding linked_def by (metis sym_Un_converse sym_conv_converse_eq rtrancl_converseD converseI)

lemma linked_trans: "(x, y) \<in> linked S \<Longrightarrow> (y, z) \<in> linked S \<Longrightarrow> (x, z) \<in> linked S"
  unfolding linked_def by (rule rtrancl_trans)

lemma linked_pair: "(x, y) \<in> S \<Longrightarrow> (x, y) \<in> linked S"
  unfolding linked_def by blast

lemma linked_mono:
  assumes "S \<subseteq> linked T"
  shows "linked S \<subseteq> linked T"
proof -
  have "(x, y) \<in> linked T" if "(x, y) \<in> (S \<union> S\<inverse>)\<^sup>*" for x y
    using that
  proof (induction rule: rtrancl_induct)
    case (step y z)
    then have "(y, z) \<in> linked T" using assms linked_sym [of z y T] by auto
    with step.IH show ?case by (rule linked_trans)
  qed simp
  then show ?thesis by (auto simp: linked_def [of S])
qed

lemma linked_insert:
  "(x, y) \<in> linked (insert (a, b) S) \<longleftrightarrow>
     (x, y) \<in> linked S \<or> (x, a) \<in> linked S \<and> (b, y) \<in> linked S \<or> (x, b) \<in> linked S \<and> (a, y) \<in> linked S"
proof
  assume "(x, y) \<in> linked (insert (a, b) S)"
  then show "(x, y) \<in> linked S \<or> (x, a) \<in> linked S \<and> (b, y) \<in> linked S
      \<or> (x, b) \<in> linked S \<and> (a, y) \<in> linked S"
    unfolding linked_def [of "insert (a, b) S"]
  proof (induction rule: rtrancl_induct)
    case (step y z)
    from step(2) consider "(y, z) \<in> linked S" | "y = a" "z = b" | "y = b" "z = a"
      using linked_pair [of _ _ S] linked_sym [of _ _ S] by auto
    then show ?case
    proof cases
      case 1
      with step.IH show ?thesis using linked_trans [of _ y S z] by blast
    next
      case 2
      with step.IH show ?thesis using linked_trans [of x b S a] linked_refl [of b S] by auto
    next
      case 3
      with step.IH show ?thesis using linked_trans [of x a S b] linked_refl [of a S] by auto
    qed
  qed simp
next
  let ?L = "linked (insert (a, b) S)"
  have "S \<subseteq> ?L" using linked_pair [of _ _ "insert (a, b) S"] by auto
  then have sub: "linked S \<subseteq> ?L" by (rule linked_mono)
  have ab: "(a, b) \<in> ?L" "(b, a) \<in> ?L" by (simp_all add: linked_pair linked_sym)
  show "(x, y) \<in> linked S \<or> (x, a) \<in> linked S \<and> (b, y) \<in> linked S
      \<or> (x, b) \<in> linked S \<and> (a, y) \<in> linked S \<Longrightarrow> (x, y) \<in> ?L"
    using sub ab linked_trans [of x a ?L b] linked_trans [of x b _ a] by (meson linked_trans subsetD)
qed

section \<open>Union connects\<close>

definition same :: "nat list \<Rightarrow> nat \<Rightarrow> nat \<Rightarrow> bool" where
  "same p i j \<longleftrightarrow> (\<exists>r. root_of p i r \<and> root_of p j r)"

lemma same_roots_same: "same_roots p q \<Longrightarrow> same p i j = same q i j"
  by (simp add: same_roots_def same_def)

lemma same_root_iff:
  assumes "root_of p a r"
  shows "same p i a \<longleftrightarrow> root_of p i r" "same p a i \<longleftrightarrow> root_of p i r"
  using assms root_unique unfolding same_def by blast+

lemma union_correct:
  assumes "forest p" "a < length p" "b < length p"
  shows "\<exists>q. uf_union p a b = Some q \<and> length q = length p \<and> forest q
    \<and> (\<forall>i j. same q i j \<longleftrightarrow> same p i j \<or> same p i a \<and> same p b j \<or> same p i b \<and> same p a j)"
proof -
  obtain ra rb where ra: "root_of p a ra" and rb: "root_of p b rb"
    using assms unfolding forest_def by blast
  obtain p1 where p1: "uf_find p a = Some (p1, ra)" "same_roots p p1"
    using find_root [OF assms(1) ra] by blast
  then have f1: "forest p1" and "root_of p1 b rb"
    using same_roots_forest assms(1) rb by (auto simp: same_roots_def)
  then obtain p2 where p2: "uf_find p1 b = Some (p2, rb)" "same_roots p1 p2" using find_root by blast
  have roots: "same_roots p p2" using p1 p2 same_roots_trans by blast
  then have len: "length p2 = length p" and f2: "forest p2" using same_roots_forest assms(1)
    by (auto simp: same_roots_def)
  have rootsD: "root_of p2 i r = root_of p i r" for i r using roots by (simp add: same_roots_def)
  note side = same_root_iff [OF ra] same_root_iff [OF rb]
  show ?thesis
  proof (cases "ra = rb")
    case True
    then have "same p i a \<and> same p b j \<or> same p i b \<and> same p a j \<Longrightarrow> same p i j" for i j
      unfolding side by (auto simp: same_def)
    then have "same p2 i j \<longleftrightarrow> same p i j \<or> same p i a \<and> same p b j \<or> same p i b \<and> same p a j" for i j
      using same_roots_same [OF roots, of i j] by blast
    moreover have "uf_union p a b = Some p2" using True p1 p2 by (simp add: uf_union_def)
    ultimately show ?thesis using len f2 by blast
  next
    case False
    let ?q = "p2[ra := rb]"
    have bounds: "ra < length p2" "p2 ! ra = ra" "rb < length p2" "p2 ! rb = rb"
      using root_bounds [of p2] ra rb rootsD by metis+
    have to: "root_of p i t \<Longrightarrow> root_of ?q i (if t = ra then rb else t)" for i t
      using roots_linked [of p2 i t ra rb] bounds False by (simp add: rootsD)
    have from': "root_of ?q i s \<Longrightarrow> \<exists>t. root_of p i t \<and> s = (if t = ra then rb else t)" for i s
    proof -
      assume s: "root_of ?q i s"
      then have "i < length p" using root_bounds len by fastforce
      then obtain t where "root_of p i t" using assms(1) unfolding forest_def by blast
      with to s root_unique show ?thesis by blast
    qed
    have "forest ?q" using to assms(1) len unfolding forest_def by (metis length_list_update)
    moreover have "same ?q i j \<longleftrightarrow> same p i j \<or> same p i a \<and> same p b j \<or> same p i b \<and> same p a j" for i j
    proof
      assume "same ?q i j"
      then obtain s where "root_of ?q i s" "root_of ?q j s" unfolding same_def by blast
      then obtain t u where tu: "root_of p i t" "root_of p j u"
        and eq: "(if t = ra then rb else t) = (if u = ra then rb else u)"
        using from' [of i s] from' [of j s] by auto
      from eq consider "t = u" | "t = ra" "u = rb" | "t = rb" "u = ra" by (auto split: if_splits)
      then show "same p i j \<or> same p i a \<and> same p b j \<or> same p i b \<and> same p a j"
        unfolding side by cases (use tu in \<open>auto simp: same_def\<close>)
    next
      assume "same p i j \<or> same p i a \<and> same p b j \<or> same p i b \<and> same p a j"
      then consider t where "root_of p i t" "root_of p j t"
        | "root_of p i ra" "root_of p j rb" | "root_of p i rb" "root_of p j ra"
        unfolding side unfolding same_def by blast
      then show "same ?q i j"
      proof cases
        case 1
        then show ?thesis using to [of i t] to [of j t] unfolding same_def by blast
      next
        case 2
        then show ?thesis using to [of i ra] to [of j rb] False unfolding same_def by auto
      next
        case 3
        then show ?thesis using to [of i rb] to [of j ra] False unfolding same_def by auto
      qed
    qed
    moreover have "uf_union p a b = Some ?q" using False p1 p2 by (simp add: uf_union_def)
    moreover have "length ?q = length p" using len by simp
    ultimately show ?thesis by blast
  qed
qed

text \<open>\<open>joined p S\<close>: the vector represents the equivalence that \<open>S\<close> generates on its indices.\<close>

definition joined :: "nat list \<Rightarrow> (nat \<times> nat) set \<Rightarrow> bool" where
  "joined p S \<longleftrightarrow> forest p
     \<and> (\<forall>i < length p. \<forall>j < length p. same p i j \<longleftrightarrow> (i, j) \<in> linked S)"

lemma joined_start: "joined [0..<n] {}"
proof -
  have root: "root_of [0..<n] i r \<longleftrightarrow> i < n \<and> r = i" for i r
  proof
    assume "root_of [0..<n] i r"
    then obtain d where "leads [0..<n] d i r" unfolding root_of_def by blast
    then show "i < n \<and> r = i" by cases auto
  qed (use root_self [of i "[0..<n]"] in auto)
  show ?thesis unfolding joined_def forest_def same_def root by (simp add: linked_def)
qed

lemma joined_union:
  assumes "joined p S" "a < length p" "b < length p"
  shows "\<exists>q. uf_union p a b = Some q \<and> length q = length p \<and> joined q (insert (a, b) S)"
proof -
  obtain q where q: "uf_union p a b = Some q" "length q = length p" "forest q"
    "\<forall>i j. same q i j \<longleftrightarrow> same p i j \<or> same p i a \<and> same p b j \<or> same p i b \<and> same p a j"
    using union_correct [of p a b] assms unfolding joined_def by blast
  then have "joined q (insert (a, b) S)"
    using assms unfolding joined_def linked_insert by simp
  with q show ?thesis by blast
qed

section \<open>Numbering the nodes\<close>

definition numbering :: "(string \<times> nat) list \<Rightarrow> bool" where
  "numbering m \<longleftrightarrow> bt_invar m \<and> (\<forall>j k a. map_of m j = Some a \<and> map_of m k = Some a \<longrightarrow> j = k)
     \<and> (\<forall>k a. map_of m k = Some a \<longrightarrow> a < length m)"

lemma bt_entry_new: "map_of m k = None \<Longrightarrow> length (bt_entry k h m) = Suc (length m)"
  by (induction k h m rule: bt_entry.induct) (auto split: if_splits)

lemma numbering_index:
  assumes "numbering m"
  shows "numbering (index_node m x)" "dom (map_of (index_node m x)) = insert x (dom (map_of m))"
proof -
  have get: "map_of (bt_insert x (length m) m) k = (if k = x then Some (length m) else map_of m k)" for k
    using assms by (simp add: numbering_def bt_insert_def bt_get_entry)
  show "dom (map_of (index_node m x)) = insert x (dom (map_of m))"
    using get by (auto simp: index_node_def dom_def)
  show "numbering (index_node m x)"
  proof (cases "map_of m x = None")
    case True
    then have len: "length (bt_insert x (length m) m) = Suc (length m)"
      by (simp add: bt_insert_def bt_entry_new)
    have "bt_invar (bt_insert x (length m) m)"
      using assms by (simp add: numbering_def bt_insert_def bt_invar_entry)
    moreover have "a < Suc (length m)" if "map_of (bt_insert x (length m) m) k = Some a" for k a
      using that assms unfolding get numbering_def by (auto split: if_splits intro: less_SucI)
    moreover have "j = k" if "map_of (bt_insert x (length m) m) j = Some a"
        "map_of (bt_insert x (length m) m) k = Some a" for j k a
      using that assms unfolding get numbering_def by (auto split: if_splits)
    ultimately show ?thesis
      using True len unfolding index_node_def by (simp add: numbering_def)
  qed (use assms in \<open>auto simp: index_node_def\<close>)
qed

lemma numbering_fold:
  "numbering m \<Longrightarrow> numbering (foldl index_node m xs)
     \<and> dom (map_of (foldl index_node m xs)) = dom (map_of m) \<union> set xs"
  by (induction xs arbitrary: m) (auto simp: numbering_index)

lemma node_index_numbering:
  "numbering (node_index cs)" "dom (map_of (node_index cs)) = \<Union> (set ` set cs)"
proof -
  have "numbering m \<Longrightarrow> numbering (foldl (foldl index_node) m cs)
     \<and> dom (map_of (foldl (foldl index_node) m cs)) = dom (map_of m) \<union> \<Union> (set ` set cs)" for m
    by (induction cs arbitrary: m) (auto simp: numbering_fold)
  from this [of "[]"] show "numbering (node_index cs)" "dom (map_of (node_index cs)) = \<Union> (set ` set cs)"
    by (simp_all add: node_index_def numbering_def bt_invar_def)
qed

section \<open>Joining the clusters\<close>

lemma union_rest_joined:
  assumes "joined p S" "i < length p" "\<forall>x \<in> set xs. \<exists>j. map_of ix x = Some j \<and> j < length p"
  shows "\<exists>q. union_rest ix i p xs = Some q \<and> length q = length p
    \<and> joined q (S \<union> (\<lambda>x. (i, the (map_of ix x))) ` set xs)"
  using assms
proof (induction xs arbitrary: p S)
  case (Cons x xs)
  then obtain j where j: "map_of ix x = Some j" "j < length p" by auto
  obtain q where q: "uf_union p i j = Some q" "length q = length p" "joined q (insert (i, j) S)"
    using joined_union [OF Cons.prems(1,2) j(2)] by blast
  then obtain r where "union_rest ix i q xs = Some r" "length r = length p"
    "joined r (insert (i, j) S \<union> (\<lambda>x. (i, the (map_of ix x))) ` set xs)"
    using Cons.IH [of q "insert (i, j) S"] Cons.prems by auto
  with q j show ?case by (simp add: insert_commute)
qed simp

definition star :: "(string \<Rightarrow> nat) \<Rightarrow> string list \<Rightarrow> (nat \<times> nat) set" where
  "star idx c = (case c of [] \<Rightarrow> {} | x # xs \<Rightarrow> (\<lambda>y. (idx x, idx y)) ` set xs)"

lemma union_clusters_joined:
  assumes "joined p S" "\<forall>c \<in> set cs. \<forall>x \<in> set c. \<exists>j. map_of ix x = Some j \<and> j < length p"
  shows "\<exists>q. union_clusters ix p cs = Some q \<and> length q = length p
    \<and> joined q (S \<union> \<Union> (star (\<lambda>x. the (map_of ix x)) ` set cs))"
  using assms
proof (induction cs arbitrary: p S)
  case (Cons c cs)
  let ?star = "star (\<lambda>x. the (map_of ix x))"
  have "\<exists>q. union_cluster ix p c = Some q \<and> length q = length p \<and> joined q (S \<union> ?star c)"
  proof (cases c)
    case (Cons x xs)
    then obtain i where "map_of ix x = Some i" "i < length p" using Cons.prems by auto
    with Cons Cons.prems show ?thesis
      using union_rest_joined [of p S i xs ix] by (simp add: union_cluster_def star_def)
  qed (use Cons.prems in \<open>simp add: union_cluster_def star_def\<close>)
  then obtain q where q: "union_cluster ix p c = Some q" "length q = length p" "joined q (S \<union> ?star c)"
    by blast
  then obtain r where "union_clusters ix q cs = Some r" "length r = length p"
    "joined r (S \<union> ?star c \<union> \<Union> (?star ` set cs))"
    using Cons.IH [of q "S \<union> ?star c"] Cons.prems by auto
  with q show ?case by (simp add: Un_assoc)
qed simp

text \<open>\<open>together cs\<close>: in one cluster.\<close>

definition together :: "string list list \<Rightarrow> (string \<times> string) set" where
  "together cs = {(x, y). \<exists>c \<in> set cs. x \<in> set c \<and> y \<in> set c}"

lemma star_pair: "(u, v) \<in> star idx c \<Longrightarrow> \<exists>a \<in> set c. \<exists>b \<in> set c. u = idx a \<and> v = idx b"
  by (auto simp: star_def split: list.splits)

lemma linked_star:
  assumes inj: "inj_on idx N" and N: "N = \<Union> (set ` set cs)" and "x \<in> N" "y \<in> N"
  shows "(idx x, idx y) \<in> linked (\<Union> (star idx ` set cs)) \<longleftrightarrow> (x, y) \<in> linked (together cs)"
proof -
  let ?P = "\<Union> (star idx ` set cs)" and ?T = "together cs"
  have hub: "(idx (hd c), idx z) \<in> linked ?P" if mem: "c \<in> set cs" "z \<in> set c" for c z
  proof -
    obtain h t where c: "c = h # t" using mem(2) by (cases c) auto
    show ?thesis
    proof (cases "z = h")
      case False
      then have "(idx h, idx z) \<in> ?P" using mem c by (auto simp: star_def intro!: bexI [of _ c])
      then have "(idx h, idx z) \<in> linked ?P" by (rule linked_pair)
      with c show ?thesis by simp
    qed (use c in simp)
  qed
  have pair: "(idx a, idx b) \<in> linked ?P" if ab: "(a, b) \<in> ?T" for a b
  proof -
    obtain c where "c \<in> set cs" "a \<in> set c" "b \<in> set c" using ab unfolding together_def by blast
    then show ?thesis using linked_trans [OF linked_sym [OF hub] hub] by blast
  qed
  have bwd: "(idx x, idx z) \<in> linked ?P" if "(x, z) \<in> (?T \<union> ?T\<inverse>)\<^sup>*" for z
    using that
  proof (induction rule: rtrancl_induct)
    case (step u v)
    then have "(idx u, idx v) \<in> linked ?P" using pair [of u v] linked_sym [OF pair [of v u]] by blast
    with step.IH show ?case by (rule linked_trans)
  qed simp
  have forth: "\<exists>z \<in> N. u = idx z \<and> (x, z) \<in> linked ?T" if "(idx x, u) \<in> (?P \<union> ?P\<inverse>)\<^sup>*" for u
    using that
  proof (induction rule: rtrancl_induct)
    case base
    then show ?case using assms(3) by (intro bexI [of _ x]) simp_all
  next
    case (step u v)
    then obtain z where z: "z \<in> N" "u = idx z" "(x, z) \<in> linked ?T" by blast
    have in_cluster: "\<exists>c \<in> set cs. \<exists>a \<in> set c. \<exists>b \<in> set c. u = idx a \<and> v = idx b"
      if "(u, v) \<in> ?P" for u v
      using that star_pair by fastforce
    from step(2) have "\<exists>c \<in> set cs. \<exists>a \<in> set c. \<exists>b \<in> set c. u = idx a \<and> v = idx b"
      using in_cluster [of u v] in_cluster [of v u] by blast
    then obtain c a b where "c \<in> set cs" "a \<in> set c" "b \<in> set c" "u = idx a" "v = idx b" by blast
    then have ab: "(a, b) \<in> ?T" "a \<in> N" "v = idx b" "b \<in> N" "idx z = idx a"
      using z(2) unfolding together_def N by auto
    then have "z = a" using z(1) inj by (auto dest: inj_onD)
    then have "(x, b) \<in> linked ?T" using z(3) linked_trans [OF _ linked_pair [OF ab(1)], of x] by simp
    with ab show ?case by blast
  qed
  show ?thesis
    using bwd [of y] forth [of "idx y"] inj assms(4) unfolding linked_def by (auto dest: inj_onD)
qed

section \<open>Collecting by root\<close>

definition the_root :: "nat list \<Rightarrow> nat \<Rightarrow> nat" where
  "the_root p i = (THE r. root_of p i r)"

lemma the_root: "root_of p i r \<Longrightarrow> the_root p i = r"
  unfolding the_root_def using root_unique by blast

lemma the_root_same:
  assumes "forest p" "i < length p" "j < length p"
  shows "the_root p i = the_root p j \<longleftrightarrow> same p i j"
proof -
  obtain r s where "root_of p i r" "root_of p j s" using assms unfolding forest_def by blast
  then show ?thesis using the_root root_unique unfolding same_def by metis
qed

definition add_member :: "string \<times> nat \<Rightarrow> string list option \<Rightarrow> string list" where
  "add_member x s = insort_insert (fst x) (case s of None \<Rightarrow> [] | Some s \<Rightarrow> s)"

lemma collect_by_root_fold:
  assumes "forest p" "same_roots p q" "\<forall>x \<in> set xs. snd x < length p"
  shows "collect_by_root q m xs
    = Some (foldl (\<lambda>m x. bt_entry (the_root p (snd x)) (add_member x) m) m xs)"
  using assms(2,3)
proof (induction xs arbitrary: q m)
  case (Cons x xs)
  obtain node i where x: "x = (node, i)" by fastforce
  obtain r where r: "root_of p i r" using Cons.prems(2) x assms(1) unfolding forest_def by auto
  then have "root_of q i r" "forest q"
    using Cons.prems(1) same_roots_forest assms(1) by (auto simp: same_roots_def)
  then obtain q' where "uf_find q i = Some (q', r)" "same_roots q q'" using find_root by blast
  moreover from this have "same_roots p q'" using Cons.prems(1) same_roots_trans by blast
  ultimately show ?case
    using Cons.IH [of q'] Cons.prems(2) x the_root [OF r] by (simp add: add_member_def [abs_def])
qed simp

lemma add_members:
  assumes "xs \<noteq> []"
  shows "\<exists>s. foldl (\<lambda>o' x. Some (add_member x o')) None xs = Some s
    \<and> set s = fst ` set xs \<and> sorted s \<and> distinct s"
proof -
  have "foldl (\<lambda>o' x. Some (add_member x o')) (Some s) ys = Some (foldl (\<lambda>s x. insort_insert (fst x) s) s ys)"
    for s ys by (induction ys arbitrary: s) (simp_all add: add_member_def)
  moreover have "sorted s \<and> distinct s \<Longrightarrow>
      set (foldl (\<lambda>s x. insort_insert (fst x) s) s ys) = set s \<union> fst ` set ys
      \<and> sorted (foldl (\<lambda>s x. insort_insert (fst x) s) s ys)
      \<and> distinct (foldl (\<lambda>s x. insort_insert (fst x) s) s ys)"
    for s and ys :: "(string \<times> nat) list"
    by (induction ys arbitrary: s) (auto simp: set_insort_insert sorted_insort_insert distinct_insort_insert)
  ultimately show ?thesis
    using assms by (cases xs) (auto simp: add_member_def set_insort_insert sorted_insort_insert distinct_insort_insert)
qed

lemma collected_groups:
  assumes "\<And>x. x \<in> set xs \<Longrightarrow> key x = k' (fst x)" "M = foldl (\<lambda>m x. bt_entry (key x) (add_member x) m) [] xs"
  shows "set (map set (map snd M)) = (\<lambda>n. {n' \<in> fst ` set xs. k' n' = k' n}) ` fst ` set xs
    \<and> list_all (\<lambda>s. sorted s \<and> distinct s) (map snd M) \<and> distinct (map set (map snd M))"
proof -
  have M: "bt_invar M" unfolding assms(2) by (rule bt.invar_fold [OF bt.invar_empty])
  have get: "map_of M k = foldl (\<lambda>o' x. Some (add_member x o')) None (filter (\<lambda>x. key x = k) xs)" for k
    unfolding assms(2) using bt.get_fold [OF bt.invar_empty, where xs = xs and key = key and h = add_member]
    by simp
  have val: "set s = {n' \<in> fst ` set xs. k' n' = k} \<and> set s \<noteq> {} \<and> sorted s \<and> distinct s" if "(k, s) \<in> set M" for k s
  proof -
    have s: "map_of M k = Some s" using that bt.items_iff [OF M] by simp
    then have ne: "filter (\<lambda>x. key x = k) xs \<noteq> []" unfolding get by auto
    then have "set s = fst ` set (filter (\<lambda>x. key x = k) xs)" "sorted s" "distinct s"
      using add_members [OF ne] s unfolding get by auto
    moreover have "fst ` set (filter (\<lambda>x. key x = k) xs) = {n' \<in> fst ` set xs. k' n' = k}"
      using assms(1) by force
    moreover have "fst ` set (filter (\<lambda>x. key x = k) xs) \<noteq> {}" using ne by (metis image_is_empty set_empty)
    ultimately show ?thesis by simp
  qed
  have keys: "fst ` set M = key ` set xs"
    unfolding assms(2) by (rule bt.keys_fold)
  have "set (map set (map snd M)) = (\<lambda>e. set (snd e)) ` set M" by (simp add: image_image)
  also have "\<dots> = (\<lambda>e. {n' \<in> fst ` set xs. k' n' = fst e}) ` set M"
    by (rule image_cong) (use val in auto)
  also have "\<dots> = (\<lambda>k. {n' \<in> fst ` set xs. k' n' = k}) ` fst ` set M" by (simp add: image_image)
  also have "fst ` set M = k' ` fst ` set xs"
    unfolding keys image_image by (rule image_cong) (use assms(1) in auto)
  also have "(\<lambda>k. {n' \<in> fst ` set xs. k' n' = k}) ` k' ` fst ` set xs
      = (\<lambda>n. {n' \<in> fst ` set xs. k' n' = k' n}) ` fst ` set xs" by (simp add: image_image)
  finally have sets: "set (map set (map snd M)) = (\<lambda>n. {n' \<in> fst ` set xs. k' n' = k' n}) ` fst ` set xs" .
  have "inj_on (set \<circ> snd) (set M)"
  proof (rule inj_onI)
    fix a b assume ab: "a \<in> set M" "b \<in> set M" "(set \<circ> snd) a = (set \<circ> snd) b"
    have a: "set (snd a) = {n' \<in> fst ` set xs. k' n' = fst a}" "set (snd a) \<noteq> {}"
      using val [of "fst a" "snd a"] ab(1) by (simp, metis prod.collapse val)
    have b: "set (snd b) = {n' \<in> fst ` set xs. k' n' = fst b}"
      using val [of "fst b" "snd b"] ab(2) by simp
    obtain n where n: "n \<in> set (snd a)" using a(2) by (meson ex_in_conv)
    moreover have "n \<in> set (snd b)" using n ab(3) by simp
    ultimately have "fst a = fst b" unfolding a(1) b by simp
    moreover have "distinct (map fst M)" using bt.items_distinct [OF M] .
    ultimately show "a = b" using ab(1,2) by (meson distinct_map inj_onD)
  qed
  moreover have "distinct M" using bt.items_distinct [OF M] by (simp add: distinct_map)
  ultimately have "distinct (map (set \<circ> snd) M)" by (simp add: distinct_map)
  with sets val show ?thesis by (auto simp: list_all_iff)
qed

section \<open>The connected components\<close>

lemma merge_components:
  "\<exists>ms. merge_overlapping_clusters cs = Some ms
     \<and> set (map set ms) = (\<lambda>x. {y \<in> \<Union> (set ` set cs). (y, x) \<in> linked (together cs)}) ` \<Union> (set ` set cs)
     \<and> list_all (\<lambda>s. sorted s \<and> distinct s) ms \<and> distinct (map set ms)"
proof (cases "cs = []")
  case False
  let ?ix = "node_index cs" and ?N = "\<Union> (set ` set cs)"
  let ?idx = "\<lambda>x. the (map_of ?ix x)" and ?n = "length (node_index cs)"
  have num: "numbering ?ix" and dom: "dom (map_of ?ix) = ?N" by (rule node_index_numbering)+
  have known: "\<exists>j. map_of ?ix x = Some j \<and> j < ?n" if "x \<in> ?N" for x
    using that num dom unfolding numbering_def by (metis domD)
  have inj: "inj_on ?idx ?N"
    using num known unfolding numbering_def inj_on_def by (metis option.sel)
  obtain p where p: "union_clusters ?ix [0..<?n] cs = Some p" "length p = ?n"
    "joined p (\<Union> (star ?idx ` set cs))"
    using union_clusters_joined [OF joined_start, of cs ?ix ?n] known by auto
  then have forest: "forest p" by (simp add: joined_def)
  have entries: "snd x = ?idx (fst x) \<and> fst x \<in> ?N \<and> snd x < length p" if "x \<in> set ?ix" for x
  proof -
    have "map_of ?ix (fst x) = Some (snd x)"
      using that num bt.items_iff [of ?ix "fst x" "snd x"] by (simp add: numbering_def)
    with num dom p(2) show ?thesis by (auto simp: numbering_def dom_def)
  qed
  have nodes: "fst ` set ?ix = ?N" using dom by (simp add: dom_map_of_conv_image_fst)
  let ?key = "\<lambda>x. the_root p (snd x)" and ?k' = "\<lambda>n. the_root p (?idx n)"
  define M where "M = foldl (\<lambda>m x. bt_entry (?key x) (add_member x) m) [] ?ix"
  have collect: "collect_by_root p [] ?ix = Some M"
    unfolding M_def using entries by (intro collect_by_root_fold [OF forest]) auto
  have groups: "set (map set (map snd M)) = (\<lambda>n. {n' \<in> fst ` set ?ix. ?k' n' = ?k' n}) ` fst ` set ?ix
    \<and> list_all (\<lambda>s. sorted s \<and> distinct s) (map snd M) \<and> distinct (map set (map snd M))"
    by (rule collected_groups [OF _ M_def]) (use entries in auto)
  have linked: "?k' n' = ?k' n \<longleftrightarrow> (n', n) \<in> linked (together cs)" if mem: "n' \<in> ?N" "n \<in> ?N" for n' n
  proof -
    obtain i j where ij: "map_of ?ix n' = Some i" "i < ?n" "map_of ?ix n = Some j" "j < ?n"
      using known [OF mem(1)] known [OF mem(2)] by blast
    then have "?k' n' = ?k' n \<longleftrightarrow> same p i j"
      using the_root_same [OF forest, of i j] p(2) by simp
    also have "\<dots> \<longleftrightarrow> (i, j) \<in> linked (\<Union> (star ?idx ` set cs))"
      using p(2,3) ij unfolding joined_def by simp
    also have "\<dots> \<longleftrightarrow> (n', n) \<in> linked (together cs)"
      using linked_star [OF inj refl mem] ij by simp
    finally show ?thesis .
  qed
  have "set (map set (map snd M)) = (\<lambda>n. {n' \<in> ?N. (n', n) \<in> linked (together cs)}) ` ?N"
    unfolding groups [THEN conjunct1] nodes by (rule image_cong) (use linked in auto)
  moreover have "merge_overlapping_clusters cs = Some (map snd M)"
    using False p collect by (simp add: merge_overlapping_clusters_def Let_def)
  ultimately show ?thesis using groups by blast
qed (simp add: merge_overlapping_clusters_def)

text \<open>The structural edges of a graph, and the clusters they give before merging.\<close>

definition structural :: "artifact_graph \<Rightarrow> (string \<times> string) set" where
  "structural g = {(edge_from e, edge_to e) |e. e \<in> set (edges g)
                     \<and> relation_forms_sibling_cluster (edge_relation e)}"

lemma cluster_edges_fold:
  "foldl cluster_edge m es =
     foldl (\<lambda>m e. bt_entry (edge_from e)
             (\<lambda>s. insort_insert (edge_to e)
                    (insort_insert (edge_from e) (case s of None \<Rightarrow> [] | Some s \<Rightarrow> s))) m) m
       (filter (\<lambda>e. relation_forms_sibling_cluster (edge_relation e)) es)"
  by (induction es arbitrary: m) (simp_all add: cluster_edge_def)

lemma parent_cluster_members:
  "set ` set (parent_clusters g) = (\<lambda>x. insert x {y. (x, y) \<in> structural g}) ` fst ` structural g"
proof -
  let ?es = "filter (\<lambda>e. relation_forms_sibling_cluster (edge_relation e)) (edges g)"
  let ?h = "\<lambda>e s. insort_insert (edge_to e)
                    (insort_insert (edge_from e) (case s of None \<Rightarrow> [] | Some s \<Rightarrow> s))"
  let ?M = "foldl (\<lambda>m e. bt_entry (edge_from e) (?h e) m) [] ?es"
  have M: "bt_invar ?M" by (rule bt.invar_fold [OF bt.invar_empty])
  have R: "structural g = (\<lambda>e. (edge_from e, edge_to e)) ` set ?es" by (auto simp: structural_def)
  have sets: "es \<noteq> [] \<Longrightarrow> \<forall>e \<in> set es. edge_from e = x \<Longrightarrow>
      \<exists>s. foldl (\<lambda>o' e. Some (?h e o')) o0 es = Some s
        \<and> set s = insert x (edge_to ` set es) \<union> (case o0 of None \<Rightarrow> {} | Some s \<Rightarrow> set s)"
    for es x o0
  proof (induction es arbitrary: o0)
    case (Cons e es)
    show ?case
      using Cons.IH [of "Some (?h e o0)"] Cons.prems
      by (cases "es = []") (auto simp: set_insort_insert split: option.split)
  qed simp
  have val: "set s = insert x {y. (x, y) \<in> structural g}" if "(x, s) \<in> set ?M" for x s
  proof -
    let ?fs = "filter (\<lambda>e. edge_from e = x) ?es"
    have "map_of ?M x = Some s" using that bt.items_iff [OF M] by simp
    then have s: "foldl (\<lambda>o' e. Some (?h e o')) None ?fs = Some s"
      using bt.get_fold [OF bt.invar_empty, where xs = ?es and key = edge_from and h = ?h] by simp
    then have ne: "?fs \<noteq> []" by auto
    have "\<forall>e \<in> set ?fs. edge_from e = x" by simp
    from sets [OF ne this, of None] obtain s' where "foldl (\<lambda>o' e. Some (?h e o')) None ?fs = Some s'"
      "set s' = insert x (edge_to ` set ?fs) \<union> (case None of None \<Rightarrow> {} | Some s \<Rightarrow> set s)"
      by blast
    with s have "set s = insert x (edge_to ` set ?fs)" by (metis Un_empty_right option.case(1) option.inject)
    moreover have "{y. (x, y) \<in> structural g} = edge_to ` set ?fs"
      by (force simp: structural_def)
    ultimately show ?thesis by simp
  qed
  have keys: "fst ` set ?M = fst ` structural g"
    unfolding bt.keys_fold R by (simp add: image_image)
  have "set ` set (parent_clusters g) = (\<lambda>e. set (snd e)) ` set ?M"
    by (simp add: parent_clusters_def cluster_edges_fold image_image)
  also have "\<dots> = (\<lambda>e. insert (fst e) {y. (fst e, y) \<in> structural g}) ` set ?M"
    by (rule image_cong) (use val in auto)
  also have "\<dots> = (\<lambda>x. insert x {y. (x, y) \<in> structural g}) ` fst ` set ?M"
    by (simp add: image_image)
  finally show ?thesis unfolding keys .
qed

lemma parent_cluster_nodes: "\<Union> (set ` set (parent_clusters g)) = Field (structural g)"
  unfolding parent_cluster_members by (auto simp: Field_def image_iff)

lemma linked_parents: "linked (together (parent_clusters g)) = linked (structural g)"
proof -
  let ?R = "structural g"
  have in_together: "(a, b) \<in> together (parent_clusters g) \<longleftrightarrow>
      (\<exists>C \<in> set ` set (parent_clusters g). a \<in> C \<and> b \<in> C)" for a b
    unfolding together_def by blast
  have hub: "(x, a) \<in> linked ?R" if "a \<in> insert x {y. (x, y) \<in> ?R}" for x a
    using that linked_pair by fastforce
  have "(a, b) \<in> linked ?R" if "(a, b) \<in> together (parent_clusters g)" for a b
    using that hub linked_trans [OF linked_sym [OF hub] hub]
    unfolding in_together parent_cluster_members by blast
  then have "linked (together (parent_clusters g)) \<subseteq> linked ?R" by (intro linked_mono) auto
  moreover have "(x, y) \<in> together (parent_clusters g)" if "(x, y) \<in> ?R" for x y
    unfolding in_together parent_cluster_members using that by (auto intro!: bexI [of _ "(x, y)"])
  then have "?R \<subseteq> together (parent_clusters g)" by auto
  then have "?R \<subseteq> linked (together (parent_clusters g))"
    by (rule subset_trans) (auto intro: linked_pair)
  then have "linked ?R \<subseteq> linked (together (parent_clusters g))" by (rule linked_mono)
  ultimately show ?thesis by blast
qed

lemma linked_class:
  assumes "x \<in> Field R"
  shows "{y \<in> Field R. (y, x) \<in> linked R} = (R \<union> R\<inverse>)\<^sup>+ `` {x}"
proof -
  let ?U = "R \<union> R\<inverse>"
  obtain z where "(x, z) \<in> ?U" "(z, x) \<in> ?U" using assms unfolding Field_def by blast
  then have "(x, x) \<in> ?U\<^sup>+" by (rule trancl_into_trancl [OF r_into_trancl])
  then have trancl: "(x, y) \<in> ?U\<^sup>+ \<longleftrightarrow> (x, y) \<in> linked R" for y
    unfolding linked_def rtrancl_eq_or_trancl by blast
  have field: "y \<in> Field R" if "(x, y) \<in> ?U\<^sup>+" for y
    using that by cases (auto simp: Field_def)
  show ?thesis
  proof (rule set_eqI)
    fix y
    have "(y, x) \<in> linked R \<longleftrightarrow> (x, y) \<in> ?U\<^sup>+"
      unfolding trancl using linked_sym [of x y R] linked_sym [of y x R] by blast
    then show "y \<in> {y \<in> Field R. (y, x) \<in> linked R} \<longleftrightarrow> y \<in> ?U\<^sup>+ `` {x}" using field by auto
  qed
qed

lemma sibling_clusters_quotient:
  "case build_sibling_clusters g of
     None \<Rightarrow> False
   | Some cs \<Rightarrow>
       set (map set cs) = Field (structural g) // (structural g \<union> (structural g)\<inverse>)\<^sup>+
       \<and> list_all (\<lambda>c. sorted c \<and> distinct c) cs \<and> distinct (map set cs)"
proof -
  obtain ms where ms: "build_sibling_clusters g = Some ms"
    "set (map set ms) = (\<lambda>x. {y \<in> Field (structural g). (y, x) \<in> linked (structural g)}) ` Field (structural g)"
    "list_all (\<lambda>s. sorted s \<and> distinct s) ms" "distinct (map set ms)"
    using merge_components [of "parent_clusters g"]
    unfolding build_sibling_clusters_def parent_cluster_nodes linked_parents by blast
  have "set (map set ms) = (\<lambda>x. (structural g \<union> (structural g)\<inverse>)\<^sup>+ `` {x}) ` Field (structural g)"
    unfolding ms(2) by (rule image_cong) (simp_all add: linked_class)
  then have "set (map set ms) = Field (structural g) // (structural g \<union> (structural g)\<inverse>)\<^sup>+"
    by (auto simp: quotient_def)
  with ms show ?thesis by simp
qed

section \<open>Property\<close>

text \<open>
  Claim C38: building the clusters always returns, without an index out of range or an endless walk, and the
  result is the set of connected components of the undirected structural edges (references, contains,
  loads, mounts), each exactly once as a sorted set.
\<close>

theorem sibling_clusters_components:
  "case build_sibling_clusters g of
     None \<Rightarrow> False
   | Some cs \<Rightarrow>
       set (map set cs) = Field (structural g) // (structural g \<union> (structural g)\<inverse>)\<^sup>+
       \<and> list_all (\<lambda>c. sorted c \<and> distinct c) cs \<and> distinct (map set cs)"
  by (rule sibling_clusters_quotient)

end
