(* ===== verification/Artifact_Taint.thy ===== *)
theory Artifact_Taint
  imports Trusted_Hosts Sibling_Clusters Dedup
begin

text \<open>
  Taint over the artifact graph (\<open>artifact_taint.rs\<close> and \<open>artifact_taint/\<close>): a node that reads something
  sensitive and reaches a dangerous sink gives a finding, alone or together with a node of the same
  cluster. The built-in rules (\<open>taint_rules.yaml\<close>) are written out; parsing that file is not modelled.
\<close>

section \<open>Rules\<close>

datatype taint_source_kind = SecretAccessSource | RemoteDownloadSource | FilesystemWriteSource | IdentityAccessSource

datatype taint_sink_kind = ExternalNetworkSink | ExecutionSink | PersistenceSink

primrec source_rank :: "taint_source_kind \<Rightarrow> nat" where
  "source_rank SecretAccessSource = 0"
| "source_rank RemoteDownloadSource = 1"
| "source_rank FilesystemWriteSource = 2"
| "source_rank IdentityAccessSource = 3"

primrec sink_rank :: "taint_sink_kind \<Rightarrow> nat" where
  "sink_rank ExternalNetworkSink = 0"
| "sink_rank ExecutionSink = 1"
| "sink_rank PersistenceSink = 2"

lemma source_rank_inj [simp]: "source_rank a = source_rank b \<longleftrightarrow> a = b"
  by (cases a; cases b) simp_all

lemma sink_rank_inj [simp]: "sink_rank a = sink_rank b \<longleftrightarrow> a = b"
  by (cases a; cases b) simp_all

instantiation taint_source_kind :: linorder
begin

definition less_eq_taint_source_kind :: "taint_source_kind \<Rightarrow> taint_source_kind \<Rightarrow> bool" where
  [enum_order]: "a \<le> b \<longleftrightarrow> source_rank a \<le> source_rank b"

definition less_taint_source_kind :: "taint_source_kind \<Rightarrow> taint_source_kind \<Rightarrow> bool" where
  [enum_order]: "a < b \<longleftrightarrow> source_rank a < source_rank b"

instance
  by standard (auto simp: enum_order)

end

instantiation taint_sink_kind :: linorder
begin

definition less_eq_taint_sink_kind :: "taint_sink_kind \<Rightarrow> taint_sink_kind \<Rightarrow> bool" where
  [enum_order]: "a \<le> b \<longleftrightarrow> sink_rank a \<le> sink_rank b"

definition less_taint_sink_kind :: "taint_sink_kind \<Rightarrow> taint_sink_kind \<Rightarrow> bool" where
  [enum_order]: "a < b \<longleftrightarrow> sink_rank a < sink_rank b"

instance
  by standard (auto simp: enum_order)

end

record artifact_taint_rule =
  tr_id :: string
  tr_family :: string
  tr_category :: threat_category
  tr_severity :: severity
  tr_confidence :: f32
  tr_action :: recommended_action
  tr_reason :: string
  tr_source :: taint_source_kind
  tr_sink :: taint_sink_kind

record artifact_taint_rule_group =
  tg_source :: taint_source_kind
  tg_sink :: taint_sink_kind
  tg_rules :: "artifact_taint_rule list"

definition secret_to_network :: artifact_taint_rule where
  "secret_to_network =
     \<lparr>tr_id = ''ARTIFACT_TAINT_SECRET_TO_EXTERNAL_NETWORK'', tr_family = ''exfil'',
      tr_category = DataExfiltration, tr_severity = Critical, tr_confidence = f32_of_rat (94 / 100),
      tr_action = Block,
      tr_reason = ''Artifact combines access to secret material with outbound network communication, consistent with secret exfiltration'',
      tr_source = SecretAccessSource, tr_sink = ExternalNetworkSink\<rparr>"

definition download_to_execution :: artifact_taint_rule where
  "download_to_execution =
     \<lparr>tr_id = ''ARTIFACT_TAINT_DOWNLOAD_TO_EXECUTION'', tr_family = ''remote_exec'',
      tr_category = RemoteExec, tr_severity = Critical, tr_confidence = f32_of_rat (93 / 100),
      tr_action = Block,
      tr_reason = ''Artifact combines remote download with subsequent execution behavior'',
      tr_source = RemoteDownloadSource, tr_sink = ExecutionSink\<rparr>"

definition write_to_persistence :: artifact_taint_rule where
  "write_to_persistence =
     \<lparr>tr_id = ''ARTIFACT_TAINT_WRITE_TO_PERSISTENCE'', tr_family = ''persistence'',
      tr_category = PersistentPromptTampering, tr_severity = High, tr_confidence = f32_of_rat (87 / 100),
      tr_action = RequireApproval,
      tr_reason = ''Artifact combines write behavior with persistence behavior, suggesting durable modification of future runtime state'',
      tr_source = FilesystemWriteSource, tr_sink = PersistenceSink\<rparr>"

definition identity_to_network :: artifact_taint_rule where
  "identity_to_network =
     \<lparr>tr_id = ''ARTIFACT_TAINT_IDENTITY_TO_EXTERNAL_NETWORK'', tr_family = ''identity_exfil'',
      tr_category = DataExfiltration, tr_severity = High, tr_confidence = f32_of_rat (88 / 100),
      tr_action = RequireApproval,
      tr_reason = ''Artifact combines identity or OAuth access with outbound network communication, consistent with token or session exfiltration'',
      tr_source = IdentityAccessSource, tr_sink = ExternalNetworkSink\<rparr>"

definition default_rules :: "artifact_taint_rule list" where
  "default_rules = [secret_to_network, download_to_execution, write_to_persistence, identity_to_network]"

definition rule_group_key :: "artifact_taint_rule \<Rightarrow> taint_source_kind \<times> taint_sink_kind" where
  "rule_group_key r = (tr_source r, tr_sink r)"

definition group_max_severity :: "artifact_taint_rule_group \<Rightarrow> severity option" where
  "group_max_severity g = (case map tr_severity (tg_rules g) of [] \<Rightarrow> None | s # ss \<Rightarrow> Some (foldl max s ss))"

definition push_rule :: "artifact_taint_rule \<Rightarrow> artifact_taint_rule list option \<Rightarrow> artifact_taint_rule list" where
  "push_rule r v = (case v of None \<Rightarrow> [] | Some rs \<Rightarrow> rs) @ [r]"

definition group_rules :: "artifact_taint_rule list \<Rightarrow> artifact_taint_rule_group list" where
  "group_rules rules =
     (let groups = foldl (\<lambda>m r. bt_entry (rule_group_key r) (push_rule r) m) [] rules;
          result = map (\<lambda>((source, sink), rules). \<lparr>tg_source = source, tg_sink = sink, tg_rules = rules\<rparr>) groups
      in sort_by (\<lambda>a b. ord_cmp (group_max_severity b) (group_max_severity a)) result)"

section \<open>Questions about a node\<close>

definition artifact_paths :: "artifact_graph \<Rightarrow> string list" where
  "artifact_paths g = bset_collect (map node_path (nodes g))"

definition artifact_kind_for_node :: "artifact_graph \<Rightarrow> string \<Rightarrow> artifact_kind" where
  "artifact_kind_for_node g path =
     (case find (\<lambda>n. node_path n = path) (nodes g) of Some n \<Rightarrow> node_kind n | None \<Rightarrow> GenericArtifact)"

definition node_has_capability :: "artifact_graph \<Rightarrow> string \<Rightarrow> artifact_capability \<Rightarrow> bool" where
  "node_has_capability g path cap =
     list_ex (\<lambda>n. node_path n = path \<and> list_ex (\<lambda>f. fact_capability f = cap) (node_capabilities n)) (nodes g)"

definition is_external_download_edge :: "taint_lib \<Rightarrow> artifact_edge \<Rightarrow> bool" where
  "is_external_download_edge lib e \<longleftrightarrow>
     edge_relation e = Downloads \<and> edge_endpoint e \<noteq> Some Registry
     \<and> \<not> looks_like_registry_url lib (edge_to e)
     \<and> \<not> is_documentation_or_reserved_host lib (edge_to e)"

fun node_has_source :: "taint_lib \<Rightarrow> artifact_graph \<Rightarrow> string \<Rightarrow> taint_source_kind \<Rightarrow> bool" where
  "node_has_source lib g path SecretAccessSource =
     (node_has_capability g path SecretAccess
      \<or> list_ex (\<lambda>e. edge_from e = path \<and> edge_relation e = AccessesSecrets) (edges g)
      \<or> list_ex (\<lambda>e. edge_from e = path \<and> edge_relation e = Reads
                     \<and> looks_like_secret_target lib (edge_to e)) (edges g))"
| "node_has_source lib g path RemoteDownloadSource =
     list_ex (\<lambda>e. edge_from e = path \<and> is_external_download_edge lib e) (edges g)"
| "node_has_source lib g path FilesystemWriteSource =
     (node_has_capability g path FilesystemWrite
      \<or> list_ex (\<lambda>e. edge_from e = path \<and> edge_relation e = Writes) (edges g))"
| "node_has_source lib g path IdentityAccessSource =
     (node_has_capability g path IdentityAccess
      \<or> list_ex (\<lambda>e. edge_from e = path \<and> edge_relation e = Reads
                     \<and> looks_like_identity_target lib (edge_to e)) (edges g))"

fun node_has_sink :: "taint_lib \<Rightarrow> artifact_graph \<Rightarrow> string \<Rightarrow> taint_sink_kind \<Rightarrow> bool" where
  "node_has_sink lib g path ExternalNetworkSink =
     list_ex (\<lambda>e. edge_from e = path \<and> edge_relation e = ConnectsTo \<and> is_real_external_sink lib e) (edges g)"
| "node_has_sink lib g path ExecutionSink =
     (node_has_capability g path ProcessExecution \<or> node_has_capability g path InstallExecution
      \<or> list_ex (\<lambda>e. edge_from e = path \<and> edge_relation e = Executes) (edges g))"
| "node_has_sink lib g path PersistenceSink =
     (node_has_capability g path PersistenceSurface
      \<or> list_ex (\<lambda>e. edge_from e = path \<and> edge_relation e = Persists) (edges g))"

definition node_secret_source_names :: "taint_lib \<Rightarrow> artifact_graph \<Rightarrow> string \<Rightarrow> string list" where
  "node_secret_source_names lib g path =
     bset_collect (map edge_to (filter (\<lambda>e. edge_from e = path
         \<and> (edge_relation e = AccessesSecrets
            \<or> edge_relation e = Reads
              \<and> (looks_like_secret_target lib (edge_to e) \<or> looks_like_identity_target lib (edge_to e))))
       (edges g)))"

fun clear_downgrade_gate ::
    "taint_lib \<Rightarrow> string \<Rightarrow> string list \<Rightarrow> bool \<Rightarrow> artifact_edge list \<Rightarrow> bool" where
  "clear_downgrade_gate lib sink_node secret_names saw [] = saw"
| "clear_downgrade_gate lib sink_node secret_names saw (e # es) =
     (if edge_from e \<noteq> sink_node then clear_downgrade_gate lib sink_node secret_names saw es
      else if edge_relation e \<noteq> ConnectsTo then clear_downgrade_gate lib sink_node secret_names saw es
      else if \<not> is_real_external_sink lib e then clear_downgrade_gate lib sink_node secret_names saw es
      else if \<not> is_trusted_api_host lib (edge_to e)
              \<and> \<not> host_matches_secret_owner lib (edge_to e) secret_names then False
      else clear_downgrade_gate lib sink_node secret_names True es)"

definition external_sinks_clear_downgrade_gate :: "taint_lib \<Rightarrow> artifact_graph \<Rightarrow> string \<Rightarrow> string list \<Rightarrow> bool" where
  "external_sinks_clear_downgrade_gate lib g sink_node secret_names =
     clear_downgrade_gate lib sink_node secret_names False (edges g)"

definition all_external_sinks_first_party_or_trusted :: "taint_lib \<Rightarrow> artifact_graph \<Rightarrow> string \<Rightarrow> bool" where
  "all_external_sinks_first_party_or_trusted lib g path =
     external_sinks_clear_downgrade_gate lib g path (node_secret_source_names lib g path)"

definition cross_node_external_sinks_first_party_or_trusted ::
    "taint_lib \<Rightarrow> artifact_graph \<Rightarrow> string \<Rightarrow> string \<Rightarrow> bool" where
  "cross_node_external_sinks_first_party_or_trusted lib g sink_node source_node =
     external_sinks_clear_downgrade_gate lib g sink_node (node_secret_source_names lib g source_node)"

section \<open>Summaries\<close>

definition collect_matching_edges_or_empty :: "artifact_graph \<Rightarrow> (artifact_edge \<Rightarrow> bool) \<Rightarrow> string" where
  "collect_matching_edges_or_empty g p =
     (let targets = map edge_to (filter p (edges g))
      in if targets = [] then [] else if length targets = 1 then hd targets else join_with '', '' targets)"

definition collect_matching_edges :: "artifact_graph \<Rightarrow> (artifact_edge \<Rightarrow> bool) \<Rightarrow> string \<Rightarrow> string" where
  "collect_matching_edges g p fallback =
     (let targets = map edge_to (filter p (edges g))
      in if targets = [] then fallback else if length targets = 1 then hd targets else join_with '', '' targets)"

fun source_summary :: "taint_lib \<Rightarrow> artifact_graph \<Rightarrow> string \<Rightarrow> taint_source_kind \<Rightarrow> string" where
  "source_summary lib g path SecretAccessSource =
     collect_matching_edges g (\<lambda>e. edge_from e = path
        \<and> (edge_relation e = AccessesSecrets
           \<or> edge_relation e = Reads \<and> looks_like_secret_target lib (edge_to e))) ''secret_access''"
| "source_summary lib g path RemoteDownloadSource =
     collect_matching_edges g (\<lambda>e. edge_from e = path \<and> is_external_download_edge lib e) ''remote_download''"
| "source_summary lib g path FilesystemWriteSource =
     collect_matching_edges g (\<lambda>e. edge_from e = path \<and> edge_relation e = Writes) ''filesystem_write''"
| "source_summary lib g path IdentityAccessSource =
     collect_matching_edges g (\<lambda>e. edge_from e = path \<and> edge_relation e = Reads
        \<and> looks_like_identity_target lib (edge_to e)) ''identity_access''"

fun sink_summary :: "taint_lib \<Rightarrow> artifact_graph \<Rightarrow> string \<Rightarrow> taint_sink_kind \<Rightarrow> string" where
  "sink_summary lib g path ExternalNetworkSink =
     collect_matching_edges g (\<lambda>e. edge_from e = path \<and> edge_relation e = ConnectsTo
        \<and> is_real_external_sink lib e) ''external_network''"
| "sink_summary lib g path ExecutionSink =
     (let from_edges = collect_matching_edges_or_empty g (\<lambda>e. edge_from e = path \<and> edge_relation e = Executes)
      in if from_edges \<noteq> [] then from_edges
         else if node_has_capability g path ProcessExecution then ''process_execution''
         else if node_has_capability g path InstallExecution then ''install_execution''
         else ''execution'')"
| "sink_summary lib g path PersistenceSink =
     (let from_edges = collect_matching_edges_or_empty g (\<lambda>e. edge_from e = path \<and> edge_relation e = Persists)
      in if from_edges \<noteq> [] then from_edges
         else if node_has_capability g path PersistenceSurface then ''persistence_surface''
         else ''persistence'')"

section \<open>Findings\<close>

definition TRUSTED_HOST_DOWNGRADE_RULE_IDS :: "string list" where
  "TRUSTED_HOST_DOWNGRADE_RULE_IDS =
     [''ARTIFACT_TAINT_SECRET_TO_EXTERNAL_NETWORK'', ''ARTIFACT_TAINT_IDENTITY_TO_EXTERNAL_NETWORK'']"

definition rule_opts_into_trusted_host_downgrade :: "artifact_taint_rule \<Rightarrow> bool" where
  "rule_opts_into_trusted_host_downgrade r \<longleftrightarrow> tr_id r \<in> set TRUSTED_HOST_DOWNGRADE_RULE_IDS"

definition build_taint_finding ::
    "artifact_taint_rule \<Rightarrow> string \<Rightarrow> string \<Rightarrow> string \<Rightarrow> artifact_kind \<Rightarrow> bool \<Rightarrow> f32 \<Rightarrow> finding" where
  "build_taint_finding r path src snk kind apply_downgrade multiplier =
     (let down = (apply_downgrade \<and> rule_opts_into_trusted_host_downgrade r);
          act = (if down then (case tr_action r of Block \<Rightarrow> RequireApproval | other \<Rightarrow> other) else tr_action r);
          why = (if down then tr_reason r @ '' (downgraded: every external sink is a trusted-API host or first-party to a credential the artifact reads)''
                 else tr_reason r);
          sink_note = (if down then '' sinks_trusted=true'' else [])
      in build_with (tr_id r) (tr_category r)
           ([Set_severity (tr_severity r), Set_confidence (f_mul (tr_confidence r) multiplier), Set_action act,
             Set_evidence_kind Behavior, Set_artifact kind (Some path), Set_matched_on (ReferencedFile path),
             Set_match_value (''family='' @ tr_family r @ '' source='' @ src @ '' sink='' @ snk @ sink_note),
             Set_reason why]
            @ (if down then [Set_signal_class ReviewSignal] else [])))"

definition downgradable_flow :: "artifact_taint_rule_group \<Rightarrow> bool" where
  "downgradable_flow grp \<longleftrightarrow>
     tg_sink grp = ExternalNetworkSink \<and> tg_source grp \<in> {SecretAccessSource, IdentityAccessSource}"

definition per_node_group ::
    "taint_lib \<Rightarrow> artifact_graph \<Rightarrow> bool \<Rightarrow> string \<Rightarrow> artifact_taint_rule_group \<Rightarrow> finding list" where
  "per_node_group lib g suppress_downgrade path grp =
     (if \<not> node_has_source lib g path (tg_source grp) \<or> \<not> node_has_sink lib g path (tg_sink grp) then []
      else
        let src = source_summary lib g path (tg_source grp);
            snk = sink_summary lib g path (tg_sink grp);
            kind = artifact_kind_for_node g path;
            apply_downgrade = (\<not> suppress_downgrade \<and> downgradable_flow grp
                               \<and> all_external_sinks_first_party_or_trusted lib g path)
        in map (\<lambda>r. build_taint_finding r path src snk kind apply_downgrade (Fin 1)) (tg_rules grp))"

definition derive_per_node_taint_findings ::
    "taint_lib \<Rightarrow> artifact_graph \<Rightarrow> artifact_taint_rule_group list \<Rightarrow> bool \<Rightarrow> finding list" where
  "derive_per_node_taint_findings lib g groups suppress_downgrade =
     concat (map (\<lambda>path. concat (map (per_node_group lib g suppress_downgrade path) groups)) (artifact_paths g))"

definition MAX_CROSS_NODE_FINDINGS_PER_CLUSTER :: nat where
  "MAX_CROSS_NODE_FINDINGS_PER_CLUSTER = 50"

definition MAX_CROSS_NODE_FINDINGS_TOTAL :: nat where
  "MAX_CROSS_NODE_FINDINGS_TOTAL = 100"

definition per_group_budget :: "artifact_taint_rule_group list \<Rightarrow> nat" where
  "per_group_budget groups =
     (if groups = [] then 0 else max (MAX_CROSS_NODE_FINDINGS_PER_CLUSTER div length groups) 1)"

text \<open>
  The loops over source nodes, sink nodes and rules of one group, which leave together: the findings
  they would push, in order, and the pushing under the two budgets.
\<close>

definition cross_node_candidates ::
    "taint_lib \<Rightarrow> artifact_graph \<Rightarrow> bool \<Rightarrow> string list \<Rightarrow> artifact_taint_rule_group \<Rightarrow> finding list" where
  "cross_node_candidates lib g suppress_downgrade cluster grp =
     (let source_nodes = filter (\<lambda>p. node_has_source lib g p (tg_source grp)) cluster;
          sink_nodes = filter (\<lambda>p. node_has_sink lib g p (tg_sink grp)) cluster
      in concat (map (\<lambda>source_node. concat (map (\<lambda>sink_node.
           if source_node = sink_node then []
           else
             let src = source_summary lib g source_node (tg_source grp);
                 snk = sink_summary lib g sink_node (tg_sink grp);
                 kind = artifact_kind_for_node g source_node;
                 apply_downgrade = (\<not> suppress_downgrade \<and> downgradable_flow grp
                   \<and> cross_node_external_sinks_first_party_or_trusted lib g sink_node source_node)
             in map (\<lambda>r. build_taint_finding r source_node src snk kind apply_downgrade (f32_of_rat (9 / 10)))
                  (tg_rules grp)) sink_nodes)) source_nodes))"

fun push_within_budget :: "nat \<Rightarrow> nat \<Rightarrow> finding list \<Rightarrow> finding list \<Rightarrow> finding list" where
  "push_within_budget budget pushed findings [] = findings"
| "push_within_budget budget pushed findings (c # cs) =
     (if MAX_CROSS_NODE_FINDINGS_TOTAL \<le> length findings then findings
      else if budget \<le> pushed then findings
      else push_within_budget budget (pushed + 1) (findings @ [c]) cs)"

fun cross_node_clusters ::
    "taint_lib \<Rightarrow> artifact_graph \<Rightarrow> artifact_taint_rule_group list \<Rightarrow> bool \<Rightarrow> finding list \<Rightarrow> string list list
     \<Rightarrow> finding list" where
  "cross_node_clusters lib g groups suppress_downgrade findings [] = findings"
| "cross_node_clusters lib g groups suppress_downgrade findings (cluster # clusters) =
     (if length cluster < 2 then cross_node_clusters lib g groups suppress_downgrade findings clusters
      else if MAX_CROSS_NODE_FINDINGS_TOTAL \<le> length findings then findings
      else
        cross_node_clusters lib g groups suppress_downgrade
          (foldl (\<lambda>fs grp. push_within_budget (per_group_budget groups) 0 fs
                               (cross_node_candidates lib g suppress_downgrade cluster grp)) findings groups)
          clusters)"

definition derive_cross_node_taint_findings ::
    "taint_lib \<Rightarrow> artifact_graph \<Rightarrow> artifact_taint_rule_group list \<Rightarrow> bool \<Rightarrow> finding list option" where
  "derive_cross_node_taint_findings lib g groups suppress_downgrade =
     map_option (cross_node_clusters lib g groups suppress_downgrade []) (build_sibling_clusters g)"

definition INDEPENDENT_MALICE_CATEGORIES :: "threat_category list" where
  "INDEPENDENT_MALICE_CATEGORIES =
     [RemoteExec, PersistentPromptTampering, PrivilegeEscalation, AutonomyEscalation, SocialManipulation,
      Obfuscation, UnsafeBinary, ToolAbuse, SupplyChain]"

definition has_independent_malice :: "finding list \<Rightarrow> bool" where
  "has_independent_malice existing =
     list_ex (\<lambda>f. f_signal_class f = MaliciousBehavior \<and> f_action f = Block
                  \<and> category f \<in> set INDEPENDENT_MALICE_CATEGORIES) existing"

definition derive_taint_findings :: "taint_lib \<Rightarrow> artifact_graph \<Rightarrow> finding list \<Rightarrow> finding list option" where
  "derive_taint_findings lib g existing =
     (let groups = group_rules default_rules;
          suppress_downgrade = has_independent_malice existing;
          findings = derive_per_node_taint_findings lib g groups suppress_downgrade
      in map_option (\<lambda>cross. fst (deduplicate_findings (findings @ cross)))
           (derive_cross_node_taint_findings lib g groups suppress_downgrade))"

section \<open>The built-in rules\<close>

lemma rule_fields [simp]:
  "tr_source secret_to_network = SecretAccessSource" "tr_sink secret_to_network = ExternalNetworkSink"
  "tr_source download_to_execution = RemoteDownloadSource" "tr_sink download_to_execution = ExecutionSink"
  "tr_source write_to_persistence = FilesystemWriteSource" "tr_sink write_to_persistence = PersistenceSink"
  "tr_source identity_to_network = IdentityAccessSource" "tr_sink identity_to_network = ExternalNetworkSink"
  "tr_severity secret_to_network = Critical" "tr_severity download_to_execution = Critical"
  "tr_severity write_to_persistence = High" "tr_severity identity_to_network = High"
  "tr_action secret_to_network = Block" "tr_category secret_to_network = DataExfiltration"
  by (simp_all add: secret_to_network_def download_to_execution_def write_to_persistence_def
      identity_to_network_def)

definition group_of_rule :: "artifact_taint_rule \<Rightarrow> artifact_taint_rule_group" where
  "group_of_rule r = \<lparr>tg_source = tr_source r, tg_sink = tr_sink r, tg_rules = [r]\<rparr>"

lemma group_fields:
  "tg_source (group_of_rule r) = tr_source r" "tg_sink (group_of_rule r) = tr_sink r"
  "tg_rules (group_of_rule r) = [r]"
  by (simp_all add: group_of_rule_def)

lemma default_groups: "group_rules default_rules = map group_of_rule default_rules"
  by (simp add: group_rules_def default_rules_def rule_group_key_def push_rule_def group_of_rule_def
      group_max_severity_def sort_by_def ord_cmp_def less_prod_def' less_taint_source_kind_def
      less_taint_sink_kind_def less_severity_def less_eq_severity_def Let_def)

section \<open>The downgrade gate\<close>

definition external_sink :: "taint_lib \<Rightarrow> string \<Rightarrow> artifact_edge \<Rightarrow> bool" where
  "external_sink lib node e \<longleftrightarrow>
     edge_from e = node \<and> edge_relation e = ConnectsTo \<and> is_real_external_sink lib e"

definition accepted_sink :: "taint_lib \<Rightarrow> string list \<Rightarrow> artifact_edge \<Rightarrow> bool" where
  "accepted_sink lib names e \<longleftrightarrow>
     is_trusted_api_host lib (edge_to e) \<or> host_matches_secret_owner lib (edge_to e) names"

lemma clear_gate_iff:
  "clear_downgrade_gate lib node names saw es \<longleftrightarrow>
     (saw \<or> list_ex (external_sink lib node) es)
     \<and> list_all (accepted_sink lib names) (filter (external_sink lib node) es)"
  by (induction es arbitrary: saw) (auto simp: external_sink_def accepted_sink_def)

lemma gate_iff:
  "external_sinks_clear_downgrade_gate lib g node names \<longleftrightarrow>
     list_ex (external_sink lib node) (edges g)
     \<and> list_all (accepted_sink lib names) (filter (external_sink lib node) (edges g))"
  by (simp add: external_sinks_clear_downgrade_gate_def clear_gate_iff)

section \<open>Budgets\<close>

lemma push_within_budget_take:
  "push_within_budget budget pushed fs cs
     = fs @ take (min (budget - pushed) (MAX_CROSS_NODE_FINDINGS_TOTAL - length fs)) cs"
proof (induction budget pushed fs cs rule: push_within_budget.induct)
  case (2 budget pushed fs c cs)
  show ?case
  proof (cases "MAX_CROSS_NODE_FINDINGS_TOTAL \<le> length fs \<or> budget \<le> pushed")
    case False
    then have "min (budget - pushed) (MAX_CROSS_NODE_FINDINGS_TOTAL - length fs)
        = Suc (min (budget - Suc pushed) (MAX_CROSS_NODE_FINDINGS_TOTAL - Suc (length fs)))"
      by arith
    with False 2 show ?thesis by simp
  qed auto
qed simp

definition cluster_pushes ::
    "taint_lib \<Rightarrow> artifact_graph \<Rightarrow> artifact_taint_rule_group list \<Rightarrow> bool \<Rightarrow> finding list \<Rightarrow> string list \<Rightarrow> nat
     \<Rightarrow> artifact_taint_rule_group list \<Rightarrow> finding list" where
  "cluster_pushes lib g groups suppress fs cluster budget grps =
     foldl (\<lambda>fs grp. push_within_budget budget 0 fs (cross_node_candidates lib g suppress cluster grp)) fs grps"

lemma cluster_pushes_length:
  "length (cluster_pushes lib g groups suppress fs cluster budget grps) \<le> length fs + length grps * budget"
  "length fs \<le> MAX_CROSS_NODE_FINDINGS_TOTAL \<Longrightarrow>
     length (cluster_pushes lib g groups suppress fs cluster budget grps) \<le> MAX_CROSS_NODE_FINDINGS_TOTAL"
proof (induction grps arbitrary: fs)
  case (Cons grp grps)
  { case 1
    let ?fs = "push_within_budget budget 0 fs (cross_node_candidates lib g suppress cluster grp)"
    have "length ?fs \<le> length fs + budget" by (simp add: push_within_budget_take)
    then show ?case using Cons.IH(1) [of ?fs] by (simp add: cluster_pushes_def)
  next
    case 2
    let ?fs = "push_within_budget budget 0 fs (cross_node_candidates lib g suppress cluster grp)"
    have "length ?fs \<le> MAX_CROSS_NODE_FINDINGS_TOTAL" using 2 by (simp add: push_within_budget_take)
    then show ?case using Cons.IH(2) [of ?fs] by (simp add: cluster_pushes_def)
  }
qed (simp_all add: cluster_pushes_def)

lemma cross_clusters_bounded:
  "length fs \<le> MAX_CROSS_NODE_FINDINGS_TOTAL \<Longrightarrow>
     length (cross_node_clusters lib g groups suppress fs clusters) \<le> MAX_CROSS_NODE_FINDINGS_TOTAL"
proof (induction clusters arbitrary: fs)
  case (Cons c clusters)
  let ?fs = "cluster_pushes lib g groups suppress fs c (per_group_budget groups) groups"
  have "length ?fs \<le> MAX_CROSS_NODE_FINDINGS_TOTAL" using Cons.prems by (rule cluster_pushes_length(2))
  then show ?case using Cons.IH [of ?fs] Cons.IH [of fs] Cons.prems by (simp add: cluster_pushes_def)
qed simp

section \<open>Where findings come from\<close>

text \<open>\<open>flow lib g p q r\<close>: \<open>p\<close> reads what rule \<open>r\<close> watches, and \<open>q\<close>, the same or a related node, has the sink.\<close>

definition flow :: "taint_lib \<Rightarrow> artifact_graph \<Rightarrow> string \<Rightarrow> string \<Rightarrow> artifact_taint_rule \<Rightarrow> bool" where
  "flow lib g p q r \<longleftrightarrow>
     node_has_source lib g p (tr_source r) \<and> node_has_sink lib g q (tr_sink r)
     \<and> (p = q \<or> (p, q) \<in> (structural g \<union> (structural g)\<inverse>)\<^sup>+)"

text \<open>When a finding of the flow may be softened.\<close>

definition may_downgrade ::
    "taint_lib \<Rightarrow> artifact_graph \<Rightarrow> finding list \<Rightarrow> string \<Rightarrow> string \<Rightarrow> artifact_taint_rule \<Rightarrow> bool" where
  "may_downgrade lib g existing p q r \<longleftrightarrow>
     \<not> has_independent_malice existing
     \<and> tr_source r \<in> {SecretAccessSource, IdentityAccessSource}
     \<and> list_ex (external_sink lib q) (edges g)
     \<and> list_all (accepted_sink lib (node_secret_source_names lib g p)) (filter (external_sink lib q) (edges g))"

definition raw_taint :: "taint_lib \<Rightarrow> artifact_graph \<Rightarrow> finding list \<Rightarrow> finding \<Rightarrow> bool" where
  "raw_taint lib g existing f \<longleftrightarrow>
     (\<exists>r \<in> set default_rules. \<exists>p q src snk kind down mult.
        f = build_taint_finding r p src snk kind down mult \<and> flow lib g p q r
        \<and> down = may_downgrade lib g existing p q r)"

lemma default_group_cases:
  assumes "grp \<in> set (group_rules default_rules)"
  obtains r where "r \<in> set default_rules" "grp = group_of_rule r"
  using assms by (auto simp: default_groups)

lemma rule_sources:
  "r \<in> set default_rules \<Longrightarrow> tr_source r \<in> {SecretAccessSource, IdentityAccessSource}
     \<Longrightarrow> tr_sink r = ExternalNetworkSink"
  by (auto simp: default_rules_def)

lemma downgradable_group:
  "r \<in> set default_rules \<Longrightarrow>
     downgradable_flow (group_of_rule r) \<longleftrightarrow> tr_source r \<in> {SecretAccessSource, IdentityAccessSource}"
  using rule_sources [of r] by (auto simp: downgradable_flow_def group_of_rule_def)

lemma per_node_raw:
  assumes "f \<in> set (derive_per_node_taint_findings lib g (group_rules default_rules) (has_independent_malice existing))"
  shows "raw_taint lib g existing f"
proof -
  from assms obtain path grp where grp: "grp \<in> set (group_rules default_rules)"
    and f: "f \<in> set (per_node_group lib g (has_independent_malice existing) path grp)"
    by (auto simp: derive_per_node_taint_findings_def)
  from grp obtain r where r: "r \<in> set default_rules" "grp = group_of_rule r" by (rule default_group_cases)
  have "all_external_sinks_first_party_or_trusted lib g path \<longleftrightarrow>
      list_ex (external_sink lib path) (edges g)
      \<and> list_all (accepted_sink lib (node_secret_source_names lib g path)) (filter (external_sink lib path) (edges g))"
    by (simp add: all_external_sinks_first_party_or_trusted_def gate_iff)
  then have "(\<not> has_independent_malice existing \<and> downgradable_flow grp
      \<and> all_external_sinks_first_party_or_trusted lib g path) = may_downgrade lib g existing path path r"
    using downgradable_group [OF r(1)] r(2) by (simp add: may_downgrade_def)
  then show ?thesis
    using f r unfolding raw_taint_def
    by (force simp: per_node_group_def group_of_rule_def flow_def Let_def split: if_splits)
qed

lemma candidates_raw:
  assumes "f \<in> set (cross_node_candidates lib g (has_independent_malice existing) cluster grp)"
    and "grp \<in> set (group_rules default_rules)"
    and related: "\<And>x y. x \<in> set cluster \<Longrightarrow> y \<in> set cluster \<Longrightarrow> (x, y) \<in> (structural g \<union> (structural g)\<inverse>)\<^sup>+"
  shows "raw_taint lib g existing f"
proof -
  from assms(2) obtain r where r: "r \<in> set default_rules" "grp = group_of_rule r"
    by (rule default_group_cases)
  from assms(1) obtain p q src snk kind where pq: "p \<in> set cluster" "q \<in> set cluster"
      "node_has_source lib g p (tr_source r)" "node_has_sink lib g q (tr_sink r)"
    and f: "f = build_taint_finding r p src snk kind
        (\<not> has_independent_malice existing \<and> downgradable_flow grp
         \<and> cross_node_external_sinks_first_party_or_trusted lib g q p) (f32_of_rat (9 / 10))"
    using r(2) by (auto simp: cross_node_candidates_def group_of_rule_def Let_def split: if_splits)
  have "cross_node_external_sinks_first_party_or_trusted lib g q p \<longleftrightarrow>
      list_ex (external_sink lib q) (edges g)
      \<and> list_all (accepted_sink lib (node_secret_source_names lib g p)) (filter (external_sink lib q) (edges g))"
    by (simp add: cross_node_external_sinks_first_party_or_trusted_def gate_iff)
  then have "(\<not> has_independent_malice existing \<and> downgradable_flow grp
      \<and> cross_node_external_sinks_first_party_or_trusted lib g q p) = may_downgrade lib g existing p q r"
    using downgradable_group [OF r(1)] r(2) by (simp add: may_downgrade_def)
  moreover have "flow lib g p q r" using pq related by (simp add: flow_def)
  ultimately show ?thesis using f r(1) unfolding raw_taint_def by blast
qed

lemma cluster_pushes_set:
  "set (cluster_pushes lib g groups suppress fs cluster budget grps)
     \<subseteq> set fs \<union> (\<Union>grp \<in> set grps. set (cross_node_candidates lib g suppress cluster grp))"
proof (induction grps arbitrary: fs)
  case (Cons grp grps)
  let ?fs = "push_within_budget budget 0 fs (cross_node_candidates lib g suppress cluster grp)"
  have "set ?fs \<subseteq> set fs \<union> set (cross_node_candidates lib g suppress cluster grp)"
    by (auto simp: push_within_budget_take dest: in_set_takeD)
  then show ?case using Cons.IH [of ?fs] by (auto simp: cluster_pushes_def)
qed (simp add: cluster_pushes_def)

lemma cross_clusters_set:
  "set (cross_node_clusters lib g groups suppress fs clusters)
     \<subseteq> set fs \<union> (\<Union>c \<in> set clusters. \<Union>grp \<in> set groups. set (cross_node_candidates lib g suppress c grp))"
proof (induction clusters arbitrary: fs)
  case (Cons c clusters)
  let ?fs = "cluster_pushes lib g groups suppress fs c (per_group_budget groups) groups"
  have "set ?fs \<subseteq> set fs \<union> (\<Union>grp \<in> set groups. set (cross_node_candidates lib g suppress c grp))"
    by (rule cluster_pushes_set)
  then show ?case using Cons.IH [of ?fs] Cons.IH [of fs] by (auto simp: cluster_pushes_def)
qed simp

lemma cluster_related:
  assumes "build_sibling_clusters g = Some cs" "c \<in> set cs" "x \<in> set c" "y \<in> set c"
  shows "(x, y) \<in> (structural g \<union> (structural g)\<inverse>)\<^sup>+"
proof -
  let ?E = "(structural g \<union> (structural g)\<inverse>)\<^sup>+"
  have "set c \<in> Field (structural g) // ?E"
    using sibling_clusters_quotient [of g] assms(1,2) by auto
  then obtain z where z: "set c = ?E `` {z}" unfolding quotient_def by blast
  have "sym ?E" by (intro sym_trancl sym_Un_converse)
  then have "(x, z) \<in> ?E" "(z, y) \<in> ?E" using assms(3,4) z by (auto dest: symD)
  then show ?thesis by (rule trancl_trans)
qed

lemma derive_taint_some:
  obtains cross where
    "derive_taint_findings lib g existing = Some (fst (deduplicate_findings
       (derive_per_node_taint_findings lib g (group_rules default_rules) (has_independent_malice existing) @ cross)))"
    "\<forall>f \<in> set cross. raw_taint lib g existing f"
    "length cross \<le> MAX_CROSS_NODE_FINDINGS_TOTAL"
proof -
  obtain cs where cs: "build_sibling_clusters g = Some cs"
    using sibling_clusters_quotient [of g] by (auto split: option.splits)
  let ?cross = "cross_node_clusters lib g (group_rules default_rules) (has_independent_malice existing) [] cs"
  have "raw_taint lib g existing f" if "f \<in> set ?cross" for f
    using that cross_clusters_set [of lib g "group_rules default_rules" "has_independent_malice existing" "[]" cs]
      candidates_raw cluster_related [OF cs] by fastforce
  moreover have "length ?cross \<le> MAX_CROSS_NODE_FINDINGS_TOTAL" by (rule cross_clusters_bounded) simp
  ultimately show thesis
    using cs that [of ?cross]
    by (simp add: derive_taint_findings_def derive_cross_node_taint_findings_def Let_def)
qed

section \<open>The fields of a taint finding\<close>

definition softened :: "artifact_taint_rule \<Rightarrow> bool \<Rightarrow> bool" where
  "softened r down \<longleftrightarrow> down \<and> rule_opts_into_trusted_host_downgrade r"

lemma built_fields:
  "rule_id (build b) = b_rule_id b" "artifact_path (build b) = b_artifact_path b"
  "f_signal_class (build b)
     = (case b_signal_class b of Some s \<Rightarrow> s | None \<Rightarrow> signal_class_for (b_category b))"
  by (simp_all add: build_def Let_def case_prod_unfold)

lemma setter_fields:
  "b_rule_id (builder_apply b x) = b_rule_id b" "b_category (builder_apply b x) = b_category b"
  "b_artifact_path (builder_apply b x) = (case x of Set_artifact k p \<Rightarrow> p | _ \<Rightarrow> b_artifact_path b)"
  "b_signal_class (builder_apply b x) = (case x of Set_signal_class s \<Rightarrow> Some s | _ \<Rightarrow> b_signal_class b)"
  "b_action_explicit (builder_apply b x) = (case x of Set_action a \<Rightarrow> True | _ \<Rightarrow> b_action_explicit b)"
  "b_action (builder_apply b x) =
     (case x of Set_action a \<Rightarrow> a
      | Set_severity s \<Rightarrow> if b_action_explicit b then b_action b else default_action s
      | _ \<Rightarrow> b_action b)"
  by (cases x; simp add: Let_def)+

lemmas taint_builder = built_fields action_build setter_fields build_taint_finding_def build_with_def
  softened_def Let_def

lemma taint_finding_fields:
  "rule_id (build_taint_finding r p src snk kind down w) = tr_id r"
  "artifact_path (build_taint_finding r p src snk kind down w) = Some p"
  "f_action (build_taint_finding r p src snk kind down w)
     = (if softened r down \<and> tr_action r = Block then RequireApproval else tr_action r)"
  "f_signal_class (build_taint_finding r p src snk kind down w)
     = (if softened r down then ReviewSignal else signal_class_for (tr_category r))"
  by (simp_all add: taint_builder builder_new_def del: builder_apply.simps split: recommended_action.split)

lemma distinct_rule_ids: "distinct (map tr_id default_rules)"
  by (simp add: default_rules_def secret_to_network_def download_to_execution_def
      write_to_persistence_def identity_to_network_def)

lemma default_rule_ids:
  "r \<in> set default_rules \<Longrightarrow> r' \<in> set default_rules \<Longrightarrow> tr_id r = tr_id r' \<Longrightarrow> r = r'"
  using distinct_rule_ids by (meson distinct_map inj_onD)

lemma default_rule_blocks:
  assumes "r \<in> set default_rules" "tr_action r = Block"
  shows "signal_class_for (tr_category r) = MaliciousBehavior"
proof -
  have "list_all (\<lambda>r. tr_action r \<noteq> Block \<or> signal_class_for (tr_category r) = MaliciousBehavior) default_rules"
    by (simp add: default_rules_def secret_to_network_def download_to_execution_def
        write_to_persistence_def identity_to_network_def)
  with assms show ?thesis by (auto simp: list_all_iff)
qed

text \<open>What is claimed of a reported finding.\<close>

definition justified :: "taint_lib \<Rightarrow> artifact_graph \<Rightarrow> finding list \<Rightarrow> finding \<Rightarrow> bool" where
  "justified lib g existing f \<longleftrightarrow>
     list_ex (\<lambda>r. rule_id f = tr_id r
       \<and> (\<exists>p q. artifact_path f = Some p \<and> flow lib g p q r
            \<and> (f_action f = tr_action r \<and> f_signal_class f = signal_class_for (tr_category r)
               \<or> may_downgrade lib g existing p q r))) default_rules"

lemma raw_justified:
  assumes "raw_taint lib g existing f"
  shows "justified lib g existing f"
proof -
  obtain r p q src snk kind down w where r: "r \<in> set default_rules"
    and f: "f = build_taint_finding r p src snk kind down w" and flow: "flow lib g p q r"
    and down: "down = may_downgrade lib g existing p q r"
    using assms unfolding raw_taint_def by blast
  have "f_action f = tr_action r \<and> f_signal_class f = signal_class_for (tr_category r)
      \<or> may_downgrade lib g existing p q r"
    unfolding f taint_finding_fields using down by (auto simp: softened_def)
  then show ?thesis
    unfolding justified_def list_ex_iff using r flow
    by (intro bexI [of _ r] conjI exI [of _ p] exI [of _ q]) (simp_all add: f taint_finding_fields(1,2))
qed

lemma justified_cong:
  "rule_id f = rule_id d \<Longrightarrow> artifact_path f = artifact_path d \<Longrightarrow> f_action f = f_action d
     \<Longrightarrow> f_signal_class f = f_signal_class d \<Longrightarrow> justified lib g existing f = justified lib g existing d"
  by (simp add: justified_def)

lemma dedup_justified:
  assumes "\<And>f. f \<in> set raw \<Longrightarrow> justified lib g existing f" "m \<in> set (fst (deduplicate_findings raw))"
  shows "justified lib g existing m"
proof -
  obtain d where d: "d \<in> set raw" "dedup_key d = dedup_key m" "qualities m = qualities d"
    using dedup_strongest(3) [OF assms(2)] by auto
  then have "rule_id m = rule_id d" "artifact_path m = artifact_path d"
    "f_action m = f_action d" "f_signal_class m = f_signal_class d"
    by (simp_all add: dedup_key_def qualities_def)
  then show ?thesis using assms(1) [OF d(1)] justified_cong by blast
qed

lemma per_node_length:
  "length (derive_per_node_taint_findings lib g (group_rules default_rules) suppress)
     \<le> 4 * length (artifact_paths g)"
proof -
  have one: "length (per_node_group lib g suppress path (group_of_rule r)) \<le> 1" for path r
    by (simp add: per_node_group_def group_of_rule_def Let_def)
  have "length (concat (map (per_node_group lib g suppress path) (group_rules default_rules))) \<le> 4" for path
    unfolding default_groups unfolding default_rules_def
    using one [of path secret_to_network] one [of path download_to_execution]
      one [of path write_to_persistence] one [of path identity_to_network] by simp
  then have "length (concat (map (\<lambda>path. concat (map (per_node_group lib g suppress path)
      (group_rules default_rules))) paths)) \<le> 4 * length paths" for paths
  proof (induction paths)
    case (Cons path paths)
    from Cons.IH [OF Cons.prems] Cons.prems [of path] show ?case by simp
  qed simp
  then show ?thesis by (simp only: derive_per_node_taint_findings_def)
qed

section \<open>Properties\<close>



text \<open>An artifact with a secret that posts to a stranger.\<close>

definition every_host :: "string \<Rightarrow> taint_lib" where
  "every_host h = \<lparr>url_parse = (\<lambda>u. Some \<lparr>host_str = Some h, url_path = ''/''\<rparr>), alphanumeric = (\<lambda>c. False)\<rparr>"

definition leaking_graph :: "string \<Rightarrow> artifact_graph" where
  "leaking_graph target =
     \<lparr>nodes = [\<lparr>node_path = ''a.sh'', node_kind = ReferencedArtifact, node_capabilities = []\<rparr>],
      edges = [\<lparr>edge_from = ''a.sh'', edge_to = ''OPENAI_API_KEY'', edge_relation = AccessesSecrets, edge_endpoint = None\<rparr>,
               \<lparr>edge_from = ''a.sh'', edge_to = target, edge_relation = ConnectsTo, edge_endpoint = Some Remote\<rparr>]\<rparr>"


text \<open>
  The affinity of a host to a credential rests on the registrable label alone, which whoever registers
  the domain chooses: the same leak to a domain named after the victim's service may be softened.
\<close>

lemma owner_label_spoofed:
  "may_downgrade (every_host ''openai-sync.com'') (leaking_graph ''https://openai-sync.com/x'') []
     ''a.sh'' ''a.sh'' secret_to_network"
proof -
  let ?lib = "every_host ''openai-sync.com''" and ?g = "leaking_graph ''https://openai-sync.com/x''"
  have "is_real_external_sink ?lib \<lparr>edge_from = ''a.sh'', edge_to = ''https://openai-sync.com/x'',
      edge_relation = ConnectsTo, edge_endpoint = Some Remote\<rparr>"
    "accepted_sink ?lib (node_secret_source_names ?lib ?g ''a.sh'') \<lparr>edge_from = ''a.sh'',
      edge_to = ''https://openai-sync.com/x'', edge_relation = ConnectsTo, edge_endpoint = Some Remote\<rparr>"
    by code_simp+
  then show ?thesis
    by (simp add: may_downgrade_def leaking_graph_def external_sink_def has_independent_malice_def)
qed

end
