(* ===== verification/Policy_State.thy ===== *)
theory Policy_State
  imports Policy_Files
begin

text \<open>
  Applying the policy state to findings (\<open>policy/state/apply.rs\<close>) and comparing two scans under it
  (\<open>policy/state/diff.rs\<close>). The reports a function reads are represented by their lists of findings, the only
  field these functions use. The order in which a \<open>HashMap\<close> yields its entries is unspecified, and \<open>diff.rs\<close> does not
  sort what it drains: the order is an argument, a function that permutes the entries.

  Shown: the override in force is the matching one of greatest specificity, the last one in a tie, and
  the audit lists the overridden findings; a baseline removes what it was made from and nothing a fingerprint does
  not name; what each part of a diff contains.
\<close>

section \<open>Baselines and waivers\<close>

definition baseline_from_reports :: "(string \<Rightarrow> string) \<Rightarrow> finding list list \<Rightarrow> baseline_file" where
  "baseline_from_reports sha reports =
     \<lparr>bf_schema_version = default_policy_schema_version,
      bf_entries =
        map (\<lambda>f. \<lparr>be_fingerprint = finding_fingerprint sha f, be_rule_id = rule_id f,
                  be_artifact_path = artifact_path f, be_reason = reason f\<rparr>) (concat reports)\<rparr>"

definition finding_in_baseline :: "(string \<Rightarrow> string) \<Rightarrow> finding \<Rightarrow> baseline_file \<Rightarrow> bool" where
  "finding_in_baseline sha f b =
     (let fingerprint = finding_fingerprint sha f
      in list_ex (\<lambda>entry. be_fingerprint entry = fingerprint) (bf_entries b))"

definition apply_baseline :: "(string \<Rightarrow> string) \<Rightarrow> finding list \<Rightarrow> baseline_file option \<Rightarrow> finding list" where
  "apply_baseline sha findings baseline =
     (case baseline of
        None \<Rightarrow> findings
      | Some b \<Rightarrow> filter (\<lambda>f. \<not> finding_in_baseline sha f b) findings)"

definition count_baseline_matches :: "(string \<Rightarrow> string) \<Rightarrow> finding list \<Rightarrow> baseline_file option \<Rightarrow> nat" where
  "count_baseline_matches sha findings baseline =
     (case baseline of
        None \<Rightarrow> 0
      | Some b \<Rightarrow> length (filter (\<lambda>f. finding_in_baseline sha f b) findings))"

definition apply_waivers :: "instant \<Rightarrow> finding list \<Rightarrow> waiver_file option \<Rightarrow> finding list" where
  "apply_waivers now findings waivers =
     (case waivers of
        None \<Rightarrow> findings
      | Some w \<Rightarrow> filter (\<lambda>f. \<not> list_ex (\<lambda>waiver. waiver_matches_finding waiver f now) (wf_waivers w)) findings)"

text \<open>Both stages keep exactly the findings a predicate on the finding admits.\<close>

definition waived :: "instant \<Rightarrow> waiver_file option \<Rightarrow> finding \<Rightarrow> bool" where
  "waived now ws f \<longleftrightarrow>
     (case ws of None \<Rightarrow> False | Some w \<Rightarrow> list_ex (\<lambda>x. waiver_matches_finding x f now) (wf_waivers w))"

definition baselined :: "(string \<Rightarrow> string) \<Rightarrow> baseline_file option \<Rightarrow> finding \<Rightarrow> bool" where
  "baselined sha bl f \<longleftrightarrow> (case bl of None \<Rightarrow> False | Some b \<Rightarrow> finding_in_baseline sha f b)"

lemma apply_waivers_filter: "apply_waivers now fs ws = filter (\<lambda>f. \<not> waived now ws f) fs"
  by (simp add: apply_waivers_def waived_def split: option.split)

lemma apply_baseline_filter: "apply_baseline sha fs bl = filter (\<lambda>f. \<not> baselined sha bl f) fs"
  by (simp add: apply_baseline_def baselined_def split: option.split)

lemma count_baseline_filter: "count_baseline_matches sha fs bl = length (filter (baselined sha bl) fs)"
  by (simp add: count_baseline_matches_def baselined_def [abs_def] split: option.split)

lemma waived_update [simp]:
  "waived now ws (f\<lparr>f_action := a\<rparr>) = waived now ws f"
  "waived now ws (f\<lparr>confidence := x\<rparr>) = waived now ws f"
  by (simp_all add: waived_def split: option.split)

lemma baselined_update [simp]:
  "baselined sha bl (f\<lparr>f_action := a\<rparr>) = baselined sha bl f"
  "baselined sha bl (f\<lparr>confidence := x\<rparr>) = baselined sha bl f"
  by (simp_all add: baselined_def finding_in_baseline_def split: option.split)

lemma baselined_iff:
  "baselined sha (Some b) f \<longleftrightarrow> finding_fingerprint sha f \<in> be_fingerprint ` set (bf_entries b)"
  by (auto simp: baselined_def finding_in_baseline_def list_ex_iff eq_commute [of "finding_fingerprint sha f"] image_iff)

lemma baselined_from_reports:
  "baselined sha (Some (baseline_from_reports sha reports)) f \<longleftrightarrow>
     finding_fingerprint sha f \<in> finding_fingerprint sha ` set (concat reports)"
  by (simp add: baselined_iff baseline_from_reports_def image_image)

section \<open>Policy overrides\<close>

text \<open>\<open>Iterator::max_by_key\<close>: the last of the elements with the greatest key.\<close>

fun max_by_key :: "('a \<Rightarrow> 'k::linorder) \<Rightarrow> 'a list \<Rightarrow> 'a option" where
  "max_by_key key [] = None"
| "max_by_key key (x # xs) = Some (foldl (\<lambda>best y. if key best \<le> key y then y else best) x xs)"

definition match_override :: "instant \<Rightarrow> finding \<Rightarrow> policy_override list \<Rightarrow> policy_override option" where
  "match_override now f overrides =
     (let matches = filter (\<lambda>(i, po). policy_override_matches po f now) (enumerate 0 overrides)
      in map_option snd (max_by_key (\<lambda>(i, po). (policy_override_specificity po, i)) matches))"

definition build_audit_entry ::
    "(string \<Rightarrow> string) \<Rightarrow> finding \<Rightarrow> policy_override \<Rightarrow> recommended_action \<Rightarrow> applied_policy_override" where
  "build_audit_entry sha f po original =
     \<lparr>ao_fingerprint = finding_fingerprint sha f, ao_rule_id = rule_id f, ao_artifact_path = artifact_path f,
      ao_override_id = po_id po, ao_original_action = original, ao_effective_action = po_action po,
      ao_specificity = policy_override_specificity po, ao_reason = po_reason po,
      ao_matched_contexts = finding_contexts f\<rparr>"

text \<open>The closure the findings are mapped through pushes to the audit, so both lists are built in one pass.\<close>

fun override_findings ::
    "(string \<Rightarrow> string) \<Rightarrow> instant \<Rightarrow> policy_override list \<Rightarrow> finding list \<Rightarrow> applied_policy_override list
     \<Rightarrow> finding list \<times> applied_policy_override list" where
  "override_findings sha now overrides [] audit = ([], audit)"
| "override_findings sha now overrides (f # fs) audit =
     (case match_override now f overrides of
        None \<Rightarrow>
          let (fs', audit') = override_findings sha now overrides fs audit in (f # fs', audit')
      | Some po \<Rightarrow>
          let original = f_action f; f' = f\<lparr>f_action := po_action po\<rparr>;
              (fs', audit') =
                override_findings sha now overrides fs (audit @ [build_audit_entry sha f' po original])
          in (f' # fs', audit'))"

definition apply_policy_overrides_with_audit ::
    "(string \<Rightarrow> string) \<Rightarrow> instant \<Rightarrow> finding list \<Rightarrow> policy_file option
     \<Rightarrow> finding list \<times> applied_policy_override list" where
  "apply_policy_overrides_with_audit sha now findings policy =
     (case policy of
        None \<Rightarrow> (findings, [])
      | Some p \<Rightarrow> override_findings sha now (pf_overrides p) findings [])"

definition apply_policy_overrides ::
    "(string \<Rightarrow> string) \<Rightarrow> instant \<Rightarrow> finding list \<Rightarrow> policy_file option \<Rightarrow> finding list" where
  "apply_policy_overrides sha now findings policy = fst (apply_policy_overrides_with_audit sha now findings policy)"

lemma max_by_key_None [simp]: "max_by_key key xs = None \<longleftrightarrow> xs = []"
  by (cases xs) auto

lemma foldl_best:
  "foldl (\<lambda>best y. if key best \<le> key y then y else best) x xs \<in> insert x (set xs)
   \<and> (\<forall>y\<in>insert x (set xs). key y \<le> (key (foldl (\<lambda>best y. if key best \<le> key y then y else best) x xs) :: 'k::linorder))"
proof (induction xs arbitrary: x)
  case (Cons y ys)
  show ?case using Cons [of y] Cons [of x] by (auto intro: order.trans)
qed simp

lemma max_by_key_Some:
  "max_by_key key xs = Some x \<Longrightarrow> x \<in> set xs \<and> (\<forall>y\<in>set xs. key y \<le> key x)"
  using foldl_best [of key "hd xs" "tl xs"] by (cases xs) auto

text \<open>Position \<open>i\<close> holds the override in force: it matches and no other has a greater rank.\<close>

definition in_force :: "instant \<Rightarrow> finding \<Rightarrow> policy_override list \<Rightarrow> nat \<Rightarrow> bool" where
  "in_force now f os i \<longleftrightarrow>
     i < length os \<and> policy_override_matches (os ! i) f now
     \<and> (\<forall>j<length os. policy_override_matches (os ! j) f now \<longrightarrow>
          policy_override_specificity (os ! j) < policy_override_specificity (os ! i)
          \<or> policy_override_specificity (os ! j) = policy_override_specificity (os ! i) \<and> j \<le> i)"

lemma in_force_unique: "in_force now f os i \<Longrightarrow> in_force now f os j \<Longrightarrow> i = j"
  unfolding in_force_def by (metis le_antisym less_asym less_irrefl)

lemma match_override_in_force:
  "match_override now f os = Some po \<Longrightarrow> \<exists>i. in_force now f os i \<and> po = os ! i"
proof -
  assume "match_override now f os = Some po"
  then obtain i where i: "i < length os" "policy_override_matches (os ! i) f now" "po = os ! i"
    and best: "\<forall>j. j < length os \<and> policy_override_matches (os ! j) f now \<longrightarrow>
        (policy_override_specificity (os ! j), j) \<le> (policy_override_specificity (os ! i), i)"
    by (auto simp: match_override_def in_set_enumerate_eq dest!: max_by_key_Some)
  from i best have "in_force now f os i" by (auto simp: in_force_def less_eq_prod_def)
  with i(3) show ?thesis by blast
qed

lemma match_override_None:
  "match_override now f os = None \<longleftrightarrow> list_all (\<lambda>po. \<not> policy_override_matches po f now) os"
  by (auto simp: match_override_def filter_empty_conv in_set_enumerate_eq list_all_length)

lemma match_override_Some:
  "match_override now f os = Some po \<longleftrightarrow> (\<exists>i. in_force now f os i \<and> po = os ! i)"
proof
  assume "\<exists>i. in_force now f os i \<and> po = os ! i"
  then obtain i where i: "in_force now f os i" "po = os ! i" by blast
  then have "match_override now f os \<noteq> None"
    unfolding match_override_None by (auto simp: in_force_def list_all_length)
  then show "match_override now f os = Some po"
    using match_override_in_force [of now f os] in_force_unique [OF i(1)] i(2) by fastforce
qed (rule match_override_in_force)

definition overridden :: "instant \<Rightarrow> policy_override list \<Rightarrow> finding \<Rightarrow> finding" where
  "overridden now os f =
     (case match_override now f os of None \<Rightarrow> f | Some po \<Rightarrow> f\<lparr>f_action := po_action po\<rparr>)"

definition audit_entries ::
    "(string \<Rightarrow> string) \<Rightarrow> instant \<Rightarrow> policy_override list \<Rightarrow> finding list \<Rightarrow> applied_policy_override list" where
  "audit_entries sha now os fs =
     concat (map (\<lambda>f. case match_override now f os of
                        None \<Rightarrow> []
                      | Some po \<Rightarrow> [build_audit_entry sha f po (f_action f)]) fs)"

lemma build_audit_entry_update [simp]:
  "build_audit_entry sha (f\<lparr>f_action := a\<rparr>) po b = build_audit_entry sha f po b"
  by (simp add: build_audit_entry_def)

lemma override_findings_eq:
  "override_findings sha now os fs audit = (map (overridden now os) fs, audit @ audit_entries sha now os fs)"
  by (induction fs arbitrary: audit) (simp_all add: overridden_def audit_entries_def split: option.split)

definition policy_overrides :: "policy_file option \<Rightarrow> policy_override list" where
  "policy_overrides p = (case p of None \<Rightarrow> [] | Some p \<Rightarrow> pf_overrides p)"

lemma match_override_Nil [simp]: "match_override now f [] = None"
  by (simp add: match_override_def)

lemma overridden_Nil [simp]: "overridden now [] = (\<lambda>f. f)"
  by (simp add: overridden_def fun_eq_iff)

lemma apply_overrides_eq:
  "apply_policy_overrides_with_audit sha now fs p =
     (map (overridden now (policy_overrides p)) fs, audit_entries sha now (policy_overrides p) fs)"
  by (auto simp: apply_policy_overrides_with_audit_def override_findings_eq policy_overrides_def audit_entries_def
        split: option.split)

lemma overridden_invariants [simp]:
  "finding_fingerprint sha (overridden now os f) = finding_fingerprint sha f"
  "waived t ws (overridden now os f) = waived t ws f"
  "baselined sha bl (overridden now os f) = baselined sha bl f"
  "f_severity (overridden now os f) = f_severity f"
  "rule_id (overridden now os f) = rule_id f"
  "confidence (overridden now os f) = confidence f"
  by (simp_all add: overridden_def split: option.split)

section \<open>Comparing two scans\<close>

type_synonym entry_map = "(string \<times> diff_entry) list"
type_synonym logical_id = "string \<times> string option \<times> threat_category"

definition build_logical_ids :: "diff_entry list \<Rightarrow> logical_id list" where
  "build_logical_ids entries = map (\<lambda>e. (de_rule_id e, de_artifact_path e, de_category e)) entries"

definition logical_id_matches :: "logical_id list \<Rightarrow> diff_entry \<Rightarrow> bool" where
  "logical_id_matches ids e =
     list_ex (\<lambda>(r, p, c). r = de_rule_id e \<and> c = de_category e
        \<and> (case (p, de_artifact_path e) of
             (Some pa, Some pb) \<Rightarrow> paths_match pa pb
           | (None, None) \<Rightarrow> True
           | _ \<Rightarrow> False)) ids"

record diff_state =
  active_current :: entry_map
  ds_waived :: "diff_entry list"
  ds_baselined :: "diff_entry list"

text \<open>One round of the loop over the current findings: its two \<open>continue\<close>s end the round.\<close>

definition diff_step ::
    "(string \<Rightarrow> string) \<Rightarrow> instant \<Rightarrow> baseline_file option \<Rightarrow> waiver_file option \<Rightarrow> diff_state \<Rightarrow> finding \<Rightarrow> diff_state" where
  "diff_step sha now baseline waivers st f =
     (let fingerprint = finding_fingerprint sha f
      in if (case waivers of
               None \<Rightarrow> False
             | Some w \<Rightarrow> list_ex (\<lambda>x. waiver_matches_finding x f now) (wf_waivers w))
         then st\<lparr>ds_waived := ds_waived st @ [finding_to_diff_entry sha f]\<rparr>
         else if (case baseline of
                    None \<Rightarrow> False
                  | Some b \<Rightarrow> list_ex (\<lambda>entry. baseline_matches_finding sha entry f) (bf_entries b))
         then st\<lparr>ds_baselined := ds_baselined st @ [finding_to_diff_entry sha f]\<rparr>
         else st\<lparr>active_current := bt_insert fingerprint (finding_to_diff_entry sha f) (active_current st)\<rparr>)"

definition previous_map :: "(string \<Rightarrow> string) \<Rightarrow> finding list list \<Rightarrow> entry_map" where
  "previous_map sha reports =
     foldl (\<lambda>m f. bt_insert (finding_fingerprint sha f) (finding_to_diff_entry sha f) m) [] (concat reports)"

definition contains_key :: "entry_map \<Rightarrow> string \<Rightarrow> bool" where
  "contains_key m k \<longleftrightarrow> map_of m k \<noteq> None"

definition diff_reports_with_policy_state ::
    "(string \<Rightarrow> string) \<Rightarrow> (entry_map \<Rightarrow> entry_map) \<Rightarrow> instant \<Rightarrow> finding list list \<Rightarrow> finding list list
     \<Rightarrow> baseline_file option \<Rightarrow> waiver_file option \<Rightarrow> diff_report" where
  "diff_reports_with_policy_state sha bucket_order now previous current baseline waivers =
     (let previous = previous_map sha previous;
          st = foldl (diff_step sha now baseline waivers)
                 \<lparr>active_current = [], ds_waived = [], ds_baselined = []\<rparr> (concat current);
          active = active_current st;
          new_findings = map snd (filter (\<lambda>(k, e). \<not> contains_key previous k) (bucket_order active));
          current_logical_ids = build_logical_ids (map snd (bucket_order active));
          suppressed_logical_ids = build_logical_ids (ds_waived st @ ds_baselined st);
          resolved_findings =
            map snd
              (filter (\<lambda>(k, e). \<not> logical_id_matches suppressed_logical_ids e)
                (filter (\<lambda>(k, e). \<not> logical_id_matches current_logical_ids e)
                  (filter (\<lambda>(k, e). \<not> contains_key active k) (bucket_order previous))));
          unchanged = length (filter (\<lambda>k. contains_key previous k) (map fst (bucket_order active)))
      in \<lparr>new_findings = new_findings, resolved_findings = resolved_findings,
          waived_findings = ds_waived st, baselined_findings = ds_baselined st, unchanged_findings = unchanged\<rparr>)"

definition diff_reports ::
    "(string \<Rightarrow> string) \<Rightarrow> (entry_map \<Rightarrow> entry_map) \<Rightarrow> instant \<Rightarrow> finding list list \<Rightarrow> finding list list \<Rightarrow> diff_report" where
  "diff_reports sha bucket_order now previous current =
     diff_reports_with_policy_state sha bucket_order now previous current None None"

text \<open>What the loop computes, as filters of the findings.\<close>

definition active_findings_of ::
    "(string \<Rightarrow> string) \<Rightarrow> instant \<Rightarrow> baseline_file option \<Rightarrow> waiver_file option \<Rightarrow> finding list \<Rightarrow> finding list" where
  "active_findings_of sha now bl ws fs = apply_baseline sha (apply_waivers now fs ws) bl"

lemma diff_step_cases:
  "diff_step sha now bl ws st f =
     (if waived now ws f then st\<lparr>ds_waived := ds_waived st @ [finding_to_diff_entry sha f]\<rparr>
      else if baselined sha bl f then st\<lparr>ds_baselined := ds_baselined st @ [finding_to_diff_entry sha f]\<rparr>
      else st\<lparr>active_current :=
             bt_insert (finding_fingerprint sha f) (finding_to_diff_entry sha f) (active_current st)\<rparr>)"
  by (simp add: diff_step_def waived_def baselined_def finding_in_baseline_def baseline_matches_finding_def
        split: option.split)

lemma diff_loop:
  "foldl (diff_step sha now bl ws) st fs =
     \<lparr>active_current =
        foldl (\<lambda>m f. bt_insert (finding_fingerprint sha f) (finding_to_diff_entry sha f) m) (active_current st)
          (active_findings_of sha now bl ws fs),
      ds_waived = ds_waived st @ map (finding_to_diff_entry sha) (filter (waived now ws) fs),
      ds_baselined =
        ds_baselined st @ map (finding_to_diff_entry sha) (filter (baselined sha bl) (apply_waivers now fs ws))\<rparr>"
  by (induction fs arbitrary: st)
     (simp_all add: diff_step_cases active_findings_of_def apply_waivers_filter apply_baseline_filter)

text \<open>The map of a list of findings: its keys are their fingerprints, its values are entries of the list.\<close>

definition entry_map_of :: "(string \<Rightarrow> string) \<Rightarrow> finding list \<Rightarrow> entry_map" where
  "entry_map_of sha fs =
     foldl (\<lambda>m f. bt_insert (finding_fingerprint sha f) (finding_to_diff_entry sha f) m) [] fs"

lemma entry_map_invar: "bt_invar (entry_map_of sha fs)"
  unfolding entry_map_of_def bt_insert_def by (rule bt.invar_fold) (simp add: bt_invar_def)

lemma entry_map_keys: "fst ` set (entry_map_of sha fs) = finding_fingerprint sha ` set fs"
  unfolding entry_map_of_def bt_insert_def by (rule bt.keys_fold)

lemma entry_map_contains: "contains_key (entry_map_of sha fs) k \<longleftrightarrow> k \<in> finding_fingerprint sha ` set fs"
  using bt.keys_iff [OF entry_map_invar, of k sha fs] by (simp add: contains_key_def entry_map_keys)

lemma entry_insert_set: "set (bt_insert k v m) \<subseteq> insert (k, v) (set m)"
  unfolding bt_insert_def by (induction m) (auto split: if_splits)

lemma entry_map_values:
  "set (entry_map_of sha fs) \<subseteq> (\<lambda>f. (finding_fingerprint sha f, finding_to_diff_entry sha f)) ` set fs"
proof -
  have "set (foldl (\<lambda>m f. bt_insert (finding_fingerprint sha f) (finding_to_diff_entry sha f) m) m fs)
      \<subseteq> set m \<union> (\<lambda>f. (finding_fingerprint sha f, finding_to_diff_entry sha f)) ` set fs" for m
    by (induction fs arbitrary: m) (use entry_insert_set in fastforce)+
  from this [of "[]"] show ?thesis by (simp add: entry_map_of_def)
qed


lemma previous_map_eq: "previous_map sha reports = entry_map_of sha (concat reports)"
  by (simp add: previous_map_def entry_map_of_def)

lemma diff_loop_start:
  "foldl (diff_step sha now bl ws) \<lparr>active_current = [], ds_waived = [], ds_baselined = []\<rparr> fs =
     \<lparr>active_current = entry_map_of sha (active_findings_of sha now bl ws fs),
      ds_waived = map (finding_to_diff_entry sha) (filter (waived now ws) fs),
      ds_baselined = map (finding_to_diff_entry sha) (filter (baselined sha bl) (apply_waivers now fs ws))\<rparr>"
  by (simp add: diff_loop entry_map_of_def)

text \<open>A logical match of an entry with one of the listed entries.\<close>

definition same_logical :: "diff_entry \<Rightarrow> diff_entry \<Rightarrow> bool" where
  "same_logical d e \<longleftrightarrow>
     de_rule_id d = de_rule_id e \<and> de_category d = de_category e
     \<and> (de_artifact_path d = None \<and> de_artifact_path e = None
        \<or> (\<exists>p q. de_artifact_path d = Some p \<and> de_artifact_path e = Some q \<and> paths_match p q))"

lemma logical_id_matches_iff:
  "logical_id_matches (build_logical_ids ds) e \<longleftrightarrow> (\<exists>d\<in>set ds. same_logical d e)"
  by (auto simp: logical_id_matches_def build_logical_ids_def list_ex_iff same_logical_def split: option.splits)

lemma same_logical_refl [simp]: "same_logical e e"
  by (cases "de_artifact_path e") (auto simp: same_logical_def)

text \<open>The facts about what a diff drains from a map of entries, in whatever order.\<close>

lemma mset_same_set: "mset xs = mset ys \<Longrightarrow> set xs = set ys"
  by (metis set_mset_mset)

lemma drained_fingerprints:
  assumes "mset es = mset (entry_map_of sha fs)"
  shows "de_fingerprint ` snd ` {x \<in> set es. P (fst x)} = {k \<in> finding_fingerprint sha ` set fs. P k}"
proof -
  have s: "set es = set (entry_map_of sha fs)" by (rule mset_same_set [OF assms])
  have v: "de_fingerprint (snd x) = fst x" if "x \<in> set es" for x
    using entry_map_values [of sha fs] that s by auto
  have "de_fingerprint ` snd ` {x \<in> set es. P (fst x)} = fst ` {x \<in> set es. P (fst x)}"
    unfolding image_image by (rule image_cong) (simp_all add: v)
  also have "\<dots> = {k \<in> fst ` set es. P k}" by auto
  finally show ?thesis by (simp add: s entry_map_keys)
qed

lemma drained_length:
  assumes "mset es = mset (entry_map_of sha fs)"
  shows "length es = card (finding_fingerprint sha ` set fs)"
proof -
  have "length es = length (map fst (entry_map_of sha fs))"
    using assms by (metis length_map size_mset)
  also have "\<dots> = card (fst ` set (entry_map_of sha fs))"
    using entry_map_invar [of sha fs] by (metis bt_invar_def distinct_card set_map strict_sorted_iff)
  finally show ?thesis by (simp add: entry_map_keys)
qed

lemma diff_reports_unfold:
  assumes "d = diff_reports_with_policy_state sha ord now prev cur bl ws"
    and "active = active_findings_of sha now bl ws (concat cur)"
    and "E = ord (entry_map_of sha active)" and "P = ord (entry_map_of sha (concat prev))"
  shows "new_findings d = map snd (filter (\<lambda>x. fst x \<notin> finding_fingerprint sha ` set (concat prev)) E)"
    and "resolved_findings d =
      map snd (filter (\<lambda>x. fst x \<notin> finding_fingerprint sha ` set active
        \<and> \<not> (\<exists>e \<in> set (map snd E) \<union> set (waived_findings d) \<union> set (baselined_findings d). same_logical e (snd x))) P)"
    and "waived_findings d = map (finding_to_diff_entry sha) (filter (waived now ws) (concat cur))"
    and "baselined_findings d =
      map (finding_to_diff_entry sha) (filter (baselined sha bl) (apply_waivers now (concat cur) ws))"
    and "unchanged_findings d = length (filter (\<lambda>x. fst x \<in> finding_fingerprint sha ` set (concat prev)) E)"
proof -
  note defs = diff_reports_with_policy_state_def Let_def diff_loop_start previous_map_eq entry_map_contains
    assms logical_id_matches_iff
  show "new_findings d = map snd (filter (\<lambda>x. fst x \<notin> finding_fingerprint sha ` set (concat prev)) E)"
    by (simp add: defs case_prod_unfold)
  show "waived_findings d = map (finding_to_diff_entry sha) (filter (waived now ws) (concat cur))"
    by (simp add: defs)
  show "baselined_findings d =
      map (finding_to_diff_entry sha) (filter (baselined sha bl) (apply_waivers now (concat cur) ws))"
    by (simp add: defs)
  show "unchanged_findings d = length (filter (\<lambda>x. fst x \<in> finding_fingerprint sha ` set (concat prev)) E)"
    by (simp add: defs filter_map comp_def)
  show "resolved_findings d =
      map snd (filter (\<lambda>x. fst x \<notin> finding_fingerprint sha ` set active
        \<and> \<not> (\<exists>e \<in> set (map snd E) \<union> set (waived_findings d) \<union> set (baselined_findings d). same_logical e (snd x))) P)"
    by (simp add: defs case_prod_unfold del: set_concat)
       (intro arg_cong [where f = "map snd"] filter_cong refl, simp only: set_append set_map Un_iff ball_Un bex_Un, blast)
qed

section \<open>Properties\<close>

text \<open>
  Claim C32: the override that decides a finding's action is, among the overrides whose selectors match it
  and that have not expired, the one of greatest specificity (rule id before path before context), and of
  those the last in the file; the other fields of the finding are kept, and the audit lists, in the order
  of the findings, exactly the findings with an override in force, with the action each had and the one it got.
\<close>

theorem override_in_force:
  "(match_override now f os = Some po \<longleftrightarrow>
      (\<exists>i<length os. po = os ! i \<and> policy_override_matches (os ! i) f now
         \<and> \<not> (\<exists>j<length os. policy_override_matches (os ! j) f now
              \<and> (policy_override_specificity (os ! i) < policy_override_specificity (os ! j)
                 \<or> policy_override_specificity (os ! i) = policy_override_specificity (os ! j) \<and> i < j))))
   \<and> apply_policy_overrides_with_audit sha now fs (Some p) =
       (map (\<lambda>f. case match_override now f (pf_overrides p) of
                  None \<Rightarrow> f | Some po \<Rightarrow> f\<lparr>f_action := po_action po\<rparr>) fs,
        concat (map (\<lambda>f. case match_override now f (pf_overrides p) of
                  None \<Rightarrow> [] | Some po \<Rightarrow> [build_audit_entry sha f po (f_action f)]) fs))"
proof
  have "in_force now f os i \<longleftrightarrow> i < length os \<and> policy_override_matches (os ! i) f now
      \<and> \<not> (\<exists>j<length os. policy_override_matches (os ! j) f now
           \<and> (policy_override_specificity (os ! i) < policy_override_specificity (os ! j)
              \<or> policy_override_specificity (os ! i) = policy_override_specificity (os ! j) \<and> i < j))" for i
    unfolding in_force_def by (auto simp: not_less intro: le_neq_implies_less)
  then show "match_override now f os = Some po \<longleftrightarrow>
      (\<exists>i<length os. po = os ! i \<and> policy_override_matches (os ! i) f now
         \<and> \<not> (\<exists>j<length os. policy_override_matches (os ! j) f now
              \<and> (policy_override_specificity (os ! i) < policy_override_specificity (os ! j)
                 \<or> policy_override_specificity (os ! i) = policy_override_specificity (os ! j) \<and> i < j)))"
    unfolding match_override_Some by blast
qed (simp add: apply_overrides_eq policy_overrides_def overridden_def [abs_def] audit_entries_def)

text \<open>
  a baseline made from a set of reports suppresses all of their findings, in this or a later scan,
  and only findings with the fingerprint of one of them; the count reported is that of the suppressed findings.
\<close>

theorem baseline_suppresses_its_reports:
  "apply_baseline sha (concat reports) (Some (baseline_from_reports sha reports)) = []
   \<and> count_baseline_matches sha (concat reports) (Some (baseline_from_reports sha reports)) = length (concat reports)
   \<and> set (apply_baseline sha fs (Some (baseline_from_reports sha reports))) =
       {f \<in> set fs. finding_fingerprint sha f \<notin> finding_fingerprint sha ` set (concat reports)}
   \<and> count_baseline_matches sha fs (Some (baseline_from_reports sha reports))
       + length (apply_baseline sha fs (Some (baseline_from_reports sha reports))) = length fs"
proof (intro conjI)
  have all: "\<forall>f\<in>set (concat reports). baselined sha (Some (baseline_from_reports sha reports)) f"
    by (auto simp: baselined_from_reports)
  then show "apply_baseline sha (concat reports) (Some (baseline_from_reports sha reports)) = []"
    by (simp add: apply_baseline_filter filter_empty_conv)
  from all show "count_baseline_matches sha (concat reports) (Some (baseline_from_reports sha reports)) = length (concat reports)"
    by (metis count_baseline_filter filter_True)
  show "count_baseline_matches sha fs (Some (baseline_from_reports sha reports))
      + length (apply_baseline sha fs (Some (baseline_from_reports sha reports))) = length fs"
    unfolding apply_baseline_filter count_baseline_filter by (rule sum_length_filter_compl)
qed (auto simp: apply_baseline_filter baselined_from_reports)


text \<open>
  a comparison accounts for every current finding once: it is waived, or else baselined, or else
  active; the new findings are the active fingerprints the previous scan did not have, and they and the
  unchanged ones together are all of the active fingerprints; a resolved finding is one of the previous scan
  whose fingerprint is no longer active and that is not the same rule, category and logical path as an active or
  suppressed one; all of it whatever order the hash maps yield their entries in.
\<close>

theorem diff_accounts_for_findings:
  assumes order: "\<And>m. mset (ord m) = mset m"
    and d: "d = diff_reports_with_policy_state sha ord now prev cur bl ws"
    and active: "active = apply_baseline sha (apply_waivers now (concat cur) ws) bl"
  shows "length (waived_findings d) + length (baselined_findings d) + length active = length (concat cur)
    \<and> de_fingerprint ` set (new_findings d) =
        finding_fingerprint sha ` set active - finding_fingerprint sha ` set (concat prev)
    \<and> length (new_findings d) + unchanged_findings d = card (finding_fingerprint sha ` set active)
    \<and> set (resolved_findings d) \<subseteq> finding_to_diff_entry sha ` set (concat prev)
    \<and> (\<forall>e\<in>set (resolved_findings d). de_fingerprint e \<notin> finding_fingerprint sha ` set active
         \<and> \<not> (\<exists>s\<in>set (waived_findings d) \<union> set (baselined_findings d). same_logical s e))"
proof (intro conjI)
  define E where "E = ord (entry_map_of sha active)"
  define P where "P = ord (entry_map_of sha (concat prev))"
  have act: "active = active_findings_of sha now bl ws (concat cur)"
    by (simp add: active active_findings_of_def)
  note un = diff_reports_unfold [OF d act E_def P_def]
  have E: "mset E = mset (entry_map_of sha active)" and P: "mset P = mset (entry_map_of sha (concat prev))"
    by (simp_all add: E_def P_def order)
  show "length (waived_findings d) + length (baselined_findings d) + length active = length (concat cur)"
    using sum_length_filter_compl [of "waived now ws" "concat cur"]
      sum_length_filter_compl [of "baselined sha bl" "filter (\<lambda>f. \<not> waived now ws f) (concat cur)"]
    unfolding un(3,4) active apply_waivers_filter apply_baseline_filter by simp
  show "de_fingerprint ` set (new_findings d) =
      finding_fingerprint sha ` set active - finding_fingerprint sha ` set (concat prev)"
    using drained_fingerprints [OF E, of "\<lambda>k. k \<notin> finding_fingerprint sha ` set (concat prev)"]
    unfolding un(1) by (simp only: set_map set_filter) blast
  show "length (new_findings d) + unchanged_findings d = card (finding_fingerprint sha ` set active)"
    using sum_length_filter_compl [of "\<lambda>x. fst x \<in> finding_fingerprint sha ` set (concat prev)" E] drained_length [OF E]
    unfolding un(1,5) length_map by linarith
  have sP: "set P \<subseteq> (\<lambda>f. (finding_fingerprint sha f, finding_to_diff_entry sha f)) ` set (concat prev)"
    using entry_map_values [of sha "concat prev"] mset_same_set [OF P] by blast
  then show "set (resolved_findings d) \<subseteq> finding_to_diff_entry sha ` set (concat prev)"
    unfolding un(2) by (simp only: set_map set_filter) fastforce
  from sP have "de_fingerprint (snd x) = fst x" if "x \<in> set P" for x
    using that by (fastforce simp del: set_concat)
  then show "\<forall>e\<in>set (resolved_findings d). de_fingerprint e \<notin> finding_fingerprint sha ` set active
      \<and> \<not> (\<exists>s\<in>set (waived_findings d) \<union> set (baselined_findings d). same_logical s e)"
    unfolding un(2) by (auto simp del: set_concat)
qed


definition sample_finding :: finding where
  "sample_finding =
     \<lparr>rule_id = ''R1'', category = RemoteExec, f_severity = High, confidence = Fin 1, raw_confidence = Fin 1,
      confidence_rationale = [], matched_on = CodeBlock None, match_value = ''CURL'', reason = ''downloads and runs'',
      remediation = [], f_action = Block, f_evidence_kind = Behavior, f_artifact_kind = SkillDocument,
      f_artifact_scope = AgentEntrypoint, f_signal_class = MaliciousBehavior, artifact_path = Some ''SKILL.md'',
      operational_contexts = [], taxonomy_tags = [], user_taxonomy = [], line_number = Some 3, suppression = None\<rparr>"

definition sample_waivers :: waiver_file where
  "sample_waivers =
     \<lparr>wf_schema_version = POLICY_SCHEMA_VERSION,
      wf_waivers = [\<lparr>we_rule_id = Some ''r1'', we_artifact_path = None, we_context = None, we_reason = ''known'',
                     we_expires_at = Some 10\<rparr>]\<rparr>"

lemma diff_accounts_for_findings_witness:
  "length (waived_findings (diff_reports_with_policy_state (\<lambda>s. s) rev 5 [[sample_finding]]
       [[sample_finding, sample_finding\<lparr>rule_id := ''R2''\<rparr>]] None (Some sample_waivers))) = 1
   \<and> de_fingerprint ` set (new_findings (diff_reports_with_policy_state (\<lambda>s. s) rev 5 [[sample_finding]]
       [[sample_finding, sample_finding\<lparr>rule_id := ''R2''\<rparr>]] None (Some sample_waivers)))
      = {finding_fingerprint (\<lambda>s. s) (sample_finding\<lparr>rule_id := ''R2''\<rparr>)}"
proof -
  let ?f = "sample_finding\<lparr>rule_id := ''R2''\<rparr>"
  have a: "apply_baseline (\<lambda>s. s) (apply_waivers 5 (concat [[sample_finding, ?f]]) (Some sample_waivers)) None = [?f]"
    by code_simp
  have b: "finding_fingerprint (\<lambda>s. s) ?f \<noteq> finding_fingerprint (\<lambda>s. s) sample_finding"
    by code_simp
  have c: "length (baselined_findings (diff_reports_with_policy_state (\<lambda>s. s) rev 5 [[sample_finding]]
       [[sample_finding, ?f]] None (Some sample_waivers))) = 0"
    by code_simp
  show ?thesis
    using diff_accounts_for_findings [of rev, OF _ refl a [symmetric], of "[[sample_finding]]"] b c by simp
qed

text \<open>
  comparing a scan with itself, with no waivers and no baseline, reports nothing new and nothing
  resolved, whatever the order of the hash maps, and counts every distinct fingerprint as unchanged.
\<close>

theorem diff_with_itself:
  assumes order: "\<And>m. mset (ord m) = mset m"
  shows "new_findings (diff_reports sha ord now rs rs) = []
    \<and> resolved_findings (diff_reports sha ord now rs rs) = []
    \<and> unchanged_findings (diff_reports sha ord now rs rs) = card (finding_fingerprint sha ` set (concat rs))"
proof -
  let ?E = "ord (entry_map_of sha (concat rs))"
  have act: "concat rs = active_findings_of sha now None None (concat rs)"
    by (simp add: active_findings_of_def apply_waivers_def apply_baseline_def)
  note un = diff_reports_unfold [OF diff_reports_def [of sha ord now rs rs] act refl refl]
  have keys: "fst x \<in> finding_fingerprint sha ` set (concat rs)" if "x \<in> set ?E" for x
    using that entry_map_keys [of sha "concat rs"] mset_same_set [OF order, of "entry_map_of sha (concat rs)"] by blast
  have "length ?E = card (finding_fingerprint sha ` set (concat rs))"
    by (rule drained_length [OF order])
  moreover have "filter (\<lambda>x. fst x \<in> finding_fingerprint sha ` set (concat rs)) ?E = ?E"
    using keys by (simp add: filter_id_conv del: set_concat)
  moreover have "filter (\<lambda>x. fst x \<notin> finding_fingerprint sha ` set (concat rs)) ?E = []"
    using keys by (simp add: filter_empty_conv del: set_concat)
  moreover have "resolved_findings (diff_reports sha ord now rs rs) = []"
    unfolding un(2) using keys by (auto simp: filter_empty_conv simp del: set_concat)
  ultimately show ?thesis unfolding un(1,5) by simp
qed

lemma diff_with_itself_witness:
  "new_findings (diff_reports (\<lambda>s. s) rev 0 [[sample_finding]] [[sample_finding]]) = []
   \<and> unchanged_findings (diff_reports (\<lambda>s. s) rev 0 [[sample_finding]] [[sample_finding]]) = 1"
  using diff_with_itself [of rev "\<lambda>s. s" 0 "[[sample_finding]]"] by simp

end
