(* ===== verification/Disposition.thy ===== *)
theory Disposition
  imports Policy_State
begin

text \<open>
  Analyst feedback (\<open>policy/disposition.rs\<close>): an append-only overlay of verdicts on findings, from which a
  bounded confidence adjustment per rule and an allowlist of noisy rules are learned.

  Shown: a (rule, fingerprint) pair counts once, with its last label; an adjustment is a number within the documented
  band whatever the overlay holds, so an adjusted confidence is one as well; the sign of an adjustment is that of the
  evidence; the allowlist needs eight negatives and more than five times as many negatives as positives.
\<close>

section \<open>Overlay\<close>

datatype disposition = TruePositive | FalsePositive | Disposition_Benign

record disposition_record =
  dr_fingerprint :: string
  dr_rule_id :: string
  dr_sha256 :: "string option"
  dr_disposition :: disposition
  dr_recorded_at :: instant
  dr_note :: "string option"

record disposition_overlay =
  do_schema_version :: string
  do_records :: "disposition_record list"

definition default_disposition_overlay :: disposition_overlay where
  "default_disposition_overlay = \<lparr>do_schema_version = default_policy_schema_version, do_records = []\<rparr>"

definition is_true_positive :: "disposition \<Rightarrow> bool" where
  "is_true_positive d \<longleftrightarrow> d = TruePositive"

definition validate_disposition_overlay :: "disposition_overlay \<Rightarrow> string + unit" where
  "validate_disposition_overlay overlay = Inr ()"

definition load_disposition_overlay ::
    "('e, disposition_overlay) loader_env \<Rightarrow> string \<Rightarrow> 'e policy_load_error + disposition_overlay" where
  "load_disposition_overlay env = load_validated env validate_disposition_overlay"

definition CONFIDENCE_LEARN_RATE :: f32 where
  "CONFIDENCE_LEARN_RATE = f32_of_rat (30 / 100)"

definition MAX_CONFIDENCE_DELTA :: f32 where
  "MAX_CONFIDENCE_DELTA = f32_of_rat (15 / 100)"

definition MIN_LEARNED_CONFIDENCE :: f32 where
  "MIN_LEARNED_CONFIDENCE = f32_of_rat (5 / 100)"

definition MAX_LEARNED_CONFIDENCE :: f32 where
  "MAX_LEARNED_CONFIDENCE = f32_of_rat (99 / 100)"

definition ALLOWLIST_MIN_FP_SAMPLES :: nat where
  "ALLOWLIST_MIN_FP_SAMPLES = 8"

definition ALLOWLIST_MAX_TP_RATE :: f32 where
  "ALLOWLIST_MAX_TP_RATE = f32_of_rat (15 / 100)"

section \<open>Counts\<close>

definition latest_by_finding :: "disposition_overlay \<Rightarrow> ((string \<times> string) \<times> disposition) list" where
  "latest_by_finding overlay =
     foldl (\<lambda>m r. bt_insert (dr_rule_id r, dr_fingerprint r) (dr_disposition r) m) [] (do_records overlay)"

fun count_disposition :: "disposition \<Rightarrow> (nat \<times> nat) option \<Rightarrow> nat \<times> nat" where
  "count_disposition d entry =
     (let (tp, fp) = (case entry of Some e \<Rightarrow> e | None \<Rightarrow> (0, 0))
      in if is_true_positive d then (tp + 1, fp) else (tp, fp + 1))"

definition per_rule_counts :: "disposition_overlay \<Rightarrow> (string \<times> nat \<times> nat) list" where
  "per_rule_counts overlay =
     foldl (\<lambda>counts e. bt_entry (fst (fst e)) (count_disposition (snd e)) counts) [] (latest_by_finding overlay)"

section \<open>Learning\<close>

text \<open>Division of two values; the divisor here is at least 2, so the sign of a zero never matters.\<close>

fun f_div :: "f32 \<Rightarrow> f32 \<Rightarrow> f32" where
  "f_div a (Fin y) = f_div_by a y"
| "f_div a NaN = NaN"
| "f_div (Fin x) _ = Fin 0"
| "f_div _ _ = NaN"

definition smoothed_tp_rate :: "nat \<Rightarrow> nat \<Rightarrow> f32" where
  "smoothed_tp_rate tp fp =
     f_div (f_add (f_of_nat tp) (Fin 1)) (f_add (f_add (f_of_nat tp) (f_of_nat fp)) (Fin 2))"

definition confidence_delta :: "nat \<Rightarrow> nat \<Rightarrow> f32" where
  "confidence_delta tp fp =
     f_clamp (f_neg MAX_CONFIDENCE_DELTA) MAX_CONFIDENCE_DELTA
       (f_mul CONFIDENCE_LEARN_RATE (f_sub (smoothed_tp_rate tp fp) (Fin (1 / 2))))"

definition learned_confidence_adjustments :: "disposition_overlay \<Rightarrow> (string \<times> f32) list" where
  "learned_confidence_adjustments overlay =
     map (\<lambda>(rule, tp, fp). (rule, confidence_delta tp fp)) (per_rule_counts overlay)"

definition learned_allowlist :: "disposition_overlay \<Rightarrow> string list" where
  "learned_allowlist overlay =
     map fst
       (filter (\<lambda>(rule, tp, fp).
            ALLOWLIST_MIN_FP_SAMPLES \<le> fp \<and> f_lt (smoothed_tp_rate tp fp) ALLOWLIST_MAX_TP_RATE)
          (per_rule_counts overlay))"

definition adjust_confidence :: "f32 \<Rightarrow> f32 \<Rightarrow> f32" where
  "adjust_confidence base delta = f_clamp MIN_LEARNED_CONFIDENCE MAX_LEARNED_CONFIDENCE (f_add base delta)"

section \<open>The counts are those of the last labels\<close>

text \<open>The label in force for a pair: that of its last record.\<close>

definition last_label :: "disposition_overlay \<Rightarrow> string \<Rightarrow> string \<Rightarrow> disposition option" where
  "last_label overlay rule fp =
     map_option dr_disposition
       (find (\<lambda>r. dr_rule_id r = rule \<and> dr_fingerprint r = fp) (rev (do_records overlay)))"

definition positives :: "disposition_overlay \<Rightarrow> string \<Rightarrow> string set" where
  "positives overlay rule = {fp. last_label overlay rule fp = Some TruePositive}"

definition negatives :: "disposition_overlay \<Rightarrow> string \<Rightarrow> string set" where
  "negatives overlay rule =
     {fp. last_label overlay rule fp = Some FalsePositive \<or> last_label overlay rule fp = Some Disposition_Benign}"

lemma latest_invar: "bt_invar (latest_by_finding overlay)"
  unfolding latest_by_finding_def bt_insert_def by (rule bt.invar_fold) (simp add: bt_invar_def)

lemma find_snoc: "find P (xs @ [x]) = (case find P xs of Some y \<Rightarrow> Some y | None \<Rightarrow> if P x then Some x else None)"
  by (induction xs) auto

lemma fold_last:
  "foldl (\<lambda>o' x. Some (g x)) None (filter P xs) = map_option g (find P (rev xs))"
  by (induction xs rule: rev_induct) auto

lemma latest_get: "map_of (latest_by_finding overlay) (rule, fp) = last_label overlay rule fp"
  unfolding latest_by_finding_def bt_insert_def last_label_def
  by (subst bt.get_fold) (simp_all add: bt_invar_def fold_last conj_commute)

lemma count_fold:
  "foldl (\<lambda>o' x. Some (count_disposition (snd x) o')) c es =
     (case c of
        None \<Rightarrow>
          if es = [] then None
          else Some (length (filter (\<lambda>x. snd x = TruePositive) es), length (filter (\<lambda>x. snd x \<noteq> TruePositive) es))
      | Some (tp, fp) \<Rightarrow>
          Some (tp + length (filter (\<lambda>x. snd x = TruePositive) es),
                fp + length (filter (\<lambda>x. snd x \<noteq> TruePositive) es)))"
  by (induction es arbitrary: c) (auto simp: is_true_positive_def split: option.splits)

lemma filtered_card:
  assumes "distinct (map fst m)"
  shows "length (filter (\<lambda>x. fst (fst x) = rule \<and> Q (snd x)) m) =
           card {fp. \<exists>d. map_of m (rule, fp) = Some d \<and> Q d}"
proof -
  let ?xs = "filter (\<lambda>x. fst (fst x) = rule \<and> Q (snd x)) m"
  have "distinct (map fst ?xs)" using assms by (rule distinct_map_filter)
  then have "length ?xs = card (fst ` set ?xs)" using distinct_card [of "map fst ?xs"] by simp
  also have "fst ` set ?xs = {k. fst k = rule \<and> (\<exists>d. (k, d) \<in> set m \<and> Q d)}"
    by force
  also have "\<dots> = Pair rule ` {fp. \<exists>d. map_of m (rule, fp) = Some d \<and> Q d}"
    by (auto simp: map_of_eq_Some_iff [OF assms] image_iff)
  also have "card \<dots> = card {fp. \<exists>d. map_of m (rule, fp) = Some d \<and> Q d}"
    by (rule card_image) (simp add: inj_on_def)
  finally show ?thesis .
qed

lemma latest_distinct: "distinct (map fst (latest_by_finding overlay))"
  using latest_invar [of overlay] by (simp add: bt_invar_def strict_sorted_iff)

lemma negative_label: "d \<noteq> TruePositive \<longleftrightarrow> d = FalsePositive \<or> d = Disposition_Benign"
  by (cases d) auto

lemma counts_get:
  "map_of (per_rule_counts overlay) rule =
     (if positives overlay rule = {} \<and> negatives overlay rule = {} then None
      else Some (card (positives overlay rule), card (negatives overlay rule)))"
proof -
  let ?m = "latest_by_finding overlay"
  let ?es = "filter (\<lambda>x. fst (fst x) = rule) ?m"
  have tp: "length (filter (\<lambda>x. snd x = TruePositive) ?es) = card (positives overlay rule)"
    using filtered_card [OF latest_distinct, of rule "\<lambda>d. d = TruePositive" overlay]
    by (simp add: latest_get positives_def conj_commute)
  have fp: "length (filter (\<lambda>x. snd x \<noteq> TruePositive) ?es) = card (negatives overlay rule)"
  proof -
    have "negatives overlay rule = {fp. \<exists>d. last_label overlay rule fp = Some d \<and> d \<noteq> TruePositive}"
      by (auto simp: negatives_def negative_label)
    then show ?thesis
      using filtered_card [OF latest_distinct, of rule "\<lambda>d. d \<noteq> TruePositive" overlay]
      by (simp add: latest_get conj_commute)
  qed
  have none: "?es = [] \<longleftrightarrow> positives overlay rule = {} \<and> negatives overlay rule = {}"
  proof -
    have "?es = [] \<longleftrightarrow> (\<forall>fp. map_of ?m (rule, fp) = None)"
      by (force simp: filter_empty_conv map_of_eq_None_iff image_iff)
    also have "\<dots> \<longleftrightarrow> (\<forall>fp. last_label overlay rule fp = None)" by (simp add: latest_get)
    also have "\<dots> \<longleftrightarrow> positives overlay rule = {} \<and> negatives overlay rule = {}"
      by (auto simp: positives_def negatives_def) (metis disposition.exhaust not_None_eq)
    finally show ?thesis .
  qed
  have "map_of (per_rule_counts overlay) rule =
      foldl (\<lambda>o' x. Some (count_disposition (snd x) o')) None ?es"
    unfolding per_rule_counts_def by (subst bt.get_fold) (simp_all add: bt_invar_def)
  also have "\<dots> = (if positives overlay rule = {} \<and> negatives overlay rule = {} then None
      else Some (card (positives overlay rule), card (negatives overlay rule)))"
    unfolding count_fold tp fp none by simp
  finally show ?thesis .
qed

section \<open>Bounds\<close>

lemma disposition_constants:
  "CONFIDENCE_LEARN_RATE = Fin (5033165 / 16777216)"
  "MAX_CONFIDENCE_DELTA = Fin (5033165 / 33554432)" "ALLOWLIST_MAX_TP_RATE = Fin (5033165 / 33554432)"
  "MIN_LEARNED_CONFIDENCE = Fin (13421773 / 268435456)" "MAX_LEARNED_CONFIDENCE = Fin (4152361 / 4194304)"
  by code_simp+

lemma representable_small:
  "representable 1" "representable 2" "representable (1 / 2)" "representable 0" "representable (5033165 / 33554432)"
  by (simp_all add: representable_def) code_simp+

lemma f32_of_rat_Fin:
  assumes "0 \<le> x" "x \<le> 2 ^ k" "k \<le> 100"
  shows "\<exists>r. f32_of_rat x = Fin r \<and> 0 \<le> r \<and> r \<le> 2 ^ k"
proof -
  have "representable (2 ^ k)" using representable_scaled [of 1 "int k"] by simp
  then have "rnd x \<le> 2 ^ k" using rnd_mono [OF assms(2)] by (simp add: representable_def)
  moreover have "(2::rat) ^ k \<le> 2 ^ 100" using assms(3) by (intro power_increasing) auto
  moreover have "(2::rat) ^ 100 < 2 ^ 128" by simp
  ultimately show ?thesis using rnd_nonneg [OF assms(1)] by (auto simp: f32_of_rat_def Let_def)
qed

lemma f32_of_rat_not_nan [simp]: "\<not> f_is_nan (f32_of_rat x)"
  by (simp add: f32_of_rat_def Let_def f_is_nan_def)

lemma f32_of_rat_ne_NaN [simp]: "f32_of_rat x \<noteq> NaN"
  by (simp add: f32_of_rat_def Let_def)

lemma smoothed_rate_not_nan:
  assumes "tp \<le> 2 ^ 64" "fp \<le> 2 ^ 64"
  shows "\<not> f_is_nan (smoothed_tp_rate tp fp)"
proof -
  obtain a where a: "f_of_nat tp = Fin a" "0 \<le> a" "a \<le> 2 ^ 64"
    using f32_of_rat_Fin [of "of_nat tp" 64] assms(1) unfolding f_of_nat_def by force
  obtain b where b: "f_of_nat fp = Fin b" "0 \<le> b" "b \<le> 2 ^ 64"
    using f32_of_rat_Fin [of "of_nat fp" 64] assms(2) unfolding f_of_nat_def by force
  obtain c where c: "f32_of_rat (a + b) = Fin c" "0 \<le> c" "c \<le> 2 ^ 65"
    using f32_of_rat_Fin [of "a + b" 65] a b by force
  obtain x where x: "f32_of_rat (a + 1) = Fin x"
    using f32_of_rat_Fin [of "a + 1" 65] a by force
  obtain y where y: "f32_of_rat (c + 2) = Fin y"
    using f32_of_rat_Fin [of "c + 2" 66] c by force
  show ?thesis by (simp add: smoothed_tp_rate_def a b c x y)
qed

lemma f_mul_scale_not_nan: "0 < p \<Longrightarrow> \<not> f_is_nan q \<Longrightarrow> \<not> f_is_nan (f_mul (Fin p) q)"
  by (cases q) (auto simp: f_is_nan_def f_inf_sign_def)

lemma f_sub_half_not_nan: "\<not> f_is_nan q \<Longrightarrow> \<not> f_is_nan (f_sub q (Fin h))"
  by (cases q) (auto simp: f_sub_def f_is_nan_def)

lemma confidence_delta_bounds:
  assumes "tp \<le> 2 ^ 64" "fp \<le> 2 ^ 64"
  shows "f_le (f_neg MAX_CONFIDENCE_DELTA) (confidence_delta tp fp)
       \<and> f_le (confidence_delta tp fp) MAX_CONFIDENCE_DELTA"
proof -
  have "\<not> f_is_nan (f_mul CONFIDENCE_LEARN_RATE (f_sub (smoothed_tp_rate tp fp) (Fin (1 / 2))))"
    unfolding disposition_constants
    by (intro f_mul_scale_not_nan f_sub_half_not_nan smoothed_rate_not_nan assms) simp
  from f_clamp_bounds [OF _ this, of "- (5033165 / 33554432)" "5033165 / 33554432"] show ?thesis
    by (auto simp: confidence_delta_def disposition_constants f_le_def f_is_nan_def)
qed

lemma adjust_confidence_bounds:
  assumes "\<not> f_is_nan base" "\<not> f_is_nan d" "f_is_finite d"
  shows "f_le MIN_LEARNED_CONFIDENCE (adjust_confidence base d)
       \<and> f_le (adjust_confidence base d) MAX_LEARNED_CONFIDENCE"
proof -
  have "\<not> f_is_nan (f_add base d)"
    using assms by (cases base; cases d) (auto simp: f_is_nan_def f_is_finite_def)
  from f_clamp_bounds [OF _ this, of "13421773 / 268435456" "4152361 / 4194304"] show ?thesis
    by (auto simp: adjust_confidence_def disposition_constants f_le_def f_is_nan_def)
qed

text \<open>Exact values for overlays of fewer than \<open>2^24\<close> records.\<close>

lemma smoothed_rate_exact:
  assumes "tp + fp + 2 \<le> 2 ^ 24"
  shows "smoothed_tp_rate tp fp = f32_of_rat ((of_nat tp + 1) / (of_nat tp + of_nat fp + 2))"
proof -
  have n: "f32_of_rat (of_nat n) = Fin (of_nat n)" if "n \<le> 2 ^ 24" for n
    using that rnd_of_nat [of n] by (simp add: f32_of_rat_def Let_def order.strict_trans1 [of _ "2 ^ 24"] not_le)
  have le: "tp \<le> 2 ^ 24" "fp \<le> 2 ^ 24" "tp + fp \<le> 2 ^ 24" "tp + 1 \<le> 2 ^ 24" using assms by simp_all
  note exact = n [OF le(1)] n [OF le(2)] n [OF le(3), unfolded of_nat_add] n [OF le(4), unfolded of_nat_add of_nat_1]
    n [OF assms, unfolded of_nat_add of_nat_numeral]
  show ?thesis by (simp only: smoothed_tp_rate_def f_of_nat_def f_add.simps f_div.simps f_div_by.simps exact)
qed


lemma f32_of_rat_sign: "x \<le> 0 \<Longrightarrow> f_le (f32_of_rat x) (Fin 0)" "0 \<le> x \<Longrightarrow> f_le (Fin 0) (f32_of_rat x)"
  using f32_of_rat_mono [of x 0] f32_of_rat_mono [of 0 x] by (simp_all add: f32_of_rat_def [of 0])

lemma f_scale_sign:
  assumes "0 < p"
  shows "f_le q (Fin 0) \<Longrightarrow> f_le (f_mul (Fin p) q) (Fin 0)" "f_le (Fin 0) q \<Longrightarrow> f_le (Fin 0) (f_mul (Fin p) q)"
proof -
  show "f_le (f_mul (Fin p) q) (Fin 0)" if "f_le q (Fin 0)"
    using that f32_of_rat_sign(1) [OF mult_nonneg_nonpos [of p]] assms
    by (cases q) (auto simp: f_le_def f_is_nan_def f_inf_sign_def not_less)
  show "f_le (Fin 0) (f_mul (Fin p) q)" if "f_le (Fin 0) q"
    using that f32_of_rat_sign(2) [OF mult_nonneg_nonneg [of p]] assms
    by (cases q) (auto simp: f_le_def f_is_nan_def f_inf_sign_def not_less)
qed

lemma delta_sign:
  assumes "tp + fp + 2 \<le> 2 ^ 24"
  shows "tp \<le> fp \<Longrightarrow> f_le (confidence_delta tp fp) (Fin 0)"
    and "fp \<le> tp \<Longrightarrow> f_le (Fin 0) (confidence_delta tp fp)"
proof -
  define q :: rat where "q = (of_nat tp + 1) / (of_nat tp + of_nat fp + 2)"
  define r where "r = rnd q"
  have "q \<le> 2 ^ 1" "0 \<le> q" by (simp_all add: q_def field_simps)
  then have "f32_of_rat q = Fin r"
    using f32_of_rat_Fin [of q 1] by (auto simp: f32_of_rat_def Let_def r_def split: if_splits)
  then have rate: "smoothed_tp_rate tp fp = Fin r"
    by (simp add: smoothed_rate_exact [OF assms] q_def)
  have half: "rnd (1 / 2) = 1 / 2" using representable_small(3) by (simp add: representable_def)
  show "f_le (confidence_delta tp fp) (Fin 0)" if "tp \<le> fp"
  proof -
    have "(of_nat tp :: rat) \<le> of_nat fp" using that by simp
    then have "q \<le> 1 / 2" by (simp add: q_def field_simps)
    then have "r \<le> 1 / 2" using rnd_mono [of q "1 / 2"] half by (simp add: r_def)
    then have "f_le (f_mul CONFIDENCE_LEARN_RATE (f_sub (Fin r) (Fin (1 / 2)))) (Fin 0)"
      unfolding disposition_constants by (intro f_scale_sign) (simp_all add: f_sub_def f32_of_rat_sign)
    then show ?thesis
      using f_clamp_mono [of "- (5033165 / 33554432)" "5033165 / 33554432" _ "Fin 0"]
      unfolding confidence_delta_def rate disposition_constants by (simp add: f_clamp_def)
  qed
  show "f_le (Fin 0) (confidence_delta tp fp)" if "fp \<le> tp"
  proof -
    have "(of_nat fp :: rat) \<le> of_nat tp" using that by simp
    then have "1 / 2 \<le> q" by (simp add: q_def field_simps)
    then have "1 / 2 \<le> r" using rnd_mono [of "1 / 2" q] half by (simp add: r_def)
    then have "f_le (Fin 0) (f_mul CONFIDENCE_LEARN_RATE (f_sub (Fin r) (Fin (1 / 2))))"
      unfolding disposition_constants by (intro f_scale_sign) (simp_all add: f_sub_def f32_of_rat_sign)
    then show ?thesis
      using f_clamp_mono [of "- (5033165 / 33554432)" "5033165 / 33554432" "Fin 0"]
      unfolding confidence_delta_def rate disposition_constants by (simp add: f_clamp_def)
  qed
qed

lemma allowlist_rate:
  assumes "tp + fp + 2 \<le> 2 ^ 24" "f_lt (smoothed_tp_rate tp fp) ALLOWLIST_MAX_TP_RATE"
  shows "5 * tp + 4 < fp"
proof -
  define q :: rat where "q = (of_nat tp + 1) / (of_nat tp + of_nat fp + 2)"
  have "\<not> f_le ALLOWLIST_MAX_TP_RATE (f32_of_rat q)"
    using assms(2) by (simp add: smoothed_rate_exact [OF assms(1)] q_def f_le_def)
  then have "\<not> 5033165 / 33554432 \<le> q"
    using f32_of_rat_ge [of "5033165 / 33554432" q] representable_small(5) by (auto simp: disposition_constants)
  then have "33554432 * (of_nat tp + 1 :: rat) < 5033165 * (of_nat tp + of_nat fp + 2)"
    by (simp add: q_def field_simps not_le)
  then have "of_nat (33554432 * (tp + 1)) < (of_nat (5033165 * (tp + fp + 2)) :: rat)" by (simp add: algebra_simps)
  then have "33554432 * (tp + 1) < 5033165 * (tp + fp + 2)" by (simp only: of_nat_less_iff)
  then show ?thesis by (simp add: algebra_simps)
qed


lemma f32_of_rat_exact:
  assumes "0 \<le> n" "n \<le> 2 ^ 24" "k \<le> 100"
  shows "f32_of_rat (of_int n / 2 ^ k) = Fin (of_int n / 2 ^ k)"
proof -
  have "representable (of_int n / 2 ^ k)"
    using representable_scaled [of n "- int k"] assms by (simp add: power_int_minus divide_inverse)
  moreover have "of_int n / 2 ^ k < (2 :: rat) ^ 128"
  proof -
    have "of_int n / 2 ^ k \<le> (of_int n :: rat)" using assms(1) by (simp add: divide_le_eq mult_le_cancel_left1)
    also have "\<dots> \<le> 2 ^ 24" using assms(2) by (metis of_int_le_iff of_int_numeral of_int_power)
    finally show ?thesis by simp
  qed
  moreover have "- (2 ^ 128) < (of_int n / 2 ^ k :: rat)"
    using assms(1) by (simp add: order.strict_trans2 [of _ 0])
  ultimately show ?thesis by (simp add: f32_of_rat_def representable_def)
qed

lemma delta_2_0: "confidence_delta 2 0 = Fin (5033165 / 67108864)"
  using f32_of_rat_exact [of 3 2] f32_of_rat_exact [of 1 2] f32_of_rat_exact [of 5033165 26]
  by (simp add: confidence_delta_def smoothed_rate_exact f_sub_def disposition_constants f_clamp_def)

lemma adjusted_2_0: "adjust_confidence (Fin (1 / 8)) (confidence_delta 2 0) = Fin (13421773 / 67108864)"
  using f32_of_rat_exact [of 13421773 26]
  by (simp add: adjust_confidence_def delta_2_0 disposition_constants f_clamp_def)

lemma label_recorded:
  "last_label overlay rule fp = Some d \<Longrightarrow> fp \<in> dr_fingerprint ` set (do_records overlay)"
  by (auto simp: last_label_def dest!: find_mem)

lemma counts_bound:
  "finite (positives overlay rule) \<and> finite (negatives overlay rule)
   \<and> card (positives overlay rule) + card (negatives overlay rule) \<le> length (do_records overlay)"
proof -
  have sub: "positives overlay rule \<union> negatives overlay rule \<subseteq> dr_fingerprint ` set (do_records overlay)"
    by (auto simp: positives_def negatives_def intro: label_recorded)
  then have fin: "finite (positives overlay rule)" "finite (negatives overlay rule)"
    by (auto dest: finite_subset)
  have "positives overlay rule \<inter> negatives overlay rule = {}"
    by (auto simp: positives_def negatives_def)
  then have "card (positives overlay rule) + card (negatives overlay rule)
      = card (positives overlay rule \<union> negatives overlay rule)"
    using fin by (simp add: card_Un_disjoint)
  also have "\<dots> \<le> card (dr_fingerprint ` set (do_records overlay))" by (rule card_mono [OF _ sub]) simp
  also have "\<dots> \<le> length (do_records overlay)" by (metis card_length image_set length_map)
  finally show ?thesis using fin by blast
qed

lemma counts_invar: "bt_invar (per_rule_counts overlay)"
  unfolding per_rule_counts_def by (rule bt.invar_fold) (simp add: bt_invar_def)

lemma counts_mem:
  "(rule, tp, fp) \<in> set (per_rule_counts overlay) \<longleftrightarrow>
     map_of (per_rule_counts overlay) rule = Some (tp, fp)"
  using bt.items_iff [OF counts_invar] .

lemma counts_mem_card:
  "(rule, tp, fp) \<in> set (per_rule_counts overlay) \<Longrightarrow>
     tp = card (positives overlay rule) \<and> fp = card (negatives overlay rule)"
  by (simp add: counts_mem counts_get split: if_splits)

lemma adjustments_get:
  "map_of (learned_confidence_adjustments overlay) rule =
     (if positives overlay rule = {} \<and> negatives overlay rule = {} then None
      else Some (confidence_delta (card (positives overlay rule)) (card (negatives overlay rule))))"
proof -
  have "map_of (map (\<lambda>(r, tp, fp). (r, confidence_delta tp fp)) m) rule
      = map_option (\<lambda>(tp, fp). confidence_delta tp fp) (map_of m rule)" for m
    by (induction m) auto
  then show ?thesis by (simp add: learned_confidence_adjustments_def counts_get)
qed

section \<open>Properties\<close>

text \<open>
  whatever an overlay records (up to \<open>2^24 - 2\<close> records, where the arithmetic is exact), the adjustment
  it teaches for a rule comes from one sample per finding, the last label of that finding; it stays within the
  documented band of 0.15 either way; it is positive only when more findings of the rule are true positives than
  not, and negative only when fewer are; and a confidence adjusted by it is a number in [0.05, 0.99].
\<close>

theorem learned_adjustment_bounded:
  assumes "length (do_records overlay) + 2 \<le> 2 ^ 24"
    and "map_of (learned_confidence_adjustments overlay) rule = Some d"
    and "\<not> f_is_nan base"
  shows "d = confidence_delta (card (positives overlay rule)) (card (negatives overlay rule))
    \<and> f_le (f_neg MAX_CONFIDENCE_DELTA) d \<and> f_le d MAX_CONFIDENCE_DELTA
    \<and> (f_lt (Fin 0) d \<longrightarrow> card (negatives overlay rule) < card (positives overlay rule))
    \<and> (f_lt d (Fin 0) \<longrightarrow> card (positives overlay rule) < card (negatives overlay rule))
    \<and> f_le MIN_LEARNED_CONFIDENCE (adjust_confidence base d)
    \<and> f_le (adjust_confidence base d) MAX_LEARNED_CONFIDENCE"
proof -
  let ?p = "card (positives overlay rule)" and ?n = "card (negatives overlay rule)"
  have d: "d = confidence_delta ?p ?n"
    using assms(2) by (simp add: adjustments_get split: if_splits)
  have le: "?p + ?n + 2 \<le> 2 ^ 24"
    using counts_bound [of overlay rule] assms(1) by linarith
  then have b: "f_le (f_neg MAX_CONFIDENCE_DELTA) d" "f_le d MAX_CONFIDENCE_DELTA"
    using confidence_delta_bounds [of ?p ?n] by (simp_all add: d)
  then have fin: "\<not> f_is_nan d" "f_is_finite d"
    by (cases d; auto simp: f_le_def f_is_nan_def f_is_finite_def disposition_constants)+
  have "f_lt (Fin 0) d \<longrightarrow> ?n < ?p" "f_lt d (Fin 0) \<longrightarrow> ?p < ?n"
    using delta_sign [OF le] by (metis d f_le_def not_le)+
  then show ?thesis using b d adjust_confidence_bounds [OF assms(3) fin] by blast
qed

definition sample_record :: "string \<Rightarrow> disposition \<Rightarrow> disposition_record" where
  "sample_record fp d =
     \<lparr>dr_fingerprint = fp, dr_rule_id = ''R'', dr_sha256 = None, dr_disposition = d, dr_recorded_at = 0, dr_note = None\<rparr>"

definition sample_overlay :: disposition_overlay where
  "sample_overlay =
     \<lparr>do_schema_version = POLICY_SCHEMA_VERSION,
      do_records = [sample_record ''a'' FalsePositive, sample_record ''a'' TruePositive, sample_record ''b'' TruePositive]\<rparr>"

lemma sample_learned:
  "learned_confidence_adjustments sample_overlay = [(''R'', Fin (5033165 / 67108864))]"
  "learned_allowlist sample_overlay = []"
proof -
  have "per_rule_counts sample_overlay = [(''R'', 2, 0)]" by code_simp
  then show "learned_confidence_adjustments sample_overlay = [(''R'', Fin (5033165 / 67108864))]"
      "learned_allowlist sample_overlay = []"
    by (simp_all add: learned_confidence_adjustments_def learned_allowlist_def ALLOWLIST_MIN_FP_SAMPLES_def delta_2_0)
qed

lemma learned_adjustment_bounded_witness:
  "f_le (the (map_of (learned_confidence_adjustments sample_overlay) ''R'')) MAX_CONFIDENCE_DELTA
   \<and> card (negatives sample_overlay ''R'') < card (positives sample_overlay ''R'')"
proof -
  have d: "map_of (learned_confidence_adjustments sample_overlay) ''R'' = Some (Fin (5033165 / 67108864))"
      "f_lt (Fin 0) (Fin (5033165 / 67108864))"
    by (simp_all add: sample_learned)
  have l: "length (do_records sample_overlay) + 2 \<le> 2 ^ 24" by (simp add: sample_overlay_def)
  have n: "\<not> f_is_nan (Fin 1)" by (simp add: f_is_nan_def)
  from learned_adjustment_bounded [OF l d(1) n] d show ?thesis by (metis option.sel)
qed

text \<open>
  a rule is on the learned allowlist only when the analysts' last labels call at least eight of its
  findings noise and more than five times as many noise as not; an overlay with fewer labels demotes nothing.
\<close>

theorem learned_allowlist_evidence:
  assumes "length (do_records overlay) + 2 \<le> 2 ^ 24" and "rule \<in> set (learned_allowlist overlay)"
  shows "8 \<le> card (negatives overlay rule) \<and> 5 * card (positives overlay rule) + 4 < card (negatives overlay rule)"
proof -
  from assms(2) obtain tp fp where m: "(rule, tp, fp) \<in> set (per_rule_counts overlay)"
    and a: "8 \<le> fp" "f_lt (smoothed_tp_rate tp fp) ALLOWLIST_MAX_TP_RATE"
    by (auto simp: learned_allowlist_def ALLOWLIST_MIN_FP_SAMPLES_def)
  have c: "tp = card (positives overlay rule)" "fp = card (negatives overlay rule)"
    using counts_mem_card [OF m] by blast+
  have le: "tp + fp + 2 \<le> 2 ^ 24"
    using counts_bound [of overlay rule] assms(1) by (simp add: c)
  show ?thesis using allowlist_rate [OF le a(2)] a(1) by (simp add: c)
qed

definition noisy_overlay :: disposition_overlay where
  "noisy_overlay =
     \<lparr>do_schema_version = POLICY_SCHEMA_VERSION,
      do_records = map (\<lambda>fp. sample_record fp FalsePositive)
        [''a'', ''b'', ''c'', ''d'', ''e'', ''f'', ''g'', ''h'']\<rparr>"

lemma learned_allowlist_evidence_witness:
  "learned_allowlist noisy_overlay = [''R''] \<and> 4 < card (negatives noisy_overlay ''R'')"
proof -
  have r: "learned_allowlist noisy_overlay = [''R'']" by code_simp
  have l: "length (do_records noisy_overlay) + 2 \<le> 2 ^ 24" by (simp add: noisy_overlay_def)
  show ?thesis using learned_allowlist_evidence [OF l, of "''R''"] r by simp
qed

end
