(* ===== verification/Scan_Filter.thy ===== *)
theory Scan_Filter
  imports Disposition
begin

text \<open>
  \<open>ScanFilterService\<close> (\<open>services/scan_filter/mod.rs\<close>): the policy state applied to the findings of a scan (overrides,
  analyst feedback, the severity and rule selection, waivers, the baseline) and the decision whether the run fails.

  Shown: the stages as one specification over the findings, from which: the survivors do not depend on the order
  of the suppression stages; a finding an override escalated to \<open>Block\<close> survives every selection filter; what an overlay
  can change; when the run fails, and that nothing a suppression or an allowlist does can make it fail.
\<close>

section \<open>Service\<close>

datatype scan_target_mode = Target_Auto | Target_File | Target_Package

record scan_options =
  so_min_severity :: "severity option"
  so_fail_on :: "severity option"
  so_profile :: "policy_profile option"
  so_include_rules :: "string list"
  so_exclude_rules :: "string list"
  so_target_mode :: scan_target_mode

record scan_filter_service =
  fs_min_severity :: "severity option"
  fs_fail_on :: "severity option"
  fs_include_rules :: "string list"
  fs_exclude_rules :: "string list"
  fs_profile :: "policy_profile option"
  fs_target_mode :: scan_target_mode
  fs_baseline :: "baseline_file option"
  fs_waivers :: "waiver_file option"
  fs_policy :: "policy_file option"
  fs_disposition :: "disposition_overlay option"

record filter_outcome =
  fo_findings :: "finding list"
  fo_suppression_summary :: suppression_summary
  fo_applied_overrides :: "applied_policy_override list"

definition with_policy_state ::
    "scan_options \<Rightarrow> baseline_file option \<Rightarrow> waiver_file option \<Rightarrow> policy_file option \<Rightarrow> disposition_overlay option
     \<Rightarrow> scan_filter_service" where
  "with_policy_state options baseline waivers policy disposition =
     \<lparr>fs_min_severity = so_min_severity options, fs_fail_on = so_fail_on options,
      fs_include_rules = bset_collect (so_include_rules options),
      fs_exclude_rules = bset_collect (so_exclude_rules options),
      fs_profile = so_profile options, fs_target_mode = so_target_mode options,
      fs_baseline = baseline, fs_waivers = waivers, fs_policy = policy, fs_disposition = disposition\<rparr>"

definition new_service :: "scan_options \<Rightarrow> scan_filter_service" where
  "new_service options = with_policy_state options None None None None"

definition passes_min_severity :: "scan_filter_service \<Rightarrow> finding \<Rightarrow> bool" where
  "passes_min_severity s f = (case fs_min_severity s of Some m \<Rightarrow> m \<le> f_severity f | None \<Rightarrow> True)"

definition passes_rule_filters :: "scan_filter_service \<Rightarrow> finding \<Rightarrow> bool" where
  "passes_rule_filters s f =
     (if fs_include_rules s \<noteq> [] \<and> rule_id f \<notin> set (fs_include_rules s) then False
      else rule_id f \<notin> set (fs_exclude_rules s))"

definition F32_EPSILON :: f32 where
  "F32_EPSILON = Fin (1 / 2 ^ 23)"

fun f_abs :: "f32 \<Rightarrow> f32" where
  "f_abs (Fin x) = Fin \<bar>x\<bar>"
| "f_abs NegInf = PosInf"
| "f_abs x = x"

text \<open>The closure the findings are mapped through, which also counts.\<close>

definition disposition_step ::
    "string list \<Rightarrow> (string \<times> f32) list \<Rightarrow> finding \<Rightarrow> nat \<times> nat \<Rightarrow> finding \<times> nat \<times> nat" where
  "disposition_step allowlist deltas f counts =
     (let (adjusted, allowlisted) = counts;
          (f, adjusted) =
            (case map_of deltas (rule_id f) of
               None \<Rightarrow> (f, adjusted)
             | Some delta \<Rightarrow>
                 let new_conf = adjust_confidence (confidence f) delta
                 in if f_lt F32_EPSILON (f_abs (f_sub new_conf (confidence f)))
                    then (f\<lparr>confidence := new_conf\<rparr>, adjusted + 1) else (f, adjusted));
          (f, allowlisted) =
            (if rule_id f \<in> set allowlist \<and> f_action f \<noteq> Log
             then (f\<lparr>f_action := Log\<rparr>, allowlisted + 1) else (f, allowlisted))
      in (f, adjusted, allowlisted))"

fun disposition_findings ::
    "string list \<Rightarrow> (string \<times> f32) list \<Rightarrow> finding list \<Rightarrow> nat \<times> nat \<Rightarrow> finding list \<times> nat \<times> nat" where
  "disposition_findings allowlist deltas [] counts = ([], counts)"
| "disposition_findings allowlist deltas (f # fs) counts =
     (let (f', counts') = disposition_step allowlist deltas f counts;
          (fs', counts'') = disposition_findings allowlist deltas fs counts'
      in (f' # fs', counts''))"

definition apply_disposition_stage :: "scan_filter_service \<Rightarrow> finding list \<Rightarrow> finding list \<times> nat \<times> nat" where
  "apply_disposition_stage s findings =
     (case fs_disposition s of
        None \<Rightarrow> (findings, 0, 0)
      | Some overlay \<Rightarrow>
          disposition_findings (learned_allowlist overlay) (learned_confidence_adjustments overlay) findings (0, 0))"

definition apply_severity_filter_with_overrides ::
    "(string \<Rightarrow> string) \<Rightarrow> scan_filter_service \<Rightarrow> finding list \<Rightarrow> string list \<Rightarrow> finding list" where
  "apply_severity_filter_with_overrides sha s findings block_overridden_fingerprints =
     filter (\<lambda>f.
         if finding_fingerprint sha f \<in> set block_overridden_fingerprints then True
         else if \<not> passes_rule_filters s f then False
         else if f_action f = Block then True
         else passes_min_severity s f) findings"

definition apply_waivers_stage :: "instant \<Rightarrow> scan_filter_service \<Rightarrow> finding list \<Rightarrow> finding list \<times> nat" where
  "apply_waivers_stage now s findings =
     (let pre_count = length findings; kept = apply_waivers now findings (fs_waivers s)
      in (kept, pre_count - length kept))"

definition apply_baseline_stage ::
    "(string \<Rightarrow> string) \<Rightarrow> scan_filter_service \<Rightarrow> finding list \<Rightarrow> finding list \<times> nat" where
  "apply_baseline_stage sha s findings =
     (let suppressed = count_baseline_matches sha findings (fs_baseline s)
      in (apply_baseline sha findings (fs_baseline s), suppressed))"

definition apply_overrides_stage ::
    "(string \<Rightarrow> string) \<Rightarrow> instant \<Rightarrow> scan_filter_service \<Rightarrow> finding list
     \<Rightarrow> finding list \<times> applied_policy_override list" where
  "apply_overrides_stage sha now s findings = apply_policy_overrides_with_audit sha now findings (fs_policy s)"

text \<open>The overrides and the waivers each read the clock: \<open>now\<close> and \<open>later\<close>.\<close>

definition filter_with_summary ::
    "(string \<Rightarrow> string) \<Rightarrow> instant \<Rightarrow> instant \<Rightarrow> scan_filter_service \<Rightarrow> finding list \<Rightarrow> filter_outcome" where
  "filter_with_summary sha now later s findings =
     (let (findings, applied) = apply_overrides_stage sha now s findings;
          (findings, adjusted, allowlisted) = apply_disposition_stage s findings;
          block_overridden =
            bset_collect (map ao_fingerprint (filter (\<lambda>ov. ao_effective_action ov = Block) applied));
          findings = apply_severity_filter_with_overrides sha s findings block_overridden;
          (findings, waiver_count) = apply_waivers_stage later s findings;
          (findings, baseline_count) = apply_baseline_stage sha s findings
      in \<lparr>fo_findings = findings,
          fo_suppression_summary =
            \<lparr>baseline_suppressed = baseline_count, waiver_suppressed = waiver_count, inline_suppressed = 0,
             disposition_adjusted = adjusted, disposition_allowlisted = allowlisted,
             active_findings = length (filter (\<lambda>f. f_action f \<noteq> Log) findings)\<rparr>,
          fo_applied_overrides = applied\<rparr>)"

definition filter_findings ::
    "(string \<Rightarrow> string) \<Rightarrow> instant \<Rightarrow> instant \<Rightarrow> scan_filter_service \<Rightarrow> finding list \<Rightarrow> finding list" where
  "filter_findings sha now later s findings = fo_findings (filter_with_summary sha now later s findings)"

definition fail_on :: "scan_filter_service \<Rightarrow> severity option" where
  "fail_on s =
     (case fs_fail_on s of
        Some sev \<Rightarrow> Some sev
      | None \<Rightarrow>
          Option.bind (fs_profile s) (\<lambda>profile.
            case fs_policy s of None \<Rightarrow> default_fail_on profile | Some p \<Rightarrow> resolve_fail_on p profile))"

definition should_fail :: "scan_filter_service \<Rightarrow> finding list \<Rightarrow> bool" where
  "should_fail s findings =
     (case fail_on s of
        None \<Rightarrow> False
      | Some sev \<Rightarrow> list_ex (\<lambda>f. f_action f = Block \<or> sev \<le> f_severity f \<and> f_action f \<noteq> Log) findings)"

section \<open>The stages as maps and filters\<close>

definition adjusted_confidence :: "disposition_overlay option \<Rightarrow> finding \<Rightarrow> f32" where
  "adjusted_confidence overlay f =
     (case overlay of
        None \<Rightarrow> confidence f
      | Some o' \<Rightarrow>
          (case map_of (learned_confidence_adjustments o') (rule_id f) of
             None \<Rightarrow> confidence f
           | Some delta \<Rightarrow>
               let c = adjust_confidence (confidence f) delta
               in if f_lt F32_EPSILON (f_abs (f_sub c (confidence f))) then c else confidence f))"

definition allowlisted_rule :: "disposition_overlay option \<Rightarrow> string \<Rightarrow> bool" where
  "allowlisted_rule overlay rule \<longleftrightarrow> (case overlay of None \<Rightarrow> False | Some o' \<Rightarrow> rule \<in> set (learned_allowlist o'))"

text \<open>What feedback makes of a finding.\<close>

definition reviewed :: "disposition_overlay option \<Rightarrow> finding \<Rightarrow> finding" where
  "reviewed overlay f =
     f\<lparr>confidence := adjusted_confidence overlay f,
       f_action := if allowlisted_rule overlay (rule_id f) then Log else f_action f\<rparr>"

lemma disposition_step_fst:
  "fst (disposition_step (learned_allowlist o') (learned_confidence_adjustments o') f c) = reviewed (Some o') f"
  by (cases f)
     (auto simp: disposition_step_def reviewed_def adjusted_confidence_def allowlisted_rule_def Let_def case_prod_unfold
        split: option.split)

lemma disposition_findings_fst:
  "fst (disposition_findings (learned_allowlist o') (learned_confidence_adjustments o') fs c) = map (reviewed (Some o')) fs"
  by (induction fs arbitrary: c) (simp_all add: case_prod_unfold disposition_step_fst Let_def)

lemma reviewed_None [simp]: "reviewed None f = f"
  by (simp add: reviewed_def adjusted_confidence_def allowlisted_rule_def)

lemma disposition_stage_fst: "fst (apply_disposition_stage s fs) = map (reviewed (fs_disposition s)) fs"
  by (simp add: apply_disposition_stage_def disposition_findings_fst map_idI split: option.split)

lemma reviewed_invariants [simp]:
  "finding_fingerprint sha (reviewed ov f) = finding_fingerprint sha f"
  "waived now ws (reviewed ov f) = waived now ws f"
  "baselined sha bl (reviewed ov f) = baselined sha bl f"
  "f_severity (reviewed ov f) = f_severity f"
  "rule_id (reviewed ov f) = rule_id f"
  by (simp_all add: reviewed_def)

text \<open>A finding as overrides and feedback leave it, and the action it then has.\<close>

definition processed :: "instant \<Rightarrow> scan_filter_service \<Rightarrow> finding \<Rightarrow> finding" where
  "processed now s f = reviewed (fs_disposition s) (overridden now (policy_overrides (fs_policy s)) f)"

definition effective_action :: "instant \<Rightarrow> scan_filter_service \<Rightarrow> finding \<Rightarrow> recommended_action" where
  "effective_action now s f =
     (if allowlisted_rule (fs_disposition s) (rule_id f) then Log
      else case match_override now f (policy_overrides (fs_policy s)) of None \<Rightarrow> f_action f | Some po \<Rightarrow> po_action po)"

definition escalated :: "instant \<Rightarrow> scan_filter_service \<Rightarrow> finding \<Rightarrow> bool" where
  "escalated now s f \<longleftrightarrow>
     (case match_override now f (policy_overrides (fs_policy s)) of None \<Rightarrow> False | Some po \<Rightarrow> po_action po = Block)"

text \<open>The selection stage keeps a finding when an escalated one has its fingerprint, or it passes the filters.\<close>

definition selected :: "(string \<Rightarrow> string) \<Rightarrow> instant \<Rightarrow> scan_filter_service \<Rightarrow> finding list \<Rightarrow> finding \<Rightarrow> bool" where
  "selected sha now s fs f \<longleftrightarrow>
     (\<exists>g\<in>set fs. escalated now s g \<and> finding_fingerprint sha g = finding_fingerprint sha f)
     \<or> passes_rule_filters s f \<and> (effective_action now s f = Block \<or> passes_min_severity s f)"

lemma processed_invariants [simp]:
  "finding_fingerprint sha (processed now s f) = finding_fingerprint sha f"
  "waived t ws (processed now s f) = waived t ws f"
  "baselined sha bl (processed now s f) = baselined sha bl f"
  "f_severity (processed now s f) = f_severity f"
  "rule_id (processed now s f) = rule_id f"
  by (simp_all add: processed_def overridden_def split: option.split)

lemma processed_action [simp]: "f_action (processed now s f) = effective_action now s f"
  by (simp add: processed_def reviewed_def effective_action_def overridden_def split: option.split)

lemma passes_processed [simp]:
  "passes_rule_filters s (processed now s' f) = passes_rule_filters s f"
  "passes_min_severity s (processed now s' f) = passes_min_severity s f"
  by (simp_all add: passes_rule_filters_def passes_min_severity_def split: option.split)

lemma escalated_iff:
  "escalated now s f \<longleftrightarrow> (\<exists>po. match_override now f (policy_overrides (fs_policy s)) = Some po \<and> po_action po = Block)"
  by (simp add: escalated_def split: option.split)

lemma audit_entries_Cons:
  "audit_entries sha now os (f # fs) =
     (case match_override now f os of None \<Rightarrow> [] | Some po \<Rightarrow> [build_audit_entry sha f po (f_action f)])
     @ audit_entries sha now os fs"
  by (simp add: audit_entries_def)

lemma audit_entry_fields [simp]:
  "ao_fingerprint (build_audit_entry sha f po a) = finding_fingerprint sha f"
  "ao_effective_action (build_audit_entry sha f po a) = po_action po"
  by (simp_all add: build_audit_entry_def)

lemma block_overridden:
  "fp \<in> set (map ao_fingerprint (filter (\<lambda>ov. ao_effective_action ov = Block)
        (audit_entries sha now (policy_overrides (fs_policy s)) fs))) \<longleftrightarrow>
   (\<exists>g\<in>set fs. escalated now s g \<and> finding_fingerprint sha g = fp)"
proof (induction fs)
  case (Cons f fs)
  show ?case
  proof (cases "match_override now f (policy_overrides (fs_policy s))")
    case None
    then show ?thesis using Cons by (simp add: audit_entries_Cons escalated_iff)
  next
    case (Some po)
    then show ?thesis using Cons by (cases "po_action po = Block") (auto simp: audit_entries_Cons escalated_iff)
  qed
qed (simp add: audit_entries_def)

lemma selection_stage:
  "apply_severity_filter_with_overrides sha s (map (processed now s) fs)
     (bset_collect (map ao_fingerprint (filter (\<lambda>ov. ao_effective_action ov = Block)
        (audit_entries sha now (policy_overrides (fs_policy s)) fs))))
   = map (processed now s) (filter (selected sha now s fs) fs)"
proof -
  have sel: "selected sha now s fs = (\<lambda>f.
      if \<exists>g\<in>set fs. escalated now s g \<and> finding_fingerprint sha g = finding_fingerprint sha f then True
      else if \<not> passes_rule_filters s f then False
      else if effective_action now s f = Block then True
      else passes_min_severity s f)"
    unfolding selected_def by auto
  show ?thesis
    unfolding apply_severity_filter_with_overrides_def sel filter_map comp_def bset_collect_set block_overridden
      processed_invariants processed_action passes_processed ..
qed

lemma filter_outcome_findings:
  "filter_findings sha now later s fs =
     map (processed now s)
       (filter (\<lambda>f. selected sha now s fs f \<and> \<not> waived later (fs_waivers s) f \<and> \<not> baselined sha (fs_baseline s) f) fs)"
proof -
  have p: "map (reviewed (fs_disposition s)) (map (overridden now (policy_overrides (fs_policy s))) fs)
      = map (processed now s) fs"
    by (simp add: processed_def)
  show ?thesis
    by (simp add: filter_findings_def filter_with_summary_def apply_overrides_stage_def apply_overrides_eq case_prod_unfold
        Let_def disposition_stage_fst p selection_stage apply_waivers_stage_def apply_baseline_stage_def
        apply_waivers_filter apply_baseline_filter filter_map comp_def conj_assoc del: map_map)
qed


lemma outcome_suppressed:
  "waiver_suppressed (fo_suppression_summary (filter_with_summary sha now later s fs)) =
     length (filter (\<lambda>f. selected sha now s fs f \<and> waived later (fs_waivers s) f) fs)"
  "baseline_suppressed (fo_suppression_summary (filter_with_summary sha now later s fs)) =
     length (filter (\<lambda>f. selected sha now s fs f \<and> \<not> waived later (fs_waivers s) f \<and> baselined sha (fs_baseline s) f) fs)"
proof -
  have p: "map (reviewed (fs_disposition s)) (map (overridden now (policy_overrides (fs_policy s))) fs)
      = map (processed now s) fs"
    by (simp add: processed_def)
  note defs = filter_with_summary_def apply_overrides_stage_def apply_overrides_eq case_prod_unfold
    Let_def disposition_stage_fst p selection_stage apply_waivers_stage_def apply_baseline_stage_def
    apply_waivers_filter apply_baseline_filter count_baseline_filter
  have l: "length xs - length (filter (\<lambda>x. \<not> P x) xs) = length (filter P xs)" for P and xs :: "finding list"
    using sum_length_filter_compl [of P xs] by linarith
  show "waiver_suppressed (fo_suppression_summary (filter_with_summary sha now later s fs)) =
      length (filter (\<lambda>f. selected sha now s fs f \<and> waived later (fs_waivers s) f) fs)"
    by (simp add: defs l filter_map comp_def del: map_map)
  show "baseline_suppressed (fo_suppression_summary (filter_with_summary sha now later s fs)) =
      length (filter (\<lambda>f. selected sha now s fs f \<and> \<not> waived later (fs_waivers s) f \<and> baselined sha (fs_baseline s) f) fs)"
    by (simp add: defs filter_map comp_def conj_assoc del: map_map)
qed

section \<open>Properties\<close>



definition sample_service :: scan_filter_service where
  "sample_service =
     \<lparr>fs_min_severity = Some Critical, fs_fail_on = None, fs_include_rules = [], fs_exclude_rules = [''R1''],
      fs_profile = Some Personal, fs_target_mode = Target_Auto, fs_baseline = None, fs_waivers = Some sample_waivers,
      fs_policy = Some
        (default_policy_file\<lparr>pf_overrides :=
           [\<lparr>po_id = None, po_rule_id = Some ''r1'', po_artifact_path = None, po_context = None, po_action = Block,
             po_reason = ''halt'', po_expires_at = None\<rparr>]\<rparr>),
      fs_disposition = None\<rparr>"


text \<open>
  the run fails exactly when a threshold is in force (the flag, else that of the policy's or the built-in profile)
  and some selected finding that is neither waived nor baselined ends with the action \<open>Block\<close>, or reaches the threshold with an
  action other than \<open>Log\<close>, its action being that of the override in force if there is one, and \<open>Log\<close> for an allowlisted rule.
\<close>

theorem run_fails_iff:
  "should_fail s (filter_findings sha now later s fs) \<longleftrightarrow>
     (\<exists>sev f. fail_on s = Some sev
        \<and> f \<in> set (apply_baseline sha (apply_waivers later fs (fs_waivers s)) (fs_baseline s))
        \<and> selected sha now s fs f
        \<and> (effective_action now s f = Block \<or> sev \<le> f_severity f \<and> effective_action now s f \<noteq> Log))"
  by (auto simp: should_fail_def filter_outcome_findings list_ex_iff apply_waivers_filter apply_baseline_filter
        split: option.split)

text \<open>
  feedback, waivers and a baseline can only keep a run from failing: a run that fails under them fails
  without them too.
\<close>

theorem suppression_never_fails_a_run:
  assumes "should_fail s (filter_findings sha now later s fs)"
    and "s' = s\<lparr>fs_disposition := None, fs_waivers := None, fs_baseline := None\<rparr>"
  shows "should_fail s' (filter_findings sha now later s' fs)"
proof -
  obtain sev f where f: "fail_on s = Some sev"
      "f \<in> set (filter (\<lambda>f. \<not> baselined sha (fs_baseline s) f) (filter (\<lambda>f. \<not> waived later (fs_waivers s) f) fs))"
      "selected sha now s fs f"
      "effective_action now s f = Block \<or> sev \<le> f_severity f \<and> effective_action now s f \<noteq> Log"
    using assms(1) unfolding run_fails_iff apply_waivers_filter apply_baseline_filter by blast
  have same: "passes_rule_filters s' g = passes_rule_filters s g" "passes_min_severity s' g = passes_min_severity s g"
      "escalated now s' g = escalated now s g" "fail_on s' = fail_on s" for g
    by (simp_all add: assms(2) passes_rule_filters_def passes_min_severity_def escalated_def fail_on_def split: option.split)
  have act: "effective_action now s g = Log \<or> effective_action now s g = effective_action now s' g" for g
    by (simp add: assms(2) effective_action_def allowlisted_rule_def)
  have "selected sha now s' fs f"
    using f(3) act [of f] unfolding selected_def same by auto
  moreover have "effective_action now s' f = Block \<or> sev \<le> f_severity f \<and> effective_action now s' f \<noteq> Log"
    using f(4) act [of f] by auto
  ultimately show ?thesis
    using f(1,2) unfolding run_fails_iff apply_waivers_filter apply_baseline_filter same
    by (auto simp: assms(2) waived_def baselined_def)
qed

lemma suppression_never_fails_a_run_witness:
  "should_fail (sample_service\<lparr>fs_waivers := None\<rparr>)
     (filter_findings (\<lambda>x. x) 0 20 (sample_service\<lparr>fs_waivers := None\<rparr>) [sample_finding])"
proof -
  have "should_fail sample_service (filter_findings (\<lambda>x. x) 0 20 sample_service [sample_finding])" by code_simp
  from suppression_never_fails_a_run [OF this refl] show ?thesis by (simp add: sample_service_def)
qed

text \<open>Feedback is not only reducing: true positives raise the confidence of later findings of the rule.\<close>

lemma feedback_can_raise_confidence:
  "map confidence (filter_findings (\<lambda>x. x) 0 20
       (new_service \<lparr>so_min_severity = None, so_fail_on = None, so_profile = None, so_include_rules = [],
          so_exclude_rules = [], so_target_mode = Target_Auto\<rparr>\<lparr>fs_disposition := Some sample_overlay\<rparr>)
       [sample_finding\<lparr>rule_id := ''R'', confidence := Fin (1 / 8)\<rparr>]) = [Fin (13421773 / 67108864)]"
  by (simp add: filter_outcome_findings new_service_def with_policy_state_def selected_def passes_rule_filters_def
      passes_min_severity_def waived_def baselined_def policy_overrides_def processed_def reviewed_def
      adjusted_confidence_def allowlisted_rule_def sample_learned adjusted_2_0 [unfolded delta_2_0] F32_EPSILON_def f_sub_def
      f32_of_rat_exact [of 5033165 26, simplified] bset_collect_def)

end
