(* ===== verification/Root_Causes.thy ===== *)
theory Root_Causes
  imports Builder
begin

text \<open>
  \<open>verdict/root_causes.rs\<close>: the findings grouped by (scope, category, signal class), and the merge
  of groups whose calibration gave them the same key. The contract is \<open>group_spec\<close>: what a key's
  group must say about the findings of that key; \<open>build_root_cause_groups\<close> yields exactly the
  specified groups, once each, strongest action first.
\<close>

definition MAX_REPRESENTATIVE_RULES :: nat where
  "MAX_REPRESENTATIVE_RULES = 5"

type_synonym group_id = "artifact_scope \<times> threat_category \<times> signal_class"

definition finding_key :: "finding \<Rightarrow> group_id" where
  "finding_key f = (f_artifact_scope f, category f, f_signal_class f)"

definition group_key :: "root_cause_group \<Rightarrow> group_id" where
  "group_key g = (g_scope g, g_category g, g_signal_class g)"

section \<open>Grouping\<close>

definition new_group :: "finding \<Rightarrow> root_cause_group" where
  "new_group f =
     \<lparr>g_scope = f_artifact_scope f, g_category = category f, g_signal_class = f_signal_class f,
      finding_count = 1, strongest_action = f_action f, representative_rules = [rule_id f]\<rparr>"

definition extend_group :: "finding \<Rightarrow> root_cause_group \<Rightarrow> root_cause_group" where
  "extend_group f g =
     g\<lparr>finding_count := finding_count g + 1,
       strongest_action := max (strongest_action g) (f_action f),
       representative_rules := push_new (rule_id f) (representative_rules g)\<rparr>"

fun group_entry :: "finding \<Rightarrow> root_cause_group option \<Rightarrow> root_cause_group" where
  "group_entry f None = new_group f"
| "group_entry f (Some g) = extend_group f g"

definition group_map :: "finding list \<Rightarrow> (group_id \<times> root_cause_group) list" where
  "group_map fs = foldl (\<lambda>m f. bt_entry (finding_key f) (group_entry f) m) [] fs"

definition group_order :: "root_cause_group \<Rightarrow> root_cause_group \<Rightarrow> ordering" where
  "group_order l r =
     then_with (ord_cmp (strongest_action r) (strongest_action l))
       (ord_cmp (finding_count r) (finding_count l))"

definition finish_group :: "root_cause_group \<Rightarrow> root_cause_group" where
  "finish_group g =
     g\<lparr>representative_rules := take MAX_REPRESENTATIVE_RULES (sort (representative_rules g))\<rparr>"

definition build_root_cause_groups :: "finding list \<Rightarrow> root_cause_group list" where
  "build_root_cause_groups fs = sort_by group_order (map (\<lambda>e. finish_group (snd e)) (group_map fs))"

section \<open>Merging\<close>

definition merge_group :: "root_cause_group \<Rightarrow> root_cause_group \<Rightarrow> root_cause_group" where
  "merge_group g existing =
     existing\<lparr>finding_count := finding_count existing + finding_count g,
       strongest_action := max (strongest_action existing) (strongest_action g),
       representative_rules := take MAX_REPRESENTATIVE_RULES
         (sort (foldl (\<lambda>acc r. push_new r acc) (representative_rules existing)
           (representative_rules g)))\<rparr>"

fun merge_entry :: "root_cause_group \<Rightarrow> root_cause_group option \<Rightarrow> root_cause_group" where
  "merge_entry g None = g"
| "merge_entry g (Some existing) = merge_group g existing"

definition merge_map :: "root_cause_group list \<Rightarrow> (group_id \<times> root_cause_group) list" where
  "merge_map gs = foldl (\<lambda>m g. bt_entry (group_key g) (merge_entry g) m) [] gs"

definition merge_calibrated_groups :: "root_cause_group list \<Rightarrow> root_cause_group list" where
  "merge_calibrated_groups gs = sort_by group_order (map snd (merge_map gs))"

section \<open>Order of the result\<close>

interpretation group_order: comparator_laws group_order
  unfolding group_order_def [abs_def]
  by (intro comparator_then comparator_key_desc)

lemma group_order_le:
  "group_order a b \<noteq> Greater \<longleftrightarrow>
     strongest_action b < strongest_action a
     \<or> strongest_action b = strongest_action a \<and> finding_count b \<le> finding_count a"
  unfolding group_order_def then_with_Greater by (auto simp: ord_cmp_def)

section \<open>The groups that the findings specify\<close>

definition findings_of_key :: "finding list \<Rightarrow> group_id \<Rightarrow> finding list" where
  "findings_of_key fs k = filter (\<lambda>f. finding_key f = k) fs"

definition group_spec :: "finding list \<Rightarrow> group_id \<Rightarrow> root_cause_group" where
  "group_spec fs k =
     \<lparr>g_scope = fst k, g_category = fst (snd k), g_signal_class = snd (snd k),
      finding_count = length (findings_of_key fs k),
      strongest_action = Max (f_action ` set (findings_of_key fs k)),
      representative_rules =
        take MAX_REPRESENTATIVE_RULES (sorted_list_of_set (rule_id ` set (findings_of_key fs k)))\<rparr>"

lemma group_fold_some:
  "foldl (\<lambda>o' f. Some (group_entry f o')) (Some g) fs =
     Some (g\<lparr>finding_count := finding_count g + length fs,
             strongest_action := foldl max (strongest_action g) (map f_action fs),
             representative_rules :=
               foldl (\<lambda>acc r. push_new r acc) (representative_rules g) (map rule_id fs)\<rparr>)"
  by (induction fs arbitrary: g) (simp_all add: extend_group_def)

lemma sort_eq_sorted_list_of_set: "distinct xs \<Longrightarrow> sort xs = sorted_list_of_set (set xs)"
  by (metis sorted_list_of_set_sort_remdups distinct_remdups_id)

lemma group_fold_spec:
  assumes "fs \<noteq> []" "\<forall>f\<in>set fs. finding_key f = k"
  shows "\<exists>g. foldl (\<lambda>o' f. Some (group_entry f o')) None fs = Some g
           \<and> group_key g = k \<and> finish_group g = group_spec fs k"
proof -
  obtain f rest where fs: "fs = f # rest" using assms(1) by (cases fs) auto
  let ?rules = "foldl (\<lambda>acc r. push_new r acc) [rule_id f] (map rule_id rest)"
  have all: "findings_of_key fs k = fs" using assms(2) by (simp add: findings_of_key_def)
  have rules: "sort ?rules = sorted_list_of_set (rule_id ` set fs)"
    using sort_eq_sorted_list_of_set [OF foldl_push_new_distinct [of "[rule_id f]" "map rule_id rest"]]
    by (simp add: foldl_push_new_set fs)
  have act: "foldl max (f_action f) (map f_action rest) = Max (f_action ` set fs)"
    by (simp add: foldl_max_Max fs)
  have key: "f_artifact_scope f = fst k" "category f = fst (snd k)" "f_signal_class f = snd (snd k)"
    using assms(2) by (auto simp: fs finding_key_def)
  show ?thesis
    using rules act key
    by (simp add: fs group_fold_some new_group_def finish_group_def group_key_def
        group_spec_def all [unfolded fs])
qed

lemma group_map_get:
  "map_of (group_map fs) k = foldl (\<lambda>o' f. Some (group_entry f o')) None (findings_of_key fs k)"
  using bt.get_fold [OF bt.invar_empty] by (simp add: group_map_def findings_of_key_def)

lemma group_map_invar: "bt_invar (group_map fs)"
  unfolding group_map_def by (rule bt.invar_fold [OF bt.invar_empty])

lemma group_map_keys: "fst ` set (group_map fs) = finding_key ` set fs"
  unfolding group_map_def by (rule bt.keys_fold)

lemma findings_of_key_idem: "findings_of_key (findings_of_key fs k) k = findings_of_key fs k"
  by (simp add: findings_of_key_def)

lemma group_spec_own: "group_spec (findings_of_key fs k) k = group_spec fs k"
  by (simp add: group_spec_def findings_of_key_idem)

lemma findings_of_key_Nil: "findings_of_key fs k = [] \<longleftrightarrow> k \<notin> finding_key ` set fs"
  by (auto simp: findings_of_key_def filter_empty_conv)

lemma group_map_item:
  assumes "(k, g) \<in> set (group_map fs)"
  shows "group_key g = k" "finish_group g = group_spec fs k"
proof -
  have "map_of (group_map fs) k = Some g"
    using assms bt.items_iff [OF group_map_invar] by blast
  moreover have "findings_of_key fs k \<noteq> []"
    using assms group_map_keys [of fs] by (force simp: findings_of_key_Nil)
  then have "\<exists>g. foldl (\<lambda>o' f. Some (group_entry f o')) None (findings_of_key fs k) = Some g
           \<and> group_key g = k \<and> finish_group g = group_spec (findings_of_key fs k) k"
    by (rule group_fold_spec) (simp add: findings_of_key_def)
  ultimately show "group_key g = k" "finish_group g = group_spec fs k"
    by (auto simp: group_map_get group_spec_own)
qed

lemma group_key_finish [simp]: "group_key (finish_group g) = group_key g"
  by (simp add: finish_group_def group_key_def)

lemma group_key_spec [simp]: "group_key (group_spec fs k) = k"
  by (simp add: group_key_def group_spec_def)

lemma build_groups_finished:
  "map (\<lambda>e. finish_group (snd e)) (group_map fs) = map (group_spec fs) (map fst (group_map fs))"
  using group_map_item(2) by fastforce

lemma build_groups_set:
  "set (build_root_cause_groups fs) = group_spec fs ` finding_key ` set fs"
  unfolding build_root_cause_groups_def set_sort_by build_groups_finished set_map group_map_keys ..

lemma build_groups_keys_distinct: "distinct (map group_key (build_root_cause_groups fs))"
  unfolding build_root_cause_groups_def distinct_map_sort_by build_groups_finished
  using bt.items_distinct [OF group_map_invar] by (simp add: comp_def)

lemma build_groups_sorted:
  "sorted_wrt (\<lambda>a b. group_order a b \<noteq> Greater) (build_root_cause_groups fs)"
  unfolding build_root_cause_groups_def by (rule group_order.sort_by_sorted)

lemma build_groups_total: "sum_list (map finding_count (build_root_cause_groups fs)) = length fs"
proof -
  have "sum_list (map finding_count (build_root_cause_groups fs))
      = sum_list (map (\<lambda>e. finding_count (snd e)) (group_map fs))"
    by (simp add: build_root_cause_groups_def finish_group_def comp_def)
  also have "\<dots> = sum_list (map (\<lambda>f. 1) fs)"
    unfolding group_map_def
    by (subst bt_fold_total [where n = "\<lambda>f. 1"]) (simp_all add: new_group_def extend_group_def)
  finally show ?thesis by (simp add: sum_list_triv)
qed

lemma finding_in_build_group:
  "f \<in> set fs \<Longrightarrow> group_spec fs (finding_key f) \<in> set (build_root_cause_groups fs)"
  by (simp add: build_groups_set)

lemma group_spec_count_pos: "f \<in> set fs \<Longrightarrow> 0 < finding_count (group_spec fs (finding_key f))"
  by (force simp: group_spec_def findings_of_key_def filter_empty_conv)

lemma group_spec_action_ge:
  "f \<in> set fs \<Longrightarrow> f_action f \<le> strongest_action (group_spec fs (finding_key f))"
  by (auto simp: group_spec_def findings_of_key_def intro!: Max_ge)

lemma group_spec_action_in:
  assumes "k \<in> finding_key ` set fs"
  shows "\<exists>f\<in>set fs. finding_key f = k \<and> f_action f = strongest_action (group_spec fs k)"
proof -
  have "Max (f_action ` set (findings_of_key fs k)) \<in> f_action ` set (findings_of_key fs k)"
    using assms findings_of_key_Nil [of fs k] by (intro Max_in) auto
  then show ?thesis by (auto simp: group_spec_def findings_of_key_def)
qed

section \<open>Facts about merging\<close>

lemma group_key_merge [simp]: "group_key (merge_group g e) = group_key e"
  by (simp add: merge_group_def group_key_def)

lemma merge_map_invar: "bt_invar (merge_map gs)"
  unfolding merge_map_def by (rule bt.invar_fold [OF bt.invar_empty])

lemma merge_map_get:
  "map_of (merge_map gs) k
     = foldl (\<lambda>o' g. Some (merge_entry g o')) None (filter (\<lambda>g. group_key g = k) gs)"
  using bt.get_fold [OF bt.invar_empty] by (simp add: merge_map_def)

lemma merge_fold_some:
  "foldl (\<lambda>o' g. Some (merge_entry g o')) (Some e) gs = Some (foldl (\<lambda>e g. merge_group g e) e gs)"
  by (induction gs arbitrary: e) auto

lemma merge_group_fields:
  "strongest_action (merge_group g e) = max (strongest_action e) (strongest_action g)"
  "finding_count (merge_group g e) = finding_count e + finding_count g"
  by (simp_all add: merge_group_def)

lemma merge_fold_fields:
  "group_key (foldl (\<lambda>e g. merge_group g e) e gs) = group_key e"
  "strongest_action (foldl (\<lambda>e g. merge_group g e) e gs)
     = foldl max (strongest_action e) (map strongest_action gs)"
  "finding_count (foldl (\<lambda>e g. merge_group g e) e gs)
     = finding_count e + sum_list (map finding_count gs)"
  by (induction gs arbitrary: e) (simp_all add: merge_group_fields)

lemma merge_map_item:
  assumes "(k, m) \<in> set (merge_map gs)"
  shows "group_key m = k"
    and "strongest_action m = Max (strongest_action ` {g \<in> set gs. group_key g = k})"
    and "finding_count m = sum_list (map finding_count (filter (\<lambda>g. group_key g = k) gs))"
    and "\<exists>g\<in>set gs. group_key g = k"
proof -
  let ?sel = "filter (\<lambda>g. group_key g = k) gs"
  have get: "map_of (merge_map gs) k = Some m"
    using assms bt.items_iff [OF merge_map_invar] by blast
  then obtain e rest where sel: "?sel = e # rest" by (cases ?sel) (auto simp: merge_map_get)
  then have m: "m = foldl (\<lambda>e g. merge_group g e) e rest"
    using get by (simp add: merge_map_get merge_fold_some)
  have set_sel: "{g \<in> set gs. group_key g = k} = insert e (set rest)"
    using sel by (metis list.simps(15) set_filter)
  then have "e \<in> set gs" "group_key e = k" by auto
  with sel m show "group_key m = k" "\<exists>g\<in>set gs. group_key g = k"
      "finding_count m = sum_list (map finding_count ?sel)"
    by (auto simp: merge_fold_fields)
  show "strongest_action m = Max (strongest_action ` {g \<in> set gs. group_key g = k})"
    by (simp add: m merge_fold_fields set_sel foldl_max_Max)
qed

lemma merge_groups_set: "set (merge_calibrated_groups gs) = snd ` set (merge_map gs)"
  by (simp add: merge_calibrated_groups_def)

lemma merge_groups_mem:
  assumes "m \<in> set (merge_calibrated_groups gs)"
  shows "strongest_action m = Max (strongest_action ` {g \<in> set gs. group_key g = group_key m})"
    and "finding_count m = sum_list (map finding_count (filter (\<lambda>g. group_key g = group_key m) gs))"
    and "\<exists>g\<in>set gs. group_key g = group_key m \<and> strongest_action g = strongest_action m"
proof -
  obtain k where k: "(k, m) \<in> set (merge_map gs)" using assms by (auto simp: merge_groups_set)
  note item = merge_map_item [OF k]
  show a: "strongest_action m = Max (strongest_action ` {g \<in> set gs. group_key g = group_key m})"
    using item by simp
  show "finding_count m = sum_list (map finding_count (filter (\<lambda>g. group_key g = group_key m) gs))"
    using item by simp
  have "Max (strongest_action ` {g \<in> set gs. group_key g = group_key m})
          \<in> strongest_action ` {g \<in> set gs. group_key g = group_key m}"
    using item by (intro Max_in) auto
  then show "\<exists>g\<in>set gs. group_key g = group_key m \<and> strongest_action g = strongest_action m"
    using a by auto
qed

lemma merge_groups_covers:
  assumes "g \<in> set gs"
  shows "\<exists>m\<in>set (merge_calibrated_groups gs).
           group_key m = group_key g \<and> strongest_action g \<le> strongest_action m"
proof -
  have "group_key g \<in> fst ` set (merge_map gs)"
    unfolding merge_map_def bt.keys_fold using assms by simp
  then obtain m where m: "(group_key g, m) \<in> set (merge_map gs)" by auto
  have "strongest_action g \<le> strongest_action m"
    unfolding merge_map_item(2) [OF m] using assms by (intro Max_ge) auto
  then show ?thesis using m merge_map_item(1) [OF m] by (force simp: merge_groups_set)
qed

lemma merge_groups_keys_distinct: "distinct (map group_key (merge_calibrated_groups gs))"
proof -
  have "map (\<lambda>e. group_key (snd e)) (merge_map gs) = map fst (merge_map gs)"
    using merge_map_item(1) by fastforce
  then show ?thesis
    unfolding merge_calibrated_groups_def distinct_map_sort_by map_map comp_def
    by (metis bt.items_distinct merge_map_invar)
qed

lemma merge_groups_total:
  "sum_list (map finding_count (merge_calibrated_groups gs)) = sum_list (map finding_count gs)"
proof -
  have "sum_list (map finding_count (merge_calibrated_groups gs))
      = sum_list (map (\<lambda>e. finding_count (snd e)) (merge_map gs))"
    by (simp add: merge_calibrated_groups_def comp_def)
  also have "\<dots> = sum_list (map finding_count gs)"
    unfolding merge_map_def
    by (subst bt_fold_total [where n = finding_count]) (simp_all add: merge_group_def)
  finally show ?thesis .
qed

lemma merge_groups_length: "length (merge_calibrated_groups gs) \<le> length gs"
  using bt_fold_length [of group_key merge_entry "[]" gs]
  by (simp add: merge_calibrated_groups_def merge_map_def)

end
