(* ===== verification/Verdict_Calibration.thy ===== *)
theory Verdict_Calibration
  imports Root_Causes
begin

text \<open>
  \<open>verdict_calibration.rs\<close>: the pipeline of four rules that walks every root-cause group and
  excludes findings of weak rules from it. The mutable per-group state is a record
  that \<open>apply_single_rule_to_group\<close> returns updated; the loop over groups and rules is a fold with
  the risk adjustment, the set of counted rules and the notes as accumulator. The main lemma,
  \<open>calibrate_group_spec\<close>, describes a calibrated group by the findings that survive the
  exclusions of the rules that fired.
\<close>

section \<open>The pipeline\<close>

definition CALIBRATED_RULE_IDS :: "string list" where
  "CALIBRATED_RULE_IDS =
    [''DECLARED_PERMISSION_NETWORK_ACCESS'', ''CAPABILITY_PERMISSION_MISMATCH'',
     ''INTERNAL_NETWORK_ACCESS'', ''MCP_NO_AUTH_MODEL'', ''OFFICIAL_MCP_NO_AUTH_REMOTE_ENDPOINT'']"

record calibration_rule =
  trigger_rule_ids :: "string list"
  cr_rule_ids :: "string list"
  risk_delta :: int
  reclassify_signal :: bool
  effect_downgraded :: string
  effect_unchanged :: string
  cr_rationale :: string
  note_rule_id :: string

definition TIER1_DECLARED_NETWORK_ROLLBACK :: int where
  "TIER1_DECLARED_NETWORK_ROLLBACK = -10"

definition TIER2_CAPABILITY_MISMATCH_ROLLBACK :: int where
  "TIER2_CAPABILITY_MISMATCH_ROLLBACK = -8"

definition TIER3_INTERNAL_NETWORK_ROLLBACK :: int where
  "TIER3_INTERNAL_NETWORK_ROLLBACK = -12"

definition TIER4_REMOTE_MCP_NO_AUTH_ROLLBACK :: int where
  "TIER4_REMOTE_MCP_NO_AUTH_ROLLBACK = -6"

definition CALIBRATION_PIPELINE :: "calibration_rule list" where
  "CALIBRATION_PIPELINE =
    [\<lparr>trigger_rule_ids = [''DECLARED_PERMISSION_NETWORK_ACCESS''],
      cr_rule_ids = [''DECLARED_PERMISSION_NETWORK_ACCESS''],
      risk_delta = TIER1_DECLARED_NETWORK_ROLLBACK,
      reclassify_signal = False,
      effect_downgraded = ''downgraded_to_context'',
      effect_unchanged = ''remains_context_only'',
      cr_rationale = ''Declared network access remains useful for blast-radius reporting, but it no longer drives package escalation without corroborating behavior.'',
      note_rule_id = ''DECLARED_PERMISSION_NETWORK_ACCESS''\<rparr>,
     \<lparr>trigger_rule_ids = [''CAPABILITY_PERMISSION_MISMATCH''],
      cr_rule_ids = [''CAPABILITY_PERMISSION_MISMATCH''],
      risk_delta = TIER2_CAPABILITY_MISMATCH_ROLLBACK,
      reclassify_signal = False,
      effect_downgraded = ''downgraded_to_context'',
      effect_unchanged = ''remains_context_only'',
      cr_rationale = ''Capability mismatch is retained as an explainability signal, but it no longer escalates verdicts without stronger intent or behavioral evidence.'',
      note_rule_id = ''CAPABILITY_PERMISSION_MISMATCH''\<rparr>,
     \<lparr>trigger_rule_ids = [''INTERNAL_NETWORK_ACCESS''],
      cr_rule_ids = [''INTERNAL_NETWORK_ACCESS''],
      risk_delta = TIER3_INTERNAL_NETWORK_ROLLBACK,
      reclassify_signal = True,
      effect_downgraded = ''downgraded_to_review_only'',
      effect_unchanged = ''remains_review_only'',
      cr_rationale = ''Internal or loopback network targets are treated as review-only unless paired with fetch, execution, exfiltration, or metadata-service behavior.'',
      note_rule_id = ''INTERNAL_NETWORK_ACCESS''\<rparr>,
     \<lparr>trigger_rule_ids = [''MCP_NO_AUTH_MODEL'', ''OFFICIAL_MCP_NO_AUTH_REMOTE_ENDPOINT''],
      cr_rule_ids = [''MCP_NO_AUTH_MODEL'', ''OFFICIAL_MCP_NO_AUTH_REMOTE_ENDPOINT''],
      risk_delta = TIER4_REMOTE_MCP_NO_AUTH_ROLLBACK,
      reclassify_signal = True,
      effect_downgraded = ''downgraded_to_context'',
      effect_unchanged = ''remains_context_only'',
      cr_rationale = ''Remote MCP without auth is still risky, but it is not treated as standalone malicious behavior unless it widens into command or transport execution semantics.'',
      note_rule_id = ''MCP_NO_AUTH_MODEL''\<rparr>]"

definition is_permission_model_rule :: "string \<Rightarrow> bool" where
  "is_permission_model_rule r \<longleftrightarrow> is_declared_permission_rule r \<or> r = ''CAPABILITY_PERMISSION_MISMATCH''"

section \<open>Gates\<close>

definition is_stronger_behavior :: "finding \<Rightarrow> bool" where
  "is_stronger_behavior f \<longleftrightarrow>
     f_action f \<noteq> Log \<and> \<not> is_permission_model_rule (rule_id f)
     \<and> rule_id f \<noteq> ''INTERNAL_NETWORK_ACCESS''
     \<and> rule_id f \<notin> {''MCP_NO_AUTH_MODEL'', ''OFFICIAL_MCP_NO_AUTH_REMOTE_ENDPOINT''}
     \<and> f_signal_class f \<in> {SuspiciousPackageBehavior, MaliciousBehavior}"

definition is_network_chain :: "finding \<Rightarrow> bool" where
  "is_network_chain f \<longleftrightarrow>
     rule_id f \<in> {''ARTIFACT_TAINT_SECRET_TO_EXTERNAL_NETWORK'', ''ARTIFACT_TAINT_DOWNLOAD_TO_EXECUTION'',
        ''SSRF_LIKE_FETCH'', ''SKILL_REMOTE_EXEC_CURL_BASH'', ''SKILL_REMOTE_EXEC_POWERSHELL_IEX'',
        ''OFFICIAL_REMOTE_FETCH_EXEC_POLYGLOT'', ''OFFICIAL_SECRET_EXFIL_WEBHOOK''} \<and> f_action f \<noteq> Log
     \<or> category f \<in> {RemoteExec, DataExfiltration, CredentialExposure} \<and> f_action f \<noteq> Log"

definition is_remote_mcp_exec :: "finding \<Rightarrow> bool" where
  "is_remote_mcp_exec f \<longleftrightarrow>
     rule_id f \<in> {''MCP_REMOTE_EXEC_SURFACE'', ''MCP_TOOLING_TRANSPORT_DECLARED'',
        ''OFFICIAL_MCP_REMOTE_TUNNEL_WITH_EXEC'', ''OFFICIAL_MCP_REMOTE_BRIDGE_WITH_COMMAND''}
     \<and> f_action f \<noteq> Log"

definition compute_calibration_gates :: "finding list \<Rightarrow> bool list" where
  "compute_calibration_gates fs =
     (let has_stronger_behavior = list_ex is_stronger_behavior fs;
          has_network_chain = list_ex is_network_chain fs;
          has_remote_mcp_exec_pair = list_ex is_remote_mcp_exec fs
      in [\<not> has_stronger_behavior, \<not> has_stronger_behavior, \<not> has_network_chain,
          \<not> has_remote_mcp_exec_pair])"

section \<open>One rule on one group\<close>

record group_calibration_state =
  original_signal_class :: signal_class
  original_action :: recommended_action
  accumulated_exclusions :: "string list"
  pre_rule_action :: recommended_action

definition finding_in_group :: "finding \<Rightarrow> root_cause_group \<Rightarrow> signal_class \<Rightarrow> bool" where
  "finding_in_group f g sc \<longleftrightarrow>
     f_artifact_scope f = g_scope g \<and> category f = g_category g \<and> f_signal_class f = sc"

definition recalculate_group_action_excluding ::
  "finding list \<Rightarrow> root_cause_group \<Rightarrow> signal_class \<Rightarrow> string list \<Rightarrow> recommended_action \<times> nat" where
  "recalculate_group_action_excluding fs g sc excluded =
     (let remaining = filter (\<lambda>f. finding_in_group f g sc \<and> rule_id f \<notin> set excluded) fs
      in (foldl (\<lambda>acc f. max acc (f_action f)) Log remaining, length remaining))"

definition apply_single_rule_to_group ::
  "root_cause_group \<Rightarrow> calibration_rule \<Rightarrow> bool \<Rightarrow> finding list \<Rightarrow> group_calibration_state
   \<Rightarrow> root_cause_group \<times> group_calibration_state \<times> int \<times> verdict_calibration_note option" where
  "apply_single_rule_to_group g rule gate fs st =
     (let group_matches = list_ex (\<lambda>f. finding_in_group f g (original_signal_class st)
            \<and> rule_id f \<in> set (trigger_rule_ids rule)) fs
      in if \<not> gate \<or> \<not> group_matches then (g, st, 0, None)
      else
        let st1 = st\<lparr>accumulated_exclusions := accumulated_exclusions st @ cr_rule_ids rule\<rparr>;
            (new_action, remaining_count) = recalculate_group_action_excluding fs g
               (original_signal_class st1) (accumulated_exclusions st1);
            g1 = g\<lparr>strongest_action := new_action, finding_count := remaining_count\<rparr>;
            rules = map rule_id (filter (\<lambda>f. finding_in_group f g1 (original_signal_class st1)
               \<and> rule_id f \<notin> set (accumulated_exclusions st1)) fs);
            g2 = g1\<lparr>representative_rules :=
               take MAX_REPRESENTATIVE_RULES (remdups_adj (sort rules))\<rparr>;
            changed_from_previous = strongest_action g2 < pre_rule_action st1;
            delta = (if changed_from_previous then risk_delta rule else 0);
            downgraded_by_prior_rule = (strongest_action g2 = Log \<and> Log < original_action st1);
            g3 = (if reclassify_signal rule \<and> (changed_from_previous \<or> downgraded_by_prior_rule)
                  then g2\<lparr>g_signal_class := ReviewSignal\<rparr> else g2);
            st2 = st1\<lparr>pre_rule_action := strongest_action g3\<rparr>;
            was_reclassified =
              (reclassify_signal rule \<and> g_signal_class g3 \<noteq> original_signal_class st2);
            note = \<lparr>n_rule_id = note_rule_id rule,
              n_effect = (if changed_from_previous then effect_downgraded rule
                else if was_reclassified then ''reclassified_only'' else effect_unchanged rule),
              n_rationale = cr_rationale rule, n_scope = g_scope g3, n_category = g_category g3,
              n_signal_class = g_signal_class g3\<rparr>
        in (g3, st2, delta, Some note))"

section \<open>All rules on all groups\<close>

record calibration_acc =
  ca_adjustment :: int
  ca_counted :: "string list"
  ca_notes :: "verdict_calibration_note list"

definition account ::
  "calibration_rule \<Rightarrow> int \<Rightarrow> verdict_calibration_note option \<Rightarrow> calibration_acc \<Rightarrow> calibration_acc" where
  "account rule delta note acc =
     (let acc1 = (if delta \<noteq> 0 \<and> note_rule_id rule \<notin> set (ca_counted acc)
                  then acc\<lparr>ca_counted := note_rule_id rule # ca_counted acc,
                           ca_adjustment := ca_adjustment acc + delta\<rparr>
                  else acc)
      in acc1\<lparr>ca_notes := ca_notes acc1 @ (case note of None \<Rightarrow> [] | Some n \<Rightarrow> [n])\<rparr>)"

fun run_pipeline ::
  "finding list \<Rightarrow> (calibration_rule \<times> bool) list
   \<Rightarrow> root_cause_group \<times> group_calibration_state \<times> calibration_acc
   \<Rightarrow> root_cause_group \<times> group_calibration_state \<times> calibration_acc" where
  "run_pipeline fs [] s = s"
| "run_pipeline fs ((rule, gate) # rules) (g, st, acc) =
     (let (g', st', delta, note) = apply_single_rule_to_group g rule gate fs st
      in run_pipeline fs rules (g', st', account rule delta note acc))"

definition initial_state :: "root_cause_group \<Rightarrow> signal_class \<Rightarrow> group_calibration_state" where
  "initial_state g sc =
     \<lparr>original_signal_class = sc, original_action = strongest_action g,
      accumulated_exclusions = [], pre_rule_action = strongest_action g\<rparr>"

fun apply_to_groups ::
  "finding list \<Rightarrow> bool list \<Rightarrow> (root_cause_group \<times> recommended_action \<times> signal_class) list
   \<Rightarrow> calibration_acc \<Rightarrow> root_cause_group list \<times> calibration_acc" where
  "apply_to_groups fs gates [] acc = ([], acc)"
| "apply_to_groups fs gates ((g, _, sc) # gs) acc =
     (let (g', st', acc') = run_pipeline fs (zip CALIBRATION_PIPELINE gates) (g, initial_state g sc, acc);
          (gs', acc'') = apply_to_groups fs gates gs acc'
      in (g' # gs', acc''))"

definition apply_calibration_rules ::
  "root_cause_group list \<Rightarrow> finding list \<Rightarrow> bool list \<Rightarrow> (recommended_action \<times> signal_class) list
   \<Rightarrow> root_cause_group list \<times> int \<times> verdict_calibration_note list" where
  "apply_calibration_rules gs fs gates snapshots =
     (let (gs', acc) = apply_to_groups fs gates (zip gs snapshots)
            \<lparr>ca_adjustment = 0, ca_counted = [], ca_notes = []\<rparr>
      in (gs', ca_adjustment acc, ca_notes acc))"

definition note_order :: "verdict_calibration_note \<Rightarrow> verdict_calibration_note \<Rightarrow> ordering" where
  "note_order a b =
     then_with (ord_cmp (n_scope a) (n_scope b))
     (then_with (ord_cmp (n_category a) (n_category b))
     (then_with (ord_cmp (n_rule_id a) (n_rule_id b))
     (then_with (ord_cmp (n_effect a) (n_effect b))
     (then_with (ord_cmp (n_rationale a) (n_rationale b))
       (ord_cmp (n_signal_class a) (n_signal_class b))))))"

definition dedup_notes :: "verdict_calibration_note list \<Rightarrow> verdict_calibration_note list" where
  "dedup_notes ns = remdups_adj (sort_by note_order ns)"

record verdict_calibration =
  vc_root_cause_groups :: "root_cause_group list"
  vc_risk_adjustment :: int
  vc_notes :: "verdict_calibration_note list"

definition calibrate_verdict_inputs ::
  "finding list \<Rightarrow> root_cause_group list \<Rightarrow> verdict_calibration" where
  "calibrate_verdict_inputs fs root_cause_groups =
     (let gates = compute_calibration_gates fs;
          original_snapshots = map (\<lambda>g. (strongest_action g, g_signal_class g)) root_cause_groups;
          (groups, risk_adjustment, notes) =
            apply_calibration_rules root_cause_groups fs gates original_snapshots
      in \<lparr>vc_root_cause_groups = filter (\<lambda>g. 0 < finding_count g) groups,
          vc_risk_adjustment = risk_adjustment, vc_notes = dedup_notes notes\<rparr>)"

section \<open>What survives calibration\<close>

definition survivors :: "finding list \<Rightarrow> group_id \<Rightarrow> string list \<Rightarrow> finding list" where
  "survivors fs k excluded = filter (\<lambda>f. finding_key f = k \<and> rule_id f \<notin> set excluded) fs"

definition surviving_group ::
  "finding list \<Rightarrow> group_id \<Rightarrow> string list \<Rightarrow> signal_class \<Rightarrow> root_cause_group" where
  "surviving_group fs k excluded sc =
     \<lparr>g_scope = fst k, g_category = fst (snd k), g_signal_class = sc,
      finding_count = length (survivors fs k excluded),
      strongest_action = foldl max Log (map f_action (survivors fs k excluded)),
      representative_rules = take MAX_REPRESENTATIVE_RULES
        (sorted_list_of_set (rule_id ` set (survivors fs k excluded)))\<rparr>"

definition rule_fires :: "finding list \<Rightarrow> group_id \<Rightarrow> calibration_rule \<times> bool \<Rightarrow> bool" where
  "rule_fires fs k rg \<longleftrightarrow>
     snd rg \<and> (\<exists>f\<in>set fs. finding_key f = k \<and> rule_id f \<in> set (trigger_rule_ids (fst rg)))"

definition fired_exclusions ::
  "finding list \<Rightarrow> group_id \<Rightarrow> (calibration_rule \<times> bool) list \<Rightarrow> string list" where
  "fired_exclusions fs k rules = concat (map (cr_rule_ids \<circ> fst) (filter (rule_fires fs k) rules))"

lemma Max_action_foldl:
  "fs \<noteq> [] \<Longrightarrow> Max (f_action ` set fs) = foldl max Log (map f_action fs)"
  by (simp add: foldl_max_Max Max_insert max_absorb2)

lemma group_spec_surviving:
  assumes "k \<in> finding_key ` set fs"
  shows "group_spec fs k = surviving_group fs k [] (snd (snd k))"
proof -
  have "findings_of_key fs k \<noteq> []" using assms findings_of_key_Nil by blast
  from Max_action_foldl [OF this]
  have "strongest_action (group_spec fs k) = foldl max Log (map f_action (findings_of_key fs k))"
    by (simp add: group_spec_def)
  then show ?thesis
    by (simp add: group_spec_def surviving_group_def survivors_def findings_of_key_def)
qed

lemma survivors_anti: "set e \<subseteq> set e' \<Longrightarrow> set (survivors fs k e') \<subseteq> set (survivors fs k e)"
  by (auto simp: survivors_def)

lemma surviving_action_anti:
  assumes "set e \<subseteq> set e'"
  shows "strongest_action (surviving_group fs k e' sc') \<le> strongest_action (surviving_group fs k e sc)"
  using survivors_anti [OF assms, of fs k]
  by (auto simp: surviving_group_def foldl_max_Max intro!: Max_mono)

lemma surviving_count_anti:
  assumes "set e \<subseteq> set e'"
  shows "finding_count (surviving_group fs k e' sc') \<le> finding_count (surviving_group fs k e sc)"
proof -
  have "survivors fs k e' = filter (\<lambda>f. rule_id f \<notin> set e') (survivors fs k e)"
    using assms by (auto simp: survivors_def intro: filter_cong)
  then show ?thesis by (simp add: surviving_group_def)
qed

section \<open>One group through the pipeline\<close>

text \<open>The invariant of the loop over the rules.\<close>

definition calibration_invar ::
  "finding list \<Rightarrow> group_id \<Rightarrow> root_cause_group \<Rightarrow> group_calibration_state \<Rightarrow> bool" where
  "calibration_invar fs k g st \<longleftrightarrow>
     g = surviving_group fs k (accumulated_exclusions st) (g_signal_class g)
     \<and> original_signal_class st = snd (snd k)
     \<and> original_action st = strongest_action (surviving_group fs k [] (snd (snd k)))
     \<and> pre_rule_action st = strongest_action g
     \<and> (g_signal_class g = snd (snd k)
         \<or> g_signal_class g = ReviewSignal \<and> strongest_action g < original_action st)"

lemma surviving_group_fields [simp]:
  "g_scope (surviving_group fs k e sc) = fst k"
  "g_category (surviving_group fs k e sc) = fst (snd k)"
  "g_signal_class (surviving_group fs k e sc) = sc"
  by (simp_all add: surviving_group_def)

lemma finding_in_surviving [simp]:
  "finding_in_group f (surviving_group fs k e sc) (snd (snd k)) \<longleftrightarrow> finding_key f = k"
  "finding_in_group f ((surviving_group fs k e sc)\<lparr>strongest_action := a, finding_count := n\<rparr>)
     (snd (snd k)) \<longleftrightarrow> finding_key f = k"
  by (auto simp: finding_in_group_def finding_key_def)

lemma apply_single_rule_skip:
  assumes "calibration_invar fs k g st" "\<not> rule_fires fs k (rule, gate)"
  shows "apply_single_rule_to_group g rule gate fs st = (g, st, 0, None)"
proof -
  obtain e sc where g: "g = surviving_group fs k e sc" and st: "original_signal_class st = snd (snd k)"
    using assms(1) unfolding calibration_invar_def by blast
  show ?thesis
    using assms(2) unfolding apply_single_rule_to_group_def g st finding_in_surviving
    by (auto simp: rule_fires_def list_ex_iff)
qed

lemma apply_single_rule_fire:
  assumes inv: "calibration_invar fs k g st" and fires: "rule_fires fs k (rule, gate)"
    and res: "apply_single_rule_to_group g rule gate fs st = (g', st', delta, note)"
  shows "calibration_invar fs k g' st'
    \<and> accumulated_exclusions st' = accumulated_exclusions st @ cr_rule_ids rule
    \<and> delta \<in> {0, risk_delta rule}"
proof -
  let ?e = "accumulated_exclusions st @ cr_rule_ids rule"
  let ?a = "foldl max Log (map f_action (survivors fs k ?e))"
  obtain sc where g: "g = surviving_group fs k (accumulated_exclusions st) sc"
    using inv unfolding calibration_invar_def by blast
  have st: "original_signal_class st = snd (snd k)"
    "original_action st = strongest_action (surviving_group fs k [] (snd (snd k)))"
    "pre_rule_action st = strongest_action g"
    "sc = snd (snd k) \<or> sc = ReviewSignal \<and> strongest_action g < original_action st"
    using inv unfolding calibration_invar_def by (auto simp: g)
  have a: "strongest_action (surviving_group fs k ?e x) = ?a" for x
    by (simp add: surviving_group_def)
  have mono: "?a \<le> strongest_action g" "strongest_action g \<le> original_action st"
    unfolding st(2) a [of sc, symmetric] unfolding g by (rule surviving_action_anti, simp)+
  have ex: "list_ex (\<lambda>f. finding_in_group f g (original_signal_class st)
      \<and> rule_id f \<in> set (trigger_rule_ids rule)) fs" "gate"
    using fires unfolding g st(1) finding_in_surviving by (auto simp: rule_fires_def list_ex_iff)
  have rec: "recalculate_group_action_excluding fs g (original_signal_class st) ?e
      = (?a, length (survivors fs k ?e))"
    unfolding recalculate_group_action_excluding_def g st(1) finding_in_surviving Let_def
      foldl_max_map [of f_action] survivors_def ..
  have rules: "remdups_adj (sort (map rule_id (filter (\<lambda>f. finding_in_group f
       (g\<lparr>strongest_action := x, finding_count := n\<rparr>) (original_signal_class st)
       \<and> rule_id f \<notin> set ?e) fs))) = sorted_list_of_set (rule_id ` set (survivors fs k ?e))" for x n
    unfolding g st(1) finding_in_surviving by (simp add: sort_dedup survivors_def)
  let ?sc = "if reclassify_signal rule \<and> (?a < strongest_action g \<or> ?a = Log
      \<and> Log < original_action st) then ReviewSignal else sc"
  have "g' = surviving_group fs k ?e ?sc
      \<and> st' = st\<lparr>accumulated_exclusions := ?e, pre_rule_action := ?a\<rparr>
      \<and> delta = (if ?a < strongest_action g then risk_delta rule else 0)"
    using res unfolding apply_single_rule_to_group_def Let_def
    by (cases "reclassify_signal rule"; cases "?a < strongest_action g"; cases "?a = Log";
        cases "Log < original_action st")
       (simp_all add: ex rec rules [simplified] a st(3), auto simp: g surviving_group_def)
  note res' = this [THEN conjunct1] this [THEN conjunct2, THEN conjunct1]
    this [THEN conjunct2, THEN conjunct2]
  show ?thesis
    using mono st by (auto simp: calibration_invar_def res' a)
qed

lemma run_pipeline_spec:
  assumes "calibration_invar fs k g st" "run_pipeline fs rules (g, st, acc) = (g', st', acc')"
  shows "calibration_invar fs k g' st'
    \<and> accumulated_exclusions st' = accumulated_exclusions st @ fired_exclusions fs k rules"
  using assms
proof (induction rules arbitrary: g st acc)
  case Nil
  then show ?case by (simp add: fired_exclusions_def)
next
  case (Cons rg rules)
  obtain rule gate where rg: "rg = (rule, gate)" by (cases rg)
  obtain g1 st1 d n where one: "apply_single_rule_to_group g rule gate fs st = (g1, st1, d, n)"
    by (metis prod_cases4)
  show ?case
  proof (cases "rule_fires fs k rg")
    case True
    then have one': "calibration_invar fs k g1 st1
        \<and> accumulated_exclusions st1 = accumulated_exclusions st @ cr_rule_ids rule"
      using apply_single_rule_fire [OF Cons.prems(1) _ one] rg by simp
    with Cons.IH [of g1 st1 "account rule d n acc"] Cons.prems(2) True show ?thesis
      by (simp add: rg one fired_exclusions_def)
  next
    case False
    then have "(g1, st1) = (g, st)"
      using apply_single_rule_skip [OF Cons.prems(1)] one rg by simp
    with Cons.IH [of g st "account rule d n acc"] Cons.prems False show ?thesis
      by (simp add: rg one fired_exclusions_def)
  qed
qed

section \<open>The risk adjustment\<close>

definition accounted :: "calibration_acc \<Rightarrow> bool" where
  "accounted acc \<longleftrightarrow> ca_adjustment acc
     = (\<Sum>r\<leftarrow>CALIBRATION_PIPELINE. if note_rule_id r \<in> set (ca_counted acc) then risk_delta r else 0)"

lemmas tier_rollbacks = TIER1_DECLARED_NETWORK_ROLLBACK_def TIER2_CAPABILITY_MISMATCH_ROLLBACK_def
  TIER3_INTERNAL_NETWORK_ROLLBACK_def TIER4_REMOTE_MCP_NO_AUTH_ROLLBACK_def

lemma apply_single_delta:
  "apply_single_rule_to_group g rule gate fs st = (g', st', delta, note) \<Longrightarrow> delta \<in> {0, risk_delta rule}"
  by (auto simp: apply_single_rule_to_group_def Let_def split: if_splits prod.splits)

lemma sum_counted_insert:
  "distinct (map key P) \<Longrightarrow> p \<in> set P \<Longrightarrow> key p \<notin> C
     \<Longrightarrow> (\<Sum>r\<leftarrow>P. if key r = key p \<or> key r \<in> C then w r else 0)
         = (\<Sum>r\<leftarrow>P. if key r \<in> C then w r else 0) + (w p :: int)"
proof (induction P)
  case (Cons r P)
  show ?case
  proof (cases "p = r")
    case True
    have "(\<Sum>q\<leftarrow>P. if key q = key r \<or> key q \<in> C then w q else 0)
        = (\<Sum>q\<leftarrow>P. if key q \<in> C then w q else 0)"
      using Cons.prems(1) by (intro arg_cong [where f = sum_list] map_cong) (auto simp: rev_image_eqI)
    then show ?thesis using True Cons.prems by simp
  next
    case False
    then show ?thesis using Cons by auto
  qed
qed simp

lemma pipeline_note_ids_distinct: "distinct (map note_rule_id CALIBRATION_PIPELINE)"
  by (simp add: CALIBRATION_PIPELINE_def)

lemma accounted_account:
  assumes "accounted acc" "rule \<in> set CALIBRATION_PIPELINE" "delta \<in> {0, risk_delta rule}"
  shows "accounted (account rule delta note acc)"
  using assms sum_counted_insert [OF pipeline_note_ids_distinct assms(2), of "set (ca_counted acc)" risk_delta]
  by (auto simp: accounted_def account_def Let_def)

lemma accounted_run:
  "accounted acc \<Longrightarrow> fst ` set rules \<subseteq> set CALIBRATION_PIPELINE
     \<Longrightarrow> accounted (snd (snd (run_pipeline fs rules (g, st, acc))))"
proof (induction rules arbitrary: g st acc)
  case (Cons rg rules)
  obtain g1 st1 d n where one: "apply_single_rule_to_group g (fst rg) (snd rg) fs st = (g1, st1, d, n)"
    by (metis prod_cases4)
  have "accounted (account (fst rg) d n acc)"
    using accounted_account [OF Cons.prems(1) _ apply_single_delta [OF one]] Cons.prems(2) by simp
  then show ?case using Cons.IH Cons.prems(2) one by (cases rg) simp
qed simp

lemma accounted_groups:
  "accounted acc \<Longrightarrow> accounted (snd (apply_to_groups fs gates gs acc))"
proof (induction fs gates gs acc rule: apply_to_groups.induct)
  case (2 fs gates g a sc gs acc)
  let ?run = "run_pipeline fs (zip CALIBRATION_PIPELINE gates) (g, initial_state g sc, acc)"
  obtain g' st' acc' where run: "?run = (g', st', acc')" by (cases ?run) auto
  have "fst ` set (zip CALIBRATION_PIPELINE gates) \<subseteq> set CALIBRATION_PIPELINE"
    by (auto dest: set_zip_leftD)
  then have "accounted acc'" using accounted_run [OF 2(2)] run by (metis snd_conv)
  then show ?case using 2 run by (auto split: prod.splits)
qed simp

lemma accounted_bounds: "accounted acc \<Longrightarrow> - 36 \<le> ca_adjustment acc \<and> ca_adjustment acc \<le> 0"
  by (simp add: accounted_def CALIBRATION_PIPELINE_def tier_rollbacks)

lemma calibration_adjustment_bounds:
  "- 36 \<le> vc_risk_adjustment (calibrate_verdict_inputs fs gs)
     \<and> vc_risk_adjustment (calibrate_verdict_inputs fs gs) \<le> 0"
proof -
  let ?zero = "\<lparr>ca_adjustment = 0, ca_counted = [], ca_notes = []\<rparr>"
  have "accounted ?zero" by (simp add: accounted_def)
  then have "accounted (snd (apply_to_groups fs gates l ?zero))" for gates l
    by (rule accounted_groups)
  from accounted_bounds [OF this] show ?thesis
    by (simp add: calibrate_verdict_inputs_def apply_calibration_rules_def Let_def split: prod.splits)
       (metis snd_conv)
qed

section \<open>The calibrated groups\<close>

definition calibration_exclusions :: "finding list \<Rightarrow> group_id \<Rightarrow> string list" where
  "calibration_exclusions fs k =
     fired_exclusions fs k (zip CALIBRATION_PIPELINE (compute_calibration_gates fs))"

text \<open>What calibration makes of the group of key \<open>k\<close>.\<close>

definition calibrated_from :: "finding list \<Rightarrow> group_id \<Rightarrow> root_cause_group \<Rightarrow> bool" where
  "calibrated_from fs k g \<longleftrightarrow>
     g = surviving_group fs k (calibration_exclusions fs k) (g_signal_class g)
     \<and> (g_signal_class g = snd (snd k)
         \<or> g_signal_class g = ReviewSignal \<and> strongest_action g < strongest_action (group_spec fs k))"

lemma run_pipeline_group:
  assumes "k \<in> finding_key ` set fs"
    and "run_pipeline fs (zip CALIBRATION_PIPELINE (compute_calibration_gates fs))
           (group_spec fs k, initial_state (group_spec fs k) (snd (snd k)), acc) = (g', st', acc')"
  shows "calibrated_from fs k g'"
proof -
  note spec = group_spec_surviving [OF assms(1)]
  have "calibration_invar fs k (group_spec fs k) (initial_state (group_spec fs k) (snd (snd k)))"
    by (simp add: calibration_invar_def initial_state_def spec)
  from run_pipeline_spec [OF this assms(2)] show ?thesis
    by (auto simp: calibrated_from_def calibration_invar_def calibration_exclusions_def
        initial_state_def spec)
qed

lemma apply_to_groups_spec:
  assumes "set ks \<subseteq> finding_key ` set fs"
    and "apply_to_groups fs (compute_calibration_gates fs)
           (map (\<lambda>k. (group_spec fs k, strongest_action (group_spec fs k), snd (snd k))) ks) acc = (gs', acc')"
  shows "list_all2 (calibrated_from fs) ks gs'"
  using assms
proof (induction ks arbitrary: acc gs' acc')
  case (Cons k ks)
  show ?case
    using Cons.prems run_pipeline_group [of k fs acc]
    by (auto split: prod.splits dest!: Cons.IH [rotated])
qed simp

lemma calibrated_groups_list_all2:
  assumes "(gs', adj, ns) = apply_calibration_rules (build_root_cause_groups fs) fs
     (compute_calibration_gates fs) (map (\<lambda>g. (strongest_action g, g_signal_class g)) (build_root_cause_groups fs))"
  shows "list_all2 (calibrated_from fs) (map group_key (build_root_cause_groups fs)) gs'"
proof -
  let ?gs = "build_root_cause_groups fs" 
  have spec: "g = group_spec fs (group_key g)" if "g \<in> set ?gs" for g
    using that by (auto simp: build_groups_set)
  have keys: "set (map group_key ?gs) \<subseteq> finding_key ` set fs"
    by (auto simp: build_groups_set)
  have "zip ?gs (map (\<lambda>g. (strongest_action g, g_signal_class g)) ?gs)
      = map (\<lambda>k. (group_spec fs k, strongest_action (group_spec fs k), snd (snd k))) (map group_key ?gs)"
    using spec by (auto simp: zip_map2 zip_same_conv_map group_key_def)
  then show ?thesis
    using assms apply_to_groups_spec [OF keys]
    by (auto simp: apply_calibration_rules_def split: prod.splits)
qed

lemma calibrated_group_mem:
  assumes "g \<in> set (vc_root_cause_groups (calibrate_verdict_inputs fs (build_root_cause_groups fs)))"
  shows "\<exists>k\<in>finding_key ` set fs. calibrated_from fs k g \<and> 0 < finding_count g"
proof -
  obtain gs' adj ns where res: "(gs', adj, ns) = apply_calibration_rules
      (build_root_cause_groups fs) fs (compute_calibration_gates fs)
      (map (\<lambda>g. (strongest_action g, g_signal_class g)) (build_root_cause_groups fs))"
    by (metis prod_cases3)
  then have "g \<in> set gs'" "0 < finding_count g"
    using assms by (auto simp: calibrate_verdict_inputs_def Let_def split: prod.splits)
  then obtain k where k: "k \<in> set (map group_key (build_root_cause_groups fs))" "calibrated_from fs k g"
    using calibrated_groups_list_all2 [OF res] unfolding list_all2_conv_all_nth in_set_conv_nth by metis
  then have "k \<in> finding_key ` set fs" by (auto simp: build_groups_set)
  with k \<open>0 < finding_count g\<close> show ?thesis by blast
qed

lemma calibrated_group_ex:
  assumes "k \<in> finding_key ` set fs" "survivors fs k (calibration_exclusions fs k) \<noteq> []"
  shows "\<exists>g\<in>set (vc_root_cause_groups (calibrate_verdict_inputs fs (build_root_cause_groups fs))).
           calibrated_from fs k g"
proof -
  obtain gs' adj ns where res: "(gs', adj, ns) = apply_calibration_rules
      (build_root_cause_groups fs) fs (compute_calibration_gates fs)
      (map (\<lambda>g. (strongest_action g, g_signal_class g)) (build_root_cause_groups fs))"
    by (metis prod_cases3)
  have "k \<in> set (map group_key (build_root_cause_groups fs))"
    using assms(1) by (force simp: build_groups_set)
  then obtain g where g: "g \<in> set gs'" "calibrated_from fs k g"
    using calibrated_groups_list_all2 [OF res] unfolding list_all2_conv_all_nth in_set_conv_nth by metis
  have "finding_count g = length (survivors fs k (calibration_exclusions fs k))"
    using g(2) unfolding calibrated_from_def
    by (metis root_cause_group.select_convs(4) surviving_group_def)
  with g assms(2) res show ?thesis
    by (auto simp: calibrate_verdict_inputs_def Let_def split: prod.splits intro!: bexI [of _ g])
qed

lemma calibration_exclusions_ids: "set (calibration_exclusions fs k) \<subseteq> set CALIBRATED_RULE_IDS"
proof -
  have "set (cr_rule_ids r) \<subseteq> set CALIBRATED_RULE_IDS" if "r \<in> set CALIBRATION_PIPELINE" for r
    using that by (auto simp: CALIBRATION_PIPELINE_def CALIBRATED_RULE_IDS_def)
  then show ?thesis
    by (fastforce simp: calibration_exclusions_def fired_exclusions_def dest: set_zip_leftD)
qed

lemma calibrated_from_le:
  assumes "calibrated_from fs k g" "k \<in> finding_key ` set fs"
  shows "strongest_action g \<le> strongest_action (group_spec fs k)"
    and "finding_count g \<le> finding_count (group_spec fs k)"
    and "g_scope g = fst k" "g_category g = fst (snd k)"
  using assms unfolding calibrated_from_def group_spec_surviving [OF assms(2)]
  by (metis surviving_action_anti surviving_count_anti surviving_group_fields empty_subsetI list.set(1))+

lemma calibrated_from_action_ge:
  assumes "calibrated_from fs (finding_key f) g" "f \<in> set fs" "rule_id f \<notin> set CALIBRATED_RULE_IDS"
  shows "f_action f \<le> strongest_action g"
proof -
  let ?k = "finding_key f"
  have "f \<in> set (survivors fs ?k (calibration_exclusions fs ?k))"
    using assms(2,3) calibration_exclusions_ids [of fs ?k] unfolding survivors_def set_filter by blast
  then have "f_action f \<le> strongest_action (surviving_group fs ?k (calibration_exclusions fs ?k) sc)" for sc
    by (auto simp: surviving_group_def intro!: foldl_max_ge)
  then show ?thesis using assms(1) unfolding calibrated_from_def by metis
qed

end
