(* ===== verification/Capability_Scoring.thy ===== *)
theory Capability_Scoring
  imports Artifact_Graph
begin

text \<open>
  \<open>findings/capability_scoring.rs\<close>: the risk contribution of the artifact graph. The accumulator
  counts each (capability, source) once and each combination once for the whole package, first
  per node and then over the union of all nodes. The reference is
  \<open>graph_reference_score\<close>, a sum over the set of facts in the graph: the accumulator computes
  it whatever the order and multiplicity of nodes and facts, and never saturates.
\<close>

section \<open>The accumulator\<close>

record capability_score_accumulator =
  scored_combos :: "string list"
  scored_capabilities :: "string list"
  acc_score :: nat
  acc_action :: recommended_action
  acc_factors :: "risk_factor list"
  acc_triggers :: "action_trigger list"

definition accumulator_new :: capability_score_accumulator where
  "accumulator_new =
     \<lparr>scored_combos = [], scored_capabilities = [], acc_score = 0, acc_action = Log,
      acc_factors = [], acc_triggers = []\<rparr>"

definition u32_saturating_add :: "nat \<Rightarrow> nat \<Rightarrow> nat" where
  "u32_saturating_add a b = min u32_max (a + b)"

definition score_capability ::
  "string \<Rightarrow> nat \<Rightarrow> string \<Rightarrow> capability_score_accumulator \<Rightarrow> capability_score_accumulator" where
  "score_capability fac w why acc =
     (if fac \<in> set (scored_capabilities acc) then acc
      else acc\<lparr>scored_capabilities := fac # scored_capabilities acc,
               acc_score := u32_saturating_add (acc_score acc) w,
               acc_factors := acc_factors acc
                 @ [\<lparr>factor = fac, contribution = w, rf_rationale = why\<rparr>]\<rparr>)"

definition score_combo ::
  "string \<Rightarrow> recommended_action \<Rightarrow> nat \<Rightarrow> string \<Rightarrow> string \<Rightarrow> string
   \<Rightarrow> capability_score_accumulator \<Rightarrow> capability_score_accumulator" where
  "score_combo key a w label why trigger_why acc =
     (let acc1 = acc\<lparr>acc_action := max (acc_action acc) a\<rparr>
      in if key \<in> set (scored_combos acc1) then acc1
         else acc1\<lparr>scored_combos := key # scored_combos acc1,
                   acc_score := u32_saturating_add (acc_score acc1) w,
                   acc_factors := acc_factors acc1
                     @ [\<lparr>factor = label, contribution = w, rf_rationale = why\<rparr>],
                   acc_triggers := acc_triggers acc1
                     @ [\<lparr>at_action = a, at_factor = label, at_rationale = trigger_why\<rparr>]\<rparr>)"

record capability_combo_spec =
  combo_key :: string
  cap_a :: artifact_capability
  cap_b :: artifact_capability
  combo_action :: recommended_action
  combo_weight :: nat
  combo_description :: string

definition CAPABILITY_COMBOS :: "capability_combo_spec list" where
  "CAPABILITY_COMBOS =
    [\<lparr>combo_key = ''privileged_host_filesystem'', cap_a = PrivilegedRuntime,
      cap_b = HostFilesystemAccess, combo_action = Block, combo_weight = 25,
      combo_description = ''privileged runtime with host filesystem access''\<rparr>,
     \<lparr>combo_key = ''install_network'', cap_a = InstallExecution, cap_b = NetworkAccess,
      combo_action = RequireApproval, combo_weight = 12,
      combo_description = ''install-time execution with network access''\<rparr>,
     \<lparr>combo_key = ''install_binary'', cap_a = InstallExecution, cap_b = ExposesBinary,
      combo_action = RequireApproval, combo_weight = 8,
      combo_description = ''install-time execution with exposed binaries''\<rparr>,
     \<lparr>combo_key = ''secret_access_network'', cap_a = SecretAccess, cap_b = NetworkAccess,
      combo_action = RequireApproval, combo_weight = 10,
      combo_description = ''secret access with network connectivity''\<rparr>,
     \<lparr>combo_key = ''persistence_network'', cap_a = PersistenceSurface, cap_b = NetworkAccess,
      combo_action = RequireApproval, combo_weight = 8,
      combo_description = ''persistence with network connectivity''\<rparr>,
     \<lparr>combo_key = ''browser_identity_scope'', cap_a = BrowserAccess, cap_b = IdentityAccess,
      combo_action = RequireApproval, combo_weight = 10,
      combo_description = ''broad browser automation with identity-linked access''\<rparr>]"

definition combo_verb :: "recommended_action \<Rightarrow> string" where
  "combo_verb a = (case a of Block \<Rightarrow> ''Block'' | _ \<Rightarrow> ''Approval'')"

definition detect_node_capability_combos ::
  "artifact_node \<Rightarrow> capability_score_accumulator \<Rightarrow> capability_score_accumulator" where
  "detect_node_capability_combos n acc =
     (let has_cap = (\<lambda>c. list_ex (\<lambda>f. fact_capability f = c) (node_capabilities n))
      in foldl (\<lambda>acc spec.
           if has_cap (cap_a spec) \<and> has_cap (cap_b spec)
           then score_combo (combo_key spec) (combo_action spec) (combo_weight spec)
                  (''capability_combo:'' @ combo_key spec)
                  (''Artifact combines '' @ combo_description spec @ '': '' @ node_path n)
                  (combo_verb (combo_action spec) @ '' forced because '' @ node_path n
                     @ '' combines '' @ combo_description spec) acc
           else acc) acc CAPABILITY_COMBOS)"

definition detect_package_capability_combos ::
  "artifact_graph \<Rightarrow> capability_score_accumulator \<Rightarrow> capability_score_accumulator" where
  "detect_package_capability_combos g acc =
     (let package_caps = concat (map (\<lambda>n. map fact_capability (node_capabilities n)) (nodes g))
      in foldl (\<lambda>acc spec.
           if cap_a spec \<in> set package_caps \<and> cap_b spec \<in> set package_caps
           then score_combo (combo_key spec) (combo_action spec) (combo_weight spec)
                  (''capability_combo:'' @ combo_key spec)
                  (''Package combines '' @ combo_description spec)
                  (combo_verb (combo_action spec) @ '' forced because the package combines ''
                     @ combo_description spec) acc
           else acc) acc CAPABILITY_COMBOS)"

fun capability_score_params :: "artifact_capability \<Rightarrow> string \<Rightarrow> string \<times> nat \<times> string" where
  "capability_score_params InstallExecution s = (''capability:'' @ s @ '':install_execution'', 8,
     ''Artifact can execute code during installation ('' @ s @ '')'')"
| "capability_score_params BrowserAccess s = (''capability:'' @ s @ '':browser_access'', 8,
     ''Artifact requests broad browser automation access ('' @ s @ '')'')"
| "capability_score_params NetworkAccess s = (''capability:'' @ s @ '':network_access'', 6,
     ''Artifact can expose or request network connectivity ('' @ s @ '')'')"
| "capability_score_params ExposesBinary s = (''capability:'' @ s @ '':exposes_binary'', 4,
     ''Artifact exposes executable entrypoints ('' @ s @ '')'')"
| "capability_score_params PrivilegedRuntime s = (''capability:'' @ s @ '':privileged_runtime'', 18,
     ''Artifact requests privileged runtime access ('' @ s @ '')'')"
| "capability_score_params HostFilesystemAccess s = (''capability:'' @ s @ '':host_filesystem_access'', 16,
     ''Artifact can access host filesystem paths ('' @ s @ '')'')"
| "capability_score_params ProcessExecution s = (''capability:'' @ s @ '':process_execution'', 10,
     ''Artifact can execute child processes ('' @ s @ '')'')"
| "capability_score_params SecretAccess s = (''capability:'' @ s @ '':secret_access'', 14,
     ''Artifact can access or expose secrets ('' @ s @ '')'')"
| "capability_score_params PersistenceSurface s = (''capability:'' @ s @ '':persistence_surface'', 12,
     ''Artifact can establish persistence ('' @ s @ '')'')"
| "capability_score_params FilesystemWrite s = (''capability:'' @ s @ '':filesystem_write'', 9,
     ''Artifact can write to the filesystem ('' @ s @ '')'')"
| "capability_score_params IdentityAccess s = (''capability:'' @ s @ '':identity_access'', 14,
     ''Artifact requests access to OAuth or identity-linked resources ('' @ s @ '')'')"
| "capability_score_params InboundNetworkSurface s = (''capability:'' @ s @ '':inbound_network_surface'', 10,
     ''Artifact exposes an inbound network or webhook surface ('' @ s @ '')'')"

fun source_label :: "artifact_capability_source \<Rightarrow> string" where
  "source_label Declared = ''declared''"
| "source_label Observed = ''observed''"

definition score_fact ::
  "string \<Rightarrow> capability_score_accumulator \<Rightarrow> artifact_capability_fact \<Rightarrow> capability_score_accumulator" where
  "score_fact path acc f =
     (let (fac, w, why) = capability_score_params (fact_capability f) (source_label (fact_source f))
      in score_capability fac w (why @ '': '' @ path) acc)"

definition score_node :: "capability_score_accumulator \<Rightarrow> artifact_node \<Rightarrow> capability_score_accumulator" where
  "score_node acc n =
     detect_node_capability_combos n (foldl (score_fact (node_path n)) acc (node_capabilities n))"

definition graph_risk_context ::
  "artifact_graph \<Rightarrow> nat \<times> recommended_action \<times> risk_factor list \<times> action_trigger list" where
  "graph_risk_context g =
     (let acc = detect_package_capability_combos g (foldl score_node accumulator_new (nodes g))
      in (acc_score acc, acc_action acc, acc_factors acc, acc_triggers acc))"

section \<open>The reference: a sum over the facts of the package\<close>

definition fact_factor :: "artifact_capability_fact \<Rightarrow> string" where
  "fact_factor f = fst (capability_score_params (fact_capability f) (source_label (fact_source f)))"

definition fact_weight :: "artifact_capability_fact \<Rightarrow> nat" where
  "fact_weight f = fst (snd (capability_score_params (fact_capability f) (source_label (fact_source f))))"

definition graph_facts :: "artifact_graph \<Rightarrow> artifact_capability_fact set" where
  "graph_facts g = (\<Union>n\<in>set (nodes g). set (node_capabilities n))"

definition combos_of :: "artifact_capability set \<Rightarrow> capability_combo_spec set" where
  "combos_of caps = {s \<in> set CAPABILITY_COMBOS. cap_a s \<in> caps \<and> cap_b s \<in> caps}"

definition graph_combos :: "artifact_graph \<Rightarrow> capability_combo_spec set" where
  "graph_combos g = combos_of (fact_capability ` graph_facts g)"

definition graph_reference_score :: "artifact_graph \<Rightarrow> nat" where
  "graph_reference_score g = (\<Sum>f\<in>graph_facts g. fact_weight f) + (\<Sum>s\<in>graph_combos g. combo_weight s)"

definition combo_label :: "capability_combo_spec \<Rightarrow> string" where
  "combo_label s = ''capability_combo:'' @ combo_key s"

text \<open>All facts there are, with pairwise different factor names.\<close>

definition ALL_FACTS :: "artifact_capability_fact list" where
  "ALL_FACTS = concat (map (\<lambda>c. [\<lparr>fact_capability = c, fact_source = Declared\<rparr>,
                                  \<lparr>fact_capability = c, fact_source = Observed\<rparr>])
     [BrowserAccess, NetworkAccess, InstallExecution, ExposesBinary, PrivilegedRuntime,
      HostFilesystemAccess, ProcessExecution, SecretAccess, PersistenceSurface, FilesystemWrite,
      IdentityAccess, InboundNetworkSurface])"

lemma ALL_FACTS_UNIV: "set ALL_FACTS = UNIV"
proof -
  have "f \<in> set ALL_FACTS" for f
    by (cases f; cases "fact_capability f"; cases "fact_source f") (simp_all add: ALL_FACTS_def)
  then show ?thesis by blast
qed

lemma ALL_FACTS_factors: "distinct (map fact_factor ALL_FACTS)"
  by code_simp

lemma fact_factor_inj: "inj fact_factor"
  using ALL_FACTS_factors by (simp add: distinct_map ALL_FACTS_UNIV)

lemma ALL_FACTS_distinct: "distinct ALL_FACTS"
  using ALL_FACTS_factors by (simp add: distinct_map)

lemma ALL_FACTS_weight: "(\<Sum>f\<leftarrow>ALL_FACTS. fact_weight f) = 258"
  by code_simp

lemma COMBOS_keys: "distinct (map combo_key CAPABILITY_COMBOS)"
  by code_simp

lemma COMBOS_distinct: "distinct CAPABILITY_COMBOS"
  using COMBOS_keys by (simp add: distinct_map)

lemma COMBOS_weight: "(\<Sum>s\<leftarrow>CAPABILITY_COMBOS. combo_weight s) = 73"
  by code_simp

lemma combo_factor_not_fact: "combo_label s \<noteq> fact_factor f"
  by (cases f; cases "fact_capability f") (simp_all add: fact_factor_def combo_label_def)

lemma finite_facts [simp]: "finite (S :: artifact_capability_fact set)"
  by (rule finite_subset [OF subset_UNIV]) (metis ALL_FACTS_UNIV List.finite_set)

lemma facts_weight_le: "(\<Sum>f\<in>S. fact_weight f) \<le> 258"
proof -
  have "(\<Sum>f\<in>S. fact_weight f) \<le> (\<Sum>f\<in>UNIV. fact_weight f)"
    by (rule sum_mono2) auto
  also have "\<dots> = 258"
    using sum_list_distinct_conv_sum_set [OF ALL_FACTS_distinct, of fact_weight] ALL_FACTS_weight
    by (simp add: ALL_FACTS_UNIV)
  finally show ?thesis .
qed

lemma combos_weight_le:
  assumes "C \<subseteq> set CAPABILITY_COMBOS"
  shows "(\<Sum>s\<in>C. combo_weight s) \<le> 73"
proof -
  have "(\<Sum>s\<in>C. combo_weight s) \<le> (\<Sum>s\<in>set CAPABILITY_COMBOS. combo_weight s)"
    using assms by (intro sum_mono2) auto
  also have "\<dots> = 73"
    using sum_list_distinct_conv_sum_set [OF COMBOS_distinct, of combo_weight] COMBOS_weight
    by simp
  finally show ?thesis .
qed

section \<open>The accumulator computes the reference\<close>

definition scored ::
  "artifact_capability_fact set \<Rightarrow> capability_combo_spec set \<Rightarrow> capability_score_accumulator \<Rightarrow> bool" where
  "scored S C acc \<longleftrightarrow>
     C \<subseteq> set CAPABILITY_COMBOS
     \<and> set (scored_capabilities acc) = fact_factor ` S
     \<and> set (scored_combos acc) = combo_key ` C
     \<and> acc_score acc = (\<Sum>f\<in>S. fact_weight f) + (\<Sum>s\<in>C. combo_weight s)
     \<and> acc_action acc = Max (insert Log (combo_action ` C))
     \<and> sum_list (map contribution (acc_factors acc)) = acc_score acc
     \<and> distinct (map factor (acc_factors acc))
     \<and> factor ` set (acc_factors acc) = fact_factor ` S \<union> combo_label ` C
     \<and> distinct (map at_factor (acc_triggers acc))
     \<and> (\<lambda>t. (at_factor t, at_action t)) ` set (acc_triggers acc)
          = (\<lambda>s. (combo_label s, combo_action s)) ` C"

lemma scored_new: "scored {} {} accumulator_new"
  by (simp add: scored_def accumulator_new_def)

lemma no_saturation: "a + b \<le> 331 \<Longrightarrow> u32_saturating_add a b = a + b"
  by (simp add: u32_saturating_add_def u32_max_def)

lemma score_fact_eq:
  "score_fact path acc f = score_capability (fact_factor f) (fact_weight f)
     (snd (snd (capability_score_params (fact_capability f) (source_label (fact_source f)))) @ '': '' @ path) acc"
  by (simp add: score_fact_def fact_factor_def fact_weight_def split: prod.splits)

lemma scored_fact:
  assumes "scored S C acc"
  shows "scored (insert f S) C (score_fact path acc f)"
proof (cases "f \<in> S")
  case True
  then have "score_fact path acc f = acc"
    using assms unfolding score_fact_eq by (simp add: score_capability_def scored_def)
  then show ?thesis using True assms by (simp add: insert_absorb)
next
  case False
  then have new: "fact_factor f \<notin> fact_factor ` S"
    using fact_factor_inj by (simp add: inj_image_mem_iff)
  have "fact_weight f + ((\<Sum>f\<in>S. fact_weight f) + (\<Sum>s\<in>C. combo_weight s)) \<le> 258 + 73"
    using facts_weight_le [of "insert f S"] combos_weight_le [of C] assms False by (simp add: scored_def)
  then have "u32_saturating_add (acc_score acc) (fact_weight f) = acc_score acc + fact_weight f"
    using assms by (intro no_saturation) (simp add: scored_def)
  moreover have "fact_factor f \<notin> combo_label ` C"
    using combo_factor_not_fact [symmetric] by blast
  ultimately show ?thesis
    using assms False new unfolding score_fact_eq score_capability_def scored_def by simp
qed

lemma combo_label_inj: "combo_label a = combo_label b \<longleftrightarrow> combo_key a = combo_key b"
  by (simp add: combo_label_def)

lemma scored_combo:
  assumes "scored S C acc" "s \<in> set CAPABILITY_COMBOS"
  shows "scored S (insert s C)
    (score_combo (combo_key s) (combo_action s) (combo_weight s) (combo_label s) why tw acc)"
proof (cases "s \<in> C")
  case True
  have fin: "finite C" using assms(1) finite_subset by (auto simp: scored_def)
  then have "combo_action s \<le> Max (insert Log (combo_action ` C))"
    using True by (intro Max_ge) auto
  then show ?thesis
    using True assms by (simp add: scored_def score_combo_def insert_absorb max_absorb1)
next
  case False
  have sub: "C \<subseteq> set CAPABILITY_COMBOS" and fin: "finite C"
    using assms(1) finite_subset by (auto simp: scored_def)
  have new: "combo_key s \<notin> combo_key ` C"
    using False sub assms(2) COMBOS_keys by (auto simp: distinct_map inj_on_def)
  then have "combo_label s \<notin> combo_label ` C" by (auto simp: combo_label_inj)
  moreover have "combo_label s \<notin> fact_factor ` S"
    using combo_factor_not_fact by blast
  moreover have "at_factor ` set (acc_triggers acc) = combo_label ` C"
  proof -
    have "fst ` (\<lambda>t. (at_factor t, at_action t)) ` set (acc_triggers acc)
        = fst ` (\<lambda>s. (combo_label s, combo_action s)) ` C"
      using assms(1) by (simp add: scored_def)
    then show ?thesis by (simp add: image_image)
  qed
  moreover have "combo_weight s + ((\<Sum>f\<in>S. fact_weight f) + (\<Sum>s\<in>C. combo_weight s)) \<le> 258 + 73"
    using facts_weight_le [of S] combos_weight_le [of "insert s C"] sub fin assms(2) False by simp
  then have "u32_saturating_add (acc_score acc) (combo_weight s) = acc_score acc + combo_weight s"
    using assms by (intro no_saturation) (simp add: scored_def)
  moreover have "max (Max (insert Log (combo_action ` C))) (combo_action s)
      = Max (insert Log (combo_action ` insert s C))"
    using fin by (simp add: insert_commute [of Log] max.commute)
  ultimately show ?thesis
    using assms False new fin
    by (simp add: scored_def score_combo_def Let_def insert_commute)
qed

lemma scored_fold_combos:
  assumes "scored S C acc" "set specs \<subseteq> set CAPABILITY_COMBOS"
  shows "scored S (C \<union> {s \<in> set specs. p s})
    (foldl (\<lambda>acc s. if p s then score_combo (combo_key s) (combo_action s) (combo_weight s)
        (combo_label s) (why s) (tw s) acc else acc) acc specs)"
  using assms
proof (induction specs arbitrary: C acc)
  case (Cons s specs)
  show ?case
  proof (cases "p s")
    case True
    have "scored S (insert s C) (score_combo (combo_key s) (combo_action s) (combo_weight s)
        (combo_label s) (why s) (tw s) acc)"
      using Cons.prems by (intro scored_combo) auto
    moreover have "insert s C \<union> {t \<in> set specs. p t} = C \<union> {t \<in> set (s # specs). p t}"
      using True by auto
    ultimately show ?thesis using Cons.IH [of "insert s C"] Cons.prems(2) True by simp
  next
    case False
    then have "{t \<in> set (s # specs). p t} = {t \<in> set specs. p t}" by auto
    then show ?thesis using Cons False by simp
  qed
qed simp

lemma scored_facts:
  "scored S C acc \<Longrightarrow> scored (S \<union> set fs) C (foldl (score_fact path) acc fs)"
proof (induction fs arbitrary: S acc)
  case (Cons f fs)
  then show ?case using Cons.IH [of "insert f S"] scored_fact by fastforce
qed simp

lemma scored_node:
  assumes "scored S C acc"
  shows "scored (S \<union> set (node_capabilities n))
    (C \<union> combos_of (fact_capability ` set (node_capabilities n))) (score_node acc n)"
proof -
  have mem: "list_ex (\<lambda>f. fact_capability f = c) fs \<longleftrightarrow> c \<in> fact_capability ` set fs"
    for c and fs :: "artifact_capability_fact list"
    by (auto simp: list_ex_iff)
  show ?thesis
    unfolding score_node_def detect_node_capability_combos_def combos_of_def Let_def mem
      combo_label_def [symmetric]
    by (rule scored_fold_combos [OF scored_facts [OF assms] subset_refl])
qed

lemma scored_nodes:
  assumes "scored S C acc" "C \<subseteq> combos_of (fact_capability ` S)"
  shows "\<exists>C'. scored (S \<union> (\<Union>n\<in>set ns. set (node_capabilities n))) C' (foldl score_node acc ns)
    \<and> C' \<subseteq> combos_of (fact_capability ` (S \<union> (\<Union>n\<in>set ns. set (node_capabilities n))))"
  using assms
proof (induction ns arbitrary: S C acc)
  case (Cons n ns)
  have "C \<union> combos_of (fact_capability ` set (node_capabilities n))
      \<subseteq> combos_of (fact_capability ` (S \<union> set (node_capabilities n)))"
    using Cons.prems(2) by (auto simp: combos_of_def)
  from Cons.IH [OF scored_node [OF Cons.prems(1)] this] show ?case by (simp add: Un_assoc)
qed auto

lemma scored_graph:
  "scored (graph_facts g) (graph_combos g)
     (detect_package_capability_combos g (foldl score_node accumulator_new (nodes g)))"
proof -
  obtain C where C: "scored (graph_facts g) C (foldl score_node accumulator_new (nodes g))"
    "C \<subseteq> graph_combos g"
    using scored_nodes [OF scored_new, of "nodes g"] by (auto simp: graph_facts_def graph_combos_def)
  have caps: "fact_capability ` graph_facts g
      = set (concat (map (\<lambda>n. map fact_capability (node_capabilities n)) (nodes g)))"
    by (auto simp: graph_facts_def)
  have "C \<union> {s \<in> set CAPABILITY_COMBOS. cap_a s \<in> fact_capability ` graph_facts g
      \<and> cap_b s \<in> fact_capability ` graph_facts g} = graph_combos g"
    using C(2) by (auto simp: graph_combos_def combos_of_def)
  then show ?thesis
    using scored_fold_combos [OF C(1) subset_refl, of "\<lambda>s. cap_a s \<in> fact_capability ` graph_facts g
        \<and> cap_b s \<in> fact_capability ` graph_facts g"]
    unfolding detect_package_capability_combos_def Let_def caps combo_label_def [symmetric] by simp
qed

lemma graph_risk_score: "fst (graph_risk_context g) = graph_reference_score g"
  using scored_graph [of g] by (simp add: graph_risk_context_def Let_def scored_def graph_reference_score_def)

lemma graph_risk_score_le: "fst (graph_risk_context g) \<le> 331"
  using facts_weight_le [of "graph_facts g"] combos_weight_le [of "graph_combos g"]
  by (simp add: graph_risk_score graph_reference_score_def graph_combos_def combos_of_def)

lemma graph_risk_action:
  "fst (snd (graph_risk_context g)) = Max (insert Log (combo_action ` graph_combos g))"
  using scored_graph [of g] by (simp add: graph_risk_context_def Let_def scored_def)

lemma graph_risk_factors:
  "sum_list (map contribution (fst (snd (snd (graph_risk_context g))))) = graph_reference_score g"
  "distinct (map factor (fst (snd (snd (graph_risk_context g)))))"
  using scored_graph [of g]
  by (simp_all add: graph_risk_context_def Let_def scored_def graph_reference_score_def)

lemma graph_risk_triggers:
  "(\<lambda>t. (at_factor t, at_action t)) ` set (snd (snd (snd (graph_risk_context g))))
     = (\<lambda>s. (combo_label s, combo_action s)) ` graph_combos g"
  "distinct (map at_factor (snd (snd (snd (graph_risk_context g)))))"
  using scored_graph [of g] by (simp_all add: graph_risk_context_def Let_def scored_def)

lemma graph_action_block:
  "fst (snd (graph_risk_context g)) = Block
     \<longleftrightarrow> PrivilegedRuntime \<in> fact_capability ` graph_facts g
       \<and> HostFilesystemAccess \<in> fact_capability ` graph_facts g"
proof -
  have fin: "finite (graph_combos g)" by (simp add: graph_combos_def combos_of_def)
  have "Max (insert Log (combo_action ` graph_combos g)) = Block
      \<longleftrightarrow> (\<exists>s\<in>graph_combos g. combo_action s = Block)"
    unfolding Max_Block [OF finite_imageI [OF fin]] by (metis imageE imageI)
  moreover have "(\<exists>s\<in>set CAPABILITY_COMBOS. combo_action s = Block \<and> cap_a s \<in> X \<and> cap_b s \<in> X)
      \<longleftrightarrow> PrivilegedRuntime \<in> X \<and> HostFilesystemAccess \<in> X" for X
    by (simp add: CAPABILITY_COMBOS_def)
  moreover have "(\<exists>s\<in>graph_combos g. combo_action s = Block)
      \<longleftrightarrow> (\<exists>s\<in>set CAPABILITY_COMBOS. combo_action s = Block
            \<and> cap_a s \<in> fact_capability ` graph_facts g \<and> cap_b s \<in> fact_capability ` graph_facts g)"
    unfolding graph_combos_def combos_of_def by blast
  ultimately show ?thesis unfolding graph_risk_action by (simp only:)
qed

section \<open>Properties of the graph score\<close>

text \<open>Claim C21: The accumulator computes the reference: the sum of the weights of the distinct facts of the
  package and of the combinations its capabilities form. It is at most 331, so the saturating
  additions never saturate, and the reported factors add up to it.\<close>

theorem graph_score_correct:
  "fst (graph_risk_context g) = graph_reference_score g
   \<and> graph_reference_score g \<le> 331
   \<and> sum_list (map contribution (fst (snd (snd (graph_risk_context g))))) = graph_reference_score g
   \<and> distinct (map factor (fst (snd (snd (graph_risk_context g)))))"
  using graph_risk_score graph_risk_score_le [of g] graph_risk_factors by simp

text \<open>The graph forces a block exactly when some node of the package has a privileged runtime and some
  node, the same or another, host filesystem access; every combination formed gives one trigger.\<close>

theorem graph_block_iff:
  "(fst (snd (graph_risk_context g)) = Block \<longleftrightarrow>
      (\<exists>n\<in>set (nodes g). PrivilegedRuntime \<in> fact_capability ` set (node_capabilities n))
      \<and> (\<exists>n\<in>set (nodes g). HostFilesystemAccess \<in> fact_capability ` set (node_capabilities n)))
   \<and> (\<lambda>t. (at_factor t, at_action t)) ` set (snd (snd (snd (graph_risk_context g))))
       = (\<lambda>s. (combo_label s, combo_action s)) ` graph_combos g
   \<and> distinct (map at_factor (snd (snd (snd (graph_risk_context g)))))"
proof -
  have "c \<in> fact_capability ` graph_facts g
      \<longleftrightarrow> (\<exists>n\<in>set (nodes g). c \<in> fact_capability ` set (node_capabilities n))" for c
    unfolding graph_facts_def by blast
  then show ?thesis using graph_action_block [of g] graph_risk_triggers [of g] by simp
qed

end
