(* ===== verification/Summary.thy ===== *)
theory Summary
  imports Builder Capability_Scoring
begin

text \<open>
  \<open>findings/summary.rs\<close>: the risk summary of a list of findings and a graph. Scores are \<open>f32\<close> values
  (theory F32, exact IEEE rounding), the factor and category maps are the ordered maps of the
  prelude: the code sorts what it drains from its hash maps by a key that contains the map's
  key, so the bucket order is unobservable. Shown: the score is at most 100 and grows with the findings,
  the action dominates every finding and the graph, the category and severity counts add up,
  and the calibrated summary is coherent. Counters are \<open>nat\<close>: \<open>factor_total\<close> bounds the sum of
  all factors by eleven per finding, so no \<open>u32\<close> counter overflows below 390 million findings.
\<close>

definition SCRIPT_EXTENSIONS :: "string list" where
  "SCRIPT_EXTENSIONS =
    [''py'', ''pyw'', ''js'', ''mjs'', ''cjs'', ''ts'', ''sh'', ''bash'', ''zsh'', ''ps1'', ''psm1'',
     ''rb'', ''pl'', ''php'']"

definition EXECUTABLE_SCRIPT_RISK_MULTIPLIER :: f32 where
  "EXECUTABLE_SCRIPT_RISK_MULTIPLIER = f32_of_rat (13 / 10)"

text \<open>\<open>path.rsplit('.').next()\<close>: what follows the last dot, the whole path without one.\<close>

definition after_last_dot :: "string \<Rightarrow> string" where
  "after_last_dot p = rev (takeWhile (\<lambda>c. c \<noteq> CHR ''.'') (rev p))"

definition graph_references_executable_script :: "artifact_graph \<Rightarrow> bool" where
  "graph_references_executable_script g \<longleftrightarrow>
     list_ex (\<lambda>n. let ext = after_last_dot (node_path n) in
        ext \<noteq> node_path n \<and> to_ascii_lowercase ext \<in> set SCRIPT_EXTENSIONS) (nodes g)"

section \<open>Aggregation\<close>

type_synonym factor_map = "(string \<times> risk_factor) list"
type_synonym category_map = "(threat_category \<times> nat) list"

definition bump_factor :: "string \<Rightarrow> nat \<Rightarrow> string \<Rightarrow> factor_map \<Rightarrow> factor_map" where
  "bump_factor key w why m =
     bt_entry key (\<lambda>o'. case o' of Some f \<Rightarrow> f\<lparr>contribution := contribution f + w\<rparr>
        | None \<Rightarrow> \<lparr>factor = key, contribution = w, rf_rationale = why\<rparr>) m"

definition accumulate_evidence_factor :: "finding \<Rightarrow> factor_map \<Rightarrow> factor_map" where
  "accumulate_evidence_factor f m =
     bump_factor (''evidence:'' @ evidence_kind_display (f_evidence_kind f))
       (evidence_weight (f_evidence_kind f)) (evidence_description (f_evidence_kind f)) m"

definition accumulate_artifact_factor :: "finding \<Rightarrow> factor_map \<Rightarrow> factor_map" where
  "accumulate_artifact_factor f m =
     bump_factor (''artifact:'' @ artifact_kind_display (f_artifact_kind f)) 1
       ''Risk observed in this artifact class'' m"

fun count_severity :: "severity \<Rightarrow> severity_counts \<Rightarrow> severity_counts" where
  "count_severity Low c = c\<lparr>n_low := n_low c + 1\<rparr>"
| "count_severity Medium c = c\<lparr>n_medium := n_medium c + 1\<rparr>"
| "count_severity High c = c\<lparr>n_high := n_high c + 1\<rparr>"
| "count_severity Critical c = c\<lparr>n_critical := n_critical c + 1\<rparr>"

definition count_category :: "threat_category \<Rightarrow> category_map \<Rightarrow> category_map" where
  "count_category c m = bt_entry c (\<lambda>o'. case o' of Some n \<Rightarrow> n + 1 | None \<Rightarrow> 1) m"

type_synonym aggregate = "severity_counts \<times> category_map \<times> factor_map \<times> f32"

definition aggregate_step :: "aggregate \<Rightarrow> finding \<Rightarrow> aggregate" where
  "aggregate_step a f =
     (let (sev, cats, factors, tot) = a
      in (count_severity (f_severity f) sev, count_category (category f) cats,
          accumulate_artifact_factor f (accumulate_evidence_factor f factors),
          f_add tot (weighted_score f)))"

definition aggregate_findings :: "finding list \<Rightarrow> aggregate" where
  "aggregate_findings fs =
     foldl aggregate_step (\<lparr>n_low = 0, n_medium = 0, n_high = 0, n_critical = 0\<rparr>, [], [], Fin 0) fs"

definition score_to_action :: "nat \<Rightarrow> recommended_action" where
  "score_to_action s =
     (if RISK_THRESHOLD_BLOCK \<le> s then Block
      else if RISK_THRESHOLD_APPROVAL \<le> s then RequireApproval else Log)"

definition select_recommended_action ::
  "nat \<Rightarrow> finding list \<Rightarrow> recommended_action \<Rightarrow> recommended_action" where
  "select_recommended_action score fs graph_action =
     max (max (score_to_action score) (foldl (\<lambda>acc f. max acc (f_action f)) Log fs)) graph_action"

definition normalize_score :: "f32 \<Rightarrow> nat" where
  "normalize_score tot =
     (if f_is_finite tot
      then f_round_as_u32 (f_clamp (Fin 0) (f_of_nat MAX_RISK_SCORE) tot)
      else MAX_RISK_SCORE)"

definition breakdown_order :: "risk_factor \<Rightarrow> risk_factor \<Rightarrow> ordering" where
  "breakdown_order l r = then_with (ord_cmp (contribution r) (contribution l)) (ord_cmp (factor l) (factor r))"

definition trigger_order :: "action_trigger \<Rightarrow> action_trigger \<Rightarrow> ordering" where
  "trigger_order l r = then_with (ord_cmp (at_action r) (at_action l)) (ord_cmp (at_factor l) (at_factor r))"

definition add_graph_factor :: "factor_map \<Rightarrow> risk_factor \<Rightarrow> factor_map" where
  "add_graph_factor m f =
     bt_entry (factor f) (\<lambda>o'. case o' of
        Some e \<Rightarrow> e\<lparr>contribution := contribution e + contribution f\<rparr> | None \<Rightarrow> f) m"

definition base_score :: "finding list \<Rightarrow> artifact_graph \<Rightarrow> f32" where
  "base_score fs g = f_add (snd (snd (snd (aggregate_findings fs)))) (f_of_nat (fst (graph_risk_context g)))"

definition total_score :: "finding list \<Rightarrow> artifact_graph \<Rightarrow> f32" where
  "total_score fs g =
     (if graph_references_executable_script g
      then f_mul (base_score fs g) EXECUTABLE_SCRIPT_RISK_MULTIPLIER
      else base_score fs g)"

definition from_findings_and_graph :: "finding list \<Rightarrow> artifact_graph \<Rightarrow> finding_summary" where
  "from_findings_and_graph fs g =
     (let (sev, cats, factors, findings_score) = aggregate_findings fs;
          (graph_score, graph_action, graph_factors, triggers) = graph_risk_context g;
          factors1 = foldl add_graph_factor factors graph_factors;
          base = f_add findings_score (f_of_nat graph_score);
          (tot, factors2) =
            (if graph_references_executable_script g
             then let amplified = f_mul base EXECUTABLE_SCRIPT_RISK_MULTIPLIER;
                      added = f_round_as_u32 (f_max (f_sub amplified base) (Fin 0))
                  in (amplified,
                      if 0 < added
                      then bump_factor ''artifact:executable_script'' added
                        ''Package references an executable script (empirically 2.12x more likely to be vulnerable)''
                        factors1
                      else factors1)
             else (base, factors1));
          score = normalize_score tot
      in \<lparr>total_findings = length fs, by_severity = sev, by_category = cats, risk_score = score,
          s_action = select_recommended_action score fs graph_action,
          score_breakdown = sort_by breakdown_order (map snd factors2),
          action_triggers = sort_by trigger_order triggers\<rparr>)"

definition from_findings :: "finding list \<Rightarrow> finding_summary" where
  "from_findings fs = from_findings_and_graph fs graph_new"

section \<open>Adjustment\<close>

definition downgraded_action_for_score :: "recommended_action \<Rightarrow> nat \<Rightarrow> recommended_action" where
  "downgraded_action_for_score original score = min (score_to_action score) original"

text \<open>The sum is taken in \<open>i64\<close>, where a \<open>u32\<close> and an \<open>i32\<close> cannot overflow: \<open>int\<close> is exact.\<close>

definition with_risk_adjustment :: "finding_summary \<Rightarrow> int \<Rightarrow> finding_summary" where
  "with_risk_adjustment s delta =
     (let new_score = nat (min (int MAX_RISK_SCORE) (max 0 (int (risk_score s) + delta)));
          new_action = downgraded_action_for_score (s_action s) new_score
      in s\<lparr>risk_score := new_score, s_action := new_action,
           action_triggers := filter (\<lambda>t. at_action t \<le> new_action) (action_triggers s)\<rparr>)"

section \<open>The aggregates\<close>

lemma aggregate_snoc: "aggregate_findings (fs @ [f]) = aggregate_step (aggregate_findings fs) f"
  by (simp add: aggregate_findings_def)

lemma aggregate_step_fields:
  "fst (aggregate_step a f) = count_severity (f_severity f) (fst a)"
  "fst (snd (aggregate_step a f)) = count_category (category f) (fst (snd a))"
  "fst (snd (snd (aggregate_step a f)))
     = accumulate_artifact_factor f (accumulate_evidence_factor f (fst (snd (snd a))))"
  "snd (snd (snd (aggregate_step a f))) = f_add (snd (snd (snd a))) (weighted_score f)"
  by (simp_all add: aggregate_step_def split: prod.splits)

lemma aggregate_severity:
  "fst (aggregate_findings fs) =
     \<lparr>n_low = length (filter (\<lambda>f. f_severity f = Low) fs),
      n_medium = length (filter (\<lambda>f. f_severity f = Medium) fs),
      n_high = length (filter (\<lambda>f. f_severity f = High) fs),
      n_critical = length (filter (\<lambda>f. f_severity f = Critical) fs)\<rparr>"
proof (induction fs rule: rev_induct)
  case (snoc f fs)
  then show ?case by (cases "f_severity f") (simp_all add: aggregate_snoc aggregate_step_fields)
qed (simp add: aggregate_findings_def)

lemma aggregate_categories:
  "fst (snd (aggregate_findings fs)) = foldl (\<lambda>m f. count_category (category f) m) [] fs"
proof (induction fs rule: rev_induct)
  case (snoc f fs)
  then show ?case by (simp add: aggregate_snoc aggregate_step_fields)
qed (simp add: aggregate_findings_def)

lemma aggregate_score:
  "snd (snd (snd (aggregate_findings fs))) = foldl (\<lambda>t f. f_add t (weighted_score f)) (Fin 0) fs"
proof (induction fs rule: rev_induct)
  case (snoc f fs)
  then show ?case by (simp add: aggregate_snoc aggregate_step_fields)
qed (simp add: aggregate_findings_def)

lemma bump_factor_total:
  "sum_list (map (\<lambda>e. contribution (snd e)) (bump_factor k w why m))
     = sum_list (map (\<lambda>e. contribution (snd e)) m) + w"
  unfolding bump_factor_def by (rule bt_entry_total) simp_all

lemma factor_total:
  "sum_list (map (\<lambda>e. contribution (snd e)) (fst (snd (snd (aggregate_findings fs))))) \<le> 11 * length fs"
proof (induction fs rule: rev_induct)
  case (snoc f fs)
  have "evidence_weight (f_evidence_kind f) \<le> 10" by (cases "f_evidence_kind f") simp_all
  with snoc show ?case
    by (simp add: aggregate_snoc aggregate_step_fields accumulate_artifact_factor_def
        accumulate_evidence_factor_def bump_factor_total)
qed (simp add: aggregate_findings_def)

lemma summary_fields:
  "total_findings (from_findings_and_graph fs g) = length fs"
  "by_severity (from_findings_and_graph fs g) = fst (aggregate_findings fs)"
  "by_category (from_findings_and_graph fs g) = fst (snd (aggregate_findings fs))"
  "risk_score (from_findings_and_graph fs g) = normalize_score (total_score fs g)"
  "s_action (from_findings_and_graph fs g)
     = select_recommended_action (normalize_score (total_score fs g)) fs (fst (snd (graph_risk_context g)))"
  "action_triggers (from_findings_and_graph fs g)
     = sort_by trigger_order (snd (snd (snd (graph_risk_context g))))"
  by (simp_all add: from_findings_and_graph_def total_score_def base_score_def Let_def split: prod.splits)

lemma summary_category_counts:
  "map_of (by_category (from_findings_and_graph fs g)) c
     = (let n = length (filter (\<lambda>f. category f = c) fs) in if n = 0 then None else Some n)"
  "sorted_wrt (<) (map fst (by_category (from_findings_and_graph fs g)))"
proof -
  have step: "foldl (\<lambda>o' x. Some (case o' of Some n \<Rightarrow> n + 1 | None \<Rightarrow> 1)) (Some m) xs = Some (m + length xs)"
    for m :: nat and xs :: "finding list"
    by (induction xs arbitrary: m) auto
  show "map_of (by_category (from_findings_and_graph fs g)) c
     = (let n = length (filter (\<lambda>f. category f = c) fs) in if n = 0 then None else Some n)"
    unfolding summary_fields aggregate_categories count_category_def bt.get_fold [OF bt.invar_empty]
    by (cases "filter (\<lambda>f. category f = c) fs") (simp_all add: step)
  show "sorted_wrt (<) (map fst (by_category (from_findings_and_graph fs g)))"
    unfolding summary_fields aggregate_categories count_category_def
    by (rule bt.items_sorted [OF bt.invar_fold [OF bt.invar_empty]])
qed

section \<open>Scores\<close>

lemma score_fold_score:
  assumes "\<forall>f\<in>set fs. unit_f32 (confidence f)" "f_score t"
  shows "f_score (foldl (\<lambda>t f. f_add t (weighted_score f)) t fs)
    \<and> f_le t (foldl (\<lambda>t f. f_add t (weighted_score f)) t fs)"
  using assms
proof (induction fs arbitrary: t)
  case (Cons f fs)
  have w: "f_score (weighted_score f)" using Cons.prems by (intro weighted_score_unit) simp
  have "f_score (f_add t (weighted_score f))" "f_le t (f_add t (weighted_score f))"
    using f_add_score f_add_ge Cons.prems(2) w by blast+
  then show ?case using Cons.IH [of "f_add t (weighted_score f)"] Cons.prems(1)
    by (auto intro: f_le_trans)
qed simp

lemma MAX_RISK_SCORE_f32: "f_of_nat MAX_RISK_SCORE = Fin 100"
  using rnd_of_nat [of 100] by (simp add: f_of_nat_def MAX_RISK_SCORE_def f32_of_rat_def)

lemma round_away_le: "x \<le> 100 \<Longrightarrow> round_away x \<le> 100"
proof -
  have "\<lfloor>201 / 2 :: rat\<rfloor> = 100" by (rule floor_unique) simp_all
  then show "x \<le> 100 \<Longrightarrow> round_away x \<le> 100"
    using round_away_mono [of x 100] by (simp add: round_away_def [of 100])
qed

lemma normalize_score_le: "normalize_score t \<le> MAX_RISK_SCORE"
proof (cases "f_is_finite t")
  case True
  then have "\<not> f_is_nan t" by (cases t) (auto simp: f_is_finite_def f_is_nan_def)
  then obtain y where y: "f_clamp (Fin 0) (Fin 100) t = Fin y" "y \<le> 100"
    using f_clamp_bounds [of 0 100 t] by auto
  then show ?thesis
    using True round_away_le [of y] unfolding normalize_score_def MAX_RISK_SCORE_f32
    by (simp add: MAX_RISK_SCORE_def min.coboundedI2)
qed (simp add: normalize_score_def)

lemma normalize_score_mono:
  assumes "f_score a" "f_score b" "f_le a b"
  shows "normalize_score a \<le> normalize_score b"
proof (cases "f_is_finite b")
  case True
  then have "f_is_finite a"
    using assms by (cases a; cases b) (auto simp: f_is_finite_def f_le_def f_is_nan_def)
  then show ?thesis
    using True f_round_as_u32_mono [OF f_clamp_mono [of 0 100, OF _ assms(3)]]
    by (simp add: normalize_score_def MAX_RISK_SCORE_f32)
next
  case False
  then show ?thesis using normalize_score_le [of a] by (simp add: normalize_score_def)
qed

lemma multiplier_pos: "\<exists>m. EXECUTABLE_SCRIPT_RISK_MULTIPLIER = Fin m \<and> 1 \<le> m \<and> representable m"
proof -
  have "rnd 1 \<le> rnd (13 / 10)" by (rule rnd_mono) simp
  then have "1 \<le> rnd (13 / 10)" using rnd_of_nat [of 1] by simp
  then show ?thesis
    using f32_of_rat_le_nat [of "13 / 10" 2]
    by (auto simp: EXECUTABLE_SCRIPT_RISK_MULTIPLIER_def f32_of_rat_def Let_def split: if_splits)
qed

lemma total_score_mono:
  assumes "\<forall>f\<in>set (fs @ gs). unit_f32 (confidence f)"
  shows "f_score (total_score fs g) \<and> f_score (total_score (fs @ gs) g)
    \<and> f_le (total_score fs g) (total_score (fs @ gs) g)"
proof -
  let ?s = "\<lambda>fs. foldl (\<lambda>t f. f_add t (weighted_score f)) (Fin 0) fs"
  have zero: "f_score (Fin 0)" by (simp add: representable_def rnd_def)
  have s: "f_score (?s fs)" using score_fold_score [of fs, OF _ zero] assms by simp
  have "f_score (?s (fs @ gs)) \<and> f_le (?s fs) (?s (fs @ gs))"
    using score_fold_score [of gs, OF _ s] assms by simp
  then have base: "f_score (base_score fs g)" "f_score (base_score (fs @ gs) g)"
    "f_le (base_score fs g) (base_score (fs @ gs) g)"
    using s f_add_mono f_add_score f_of_nat_score
    by (auto simp: base_score_def aggregate_score)
  obtain m where m: "EXECUTABLE_SCRIPT_RISK_MULTIPLIER = Fin m" "1 \<le> m" "representable m"
    using multiplier_pos by blast
  have "f_score (Fin m)" "0 < m" using m(2,3) by simp_all
  then show ?thesis
    using base f_scale_mono [OF base(3)] f_scale_score unfolding total_score_def m(1) by simp
qed

section \<open>Actions\<close>

lemma select_action_ge:
  "score_to_action s \<le> select_recommended_action s fs a"
  "f \<in> set fs \<Longrightarrow> f_action f \<le> select_recommended_action s fs a"
  "a \<le> select_recommended_action s fs a"
proof -
  have fold: "foldl (\<lambda>acc f. max acc (f_action f)) Log fs = foldl max Log (map f_action fs)"
    by (rule foldl_max_map [of f_action])
  show "score_to_action s \<le> select_recommended_action s fs a" "a \<le> select_recommended_action s fs a"
    by (simp_all add: select_recommended_action_def max.coboundedI1)
  assume "f \<in> set fs"
  then have "f_action f \<le> foldl (\<lambda>acc f. max acc (f_action f)) Log fs"
    unfolding fold by (intro foldl_max_ge) simp
  then show "f_action f \<le> select_recommended_action s fs a"
    by (simp add: select_recommended_action_def max.coboundedI1 max.coboundedI2)
qed

lemma select_action_in:
  "select_recommended_action s fs a \<in> insert (score_to_action s) (insert a (f_action ` set fs))"
proof -
  have fold: "foldl (\<lambda>acc f. max acc (f_action f)) Log fs = Max (insert Log (f_action ` set fs))"
    unfolding foldl_max_map [of f_action] by (simp add: foldl_max_Max)
  have "Max (insert Log (f_action ` set fs)) \<in> insert Log (f_action ` set fs)"
    by (intro Max_in) auto
  then consider "Max (insert Log (f_action ` set fs)) \<in> f_action ` set fs"
    | "Max (insert Log (f_action ` set fs)) = Log" by blast
  then show ?thesis
    unfolding select_recommended_action_def fold by cases (auto simp: max_def)
qed

lemma score_to_action_mono: "a \<le> b \<Longrightarrow> score_to_action a \<le> score_to_action b"
  by (auto simp: score_to_action_def RISK_THRESHOLD_BLOCK_def RISK_THRESHOLD_APPROVAL_def enum_order)

lemma score_to_action_Block: "score_to_action s = Block \<longleftrightarrow> RISK_THRESHOLD_BLOCK \<le> s"
  by (simp add: score_to_action_def)

section \<open>Adjustment\<close>

lemma adjusted_fields:
  "risk_score (with_risk_adjustment s d) = nat (min 100 (max 0 (int (risk_score s) + d)))"
  "s_action (with_risk_adjustment s d)
     = min (score_to_action (risk_score (with_risk_adjustment s d))) (s_action s)"
  "action_triggers (with_risk_adjustment s d)
     = filter (\<lambda>t. at_action t \<le> s_action (with_risk_adjustment s d)) (action_triggers s)"
  by (simp_all add: with_risk_adjustment_def Let_def downgraded_action_for_score_def MAX_RISK_SCORE_def)

lemma adjusted_score_le:
  "risk_score s \<le> 100 \<Longrightarrow> d \<le> 0 \<Longrightarrow> risk_score (with_risk_adjustment s d) \<le> risk_score s"
  by (simp add: adjusted_fields)

lemma graph_risk_empty: "graph_risk_context graph_new = (0, Log, [], [])"
  by code_simp

lemma no_script_empty: "\<not> graph_references_executable_script graph_new"
  by (simp add: graph_references_executable_script_def graph_new_def)

lemma f32_of_rat_nat: "n \<le> 2 ^ 24 \<Longrightarrow> f32_of_rat (of_nat n) = Fin (of_nat n)"
  using rnd_of_nat [of n] by (simp add: f32_of_rat_def Let_def)

lemma normalize_score_ten: "normalize_score (Fin 10) = 10"
proof -
  have "\<lfloor>21 / 2 :: rat\<rfloor> = 10" by (rule floor_unique) simp_all
  then show ?thesis
    unfolding normalize_score_def MAX_RISK_SCORE_f32
    by (simp add: f_clamp_def f_is_finite_def round_away_def u32_max_def)
qed

section \<open>Properties of the summary\<close>

text \<open>The recommended action is the strongest of the score's tier, the findings' actions and the graph's
  action, and the score is at most 100.\<close>

theorem summary_action_strongest:
  "risk_score (from_findings_and_graph fs g) \<le> 100
   \<and> s_action (from_findings_and_graph fs g)
      = Max ({score_to_action (risk_score (from_findings_and_graph fs g)),
              fst (snd (graph_risk_context g))} \<union> f_action ` set fs)"
proof -
  let ?s = "risk_score (from_findings_and_graph fs g)"
  let ?A = "{score_to_action ?s, fst (snd (graph_risk_context g))} \<union> f_action ` set fs"
  have eq: "s_action (from_findings_and_graph fs g)
      = select_recommended_action ?s fs (fst (snd (graph_risk_context g)))"
    by (simp add: summary_fields)
  have "Max ?A = s_action (from_findings_and_graph fs g)"
    unfolding eq by (rule Max_eqI) (use select_action_ge select_action_in in auto)
  then show ?thesis using normalize_score_le by (simp add: summary_fields MAX_RISK_SCORE_def)
qed

text \<open>More findings never lower the risk score or the action of a package, in rounded \<open>f32\<close> arithmetic
  with its overflow and the script multiplier, for findings whose confidence is in [0, 1].\<close>

theorem summary_monotone:
  assumes "\<forall>f\<in>set (fs @ extra). unit_f32 (confidence f)"
  shows "risk_score (from_findings_and_graph fs g) \<le> risk_score (from_findings_and_graph (fs @ extra) g)
    \<and> s_action (from_findings_and_graph fs g) \<le> s_action (from_findings_and_graph (fs @ extra) g)"
proof -
  have score: "risk_score (from_findings_and_graph fs g) \<le> risk_score (from_findings_and_graph (fs @ extra) g)"
    using total_score_mono [OF assms, of g] by (simp add: summary_fields normalize_score_mono)
  let ?big = "s_action (from_findings_and_graph (fs @ extra) g)"
  let ?a = "s_action (from_findings_and_graph fs g)"
  have "?a \<in> insert (score_to_action (risk_score (from_findings_and_graph fs g)))
      (insert (fst (snd (graph_risk_context g))) (f_action ` set fs))"
    using select_action_in by (simp only: summary_fields)
  then have "?a \<le> ?big"
  proof (elim insertE imageE)
    assume "?a = score_to_action (risk_score (from_findings_and_graph fs g))"
    also have "\<dots> \<le> score_to_action (risk_score (from_findings_and_graph (fs @ extra) g))"
      using score by (rule score_to_action_mono)
    also have "\<dots> \<le> ?big" unfolding summary_fields by (rule select_action_ge)
    finally show ?thesis .
  next
    assume "?a = fst (snd (graph_risk_context g))"
    then show ?thesis using select_action_ge(3) by (simp add: summary_fields(5))
  next
    fix f assume "?a = f_action f" "f \<in> set fs"
    then show ?thesis using select_action_ge(2) [of f "fs @ extra"] by (simp add: summary_fields(5))
  qed
  with score show ?thesis by blast
qed

theorem summary_monotone_witness:
  "risk_score (from_findings [example_finding ''A'' Generic AgentEntrypoint ReviewSignal Log])
     \<le> risk_score (from_findings ([example_finding ''A'' Generic AgentEntrypoint ReviewSignal Log]
         @ [example_finding ''B'' RemoteExec AgentEntrypoint MaliciousBehavior Block]))"
  unfolding from_findings_def
  by (rule summary_monotone [THEN conjunct1]) (simp add: unit_f32_one)

text \<open>Coherence of the calibrated summary: after a rollback of a summary made from findings and a graph,
  the score is in [0, 100] and not above the original, the action is exactly the tier of
  the new score, and no remaining trigger claims more than it.\<close>

theorem adjusted_summary_coherent:
  assumes "d \<le> 0"
  shows "risk_score (with_risk_adjustment (from_findings_and_graph fs g) d)
      \<le> risk_score (from_findings_and_graph fs g)
    \<and> s_action (with_risk_adjustment (from_findings_and_graph fs g) d)
      = score_to_action (risk_score (with_risk_adjustment (from_findings_and_graph fs g) d))
    \<and> list_all (\<lambda>t. at_action t \<le> s_action (with_risk_adjustment (from_findings_and_graph fs g) d))
        (action_triggers (with_risk_adjustment (from_findings_and_graph fs g) d))"
proof -
  let ?s = "from_findings_and_graph fs g"
  have le: "risk_score (with_risk_adjustment ?s d) \<le> risk_score ?s"
    using normalize_score_le assms by (intro adjusted_score_le) (simp_all add: summary_fields MAX_RISK_SCORE_def)
  have "score_to_action (risk_score ?s) \<le> s_action ?s"
    unfolding summary_fields by (rule select_action_ge)
  then have "score_to_action (risk_score (with_risk_adjustment ?s d)) \<le> s_action ?s"
    using score_to_action_mono [OF le] by (rule order.trans [rotated])
  then have "s_action (with_risk_adjustment ?s d)
      = score_to_action (risk_score (with_risk_adjustment ?s d))"
    unfolding adjusted_fields(2) by (rule min_absorb1)
  moreover have "list_all (\<lambda>t. at_action t \<le> s_action (with_risk_adjustment ?s d))
      (action_triggers (with_risk_adjustment ?s d))"
    unfolding adjusted_fields(3) by (simp add: list_all_iff)
  ultimately show ?thesis using le by blast
qed

theorem adjusted_summary_coherent_witness:
  "s_action (with_risk_adjustment (from_findings_and_graph [] graph_new) (- 10))
     = score_to_action (risk_score (with_risk_adjustment (from_findings_and_graph [] graph_new) (- 10)))"
  by (rule adjusted_summary_coherent [THEN conjunct2, THEN conjunct1]) simp

text \<open>The unadjusted summary does not satisfy the relation between action and score that the comment of
  \<open>with_risk_adjustment\<close> ascribes to it: a blocking finding of low weight gives the action block
  with a score below the approval threshold, and an adjustment by zero removes the block.\<close>

theorem summary_action_exceeds_score:
  "\<exists>f. s_action (from_findings [f]) = Block \<and> risk_score (from_findings [f]) < RISK_THRESHOLD_APPROVAL
     \<and> s_action (with_risk_adjustment (from_findings [f]) 0) = Log"
proof -
  let ?f = "(example_finding ''A'' RemoteExec AgentEntrypoint MaliciousBehavior Block)\<lparr>f_severity := Low\<rparr>"
  have "weighted_score ?f = Fin 10"
    using f32_of_rat_nat [of 10] f32_of_rat_nat [of 1]
    by (simp add: weighted_score_def f_of_nat_def)
  then have "total_score [?f] graph_new = Fin 10"
    using f32_of_rat_nat [of 10] f32_of_rat_nat [of 0]
    by (simp add: total_score_def base_score_def aggregate_score graph_risk_empty f_of_nat_def
        no_script_empty)
  then have score: "risk_score (from_findings [?f]) = 10"
    by (simp add: from_findings_def summary_fields normalize_score_ten)
  have act: "s_action (from_findings [?f]) = Block"
    using select_action_ge(2) [of ?f "[?f]"] by (simp add: from_findings_def summary_fields(5) antisym)
  have "s_action (with_risk_adjustment (from_findings [?f]) 0) = Log"
    unfolding adjusted_fields(2) by (simp add: adjusted_fields(1) score act score_to_action_def
        RISK_THRESHOLD_BLOCK_def RISK_THRESHOLD_APPROVAL_def)
  then show ?thesis using score act by (intro exI [of _ ?f]) (simp add: RISK_THRESHOLD_APPROVAL_def)
qed

text \<open>The counts of a summary: each category that occurs is listed once, in order, with the number of
  its findings, and the severity counts are those of the findings.\<close>

theorem summary_counts:
  "map_of (by_category (from_findings_and_graph fs g)) c
     = (let n = length (filter (\<lambda>f. category f = c) fs) in if n = 0 then None else Some n)
   \<and> sorted_wrt (<) (map fst (by_category (from_findings_and_graph fs g)))
   \<and> by_severity (from_findings_and_graph fs g) =
     \<lparr>n_low = length (filter (\<lambda>f. f_severity f = Low) fs),
      n_medium = length (filter (\<lambda>f. f_severity f = Medium) fs),
      n_high = length (filter (\<lambda>f. f_severity f = High) fs),
      n_critical = length (filter (\<lambda>f. f_severity f = Critical) fs)\<rparr>
   \<and> total_findings (from_findings_and_graph fs g) = length fs"
  using summary_category_counts by (simp add: summary_fields aggregate_severity)

end
