(* ===== verification/Verdict_Parts.thy ===== *)
theory Verdict_Parts
  imports Verdict_Calibration Summary
begin

text \<open>
  The parts of the package verdict that \<open>verdict.rs\<close> composes: \<open>verdict/compound.rs\<close> (pairs of signals
  that are malicious together), \<open>verdict/hygiene.rs\<close>, \<open>verdict/capabilities.rs\<close>,
  \<open>verdict/permissions.rs\<close> and \<open>verdict/blast_radius.rs\<close>.
\<close>

section \<open>Compound reasons\<close>

definition TRUSTED_HOST_DOWNGRADE_TAINT_RULES :: "string list" where
  "TRUSTED_HOST_DOWNGRADE_TAINT_RULES =
    [''ARTIFACT_TAINT_SECRET_TO_EXTERNAL_NETWORK'', ''ARTIFACT_TAINT_IDENTITY_TO_EXTERNAL_NETWORK'']"

definition compound_has_category :: "root_cause_group list \<Rightarrow> threat_category \<Rightarrow> bool" where
  "compound_has_category gs c = list_ex (\<lambda>g. g_category g = c \<and> strongest_action g \<noteq> Log) gs"

text \<open>\<open>Iterator::min\<close>\<close>

fun iter_min :: "'a::linorder list \<Rightarrow> 'a option" where
  "iter_min [] = None"
| "iter_min (x # xs) = Some (foldl min x xs)"

definition most_specific_scope_for_category ::
  "root_cause_group list \<Rightarrow> threat_category \<Rightarrow> artifact_scope option" where
  "most_specific_scope_for_category gs c =
     iter_min (map g_scope (filter (\<lambda>g. g_category g = c \<and> strongest_action g \<noteq> Log) gs))"

definition compound_has_rule :: "finding list \<Rightarrow> string \<Rightarrow> bool" where
  "compound_has_rule fs r = list_ex (\<lambda>f. rule_id f = r \<and> f_action f \<noteq> Log) fs"

definition compound_has_rule_in_scope :: "finding list \<Rightarrow> string \<Rightarrow> artifact_scope \<Rightarrow> bool" where
  "compound_has_rule_in_scope fs r s =
     list_ex (\<lambda>f. rule_id f = r \<and> f_action f \<noteq> Log \<and> f_artifact_scope f = s) fs"

definition compound_has_declared_permission_rule :: "finding list \<Rightarrow> string \<Rightarrow> bool" where
  "compound_has_declared_permission_rule fs r =
     list_ex (\<lambda>f. rule_id f = r \<and> f_artifact_scope f = AgentEntrypoint) fs"

definition compound_has_high_risk_autonomy :: "finding list \<Rightarrow> root_cause_group list \<Rightarrow> bool" where
  "compound_has_high_risk_autonomy fs gs \<longleftrightarrow>
     list_ex (\<lambda>g. g_category g = AutonomyEscalation \<and> g_scope g = AgentEntrypoint
        \<and> (strongest_action g = Block \<or> g_signal_class g = MaliciousBehavior)) gs
     \<or> compound_has_rule fs ''OFFICIAL_APPROVAL_BYPASS_WITH_EXECUTION''
     \<or> compound_has_rule fs ''OFFICIAL_APPROVAL_BYPASS_DELETE_OR_MODIFY''
     \<or> compound_has_rule fs ''OFFICIAL_PROMPT_OVERRIDE_WITH_PERSISTENCE''
     \<or> compound_has_rule fs ''OFFICIAL_FORCED_APPROVAL_BYPASS''"

definition detect_prompt_tampering_with_exec ::
  "finding list \<Rightarrow> root_cause_group list \<Rightarrow> verdict_reason option" where
  "detect_prompt_tampering_with_exec fs gs =
     (if compound_has_category gs PersistentPromptTampering \<and> compound_has_category gs RemoteExec
      then Some \<lparr>vr_scope = AgentEntrypoint, vr_category = RemoteExec,
        vr_signal_class = MaliciousBehavior,
        vr_rationale = ''Compound verdict: prompt override is paired with execution behavior''\<rparr>
      else None)"

definition is_trust_downgraded_taint :: "finding \<Rightarrow> bool" where
  "is_trust_downgraded_taint f =
     (if rule_id f \<notin> set TRUSTED_HOST_DOWNGRADE_TAINT_RULES then False
      else str_contains (match_value f) ''sinks_trusted=true'')"

definition detect_credential_exfil_chain ::
  "finding list \<Rightarrow> root_cause_group list \<Rightarrow> verdict_reason option" where
  "detect_credential_exfil_chain fs gs =
     (case most_specific_scope_for_category gs CredentialExposure of None \<Rightarrow> None
      | Some cred_scope \<Rightarrow>
     (case most_specific_scope_for_category gs DataExfiltration of None \<Rightarrow> None
      | Some exfil_scope \<Rightarrow>
        let scope = min cred_scope exfil_scope;
            exfil = filter (\<lambda>f. category f = DataExfiltration \<and> f_artifact_scope f = scope
               \<and> f_action f \<noteq> Log) fs;
            sc = (if exfil \<noteq> [] \<and> list_all is_trust_downgraded_taint exfil
                  then ReviewSignal else MaliciousBehavior)
        in Some \<lparr>vr_scope = scope, vr_category = DataExfiltration, vr_signal_class = sc,
          vr_rationale = ''Compound verdict: token or session access is paired with outbound transmission''\<rparr>))"

definition detect_install_hook_with_exec_surface ::
  "finding list \<Rightarrow> root_cause_group list \<Rightarrow> verdict_reason option" where
  "detect_install_hook_with_exec_surface fs gs =
     (if compound_has_rule_in_scope fs ''MANIFEST_PACKAGE_JSON_INSTALL_HOOK'' PackageRootArtifact
         \<and> (compound_has_category gs RemoteExec
            \<or> compound_has_rule fs ''OFFICIAL_REMOTE_FETCH_EXEC_POLYGLOT'')
      then Some \<lparr>vr_scope = PackageRootArtifact, vr_category = SupplyChain,
        vr_signal_class = MaliciousBehavior,
        vr_rationale = ''Compound verdict: install hook is paired with remote fetch or execution''\<rparr>
      else None)"

definition detect_broad_permissions_with_autonomy ::
  "finding list \<Rightarrow> root_cause_group list \<Rightarrow> verdict_reason option" where
  "detect_broad_permissions_with_autonomy fs gs =
     (let has_broad_permission_combo =
            compound_has_declared_permission_rule fs ''DECLARED_PERMISSION_BROWSER_FULL''
            \<or> compound_has_declared_permission_rule fs ''DECLARED_PERMISSION_SHELL_EXEC''
            \<or> (compound_has_declared_permission_rule fs ''DECLARED_PERMISSION_OAUTH_SCOPES''
               \<and> compound_has_declared_permission_rule fs ''DECLARED_PERMISSION_SECRETS_ACCESS'')
      in if has_broad_permission_combo \<and> compound_has_high_risk_autonomy fs gs
         then Some \<lparr>vr_scope = AgentEntrypoint, vr_category = AutonomyEscalation,
           vr_signal_class = MaliciousBehavior,
           vr_rationale = ''Compound verdict: broad permissions are paired with autonomous execution semantics''\<rparr>
         else None)"

definition detect_heartbeat_poll_with_credential_read ::
  "finding list \<Rightarrow> root_cause_group list \<Rightarrow> verdict_reason option" where
  "detect_heartbeat_poll_with_credential_read fs gs =
     (if compound_has_rule fs ''SKILL_HEARTBEAT_REMOTE_POLL'' \<and> compound_has_category gs CredentialExposure
      then Some \<lparr>vr_scope = AgentEntrypoint, vr_category = AutonomyEscalation,
        vr_signal_class = MaliciousBehavior,
        vr_rationale = ''Compound verdict: heartbeat polling is paired with credential or token access''\<rparr>
      else None)"

definition detect_mcp_remote_endpoint_with_exec ::
  "finding list \<Rightarrow> root_cause_group list \<Rightarrow> verdict_reason option" where
  "detect_mcp_remote_endpoint_with_exec fs gs =
     (if compound_has_rule_in_scope fs ''MCP_REMOTE_SERVER_ENDPOINT'' PackageRootArtifact
         \<and> (compound_has_rule fs ''MCP_REMOTE_EXEC_SURFACE''
            \<or> compound_has_rule fs ''MCP_TOOLING_TRANSPORT_DECLARED'')
      then Some \<lparr>vr_scope = PackageRootArtifact, vr_category = RemoteExec,
        vr_signal_class = MaliciousBehavior,
        vr_rationale = ''Compound verdict: MCP remote endpoint is paired with command or stdio execution semantics''\<rparr>
      else None)"

definition detect_compound_verdict_reasons ::
  "finding list \<Rightarrow> root_cause_group list \<Rightarrow> verdict_reason list" where
  "detect_compound_verdict_reasons fs gs =
     concat (map (\<lambda>r. case r of None \<Rightarrow> [] | Some x \<Rightarrow> [x])
       [detect_prompt_tampering_with_exec fs gs, detect_credential_exfil_chain fs gs,
        detect_install_hook_with_exec_surface fs gs, detect_broad_permissions_with_autonomy fs gs,
        detect_mcp_remote_endpoint_with_exec fs gs, detect_heartbeat_poll_with_credential_read fs gs])"

section \<open>Hygiene\<close>

definition MAX_HYGIENE_TOP_RULES :: nat where
  "MAX_HYGIENE_TOP_RULES = 5"

text \<open>State of the loop: the three counters and the rule counts.\<close>

type_synonym hygiene_acc = "nat \<times> nat \<times> nat \<times> (string \<times> nat) list"

definition hygiene_step :: "hygiene_acc \<Rightarrow> finding \<Rightarrow> hygiene_acc" where
  "hygiene_step acc f =
     (let (root, entry, supp, rules) = acc
      in if f_signal_class f \<noteq> Hygiene then acc
         else if suppression f \<noteq> None then acc
         else
           let (root', entry', supp') = (case f_artifact_scope f of
                 PackageRootArtifact \<Rightarrow> (root + 1, entry, supp)
               | SupportingArtifact \<Rightarrow> (root, entry, supp + 1)
               | AgentEntrypoint \<Rightarrow> (root, entry + 1, supp))
           in (root', entry', supp',
               bt_entry (rule_id f) (\<lambda>o'. (case o' of None \<Rightarrow> 0 | Some n \<Rightarrow> n) + 1) rules))"

definition hygiene_order :: "string \<times> nat \<Rightarrow> string \<times> nat \<Rightarrow> ordering" where
  "hygiene_order l r = then_with (ord_cmp (snd r) (snd l)) (ord_cmp (fst l) (fst r))"

definition build_hygiene_summary :: "finding list \<Rightarrow> hygiene_summary" where
  "build_hygiene_summary fs =
     (let (root, entry, supp, rules) = foldl hygiene_step (0, 0, 0, []) fs
      in \<lparr>package_root_findings = root, entrypoint_findings = entry, supporting_findings = supp,
          top_rules = take MAX_HYGIENE_TOP_RULES (map fst (sort_by hygiene_order rules))\<rparr>)"

section \<open>Capabilities\<close>

fun capability_key :: "threat_category \<Rightarrow> string" where
  "capability_key RemoteExec = ''process_execution''"
| "capability_key CredentialExposure = ''secret_access''"
| "capability_key DataExfiltration = ''data_exfiltration''"
| "capability_key PersistentPromptTampering = ''persistence_surface''"
| "capability_key SupplyChain = ''supply_chain_installation''"
| "capability_key ToolAbuse = ''tool_abuse''"
| "capability_key AutonomyEscalation = ''autonomous_actions''"
| "capability_key PrivilegeEscalation = ''filesystem_or_runtime_escalation''"
| "capability_key ScopeCreep = ''scope_creep''"
| "capability_key SocialManipulation = ''trust_bypass''"
| "capability_key PersuasiveLanguage = ''trust_bypass''"
| "capability_key Obfuscation = ''obfuscation''"
| "capability_key UnsafeBinary = ''unsafe_binary''"
| "capability_key Generic = ''generic_review''"

definition derive_effective_capabilities :: "root_cause_group list \<Rightarrow> string list" where
  "derive_effective_capabilities gs =
     bset_collect (map (\<lambda>g. capability_key (g_category g)) (filter (\<lambda>g. strongest_action g \<noteq> Log) gs))"

section \<open>Permissions\<close>

definition collect_explicit_permissions :: "finding list \<Rightarrow> declared_permission list" where
  "collect_explicit_permissions fs =
     foldl (\<lambda>acc f. case declared_permission_for_rule (rule_id f) of
         Some p \<Rightarrow> push_new p acc | None \<Rightarrow> acc)
       [] (filter (\<lambda>f. f_artifact_scope f = AgentEntrypoint) fs)"

definition permission_relevant :: "finding \<Rightarrow> bool" where
  "permission_relevant f \<longleftrightarrow>
     f_artifact_scope f = AgentEntrypoint
     \<and> (starts_with (rule_id f) ''DECLARED_PERMISSION_'' \<or> starts_with (rule_id f) ''CAPABILITY_''
        \<or> starts_with (rule_id f) ''OFFICIAL_'')"

definition matches_any_keyword :: "finding list \<Rightarrow> string list \<Rightarrow> bool" where
  "matches_any_keyword fs kws =
     list_ex (\<lambda>f. let text = to_ascii_lowercase (match_value f) in list_ex (str_contains text) kws) fs"

definition has_factor :: "finding_summary \<Rightarrow> string \<Rightarrow> bool" where
  "has_factor s needle = list_ex (\<lambda>r. str_contains (factor r) needle) (score_breakdown s)"

definition add_if :: "bool \<Rightarrow> declared_permission \<Rightarrow> declared_permission list \<Rightarrow> declared_permission list" where
  "add_if cond p ps = (if cond \<and> p \<notin> set ps then ps @ [p] else ps)"

definition BROWSER_KEYWORDS :: "string list" where
  "BROWSER_KEYWORDS =
    [''browser'', ''navigation'', ''click any element'', ''full autonomous browser'', ''allow-all'']"

definition FILE_WRITE_KEYWORDS :: "string list" where
  "FILE_WRITE_KEYWORDS =
    [''write file'', ''delete file'', ''delete files'', ''modify file'', ''modify disk'',
     ''modify local'', ''remove file'', ''remove files'', ''wipe file'', ''wipe files'',
     ''erase file'', ''erase files'', ''unlink file'', ''unlink files'']"

definition SHELL_KEYWORDS :: "string list" where
  "SHELL_KEYWORDS =
    [''shell'', ''command'', ''run command'', ''execute command'', ''shell command'', ''stdio'']"

definition NETWORK_KEYWORDS :: "string list" where
  "NETWORK_KEYWORDS =
    [''http://'', ''https://'', ''webhook'', ''network'', ''api endpoint'', ''api access'',
     ''external api'', ''api_key'']"

definition SECRET_KEYWORDS :: "string list" where
  "SECRET_KEYWORDS =
    [''token'', ''access_token'', ''api_token'', ''auth token'', ''bearer token'', ''secret'',
     ''password'', ''credential'', ''cookie'']"

definition OAUTH_KEYWORDS :: "string list" where
  "OAUTH_KEYWORDS =
    [''oauth'', ''oauth scope'', ''api scope'', ''drive.scope'', ''calendar.scope'', ''read/write'',
     ''admin scope'', ''google calendar'', ''calendar.events'', ''google drive'', ''drive.file'',
     ''slack.com'', ''slack api'', ''slack scope'']"

definition infer_permissions_from_keywords ::
  "finding list \<Rightarrow> finding_summary \<Rightarrow> declared_permission list" where
  "infer_permissions_from_keywords fs supporting =
     (let relevant = filter permission_relevant fs
      in add_if (matches_any_keyword relevant OAUTH_KEYWORDS) Perm_OAuthScopes
         (add_if (matches_any_keyword relevant SECRET_KEYWORDS \<or> has_factor supporting ''secret_access'')
            Perm_SecretsAccess
         (add_if (matches_any_keyword relevant NETWORK_KEYWORDS \<or> has_factor supporting ''network_access'')
            Perm_NetworkAccess
         (add_if (matches_any_keyword relevant SHELL_KEYWORDS \<or> has_factor supporting ''process_execution'')
            Perm_ShellExec
         (add_if (matches_any_keyword relevant FILE_WRITE_KEYWORDS) Perm_FileWrite
         (add_if (matches_any_keyword relevant BROWSER_KEYWORDS) Perm_BrowserFull []))))))"

definition derive_declared_permissions ::
  "finding list \<Rightarrow> finding_summary \<Rightarrow> declared_permission list" where
  "derive_declared_permissions fs supporting =
     sort (foldl (\<lambda>acc p. push_new p acc) (collect_explicit_permissions fs)
       (infer_permissions_from_keywords fs supporting))"

section \<open>Blast radius\<close>

definition LOCAL_INDICATORS :: "string list" where
  "LOCAL_INDICATORS =
    [''localhost'', ''127.0.0.1'', ''0.0.0.0'', ''::1'', CHR 0x5B # ''::1]'', ''.local'', ''.internal'']"

definition EXTERNAL_PROTOCOLS :: "string list" where
  "EXTERNAL_PROTOCOLS = [''http://'', ''https://'', ''169.254.169.254'']"

definition EXTERNAL_SINK_KEYWORDS :: "string list" where
  "EXTERNAL_SINK_KEYWORDS =
    [''telegram'', ''discord'', ''ngrok'', ''bore.pub'', ''pastebin'', ''paste.'', ''transfer.sh'',
     ''0x0.st'', ''t.me'']"

definition CLOUD_METADATA_HOSTS :: "string list" where
  "CLOUD_METADATA_HOSTS = [''metadata.google.internal'', ''metadata.goog'']"

text \<open>The end of the string or a boundary byte; every boundary character is one ASCII byte.\<close>

definition indicator_boundary :: "string \<Rightarrow> nat \<Rightarrow> bool" where
  "indicator_boundary s i \<longleftrightarrow>
     length s \<le> i \<or> s ! i \<in> {CHR '':'', CHR ''/'', CHR ''?'', CHR ''#'', CHR '' ''}
     \<or> byte_of (s ! i) \<in> {9, 10, 13}"

definition is_exact_local_indicator :: "string \<Rightarrow> string \<Rightarrow> bool" where
  "is_exact_local_indicator token indicator =
     (let lower = to_ascii_lowercase token
      in scan_occurrences (\<lambda>i. indicator_boundary lower (i + length indicator)) lower indicator 0)"

definition is_token_external :: "string \<Rightarrow> bool" where
  "is_token_external token =
     (let is_local = list_ex (is_exact_local_indicator token) LOCAL_INDICATORS
      in if is_local then False
         else list_ex (str_contains token) EXTERNAL_PROTOCOLS
              \<or> list_ex (str_contains token) EXTERNAL_SINK_KEYWORDS
              \<or> str_contains token ''://'')"

definition token_has_embedded_external_url :: "string \<Rightarrow> bool" where
  "token_has_embedded_external_url token =
     (if \<not> list_ex (str_contains token) LOCAL_INDICATORS then False
      else
        let lower = to_ascii_lowercase token;
            ends = concat (map (\<lambda>ind. case str_rfind lower ind of
                None \<Rightarrow> [] | Some pos \<Rightarrow> [pos + length ind]) LOCAL_INDICATORS);
            after_local = foldl max 0 ends;
            remainder = drop after_local lower
        in list_ex (\<lambda>proto. case str_find remainder proto of
              None \<Rightarrow> False
            | Some pos \<Rightarrow> let embedded = drop pos remainder
                in \<not> list_ex (is_exact_local_indicator embedded) LOCAL_INDICATORS)
            [''http://'', ''https://''])"

definition is_local_only_target :: "string \<Rightarrow> bool" where
  "is_local_only_target v =
     (if list_ex (str_contains v) CLOUD_METADATA_HOSTS then False
      else
        let tokens = split_whitespace v;
            has_genuine_local =
              list_ex (\<lambda>t. list_ex (is_exact_local_indicator t) LOCAL_INDICATORS) tokens
        in if \<not> has_genuine_local then False
           else \<not> list_ex (\<lambda>t. is_token_external t \<or> token_has_embedded_external_url t) tokens)"

fun radius_factor :: "threat_category \<Rightarrow> string" where
  "radius_factor RemoteExec = ''remote execution''"
| "radius_factor DataExfiltration = ''data exfiltration''"
| "radius_factor CredentialExposure = ''secret access''"
| "radius_factor PrivilegeEscalation = ''privilege or filesystem impact''"
| "radius_factor PersistentPromptTampering = ''persistent behavior changes''"
| "radius_factor ToolAbuse = ''tool overreach''"
| "radius_factor AutonomyEscalation = ''autonomous high-impact actions''"
| "radius_factor SupplyChain = ''supply chain changes''"
| "radius_factor PersuasiveLanguage = ''persuasive language''"
| "radius_factor SocialManipulation = ''social manipulation''"
| "radius_factor ScopeCreep = ''scope creep''"
| "radius_factor Obfuscation = ''obfuscation''"
| "radius_factor UnsafeBinary = ''unsafe binary execution''"
| "radius_factor Generic = ''generic security concern''"

record radius_acc =
  ra_factors :: "string list"
  ra_severe_factors :: "string list"
  ra_targets :: "string list"
  ra_severe_count :: nat

definition is_severe_finding :: "finding \<Rightarrow> bool" where
  "is_severe_finding f \<longleftrightarrow>
     f_action f \<noteq> Log \<and> f_signal_class f \<noteq> Hygiene
     \<and> \<not> is_local_only_target (to_ascii_lowercase (match_value f))"

definition radius_step :: "radius_acc \<Rightarrow> finding \<Rightarrow> radius_acc" where
  "radius_step a f =
     (let v = to_ascii_lowercase (match_value f);
          a1 = (if list_ex (str_contains v) (LOCAL_INDICATORS @ EXTERNAL_PROTOCOLS)
                then a\<lparr>ra_targets := ra_targets a @ [v]\<rparr> else a);
          fac = radius_factor (category f);
          a2 = (if is_severe_finding f
                then a1\<lparr>ra_severe_count := ra_severe_count a1 + 1,
                        ra_severe_factors := push_new fac (ra_severe_factors a1)\<rparr>
                else a1)
      in a2\<lparr>ra_factors := push_new fac (ra_factors a2)\<rparr>)"

definition radius_level ::
  "finding list \<Rightarrow> declared_permission list \<Rightarrow> radius_acc \<Rightarrow> blast_radius_level" where
  "radius_level fs perms a =
     (if 3 \<le> ra_severe_count a
         \<or> 2 \<le> ra_severe_count a
            \<and> list_ex (\<lambda>x. x = ''remote execution'' \<or> x = ''data exfiltration'') (ra_severe_factors a)
      then Radius_High
      else if 1 \<le> ra_severe_count a \<or> perms \<noteq> []
         \<or> list_ex (\<lambda>f. f_signal_class f \<noteq> Hygiene \<and> f_action f \<noteq> Log) fs
      then Radius_Medium else Radius_Low)"

definition build_blast_radius_summary ::
  "finding list \<Rightarrow> declared_permission list \<Rightarrow> blast_radius_summary" where
  "build_blast_radius_summary fs perms =
     (let a = foldl radius_step
            \<lparr>ra_factors = [], ra_severe_factors = [], ra_targets = [], ra_severe_count = 0\<rparr> fs
      in \<lparr>br_level = radius_level fs perms a, br_factors = ra_factors a,
          br_network_targets = remdups_adj (sort (ra_targets a)),
          br_declared_permissions = perms\<rparr>)"

section \<open>What the parts compute\<close>

lemma hygiene_fold:
  "foldl hygiene_step (r, e, s, m) fs =
     (let hs = filter (\<lambda>f. f_signal_class f = Hygiene \<and> suppression f = None) fs
      in (r + length (filter (\<lambda>f. f_artifact_scope f = PackageRootArtifact) hs),
          e + length (filter (\<lambda>f. f_artifact_scope f = AgentEntrypoint) hs),
          s + length (filter (\<lambda>f. f_artifact_scope f = SupportingArtifact) hs),
          foldl (\<lambda>m f. bt_entry (rule_id f) (\<lambda>o'. (case o' of None \<Rightarrow> 0 | Some n \<Rightarrow> n) + 1) m) m hs))"
proof (induction fs arbitrary: r e s m)
  case (Cons f fs)
  then show ?case
    by (cases "f_artifact_scope f") (simp_all add: hygiene_step_def Let_def)
qed simp

lemma hygiene_counts:
  fixes fs
  defines "hs \<equiv> filter (\<lambda>f. f_signal_class f = Hygiene \<and> suppression f = None) fs"
  shows "package_root_findings (build_hygiene_summary fs)
           = length (filter (\<lambda>f. f_artifact_scope f = PackageRootArtifact) hs)"
    and "entrypoint_findings (build_hygiene_summary fs)
           = length (filter (\<lambda>f. f_artifact_scope f = AgentEntrypoint) hs)"
    and "supporting_findings (build_hygiene_summary fs)
           = length (filter (\<lambda>f. f_artifact_scope f = SupportingArtifact) hs)"
  by (simp_all add: build_hygiene_summary_def hygiene_fold hs_def Let_def)

lemma hygiene_scopes_total:
  "length (filter (\<lambda>f. f_artifact_scope f = PackageRootArtifact) hs)
   + length (filter (\<lambda>f. f_artifact_scope f = AgentEntrypoint) hs)
   + length (filter (\<lambda>f. f_artifact_scope f = SupportingArtifact) hs) = length hs"
proof (induction hs)
  case (Cons f hs)
  then show ?case by (cases "f_artifact_scope f") simp_all
qed simp

interpretation hygiene_order: comparator_laws hygiene_order
  unfolding hygiene_order_def [abs_def] by (intro comparator_then comparator_key comparator_key_desc)

lemma hygiene_top_rules:
  "distinct (top_rules (build_hygiene_summary fs))
   \<and> length (top_rules (build_hygiene_summary fs)) \<le> 5
   \<and> set (top_rules (build_hygiene_summary fs)) \<subseteq>
       rule_id ` {f \<in> set fs. f_signal_class f = Hygiene \<and> suppression f = None}"
proof -
  define hs where "hs = filter (\<lambda>f. f_signal_class f = Hygiene \<and> suppression f = None) fs"
  define m :: "(string \<times> nat) list" where "m = foldl (\<lambda>m f. bt_entry (rule_id f) (\<lambda>o'. (case o' of None \<Rightarrow> 0 | Some n \<Rightarrow> n) + 1) m) [] hs"
  have top: "top_rules (build_hygiene_summary fs) = take 5 (map fst (sort_by hygiene_order m))"
    by (simp add: build_hygiene_summary_def hygiene_fold Let_def MAX_HYGIENE_TOP_RULES_def m_def hs_def)
  have "bt_invar m" unfolding m_def by (rule bt.invar_fold [OF bt.invar_empty])
  then have "distinct (map fst (sort_by hygiene_order m))"
    using bt.items_distinct by (simp only: distinct_map_sort_by)
  moreover have "set (map fst (sort_by hygiene_order m)) = rule_id ` set hs"
    by (simp add: m_def bt.keys_fold)
  ultimately show ?thesis
    unfolding top using set_take_subset [of 5 "map fst (sort_by hygiene_order m)"] by (simp add: hs_def)
qed

lemma radius_fold:
  "ra_severe_count (foldl radius_step a fs) = ra_severe_count a + length (filter is_severe_finding fs)"
  "set (ra_severe_factors (foldl radius_step a fs))
     = set (ra_severe_factors a) \<union> (\<lambda>f. radius_factor (category f)) ` {f \<in> set fs. is_severe_finding f}"
  "set (ra_factors (foldl radius_step a fs))
     = set (ra_factors a) \<union> (\<lambda>f. radius_factor (category f)) ` set fs"
  by (induction fs arbitrary: a) (auto simp: radius_step_def Let_def)

lemma radius_factor_exec: "radius_factor c = ''remote execution'' \<longleftrightarrow> c = RemoteExec"
  "radius_factor c = ''data exfiltration'' \<longleftrightarrow> c = DataExfiltration"
  by (cases c; simp)+

lemma blast_radius_high:
  "br_level (build_blast_radius_summary fs perms) = Radius_High \<longleftrightarrow>
     3 \<le> length (filter is_severe_finding fs)
     \<or> 2 \<le> length (filter is_severe_finding fs)
        \<and> (\<exists>f\<in>set fs. is_severe_finding f \<and> category f \<in> {RemoteExec, DataExfiltration})"
proof -
  define a where "a = foldl radius_step
    \<lparr>ra_factors = [], ra_severe_factors = [], ra_targets = [], ra_severe_count = 0\<rparr> fs"
  have "list_ex (\<lambda>x. x = ''remote execution'' \<or> x = ''data exfiltration'') (ra_severe_factors a)
      \<longleftrightarrow> (\<exists>f\<in>set fs. is_severe_finding f \<and> category f \<in> {RemoteExec, DataExfiltration})"
    unfolding list_ex_iff a_def radius_fold(2) by (auto simp: radius_factor_exec)
  moreover have "ra_severe_count a = length (filter is_severe_finding fs)"
    by (simp add: a_def radius_fold(1))
  ultimately show ?thesis
    by (simp add: build_blast_radius_summary_def radius_level_def Let_def flip: a_def)
qed

lemma blast_radius_low:
  "br_level (build_blast_radius_summary fs perms) = Radius_Low \<longleftrightarrow>
     perms = [] \<and> (\<forall>f\<in>set fs. f_action f = Log \<or> f_signal_class f = Hygiene)"
proof -
  define a where "a = foldl radius_step
    \<lparr>ra_factors = [], ra_severe_factors = [], ra_targets = [], ra_severe_count = 0\<rparr> fs"
  have "ra_severe_count a = length (filter is_severe_finding fs)"
    by (simp add: a_def radius_fold(1))
  moreover have "1 \<le> length (filter is_severe_finding fs) \<longleftrightarrow> (\<exists>f\<in>set fs. is_severe_finding f)"
    using filter_empty_conv [of is_severe_finding fs] by (cases "filter is_severe_finding fs") auto
  ultimately show ?thesis
    by (auto simp: build_blast_radius_summary_def radius_level_def Let_def list_ex_iff
        is_severe_finding_def simp flip: a_def)
qed

lemma explicit_permissions_set:
  "set (collect_explicit_permissions fs)
     = {p. \<exists>f\<in>set fs. f_artifact_scope f = AgentEntrypoint \<and> declared_permission_for_rule (rule_id f) = Some p}"
proof -
  have "set (foldl (\<lambda>acc f. case declared_permission_for_rule (rule_id f) of
         Some p \<Rightarrow> push_new p acc | None \<Rightarrow> acc) acc fs)
       = set acc \<union> {p. \<exists>f\<in>set fs. declared_permission_for_rule (rule_id f) = Some p}" for acc and fs :: "finding list"
    by (induction fs arbitrary: acc) (auto split: option.splits)
  then show ?thesis by (auto simp: collect_explicit_permissions_def)
qed

lemma explicit_permissions_distinct: "distinct (collect_explicit_permissions fs)"
proof -
  have "distinct acc \<Longrightarrow> distinct (foldl (\<lambda>acc f. case declared_permission_for_rule (rule_id f) of
         Some p \<Rightarrow> push_new p acc | None \<Rightarrow> acc) acc fs)" for acc and fs :: "finding list"
    by (induction fs arbitrary: acc) (auto split: option.splits)
  then show ?thesis by (simp add: collect_explicit_permissions_def)
qed

lemma declared_permissions_sorted:
  "sorted_wrt (<) (derive_declared_permissions fs s)"
  "set (derive_declared_permissions fs s)
     = set (collect_explicit_permissions fs) \<union> set (infer_permissions_from_keywords fs s)"
  by (simp_all add: derive_declared_permissions_def strict_sorted_iff foldl_push_new_set
      foldl_push_new_distinct explicit_permissions_distinct)

section \<open>Properties of the parts\<close>

text \<open>The blast radius is high exactly with three severe findings, or two of which one is remote
  execution or exfiltration; it is low exactly without permissions and without a
  non-hygiene finding that asks for action.\<close>

theorem blast_radius_level_iff:
  "(br_level (build_blast_radius_summary fs perms) = Radius_High \<longleftrightarrow>
     3 \<le> length (filter is_severe_finding fs)
     \<or> 2 \<le> length (filter is_severe_finding fs)
        \<and> (\<exists>f\<in>set fs. is_severe_finding f \<and> category f \<in> {RemoteExec, DataExfiltration}))
   \<and> (br_level (build_blast_radius_summary fs perms) = Radius_Low \<longleftrightarrow>
     perms = [] \<and> list_all (\<lambda>f. f_action f = Log \<or> f_signal_class f = Hygiene) fs)"
  using blast_radius_high blast_radius_low by (simp add: list_all_iff)

text \<open>The hygiene summary counts each unsuppressed hygiene finding once, in its scope, and
  names at most five different rules, all of such findings.\<close>

theorem hygiene_summary_correct:
  "package_root_findings (build_hygiene_summary fs) + entrypoint_findings (build_hygiene_summary fs)
     + supporting_findings (build_hygiene_summary fs)
     = length (filter (\<lambda>f. f_signal_class f = Hygiene \<and> suppression f = None) fs)
   \<and> distinct (top_rules (build_hygiene_summary fs))
   \<and> length (top_rules (build_hygiene_summary fs)) \<le> 5
   \<and> set (top_rules (build_hygiene_summary fs)) \<subseteq>
       rule_id ` {f \<in> set fs. f_signal_class f = Hygiene \<and> suppression f = None}"
  using hygiene_top_rules [of fs] unfolding hygiene_counts hygiene_scopes_total by simp

end
