(* ===== verification/Verdict.thy ===== *)
theory Verdict
  imports Verdict_Parts
begin

text \<open>
  \<open>verdict/predicates.rs\<close> and \<open>verdict.rs\<close>: the predicates over findings, raw and calibrated groups,
  compound reasons and summaries; the verdict and the package health they give; and the composition
  \<open>derive_package_verdict\<close> of grouping, calibration, merging and these. Shown: when a
  package is malicious (an exact characterisation), when it is not benign, and that calibration cannot
  hide a conclusive finding or two independent malicious ones.
\<close>

section \<open>Predicates\<close>

record verdict_inputs =
  in_findings :: "finding list"
  in_groups :: "root_cause_group list"
  in_raw_groups :: "root_cause_group list"
  in_compound :: "verdict_reason list"
  in_primary :: finding_summary
  in_supporting :: finding_summary

definition CONCLUSIVE_SINGLE_RULE_IDS :: "string list" where
  "CONCLUSIVE_SINGLE_RULE_IDS =
    [''SKILL_MALICIOUS_PUBLISHER'', ''SKILL_MACOS_BASE64_RCE'', ''SKILL_FAKE_DEPENDENCY_DROPPER'',
     ''SKILL_TELEGRAM_BOT_TOKEN_HARDCODED'', ''SKILL_ECHO_WRAPPED_BASE64_EXEC'',
     ''SKILL_HARDCODED_MESSAGING_EXFIL'', ''SKILL_BASE64_PIPE_EXEC'', ''SKILL_SSH_KEY_INJECTION'',
     ''SKILL_MALICIOUS_DOMAIN'', ''SKILL_REVERSE_SHELL_BASH'',
     ''OFFICIAL_BACKDOOR_REMOTE_INSTRUCTION_HOST'', ''SKILL_EXEC_CRON_INJECTION'',
     ''OFFICIAL_APPROVAL_BYPASS_WITH_EXECUTION'', ''SKILL_SUPPLY_CHAIN_TYPOSQUATTING'',
     ''OFFICIAL_REMOTE_FETCH_EXEC_POLYGLOT'', ''SKILL_CREDENTIAL_HARVESTING_ACTIVE'',
     ''SKILL_REMOTE_EXEC_POWERSHELL'', ''SKILL_REMOTE_EXEC_POWERSHELL_IEX'', ''SKILL_PUMP_DUMP'',
     ''SKILL_SMS_DATABASE_MULTI'']"

definition is_conclusive_single_rule_id :: "string \<Rightarrow> bool" where
  "is_conclusive_single_rule_id r \<longleftrightarrow> r \<in> set CONCLUSIVE_SINGLE_RULE_IDS"

record verdict_predicates =
  has_malicious_behavior :: bool
  has_compound_malicious :: bool
  has_primary_block :: bool
  has_supporting_block :: bool
  has_non_hygiene_signal :: bool
  calibration_weakened_non_hygiene :: bool
  has_actionable_non_package_root :: bool
  severe_hygiene_only :: bool
  has_conclusive_supporting_malicious :: bool
  has_conclusive_single_rule :: bool
  isolated_weak_package_root_signal :: bool
  has_non_hygiene_primary_block :: bool
  isolated_weak_signal_key :: "group_id option"
  has_independent_malicious_corroboration :: bool

definition is_non_hygiene_actionable :: "root_cause_group \<Rightarrow> bool" where
  "is_non_hygiene_actionable g \<longleftrightarrow>
     g_signal_class g \<in> {MaliciousBehavior, SuspiciousPackageBehavior, ReviewSignal}
     \<and> strongest_action g \<noteq> Log"

definition isolated_weak_package_root_group :: "root_cause_group list \<Rightarrow> root_cause_group option" where
  "isolated_weak_package_root_group gs =
     (case filter (\<lambda>g. strongest_action g \<noteq> Log) gs of
        [g] \<Rightarrow> if g_scope g = PackageRootArtifact \<and> strongest_action g = RequireApproval
                 \<and> g_signal_class g \<in> {ReviewSignal, SuspiciousPackageBehavior}
               then Some g else None
      | _ \<Rightarrow> None)"

definition calibrated_counterpart ::
  "root_cause_group list \<Rightarrow> root_cause_group \<Rightarrow> root_cause_group option" where
  "calibrated_counterpart groups raw =
     (case find (\<lambda>c. g_scope c = g_scope raw \<and> g_category c = g_category raw
              \<and> g_signal_class c = g_signal_class raw) groups of
        Some c \<Rightarrow> Some c
      | None \<Rightarrow> find (\<lambda>c. g_scope c = g_scope raw \<and> g_category c = g_category raw
              \<and> g_signal_class c = ReviewSignal) groups)"

definition weakened_by_calibration :: "root_cause_group list \<Rightarrow> root_cause_group \<Rightarrow> bool" where
  "weakened_by_calibration groups raw =
     (if \<not> is_non_hygiene_actionable raw then False
      else case calibrated_counterpart groups raw of
             None \<Rightarrow> True
           | Some c \<Rightarrow> strongest_action c < strongest_action raw
                      \<or> g_signal_class c \<noteq> g_signal_class raw)"

definition is_malicious_block :: "finding \<Rightarrow> bool" where
  "is_malicious_block f \<longleftrightarrow> f_signal_class f = MaliciousBehavior \<and> f_action f = Block"

definition compute_predicates :: "verdict_inputs \<Rightarrow> verdict_predicates" where
  "compute_predicates i =
     (let groups = in_groups i;
          malicious = list_ex (\<lambda>g. g_signal_class g = MaliciousBehavior \<and> strongest_action g = Block) groups;
          non_hygiene = list_ex is_non_hygiene_actionable groups;
          weakened = list_ex (weakened_by_calibration groups) (in_raw_groups i);
          isolated = map_option (\<lambda>g. (g_scope g, g_category g, g_signal_class g))
                       (isolated_weak_package_root_group groups);
          blocks = filter is_malicious_block (in_findings i);
          block_rule_ids = bset_collect (map rule_id blocks);
          block_keys = bset_collect (map (\<lambda>f. (category f, f_artifact_scope f)) blocks)
      in \<lparr>has_malicious_behavior = malicious,
          has_compound_malicious = list_ex (\<lambda>r. vr_signal_class r = MaliciousBehavior) (in_compound i),
          has_primary_block = (s_action (in_primary i) = Block),
          has_supporting_block = (s_action (in_supporting i) = Block),
          has_non_hygiene_signal = non_hygiene,
          calibration_weakened_non_hygiene = weakened,
          has_actionable_non_package_root = list_ex (\<lambda>g. g_scope g \<noteq> PackageRootArtifact
            \<and> strongest_action g \<noteq> Log \<and> g_signal_class g \<noteq> Hygiene) groups,
          severe_hygiene_only = (\<not> non_hygiene \<and> \<not> weakened
            \<and> list_ex (\<lambda>g. g_signal_class g = Hygiene \<and> strongest_action g = Block) groups),
          has_conclusive_supporting_malicious = list_ex is_conclusive_malicious_evidence (in_findings i),
          has_conclusive_single_rule = list_ex (\<lambda>f. rule_id f \<in> set CONCLUSIVE_SINGLE_RULE_IDS
            \<and> f_action f = Block) (in_findings i),
          isolated_weak_package_root_signal = (isolated \<noteq> None),
          has_non_hygiene_primary_block = list_ex (\<lambda>g. g_scope g = AgentEntrypoint
            \<and> strongest_action g = Block \<and> g_signal_class g \<noteq> Hygiene) groups,
          isolated_weak_signal_key = isolated,
          has_independent_malicious_corroboration =
            (2 \<le> length block_rule_ids \<or> 2 \<le> length block_keys)\<rparr>)"

section \<open>Verdict and health\<close>

definition escalates :: "verdict_predicates \<Rightarrow> bool" where
  "escalates p \<longleftrightarrow>
     ((has_malicious_behavior p \<or> has_non_hygiene_primary_block p)
        \<and> has_independent_malicious_corroboration p)
     \<or> has_conclusive_single_rule p \<or> has_compound_malicious p
     \<or> (has_supporting_block p \<and> has_conclusive_supporting_malicious p)"

definition isolated_group_intact :: "verdict_predicates \<Rightarrow> verdict_calibration_note list \<Rightarrow> bool" where
  "isolated_group_intact p ns =
     (case isolated_weak_signal_key p of
        None \<Rightarrow> True
      | Some (s, c, sc) \<Rightarrow>
          list_all (\<lambda>n. starts_with (n_effect n) ''remains_'' \<or> n_effect n = ''reclassified_only'')
            (filter (\<lambda>n. n_scope n = s \<and> n_category n = c \<and> n_signal_class n = sc) ns))"

definition verdict_of ::
  "verdict_predicates \<Rightarrow> verdict_calibration_note list \<Rightarrow> finding_summary \<Rightarrow> finding_summary \<Rightarrow> verdict" where
  "verdict_of p ns primary package =
     (if escalates p then Malicious
      else
        let risk_gated_high = (RISK_THRESHOLD_BLOCK \<le> risk_score primary
              \<or> RISK_THRESHOLD_BLOCK \<le> risk_score package)
        in if isolated_weak_package_root_signal p \<and> \<not> has_actionable_non_package_root p
              \<and> \<not> has_primary_block p \<and> \<not> calibration_weakened_non_hygiene p
              \<and> \<not> risk_gated_high \<and> isolated_group_intact p ns
              \<and> risk_score package < RISK_THRESHOLD_APPROVAL
              \<and> risk_score primary < RISK_THRESHOLD_APPROVAL
           then Benign
           else if has_non_hygiene_signal p \<or> has_actionable_non_package_root p
              \<or> severe_hygiene_only p \<or> calibration_weakened_non_hygiene p \<or> risk_gated_high
           then Suspicious else Benign)"

definition package_health_of :: "verdict_predicates \<Rightarrow> hygiene_summary \<Rightarrow> verdict \<Rightarrow> package_health" where
  "package_health_of p h v =
     (let base = (if package_root_findings h = 0 \<and> entrypoint_findings h = 0
                     \<and> supporting_findings h = 0 then Healthy
                  else if severe_hygiene_only p then NeedsReview
                  else if has_non_hygiene_signal p \<or> calibration_weakened_non_hygiene p then Elevated
                  else NeedsReview)
      in if v = Benign \<and> base = Elevated then NeedsReview else base)"

section \<open>The package verdict\<close>

definition MAX_VERDICT_REASONS :: nat where
  "MAX_VERDICT_REASONS = 8"

definition MAX_TOP_RISK_DRIVERS :: nat where
  "MAX_TOP_RISK_DRIVERS = 5"

definition group_reason :: "root_cause_group \<Rightarrow> verdict_reason" where
  "group_reason g =
     \<lparr>vr_scope = g_scope g, vr_category = g_category g, vr_signal_class = g_signal_class g,
      vr_rationale = digits_of (finding_count g) @ '' finding(s) in ''
        @ artifact_scope_display (g_scope g) @ '' with strongest action ''
        @ recommended_action_display (strongest_action g)\<rparr>"

definition derive_package_verdict ::
  "finding list \<Rightarrow> finding_summary \<Rightarrow> finding_summary \<Rightarrow> finding_summary \<Rightarrow> package_verdict_report" where
  "derive_package_verdict fs primary supporting package =
     (let raw = build_root_cause_groups fs;
          calibration = calibrate_verdict_inputs fs raw;
          groups = merge_calibrated_groups (vc_root_cause_groups calibration);
          compound = detect_compound_verdict_reasons fs raw;
          reasons = take MAX_VERDICT_REASONS (compound @ map group_reason groups);
          p = compute_predicates \<lparr>in_findings = fs, in_groups = groups, in_raw_groups = raw,
                in_compound = compound, in_primary = primary, in_supporting = supporting\<rparr>;
          hygiene = build_hygiene_summary fs;
          permissions = derive_declared_permissions fs supporting;
          radius = build_blast_radius_summary fs permissions;
          capabilities = derive_effective_capabilities groups;
          calibrated_package = with_risk_adjustment package (vc_risk_adjustment calibration);
          v = verdict_of p (vc_notes calibration) primary calibrated_package
      in \<lparr>pv_verdict = v, pv_package_health = package_health_of p hygiene v,
          pv_hygiene_summary = hygiene, pv_declared_permissions = permissions,
          pv_effective_capabilities = capabilities, pv_blast_radius_summary = radius,
          pv_verdict_reasons = reasons, pv_root_cause_groups = groups,
          pv_top_risk_drivers = take MAX_TOP_RISK_DRIVERS (score_breakdown package),
          pv_calibration_notes = vc_notes calibration,
          pv_calibration_risk_adjustment = vc_risk_adjustment calibration\<rparr>)"

section \<open>The intermediate results by name\<close>

definition package_groups :: "finding list \<Rightarrow> root_cause_group list" where
  "package_groups fs = merge_calibrated_groups
     (vc_root_cause_groups (calibrate_verdict_inputs fs (build_root_cause_groups fs)))"

definition package_adjustment :: "finding list \<Rightarrow> int" where
  "package_adjustment fs = vc_risk_adjustment (calibrate_verdict_inputs fs (build_root_cause_groups fs))"

definition package_notes :: "finding list \<Rightarrow> verdict_calibration_note list" where
  "package_notes fs = vc_notes (calibrate_verdict_inputs fs (build_root_cause_groups fs))"

definition package_compound :: "finding list \<Rightarrow> verdict_reason list" where
  "package_compound fs = detect_compound_verdict_reasons fs (build_root_cause_groups fs)"

definition package_predicates ::
  "finding list \<Rightarrow> finding_summary \<Rightarrow> finding_summary \<Rightarrow> verdict_predicates" where
  "package_predicates fs primary supporting = compute_predicates
     \<lparr>in_findings = fs, in_groups = package_groups fs, in_raw_groups = build_root_cause_groups fs,
      in_compound = package_compound fs, in_primary = primary, in_supporting = supporting\<rparr>"

lemma derive_fields:
  "pv_verdict (derive_package_verdict fs primary supporting package) =
     verdict_of (package_predicates fs primary supporting) (package_notes fs) primary
       (with_risk_adjustment package (package_adjustment fs))"
  "pv_root_cause_groups (derive_package_verdict fs primary supporting package) = package_groups fs"
  "pv_package_health (derive_package_verdict fs primary supporting package) =
     package_health_of (package_predicates fs primary supporting) (build_hygiene_summary fs)
       (pv_verdict (derive_package_verdict fs primary supporting package))"
  "pv_calibration_risk_adjustment (derive_package_verdict fs primary supporting package) = package_adjustment fs"
  "pv_calibration_notes (derive_package_verdict fs primary supporting package) = package_notes fs"
  "length (pv_verdict_reasons (derive_package_verdict fs primary supporting package)) \<le> 8"
  "length (pv_top_risk_drivers (derive_package_verdict fs primary supporting package)) \<le> 5"
  by (simp_all add: derive_package_verdict_def Let_def package_groups_def package_predicates_def
      package_compound_def package_notes_def package_adjustment_def MAX_VERDICT_REASONS_def
      MAX_TOP_RISK_DRIVERS_def)

section \<open>Groups of the package\<close>

lemma package_group_origin:
  assumes "g \<in> set (package_groups fs)"
  shows "\<exists>k\<in>finding_key ` set fs. g_scope g = fst k \<and> g_category g = fst (snd k)
    \<and> (g_signal_class g = snd (snd k) \<or> g_signal_class g = ReviewSignal)
    \<and> strongest_action g \<le> strongest_action (group_spec fs k)"
proof -
  obtain c where c: "c \<in> set (vc_root_cause_groups (calibrate_verdict_inputs fs (build_root_cause_groups fs)))"
    "group_key c = group_key g" "strongest_action c = strongest_action g"
    using merge_groups_mem(3) assms unfolding package_groups_def by blast
  then obtain k where k: "k \<in> finding_key ` set fs" "calibrated_from fs k c"
    using calibrated_group_mem by blast
  then show ?thesis
    using calibrated_from_le [OF k(2,1)] c(2,3)
    by (intro bexI [OF _ k(1)]) (auto simp: group_key_def calibrated_from_def)
qed

lemma package_group_covers:
  assumes "f \<in> set fs" "rule_id f \<notin> set CALIBRATED_RULE_IDS"
  shows "\<exists>g\<in>set (package_groups fs). g_scope g = f_artifact_scope f \<and> g_category g = category f
    \<and> f_action f \<le> strongest_action g
    \<and> (g_signal_class g = f_signal_class f \<or> f_action f \<noteq> Block \<and> g_signal_class g = ReviewSignal)"
proof -
  let ?k = "finding_key f"
  have k: "?k \<in> finding_key ` set fs" using assms(1) by simp
  have "f \<in> set (survivors fs ?k (calibration_exclusions fs ?k))"
    using assms calibration_exclusions_ids [of fs ?k] unfolding survivors_def set_filter by blast
  then have "survivors fs ?k (calibration_exclusions fs ?k) \<noteq> []" by auto
  then obtain c where c: "c \<in> set (vc_root_cause_groups (calibrate_verdict_inputs fs (build_root_cause_groups fs)))"
    "calibrated_from fs ?k c"
    using calibrated_group_ex [OF k] by blast
  obtain g where g: "g \<in> set (package_groups fs)" "group_key g = group_key c" "strongest_action c \<le> strongest_action g"
    using merge_groups_covers [OF c(1)] unfolding package_groups_def by blast
  have le: "f_action f \<le> strongest_action c"
    using calibrated_from_action_ge [OF c(2) assms] .
  have "g_signal_class c = f_signal_class f
      \<or> g_signal_class c = ReviewSignal \<and> strongest_action c < strongest_action (group_spec fs ?k)"
    using c(2) by (auto simp: calibrated_from_def finding_key_def)
  then have "g_signal_class c = f_signal_class f \<or> f_action f \<noteq> Block \<and> g_signal_class c = ReviewSignal"
    using le by (metis Block_greatest leD order.trans)
  then show ?thesis
    using g le calibrated_from_le(3,4) [OF c(2) k]
    by (intro bexI [OF _ g(1)]) (auto simp: group_key_def finding_key_def)
qed

lemma package_groups_count_pos:
  assumes "g \<in> set (package_groups fs)"
  shows "0 < finding_count g"
proof -
  let ?cs = "vc_root_cause_groups (calibrate_verdict_inputs fs (build_root_cause_groups fs))"
  have count: "finding_count g = sum_list (map finding_count (filter (\<lambda>c. group_key c = group_key g) ?cs))"
    using merge_groups_mem(2) assms unfolding package_groups_def by blast
  obtain c where c: "c \<in> set ?cs" "group_key c = group_key g"
    using merge_groups_mem(3) assms unfolding package_groups_def by blast
  then have "0 < finding_count c" using calibrated_group_mem by blast
  moreover have "finding_count c \<le> finding_count g"
    unfolding count using c by (intro member_le_sum_list) auto
  ultimately show ?thesis by simp
qed

lemma calibrated_groups_length:
  "length (vc_root_cause_groups (calibrate_verdict_inputs fs (build_root_cause_groups fs)))
     \<le> length (build_root_cause_groups fs)"
proof -
  obtain gs' adj ns where res: "(gs', adj, ns) = apply_calibration_rules
      (build_root_cause_groups fs) fs (compute_calibration_gates fs)
      (map (\<lambda>g. (strongest_action g, g_signal_class g)) (build_root_cause_groups fs))"
    by (metis prod_cases3)
  have "length gs' = length (build_root_cause_groups fs)"
    using list_all2_lengthD [OF calibrated_groups_list_all2 [OF res]] by simp
  then show ?thesis
    using res length_filter_le [of "\<lambda>g. 0 < finding_count g" gs']
    by (auto simp: calibrate_verdict_inputs_def Let_def split: prod.splits)
qed

lemma package_groups_length: "length (package_groups fs) \<le> length (build_root_cause_groups fs)"
  unfolding package_groups_def using merge_groups_length calibrated_groups_length le_trans by blast

section \<open>When the verdict is malicious, and when it is not benign\<close>

lemma two_in_bset: "2 \<le> length (bset_collect xs) \<longleftrightarrow> (\<exists>x\<in>set xs. \<exists>y\<in>set xs. x \<noteq> y)"
proof -
  have len: "length (bset_collect xs) = card (set xs)"
    using bset_collect_sorted [of xs] by (metis bset_collect_set distinct_card)
  have "2 \<le> card (set xs) \<longleftrightarrow> (\<exists>x\<in>set xs. \<exists>y\<in>set xs. x \<noteq> y)"
    by (metis List.finite_set One_nat_def Suc_le_eq card_le_Suc0_iff_eq not_less numeral_2_eq_2)
  then show ?thesis unfolding len .
qed

lemma verdict_malicious_iff: "verdict_of p ns primary package = Malicious \<longleftrightarrow> escalates p"
  by (simp add: verdict_of_def Let_def)

lemma corroboration_iff:
  "has_independent_malicious_corroboration (compute_predicates i) \<longleftrightarrow>
     (\<exists>f\<in>set (in_findings i). \<exists>g\<in>set (in_findings i). is_malicious_block f \<and> is_malicious_block g
        \<and> (rule_id f \<noteq> rule_id g \<or> category f \<noteq> category g \<or> f_artifact_scope f \<noteq> f_artifact_scope g))"
  by (auto simp: compute_predicates_def Let_def two_in_bset)

lemma not_benign:
  assumes "calibration_weakened_non_hygiene p
    \<or> has_actionable_non_package_root p
    \<or> has_non_hygiene_signal p \<and> \<not> isolated_weak_package_root_signal p"
  shows "verdict_of p ns primary package \<noteq> Benign"
  using assms by (auto simp: verdict_of_def Let_def)

lemma raw_group_kept_or_weakened:
  assumes "raw \<in> set (build_root_cause_groups fs)" "is_non_hygiene_actionable raw"
    and "\<not> calibration_weakened_non_hygiene (package_predicates fs primary supporting)"
  shows "\<exists>g\<in>set (package_groups fs). g_scope g = g_scope raw \<and> g_category g = g_category raw
    \<and> g_signal_class g = g_signal_class raw \<and> strongest_action raw \<le> strongest_action g"
proof -
  have "\<not> weakened_by_calibration (package_groups fs) raw"
    using assms(1,3) by (auto simp: package_predicates_def compute_predicates_def Let_def list_ex_iff)
  then show ?thesis
    using assms(2)
    by (auto simp: weakened_by_calibration_def calibrated_counterpart_def not_less
        split: option.splits dest!: find_mem)
qed

lemma isolated_group_only:
  assumes "isolated_weak_package_root_group gs = Some h" "g \<in> set gs" "strongest_action g \<noteq> Log"
  shows "strongest_action g = RequireApproval"
proof -
  have "filter (\<lambda>g. strongest_action g \<noteq> Log) gs = [h] \<and> strongest_action h = RequireApproval"
    using assms(1) by (auto simp: isolated_weak_package_root_group_def split: list.splits if_splits)
  moreover have "g \<in> set (filter (\<lambda>g. strongest_action g \<noteq> Log) gs)" using assms(2,3) by simp
  ultimately show ?thesis by simp
qed

lemma package_predicates_fields:
  "has_malicious_behavior (package_predicates fs primary supporting) \<longleftrightarrow>
     (\<exists>g\<in>set (package_groups fs). g_signal_class g = MaliciousBehavior \<and> strongest_action g = Block)"
  "has_non_hygiene_primary_block (package_predicates fs primary supporting) \<longleftrightarrow>
     (\<exists>g\<in>set (package_groups fs). g_scope g = AgentEntrypoint \<and> strongest_action g = Block
        \<and> g_signal_class g \<noteq> Hygiene)"
  "has_conclusive_single_rule (package_predicates fs primary supporting) \<longleftrightarrow>
     (\<exists>f\<in>set fs. is_conclusive_single_rule_id (rule_id f) \<and> f_action f = Block)"
  "has_compound_malicious (package_predicates fs primary supporting) \<longleftrightarrow>
     (\<exists>r\<in>set (package_compound fs). vr_signal_class r = MaliciousBehavior)"
  "has_supporting_block (package_predicates fs primary supporting) \<longleftrightarrow> s_action supporting = Block"
  "has_conclusive_supporting_malicious (package_predicates fs primary supporting) \<longleftrightarrow>
     (\<exists>f\<in>set fs. is_conclusive_malicious_evidence f)"
  "has_independent_malicious_corroboration (package_predicates fs primary supporting) \<longleftrightarrow>
      (\<exists>f\<in>set fs. \<exists>g\<in>set fs. is_malicious_block f \<and> is_malicious_block g
        \<and> (rule_id f \<noteq> rule_id g \<or> category f \<noteq> category g \<or> f_artifact_scope f \<noteq> f_artifact_scope g))"
  unfolding package_predicates_def corroboration_iff
  by (simp_all add: compute_predicates_def Let_def list_ex_iff is_conclusive_single_rule_id_def)

lemma finding_raw_group:
  assumes "f \<in> set fs"
  defines "raw \<equiv> group_spec fs (finding_key f)"
  shows "raw \<in> set (build_root_cause_groups fs)" "g_scope raw = f_artifact_scope f"
    "g_category raw = category f" "g_signal_class raw = f_signal_class f"
    "f_action f \<le> strongest_action raw"
  using assms finding_in_build_group group_spec_action_ge [OF assms(1)]
  by (simp_all add: group_spec_def finding_key_def)

lemma not_benign_if_actionable:
  assumes "f \<in> set fs" "f_signal_class f \<noteq> Hygiene"
    and "f_action f = Block \<or> f_action f \<noteq> Log \<and> f_artifact_scope f \<noteq> PackageRootArtifact"
  shows "verdict_of (package_predicates fs primary supporting) ns ps pk \<noteq> Benign"
proof -
  let ?p = "package_predicates fs primary supporting"
  let ?raw = "group_spec fs (finding_key f)"
  note raw = finding_raw_group [OF assms(1)]
  have act: "f_action f \<noteq> Log" using assms(3) by auto
  then have "strongest_action ?raw \<noteq> Log" using raw(5) by (auto simp: not_Log_iff)
  then have nh: "is_non_hygiene_actionable ?raw"
    using assms(2) raw(4) by (cases "f_signal_class f") (auto simp: is_non_hygiene_actionable_def)
  show ?thesis
  proof (cases "calibration_weakened_non_hygiene ?p")
    case True
    then show ?thesis by (rule not_benign [OF disjI1])
  next
    case False
    then obtain g where g: "g \<in> set (package_groups fs)" "g_scope g = f_artifact_scope f"
      "g_signal_class g = f_signal_class f" "f_action f \<le> strongest_action g"
      using raw_group_kept_or_weakened [OF raw(1) nh] raw by (metis order.trans)
    then have g_act: "strongest_action g \<noteq> Log" using act by (auto simp: not_Log_iff)
    then have signal: "has_non_hygiene_signal ?p"
      using g(1,3) assms(2)
      by (cases "f_signal_class f") (auto simp: package_predicates_def compute_predicates_def Let_def
          list_ex_iff is_non_hygiene_actionable_def)
    show ?thesis
    proof (cases "f_artifact_scope f = PackageRootArtifact")
      case True
      then have "strongest_action g = Block"
        using assms(3) g(4) by (cases "strongest_action g") (auto simp: enum_order)
      then have "isolated_weak_package_root_group (package_groups fs) = None"
        using isolated_group_only [OF _ g(1) g_act]
        by (cases "isolated_weak_package_root_group (package_groups fs)") auto
      then have "\<not> isolated_weak_package_root_signal ?p"
        by (simp add: package_predicates_def compute_predicates_def Let_def)
      with signal show ?thesis by (intro not_benign) blast
    next
      case False
      then have "has_actionable_non_package_root ?p"
        using g g_act assms(2)
        by (auto simp: package_predicates_def compute_predicates_def Let_def list_ex_iff intro!: bexI [of _ g])
      then show ?thesis by (intro not_benign) blast
    qed
  qed
qed

section \<open>Properties of the package verdict\<close>


text \<open>One blocking finding of a conclusive rule makes the package malicious, whatever the other
  findings, the calibration and the summaries are.\<close>

theorem conclusive_rule_malicious:
  assumes "f \<in> set fs" "is_conclusive_single_rule_id (rule_id f)" "f_action f = Block"
  shows "pv_verdict (derive_package_verdict fs primary supporting package) = Malicious"
  unfolding derive_fields verdict_malicious_iff escalates_def package_predicates_fields
  using assms by blast

theorem conclusive_rule_malicious_witness:
  "pv_verdict (derive_package_verdict
     [example_finding ''SKILL_PUMP_DUMP'' SocialManipulation AgentEntrypoint SuspiciousPackageBehavior Block]
     (from_findings []) (from_findings []) (from_findings [])) = Malicious"
  by (rule conclusive_rule_malicious [of "example_finding ''SKILL_PUMP_DUMP'' SocialManipulation AgentEntrypoint
        SuspiciousPackageBehavior Block"])
     (simp_all add: is_conclusive_single_rule_id_def CONCLUSIVE_SINGLE_RULE_IDS_def)


text \<open>Calibration cannot hide corroborated malice: two blocking malicious findings of different
  rules, categories or scopes make the package malicious when one of them is not of a calibrated
  rule.\<close>

theorem corroborated_malice_malicious:
  assumes "f \<in> set fs" "g \<in> set fs" "is_malicious_block f" "is_malicious_block g"
    and "rule_id f \<noteq> rule_id g \<or> category f \<noteq> category g \<or> f_artifact_scope f \<noteq> f_artifact_scope g"
    and "rule_id f \<notin> set CALIBRATED_RULE_IDS"
  shows "pv_verdict (derive_package_verdict fs primary supporting package) = Malicious"
proof -
  obtain r where "r \<in> set (package_groups fs)" "Block \<le> strongest_action r"
      "g_signal_class r = MaliciousBehavior"
    using package_group_covers [OF assms(1,6)] assms(3) by (auto simp: is_malicious_block_def)
  then have "has_malicious_behavior (package_predicates fs primary supporting)"
    unfolding package_predicates_fields by (auto intro!: bexI [of _ r] antisym)
  moreover have "has_independent_malicious_corroboration (package_predicates fs primary supporting)"
    unfolding package_predicates_fields using assms(1-5) by blast
  ultimately show ?thesis unfolding derive_fields verdict_malicious_iff by (simp add: escalates_def)
qed

theorem corroborated_malice_malicious_witness:
  "pv_verdict (derive_package_verdict
     [example_finding ''INTERNAL_NETWORK_ACCESS'' RemoteExec AgentEntrypoint MaliciousBehavior Block,
      example_finding ''R2'' RemoteExec AgentEntrypoint MaliciousBehavior Block]
     (from_findings []) (from_findings []) (from_findings [])) = Malicious"
  by (rule corroborated_malice_malicious
        [of "example_finding ''R2'' RemoteExec AgentEntrypoint MaliciousBehavior Block" _
            "example_finding ''INTERNAL_NETWORK_ACCESS'' RemoteExec AgentEntrypoint MaliciousBehavior Block"])
     (simp_all add: is_malicious_block_def CALIBRATED_RULE_IDS_def)


text \<open>A package is never benign with a non-hygiene finding that blocks, or that asks for approval
  outside the package root, even when the finding's own rule is calibrated away.\<close>

theorem actionable_finding_not_benign:
  assumes "f \<in> set fs" "f_signal_class f \<noteq> Hygiene"
    and "f_action f = Block \<or> f_action f \<noteq> Log \<and> f_artifact_scope f \<noteq> PackageRootArtifact"
  shows "pv_verdict (derive_package_verdict fs primary supporting package) \<noteq> Benign"
  unfolding derive_fields(1) using assms by (rule not_benign_if_actionable)

theorem actionable_finding_not_benign_witness:
  "pv_verdict (derive_package_verdict
     [example_finding ''MCP_NO_AUTH_MODEL'' SupplyChain AgentEntrypoint SuspiciousPackageBehavior RequireApproval]
     (from_findings []) (from_findings []) (from_findings [])) \<noteq> Benign"
  by (rule actionable_finding_not_benign [of "example_finding ''MCP_NO_AUTH_MODEL'' SupplyChain AgentEntrypoint
        SuspiciousPackageBehavior RequireApproval"]) simp_all


text \<open>The risk gate: a package is never benign with a primary score of 50, and never
  with a package score of 86, which the largest calibration rollback of 36 leaves at 50.\<close>

theorem high_risk_not_benign:
  assumes "50 \<le> risk_score primary \<or> 86 \<le> risk_score package"
  shows "pv_verdict (derive_package_verdict fs primary supporting package) \<noteq> Benign"
proof -
  have "- 36 \<le> package_adjustment fs"
    unfolding package_adjustment_def using calibration_adjustment_bounds by blast
  then have "50 \<le> risk_score primary
      \<or> 50 \<le> risk_score (with_risk_adjustment package (package_adjustment fs))"
    using assms by (auto simp: adjusted_fields)
  then show ?thesis
    unfolding derive_fields verdict_of_def Let_def RISK_THRESHOLD_BLOCK_def by auto
qed

theorem high_risk_not_benign_witness:
  "pv_verdict (derive_package_verdict [] ((from_findings [])\<lparr>risk_score := 50\<rparr>) (from_findings [])
     (from_findings [])) \<noteq> Benign"
  by (rule high_risk_not_benign) simp


text \<open>A benign package is never reported with elevated health.\<close>

theorem benign_not_elevated:
  "\<not> (pv_verdict (derive_package_verdict fs primary supporting package) = Benign
      \<and> pv_package_health (derive_package_verdict fs primary supporting package) = Elevated)"
  unfolding derive_fields(3) by (auto simp: package_health_of_def Let_def)

text \<open>Claim C23: Root-cause groups: the raw groups are exactly the specified group of each key that occurs
  in the findings (count, strongest action, at most five sorted rules), once each; their counts
  partition the findings; they are ordered by action, then by count.\<close>

theorem root_cause_groups_correct:
  "set (build_root_cause_groups fs) = group_spec fs ` finding_key ` set fs
   \<and> distinct (map group_key (build_root_cause_groups fs))
   \<and> sum_list (map finding_count (build_root_cause_groups fs)) = length fs
   \<and> sorted_wrt (\<lambda>a b. strongest_action b < strongest_action a
        \<or> strongest_action b = strongest_action a \<and> finding_count b \<le> finding_count a)
       (build_root_cause_groups fs)"
  using build_groups_set build_groups_keys_distinct build_groups_total
    build_groups_sorted [of fs, unfolded group_order_le] by blast

text \<open>The reported groups after calibration and merging: distinct keys, none empty, at most as many
  as the raw ones; each stems from findings of its scope and category, in its own class or
  reclassified to review, and never has a stronger action than the raw group.\<close>

theorem reported_groups_sound:
  "distinct (map group_key (package_groups fs))
   \<and> length (package_groups fs) \<le> length (build_root_cause_groups fs)
   \<and> list_all (\<lambda>g. 0 < finding_count g
        \<and> (\<exists>r\<in>set (build_root_cause_groups fs). g_scope g = g_scope r \<and> g_category g = g_category r
           \<and> (g_signal_class g = g_signal_class r \<or> g_signal_class g = ReviewSignal)
           \<and> strongest_action g \<le> strongest_action r)) (package_groups fs)"
proof -
  have "\<exists>r\<in>set (build_root_cause_groups fs). g_scope g = g_scope r \<and> g_category g = g_category r
      \<and> (g_signal_class g = g_signal_class r \<or> g_signal_class g = ReviewSignal)
      \<and> strongest_action g \<le> strongest_action r" if "g \<in> set (package_groups fs)" for g
    using package_group_origin [OF that] by (auto simp: build_groups_set group_spec_def)
  then show ?thesis
    using merge_groups_keys_distinct package_groups_length package_groups_count_pos
    by (auto simp: package_groups_def list_all_iff)
qed

text \<open>Calibration never loses a finding of another rule: its scope and category are still reported, with
  at least its action, and with its signal class unless a downgrade made the group a review signal.\<close>

theorem calibration_keeps_other_rules:
  assumes "f \<in> set fs" "rule_id f \<notin> set CALIBRATED_RULE_IDS"
  shows "\<exists>g\<in>set (pv_root_cause_groups (derive_package_verdict fs primary supporting package)).
    g_scope g = f_artifact_scope f \<and> g_category g = category f \<and> f_action f \<le> strongest_action g
    \<and> (g_signal_class g = f_signal_class f \<or> f_action f \<noteq> Block \<and> g_signal_class g = ReviewSignal)"
  unfolding derive_fields using assms by (rule package_group_covers)

theorem calibration_keeps_other_rules_witness:
  "\<exists>g\<in>set (pv_root_cause_groups (derive_package_verdict
       [example_finding ''INTERNAL_NETWORK_ACCESS'' SupplyChain AgentEntrypoint MaliciousBehavior Block,
        example_finding ''R'' SupplyChain AgentEntrypoint MaliciousBehavior RequireApproval]
       (from_findings []) (from_findings []) (from_findings []))).
     g_scope g = AgentEntrypoint \<and> g_category g = SupplyChain \<and> RequireApproval \<le> strongest_action g
     \<and> (g_signal_class g = MaliciousBehavior \<or> g_signal_class g = ReviewSignal)"
  using calibration_keeps_other_rules [of "example_finding ''R'' SupplyChain AgentEntrypoint MaliciousBehavior
       RequireApproval" "[example_finding ''INTERNAL_NETWORK_ACCESS'' SupplyChain AgentEntrypoint MaliciousBehavior
       Block, example_finding ''R'' SupplyChain AgentEntrypoint MaliciousBehavior RequireApproval]"
       "from_findings []" "from_findings []" "from_findings []"]
  by (simp add: CALIBRATED_RULE_IDS_def)


text \<open>The calibration adjusts the risk score by between -36 and 0, counting each of its four rules once
  however many groups it fires on.\<close>

theorem calibration_adjustment_range:
  "- 36 \<le> pv_calibration_risk_adjustment (derive_package_verdict fs primary supporting package)
   \<and> pv_calibration_risk_adjustment (derive_package_verdict fs primary supporting package) \<le> 0"
  unfolding derive_fields package_adjustment_def by (rule calibration_adjustment_bounds)

text \<open>What calibration leaves of a group: every reported pre-merge group is a key's findings minus those of the
  rules of the pipeline that fired on the key, with their count, strongest action and rules; it
  is in the key's class, or in review with a strictly weaker action than before.\<close>

theorem calibrated_groups_exact:
  "list_all (\<lambda>g. 0 < finding_count g \<and> (\<exists>k\<in>finding_key ` set fs.
       g = surviving_group fs k (calibration_exclusions fs k) (g_signal_class g)
       \<and> (g_signal_class g = snd (snd k)
          \<or> g_signal_class g = ReviewSignal \<and> strongest_action g < strongest_action (group_spec fs k))))
     (vc_root_cause_groups (calibrate_verdict_inputs fs (build_root_cause_groups fs)))"
  unfolding list_all_iff using calibrated_group_mem unfolding calibrated_from_def by blast

end
