(* ===== verification/Scan_Pipeline.thy ===== *)
theory Scan_Pipeline
  imports Rule_Loading Deceptive_Docs Unicode_Deception Dependency_Inventory Scanner_Graph Native_Refinement Inline_Suppressions Artifact_Taint Scan_Filter Typosquat Verdict
begin

text \<open>
  The scan of a document and of a package: \<open>scanner_execution.rs\<close>, \<open>scanner_support.rs\<close>, the result
  types of \<open>scanner_types.rs\<close> and the entry points of \<open>scanner/mod.rs\<close>. This is the composition of the
  other theories. What they do not model is a parameter (\<open>scan_lib\<close>): the detectors,
  the reading of indicators, and the JSON, YAML and TOML parsers. Log lines are not modelled.
\<close>

section \<open>The scanner\<close>

record 'i scan_lib =
  sl_document :: document_lib
  sl_detectors :: "finding detectors"
  sl_rules :: rule_lib
  sl_refinement :: refinement_lib
  sl_claims :: claim_lib
  sl_taint :: taint_lib
  sl_popular_names :: "ecosystem \<Rightarrow> string"
  sl_parse_json :: "string \<Rightarrow> string + json"
  sl_parse_yaml_ok :: "string \<Rightarrow> bool"
  sl_parse_toml :: "string \<Rightarrow> toml_value option"
  sl_suppression_patterns :: suppression_patterns
  sl_parse_time :: "string \<Rightarrow> string + instant"
  sl_sha :: "string \<Rightarrow> string"
  sl_iocs_of_artifact :: "string \<Rightarrow> string \<Rightarrow> 'i"
  sl_iocs_of_text :: "string \<Rightarrow> 'i"
  sl_merge_iocs :: "'i \<Rightarrow> 'i \<Rightarrow> 'i"

record scanner =
  sc_discovery :: file_discovery_service
  sc_engine :: rule_engine
  sc_filter :: scan_filter_service
  sc_honor_inline_suppressions :: bool

text \<open>The clock as the suppressions, the overrides and the waivers read it.\<close>

record scan_clock =
  at_suppressions :: instant
  at_overrides :: instant
  at_waivers :: instant

abbreviation provider :: "scanner \<Rightarrow> file_system" where
  "provider sc \<equiv> fd_provider (sc_discovery sc)"

definition regular_file :: "file_system \<Rightarrow> string \<Rightarrow> bool" where
  "regular_file fs p \<longleftrightarrow> path_exists fs p \<and> fs_is_file fs p"

definition read_text_file_lossy :: "file_system \<Rightarrow> string \<Rightarrow> file_system_error + string \<times> bool" where
  "read_text_file_lossy fs path =
     (case fs_read fs path of Inl e \<Rightarrow> Inl e | Inr bytes \<Rightarrow> Inr (from_utf8_lossy bytes, \<not> utf8_valid bytes))"

section \<open>Findings about the files themselves\<close>

definition binary_disguise_finding :: "string \<Rightarrow> string \<Rightarrow> artifact_kind \<Rightarrow> match_target \<Rightarrow> finding" where
  "binary_disguise_finding path kind artifact_kind target =
     build_with ''ARTIFACT_BINARY_DISGUISED_AS_MARKDOWN'' Obfuscation
       [Set_severity Critical, Set_action Block, Set_evidence_kind Behavior, Set_signal_class MaliciousBehavior,
        Set_matched_on target, Set_artifact artifact_kind (Some path),
        Set_match_value (kind @ '' archive disguised as markdown''),
        Set_reason (''Markdown-named artifact starts with binary magic bytes ''
          @ [CHR 0xE2, CHR 0x80, CHR 0x94] @ '' content obfuscation / payload smuggling'')]"

definition decode_warning_finding :: "string \<Rightarrow> artifact_kind \<Rightarrow> finding" where
  "decode_warning_finding path kind =
     build_with ''ARTIFACT_DECODE_WARNING'' Generic
       [Set_severity Low, Set_action Log, Set_evidence_kind Context, Set_artifact kind (Some path),
        Set_match_value path, Set_reason ''Artifact required lossy UTF-8 decoding during analysis'',
        Set_remediation ''Review the artifact encoding manually. Lossy decoding was used so the package could still be analyzed.'',
        Set_signal_class ReviewSignal]"

definition parse_warning_finding :: "string \<Rightarrow> artifact_kind \<Rightarrow> string \<Rightarrow> finding" where
  "parse_warning_finding path kind why =
     build_with ''ARTIFACT_PARSE_WARNING'' Generic
       [Set_severity Low, Set_action Log, Set_evidence_kind Context, Set_artifact kind (Some path),
        Set_match_value path, Set_reason why,
        Set_remediation ''Review the artifact manually. Structured parsing failed, so analysis used a defensive fallback.'',
        Set_signal_class ReviewSignal]"

definition artifact_parse_error_finding :: "string \<Rightarrow> artifact_kind \<Rightarrow> string \<Rightarrow> finding" where
  "artifact_parse_error_finding path kind error_msg =
     build_with ''ARTIFACT_PARSE_ERROR'' Obfuscation
       [Set_severity Medium, Set_action RequireApproval, Set_evidence_kind Context, Set_artifact kind (Some path),
        Set_match_value path, Set_reason (''Referenced artifact could not be parsed: '' @ error_msg),
        Set_remediation ''Review the artifact manually. The file exists but could not be parsed as markdown or code, which may indicate obfuscation or corruption.'',
        Set_signal_class SuspiciousPackageBehavior]"

definition JSON_MANIFEST_NAMES :: "string list" where
  "JSON_MANIFEST_NAMES = [''package.json'', ''package-lock.json'', ''npm-shrinkwrap.json'']"

definition YAML_LOCKFILE_NAMES :: "string list" where
  "YAML_LOCKFILE_NAMES = [''pnpm-lock.yaml'', ''yarn.lock'']"

definition MAX_YAML_PARSE_BYTES :: nat where
  "MAX_YAML_PARSE_BYTES = 4 * 1024 * 1024"

definition structured_parse_warning :: "'i scan_lib \<Rightarrow> string \<Rightarrow> string \<Rightarrow> artifact_kind \<Rightarrow> finding option" where
  "structured_parse_warning lib path content kind =
     (case lower_file_name path of
        None \<Rightarrow> None
      | Some name \<Rightarrow>
          let mcp_json = (name \<in> set MCP_NAMES \<and> ends_with name ''.json'');
              mcp_yaml = (name \<in> set MCP_NAMES \<and> \<not> ends_with name ''.json'');
              parse_failed =
                (if name \<in> set JSON_MANIFEST_NAMES \<or> mcp_json then isl (sl_parse_json lib content)
                 else if name \<in> set DOCKER_COMPOSE_NAMES \<or> name \<in> set YAML_LOCKFILE_NAMES \<or> mcp_yaml
                 then (if MAX_YAML_PARSE_BYTES < length content then True else \<not> sl_parse_yaml_ok lib content)
                 else if name \<in> set TOML_ARTIFACT_NAMES then sl_parse_toml lib content = None
                 else False)
          in if parse_failed
             then Some (parse_warning_finding path kind
                    ''Artifact could not be fully parsed as its expected structured format'')
             else None)"

section \<open>Supporting artifacts\<close>

text \<open>\<open>if seen.insert(p) { artifacts.push(p) }\<close> on the pair of the set and the list.\<close>

definition push_unseen :: "component list set \<times> string list \<Rightarrow> string \<Rightarrow> component list set \<times> string list" where
  "push_unseen st p =
     (if path_components p \<in> fst st then st else (insert (path_components p) (fst st), snd st @ [p]))"

definition push_referenced ::
    "file_system \<Rightarrow> string \<Rightarrow> component list set \<times> string list \<Rightarrow> string \<Rightarrow> component list set \<times> string list" where
  "push_referenced fs base_dir st p = (if \<not> path_resolves_within_base fs p base_dir then st else push_unseen st p)"

definition push_discovered ::
    "string \<Rightarrow> component list set \<times> string list \<Rightarrow> string \<Rightarrow> component list set \<times> string list" where
  "push_discovered own st p = (if path_eq p own then st else push_unseen st p)"

definition collect_supporting_artifact_paths :: "scanner \<Rightarrow> skill_document \<Rightarrow> string list" where
  "collect_supporting_artifact_paths sc doc =
     (let st = foldl (push_referenced (provider sc) (reference_base (doc_path doc))) ({}, [])
                 (doc_referenced_files doc)
      in if \<not> is_explicit_skill_file (doc_path doc) then snd st
         else
           (case path_parent (doc_path doc) of
              None \<Rightarrow> snd st
            | Some package_root \<Rightarrow>
                let st = foldl (push_discovered (doc_path doc)) st
                           (discover_package_scripts (sc_discovery sc) package_root);
                    st = foldl (push_discovered (doc_path doc)) st
                           (discover_package_data_files (sc_discovery sc) package_root)
                in snd st))"

definition pyc_sibling_source_exists :: "file_system \<Rightarrow> string \<Rightarrow> bool" where
  "pyc_sibling_source_exists fs pyc =
     (case path_file_stem pyc of
        None \<Rightarrow> False
      | Some stem \<Rightarrow>
          let source = path_join (case path_parent pyc of Some d \<Rightarrow> d | None \<Rightarrow> []) (stem @ ''.py'')
          in regular_file fs source)"

definition contextualize_findings :: "finding list \<Rightarrow> artifact_kind \<Rightarrow> string \<Rightarrow> finding list" where
  "contextualize_findings findings kind path =
     map (\<lambda>f. if artifact_path f \<noteq> None then f else with_artifact kind path f) findings"

definition analyze_referenced_artifact :: "'i scan_lib \<Rightarrow> scanner \<Rightarrow> string \<Rightarrow> finding list" where
  "analyze_referenced_artifact lib sc referenced =
     (let fs = provider sc; kind = artifact_kind_for_path referenced
      in case from_file_with_provider (sl_document lib) fs referenced of
           Inl err \<Rightarrow> [artifact_parse_error_finding referenced kind (analyzer_error_display err)]
         | Inr doc \<Rightarrow>
             (case doc_binary_disguise_kind doc of
                Some k \<Rightarrow> [binary_disguise_finding referenced k kind (ReferencedFile referenced)] | None \<Rightarrow> [])
             @ map (\<lambda>f. with_artifact kind referenced (with_match_target (ReferencedFile referenced) f))
                 (engine_evaluate (sl_rules lib) (sc_engine sc) doc)
             @ (if doc_decode_warning doc then [decode_warning_finding referenced kind] else [])
             @ (case structured_parse_warning lib referenced (doc_raw_content doc) kind of
                  Some w \<Rightarrow> [w] | None \<Rightarrow> [])
             @ contextualize_findings
                 (analyze (sl_detectors lib) referenced (doc_raw_content doc) (sibling_files fs referenced) (Some doc))
                 kind referenced
             @ (if is_python_bytecode referenced then
                  (case fs_read fs referenced of
                     Inr bytes \<Rightarrow> analyze_pyc bytes (pyc_sibling_source_exists fs referenced) referenced
                   | Inl e \<Rightarrow> [])
                else []))"

definition scan_supporting_artifacts :: "'i scan_lib \<Rightarrow> scanner \<Rightarrow> skill_document \<Rightarrow> finding list" where
  "scan_supporting_artifacts lib sc doc =
     concat (map (\<lambda>p. if \<not> regular_file (provider sc) p then [] else analyze_referenced_artifact lib sc p)
       (collect_supporting_artifact_paths sc doc))"

definition readable_supporting_artifacts :: "scanner \<Rightarrow> skill_document \<Rightarrow> (string \<times> string) list" where
  "readable_supporting_artifacts sc doc =
     List.map_filter (\<lambda>p. case read_text_file_lossy (provider sc) p of
         Inr (content, w) \<Rightarrow> Some (p, content) | Inl e \<Rightarrow> None)
       (filter (regular_file (provider sc)) (collect_supporting_artifact_paths sc doc))"

definition manifest_dependencies :: "'i scan_lib \<Rightarrow> string \<times> string \<Rightarrow> parsed_dependency list" where
  "manifest_dependencies lib = (\<lambda>(path, content).
     case path_file_name path of None \<Rightarrow> [] | Some name \<Rightarrow> collect_for_manifest (sl_parse_json lib) (sl_parse_toml lib) name content path)"

definition collect_dependency_inventory ::
    "'i scan_lib \<Rightarrow> scanner \<Rightarrow> skill_document \<Rightarrow> string \<Rightarrow> string \<Rightarrow> parsed_dependency list" where
  "collect_dependency_inventory lib sc doc primary_path primary_content =
     concat (map (manifest_dependencies lib)
       ((primary_path, primary_content) # readable_supporting_artifacts sc doc))"

section \<open>Raw findings\<close>

definition collect_primary_doc_warnings :: "skill_document \<Rightarrow> string \<Rightarrow> finding list" where
  "collect_primary_doc_warnings doc path =
     (let kind = artifact_kind_for_path path
      in (case doc_binary_disguise_kind doc of
            Some k \<Rightarrow> [binary_disguise_finding path k kind Document] | None \<Rightarrow> [])
         @ (if doc_decode_warning doc then [decode_warning_finding path kind] else [])
         @ (if doc_parse_warning doc then
              [parse_warning_finding path kind
                 ''Markdown sections could not be fully parsed; analysis continued with defensive fallback'']
            else []))"

definition deceptive_docs_findings :: "'i scan_lib \<Rightarrow> scanner \<Rightarrow> skill_document \<Rightarrow> finding list" where
  "deceptive_docs_findings lib sc doc = detect_deceptive_documentation (sl_claims lib) doc (readable_supporting_artifacts sc doc)"

definition unicode_deception_findings ::
    "'i scan_lib \<Rightarrow> scanner \<Rightarrow> skill_document \<Rightarrow> artifact_kind \<Rightarrow> string \<Rightarrow> finding list" where
  "unicode_deception_findings lib sc doc kind path =
     scan_unicode_deception (doc_raw_content doc) kind path
     @ concat (map (\<lambda>(p, content). scan_unicode_deception content ReferencedArtifact p)
         (readable_supporting_artifacts sc doc))"

text \<open>The findings before taint analysis, before they are given an artifact.\<close>

definition direct_findings ::
    "'i scan_lib \<Rightarrow> scanner \<Rightarrow> skill_document \<Rightarrow> string \<Rightarrow> artifact_kind \<Rightarrow> parsed_dependency list \<Rightarrow> finding list" where
  "direct_findings lib sc doc path kind dependencies =
     refine_rule_findings (sl_refinement lib)
       (engine_evaluate (sl_rules lib) (sc_engine sc) doc
        @ collect_primary_doc_warnings doc path
        @ scan_supporting_artifacts lib sc doc
        @ deceptive_docs_findings lib sc doc
        @ unicode_deception_findings lib sc doc kind path
        @ scan_typosquat (sl_popular_names lib) dependencies
        @ (case structured_parse_warning lib path (doc_raw_content doc) kind of Some w \<Rightarrow> [w] | None \<Rightarrow> [])
        @ analyze (sl_detectors lib) path (doc_raw_content doc) (sibling_files (provider sc) path) (Some doc))
       doc"

text \<open>\<open>None\<close> would be a taint analysis that does not return.\<close>

definition collect_raw_findings ::
    "'i scan_lib \<Rightarrow> scanner \<Rightarrow> skill_document \<Rightarrow> string \<Rightarrow> artifact_kind \<Rightarrow> parsed_dependency list
     \<Rightarrow> (finding list \<times> artifact_graph) option" where
  "collect_raw_findings lib sc doc path kind dependencies =
     (let findings = direct_findings lib sc doc path kind dependencies;
          g = build_artifact_graph (sl_detectors lib) (provider sc) doc
      in map_option (\<lambda>taint. (contextualize_findings findings kind path @ taint, g))
           (derive_taint_findings (sl_taint lib) g findings))"

section \<open>Inline suppressions\<close>

text \<open>The files named by findings that have not been read yet, in order, with their text.\<close>

fun finding_sources :: "file_system \<Rightarrow> component list set \<Rightarrow> finding list \<Rightarrow> (string \<times> string) list" where
  "finding_sources fs seen [] = []"
| "finding_sources fs seen (f # findings) =
     (case artifact_path f of
        None \<Rightarrow> finding_sources fs seen findings
      | Some p \<Rightarrow>
          if path_components p \<in> seen then finding_sources fs seen findings
          else
            (if regular_file fs p then
               (case read_text_file_lossy fs p of Inr (content, w) \<Rightarrow> [(p, content)] | Inl e \<Rightarrow> [])
             else [])
            @ finding_sources fs (insert (path_components p) seen) findings)"

definition suppression_sources ::
    "scanner \<Rightarrow> finding list \<Rightarrow> string \<Rightarrow> skill_document \<Rightarrow> string \<Rightarrow> (string \<times> string) list" where
  "suppression_sources sc findings path doc primary_content =
     (path, primary_content)
     # readable_supporting_artifacts sc doc
     @ finding_sources (provider sc) (path_components ` set (collect_supporting_artifact_paths sc doc)) findings"

definition collect_and_apply_suppressions ::
    "'i scan_lib \<Rightarrow> scan_clock \<Rightarrow> scanner \<Rightarrow> finding list \<Rightarrow> string \<Rightarrow> skill_document \<Rightarrow> string
     \<Rightarrow> finding list \<times> finding list" where
  "collect_and_apply_suppressions lib clk sc findings path doc primary_content =
     apply_inline_suppressions (at_suppressions clk) findings
       (collect_inline_suppressions (sl_suppression_patterns lib) (sl_parse_json lib) (sl_parse_time lib)
          (suppression_sources sc findings path doc primary_content))
       (Some path)"

section \<open>The result\<close>

record artifact_metadata =
  am_path :: string
  am_name :: string
  am_extension_kind :: agent_extension_kind
  am_classification :: artifact_classification
  am_package_id :: "string option"
  am_identity_source :: artifact_identity_source
  am_structural_validity :: structural_validity
  am_heuristic_score :: nat
  am_primary_artifact_kind :: artifact_kind

record 'i scan_result =
  sr_metadata :: artifact_metadata
  sr_findings :: "finding list"
  sr_suppressed_findings :: "finding list"
  sr_primary_findings :: "finding list"
  sr_supporting_findings :: "finding list"
  sr_summary :: finding_summary
  sr_primary_summary :: finding_summary
  sr_supporting_summary :: finding_summary
  sr_verdict :: verdict
  sr_verdict_report :: package_verdict_report
  sr_deduplication_summary :: deduplication_summary
  sr_artifact_graph :: artifact_graph
  sr_profile :: "policy_profile option"
  sr_policy :: "policy_file option"
  sr_suppression_summary :: suppression_summary
  sr_policy_audit :: policy_audit
  sr_should_fail :: bool
  sr_extracted_iocs :: 'i
  sr_dependencies :: "parsed_dependency list"

definition build_artifact_metadata :: "string \<Rightarrow> skill_document \<Rightarrow> artifact_kind \<Rightarrow> artifact_metadata" where
  "build_artifact_metadata path doc kind =
     \<lparr>am_path = path, am_name = doc_name doc, am_extension_kind = doc_extension_kind doc,
      am_classification = doc_classification doc, am_package_id = derive_package_id path,
      am_identity_source = doc_identity_source doc, am_structural_validity = doc_structural_validity doc,
      am_heuristic_score = sig_score (doc_structural_signals doc), am_primary_artifact_kind = kind\<rparr>"

definition build_verdict_and_summaries ::
    "finding list \<Rightarrow> artifact_graph \<Rightarrow> string \<Rightarrow> artifact_kind
     \<Rightarrow> finding list \<times> finding list \<times> finding_summary \<times> finding_summary \<times> finding_summary
        \<times> package_verdict_report" where
  "build_verdict_and_summaries filtered g path kind =
     (let (primary, supporting) = split_findings_by_scope path kind filtered;
          summary = from_findings_and_graph filtered g;
          primary_summary = from_findings primary;
          supporting_summary = from_findings supporting;
          report = derive_package_verdict filtered primary_summary supporting_summary summary
      in (primary, supporting, summary, primary_summary, supporting_summary, report))"

definition build_suppression_summary :: "nat \<Rightarrow> suppression_summary \<Rightarrow> suppression_summary" where
  "build_suppression_summary inline_count base = base\<lparr>inline_suppressed := inline_count\<rparr>"

definition build_policy_audit :: "scanner \<Rightarrow> applied_policy_override list \<Rightarrow> policy_audit" where
  "build_policy_audit sc applied =
     \<lparr>pa_precedence_order = POLICY_AUDIT_PRECEDENCE, pa_effective_fail_on = fail_on (sc_filter sc),
      pa_applied_overrides = applied\<rparr>"

definition collect_extracted_iocs :: "'i scan_lib \<Rightarrow> scanner \<Rightarrow> skill_document \<Rightarrow> string \<Rightarrow> string \<Rightarrow> 'i" where
  "collect_extracted_iocs lib sc doc primary_path primary_content =
     (let iocs = (case fs_read (provider sc) primary_path of
                    Inr bytes \<Rightarrow> sl_iocs_of_artifact lib primary_path bytes
                  | Inl e \<Rightarrow> sl_iocs_of_text lib primary_content)
      in foldl (\<lambda>iocs p.
           if \<not> regular_file (provider sc) p then iocs
           else (case fs_read (provider sc) p of
                   Inr bytes \<Rightarrow> sl_merge_iocs lib iocs (sl_iocs_of_artifact lib p bytes)
                 | Inl e \<Rightarrow> iocs)) iocs (collect_supporting_artifact_paths sc doc))"

text \<open>What \<open>scan_document_path\<close> does with a document it has loaded.\<close>

definition scan_document :: "'i scan_lib \<Rightarrow> scan_clock \<Rightarrow> scanner \<Rightarrow> string \<Rightarrow> skill_document \<Rightarrow> 'i scan_result option" where
  "scan_document lib clk sc path doc =
     (let kind = artifact_kind_for_path path;
          content = doc_raw_content doc;
          dependencies = collect_dependency_inventory lib sc doc path content
      in map_option (\<lambda>(raw, g).
           let (active, suppressed) =
                 (if sc_honor_inline_suppressions sc
                  then collect_and_apply_suppressions lib clk sc raw path doc content else (raw, []));
               (findings, dedup_summary) = deduplicate_findings active;
               outcome = filter_with_summary (sl_sha lib) (at_overrides clk) (at_waivers clk) (sc_filter sc) findings;
               filtered = fo_findings outcome;
               (primary, supporting, summary, primary_summary, supporting_summary, report) =
                 build_verdict_and_summaries filtered g path kind
           in \<lparr>sr_metadata = build_artifact_metadata path doc kind, sr_findings = filtered,
               sr_suppressed_findings = suppressed, sr_primary_findings = primary,
               sr_supporting_findings = supporting, sr_summary = summary, sr_primary_summary = primary_summary,
               sr_supporting_summary = supporting_summary, sr_verdict = pv_verdict report,
               sr_verdict_report = report, sr_deduplication_summary = dedup_summary, sr_artifact_graph = g,
               sr_profile = fs_profile (sc_filter sc), sr_policy = fs_policy (sc_filter sc),
               sr_suppression_summary =
                 build_suppression_summary (length suppressed) (fo_suppression_summary outcome),
               sr_policy_audit = build_policy_audit sc (fo_applied_overrides outcome),
               sr_should_fail = should_fail (sc_filter sc) filtered,
               sr_extracted_iocs = collect_extracted_iocs lib sc doc path content,
               sr_dependencies = dependencies\<rparr>)
           (collect_raw_findings lib sc doc path kind dependencies))"

section \<open>Entry points\<close>

datatype scan_error =
  Scan_Analyzer analyzer_error
  | Scan_PathNotFound string
  | Scan_InvalidSkillEntrypoint string
  | Scan_NoSkillEntrypoints string

fun scan_error_display :: "scan_error \<Rightarrow> string" where
  "scan_error_display (Scan_Analyzer e) = ''Analyzer error: '' @ analyzer_error_display e"
| "scan_error_display (Scan_PathNotFound p) = ''Path not found: '' @ p"
| "scan_error_display (Scan_InvalidSkillEntrypoint p) = ''Not a strict skill entrypoint: '' @ p"
| "scan_error_display (Scan_NoSkillEntrypoints p) = ''No explicit skill entrypoints found in package: '' @ p"

definition scan_document_path ::
    "'i scan_lib \<Rightarrow> scan_clock \<Rightarrow> scanner \<Rightarrow> string \<Rightarrow> (scan_error + 'i scan_result) option" where
  "scan_document_path lib clk sc path =
     (case from_file_with_provider (sl_document lib) (provider sc) path of
        Inl e \<Rightarrow> Some (Inl (Scan_Analyzer e))
      | Inr doc \<Rightarrow> map_option Inr (scan_document lib clk sc path doc))"

definition scan_file ::
    "'i scan_lib \<Rightarrow> scan_clock \<Rightarrow> scanner \<Rightarrow> string \<Rightarrow> (scan_error + 'i scan_result) option" where
  "scan_file lib clk sc path =
     (if \<not> path_exists (provider sc) path then Some (Inl (Scan_PathNotFound path))
      else scan_document_path lib clk sc path)"

definition scan_skill_file ::
    "'i scan_lib \<Rightarrow> scan_clock \<Rightarrow> scanner \<Rightarrow> string \<Rightarrow> (scan_error + 'i scan_result) option" where
  "scan_skill_file lib clk sc path =
     (if \<not> path_exists (provider sc) path then Some (Inl (Scan_PathNotFound path))
      else if \<not> is_explicit_skill_file path then Some (Inl (Scan_InvalidSkillEntrypoint path))
      else scan_document_path lib clk sc path)"

text \<open>A \<open>BTreeSet\<close> of paths, as an ordered list: of equal paths the first one stays.\<close>

definition path_set :: "string list \<Rightarrow> string list" where
  "path_set ps =
     map snd (foldl (\<lambda>m p. bt_entry (path_components p) (\<lambda>old. case old of None \<Rightarrow> p | Some q \<Rightarrow> q) m) [] ps)"

definition discover_package_targets :: "'i scan_lib \<Rightarrow> scanner \<Rightarrow> string \<Rightarrow> scan_error + string list" where
  "discover_package_targets lib sc path =
     (let explicit = discover_skill_entrypoints (sc_discovery sc) path;
          entrypoints =
            (if explicit = []
             then discover_heuristic_candidates (dl_assessment_patterns (sl_document lib)) (sc_discovery sc) path
             else explicit)
      in if entrypoints = [] then Inl (Scan_NoSkillEntrypoints path)
         else Inr (path_set (entrypoints @ discover_package_manifests (sc_discovery sc) path
                             @ discover_lockfiles (sc_discovery sc) path)))"

record scan_error_entry =
  see_path :: string
  see_error :: string

record 'i package_scan_result =
  ps_results :: "'i scan_result list"
  ps_errors :: "scan_error_entry list"

fun scan_targets ::
    "'i scan_lib \<Rightarrow> scan_clock \<Rightarrow> scanner \<Rightarrow> 'i package_scan_result \<Rightarrow> string list \<Rightarrow> 'i package_scan_result option" where
  "scan_targets lib clk sc acc [] = Some acc"
| "scan_targets lib clk sc acc (t # ts) =
     (case scan_file lib clk sc t of
        None \<Rightarrow> None
      | Some (Inr r) \<Rightarrow> scan_targets lib clk sc (acc\<lparr>ps_results := ps_results acc @ [r]\<rparr>) ts
      | Some (Inl e) \<Rightarrow>
          scan_targets lib clk sc
            (acc\<lparr>ps_errors := ps_errors acc @ [\<lparr>see_path = t, see_error = scan_error_display e\<rparr>]\<rparr>) ts)"

definition scan_package ::
    "'i scan_lib \<Rightarrow> scan_clock \<Rightarrow> scanner \<Rightarrow> string \<Rightarrow> (scan_error + 'i package_scan_result) option" where
  "scan_package lib clk sc path =
     (if \<not> path_exists (provider sc) path then Some (Inl (Scan_PathNotFound path))
      else if fs_is_file (provider sc) path then
        map_option (\<lambda>outcome. Inr
          (case outcome of
             Inr r \<Rightarrow> \<lparr>ps_results = [r], ps_errors = []\<rparr>
           | Inl e \<Rightarrow> \<lparr>ps_results = [], ps_errors = [\<lparr>see_path = path, see_error = scan_error_display e\<rparr>]\<rparr>))
          (scan_file lib clk sc path)
      else
        (case discover_package_targets lib sc path of
           Inl e \<Rightarrow> Some (Inl e)
         | Inr targets \<Rightarrow> map_option Inr (scan_targets lib clk sc \<lparr>ps_results = [], ps_errors = []\<rparr> targets)))"

definition single_result :: "scan_error + 'i scan_result \<Rightarrow> scan_error + 'i package_scan_result" where
  "single_result outcome =
     (case outcome of Inl e \<Rightarrow> Inl e | Inr r \<Rightarrow> Inr \<lparr>ps_results = [r], ps_errors = []\<rparr>)"

definition scan ::
    "'i scan_lib \<Rightarrow> scan_clock \<Rightarrow> scanner \<Rightarrow> string \<Rightarrow> (scan_error + 'i package_scan_result) option" where
  "scan lib clk sc path =
     (case fs_target_mode (sc_filter sc) of
        Target_Auto \<Rightarrow>
          if fs_is_file (provider sc) path then map_option single_result (scan_file lib clk sc path)
          else if fs_is_dir (provider sc) path then scan_package lib clk sc path
          else Some (Inl (Scan_PathNotFound path))
      | Target_File \<Rightarrow> map_option single_result (scan_file lib clk sc path)
      | Target_Package \<Rightarrow> scan_package lib clk sc path)"

end
