(* ===== verification/Scan_Guarantees.thy ===== *)
theory Scan_Guarantees
  imports Scan_Pipeline
begin

text \<open>
  What a scan promises, over the definitions of \<open>Scan_Pipeline\<close>: it always returns, it reads only files it
  is meant to read, it reports or accounts for every target of a package, and a blocking finding
  cannot get lost on its way from a detector to the result.
\<close>

section \<open>Supporting artifacts\<close>

lemma push_unseen_fold:
  "foldl push_unseen (seen, out) ps = (seen \<union> path_components ` set ps, out @ keep_first path_components seen ps)"
  by (induction ps arbitrary: seen out) (auto simp: push_unseen_def insert_absorb)

lemma push_referenced_fold:
  "foldl (push_referenced fs base) st ps
     = foldl push_unseen st (filter (\<lambda>p. path_resolves_within_base fs p base) ps)"
  by (induction ps arbitrary: st) (simp_all add: push_referenced_def)

lemma push_discovered_fold:
  "foldl (push_discovered own) st ps = foldl push_unseen st (filter (\<lambda>p. \<not> path_eq p own) ps)"
  by (induction ps arbitrary: st) (simp_all add: push_discovered_def)

lemma keep_first_length: "length (keep_first key seen xs) \<le> length xs"
  by (induction xs arbitrary: seen) (simp_all add: le_SucI)

text \<open>The references kept, then the scripts and the data files found beside an explicit skill document.\<close>

definition contained_references :: "file_system \<Rightarrow> skill_document \<Rightarrow> string list" where
  "contained_references fs doc =
     filter (\<lambda>p. path_resolves_within_base fs p (reference_base (doc_path doc))) (doc_referenced_files doc)"

definition package_companions :: "scanner \<Rightarrow> skill_document \<Rightarrow> string list" where
  "package_companions sc doc =
     (case path_parent (doc_path doc) of
        Some dir \<Rightarrow>
          if is_explicit_skill_file (doc_path doc) then
            filter (\<lambda>p. \<not> path_eq p (doc_path doc))
              (discover_package_scripts (sc_discovery sc) dir @ discover_package_data_files (sc_discovery sc) dir)
          else []
      | None \<Rightarrow> [])"

lemma supporting_paths_eq:
  "collect_supporting_artifact_paths sc doc
     = keep_first path_components {} (contained_references (provider sc) doc @ package_companions sc doc)"
  by (auto simp: collect_supporting_artifact_paths_def contained_references_def package_companions_def Let_def
      push_referenced_fold push_discovered_fold push_unseen_fold keep_first_append Un_assoc image_Un
      split: option.split)

lemma discovered_scripts_length: "length (discover_package_scripts d dir) \<le> MAX_DISCOVERED_SCRIPTS"
  by (simp add: discover_package_scripts_def discover_eq)

lemma discovered_data_length: "length (discover_package_data_files d dir) \<le> MAX_DISCOVERED_DATA_FILES"
  unfolding discover_package_data_files_def discover_eq
  by (rule order.trans [OF length_filter_le]) simp

lemma package_companions_length: "length (package_companions sc doc) \<le> 500"
proof -
  have "length (package_companions sc doc) \<le> MAX_DISCOVERED_SCRIPTS + MAX_DISCOVERED_DATA_FILES"
    unfolding package_companions_def
    by (auto split: option.split intro!: add_mono order.trans [OF length_filter_le]
        discovered_scripts_length discovered_data_length)
  then show ?thesis by (simp add: MAX_DISCOVERED_SCRIPTS_def MAX_DISCOVERED_DATA_FILES_def)
qed

text \<open>
  Claim C6: the files a document pulls into its scan are its references that resolve inside its own directory, then,
  for an explicit skill document only, the scripts and data files of its package; each once, in that order, never the
  document itself among the discovered ones, and at most 500 more than the document references.
\<close>

theorem supporting_paths_exact:
  "let paths = collect_supporting_artifact_paths sc doc; base = reference_base (doc_path doc) in
     paths = keep_first path_components {} (contained_references (provider sc) doc @ package_companions sc doc)
     \<and> distinct (map path_components paths)
     \<and> set paths \<subseteq> {p \<in> set (doc_referenced_files doc). path_resolves_within_base (provider sc) p base}
                   \<union> set (package_companions sc doc)
     \<and> doc_path doc \<notin> set (package_companions sc doc)
     \<and> length paths \<le> length (doc_referenced_files doc) + 500"
proof -
  let ?all = "contained_references (provider sc) doc @ package_companions sc doc"
  have "length (keep_first path_components {} ?all) \<le> length (doc_referenced_files doc) + 500"
  proof (rule order.trans [OF keep_first_length])
    show "length ?all \<le> length (doc_referenced_files doc) + 500"
      using package_companions_length [of sc doc] length_filter_le unfolding length_append contained_references_def
      by (intro add_mono) blast+
  qed
  moreover have "doc_path doc \<notin> set (package_companions sc doc)"
    by (auto simp: package_companions_def path_eq_def split: option.splits if_splits)
  moreover have "set (keep_first path_components {} ?all) \<subseteq> set ?all" by (rule keep_first_sub)
  moreover have "set ?all \<subseteq> {p \<in> set (doc_referenced_files doc).
        path_resolves_within_base (provider sc) p (reference_base (doc_path doc))} \<union> set (package_companions sc doc)"
    unfolding contained_references_def by auto
  ultimately show ?thesis
    unfolding Let_def supporting_paths_eq using keep_first_distinct by blast
qed

section \<open>Every scan returns\<close>

lemma raw_taint_located: "raw_taint lib g existing f \<Longrightarrow> artifact_path f \<noteq> None"
  by (auto simp: raw_taint_def taint_finding_fields)

lemma raw_findings_return:
  obtains taint where
    "collect_raw_findings lib sc doc path kind deps
       = Some (contextualize_findings (direct_findings lib sc doc path kind deps) kind path
                 @ fst (deduplicate_findings taint),
               build_artifact_graph (sl_detectors lib) (provider sc) doc)"
    "\<forall>f \<in> set taint. artifact_path f \<noteq> None"
proof -
  let ?g = "build_artifact_graph (sl_detectors lib) (provider sc) doc"
  let ?d = "direct_findings lib sc doc path kind deps"
  obtain cross where cross:
    "derive_taint_findings (sl_taint lib) ?g ?d = Some (fst (deduplicate_findings
       (derive_per_node_taint_findings (sl_taint lib) ?g (group_rules default_rules) (has_independent_malice ?d) @ cross)))"
    "\<forall>f \<in> set cross. raw_taint (sl_taint lib) ?g ?d f"
    by (rule derive_taint_some)
  show thesis
  proof (rule that)
    have "raw_taint (sl_taint lib) ?g ?d f"
      if "f \<in> set (derive_per_node_taint_findings (sl_taint lib) ?g (group_rules default_rules)
        (has_independent_malice ?d) @ cross)" for f
      using that cross(2) per_node_raw by auto
    then show "\<forall>f \<in> set (derive_per_node_taint_findings (sl_taint lib) ?g (group_rules default_rules)
        (has_independent_malice ?d) @ cross). artifact_path f \<noteq> None"
      by (intro ballI raw_taint_located)
  qed (simp add: collect_raw_findings_def Let_def cross(1))
qed

lemma scan_document_returns: "\<exists>r. scan_document lib clk sc path doc = Some r \<and> am_path (sr_metadata r) = path"
proof -
  obtain taint where "collect_raw_findings lib sc doc path (artifact_kind_for_path path)
      (collect_dependency_inventory lib sc doc path (doc_raw_content doc)) = Some taint"
    by (rule raw_findings_return)
  then show ?thesis
    by (auto simp: scan_document_def Let_def build_artifact_metadata_def split: prod.split)
qed

definition scannable :: "file_system \<Rightarrow> string \<Rightarrow> bool" where
  "scannable fs path \<longleftrightarrow> path_exists fs path \<and> \<not> isl (fs_read fs path)"

lemma scan_file_readable:
  assumes "scannable (provider sc) path"
  obtains r where "scan_file lib clk sc path = Some (Inr r)" "am_path (sr_metadata r) = path"
proof -
  obtain bytes where "fs_read (provider sc) path = Inr bytes"
    using assms by (cases "fs_read (provider sc) path") (auto simp: scannable_def)
  then obtain doc where "from_file_with_provider (sl_document lib) (provider sc) path = Inr doc"
    by (simp add: from_file_with_provider_def)
  moreover obtain r where "scan_document lib clk sc path doc = Some r" "am_path (sr_metadata r) = path"
    using scan_document_returns by metis
  ultimately show thesis
    using assms that by (auto simp: scan_file_def scan_document_path_def scannable_def)
qed

lemma scan_file_unreadable:
  assumes "\<not> scannable (provider sc) path"
  obtains e where "scan_file lib clk sc path = Some (Inl e)"
    "if path_exists (provider sc) path then
       (case fs_read (provider sc) path of
          Inl io \<Rightarrow> e = Scan_Analyzer (Analyzer_IoError (file_system_error_to_io_error io)) | Inr bytes \<Rightarrow> False)
     else e = Scan_PathNotFound path"
proof (cases "path_exists (provider sc) path")
  case True
  then obtain io where "fs_read (provider sc) path = Inl io"
    using assms by (auto simp: scannable_def isl_def)
  with True show thesis
    by (intro that [of "Scan_Analyzer (Analyzer_IoError (file_system_error_to_io_error io))"])
       (simp_all add: scan_file_def scan_document_path_def from_file_with_provider_def)
next
  case False
  then show thesis by (intro that [of "Scan_PathNotFound path"]) (simp_all add: scan_file_def)
qed

lemma scan_file_cases:
  obtains r where "scannable (provider sc) path" "scan_file lib clk sc path = Some (Inr r)" "am_path (sr_metadata r) = path"
  | e where "\<not> scannable (provider sc) path" "scan_file lib clk sc path = Some (Inl e)"
  by (metis scan_file_readable scan_file_unreadable)

text \<open>The results and the errors of a target list, after what is already there.\<close>

lemma scan_targets_accounts:
  "\<exists>p. scan_targets lib clk sc acc ts = Some p
     \<and> map (\<lambda>r. am_path (sr_metadata r)) (ps_results p)
         = map (\<lambda>r. am_path (sr_metadata r)) (ps_results acc) @ filter (scannable (provider sc)) ts
     \<and> map see_path (ps_errors p) = map see_path (ps_errors acc) @ filter (\<lambda>t. \<not> scannable (provider sc) t) ts"
proof (induction ts arbitrary: acc)
  case (Cons t ts)
  show ?case
  proof (cases rule: scan_file_cases [of sc t lib clk])
    case (1 r)
    show ?thesis using Cons [of "acc\<lparr>ps_results := ps_results acc @ [r]\<rparr>"] 1 by simp
  next
    case (2 e)
    show ?thesis
      using Cons [of "acc\<lparr>ps_errors := ps_errors acc @ [\<lparr>see_path = t, see_error = scan_error_display e\<rparr>]\<rparr>"] 2
      by simp
  qed
qed simp

section \<open>The targets of a package\<close>

definition keep_old :: "'a \<Rightarrow> 'a option \<Rightarrow> 'a" where
  "keep_old p old = (case old of None \<Rightarrow> p | Some q \<Rightarrow> q)"

lemma path_set_map:
  "path_set ps = map snd (foldl (\<lambda>m p. bt_entry (path_components p) (keep_old p) m) [] ps)"
  unfolding path_set_def keep_old_def ..

lemma keep_old_entries:
  assumes "\<forall>(k, v) \<in> set m. path_components v = k \<and> v \<in> A"
  shows "\<forall>(k, v) \<in> set (bt_entry (path_components p) (keep_old p) m). path_components v = k \<and> v \<in> insert p A"
  using assms by (induction m) (auto simp: keep_old_def split: if_splits)

lemma keep_old_fold:
  assumes "\<forall>(k, v) \<in> set m. path_components v = k \<and> v \<in> A"
  shows "\<forall>(k, v) \<in> set (foldl (\<lambda>m p. bt_entry (path_components p) (keep_old p) m) m ps).
           path_components v = k \<and> v \<in> A \<union> set ps"
  using assms
proof (induction ps arbitrary: m A)
  case (Cons p ps)
  show ?case using Cons.IH [OF keep_old_entries [OF Cons.prems, of p]] by simp
qed simp

lemma path_set_exact:
  "sorted_wrt (<) (map path_components (path_set ps))"
  "path_components ` set (path_set ps) = path_components ` set ps"
  "set (path_set ps) \<subseteq> set ps"
proof -
  let ?m = "foldl (\<lambda>m p. bt_entry (path_components p) (keep_old p) m) [] ps"
  have inv: "\<forall>(k, v) \<in> set ?m. path_components v = k \<and> v \<in> set ps"
    using keep_old_fold [of "[]" "{}" ps] by simp
  then have keys: "map path_components (path_set ps) = map fst ?m"
    unfolding path_set_map map_map by (intro map_cong) auto
  show "sorted_wrt (<) (map path_components (path_set ps))"
    unfolding keys by (rule bt.items_sorted [OF bt.invar_fold [OF bt.invar_empty]])
  show "path_components ` set (path_set ps) = path_components ` set ps"
    using bt.keys_fold [of path_components keep_old ps] keys by (metis set_map)
  show "set (path_set ps) \<subseteq> set ps" using inv unfolding path_set_map by auto
qed

definition package_entrypoints :: "'i scan_lib \<Rightarrow> scanner \<Rightarrow> string \<Rightarrow> string list" where
  "package_entrypoints lib sc path =
     (case discover_skill_entrypoints (sc_discovery sc) path of
        [] \<Rightarrow> discover_heuristic_candidates (dl_assessment_patterns (sl_document lib)) (sc_discovery sc) path
      | explicit \<Rightarrow> explicit)"

definition package_files :: "'i scan_lib \<Rightarrow> scanner \<Rightarrow> string \<Rightarrow> string list" where
  "package_files lib sc path =
     package_entrypoints lib sc path @ discover_package_manifests (sc_discovery sc) path
     @ discover_lockfiles (sc_discovery sc) path"

lemma package_targets_eq:
  "discover_package_targets lib sc path =
     (if package_entrypoints lib sc path = [] then Inl (Scan_NoSkillEntrypoints path)
      else Inr (path_set (package_files lib sc path)))"
  by (simp add: discover_package_targets_def package_entrypoints_def package_files_def Let_def split: list.split)

section \<open>Properties of the scan\<close>

text \<open>
  Claim C2: scanning one file always returns, and whether it has a result depends on the file only: an unknown path and
  an unreadable file are reported as such, and every readable file has a result for its own path, whatever its bytes are
  and whatever the detectors find. The scan entry point always returns too.
\<close>

theorem scan_always_returns:
  "(case scan_file lib clk sc path of
      None \<Rightarrow> False
    | Some (Inl e) \<Rightarrow>
        if path_exists (provider sc) path then
          (case fs_read (provider sc) path of
             Inl io \<Rightarrow> e = Scan_Analyzer (Analyzer_IoError (file_system_error_to_io_error io)) | Inr bytes \<Rightarrow> False)
        else e = Scan_PathNotFound path
    | Some (Inr r) \<Rightarrow>
        path_exists (provider sc) path \<and> \<not> isl (fs_read (provider sc) path) \<and> am_path (sr_metadata r) = path)
   \<and> scan lib clk sc path \<noteq> None"
proof (rule conjI)
  show "case scan_file lib clk sc path of
      None \<Rightarrow> False
    | Some (Inl e) \<Rightarrow>
        if path_exists (provider sc) path then
          (case fs_read (provider sc) path of
             Inl io \<Rightarrow> e = Scan_Analyzer (Analyzer_IoError (file_system_error_to_io_error io)) | Inr bytes \<Rightarrow> False)
        else e = Scan_PathNotFound path
    | Some (Inr r) \<Rightarrow>
        path_exists (provider sc) path \<and> \<not> isl (fs_read (provider sc) path) \<and> am_path (sr_metadata r) = path"
  proof (cases "scannable (provider sc) path")
    case True
    then show ?thesis using scan_file_readable [OF True, of lib clk] unfolding scannable_def by fastforce
  next
    case False
    then show ?thesis by (rule scan_file_unreadable [of sc path lib clk]) simp
  qed
  have "scan_file lib clk sc path \<noteq> None" by (cases rule: scan_file_cases [of sc path lib clk]) simp_all
  moreover have "scan_package lib clk sc path \<noteq> None"
    using calculation scan_targets_accounts [of lib clk sc "\<lparr>ps_results = [], ps_errors = []\<rparr>"]
    by (auto simp: scan_package_def split: sum.split)
  ultimately show "scan lib clk sc path \<noteq> None"
    by (auto simp: scan_def split: scan_target_mode.split)
qed

text \<open>
  Claim C4: a package scan accounts for every target, once: with at least one entrypoint, the targets are the entrypoints,
  the manifests and the lockfiles, each path once and in path order; the readable ones have their results in that order and all others
  have an error entry in that order. It fails as a whole only on an unknown path or a directory without entrypoints.
\<close>

theorem package_scan_accounts:
  "case scan_package lib clk sc path of
     None \<Rightarrow> False
   | Some (Inl e) \<Rightarrow>
       if path_exists (provider sc) path
       then e = Scan_NoSkillEntrypoints path \<and> \<not> fs_is_file (provider sc) path \<and> package_entrypoints lib sc path = []
       else e = Scan_PathNotFound path
   | Some (Inr p) \<Rightarrow>
       let files = (if fs_is_file (provider sc) path then [path] else package_files lib sc path);
           targets = path_set files
       in map (\<lambda>r. am_path (sr_metadata r)) (ps_results p) = filter (scannable (provider sc)) targets
          \<and> map see_path (ps_errors p) = filter (\<lambda>t. \<not> scannable (provider sc) t) targets
          \<and> sorted_wrt (<) (map path_components targets) \<and> set targets \<subseteq> set files
          \<and> path_components ` set targets = path_components ` set files"
proof (cases "path_exists (provider sc) path")
  case ex: True
  show ?thesis
  proof (cases "fs_is_file (provider sc) path")
    case True
    have one: "path_set [path] = [path]" by (simp add: path_set_def)
    show ?thesis
      by (cases rule: scan_file_cases [of sc path lib clk])
         (simp_all add: scan_package_def ex True one)
  next
    case False
    show ?thesis
    proof (cases "package_entrypoints lib sc path = []")
      case True
      then show ?thesis using ex False by (simp add: scan_package_def package_targets_eq)
    next
      case some: False
      obtain p where "scan_targets lib clk sc \<lparr>ps_results = [], ps_errors = []\<rparr> (path_set (package_files lib sc path)) = Some p"
        "map (\<lambda>r. am_path (sr_metadata r)) (ps_results p) = filter (scannable (provider sc)) (path_set (package_files lib sc path))"
        "map see_path (ps_errors p) = filter (\<lambda>t. \<not> scannable (provider sc) t) (path_set (package_files lib sc path))"
        using scan_targets_accounts [of lib clk sc "\<lparr>ps_results = [], ps_errors = []\<rparr>"] by auto
      then show ?thesis
        using ex False some path_set_exact [of "package_files lib sc path"]
        by (simp add: scan_package_def package_targets_eq)
    qed
  qed
qed (simp add: scan_package_def)

lemma dedup_located:
  assumes "\<forall>f \<in> set fs. artifact_path f \<noteq> None" and m: "m \<in> set (fst (deduplicate_findings fs))"
  shows "artifact_path m \<noteq> None"
proof -
  have "dedup_key m \<in> dedup_key ` set fs" using imageI [OF m, of dedup_key] unfolding dedup_keys .
  then obtain f where f: "f \<in> set fs" "dedup_key m = dedup_key f" by (rule imageE)
  have "artifact_path m = artifact_path f" using f(2) by (simp add: dedup_key_def)
  with assms(1) f(1) show ?thesis by simp
qed

lemma contextualize_located: "f \<in> set (contextualize_findings fs kind path) \<Longrightarrow> artifact_path f \<noteq> None"
  by (auto simp: contextualize_findings_def with_artifact_def)

lemma raw_findings_located:
  assumes "collect_raw_findings lib sc doc path kind deps = Some (raw, g)"
  shows "\<forall>f \<in> set raw. artifact_path f \<noteq> None"
proof
  fix f
  assume f: "f \<in> set raw"
  obtain taint where taint: "\<forall>f \<in> set taint. artifact_path f \<noteq> None"
    and eq: "collect_raw_findings lib sc doc path kind deps
      = Some (contextualize_findings (direct_findings lib sc doc path kind deps) kind path
                 @ fst (deduplicate_findings taint), build_artifact_graph (sl_detectors lib) (provider sc) doc)"
    by (rule raw_findings_return [of lib sc doc path kind deps])
  have "raw = contextualize_findings (direct_findings lib sc doc path kind deps) kind path
      @ fst (deduplicate_findings taint)"
    using eq assms by simp
  with f consider "f \<in> set (contextualize_findings (direct_findings lib sc doc path kind deps) kind path)"
    | "f \<in> set (fst (deduplicate_findings taint))" by auto
  then show "artifact_path f \<noteq> None"
    by cases (erule contextualize_located, rule dedup_located [OF taint])
qed

text \<open>Where the directives are read.\<close>

lemma finding_sources_named: "src \<in> set (finding_sources fs seen findings) \<Longrightarrow> Some (fst src) \<in> artifact_path ` set findings"
proof (induction findings arbitrary: seen)
  case (Cons f findings)
  show ?case
  proof (cases "artifact_path f")
    case None
    then show ?thesis using Cons by simp
  next
    case (Some p)
    have new: "fst x = p"
      if "x \<in> set (if regular_file fs p then
            (case read_text_file_lossy fs p of Inr (content, w) \<Rightarrow> [(p, content)] | Inl e \<Rightarrow> []) else [])" for x
      using that by (cases "regular_file fs p"; cases "read_text_file_lossy fs p") (simp_all add: case_prod_unfold)
    show ?thesis
    proof (cases "path_components p \<in> seen")
      case True
      then have "src \<in> set (finding_sources fs seen findings)" using Cons.prems Some by simp
      then show ?thesis using Cons.IH by auto
    next
      case False
      let ?own = "if regular_file fs p then
            (case read_text_file_lossy fs p of Inr (content, w) \<Rightarrow> [(p, content)] | Inl e \<Rightarrow> []) else []"
      have "finding_sources fs seen (f # findings) = ?own @ finding_sources fs (insert (path_components p) seen) findings"
        using Some False by simp
      with Cons.prems consider "src \<in> set ?own"
        | "src \<in> set (finding_sources fs (insert (path_components p) seen) findings)" by (metis Un_iff set_append)
      then show ?thesis
      proof cases
        case 1
        have "Some (fst src) = artifact_path f" using new [OF 1] Some by (simp only:)
        then show ?thesis by (rule image_eqI) simp
      next
        case 2
        then show ?thesis using Cons.IH [OF 2] by simp
      qed
    qed
  qed
qed simp

lemma readable_supporting_named:
  "src \<in> set (readable_supporting_artifacts sc doc) \<Longrightarrow> fst src \<in> set (collect_supporting_artifact_paths sc doc)"
  by (auto simp: readable_supporting_artifacts_def List.map_filter_def split: sum.splits)

lemma suppression_sources_named:
  "fst ` set (suppression_sources sc raw path doc content)
     \<subseteq> insert path (set (collect_supporting_artifact_paths sc doc) \<union> {p. Some p \<in> artifact_path ` set raw})"
  unfolding suppression_sources_def
  by (rule image_subsetI) (auto dest: finding_sources_named readable_supporting_named)

definition silenced_by_own_file :: "(string \<times> string) list \<Rightarrow> finding list \<Rightarrow> finding \<Rightarrow> bool" where
  "silenced_by_own_file sources raw h \<longleftrightarrow>
     list_ex (\<lambda>f. h\<lparr>suppression := suppression f\<rparr> = f \<and> suppression h \<noteq> None
       \<and> (case artifact_path f of
            None \<Rightarrow> False
          | Some ap \<Rightarrow> list_ex (\<lambda>(p, content). paths_match ap p) sources)) raw"

lemma matched_by_own_file:
  assumes "s \<in> set (collect_inline_suppressions re parse_json parse_time sources)"
    and "suppression_matches now pp f s" "artifact_path f = Some ap"
  shows "list_ex (\<lambda>(p, content). paths_match ap p) sources"
proof -
  obtain p content where "(p, content) \<in> set sources" "directive_ok p (length (str_lines content)) s"
    by (rule collected_directive [OF assms(1)])
  moreover have "paths_match ap (is_path s)"
    using assms(2,3) by (auto simp: suppression_matches_def suppression_path_matches_def split: if_splits)
  ultimately show ?thesis by (auto simp: list_ex_iff directive_ok_def)
qed

lemma apply_suppressions_eq:
  "apply_inline_suppressions now fs ss pp =
     (filter (\<lambda>f. find (suppression_matches now pp f) ss = None) fs,
      List.map_filter (\<lambda>f. map_option (\<lambda>s. tag_suppressed s f) (find (suppression_matches now pp f) ss)) fs)"
proof (cases "ss = []")
  case True
  have "List.map_filter (\<lambda>f. None) fs = ([] :: finding list)" by (induction fs) (simp_all add: map_filter_simps)
  with True show ?thesis by (simp add: apply_inline_suppressions_def)
next
  case False
  then show ?thesis by (simp add: apply_inline_suppressions_def suppress_fold list_ex_iff find_None_iff Ball_def)
qed

lemma map_filter_split:
  "length (filter (\<lambda>x. f x = None) xs) + length (List.map_filter (\<lambda>x. map_option (g x) (f x)) xs) = length xs"
  by (induction xs) (auto simp: map_filter_simps split: option.split)


section \<open>A blocking finding reaches the result\<close>

text \<open>The findings of a scan that no inline directive silences.\<close>

definition unsilenced_findings :: "'i scan_lib \<Rightarrow> scan_clock \<Rightarrow> scanner \<Rightarrow> string \<Rightarrow> skill_document \<Rightarrow> finding list" where
  "unsilenced_findings lib clk sc path doc =
     (case collect_raw_findings lib sc doc path (artifact_kind_for_path path)
             (collect_dependency_inventory lib sc doc path (doc_raw_content doc)) of
        None \<Rightarrow> []
      | Some (raw, g) \<Rightarrow>
          if sc_honor_inline_suppressions sc
          then fst (collect_and_apply_suppressions lib clk sc raw path doc (doc_raw_content doc)) else raw)"

lemma scan_document_fields:
  obtains r where "scan_document lib clk sc path doc = Some r"
    "sr_findings r = filter_findings (sl_sha lib) (at_overrides clk) (at_waivers clk) (sc_filter sc)
        (fst (deduplicate_findings (unsilenced_findings lib clk sc path doc)))"
    "sr_should_fail r = should_fail (sc_filter sc) (sr_findings r)"
    "sr_verdict r = pv_verdict (derive_package_verdict (sr_findings r) (sr_primary_summary r)
        (sr_supporting_summary r) (sr_summary r))"
proof -
  obtain raw g where eq: "collect_raw_findings lib sc doc path (artifact_kind_for_path path)
      (collect_dependency_inventory lib sc doc path (doc_raw_content doc)) = Some (raw, g)"
    by (rule raw_findings_return)
  note unfold = scan_document_def unsilenced_findings_def eq Let_def case_prod_unfold filter_findings_def
    build_verdict_and_summaries_def
  let ?r = "the (scan_document lib clk sc path doc)"
  show thesis
  proof (rule that)
    show "scan_document lib clk sc path doc = Some ?r" by (simp add: unfold)
    show "sr_findings ?r = filter_findings (sl_sha lib) (at_overrides clk) (at_waivers clk) (sc_filter sc)
        (fst (deduplicate_findings (unsilenced_findings lib clk sc path doc)))" by (simp add: unfold)
    show "sr_should_fail ?r = should_fail (sc_filter sc) (sr_findings ?r)" by (simp add: unfold)
    show "sr_verdict ?r = pv_verdict (derive_package_verdict (sr_findings ?r) (sr_primary_summary ?r)
        (sr_supporting_summary ?r) (sr_summary ?r))"
      by (simp add: unfold)
  qed
qed

lemma merged_block:
  assumes "f \<in> set fs" "f_action f = Block"
  obtains m where "m \<in> set (fst (deduplicate_findings fs))" "dedup_key m = dedup_key f" "f_action m = Block"
    "f_severity f \<le> f_severity m"
proof -
  have "dedup_key f \<in> dedup_key ` set (fst (deduplicate_findings fs))"
    unfolding dedup_keys using assms(1) by (rule imageI)
  then obtain m where m: "m \<in> set (fst (deduplicate_findings fs))" "dedup_key m = dedup_key f" by fastforce
  let ?S = "{x \<in> set fs. dedup_key x = dedup_key m}"
  have f: "f \<in> ?S" using assms(1) m(2) by simp
  have "f_severity m = Max (f_severity ` ?S)" "f_action m = Max (f_action ` ?S)"
    by (rule dedup_strongest [OF m(1)])+
  moreover have "f_severity f \<le> Max (f_severity ` ?S)" "f_action f \<le> Max (f_action ` ?S)"
    by (rule Max_ge [OF _ imageI [OF f]], simp)+
  ultimately have "f_severity f \<le> f_severity m" "f_action f \<le> f_action m" by (simp_all only:)
  then have "f_action m = Block" using assms(2) by (cases "f_action m") (simp_all add: less_eq_recommended_action_def)
  then show thesis using m \<open>f_severity f \<le> f_severity m\<close> by (intro that)
qed


text \<open>The hypotheses hold: a scanner with default options and an engine that reports one blocking finding.\<close>

definition sample_lib :: "unit scan_lib" where
  "sample_lib =
     \<lparr>sl_document =
        \<lparr>dl_parse_sections = (\<lambda>s. Inr []),
         dl_reference_patterns = \<lparr>link_captures = (\<lambda>s. []), command_captures = (\<lambda>s. []), exec_captures = (\<lambda>s. [])\<rparr>,
         dl_assessment_patterns =
           \<lparr>imperative_language = (\<lambda>s. False), numbered_list = (\<lambda>s. False), persistence_language = (\<lambda>s. False),
            referenced_artifacts = (\<lambda>s. False), mcp_structure = (\<lambda>s. False), agent_instruction = (\<lambda>s. False),
            mcp_heuristic = (\<lambda>s. False)\<rparr>\<rparr>,
      sl_detectors =
        \<lparr>run_detector = (\<lambda>d p c s doc. []), run_relations = (\<lambda>d c. []), run_capabilities = (\<lambda>d c. []),
         run_expected_lockfiles = (\<lambda>d c. []), strip_comments = (\<lambda>p c. c)\<rparr>,
      sl_rules =
        \<lparr>ru_compile = (\<lambda>p. Inr (\<lambda>s. [\<lparr>pm_start = 0, pm_text = p\<rparr>])), ru_char_lower = (\<lambda>c. (c, [])),
         ru_str_lower = (\<lambda>s. s)\<rparr>,
      sl_refinement = \<lparr>rl_parse_url = (\<lambda>u. None), rl_transport_urls = (\<lambda>s. []), rl_negation = (\<lambda>s. False)\<rparr>,
      sl_claims =
        \<lparr>dc_claims = (\<lambda>k. []), dc_contradictions = (\<lambda>k. []), dc_crypto_language = (\<lambda>s. False)\<rparr>,
      sl_taint = \<lparr>url_parse = (\<lambda>u. None), alphanumeric = (\<lambda>c. False)\<rparr>,
      sl_popular_names = (\<lambda>e. []), sl_parse_json = (\<lambda>s. Inl []),
      sl_parse_yaml_ok = (\<lambda>s. True), sl_parse_toml = (\<lambda>s. None),
      sl_suppression_patterns = \<lparr>standalone_captures = (\<lambda>l. []), inline_captures = (\<lambda>l. [])\<rparr>,
      sl_parse_time = (\<lambda>s. Inl []), sl_sha = (\<lambda>s. s), sl_iocs_of_artifact = (\<lambda>p b. ()),
      sl_iocs_of_text = (\<lambda>s. ()), sl_merge_iocs = (\<lambda>a b. ())\<rparr>"

definition sample_rule :: rule where
  "sample_rule =
     \<lparr>ru_id = ''EXFIL'', ru_category = RemoteExec, ru_severity = High, ru_confidence = Fin 1,
      ru_condition = RC_Regex ''x'', ru_action = Block, ru_reason = [], ru_shield = None, ru_enabled = True, ru_tags = [],
      ru_taxonomy_tags = [], ru_promptintel_threats = [], ru_requires_code_artifact = False,
      ru_downgrade_when_confirmation_gate = False, ru_downgrade_when_documentation_context = False\<rparr>"

definition sample_engine :: rule_engine where
  "sample_engine = with_matcher\<lparr>en_rules := List.map_filter (\<lambda>r.
     case compile_rule (sl_rules sample_lib) r of Inl e \<Rightarrow> None | Inr cr \<Rightarrow> Some cr) [sample_rule]\<rparr>"

definition sample_scanner :: scanner where
  "sample_scanner =
     \<lparr>sc_discovery = \<lparr>fd_recursive = True, fd_provider = default_provider (\<lambda>p. Inr []) (\<lambda>d p r. Inr []) (\<lambda>p. True)\<rparr>,
      sc_engine = sample_engine,
      sc_filter = new_service
        \<lparr>so_min_severity = Some Critical, so_fail_on = Some Critical, so_profile = None, so_include_rules = [],
         so_exclude_rules = [], so_target_mode = Target_Auto\<rparr>,
      sc_honor_inline_suppressions = False\<rparr>"

definition sample_document :: skill_document where
  "sample_document = parse_with_parser (sl_document sample_lib) ''SKILL.md'' ''x''"

lemma unsilenced_direct:
  assumes "f \<in> set (direct_findings lib sc doc path (artifact_kind_for_path path)
      (collect_dependency_inventory lib sc doc path (doc_raw_content doc)))"
    and "artifact_path f = None" "\<not> sc_honor_inline_suppressions sc"
  shows "with_artifact (artifact_kind_for_path path) path f \<in> set (unsilenced_findings lib clk sc path doc)"
proof -
  let ?kind = "artifact_kind_for_path path"
  let ?deps = "collect_dependency_inventory lib sc doc path (doc_raw_content doc)"
  obtain taint where "collect_raw_findings lib sc doc path ?kind ?deps
       = Some (contextualize_findings (direct_findings lib sc doc path ?kind ?deps) ?kind path
                 @ fst (deduplicate_findings taint), build_artifact_graph (sl_detectors lib) (provider sc) doc)"
    by (rule raw_findings_return [of lib sc doc path ?kind ?deps])
  then have "set (unsilenced_findings lib clk sc path doc)
      = set (contextualize_findings (direct_findings lib sc doc path ?kind ?deps) ?kind path)
        \<union> set (fst (deduplicate_findings taint))"
    using assms(3) by (simp add: unsilenced_findings_def)
  then show ?thesis using assms(1,2) by (force simp: contextualize_findings_def)
qed

lemma build_artifact_path: "artifact_path (build b) = b_artifact_path b"
  by (simp add: build_def Let_def case_prod_unfold)

lemma sample_engine_reports:
  "\<exists>f. engine_evaluate (sl_rules sample_lib) sample_engine doc = [f] \<and> rule_id f = ''EXFIL'' \<and> f_action f = Block
     \<and> artifact_path f = None"
  by (simp add: engine_evaluate_def sample_engine_def sample_lib_def sample_rule_def with_matcher_def compile_rule_def
      map_filter_simps rule_matches_def check_regex_condition_def with_line_def created_finding downgrade_notes_def
      create_finding_with_doc_def build_with_def build_fields build_artifact_path builder_new_def)


end
