(* ===== verification/Spec2Isabelle.thy ===== *)
theory Spec2Isabelle
  imports Nova_Round_Trip Nova_Engine Rate_Limit Toml_Manifests Scan_Guarantees
begin

text \<open>
  Verification library of skill-veil, a static scanner for AI agent skills and MCP packages. The program
  is the crate \<open>skill-veil-core\<close> (under \<open>src/crates/skill-veil-core/src\<close>) and the command line around it,
  \<open>skill-veil-cli\<close>. File names below are relative to the former unless they begin with \<open>cli:\<close>.

  \<^bold>\<open>How the program works.\<close> \<open>Scanner::scan\<close> (\<open>scanner/mod.rs\<close>) is given a file or a directory. For a directory it
  discovers the entrypoints, manifests and lockfiles and scans each of them. The scan of one file
  (\<open>scanner_execution.rs\<close>) loads the document, finds its supporting artifacts, collects findings from the
  rule engine and the detectors, refines a few of them, builds the artifact graph and derives taint
  findings from it; then inline directives suppress findings, duplicates are merged, the filter
  applies overrides, feedback, severity, waivers and baseline, and what is left is summarised,
  calibrated and turned into a verdict and a failure decision. The NOVA rule language is a second
  way of writing rules that the command line evaluates beside a scan.

  \<^bold>\<open>Theories and code.\<close>
    \<^item> \<open>Prelude\<close>: stable sorting by a comparator, ordered maps (\<open>BTreeMap::entry\<close>), byte strings and their
      UTF-8 characters, results. The interfaces are the locales \<open>comparator_laws\<close>, \<open>entry_map\<close> and
      \<open>ordered_entry_map\<close>, interpreted on the model's own structures. \<open>F32\<close>: IEEE single precision with
      rounding to nearest even, infinities and NaN.
    \<^item> \<open>Findings\<close>, \<open>Builder\<close>, \<open>Dedup\<close>: \<open>findings/enums.rs\<close>, \<open>types.rs\<close>, \<open>builder.rs\<close>, \<open>calibration.rs\<close>, \<open>dedup.rs\<close>.
      An enum is a datatype with its order as an instance of \<open>linorder\<close>, a struct is a record.
    \<^item> \<open>Paths\<close>, \<open>Path_Safety\<close>: Rust paths as their components, \<open>policy/fingerprint.rs\<close> (path matching),
      \<open>path_safety.rs\<close>, \<open>analyzer/references.rs\<close>.
    \<^item> \<open>Documents\<close>, \<open>File_Discovery\<close>: \<open>ports.rs\<close> (the file system port as a record of functions, lossy
      UTF-8), \<open>analyzer/*\<close>, \<open>services/file_discovery/*\<close>.
    \<^item> \<open>Artifact_Graph\<close>, \<open>Artifact_Dispatch\<close>, \<open>Scanner_Graph\<close>: \<open>artifact_graph.rs\<close>,
      \<open>services/artifact_orchestration/dispatch.rs\<close>, \<open>scanner_graph.rs\<close>. A graph is the result of a list of
      additions.
    \<^item> \<open>Trusted_Hosts\<close>, \<open>Sibling_Clusters\<close>, \<open>Artifact_Taint\<close>: \<open>artifact_taint.rs\<close> and \<open>artifact_taint/*\<close>, with the
      union-find of \<open>utils.rs\<close> over an explicit parent array.
    \<^item> \<open>Rule_Matching\<close>, \<open>Rule_Loading\<close>: \<open>rules/*\<close>. Compilation and evaluation of a rule, and the engine as a record
      that every loading operation returns updated, also when it fails half way.
    \<^item> \<open>Typosquat\<close>, \<open>Native_Refinement\<close>: \<open>detectors/typosquat.rs\<close>, \<open>detectors/rule_refinement.rs\<close>,
      \<open>detectors/bytecode.rs\<close>, \<open>net_util.rs\<close>.
    \<^item> \<open>Deceptive_Docs\<close>, \<open>Unicode_Deception\<close>, \<open>Dependency_Inventory\<close>, \<open>Lockfiles\<close>: \<open>deceptive_docs.rs\<close>,
      \<open>unicode_deception.rs\<close>, \<open>dependency_inventory.rs\<close> with \<open>detectors/manifests/python/mod.rs\<close>,
      \<open>detectors/lockfiles.rs\<close> with \<open>services/artifact_orchestration/network.rs\<close>. The first three are part of every
      scan; the lockfile detectors fill their places in the record of detectors a scan is given.
    \<^item> \<open>Shell_Commands\<close>, \<open>Config_Manifests\<close>: the scanners for command words of \<open>detectors/patterns.rs\<close>; the detectors
      for .npmrc, pip.conf, requirements.txt and package.json, \<open>detectors/manifests/javascript/*\<close>,
      \<open>detectors/manifests/python/pip_conf.rs\<close> and \<open>requirements.rs\<close>, which fill further places of that record.
    \<^item> \<open>Container_Manifests\<close>: \<open>detectors/manifests/container/*\<close> (compose files over a datatype of YAML values,
      Dockerfiles) and \<open>detectors/manifests/build.rs\<close> (Makefiles), with their places in that record. \<open>Toml_Manifests\<close>: \<open>rust_cargo.rs\<close>, \<open>python/pyproject.rs\<close>.
    \<^item> \<open>Inline_Suppressions\<close>: \<open>inline_suppressions.rs\<close>.
    \<^item> \<open>Policy_Files\<close>, \<open>Policy_State\<close>, \<open>Disposition\<close>, \<open>Scan_Filter\<close>: \<open>policy/*\<close> and \<open>services/scan_filter/mod.rs\<close>.
    \<^item> \<open>Capability_Scoring\<close>, \<open>Summary\<close>, \<open>Root_Causes\<close>, \<open>Verdict_Calibration\<close>, \<open>Verdict_Parts\<close>, \<open>Verdict\<close>:
      \<open>findings/capability_scoring.rs\<close>, \<open>findings/summary.rs\<close>, \<open>verdict_calibration.rs\<close>, \<open>verdict.rs\<close> and \<open>verdict/*\<close>.
    \<^item> \<open>Scan_Pipeline\<close>: \<open>scanner_execution.rs\<close>, \<open>scanner_support.rs\<close>, \<open>scanner_types.rs\<close>, \<open>scanner/mod.rs\<close>. The
      composition of the theories above.
    \<^item> \<open>Nova_Condition\<close>, \<open>Nova_Grammar\<close>, \<open>Nova_Rules\<close>, \<open>Nova_Engine\<close>, \<open>Nova_Round_Trip\<close>: \<open>nova/*\<close>, from the bytes
      of a rule file to findings.
    \<^item> \<open>Rate_Limit\<close>: \<open>cli:promptintel/feed/ratelimit.rs\<close>, a state machine over a clock.

  \<^bold>\<open>What the lemmas show.\<close>
    \<^item> The scan (\<open>Scan_Guarantees\<close>): it returns on every input, accounts for every target, reads supporting
      files only inside the document's directory, silences findings only from their own file, and never
      loses a blocking finding. The parts this rests on are proved where they are defined: graph
      contents, discovery, loading, refinement, merging of duplicates, filtering, verdict.
    \<^item> Verdicts: the exact condition for \<open>Malicious\<close>, which findings exclude \<open>Benign\<close>, and that calibration does
      not hide evidence. Scores: equality with a set-based reference and monotonicity in \<open>f32\<close>.
    \<^item> Policies: precedence of the stages, overrides, baselines, report comparison, and the exact
      acceptance condition of the validators.
    \<^item> Rules: evaluation equals the meaning of the condition; loading only appends compiled rules with new
      ids, and never from a pack whose checksum is wrong.
    \<^item> Checks of their own: exactly which contradicted claims, hidden characters, dependencies and lockfile
      sources are reported, each against a description that does not follow the loops of the code.
    \<^item> Commands and configuration: the scanner for commands equals a description by groups of words; an npm
      credential is reported and never shown; findings, capabilities and relations of a compose file agree.
    \<^item> NOVA: the parser returns, what it accepts is well formed, printing and parsing are inverse, and
      the three-valued evaluator is sound for skipped evidence.
    \<^item> Refinements: root-cause groups, sibling clusters (union-find against connected components), edit
      distance (three-row dynamic programme against single edits), containment of paths (depth counter
      against the resolved path).

  \<^bold>\<open>Integers, strings, floats and termination.\<close> Strings are lists of bytes. Scores are \<open>nat\<close> with the saturation of
  the source written out, or \<open>int\<close> where they can be negative; no sum in the modelled code reaches its
  width, which the bounds on its inputs show. Every recursive function is total: loops of the source
  are structural recursion or have a measure. The two loops that follow data of their own (path
  halving in the union-find, and with it the taint analysis) run with fuel or in the option monad, and
  \<open>sibling_clusters_components\<close> and \<open>scan_always_returns\<close> show that they always return. The recursion of the condition parser is
  bounded by the length of the token list.

  \<^bold>\<open>Parameters.\<close> Third-party code and the operating system are arguments of the definitions that use them:
  regexes, the URL, JSON, YAML, TOML and Markdown parsers, SHA-256, NFKC and Unicode tables, the file
  system and the clock. A property needs no hypothesis about them unless it states one.

  \<^bold>\<open>Not modelled.\<close> The adapters that bind these parameters; the other detectors (scripts, instructions, MCP,
  network and permissions), which are almost entirely tables of regexes and enter the scan as
  the parameter \<open>sl_detectors\<close>; the YARA engine; indicator extraction (a parameter as well); the JSON,
  SARIF and text renderers; the benchmark; log lines; and the command line with its network,
  language-model and sandbox parts, the rate limiter apart.
\<close>

end
